(* ===== verification/Utf8.thy ===== *)
theory Utf8
  imports Prelude
begin

text \<open>
  The strict UTF-8 codec behind \<open>str.encode\<close> and \<open>bytes.decode\<close>: encoding fails on surrogates
  (\<open>UnicodeEncodeError\<close>), decoding on overlong forms, surrogates, values above \<open>0x10FFFF\<close>,
  stray and missing continuation bytes (\<open>UnicodeDecodeError\<close>). Both failures are \<open>None\<close>.
\<close>

definition surrogate :: "nat \<Rightarrow> bool" where
  "surrogate c \<longleftrightarrow> 55296 \<le> c \<and> c \<le> 57343"

definition code_point :: "nat \<Rightarrow> bool" where
  "code_point c \<longleftrightarrow> c \<le> 1114111"

definition utf8_char :: "nat \<Rightarrow> bytes option" where
  "utf8_char c =
     (if c < 128 then Some [c]
      else if c < 2048 then Some [192 + c div 64, 128 + c mod 64]
      else if surrogate c then None
      else if c < 65536 then Some [224 + c div 4096, 128 + c div 64 mod 64, 128 + c mod 64]
      else if code_point c
        then Some [240 + c div 262144, 128 + c div 4096 mod 64, 128 + c div 64 mod 64, 128 + c mod 64]
      else None)"

fun utf8_encode :: "pystr \<Rightarrow> bytes option" where
  "utf8_encode [] = Some []"
| "utf8_encode (c # cs) =
     (case utf8_char c of None \<Rightarrow> None
      | Some bs \<Rightarrow> (case utf8_encode cs of None \<Rightarrow> None | Some rest \<Rightarrow> Some (bs @ rest)))"

definition cont :: "nat \<Rightarrow> bool" where
  "cont b \<longleftrightarrow> 128 \<le> b \<and> b < 192"

fun utf8_next :: "bytes \<Rightarrow> (nat \<times> bytes) option" where
  "utf8_next [] = None"
| "utf8_next (b # r) =
     (if b < 128 then Some (b, r)
      else if 192 \<le> b \<and> b < 224 then
        (case r of c1 # r1 \<Rightarrow>
           (let v = (b - 192) * 64 + (c1 - 128) in
            if cont c1 \<and> 128 \<le> v then Some (v, r1) else None)
         | _ \<Rightarrow> None)
      else if 224 \<le> b \<and> b < 240 then
        (case r of c1 # c2 # r2 \<Rightarrow>
           (let v = (b - 224) * 4096 + (c1 - 128) * 64 + (c2 - 128) in
            if cont c1 \<and> cont c2 \<and> 2048 \<le> v \<and> \<not> surrogate v then Some (v, r2) else None)
         | _ \<Rightarrow> None)
      else if 240 \<le> b \<and> b < 248 then
        (case r of c1 # c2 # c3 # r3 \<Rightarrow>
           (let v = (b - 240) * 262144 + (c1 - 128) * 4096 + (c2 - 128) * 64 + (c3 - 128) in
            if cont c1 \<and> cont c2 \<and> cont c3 \<and> 65536 \<le> v \<and> code_point v then Some (v, r3) else None)
         | _ \<Rightarrow> None)
      else None)"

lemma utf8_next_shorter: "utf8_next bs = Some (c, r) \<Longrightarrow> length r < length bs"
  by (cases bs) (auto simp: Let_def split: if_splits list.splits)

function utf8_decode :: "bytes \<Rightarrow> pystr option" where
  "utf8_decode bs =
     (if bs = [] then Some []
      else case utf8_next bs of None \<Rightarrow> None
        | Some (c, r) \<Rightarrow> map_option (\<lambda>cs. c # cs) (utf8_decode r))"
  by pat_completeness auto
termination
  by (relation "measure length") (auto dest: utf8_next_shorter)

declare utf8_decode.simps [simp del]
declare utf8_next.simps [simp del]

lemma utf8_decode_Nil [simp]: "utf8_decode [] = Some []"
  by (subst utf8_decode.simps) simp

lemma utf8_char_nonempty: "utf8_char c = Some bs \<Longrightarrow> bs \<noteq> []"
  by (auto simp: utf8_char_def split: if_splits)

lemma digits3: "c div 4096 * 4096 + c div 64 mod 64 * 64 + c mod 64 = (c::nat)"
proof -
  have "c = c div 64 * 64 + c mod 64" by simp
  moreover have "c div 64 = c div 64 div 64 * 64 + c div 64 mod 64" by simp
  moreover have "c div 64 div 64 = c div 4096" by (simp add: div_mult2_eq [symmetric])
  ultimately show ?thesis by linarith
qed

lemma digits4:
  "c div 262144 * 262144 + c div 4096 mod 64 * 4096 + c div 64 mod 64 * 64 + c mod 64 = (c::nat)"
proof -
  have "c div 4096 = c div 4096 div 64 * 64 + c div 4096 mod 64" by simp
  moreover have "c div 4096 div 64 = c div 262144" by (simp add: div_mult2_eq [symmetric])
  ultimately have "c div 4096 * 4096 = c div 262144 * 262144 + c div 4096 mod 64 * 4096" by simp
  with digits3 [of c] show ?thesis by simp
qed

lemma utf8_next_2: "128 \<le> c \<Longrightarrow> c < 2048 \<Longrightarrow>
    utf8_next ((192 + c div 64) # (128 + c mod 64) # r) = Some (c, r)"
proof -
  assume "128 \<le> c" "c < 2048"
  then have "c div 64 < 32" by linarith
  with \<open>128 \<le> c\<close> show ?thesis by (simp add: utf8_next.simps cont_def)
qed

lemma utf8_next_3: "2048 \<le> c \<Longrightarrow> c < 65536 \<Longrightarrow> \<not> surrogate c \<Longrightarrow>
    utf8_next ((224 + c div 4096) # (128 + c div 64 mod 64) # (128 + c mod 64) # r) = Some (c, r)"
proof -
  assume c: "2048 \<le> c" "c < 65536" "\<not> surrogate c"
  then have "c div 4096 < 16" by linarith
  moreover have "c div 64 mod 64 < 64" "c mod 64 < 64" by simp_all
  ultimately show ?thesis using c digits3 [of c]
    by (simp add: utf8_next.simps cont_def del: mod_mult_self1_is_0)
qed

lemma utf8_next_4: "65536 \<le> c \<Longrightarrow> code_point c \<Longrightarrow>
    utf8_next ((240 + c div 262144) # (128 + c div 4096 mod 64) # (128 + c div 64 mod 64)
      # (128 + c mod 64) # r)
      = Some (c, r)"
proof -
  assume c: "65536 \<le> c" "code_point c"
  then have "c div 262144 < 8" unfolding code_point_def by linarith
  moreover have "c div 4096 mod 64 < 64" "c div 64 mod 64 < 64" "c mod 64 < 64" by simp_all
  ultimately show ?thesis using c digits4 [of c]
    by (simp add: utf8_next.simps cont_def)
qed

lemma utf8_next_char: "utf8_char c = Some bs \<Longrightarrow> utf8_next (bs @ r) = Some (c, r)"
proof -
  assume e: "utf8_char c = Some bs"
  consider "c < 128" | "128 \<le> c" "c < 2048" | "2048 \<le> c" "c < 65536" "\<not> surrogate c"
    | "65536 \<le> c" "code_point c" "\<not> surrogate c"
    using e by (fastforce simp: utf8_char_def split: if_splits)
  then show ?thesis
  proof cases
    case 1
    with e show ?thesis by (auto simp: utf8_char_def utf8_next.simps)
  next
    case 2
    with e utf8_next_2 [of c r] show ?thesis by (auto simp: utf8_char_def)
  next
    case 3
    with e utf8_next_3 [of c r] show ?thesis by (auto simp: utf8_char_def)
  next
    case 4
    with e utf8_next_4 [of c r] show ?thesis by (auto simp: utf8_char_def)
  qed
qed

lemma utf8_decode_char: "utf8_char c = Some bs \<Longrightarrow> utf8_decode (bs @ r) = map_option (\<lambda>cs. c # cs) (utf8_decode r)"
  by (subst utf8_decode.simps) (simp add: utf8_next_char utf8_char_nonempty)

lemma utf8_decode_encode: "utf8_encode t = Some bs \<Longrightarrow> utf8_decode bs = Some t"
  by (induction t arbitrary: bs) (auto simp: utf8_decode_char split: option.splits)

text \<open>The converse: what decodes is the encoding of its text, byte for byte.\<close>

lemma base64: "w < 64 \<Longrightarrow> (m * 64 + w) div 64 = (m::nat)" "w < 64 \<Longrightarrow> (m * 64 + w) mod 64 = w"
  by simp_all

lemma utf8_char_2:
  assumes "192 \<le> b" "b < 224" "cont c1" "128 \<le> (b - 192) * 64 + (c1 - 128)"
  shows "utf8_char ((b - 192) * 64 + (c1 - 128)) = Some [b, c1]"
proof -
  obtain p q where "b = 192 + p" "c1 = 128 + q"
    using assms(1,3) unfolding cont_def by (metis le_Suc_ex)
  moreover from this have "p < 32" "q < 64" using assms(2,3) by (simp_all add: cont_def)
  ultimately show ?thesis using assms by (simp add: utf8_char_def)
qed

lemma utf8_char_3:
  assumes "224 \<le> b" "b < 240" "cont c1" "cont c2"
    and "v = (b - 224) * 4096 + (c1 - 128) * 64 + (c2 - 128)" "2048 \<le> v" "\<not> surrogate v"
  shows "utf8_char v = Some [b, c1, c2]"
proof -
  obtain p q u where e: "b = 224 + p" "c1 = 128 + q" "c2 = 128 + u"
    using assms(1,3,4) unfolding cont_def by (metis le_Suc_ex)
  then have l: "p < 16" "q < 64" "u < 64" using assms(2-4) by (simp_all add: cont_def)
  have v: "v = (p * 64 + q) * 64 + u" using assms(5) e by simp
  have "v div 64 = p * 64 + q" "v mod 64 = u" unfolding v by (rule base64, rule l)+
  moreover have "v div 4096 = v div 64 div 64" by (simp add: div_mult2_eq [symmetric])
  ultimately have "v div 4096 = p" "v div 64 mod 64 = q" "v mod 64 = u"
    by (simp_all only: base64 l)
  moreover have "v < 65536" using v l by simp
  ultimately show ?thesis using assms(6,7) e by (simp add: utf8_char_def)
qed

lemma utf8_char_4:
  assumes "240 \<le> b" "cont c1" "cont c2" "cont c3"
    and "v = (b - 240) * 262144 + (c1 - 128) * 4096 + (c2 - 128) * 64 + (c3 - 128)"
    and "65536 \<le> v" "code_point v"
  shows "utf8_char v = Some [b, c1, c2, c3]"
proof -
  obtain p q u w where e: "b = 240 + p" "c1 = 128 + q" "c2 = 128 + u" "c3 = 128 + w"
    using assms(1-4) unfolding cont_def by (metis le_Suc_ex)
  then have l: "q < 64" "u < 64" "w < 64" using assms(2-4) by (simp_all add: cont_def)
  have v: "v = ((p * 64 + q) * 64 + u) * 64 + w" using assms(5) e by simp
  have 1: "v div 64 = (p * 64 + q) * 64 + u" "v mod 64 = w" unfolding v by (rule base64, rule l)+
  have 2: "v div 4096 = v div 64 div 64" by (simp add: div_mult2_eq [symmetric])
  have 3: "v div 262144 = v div 64 div 64 div 64" by (simp add: div_mult2_eq [symmetric])
  have "v div 4096 = p * 64 + q" unfolding 2 1 by (rule base64, rule l)
  moreover have "v div 262144 = p" unfolding 3 1 by (simp only: base64 l)
  ultimately have "v div 262144 = p" "v div 4096 mod 64 = q" "v div 64 mod 64 = u" "v mod 64 = w"
    using 1 by (simp_all only: base64 l)
  moreover have "\<not> surrogate v" using assms(6) by (simp add: surrogate_def)
  ultimately show ?thesis using assms(6,7) e by (simp add: utf8_char_def)
qed

lemma utf8_next_inv:
  assumes "utf8_next bs = Some (c, r)"
  shows "\<exists>p. utf8_char c = Some p \<and> bs = p @ r"
proof -
  from assms obtain b t where bs: "bs = b # t" by (cases bs) (auto simp: utf8_next.simps)
  consider "b < 128" | "192 \<le> b" "b < 224" | "224 \<le> b" "b < 240" | "240 \<le> b" "b < 248"
    using assms bs by (fastforce simp: utf8_next.simps split: if_splits)
  then show ?thesis
  proof cases
    case 1
    with assms bs show ?thesis by (simp add: utf8_next.simps utf8_char_def)
  next
    case 2
    with assms bs obtain c1 where "t = c1 # r" "cont c1" "128 \<le> c" "c = (b - 192) * 64 + (c1 - 128)"
      by (auto simp: utf8_next.simps Let_def split: if_splits list.splits)
    with utf8_char_2 [OF 2] bs show ?thesis by simp
  next
    case 3
    with assms bs obtain c1 c2 where "t = c1 # c2 # r" "cont c1" "cont c2"
      "c = (b - 224) * 4096 + (c1 - 128) * 64 + (c2 - 128)" "2048 \<le> c" "\<not> surrogate c"
      by (auto simp: utf8_next.simps Let_def simp del: diff_add_assoc2 split: if_splits list.splits)
    with utf8_char_3 [OF 3] bs show ?thesis by simp
  next
    case 4
    with assms bs obtain c1 c2 c3 where "t = c1 # c2 # c3 # r" "cont c1" "cont c2" "cont c3"
      "c = (b - 240) * 262144 + (c1 - 128) * 4096 + (c2 - 128) * 64 + (c3 - 128)"
      "65536 \<le> c" "code_point c"
      by (auto simp: utf8_next.simps Let_def split: if_splits list.splits)
    with utf8_char_4 [OF 4(1)] bs show ?thesis by simp
  qed
qed

lemma utf8_encode_decode: "utf8_decode bs = Some t \<Longrightarrow> utf8_encode t = Some bs"
proof (induction bs arbitrary: t rule: utf8_decode.induct)
  case (1 bs)
  show ?case
  proof (cases "bs = []")
    case False
    with "1.prems" obtain c r where n: "utf8_next bs = Some (c, r)"
      by (subst (asm) utf8_decode.simps) (auto split: option.splits)
    with "1.prems" False obtain cs where cs: "utf8_decode r = Some cs" and t: "t = c # cs"
      by (subst (asm) utf8_decode.simps) auto
    from n obtain p where "utf8_char c = Some p" "bs = p @ r" using utf8_next_inv by blast
    with "1.IH" [OF False n refl] cs t show ?thesis by simp
  qed (use "1.prems" in simp)
qed

lemma utf8_encode_append:
  "utf8_encode s = Some a \<Longrightarrow> utf8_encode t = Some b \<Longrightarrow> utf8_encode (s @ t) = Some (a @ b)"
  by (induction s arbitrary: a) (auto split: option.splits)


text \<open>
  The \<open>base64\<close> module as the program uses it: \<open>b64encode\<close>, and \<open>b64decode\<close> with
  \<open>validate=True\<close>, which takes only the standard alphabet in groups of four with the padding at the
  end. \<open>None\<close> is the \<open>binascii.Error\<close> it raises otherwise.
\<close>

definition b64_char :: "nat \<Rightarrow> nat" where
  "b64_char n = (if n < 26 then 65 + n else if n < 52 then 71 + n else if n < 62 then n - 4 else if n = 62 then 43 else 47)"

definition b64_value :: "nat \<Rightarrow> nat option" where
  "b64_value c = (if 65 \<le> c \<and> c \<le> 90 then Some (c - 65) else if 97 \<le> c \<and> c \<le> 122 then Some (c - 71)
     else if 48 \<le> c \<and> c \<le> 57 then Some (c + 4) else if c = 43 then Some 62 else if c = 47 then Some 63 else None)"

fun b64_encode :: "bytes \<Rightarrow> pystr" where
  "b64_encode [] = []"
| "b64_encode [a] = [b64_char (a div 4), b64_char (a mod 4 * 16), 61, 61]"
| "b64_encode [a, b] = [b64_char (a div 4), b64_char (a mod 4 * 16 + b div 16), b64_char (b mod 16 * 4), 61]"
| "b64_encode (a # b # c # rest) =
     b64_char (a div 4) # b64_char (a mod 4 * 16 + b div 16) # b64_char (b mod 16 * 4 + c div 64) # b64_char (c mod 64)
       # b64_encode rest"

fun b64_decode :: "pystr \<Rightarrow> bytes option" where
  "b64_decode [] = Some []"
| "b64_decode (w # x # y # z # rest) =
     (case (b64_value w, b64_value x) of
        (Some v, Some u) \<Rightarrow>
          if y = 61 \<and> z = 61 \<and> rest = [] then Some [v * 4 + u div 16]
          else (case b64_value y of
              None \<Rightarrow> None
            | Some t \<Rightarrow>
                if z = 61 \<and> rest = [] then Some [v * 4 + u div 16, u mod 16 * 16 + t div 4]
                else (case (b64_value z, b64_decode rest) of
                    (Some s, Some bs) \<Rightarrow> Some ((v * 4 + u div 16) # (u mod 16 * 16 + t div 4) # (t mod 4 * 64 + s) # bs)
                  | _ \<Rightarrow> None))
      | _ \<Rightarrow> None)"
| "b64_decode _ = None"

lemma b64_value_char [simp]: "n < 64 \<Longrightarrow> b64_value (b64_char n) = Some n"
  by (auto simp: b64_value_def b64_char_def)

lemma b64_char_pad [simp]: "b64_char n \<noteq> 61"
  by (auto simp: b64_char_def)

text \<open>The three octets of a group come back from its four digits.\<close>

lemma b64_first:
  assumes "(a::nat) < 256" "k < 16"
  shows "a div 4 < 64" "a mod 4 * 16 + k < 64" "a div 4 * 4 + (a mod 4 * 16 + k) div 16 = a"
    "(a mod 4 * 16 + k) mod 16 = k"
proof -
  show "a mod 4 * 16 + k < 64" using assms(2) mod_less_divisor [of 4 a] by linarith
  have "(a mod 4 * 16 + k) div 16 = a mod 4" "(a mod 4 * 16 + k) mod 16 = k" using assms(2) by simp_all
  then show "a div 4 * 4 + (a mod 4 * 16 + k) div 16 = a" "(a mod 4 * 16 + k) mod 16 = k" by simp_all
qed (use assms in simp)

lemma b64_second:
  assumes "(b::nat) < 256" "k < 4"
  shows "b div 16 < 16" "b mod 16 * 4 + k < 64" "b div 16 * 16 + (b mod 16 * 4 + k) div 4 = b" "(b mod 16 * 4 + k) mod 4 = k"
proof -
  show "b mod 16 * 4 + k < 64" using assms(2) mod_less_divisor [of 16 b] by linarith
  have "(b mod 16 * 4 + k) div 4 = b mod 16" "(b mod 16 * 4 + k) mod 4 = k" using assms(2) by simp_all
  then show "b div 16 * 16 + (b mod 16 * 4 + k) div 4 = b" "(b mod 16 * 4 + k) mod 4 = k" by simp_all
qed (use assms in simp)

lemma b64_roundtrip: "\<forall>b \<in> set bs. b < 256 \<Longrightarrow> b64_decode (b64_encode bs) = Some bs"
proof (induction bs rule: b64_encode.induct)
  case (2 a)
  then show ?case using b64_first [of a 0] by simp
next
  case (3 a b)
  then have "a < 256" "b < 256" by simp_all
  with b64_second [of b 0] b64_first [of a "b div 16"] show ?case by simp
next
  case (4 a b c rest)
  then have l: "a < 256" "b < 256" "c < 256" "b64_decode (b64_encode rest) = Some rest" by simp_all
  have "c div 64 < 4" using l(3) by simp
  with b64_second [of b "c div 64"] b64_first [of a "b div 16"] l show ?case by simp
qed simp

end
