(* ===== verification/Json.thy ===== *)
theory Json
  imports Complex_Main "HOL-Library.Multiset" Utf8
begin

text \<open>
  Canonical immutable JSON values (\<open>roboagent/message.py\<close>, lines 22-149): \<open>freeze_json\<close> and the
  two frozen containers, their equality, \<open>thaw_json\<close>, canonical text and digest.
  \<open>json\<close> is what \<open>freeze_json\<close> can return; \<open>pyval\<close> is what it can be given. A finite float is
  its rational value (so \<open>-0.0\<close> is \<open>0\<close>). The shortest decimal of a float, which \<open>json.dumps\<close>
  prints, and SHA-256 are parameters (\<open>frepr\<close>, \<open>sha\<close>).
\<close>

datatype protocol_error =
    ProtocolError string
  | UnsupportedContentTypeError string
  | UnsupportedMediaSourceError string

datatype json =
    JNull
  | JBool bool
  | JInt int
  | JFloat rat
  | JStr pystr
  | JArr "json list"
  | JObj "(pystr \<times> json) list"

datatype pyfloat = NaN | Inf bool | Fin rat

text \<open>
  \<open>PMap\<close> is a mapping's item sequence, \<open>PSeq\<close> a list or a tuple, \<open>PFrozen\<close> an already frozen
  array or object, \<open>POther\<close> an object of any other type.
\<close>

datatype pyval =
    PNone
  | PBool bool
  | PInt int
  | PFloat pyfloat
  | PStr pystr
  | PFrozen json
  | PMap "(pyval \<times> pyval) list"
  | PSeq "pyval list"
  | POther

text \<open>
  The constructor of \<open>FrozenJsonObject\<close> walks the items, \<open>seen\<close> holding the keys already built;
  that of \<open>FrozenJsonArray\<close> freezes every element.
\<close>

fun freeze_json :: "pyval \<Rightarrow> protocol_error + json"
  and freeze_items :: "pystr list \<Rightarrow> (pyval \<times> pyval) list \<Rightarrow> protocol_error + (pystr \<times> json) list"
  and freeze_array :: "pyval list \<Rightarrow> protocol_error + json list" where
  "freeze_json PNone = Inr JNull"
| "freeze_json (PBool b) = Inr (JBool b)"
| "freeze_json (PInt i) = Inr (JInt i)"
| "freeze_json (PFloat (Fin r)) = Inr (JFloat r)"
| "freeze_json (PFloat _) = Inl (ProtocolError ''JSON numbers must be finite.'')"
| "freeze_json (PStr s) = Inr (JStr s)"
| "freeze_json (PFrozen j) = Inr j"
| "freeze_json (PMap items) = bind_res (freeze_items [] items) (\<lambda>b. Inr (JObj b))"
| "freeze_json (PSeq vs) = bind_res (freeze_array vs) (\<lambda>b. Inr (JArr b))"
| "freeze_json POther = Inl (ProtocolError ''Unsupported JSON value'')"
| "freeze_items seen [] = Inr []"
| "freeze_items seen ((k, v) # rest) =
     (case k of
        PStr key \<Rightarrow>
          if key \<in> set seen then Inl (ProtocolError ''Duplicate JSON object key'')
          else bind_res (freeze_json v) (\<lambda>frozen.
               bind_res (freeze_items (key # seen) rest) (\<lambda>built. Inr ((key, frozen) # built)))
      | _ \<Rightarrow> Inl (ProtocolError ''JSON object keys must be strings.''))"
| "freeze_array [] = Inr []"
| "freeze_array (v # vs) =
     bind_res (freeze_json v) (\<lambda>x. bind_res (freeze_array vs) (\<lambda>xs. Inr (x # xs)))"

definition freeze_json_object :: "pyval option \<Rightarrow> protocol_error + (pystr \<times> json) list" where
  "freeze_json_object value =
     bind_res (freeze_json (case value of None \<Rightarrow> PMap [] | Some v \<Rightarrow> v))
       (\<lambda>frozen. case frozen of JObj items \<Rightarrow> Inr items
          | _ \<Rightarrow> Inl (ProtocolError ''Expected a JSON object.''))"

fun thaw_json :: "json \<Rightarrow> pyval" where
  "thaw_json (JObj items) = PMap (map (\<lambda>(k, v). (PStr k, thaw_json v)) items)"
| "thaw_json (JArr vs) = PSeq (map thaw_json vs)"
| "thaw_json JNull = PNone"
| "thaw_json (JBool b) = PBool b"
| "thaw_json (JInt i) = PInt i"
| "thaw_json (JFloat r) = PFloat (Fin r)"
| "thaw_json (JStr s) = PStr s"

text \<open>The class invariant of the frozen containers: every object has distinct keys.\<close>

fun json_ok :: "json \<Rightarrow> bool" where
  "json_ok (JObj items) \<longleftrightarrow> distinct (map fst items) \<and> list_all (\<lambda>(k, v). json_ok v) items"
| "json_ok (JArr vs) \<longleftrightarrow> list_all json_ok vs"
| "json_ok _ \<longleftrightarrow> True"

fun pyval_ok :: "pyval \<Rightarrow> bool" where
  "pyval_ok (PFrozen j) \<longleftrightarrow> json_ok j"
| "pyval_ok (PMap items) \<longleftrightarrow> list_all (\<lambda>(k, v). pyval_ok v) items"
| "pyval_ok (PSeq vs) \<longleftrightarrow> list_all pyval_ok vs"
| "pyval_ok _ \<longleftrightarrow> True"

section \<open>Equality\<close>

text \<open>
  Python equality of the frozen values: objects compare as mappings (same size, every key of the
  left one in the right one with an equal value), arrays element by element, and booleans,
  integers and floats as numbers, so that \<open>True == 1 == 1.0\<close>.
\<close>

fun json_num :: "json \<Rightarrow> rat option" where
  "json_num (JBool b) = Some (of_bool b)"
| "json_num (JInt i) = Some (of_int i)"
| "json_num (JFloat r) = Some r"
| "json_num _ = None"

fun json_eq :: "json \<Rightarrow> json \<Rightarrow> bool"
  and items_eq :: "(pystr \<times> json) list \<Rightarrow> (pystr \<times> json) list \<Rightarrow> bool"
  and array_eq :: "json list \<Rightarrow> json list \<Rightarrow> bool" where
  "json_eq (JObj xs) (JObj ys) \<longleftrightarrow> length xs = length ys \<and> items_eq xs ys"
| "json_eq (JArr xs) (JArr ys) \<longleftrightarrow> length xs = length ys \<and> array_eq xs ys"
| "json_eq (JStr s) (JStr t) \<longleftrightarrow> s = t"
| "json_eq JNull JNull \<longleftrightarrow> True"
| "json_eq x y \<longleftrightarrow> json_num x \<noteq> None \<and> json_num x = json_num y"
| "items_eq [] ys \<longleftrightarrow> True"
| "items_eq ((k, v) # xs) ys \<longleftrightarrow>
     (case map_of ys k of None \<Rightarrow> False | Some w \<Rightarrow> json_eq v w) \<and> items_eq xs ys"
| "array_eq (x # xs) (y # ys) \<longleftrightarrow> json_eq x y \<and> array_eq xs ys"
| "array_eq _ _ \<longleftrightarrow> True"

section \<open>Text and digest\<close>

fun nat_digits :: "nat \<Rightarrow> pystr" where
  "nat_digits n = (if n < 10 then [48 + n] else nat_digits (n div 10) @ [48 + n mod 10])"

declare nat_digits.simps [simp del]

definition int_text :: "int \<Rightarrow> pystr" where
  "int_text i = (if i < 0 then 45 # nat_digits (nat (- i)) else nat_digits (nat i))"

definition hex_digit :: "nat \<Rightarrow> nat" where
  "hex_digit d = (if d < 10 then 48 + d else 87 + d)"

text \<open>\<open>json.dumps(ensure_ascii=False)\<close> escapes the quote, the backslash and controls only.\<close>

definition escape_char :: "nat \<Rightarrow> pystr" where
  "escape_char c =
     (if c = 34 then [92, 34]
      else if c = 92 then [92, 92]
      else if c = 10 then ascii [CHR 92, CHR ''n'']
      else if c = 13 then ascii [CHR 92, CHR ''r'']
      else if c = 9 then ascii [CHR 92, CHR ''t'']
      else if c = 12 then ascii [CHR 92, CHR ''f'']
      else if c = 8 then ascii [CHR 92, CHR ''b'']
      else if c < 32 then 92 # ascii ''u00'' @ [hex_digit (c div 16), hex_digit (c mod 16)]
      else [c])"

definition quote :: "pystr \<Rightarrow> pystr" where
  "quote s = 34 # concat (map escape_char s) @ [34]"

fun commas :: "pystr list \<Rightarrow> pystr" where
  "commas [] = []"
| "commas [x] = x"
| "commas (x # xs) = x @ 44 # commas xs"

definition member_text :: "pystr \<times> pystr \<Rightarrow> pystr" where
  "member_text p = quote (fst p) @ 58 # snd p"

fun dumps :: "(rat \<Rightarrow> pystr) \<Rightarrow> bool \<Rightarrow> json \<Rightarrow> pystr" where
  "dumps frepr sort_keys JNull = ascii ''null''"
| "dumps frepr sort_keys (JBool b) = ascii (if b then ''true'' else ''false'')"
| "dumps frepr sort_keys (JInt i) = int_text i"
| "dumps frepr sort_keys (JFloat r) = frepr r"
| "dumps frepr sort_keys (JStr s) = quote s"
| "dumps frepr sort_keys (JArr vs) = 91 # commas (map (dumps frepr sort_keys) vs) @ [93]"
| "dumps frepr sort_keys (JObj items) =
     (let members = map (\<lambda>(k, v). (k, dumps frepr sort_keys v)) items
      in 123 # commas (map member_text (if sort_keys then sort_key fst members else members)) @ [125])"

definition canonical_json_dumps :: "(rat \<Rightarrow> pystr) \<Rightarrow> json \<Rightarrow> pystr" where
  "canonical_json_dumps frepr v = dumps frepr False v"

text \<open>The digest hashes the sorted-key text; \<open>None\<close> stands for \<open>UnicodeEncodeError\<close>.\<close>

definition canonical_json_digest :: "(rat \<Rightarrow> pystr) \<Rightarrow> (bytes \<Rightarrow> pystr) \<Rightarrow> json \<Rightarrow> pystr option" where
  "canonical_json_digest frepr sha v = map_option sha (utf8_encode (dumps frepr True v))"

definition json_size :: "(rat \<Rightarrow> pystr) \<Rightarrow> json \<Rightarrow> nat option" where
  "json_size frepr v = map_option length (utf8_encode (canonical_json_dumps frepr v))"

section \<open>Laws\<close>

lemma freeze_ok:
  "freeze_json v = Inr j \<Longrightarrow> pyval_ok v \<Longrightarrow> json_ok j"
  "freeze_items seen items = Inr b \<Longrightarrow> list_all (\<lambda>(k, v). pyval_ok v) items \<Longrightarrow>
     distinct (map fst b) \<and> set (map fst b) \<inter> set seen = {} \<and> list_all (\<lambda>(k, v). json_ok v) b"
  "freeze_array vs = Inr js \<Longrightarrow> list_all pyval_ok vs \<Longrightarrow> list_all json_ok js"
proof (induction v and seen items and vs arbitrary: j and b and js
    rule: freeze_json_freeze_items_freeze_array.induct)
  case (8 items)
  then show ?case by (fastforce simp: res_simps)
next
  case (12 seen k v rest)
  note IH = this
  then obtain key where k: "k = PStr key" and "key \<notin> set seen"
    by (auto split: pyval.splits if_splits)
  with IH(3,4) obtain x b' where x: "freeze_json v = Inr x" "freeze_items (key # seen) rest = Inr b'"
    "b = (key, x) # b'" by (auto simp: res_simps)
  from IH(1) [OF k \<open>key \<notin> set seen\<close> x(1)] IH(4) have "json_ok x" by simp
  moreover from IH(2) [OF k \<open>key \<notin> set seen\<close> x(2)] IH(4) have
    "distinct (map fst b') \<and> set (map fst b') \<inter> set (key # seen) = {} \<and> list_all (\<lambda>(k, v). json_ok v) b'"
    by simp
  ultimately show ?case using x(3) \<open>key \<notin> set seen\<close> by auto
qed (auto simp: res_simps)

lemma freeze_thaw_json: "json_ok j \<Longrightarrow> freeze_json (thaw_json j) = Inr j"
proof (induction j rule: thaw_json.induct)
  case (1 items)
  have "freeze_items seen (map (\<lambda>(k, v). (PStr k, thaw_json v)) xs) = Inr xs"
    if "set xs \<subseteq> set items" "distinct (map fst xs)" "set (map fst xs) \<inter> set seen = {}" for xs seen
    using that
  proof (induction xs arbitrary: seen)
    case (Cons p xs)
    obtain k v where p: "p = (k, v)" by (cases p)
    with Cons.prems "1.prems" have "json_ok v" by (auto simp: list_all_iff)
    with Cons.prems p "1.IH" have "freeze_json (thaw_json v) = Inr v" by auto
    moreover have "freeze_items (k # seen) (map (\<lambda>(k, v). (PStr k, thaw_json v)) xs) = Inr xs"
      using Cons.prems p by (intro Cons.IH) auto
    ultimately show ?case using p Cons.prems by simp
  qed simp
  from this [of items "[]"] "1.prems" show ?case by simp
next
  case (2 vs)
  then have "freeze_array (map thaw_json vs) = Inr vs"
    by (induction vs) auto
  then show ?case by simp
qed auto

lemma items_eq_iff:
  "items_eq xs ys \<longleftrightarrow> (\<forall>(k, v) \<in> set xs. \<exists>w. map_of ys k = Some w \<and> json_eq v w)"
  by (induction xs) (auto split: option.splits)

lemma array_eq_refl: "(\<And>v. v \<in> set vs \<Longrightarrow> json_eq v v) \<Longrightarrow> array_eq vs vs"
  by (induction vs) auto

lemma json_eq_refl: "json_ok j \<Longrightarrow> json_eq j j"
proof (induction j rule: thaw_json.induct)
  case (1 items)
  have "map_of items k = Some v" if "(k, v) \<in> set items" for k v
    using that "1.prems" by simp
  moreover have "json_eq v v" if "(k, v) \<in> set items" for k v
    using that "1.prems" "1.IH" by (fastforce simp: list_all_iff)
  ultimately show ?case by (auto simp: items_eq_iff)
next
  case (2 vs)
  then show ?case by (auto simp: list_all_iff intro!: array_eq_refl)
qed auto

text \<open>
  The digest does not depend on the order of an object's keys.
\<close>

lemma dumps_sorted_reorder:
  assumes "distinct (map fst xs)" and "mset ys = mset xs"
  shows "dumps frepr True (JObj ys) = dumps frepr True (JObj xs)"
proof -
  let ?f = "map (\<lambda>(k, v). (k, dumps frepr True v))"
  have keys: "map fst (?f zs) = map fst zs" for zs by (induction zs) auto
  from assms(1) keys have "inj_on fst (set (?f xs))" by (metis distinct_map)
  moreover have "mset (?f ys) = mset (?f xs)" by (simp only: mset_map assms(2))
  ultimately have "sort_key fst (?f xs) = sort_key fst (?f ys)"
    by (intro sort_key_inj_key_eq) simp_all
  then show ?thesis by (simp add: Let_def)
qed

lemma canonical_json_digest_reorder:
  "distinct (map fst xs) \<Longrightarrow> mset ys = mset xs \<Longrightarrow>
     canonical_json_digest frepr sha (JObj ys) = canonical_json_digest frepr sha (JObj xs)"
  unfolding canonical_json_digest_def by (metis dumps_sorted_reorder)


text \<open>
  Documents: JSON values written out as records, as the codecs of the program build them. An optional text
  or number is null when it is missing.
\<close>

definition J_text :: "pystr option \<Rightarrow> json" where
  "J_text s = (case s of None \<Rightarrow> JNull | Some t \<Rightarrow> JStr t)"

definition J_nat :: "nat option \<Rightarrow> json" where
  "J_nat n = (case n of None \<Rightarrow> JNull | Some k \<Rightarrow> JInt (int k))"

definition J_record :: "(string \<times> json) list \<Rightarrow> json" where
  "J_record members = JObj (map (\<lambda>(k, v). (ascii k, v)) members)"

lemma thaw_record: "thaw_json (J_record ms) = PMap (map (\<lambda>(k, v). (PStr (ascii k), thaw_json v)) ms)"
  by (simp add: J_record_def case_prod_unfold)

end
