(* ===== verification/Pytext.thy ===== *)
theory Pytext
  imports Prelude
begin

text \<open>
  The methods of Python's \<open>str\<close> the program calls: \<open>strip\<close>, \<open>startswith\<close>, \<open>endswith\<close>,
  \<open>split\<close> with a one-character separator, \<open>join\<close>, \<open>in\<close>, and \<open>replace\<close> of CRLF.
\<close>

text \<open>\<open>str.isspace\<close> on one code point.\<close>

definition py_space :: "nat \<Rightarrow> bool" where
  "py_space c \<longleftrightarrow> (9 \<le> c \<and> c \<le> 13) \<or> (28 \<le> c \<and> c \<le> 32) \<or> c = 133 \<or> c = 160 \<or> c = 5760
     \<or> (8192 \<le> c \<and> c \<le> 8202) \<or> c = 8232 \<or> c = 8233 \<or> c = 8239 \<or> c = 8287 \<or> c = 12288"

definition lstrip :: "pystr \<Rightarrow> pystr" where
  "lstrip s = dropWhile py_space s"

definition rstrip :: "pystr \<Rightarrow> pystr" where
  "rstrip s = rev (dropWhile py_space (rev s))"

definition strip :: "pystr \<Rightarrow> pystr" where
  "strip s = rstrip (lstrip s)"

text \<open>\<open>not s.strip()\<close>.\<close>

definition blank :: "pystr \<Rightarrow> bool" where
  "blank s \<longleftrightarrow> strip s = []"

lemma blank_iff: "blank s \<longleftrightarrow> (\<forall>c \<in> set s. py_space c)"
proof -
  have "dropWhile py_space (rev (dropWhile py_space s)) = [] \<longleftrightarrow> (\<forall>c \<in> set s. py_space c)"
    by (metis dropWhile_eq_Nil_conv dropWhile_idem list.set_sel(1) rev.simps(1) set_rev hd_dropWhile)
  then show ?thesis by (simp add: blank_def strip_def rstrip_def lstrip_def)
qed

fun starts_with :: "pystr \<Rightarrow> pystr \<Rightarrow> bool" where
  "starts_with [] s \<longleftrightarrow> True"
| "starts_with (p # ps) [] \<longleftrightarrow> False"
| "starts_with (p # ps) (c # s) \<longleftrightarrow> p = c \<and> starts_with ps s"

definition ends_with :: "pystr \<Rightarrow> pystr \<Rightarrow> bool" where
  "ends_with p s \<longleftrightarrow> starts_with (rev p) (rev s)"

lemma starts_with_iff: "starts_with p s \<longleftrightarrow> (\<exists>r. s = p @ r)"
  by (induction p s rule: starts_with.induct) auto

lemma ends_with_iff: "ends_with p s \<longleftrightarrow> (\<exists>r. s = r @ p)"
  unfolding ends_with_def starts_with_iff by (metis rev_append rev_rev_ident)

text \<open>\<open>s.split(sep)\<close> for one separator character: always at least one field.\<close>

fun split_on :: "nat \<Rightarrow> pystr \<Rightarrow> pystr list" where
  "split_on sep [] = [[]]"
| "split_on sep (c # s) =
     (if c = sep then [] # split_on sep s
      else case split_on sep s of [] \<Rightarrow> [[c]] | f # fs \<Rightarrow> (c # f) # fs)"

fun join_with :: "pystr \<Rightarrow> pystr list \<Rightarrow> pystr" where
  "join_with sep [] = []"
| "join_with sep [x] = x"
| "join_with sep (x # y # zs) = x @ sep @ join_with sep (y # zs)"

lemma split_on_nonempty [simp]: "split_on sep s \<noteq> []"
  by (cases s) (auto split: list.splits)

lemma join_split: "join_with [sep] (split_on sep s) = s"
proof (induction s)
  case (Cons c s)
  obtain f fs where "split_on sep s = f # fs" by (cases "split_on sep s") auto
  with Cons show ?case by (cases fs) auto
qed simp

lemma split_on_no_sep: "f \<in> set (split_on sep s) \<Longrightarrow> sep \<notin> set f"
proof (induction s arbitrary: f)
  case (Cons c s)
  then show ?case by (fastforce split: if_splits list.splits)
qed simp

lemma split_on_single: "sep \<notin> set s \<Longrightarrow> split_on sep s = [s]"
  by (induction s) auto

lemma split_on_append: "sep \<notin> set s \<Longrightarrow> split_on sep (s @ sep # t) = s # split_on sep t"
  by (induction s) auto

text \<open>\<open>replace("\r\n", "\n")\<close> and \<open>replace("\r\n", "")\<close>.\<close>

fun replace_crlf :: "pystr \<Rightarrow> pystr \<Rightarrow> pystr" where
  "replace_crlf new [] = []"
| "replace_crlf new [c] = [c]"
| "replace_crlf new (c # d # s) =
     (if c = 13 \<and> d = 10 then new @ replace_crlf new s else c # replace_crlf new (d # s))"

text \<open>\<open>s.split()\<close>: the maximal runs of non-space characters.\<close>

function split_ws :: "pystr \<Rightarrow> pystr list" where
  "split_ws s =
     (let r = lstrip s in
      if r = [] then [] else takeWhile (\<lambda>c. \<not> py_space c) r # split_ws (dropWhile (\<lambda>c. \<not> py_space c) r))"
  by pat_completeness auto
termination
proof (relation "measure length")
  fix s r :: pystr
  assume "r = lstrip s" "r \<noteq> []"
  then have "\<not> py_space (hd r)" "length r \<le> length s"
    unfolding lstrip_def using hd_dropWhile [of py_space s] length_dropWhile_le by auto
  with \<open>r \<noteq> []\<close> have "length (dropWhile (\<lambda>c. \<not> py_space c) r) < length r"
    by (cases r) (auto intro: le_imp_less_Suc length_dropWhile_le)
  with \<open>length r \<le> length s\<close> show "(dropWhile (\<lambda>c. \<not> py_space c) r, s) \<in> measure length" by simp
qed simp

declare split_ws.simps [simp del]

text \<open>\<open>pair in s\<close> for a two-character needle.\<close>

fun has_pair :: "nat \<Rightarrow> nat \<Rightarrow> pystr \<Rightarrow> bool" where
  "has_pair a b (c # d # s) \<longleftrightarrow> (c = a \<and> d = b) \<or> has_pair a b (d # s)"
| "has_pair a b _ \<longleftrightarrow> False"

end
