(* ===== verification/Messages.thy ===== *)
theory Messages
  imports Json Pytext
begin

text \<open>
  Multimodal content, transcript messages and the transcript validator
  (\<open>roboagent/message.py\<close>, lines 231-558). A constructor's \<open>__post_init__\<close> or \<open>__init__\<close> is a
  function that returns the value or the error it raises; the \<open>isinstance\<close> checks of the source
  are the types here. Fresh ids and the clock are arguments.
\<close>

section \<open>Content\<close>

record media_limits =
  max_inline_bytes :: nat
  max_contents_per_message :: nat

definition default_media_limits :: media_limits where
  "default_media_limits = \<lparr>max_inline_bytes = 8 * 1024 * 1024, max_contents_per_message = 16\<rparr>"

datatype media_source = BytesSource bytes | FileSource pystr | UrlSource pystr

definition make_bytes_source :: "bytes \<Rightarrow> protocol_error + media_source" where
  "make_bytes_source data =
     (if data = [] then Inl (ProtocolError ''BytesSource.data must be non-empty bytes.'')
      else Inr (BytesSource data))"

text \<open>A POSIX path is absolute when it starts with a slash.\<close>

definition make_file_source :: "pystr \<Rightarrow> protocol_error + media_source" where
  "make_file_source path =
     (if blank path \<or> \<not> starts_with [47] path
      then Inl (ProtocolError ''FileSource.path must be non-empty and absolute.'')
      else Inr (FileSource path))"

text \<open>\<open>_MIME\<close>: two runs of the token characters around one slash, and no upper case.\<close>

definition mime_char :: "nat \<Rightarrow> bool" where
  "mime_char c \<longleftrightarrow> (97 \<le> c \<and> c \<le> 122) \<or> (48 \<le> c \<and> c \<le> 57)
     \<or> c \<in> set (ascii ''!#$&^_.+-'')"

definition mime_match :: "pystr \<Rightarrow> bool" where
  "mime_match s = (case split_on 47 s of
     [a, b] \<Rightarrow> a \<noteq> [] \<and> b \<noteq> [] \<and> list_all mime_char a \<and> list_all mime_char b
   | _ \<Rightarrow> False)"

definition check_mime :: "pystr option \<Rightarrow> pystr option \<Rightarrow> protocol_error + unit" where
  "check_mime value prefix =
     (case value of None \<Rightarrow> Inr ()
      | Some s \<Rightarrow>
          if \<not> mime_match s then Inl (ProtocolError ''media_type must be lower-case, parameter-free MIME.'')
          else (case prefix of None \<Rightarrow> Inr ()
             | Some p \<Rightarrow> if p \<noteq> [] \<and> \<not> starts_with p s
                 then Inl (ProtocolError ''media_type must have the required prefix.'')
                 else Inr ()))"

record artifact_ref =
  ar_uri :: pystr
  ar_media_type :: "pystr option"
  ar_size :: nat
  ar_digest :: pystr
  ar_preview :: "pystr option"

datatype content =
    TextContent pystr
  | JsonContent json
  | ImageContent media_source "pystr option" "pystr option"
  | AudioContent media_source "pystr option" "pystr option"
  | FileContent media_source "pystr option" "pystr option"
  | ArtifactReferenceContent artifact_ref

definition make_image :: "media_source \<Rightarrow> pystr option \<Rightarrow> pystr option \<Rightarrow> protocol_error + content" where
  "make_image source media_type detail =
     bind_res (check_mime media_type (Some (ascii ''image/'')))
       (\<lambda>_. Inr (ImageContent source media_type detail))"

definition make_audio :: "media_source \<Rightarrow> pystr option \<Rightarrow> pystr option \<Rightarrow> protocol_error + content" where
  "make_audio source media_type transcript =
     bind_res (check_mime media_type (Some (ascii ''audio/'')))
       (\<lambda>_. Inr (AudioContent source media_type transcript))"

definition make_file :: "media_source \<Rightarrow> pystr option \<Rightarrow> pystr option \<Rightarrow> protocol_error + content" where
  "make_file source media_type filename =
     bind_res (check_mime media_type None) (\<lambda>_. Inr (FileContent source media_type filename))"

fun content_source :: "content \<Rightarrow> media_source option" where
  "content_source (ImageContent s _ _) = Some s"
| "content_source (AudioContent s _ _) = Some s"
| "content_source (FileContent s _ _) = Some s"
| "content_source _ = None"

definition inline_too_large :: "media_limits \<Rightarrow> content \<Rightarrow> bool" where
  "inline_too_large limits item = (case content_source item of
     Some (BytesSource data) \<Rightarrow> length data > max_inline_bytes limits
   | _ \<Rightarrow> False)"

definition normalize_content :: "media_limits \<Rightarrow> content list \<Rightarrow> protocol_error + content list" where
  "normalize_content limits value =
     (if length value > max_contents_per_message limits
      then Inl (ProtocolError ''Too many content blocks.'')
      else if list_ex (inline_too_large limits) value
      then Inl (ProtocolError ''Inline media exceeds limit.'')
      else Inr value)"

section \<open>Messages\<close>

record tool_call =
  tc_id :: pystr
  tc_name :: pystr
  tc_arguments :: "(pystr \<times> json) list"

definition make_tool_call :: "pystr \<Rightarrow> pystr \<Rightarrow> (pystr \<times> json) list \<Rightarrow> protocol_error + tool_call" where
  "make_tool_call cid name args =
     (if cid = [] \<or> name = [] then Inl (ProtocolError ''Tool call id and name are required.'')
      else Inr \<lparr>tc_id = cid, tc_name = name, tc_arguments = args\<rparr>)"

datatype tool_result_status = SUCCESS | ERROR

record tool_error_info =
  te_code :: pystr
  te_message :: pystr
  te_retryable :: bool

datatype message =
    is_UserMessage: UserMessage (msg_content: "content list") (msg_timestamp: rat) (msg_id: pystr)
  | is_AssistantMessage: AssistantMessage (msg_content: "content list") (msg_tool_calls: "tool_call list")
      (msg_reasoning: "pystr option") (msg_timestamp: rat) (msg_id: pystr)
  | is_ToolResultMessage: ToolResultMessage (msg_call_id: pystr) (msg_tool_name: pystr) (msg_status: tool_result_status)
      (msg_content: "content list") (msg_error: "tool_error_info option") (msg_timestamp: rat) (msg_id: pystr)

fun message_timestamp :: "rat \<Rightarrow> pyfloat option \<Rightarrow> protocol_error + rat" where
  "message_timestamp now None = Inr now"
| "message_timestamp now (Some (Fin r)) = Inr r"
| "message_timestamp now (Some _) = Inl (ProtocolError ''Message timestamp must be finite.'')"

definition message_id :: "pystr \<Rightarrow> pystr option \<Rightarrow> protocol_error + pystr" where
  "message_id fresh value = (case value of None \<Rightarrow> Inr fresh
     | Some v \<Rightarrow> if v = [] then Inl (ProtocolError ''message_id must be a non-empty string.'') else Inr v)"

fun blank_text :: "content \<Rightarrow> bool" where
  "blank_text (TextContent t) \<longleftrightarrow> blank t"
| "blank_text _ \<longleftrightarrow> False"

definition make_user_message ::
  "media_limits \<Rightarrow> rat \<Rightarrow> pystr \<Rightarrow> content list \<Rightarrow> pyfloat option \<Rightarrow> pystr option \<Rightarrow> protocol_error + message" where
  "make_user_message limits now fresh content timestamp mid =
     bind_res (normalize_content limits content) (\<lambda>normalized.
     bind_res (raise_if (list_all blank_text normalized)
       (ProtocolError ''UserMessage requires non-whitespace text or media.'')) (\<lambda>_.
     bind_res (message_timestamp now timestamp) (\<lambda>ts.
     bind_res (message_id fresh mid) (\<lambda>i.
     Inr (UserMessage normalized ts i)))))"

definition make_assistant_message ::
  "media_limits \<Rightarrow> rat \<Rightarrow> pystr \<Rightarrow> content list \<Rightarrow> tool_call list \<Rightarrow> pystr option \<Rightarrow> pyfloat option
     \<Rightarrow> pystr option \<Rightarrow> protocol_error + message" where
  "make_assistant_message limits now fresh content calls reasoning timestamp mid =
     bind_res (normalize_content limits content) (\<lambda>normalized.
     bind_res (raise_if (\<not> distinct (map tc_id calls)) (ProtocolError ''Duplicate ToolCall ID.'')) (\<lambda>_.
     bind_res (message_timestamp now timestamp) (\<lambda>ts.
     bind_res (message_id fresh mid) (\<lambda>i.
     Inr (AssistantMessage normalized calls reasoning ts i)))))"

definition make_tool_result ::
  "media_limits \<Rightarrow> rat \<Rightarrow> pystr \<Rightarrow> pystr \<Rightarrow> pystr \<Rightarrow> tool_result_status \<Rightarrow> content list
     \<Rightarrow> tool_error_info option \<Rightarrow> pyfloat option \<Rightarrow> pystr option \<Rightarrow> protocol_error + message" where
  "make_tool_result limits now fresh cid name status content error timestamp mid =
     bind_res (raise_if (cid = [] \<or> name = []) (ProtocolError ''Tool result must identify a call and tool.'')) (\<lambda>_.
     bind_res (raise_if (status = SUCCESS \<and> error \<noteq> None)
       (ProtocolError ''Successful ToolResult cannot contain an error.'')) (\<lambda>_.
     bind_res (raise_if (status = ERROR \<and> error = None)
       (ProtocolError ''Failed ToolResult requires error metadata.'')) (\<lambda>_.
     bind_res (normalize_content limits content) (\<lambda>normalized.
     bind_res (message_timestamp now timestamp) (\<lambda>ts.
     bind_res (message_id fresh mid) (\<lambda>i.
     Inr (ToolResultMessage cid name status normalized error ts i)))))))"

section \<open>The transcript validator\<close>

text \<open>
  \<open>TranscriptValidator.validate\<close> walks the messages with the calls of the open exchange and the
  position in it. The loop's state is the pair; the empty pending tuple means no open exchange.
\<close>

definition result_matches :: "tool_call \<Rightarrow> message \<Rightarrow> bool" where
  "result_matches call m \<longleftrightarrow> msg_call_id m = tc_id call \<and> msg_tool_name m = tc_name call"

fun validate_step ::
  "media_limits \<Rightarrow> message \<Rightarrow> tool_call list \<times> nat \<Rightarrow> protocol_error + tool_call list \<times> nat" where
  "validate_step limits message (pending, position) =
     bind_res (normalize_content limits (msg_content message)) (\<lambda>normalized.
       if normalized \<noteq> msg_content message then Inl (ProtocolError ''Message content is not canonical.'')
       else if pending \<noteq> [] then
         (if \<not> is_ToolResultMessage message then Inl (ProtocolError ''Tool exchange must be contiguous.'')
          else if position \<ge> length pending then Inl (ProtocolError ''IndexError'')
          else if \<not> result_matches (pending ! position) message
          then Inl (ProtocolError ''Tool results must follow call order.'')
          else if position + 1 = length pending then Inr ([], 0)
          else Inr (pending, position + 1))
       else if is_ToolResultMessage message then Inl (ProtocolError ''Orphan ToolResultMessage.'')
       else if is_AssistantMessage message \<and> msg_tool_calls message \<noteq> []
       then Inr (msg_tool_calls message, position)
       else Inr (pending, position))"

definition validate :: "media_limits \<Rightarrow> bool \<Rightarrow> message list \<Rightarrow> protocol_error + unit" where
  "validate limits whole messages =
     bind_res (fold_res (validate_step limits) messages ([], 0)) (\<lambda>(pending, position).
       raise_if (pending \<noteq> [] \<and> whole) (ProtocolError ''Dangling ToolCall exchange.''))"

fun text_of :: "content list \<Rightarrow> pystr" where
  "text_of [] = []"
| "text_of (TextContent t # cs) = t @ text_of cs"
| "text_of (_ # cs) = text_of cs"

section \<open>What the validator accepts\<close>

text \<open>
  The contract: a complete transcript is a sequence of blocks, each a user message, an assistant
  message without calls, or an assistant message followed by one result per call in call order.
\<close>

definition content_ok :: "media_limits \<Rightarrow> message \<Rightarrow> bool" where
  "content_ok limits m \<longleftrightarrow> length (msg_content m) \<le> max_contents_per_message limits
     \<and> (\<forall>item \<in> set (msg_content m). \<not> inline_too_large limits item)"

definition answers :: "tool_call \<Rightarrow> message \<Rightarrow> bool" where
  "answers call m \<longleftrightarrow> is_ToolResultMessage m \<and> result_matches call m"

fun calls_of :: "message \<Rightarrow> tool_call list" where
  "calls_of (AssistantMessage _ calls _ _ _) = calls"
| "calls_of _ = []"

inductive blocks :: "message list \<Rightarrow> bool" where
  blocks_Nil: "blocks []"
| blocks_Cons: "\<not> is_ToolResultMessage m \<Longrightarrow> list_all2 answers (calls_of m) results \<Longrightarrow> blocks rest \<Longrightarrow>
     blocks (m # results @ rest)"

definition transcript_ok :: "media_limits \<Rightarrow> message list \<Rightarrow> bool" where
  "transcript_ok limits ms \<longleftrightarrow> blocks ms \<and> list_all (content_ok limits) ms"

abbreviation run_validator ::
  "media_limits \<Rightarrow> message list \<Rightarrow> tool_call list \<times> nat \<Rightarrow> protocol_error + tool_call list \<times> nat" where
  "run_validator limits \<equiv> fold_res (validate_step limits)"

lemma normalize_Inr_iff:
  "normalize_content limits value = Inr r \<longleftrightarrow>
     r = value \<and> length value \<le> max_contents_per_message limits
       \<and> (\<forall>item \<in> set value. \<not> inline_too_large limits item)"
  by (auto simp: normalize_content_def list_ex_iff)

lemma step_idle:
  "validate_step limits m ([], 0) = Inr st \<longleftrightarrow>
     content_ok limits m \<and> \<not> is_ToolResultMessage m \<and> st = (calls_of m, 0)"
  by (cases m) (auto simp: res_simps normalize_Inr_iff content_ok_def)

lemma step_open:
  assumes "position < length calls"
  shows "validate_step limits m (calls, position) = Inr st \<longleftrightarrow>
     content_ok limits m \<and> answers (calls ! position) m
       \<and> st = (if position + 1 = length calls then ([], 0) else (calls, position + 1))"
  using assms by (auto simp: res_simps normalize_Inr_iff content_ok_def answers_def)

lemma run_open:
  assumes "position < length calls"
  shows "run_validator limits ms (calls, position) = Inr ([], n) \<longleftrightarrow>
     (\<exists>results rest. ms = results @ rest \<and> list_all2 answers (drop position calls) results
        \<and> list_all (content_ok limits) results \<and> run_validator limits rest ([], 0) = Inr ([], n))"
  using assms
proof (induction ms arbitrary: position)
  case Nil
  then show ?case by (auto simp: list_all2_Cons1 Cons_nth_drop_Suc [symmetric])
next
  case (Cons m ms)
  have d: "drop position calls = calls ! position # drop (Suc position) calls"
    using Cons.prems by (simp add: Cons_nth_drop_Suc)
  show ?case
  proof (cases "Suc position = length calls")
    case True
    then have "drop (Suc position) calls = []" by simp
    with True d show ?thesis
      by (auto simp: res_simps step_open [OF Cons.prems] list_all2_Cons1 simp del: validate_step.simps)
        (rule exI [of _ "[m]"], simp)
  next
    case False
    with Cons.prems have "Suc position < length calls" by simp
    from Cons.IH [OF this] False d show ?thesis
      by (auto simp: res_simps step_open [OF Cons.prems] list_all2_Cons1 simp del: validate_step.simps)
        (metis append_Cons list.pred_inject(2))+
  qed
qed

lemma run_idle_Cons:
  "run_validator limits (m # ms) ([], 0) = Inr ([], n) \<longleftrightarrow>
     content_ok limits m \<and> \<not> is_ToolResultMessage m \<and>
     (\<exists>results rest. ms = results @ rest \<and> list_all2 answers (calls_of m) results
        \<and> list_all (content_ok limits) results \<and> run_validator limits rest ([], 0) = Inr ([], n))"
proof (cases "calls_of m")
  case Nil
  then show ?thesis by (auto simp: res_simps step_idle simp del: validate_step.simps)
next
  case (Cons c cs)
  then show ?thesis
    using run_open [of 0 "calls_of m" limits ms n]
    by (auto simp: res_simps step_idle simp del: validate_step.simps)
qed

lemma run_validator_iff: "run_validator limits ms ([], 0) = Inr ([], n) \<longleftrightarrow> transcript_ok limits ms \<and> n = 0"
proof (induction ms rule: length_induct)
  case (1 ms)
  show ?case
  proof (cases ms)
    case Nil
    then show ?thesis by (auto simp: transcript_ok_def intro: blocks_Nil)
  next
    case (Cons m rest)
    have IH: "run_validator limits r ([], 0) = Inr ([], n) \<longleftrightarrow> transcript_ok limits r \<and> n = 0"
      if "rest = q @ r" for q r using 1 Cons that by simp
    have "blocks (m # rest) \<longleftrightarrow> \<not> is_ToolResultMessage m \<and>
        (\<exists>q r. rest = q @ r \<and> list_all2 answers (calls_of m) q \<and> blocks r)"
      by (subst blocks.simps) auto
    with IH show ?thesis unfolding Cons run_idle_Cons by (fastforce simp: transcript_ok_def)
  qed
qed

lemma validate_idle: "run_validator limits ms ([], 0) = Inr ([], n) \<Longrightarrow> n = 0"
  by (simp add: run_validator_iff)

lemma validate_iff: "validate limits True ms = Inr () \<longleftrightarrow> transcript_ok limits ms"
  using run_validator_iff [of limits ms 0] run_validator_iff [of limits ms]
  by (auto simp: validate_def res_simps split: prod.splits)

lemma validate_append:
  assumes "validate limits True xs = Inr ()"
  shows "validate limits whole (xs @ ys) = validate limits whole ys"
proof -
  from assms have "run_validator limits xs ([], 0) = Inr ([], 0)"
    by (simp add: validate_iff run_validator_iff)
  then show ?thesis by (simp add: validate_def fold_res_append)
qed

lemma validate_single_user: "validate limits True [UserMessage c t i] = Inr () \<longleftrightarrow> content_ok limits (UserMessage c t i)"
  by (simp add: validate_iff transcript_ok_def) (auto intro: blocks_Cons [of _ "[]" "[]", simplified] blocks_Nil)

end
