(* ===== verification/ToolTypes.thy ===== *)
theory ToolTypes
  imports Messages
begin

text \<open>
  Tool contracts as data (\<open>roboagent/tool/tool.py\<close>, lines 87-132, 206-214, 282-440 and 544-589)
  and the token counts of \<open>roboagent/model/client.py\<close>: error values, effect records with the table
  that ties status, content, error and certainty, batch results, and the registry. Each constructor
  of the source is a function returning the value or the name of the error it raises.
\<close>

type_synonym jobj = "(pystr \<times> json) list"

definition jobj_eq :: "jobj \<Rightarrow> jobj \<Rightarrow> bool" where
  "jobj_eq a b \<longleftrightarrow> json_eq (JObj a) (JObj b)"

datatype tool_execution_mode = SERIAL | CONCURRENT

datatype tool_effect_kind = READ_ONLY | SIDE_EFFECTING

datatype tool_effect_reporting = LEAF | COMPOSITE

datatype tool_effect_status = EF_SUCCEEDED | EF_FAILED | EF_TIMED_OUT | EF_CANCELLED | EF_UNKNOWN

datatype effect_certainty = CERTAIN | CERTAIN_NO_EFFECT | CERTAINTY_UNKNOWN

datatype tool_content =
    ToolTextContent pystr bool
  | ToolJsonContent json
  | ToolArtifactContent artifact_ref

fun tool_content_eq :: "tool_content \<Rightarrow> tool_content \<Rightarrow> bool" where
  "tool_content_eq (ToolJsonContent a) (ToolJsonContent b) \<longleftrightarrow> json_eq a b"
| "tool_content_eq x y \<longleftrightarrow> x = y"

datatype usage = Usage (u_input: "nat option") (u_output: "nat option") (u_total: "nat option")

section \<open>Error information\<close>

text \<open>\<open>[a-z][a-z0-9_]{0,127}\<close>, fully matched.\<close>

definition error_code_ok :: "pystr \<Rightarrow> bool" where
  "error_code_ok s = (case s of [] \<Rightarrow> False
     | c # r \<Rightarrow> 97 \<le> c \<and> c \<le> 122 \<and> length r \<le> 127
         \<and> list_all (\<lambda>d. (97 \<le> d \<and> d \<le> 122) \<or> (48 \<le> d \<and> d \<le> 57) \<or> d = 95) r)"

definition normalize_error_message :: "pystr \<Rightarrow> pystr" where
  "normalize_error_message m =
     (let newlines = map (\<lambda>c. if c = 13 then 10 else c) (replace_crlf [10] m);
          printable = filter (\<lambda>c. c = 10 \<or> c = 9 \<or> 32 \<le> c) newlines
      in join_with [32] (split_ws printable))"

definition make_tool_error :: "pystr \<Rightarrow> pystr \<Rightarrow> bool \<Rightarrow> string + tool_error_info" where
  "make_tool_error code message retryable =
     (if \<not> error_code_ok code then Inl ''Invalid tool error code.''
      else if normalize_error_message message = [] then Inl ''Tool error message must be non-empty.''
      else Inr \<lparr>te_code = code, te_message = normalize_error_message message, te_retryable = retryable\<rparr>)"

section \<open>Execution results\<close>

record tool_execution_result =
  tr_call_id :: pystr
  tr_name :: pystr
  tr_content :: "tool_content list option"
  tr_error :: "tool_error_info option"

definition make_tool_result_value ::
  "pystr \<Rightarrow> pystr \<Rightarrow> tool_content list option \<Rightarrow> tool_error_info option \<Rightarrow> string + tool_execution_result" where
  "make_tool_result_value cid name content error =
     (if cid = [] \<or> name = [] then Inl ''ToolExecutionResult must identify its ToolCall.''
      else if (content \<noteq> None) = (error \<noteq> None)
      then Inl ''ToolExecutionResult requires exactly one of content or error.''
      else Inr \<lparr>tr_call_id = cid, tr_name = name, tr_content = content, tr_error = error\<rparr>)"

section \<open>Effect records\<close>

datatype effect_identity = EffectIdentity (ei_scope: pystr) (ei_sequence: nat)

record effect =
  ef_call_id :: pystr
  ef_tool_name :: pystr
  ef_kind :: tool_effect_kind
  ef_status :: tool_effect_status
  ef_content :: "tool_content option"
  ef_error :: "tool_error_info option"
  ef_committed :: bool
  ef_id :: "effect_identity option"
  ef_certainty :: effect_certainty

definition default_certainty :: "tool_effect_status \<Rightarrow> effect_certainty" where
  "default_certainty status =
     (if status = EF_SUCCEEDED then CERTAIN
      else if status = EF_UNKNOWN then CERTAINTY_UNKNOWN else CERTAIN_NO_EFFECT)"

fun allowed_certainty :: "tool_effect_status \<Rightarrow> effect_certainty list" where
  "allowed_certainty EF_SUCCEEDED = [CERTAIN]"
| "allowed_certainty EF_UNKNOWN = [CERTAINTY_UNKNOWN]"
| "allowed_certainty _ = [CERTAIN_NO_EFFECT, CERTAINTY_UNKNOWN]"

definition error_code_is :: "string \<Rightarrow> tool_error_info option \<Rightarrow> bool" where
  "error_code_is code e = (case e of None \<Rightarrow> True | Some i \<Rightarrow> te_code i = ascii code)"

definition make_effect ::
  "pystr \<Rightarrow> pystr \<Rightarrow> tool_effect_kind \<Rightarrow> tool_effect_status \<Rightarrow> tool_content option \<Rightarrow> tool_error_info option
     \<Rightarrow> bool \<Rightarrow> effect_identity option \<Rightarrow> effect_certainty option \<Rightarrow> string + effect" where
  "make_effect cid name kind status content error committed eid certainty =
     (let c = or_else certainty (default_certainty status) in
      if cid = [] \<or> name = [] then Inl ''ToolEffectRecord must identify its ToolCall.''
      else if (content \<noteq> None) = (error \<noteq> None)
      then Inl ''ToolEffectRecord requires exactly one of content or error.''
      else if status = EF_SUCCEEDED \<and> content = None then Inl ''SUCCEEDED effect requires content.''
      else if status \<noteq> EF_SUCCEEDED \<and> error = None then Inl ''Non-success effect requires error.''
      else if status = EF_TIMED_OUT \<and> \<not> error_code_is ''timeout'' error
      then Inl ''TIMED_OUT effect requires timeout error.''
      else if status = EF_CANCELLED \<and> \<not> error_code_is ''cancelled'' error
      then Inl ''CANCELLED effect requires cancelled error.''
      else if c \<notin> set (allowed_certainty status)
      then Inl ''Invalid ToolEffectStatus/EffectCertainty combination.''
      else Inr \<lparr>ef_call_id = cid, ef_tool_name = name, ef_kind = kind, ef_status = status,
                ef_content = content, ef_error = error, ef_committed = committed, ef_id = eid,
                ef_certainty = c\<rparr>)"

text \<open>\<open>dataclasses.replace(effect, transcript_committed=True)\<close> runs the constructor again.\<close>

definition commit_effect :: "effect \<Rightarrow> string + effect" where
  "commit_effect e = make_effect (ef_call_id e) (ef_tool_name e) (ef_kind e) (ef_status e) (ef_content e)
     (ef_error e) True (ef_id e) (Some (ef_certainty e))"

definition effect_eq :: "effect \<Rightarrow> effect \<Rightarrow> bool" where
  "effect_eq a b \<longleftrightarrow> a\<lparr>ef_content := None\<rparr> = b\<lparr>ef_content := None\<rparr> \<and>
     (case (ef_content a, ef_content b) of (None, None) \<Rightarrow> True
      | (Some x, Some y) \<Rightarrow> tool_content_eq x y | _ \<Rightarrow> False)"

text \<open>What every constructed effect satisfies.\<close>

definition effect_ok :: "effect \<Rightarrow> bool" where
  "effect_ok e \<longleftrightarrow> ef_call_id e \<noteq> [] \<and> ef_tool_name e \<noteq> []
     \<and> (ef_status e = EF_SUCCEEDED \<longleftrightarrow> ef_content e \<noteq> None)
     \<and> (ef_content e = None \<longleftrightarrow> ef_error e \<noteq> None)
     \<and> (ef_status e = EF_TIMED_OUT \<longrightarrow> error_code_is ''timeout'' (ef_error e))
     \<and> (ef_status e = EF_CANCELLED \<longrightarrow> error_code_is ''cancelled'' (ef_error e))
     \<and> ef_certainty e \<in> set (allowed_certainty (ef_status e))"

lemma make_effect_ok: "make_effect cid name kind status content error committed eid certainty = Inr e \<Longrightarrow> effect_ok e"
  by (auto simp: make_effect_def Let_def effect_ok_def split: if_splits)

lemma commit_effect_ok: "effect_ok e \<Longrightarrow> commit_effect e = Inr (e\<lparr>ef_committed := True\<rparr>)"
  by (auto simp: commit_effect_def make_effect_def effect_ok_def)

lemma default_certainty_allowed: "default_certainty s \<in> set (allowed_certainty s)"
  by (cases s) (auto simp: default_certainty_def)

section \<open>Batch results\<close>

definition make_batch_result ::
  "tool_call list \<Rightarrow> tool_execution_result list \<Rightarrow> effect list
     \<Rightarrow> string + tool_call list \<times> tool_execution_result list \<times> effect list" where
  "make_batch_result calls results effects =
     (if length calls \<noteq> length results then Inl ''Every ToolCall must have one result.''
      else if \<not> list_all2 (\<lambda>c r. tr_call_id r = tc_id c \<and> tr_name r = tc_name c) calls results
      then Inl ''Tool results must match ToolCalls in original order.''
      else Inr (calls, results, effects))"

section \<open>Registry\<close>

record tool_definition =
  td_name :: pystr
  td_description :: pystr
  td_input_schema :: jobj

record tool =
  tl_definition :: tool_definition
  tl_mode :: tool_execution_mode
  tl_kind :: tool_effect_kind
  tl_reporting :: tool_effect_reporting
  tl_timeout :: "rat option"

record registry =
  rg_tools :: "(pystr, tool) dict"
  rg_sealed :: bool

definition empty_registry :: registry where
  "empty_registry = \<lparr>rg_tools = [], rg_sealed = False\<rparr>"

definition timeout_ok :: "tool \<Rightarrow> bool" where
  "timeout_ok t = (case tl_timeout t of None \<Rightarrow> True | Some x \<Rightarrow> 0 < x)"

definition register :: "tool \<Rightarrow> bool \<Rightarrow> registry \<Rightarrow> string + registry" where
  "register t replace r =
     (if rg_sealed r then Inl ''ToolRegistry snapshot is immutable.''
      else if \<not> timeout_ok t
      then Inl ''Tool timeout must be positive or None.''
      else if td_name (tl_definition t) \<in> dkeys (rg_tools r) \<and> \<not> replace
      then Inl ''Tool is already registered.''
      else Inr (r\<lparr>rg_tools := dset (td_name (tl_definition t)) t (rg_tools r)\<rparr>))"

definition make_registry :: "tool list \<Rightarrow> string + registry" where
  "make_registry tools = fold_res (\<lambda>t. register t False) tools empty_registry"

definition registry_get :: "registry \<Rightarrow> pystr \<Rightarrow> tool option" where
  "registry_get r name = dget (rg_tools r) name"

definition registry_definitions :: "registry \<Rightarrow> tool_definition list" where
  "registry_definitions r = map (tl_definition \<circ> snd) (rg_tools r)"

definition registry_snapshot :: "registry \<Rightarrow> string + registry" where
  "registry_snapshot r = make_registry (map snd (rg_tools r))"

definition registry_seal :: "registry \<Rightarrow> registry" where
  "registry_seal r = r\<lparr>rg_sealed := True\<rparr>"

definition registry_ok :: "registry \<Rightarrow> bool" where
  "registry_ok r \<longleftrightarrow> dict_ok (rg_tools r)
     \<and> (\<forall>n t. (n, t) \<in> set (rg_tools r) \<longrightarrow> td_name (tl_definition t) = n \<and> timeout_ok t)"

lemma register_ok: "registry_ok r \<Longrightarrow> register t replace r = Inr r' \<Longrightarrow> registry_ok r'"
  unfolding registry_ok_def
  by (auto simp: register_def set_dset split: if_splits)

lemma register_get: "register t replace r = Inr r' \<Longrightarrow>
    registry_get r' n = (if n = td_name (tl_definition t) then Some t else registry_get r n)"
  by (auto simp: register_def registry_get_def split: if_splits)

lemma fold_register:
  assumes "dict_ok (acc @ xs)" "\<forall>n t. (n, t) \<in> set xs \<longrightarrow> td_name (tl_definition t) = n \<and> timeout_ok t"
  shows "fold_res (\<lambda>t. register t False) (map snd xs) \<lparr>rg_tools = acc, rg_sealed = False\<rparr>
     = Inr \<lparr>rg_tools = acc @ xs, rg_sealed = False\<rparr>"
  using assms
proof (induction xs arbitrary: acc)
  case (Cons p xs)
  obtain n t where p: "p = (n, t)" by (cases p)
  with Cons.prems have "n \<notin> dkeys acc" "td_name (tl_definition t) = n"
    "timeout_ok t" by (auto simp: dict_ok_def)
  then have "register t False \<lparr>rg_tools = acc, rg_sealed = False\<rparr> = Inr \<lparr>rg_tools = acc @ [(n, t)], rg_sealed = False\<rparr>"
    by (auto simp: register_def dset_new)
  with Cons.IH [of "acc @ [(n, t)]"] Cons.prems p show ?case by simp
qed simp

text \<open>A snapshot holds the same tools in the same order, unsealed.\<close>

lemma registry_snapshot_eq: "registry_ok r \<Longrightarrow> registry_snapshot r = Inr (r\<lparr>rg_sealed := False\<rparr>)"
  using fold_register [of "[]" "rg_tools r"]
  by (simp add: registry_ok_def registry_snapshot_def make_registry_def empty_registry_def)

end
