(* ===== verification/CancelTokens.thy ===== *)
theory CancelTokens
  imports Prelude
begin

text \<open>
  Cooperative cancellation (\<open>roboagent/runtime/types.py\<close>, lines 38-112). A
  \<open>RuntimeCancellation\<close> is a mutable object shared by a run and everything below it, so the
  tokens live in a store indexed by allocation order and a token names its parent by index. The
  constructor takes an existing parent, so a parent is older than its child (\<open>tokens_ok\<close>);
  \<open>cancelled\<close> follows the chain under that order.
\<close>

datatype cancellation_reason = USER | TIMEOUT

datatype cancellation_origin = O_PARENT | O_TIMEOUT | O_EXTERNAL | O_RUNTIME

record token =
  tk_event :: bool
  tk_reason :: "cancellation_reason option"
  tk_origin :: "cancellation_origin option"
  tk_parent :: "nat option"

type_synonym tokens = "token list"

definition new_token :: "nat option \<Rightarrow> token" where
  "new_token parent = \<lparr>tk_event = False, tk_reason = None, tk_origin = None, tk_parent = parent\<rparr>"

definition alloc_token :: "nat option \<Rightarrow> tokens \<Rightarrow> nat \<times> tokens" where
  "alloc_token parent h = (length h, h @ [new_token parent])"

definition parent_of :: "tokens \<Rightarrow> nat \<Rightarrow> nat option" where
  "parent_of h i = (if i < length h then
     (case tk_parent (h ! i) of Some p \<Rightarrow> if p < i then Some p else None | None \<Rightarrow> None) else None)"

lemma parent_of_less: "parent_of h i = Some p \<Longrightarrow> p < i"
  by (auto simp: parent_of_def split: if_splits option.splits)

function cancelled :: "tokens \<Rightarrow> nat \<Rightarrow> bool" where
  "cancelled h i \<longleftrightarrow> i < length h \<and>
     (tk_event (h ! i) \<or> (case parent_of h i of None \<Rightarrow> False | Some p \<Rightarrow> cancelled h p))"
  by pat_completeness auto
termination
  by (relation "measure snd") (auto dest: parent_of_less)

function reason :: "tokens \<Rightarrow> nat \<Rightarrow> cancellation_reason option" where
  "reason h i = (if i < length h then
     (case tk_reason (h ! i) of Some r \<Rightarrow> Some r
      | None \<Rightarrow> (case parent_of h i of None \<Rightarrow> None | Some p \<Rightarrow> reason h p)) else None)"
  by pat_completeness auto
termination
  by (relation "measure snd") (auto dest: parent_of_less)

declare cancelled.simps [simp del]
declare reason.simps [simp del]

definition origin :: "tokens \<Rightarrow> nat \<Rightarrow> cancellation_origin option" where
  "origin h i =
     (if i < length h \<and> tk_event (h ! i) then tk_origin (h ! i)
      else case parent_of h i of
        Some p \<Rightarrow> if cancelled h p then Some O_PARENT else None
      | None \<Rightarrow> None)"

definition cancel :: "cancellation_reason \<Rightarrow> cancellation_origin \<Rightarrow> nat \<Rightarrow> tokens \<Rightarrow> tokens" where
  "cancel r org i h =
     (if cancelled h i then h
      else h[i := (h ! i)\<lparr>tk_reason := Some r,
                          tk_origin := Some (if r = TIMEOUT then O_TIMEOUT else org),
                          tk_event := True\<rparr>])"

text \<open>\<open>raise_if_cancelled\<close>: the message is the token's own reason, never the parent's.\<close>

definition raise_if_cancelled :: "tokens \<Rightarrow> nat \<Rightarrow> string + unit" where
  "raise_if_cancelled h i =
     (if cancelled h i
      then Inl (case tk_reason (h ! i) of Some USER \<Rightarrow> ''user'' | Some TIMEOUT \<Rightarrow> ''timeout'' | None \<Rightarrow> ''cancelled'')
      else Inr ())"

definition tokens_ok :: "tokens \<Rightarrow> bool" where
  "tokens_ok h \<longleftrightarrow> (\<forall>i < length h. \<forall>p. tk_parent (h ! i) = Some p \<longrightarrow> p < i)
     \<and> (\<forall>i < length h. tk_event (h ! i) \<longleftrightarrow> tk_reason (h ! i) \<noteq> None)
     \<and> (\<forall>i < length h. tk_event (h ! i) \<longleftrightarrow> tk_origin (h ! i) \<noteq> None)"

section \<open>Laws\<close>

lemma tokens_ok_alloc:
  assumes "tokens_ok h" "\<And>p. parent = Some p \<Longrightarrow> p < length h"
  shows "tokens_ok (snd (alloc_token parent h))"
  using assms by (auto simp: tokens_ok_def alloc_token_def new_token_def nth_append less_Suc_eq)

lemma tokens_ok_cancel: "tokens_ok h \<Longrightarrow> tokens_ok (cancel r org i h)"
  unfolding tokens_ok_def cancel_def by (auto simp: nth_update_in)

lemma length_cancel [simp]: "length (cancel r org i h) = length h"
  by (simp add: cancel_def)

lemma parent_of_cancel [simp]: "parent_of (cancel r org i h) j = parent_of h j"
proof -
  have "tk_parent (cancel r org i h ! j) = tk_parent (h ! j)" if "j < length h"
    using that by (simp add: cancel_def nth_update_in)
  then show ?thesis by (simp add: parent_of_def)
qed

text \<open>The chain of a token: itself, its parent, and so on.\<close>

inductive chain :: "tokens \<Rightarrow> nat \<Rightarrow> nat \<Rightarrow> bool" for h where
  chain_refl: "i < length h \<Longrightarrow> chain h i i"
| chain_step: "i < length h \<Longrightarrow> parent_of h i = Some p \<Longrightarrow> chain h p j \<Longrightarrow> chain h i j"

inductive_cases chain_elim: "chain h i j"

lemma cancelled_iff: "cancelled h i \<longleftrightarrow> (\<exists>j. chain h i j \<and> tk_event (h ! j))"
proof (induction h i rule: cancelled.induct)
  case (1 h i)
  show ?case
    by (subst cancelled.simps)
      (auto split: option.splits intro: chain_refl elim: chain_elim simp: "1.IH"
        dest: chain_step)
qed

lemma chain_cancel [simp]: "chain (cancel r org i h) j k \<longleftrightarrow> chain h j k"
proof
  show "chain (cancel r org i h) j k \<Longrightarrow> chain h j k"
    by (induction rule: chain.induct) (auto intro: chain.intros)
  show "chain h j k \<Longrightarrow> chain (cancel r org i h) j k"
    by (induction rule: chain.induct) (auto intro: chain.intros)
qed

lemma chain_bound: "chain h j k \<Longrightarrow> j < length h \<and> k < length h"
  by (induction rule: chain.induct) auto

lemma cancel_event:
  "k < length h \<Longrightarrow> tk_event (cancel r org i h ! k) \<longleftrightarrow> tk_event (h ! k) \<or> (k = i \<and> \<not> cancelled h i)"
  by (auto simp: cancel_def nth_update_in)

lemma cancelled_cancel:
  "cancelled (cancel r org i h) j \<longleftrightarrow> cancelled h j \<or> chain h j i"
proof -
  have "chain h j i \<Longrightarrow> cancelled h i \<Longrightarrow> cancelled h j"
  proof (induction rule: chain.induct)
    case (chain_step i p j)
    then show ?case by (subst cancelled.simps) simp
  qed
  moreover have "cancelled (cancel r org i h) j \<longleftrightarrow> cancelled h j \<or> chain h j i \<and> \<not> cancelled h i"
    using chain_bound [of h j] unfolding cancelled_iff [of "cancel r org i h"] cancelled_iff [of h j]
    by (auto simp: cancel_event)
  ultimately show ?thesis by blast
qed

end
