(* ===== verification/ExecTree.thy ===== *)
theory ExecTree
  imports ToolTypes CancelTokens
begin

text \<open>
  The nested-execution tree (\<open>roboagent/runtime/execution.py\<close> and \<open>runtime/_execution\<close>): one
  \<open>tree\<close> per root run holding scopes, budgets, contributions, merged usage, effects, records,
  cleanup errors and retry blockers. An operation that mutates before it raises returns the new tree
  together with the error. \<open>uuid4\<close> ids are arguments; deadlines are rationals; the codec supplies
  the printing of floats and SHA-256.
\<close>

section \<open>Facts\<close>

datatype exec_error =
    ExecutionInvariantError string
  | ExecutionRequestError string
  | PyKeyError
  | PyValueError string
  | PyTypeError string

datatype contribution_id = ContributionId (ci_scope: pystr) (ci_sequence: nat)

datatype usage_contribution = KnownUsage usage | UnknownUsage

datatype usage_knowledge = USAGE_KNOWN | USAGE_UNKNOWN

datatype record_status = RS_SUCCEEDED | RS_FAILED | RS_CANCELLED | RS_UNKNOWN

datatype record_type = RT_TOOL | RT_SUMMARY

record supplemental =
  sp_status :: record_status
  sp_error_code :: "pystr option"
  sp_evidence :: "jobj option"

record execution_record =
  er_sequence :: nat
  er_type :: record_type
  er_root :: pystr
  er_run :: pystr
  er_scope :: pystr
  er_call :: "pystr option"
  er_tool :: "pystr option"
  er_digest :: "pystr option"
  er_preview :: "jobj option"
  er_status :: record_status
  er_error_code :: "pystr option"
  er_evidence :: "jobj option"

record cleanup_error =
  ce_scope :: pystr
  ce_resource :: pystr
  ce_code :: string
  ce_message :: string
  ce_forced :: bool

datatype blocker_code = SETTLEMENT_UNCERTAIN | TRUSTED_EXECUTION | CLEANUP_UNCERTAIN

record blocker =
  bl_code :: blocker_code
  bl_scope :: pystr
  bl_message :: pystr

record contribution =
  cb_id :: contribution_id
  cb_usage :: "usage_contribution option"
  cb_effects :: "effect list"
  cb_records :: "supplemental list"
  cb_cleanup :: "cleanup_error list"

text \<open>Dataclass equality, with JSON leaves compared as Python compares them.\<close>

definition evidence_eq :: "jobj option \<Rightarrow> jobj option \<Rightarrow> bool" where
  "evidence_eq a b = (case (a, b) of (None, None) \<Rightarrow> True | (Some x, Some y) \<Rightarrow> jobj_eq x y | _ \<Rightarrow> False)"

definition supplemental_eq :: "supplemental \<Rightarrow> supplemental \<Rightarrow> bool" where
  "supplemental_eq a b \<longleftrightarrow> sp_status a = sp_status b \<and> sp_error_code a = sp_error_code b
     \<and> evidence_eq (sp_evidence a) (sp_evidence b)"

definition contribution_eq :: "contribution \<Rightarrow> contribution \<Rightarrow> bool" where
  "contribution_eq a b \<longleftrightarrow> cb_id a = cb_id b \<and> cb_usage a = cb_usage b
     \<and> list_all2 effect_eq (cb_effects a) (cb_effects b)
     \<and> list_all2 supplemental_eq (cb_records a) (cb_records b) \<and> cb_cleanup a = cb_cleanup b"

section \<open>State\<close>

datatype scope_state = OPEN | CLOSING | FROZEN

record lineage =
  ln_root :: pystr
  ln_run :: pystr
  ln_scope :: pystr
  ln_parent :: "pystr option"
  ln_depth :: nat
  ln_agent_depth :: nat
  ln_call :: "pystr option"
  ln_agent_tool :: "pystr option"

text \<open>
  A registered resource is foreign code: its type's name, and how a call of its \<open>close\<close> and
  \<open>force_close\<close> ends under the cleanup timeout.
\<close>

datatype outcome = RETURNED | TIMED_OUT | RAISED

record resource =
  rs_type :: pystr
  rs_close :: outcome
  rs_force :: outcome

record scope =
  sc_lineage :: lineage
  sc_sequence :: nat
  sc_token :: nat
  sc_deadline :: "rat option"
  sc_state :: scope_state
  sc_effect_next :: nat
  sc_contribution_next :: nat
  sc_resources :: "resource list"
  sc_children :: "pystr list"
  sc_terminal :: bool
  sc_tool :: "pystr option"
  sc_active :: nat
  sc_idle :: bool

record budget_config =
  bc_agent_depth :: nat
  bc_child_runs :: nat
  bc_nested_calls :: nat

record budget_view =
  bv_agent_depth :: nat
  bv_child_runs :: nat
  bv_nested_calls :: nat

record codec =
  cx_float :: "rat \<Rightarrow> pystr"
  cx_sha :: "bytes \<Rightarrow> pystr"

record tree =
  t_root_run :: pystr
  t_tokens :: tokens
  t_budget :: budget_config
  t_max_records :: nat
  t_max_evidence :: nat
  t_scope_next :: nat
  t_event_next :: nat
  t_record_next :: nat
  t_child_runs :: nat
  t_nested_tools :: nat
  t_contributions :: "(contribution_id, contribution) dict"
  t_usage_state :: "usage_knowledge option"
  t_usage :: "usage option"
  t_effects :: "(effect_identity, effect) dict"
  t_records :: "execution_record list"
  t_complete :: bool
  t_cleanup :: "cleanup_error list"
  t_blockers :: "blocker list"
  t_scopes :: "(pystr, scope) dict"
  t_root :: pystr

definition make_scope :: "lineage \<Rightarrow> nat \<Rightarrow> nat \<Rightarrow> rat option \<Rightarrow> scope" where
  "make_scope li sequence token deadline =
     \<lparr>sc_lineage = li, sc_sequence = sequence, sc_token = token, sc_deadline = deadline, sc_state = OPEN,
      sc_effect_next = 0, sc_contribution_next = 0, sc_resources = [], sc_children = [],
      sc_terminal = False, sc_tool = None, sc_active = 0, sc_idle = True\<rparr>"

definition lineage_ok :: "lineage \<Rightarrow> bool" where
  "lineage_ok li \<longleftrightarrow> ln_root li \<noteq> [] \<and> ln_run li \<noteq> [] \<and> ln_scope li \<noteq> [] \<and> ln_parent li \<noteq> Some []"

definition minimum_deadline :: "rat option \<Rightarrow> rat option \<Rightarrow> rat option" where
  "minimum_deadline left right = (case (left, right) of
     (Some a, Some b) \<Rightarrow> Some (min a b) | (Some a, None) \<Rightarrow> Some a | (None, b) \<Rightarrow> b)"

definition positive_timeout :: "pyfloat \<Rightarrow> exec_error + rat" where
  "positive_timeout value = (case value of
     Fin r \<Rightarrow> if r \<le> 0 then Inl (PyValueError ''Settlement timeout must be positive.'') else Inr r
   | _ \<Rightarrow> Inl (PyValueError ''Settlement timeout must be positive.''))"

section \<open>Scope creation and budgets\<close>

text \<open>A pointwise update of one scope of the tree.\<close>

definition upd_scope :: "pystr \<Rightarrow> (scope \<Rightarrow> scope) \<Rightarrow> tree \<Rightarrow> tree" where
  "upd_scope sid f t = (case dget (t_scopes t) sid of None \<Rightarrow> t
     | Some s \<Rightarrow> t\<lparr>t_scopes := dset sid (f s) (t_scopes t)\<rparr>)"

definition with_scope :: "pystr \<Rightarrow> tree \<Rightarrow> (scope \<Rightarrow> exec_error + 'a) \<Rightarrow> exec_error + 'a" where
  "with_scope sid t f = (case dget (t_scopes t) sid of None \<Rightarrow> Inl PyKeyError | Some s \<Rightarrow> f s)"

definition new_scope ::
  "pystr \<Rightarrow> pystr \<Rightarrow> scope option \<Rightarrow> nat \<Rightarrow> nat \<Rightarrow> rat option \<Rightarrow> pystr option \<Rightarrow> pystr option
     \<Rightarrow> tree \<Rightarrow> exec_error + tree" where
  "new_scope uuid run parent agent_depth token deadline call agent_tool t =
     (let li = \<lparr>ln_root = t_root_run t, ln_run = run, ln_scope = uuid,
                ln_parent = map_option (ln_scope \<circ> sc_lineage) parent,
                ln_depth = (case parent of None \<Rightarrow> 0 | Some p \<Rightarrow> ln_depth (sc_lineage p) + 1),
                ln_agent_depth = agent_depth, ln_call = call, ln_agent_tool = agent_tool\<rparr>;
          s = make_scope li (t_scope_next t) token deadline;
          t1 = t\<lparr>t_scope_next := t_scope_next t + 1, t_scopes := dset uuid s (t_scopes t)\<rparr>
      in if \<not> lineage_ok li then Inl (PyValueError ''ExecutionLineage requires non-empty identities.'')
         else Inr (case parent of None \<Rightarrow> t1
           | Some p \<Rightarrow> upd_scope (ln_scope (sc_lineage p)) (\<lambda>q. q\<lparr>sc_children := sc_children q @ [uuid]\<rparr>) t1))"

definition new_tree ::
  "pystr \<Rightarrow> pystr \<Rightarrow> nat \<Rightarrow> rat option \<Rightarrow> budget_config \<Rightarrow> nat \<Rightarrow> nat \<Rightarrow> tokens \<Rightarrow> exec_error + tree" where
  "new_tree uuid root_run token deadline budget max_records max_evidence tokens =
     new_scope uuid root_run None 0 token deadline None None
       \<lparr>t_root_run = root_run, t_tokens = tokens, t_budget = budget, t_max_records = max_records,
        t_max_evidence = max_evidence, t_scope_next = 0, t_event_next = 0, t_record_next = 0,
        t_child_runs = 0, t_nested_tools = 0, t_contributions = [], t_usage_state = None, t_usage = None,
        t_effects = [], t_records = [], t_complete = True, t_cleanup = [], t_blockers = [],
        t_scopes = [], t_root = uuid\<rparr>"

definition budget_view_of :: "tree \<Rightarrow> budget_view" where
  "budget_view_of t =
     \<lparr>bv_agent_depth = bc_agent_depth (t_budget t),
      bv_child_runs = nat (max 0 (int (bc_child_runs (t_budget t)) - int (t_child_runs t))),
      bv_nested_calls = nat (max 0 (int (bc_nested_calls (t_budget t)) - int (t_nested_tools t)))\<rparr>"

definition accept_nested_tool :: "tree \<Rightarrow> bool \<times> tree" where
  "accept_nested_tool t =
     (if t_nested_tools t \<ge> bc_nested_calls (t_budget t) then (False, t)
      else (True, t\<lparr>t_nested_tools := t_nested_tools t + 1\<rparr>))"

definition require_open :: "scope \<Rightarrow> exec_error + unit" where
  "require_open s = raise_if (sc_state s \<noteq> OPEN) (ExecutionInvariantError ''Cannot operate outside an OPEN scope.'')"

definition new_child_run_scope ::
  "pystr \<Rightarrow> pystr \<Rightarrow> pystr \<Rightarrow> nat \<Rightarrow> rat option \<Rightarrow> pystr \<Rightarrow> tree \<Rightarrow> exec_error + tree" where
  "new_child_run_scope uuid parent_id run token deadline agent_tool t =
     with_scope parent_id t (\<lambda>parent.
     bind_res (require_open parent) (\<lambda>_.
       let agent_depth = ln_agent_depth (sc_lineage parent) + 1 in
       if agent_depth > bc_agent_depth (t_budget t) then Inl (ExecutionRequestError ''agent_depth_exceeded'')
       else if t_child_runs t \<ge> bc_child_runs (t_budget t)
       then Inl (ExecutionRequestError ''child_run_budget_exceeded'')
       else new_scope uuid run (Some parent) agent_depth token
              (minimum_deadline (sc_deadline parent) deadline) None (Some agent_tool)
              (t\<lparr>t_child_runs := t_child_runs t + 1\<rparr>)))"

text \<open>\<open>ExecutionScope.child_tool\<close>: a child with a linked cancellation token.\<close>

definition child_tool ::
  "pystr \<Rightarrow> pystr \<Rightarrow> pystr \<Rightarrow> pystr option \<Rightarrow> rat option \<Rightarrow> tree \<Rightarrow> exec_error + tree" where
  "child_tool uuid parent_id call tool_name deadline t =
     with_scope parent_id t (\<lambda>parent.
     bind_res (require_open parent) (\<lambda>_.
       let (token, tokens) = alloc_token (Some (sc_token parent)) (t_tokens t) in
       bind_res (new_scope uuid (ln_run (sc_lineage parent)) (Some parent)
           (ln_agent_depth (sc_lineage parent)) token
           (minimum_deadline (sc_deadline parent) deadline) (Some call) None
           (t\<lparr>t_tokens := tokens\<rparr>))
         (\<lambda>t1. Inr (upd_scope uuid (\<lambda>s. s\<lparr>sc_tool := tool_name\<rparr>) t1))))"

definition begin_child_run ::
  "pystr \<Rightarrow> pystr \<Rightarrow> pystr \<Rightarrow> nat \<Rightarrow> rat option \<Rightarrow> tree \<Rightarrow> exec_error + tree" where
  "begin_child_run uuid parent_id run token deadline t =
     with_scope parent_id t (\<lambda>parent.
       new_child_run_scope uuid parent_id run token deadline (or_text (sc_tool parent) (ascii ''agent'')) t)"

section \<open>Usage\<close>

definition merge_count :: "nat option \<Rightarrow> nat option \<Rightarrow> nat option" where
  "merge_count a b = (case (a, b) of (Some x, Some y) \<Rightarrow> Some (x + y) | _ \<Rightarrow> None)"

definition merge_known_usage :: "usage \<Rightarrow> usage \<Rightarrow> usage" where
  "merge_known_usage l r =
     Usage (merge_count (u_input l) (u_input r)) (merge_count (u_output l) (u_output r))
       (merge_count (u_total l) (u_total r))"

definition merge_usage :: "usage_contribution \<Rightarrow> tree \<Rightarrow> tree" where
  "merge_usage c t =
     (if t_usage_state t = Some USAGE_UNKNOWN then t
      else case c of
        UnknownUsage \<Rightarrow> t\<lparr>t_usage_state := Some USAGE_UNKNOWN, t_usage := None\<rparr>
      | KnownUsage u \<Rightarrow>
          (case t_usage_state t of
             None \<Rightarrow> t\<lparr>t_usage_state := Some USAGE_KNOWN, t_usage := Some u\<rparr>
           | Some _ \<Rightarrow> t\<lparr>t_usage := map_option (\<lambda>v. merge_known_usage v u) (t_usage t)\<rparr>))"

definition usage_result :: "tree \<Rightarrow> usage option \<times> bool option" where
  "usage_result t = (case t_usage_state t of
     None \<Rightarrow> (None, None) | Some USAGE_UNKNOWN \<Rightarrow> (None, Some False) | Some USAGE_KNOWN \<Rightarrow> (t_usage t, Some True))"

section \<open>Records\<close>

definition bounded_preview :: "codec \<Rightarrow> nat \<Rightarrow> jobj option \<Rightarrow> jobj option" where
  "bounded_preview cx limit value = (case value of None \<Rightarrow> None
     | Some v \<Rightarrow> (case json_size (cx_float cx) (JObj v) of None \<Rightarrow> None
         | Some n \<Rightarrow> if n \<le> limit then Some v else None))"

text \<open>
  A value that is too large is replaced by an envelope with its digest and size, when that fits.
  The last \<open>None\<close> of the digest is a \<open>UnicodeEncodeError\<close>, which the size has ruled out.
\<close>

definition evidence_envelope :: "pystr \<Rightarrow> nat \<Rightarrow> jobj" where
  "evidence_envelope digest bytes_len =
     [(ascii ''omitted'', JBool True), (ascii ''digest'', JStr digest), (ascii ''size'', JInt (int bytes_len))]"

definition bounded_evidence :: "codec \<Rightarrow> nat \<Rightarrow> jobj option \<Rightarrow> jobj option" where
  "bounded_evidence cx limit value = (case value of None \<Rightarrow> None
     | Some v \<Rightarrow> (case json_size (cx_float cx) (JObj v) of None \<Rightarrow> None
         | Some n \<Rightarrow>
             if n \<le> limit then Some v
             else (case canonical_json_digest (cx_float cx) (cx_sha cx) (JObj v) of None \<Rightarrow> None
               | Some d \<Rightarrow>
                   let envelope = evidence_envelope d n in
                   (case json_size (cx_float cx) (JObj envelope) of None \<Rightarrow> None
                    | Some m \<Rightarrow> if m \<le> limit then Some envelope else None))))"

definition overflow_record :: "nat \<Rightarrow> pystr \<Rightarrow> execution_record \<Rightarrow> execution_record" where
  "overflow_record seq root_run r =
     \<lparr>er_sequence = seq, er_type = RT_SUMMARY, er_root = root_run, er_run = er_run r, er_scope = er_scope r,
      er_call = None, er_tool = None, er_digest = None, er_preview = None, er_status = RS_UNKNOWN,
      er_error_code = Some (ascii ''execution_record_overflow''), er_evidence = None\<rparr>"

definition append_record :: "execution_record \<Rightarrow> tree \<Rightarrow> tree" where
  "append_record r t =
     (if \<not> t_complete t then t
      else if length (t_records t) < t_max_records t - 1 then t\<lparr>t_records := t_records t @ [r]\<rparr>
      else
        let overflow = overflow_record (t_record_next t) (t_root_run t) r in
        t\<lparr>t_complete := False, t_record_next := t_record_next t + 1,
          t_records := (if length (t_records t) = t_max_records t
             then butlast (t_records t) @ [overflow] else t_records t @ [overflow])\<rparr>)"

definition add_tool_record ::
  "codec \<Rightarrow> scope \<Rightarrow> pystr \<Rightarrow> pystr \<Rightarrow> jobj \<Rightarrow> jobj option \<Rightarrow> record_status \<Rightarrow> pystr option
     \<Rightarrow> jobj option \<Rightarrow> tree \<Rightarrow> tree" where
  "add_tool_record cx s call tool arguments preview status error_code evidence t =
     append_record
       \<lparr>er_sequence = t_record_next t, er_type = RT_TOOL, er_root = t_root_run t,
        er_run = ln_run (sc_lineage s), er_scope = ln_scope (sc_lineage s), er_call = Some call,
        er_tool = Some tool, er_digest = canonical_json_digest (cx_float cx) (cx_sha cx) (JObj arguments),
        er_preview = bounded_preview cx (t_max_evidence t) preview, er_status = status,
        er_error_code = error_code, er_evidence = bounded_evidence cx (t_max_evidence t) evidence\<rparr>
       (t\<lparr>t_record_next := t_record_next t + 1\<rparr>)"

definition add_summary_record :: "codec \<Rightarrow> scope \<Rightarrow> supplemental \<Rightarrow> tree \<Rightarrow> tree" where
  "add_summary_record cx s r t =
     append_record
       \<lparr>er_sequence = t_record_next t, er_type = RT_SUMMARY, er_root = t_root_run t,
        er_run = ln_run (sc_lineage s), er_scope = ln_scope (sc_lineage s), er_call = None,
        er_tool = None, er_digest = None, er_preview = None, er_status = sp_status r,
        er_error_code = sp_error_code r,
        er_evidence = bounded_evidence cx (t_max_evidence t) (sp_evidence r)\<rparr>
       (t\<lparr>t_record_next := t_record_next t + 1\<rparr>)"

section \<open>Contributions\<close>

text \<open>
  The three loops of \<open>contribute\<close> run after the contribution has been stored and its usage merged;
  a bad effect raises in the middle and leaves what was done before it.
\<close>

fun store_effects :: "effect list \<Rightarrow> tree \<Rightarrow> tree \<times> exec_error option" where
  "store_effects [] t = (t, None)"
| "store_effects (e # es) t =
     (case ef_id e of
        None \<Rightarrow> (t, Some (ExecutionInvariantError ''Runtime effects require EffectIdentity.''))
      | Some i \<Rightarrow>
          if (case dget (t_effects t) i of None \<Rightarrow> False | Some p \<Rightarrow> \<not> effect_eq p e)
          then (t, Some (ExecutionInvariantError ''Effect identity was reused with different content.''))
          else store_effects es (t\<lparr>t_effects := dset i e (t_effects t)\<rparr>))"

definition contribute :: "codec \<Rightarrow> bool \<Rightarrow> contribution \<Rightarrow> tree \<Rightarrow> tree \<times> exec_error option" where
  "contribute cx settlement c t =
     (case dget (t_scopes t) (ci_scope (cb_id c)) of
        None \<Rightarrow> (t, Some (ExecutionInvariantError ''Contribution references an unknown scope.''))
      | Some s \<Rightarrow>
          if sc_state s = FROZEN \<or> sc_state s = CLOSING \<and> \<not> settlement
          then (t, Some (ExecutionInvariantError ''ExecutionScope no longer accepts this contribution.''))
          else (case dget (t_contributions t) (cb_id c) of
              Some previous \<Rightarrow>
                if contribution_eq previous c then (t, None)
                else (t, Some (ExecutionInvariantError ''Contribution identity was reused with different content.''))
            | None \<Rightarrow>
                let t1 = t\<lparr>t_contributions := dset (cb_id c) c (t_contributions t)\<rparr>;
                    t2 = (case cb_usage c of None \<Rightarrow> t1 | Some u \<Rightarrow> merge_usage u t1)
                in (case store_effects (cb_effects c) t2 of
                      (t3, Some e) \<Rightarrow> (t3, Some e)
                    | (t3, None) \<Rightarrow>
                        let t4 = fold (add_summary_record cx s) (cb_records c) t3
                        in (t4\<lparr>t_cleanup := t_cleanup t4 @ cb_cleanup c\<rparr>, None))))"

definition add_retry_blocker :: "blocker \<Rightarrow> tree \<Rightarrow> tree" where
  "add_retry_blocker b t = (if b \<in> set (t_blockers t) then t else t\<lparr>t_blockers := t_blockers t @ [b]\<rparr>)"

definition commit_stored :: "effect_identity \<Rightarrow> tree \<Rightarrow> tree" where
  "commit_stored i t = (case dget (t_effects t) i of None \<Rightarrow> t
     | Some e \<Rightarrow> t\<lparr>t_effects := dset i (e\<lparr>ef_committed := True\<rparr>) (t_effects t)\<rparr>)"

definition mark_effects_committed :: "effect_identity list \<Rightarrow> tree \<Rightarrow> tree" where
  "mark_effects_committed ids t = fold commit_stored ids t"

end
