(* ===== verification/ExecScope.thy ===== *)
theory ExecScope
  imports ExecTree "HOL-Library.Product_Lexorder"
begin

text \<open>
  Reading the tree and closing it (\<open>roboagent/runtime/execution.py\<close>): the parent-chain loops, the
  per-scope views, the scope's own operations, resource cleanup, \<open>close_scope\<close> and \<open>finalize\<close>.
  The loops that climb the parent chain take fuel; \<open>TreeInv\<close> shows that the fuel used here is enough
  in every tree the operations can build.
\<close>

section \<open>Parent chains\<close>

text \<open>\<open>_is_descendant\<close>: \<open>Some\<close> of the answer, \<open>None\<close> when the fuel runs out.\<close>

fun descendant_loop :: "nat \<Rightarrow> (pystr, scope) dict \<Rightarrow> pystr \<Rightarrow> scope option \<Rightarrow> bool option" where
  "descendant_loop 0 d ancestor current = None"
| "descendant_loop (Suc fuel) d ancestor None = Some False"
| "descendant_loop (Suc fuel) d ancestor (Some s) =
     (if ln_scope (sc_lineage s) = ancestor then Some True
      else descendant_loop fuel d ancestor
             (case ln_parent (sc_lineage s) of None \<Rightarrow> None | Some p \<Rightarrow> dget d p))"

definition chain_fuel :: "tree \<Rightarrow> nat" where
  "chain_fuel t = t_scope_next t + 1"

definition is_descendant :: "tree \<Rightarrow> pystr \<Rightarrow> pystr \<Rightarrow> bool" where
  "is_descendant t sid ancestor \<longleftrightarrow>
     descendant_loop (chain_fuel t) (t_scopes t) ancestor (dget (t_scopes t) sid) = Some True"

text \<open>The climb of \<open>mark_tool_calls_committed\<close> to the scope right under the root.\<close>

fun top_loop :: "nat \<Rightarrow> (pystr, scope) dict \<Rightarrow> pystr \<Rightarrow> scope \<Rightarrow> scope option" where
  "top_loop 0 d root_id s = None"
| "top_loop (Suc fuel) d root_id s =
     (case ln_parent (sc_lineage s) of None \<Rightarrow> Some s
      | Some p \<Rightarrow> if p = root_id then Some s
          else (case dget d p of None \<Rightarrow> Some s | Some q \<Rightarrow> top_loop fuel d root_id q))"

definition commit_if_accepted :: "pystr list \<Rightarrow> effect_identity \<Rightarrow> tree \<Rightarrow> exec_error + tree" where
  "commit_if_accepted accepted i t =
     with_scope (ei_scope i) t (\<lambda>s.
       case top_loop (chain_fuel t) (t_scopes t) (t_root t) s of
         None \<Rightarrow> Inl PyKeyError
       | Some head \<Rightarrow>
           (case ln_call (sc_lineage head) of
              Some call \<Rightarrow> if call \<in> set accepted then Inr (commit_stored i t) else Inr t
            | None \<Rightarrow> Inr t))"

definition mark_tool_calls_committed :: "pystr list \<Rightarrow> tree \<Rightarrow> exec_error + tree" where
  "mark_tool_calls_committed call_ids t = fold_res (commit_if_accepted call_ids) (map fst (t_effects t)) t"

section \<open>Views\<close>

definition effect_key :: "tree \<Rightarrow> effect \<Rightarrow> exec_error + nat \<times> nat" where
  "effect_key t e = (case ef_id e of
     None \<Rightarrow> Inl (ExecutionInvariantError ''Runtime effect is missing EffectIdentity.'')
   | Some i \<Rightarrow> with_scope (ei_scope i) t (\<lambda>s. Inr (sc_sequence s, ei_sequence i)))"

definition effects :: "tree \<Rightarrow> exec_error + effect list" where
  "effects t =
     bind_res (map_res (\<lambda>e. bind_res (effect_key t e) (\<lambda>k. Inr (k, e))) (map snd (t_effects t)))
       (\<lambda>keyed. Inr (map snd (sort_key fst keyed)))"

definition scope_usage_step ::
  "usage_contribution \<Rightarrow> usage_knowledge option \<times> usage option \<Rightarrow> usage_knowledge option \<times> usage option" where
  "scope_usage_step c st = (case st of (state, v) \<Rightarrow>
     if state = Some USAGE_UNKNOWN then (state, v)
     else case c of
       UnknownUsage \<Rightarrow> (Some USAGE_UNKNOWN, None)
     | KnownUsage u \<Rightarrow>
         (case state of None \<Rightarrow> (Some USAGE_KNOWN, Some u)
          | Some _ \<Rightarrow> (state, map_option (\<lambda>w. merge_known_usage w u) v)))"

definition scope_usages :: "tree \<Rightarrow> pystr \<Rightarrow> usage_contribution list" where
  "scope_usages t sid =
     List.map_filter (\<lambda>c. if is_descendant t (ci_scope (cb_id c)) sid then cb_usage c else None)
       (map snd (t_contributions t))"

definition usage_answer :: "usage_knowledge option \<times> usage option \<Rightarrow> usage option \<times> bool option" where
  "usage_answer st = (case fst st of None \<Rightarrow> (None, None)
     | Some USAGE_UNKNOWN \<Rightarrow> (None, Some False) | Some USAGE_KNOWN \<Rightarrow> (snd st, Some True))"

definition usage_for_scope :: "tree \<Rightarrow> pystr \<Rightarrow> usage option \<times> bool option" where
  "usage_for_scope t sid = usage_answer (fold scope_usage_step (scope_usages t sid) (None, None))"

definition effects_for_scope :: "tree \<Rightarrow> pystr \<Rightarrow> exec_error + effect list" where
  "effects_for_scope t sid = bind_res (effects t) (\<lambda>es. Inr (filter (\<lambda>e.
     case ef_id e of None \<Rightarrow> False | Some i \<Rightarrow> is_descendant t (ei_scope i) sid) es))"

definition records_for_scope :: "tree \<Rightarrow> pystr \<Rightarrow> execution_record list" where
  "records_for_scope t sid = filter (\<lambda>r. is_descendant t (er_scope r) sid) (t_records t)"

definition blockers_for_scope :: "tree \<Rightarrow> pystr \<Rightarrow> blocker list" where
  "blockers_for_scope t sid = filter (\<lambda>b. is_descendant t (bl_scope b) sid) (t_blockers t)"

definition cleanup_errors_for_scope :: "tree \<Rightarrow> pystr \<Rightarrow> cleanup_error list" where
  "cleanup_errors_for_scope t sid = filter (\<lambda>e. is_descendant t (ce_scope e) sid) (t_cleanup t)"

text \<open>\<open>ancestor_tool_names\<close>: the tool names above a scope within its own run, outermost first.\<close>

fun ancestor_loop :: "nat \<Rightarrow> (pystr, scope) dict \<Rightarrow> pystr \<Rightarrow> pystr option \<Rightarrow> pystr list option" where
  "ancestor_loop 0 d run parent = None"
| "ancestor_loop (Suc fuel) d run None = Some []"
| "ancestor_loop (Suc fuel) d run (Some p) =
     (case dget d p of None \<Rightarrow> None
      | Some s \<Rightarrow>
          if ln_run (sc_lineage s) \<noteq> run then Some []
          else map_option (\<lambda>names. names @ (case sc_tool s of None \<Rightarrow> [] | Some n \<Rightarrow> [n]))
                 (ancestor_loop fuel d run (ln_parent (sc_lineage s))))"

definition ancestor_tool_names :: "tree \<Rightarrow> scope \<Rightarrow> pystr list option" where
  "ancestor_tool_names t s =
     ancestor_loop (chain_fuel t) (t_scopes t) (ln_run (sc_lineage s)) (ln_parent (sc_lineage s))"

section \<open>Operations of one scope\<close>

definition next_effect_id :: "pystr \<Rightarrow> tree \<Rightarrow> exec_error + effect_identity \<times> tree" where
  "next_effect_id sid t = with_scope sid t (\<lambda>s.
     Inr (EffectIdentity sid (sc_effect_next s),
          upd_scope sid (\<lambda>q. q\<lparr>sc_effect_next := sc_effect_next q + 1\<rparr>) t))"

definition next_contribution_id :: "pystr \<Rightarrow> tree \<Rightarrow> exec_error + contribution_id \<times> tree" where
  "next_contribution_id sid t = with_scope sid t (\<lambda>s.
     Inr (ContributionId sid (sc_contribution_next s),
          upd_scope sid (\<lambda>q. q\<lparr>sc_contribution_next := sc_contribution_next q + 1\<rparr>) t))"

definition next_event_sequence :: "tree \<Rightarrow> nat \<times> tree" where
  "next_event_sequence t = (t_event_next t, t\<lparr>t_event_next := t_event_next t + 1\<rparr>)"

definition register_resource :: "pystr \<Rightarrow> resource \<Rightarrow> tree \<Rightarrow> exec_error + tree" where
  "register_resource sid r t = with_scope sid t (\<lambda>s.
     bind_res (require_open s) (\<lambda>_. Inr (upd_scope sid (\<lambda>q. q\<lparr>sc_resources := sc_resources q @ [r]\<rparr>) t)))"

definition enter_settlement :: "pystr \<Rightarrow> tree \<Rightarrow> exec_error + tree" where
  "enter_settlement sid t = with_scope sid t (\<lambda>s.
     bind_res (require_open s) (\<lambda>_.
       Inr (upd_scope sid (\<lambda>q. q\<lparr>sc_active := sc_active q + 1, sc_idle := False\<rparr>) t)))"

definition leave_settlement :: "pystr \<Rightarrow> tree \<Rightarrow> exec_error + tree" where
  "leave_settlement sid t = with_scope sid t (\<lambda>s.
     if sc_active s = 0 then Inl (ExecutionInvariantError ''Settlement barrier lifecycle underflow.'')
     else Inr (upd_scope sid (\<lambda>q. q\<lparr>sc_active := sc_active q - 1,
                                    sc_idle := (if sc_active q - 1 = 0 then True else sc_idle q)\<rparr>) t))"

definition begin_closing :: "scope \<Rightarrow> scope" where
  "begin_closing s = (if sc_state s = OPEN then s\<lparr>sc_state := CLOSING\<rparr> else s)"

definition freeze :: "pystr \<Rightarrow> tree \<Rightarrow> exec_error + tree" where
  "freeze sid t = with_scope sid t (\<lambda>s.
     if sc_state s = OPEN then Inl (ExecutionInvariantError ''OPEN scope cannot be frozen directly.'')
     else Inr (upd_scope sid (\<lambda>q. q\<lparr>sc_state := FROZEN\<rparr>) t))"

definition cap_deadline :: "pystr \<Rightarrow> rat \<Rightarrow> tree \<Rightarrow> tree" where
  "cap_deadline sid d t = upd_scope sid (\<lambda>q. q\<lparr>sc_deadline := minimum_deadline (sc_deadline q) (Some d)\<rparr>) t"

definition scope_add_retry_blocker :: "pystr \<Rightarrow> blocker_code \<Rightarrow> pystr \<Rightarrow> tree \<Rightarrow> exec_error + tree" where
  "scope_add_retry_blocker sid code message t = with_scope sid t (\<lambda>s.
     bind_res (require_open s) (\<lambda>_.
       if sid = [] \<or> message = [] then Inl (PyValueError ''Invalid RetryBlocker.'')
       else Inr (add_retry_blocker \<lparr>bl_code = code, bl_scope = sid, bl_message = message\<rparr> t)))"

definition record_tool_call ::
  "codec \<Rightarrow> pystr \<Rightarrow> pystr \<Rightarrow> pystr \<Rightarrow> jobj \<Rightarrow> jobj option \<Rightarrow> record_status \<Rightarrow> pystr option
     \<Rightarrow> jobj option \<Rightarrow> tree \<Rightarrow> exec_error + tree" where
  "record_tool_call cx sid call tool arguments preview status error_code evidence t =
     with_scope sid t (\<lambda>s.
       Inr (upd_scope sid (\<lambda>q. q\<lparr>sc_terminal := True\<rparr>)
              (add_tool_record cx s call tool arguments preview status error_code evidence t)))"

text \<open>The contributions a context makes allocate their identity first.\<close>

definition contribute_with ::
  "codec \<Rightarrow> pystr \<Rightarrow> usage_contribution option \<Rightarrow> effect list \<Rightarrow> supplemental list \<Rightarrow> tree
     \<Rightarrow> tree \<times> exec_error option" where
  "contribute_with cx sid u es rs t = (case next_contribution_id sid t of
     Inl e \<Rightarrow> (t, Some e)
   | Inr (i, t1) \<Rightarrow>
       contribute cx False \<lparr>cb_id = i, cb_usage = u, cb_effects = es, cb_records = rs, cb_cleanup = []\<rparr> t1)"

definition contribute_usage :: "codec \<Rightarrow> pystr \<Rightarrow> usage_contribution \<Rightarrow> tree \<Rightarrow> tree \<times> exec_error option" where
  "contribute_usage cx sid u t = contribute_with cx sid (Some u) [] [] t"

definition contribute_effects :: "codec \<Rightarrow> pystr \<Rightarrow> effect list \<Rightarrow> tree \<Rightarrow> tree \<times> exec_error option" where
  "contribute_effects cx sid es t = (if es = [] then (t, None) else contribute_with cx sid None es [] t)"

definition contribute_composite ::
  "codec \<Rightarrow> pystr \<Rightarrow> effect list \<Rightarrow> supplemental list \<Rightarrow> tree \<Rightarrow> tree \<times> exec_error option" where
  "contribute_composite cx sid es rs t = contribute_with cx sid None es rs t"

definition context_mark_committed :: "pystr \<Rightarrow> pystr list \<Rightarrow> tree \<Rightarrow> exec_error + tree" where
  "context_mark_committed sid call_ids t = with_scope sid t (\<lambda>s.
     if ln_run (sc_lineage s) = ln_root (sc_lineage s) then mark_tool_calls_committed call_ids t else Inr t)"

section \<open>Cleanup and closing\<close>

text \<open>
  One turn of the \<open>_cleanup\<close> loop: \<open>close\<close>, and when it does not return, \<open>force_close\<close>. The error
  that is reported is the last one raised.
\<close>

definition cleanup_resource :: "pystr \<Rightarrow> resource \<Rightarrow> tree \<Rightarrow> tree" where
  "cleanup_resource sid r t =
     (if rs_close r = RETURNED then t
      else
        let force_failed = (rs_force r \<noteq> RETURNED);
            last_error = (if force_failed then rs_force r else rs_close r);
            cleanup = \<lparr>ce_scope = sid, ce_resource = rs_type r,
                       ce_code = (if last_error = TIMED_OUT then ''cleanup_timeout'' else ''cleanup_failed''),
                       ce_message = ''Execution resource cleanup did not settle.'', ce_forced = True\<rparr>;
            t1 = t\<lparr>t_cleanup := t_cleanup t @ [cleanup]\<rparr>
        in if force_failed
           then add_retry_blocker \<lparr>bl_code = CLEANUP_UNCERTAIN, bl_scope = sid,
                                   bl_message = ascii (ce_message cleanup)\<rparr> t1
           else t1)"

definition cleanup :: "pystr \<Rightarrow> tree \<Rightarrow> exec_error + tree" where
  "cleanup sid t = with_scope sid t (\<lambda>s.
     Inr (fold (cleanup_resource sid) (rev (sc_resources s)) (upd_scope sid (\<lambda>q. q\<lparr>sc_resources := []\<rparr>) t)))"

definition descendants :: "tree \<Rightarrow> pystr \<Rightarrow> scope list" where
  "descendants t sid = filter (\<lambda>s. is_descendant t (ln_scope (sc_lineage s)) sid) (map snd (t_scopes t))"

text \<open>\<open>sorted(..., reverse=True)\<close> by scope sequence.\<close>

definition close_order :: "tree \<Rightarrow> pystr \<Rightarrow> pystr list" where
  "close_order t sid = map (ln_scope \<circ> sc_lineage) (rev (sort_key sc_sequence (rev (descendants t sid))))"

definition close_begin :: "pystr \<Rightarrow> tree \<Rightarrow> tree" where
  "close_begin sid t = fold (\<lambda>i. upd_scope i begin_closing) (close_order t sid) (upd_scope sid begin_closing t)"

definition finish_one :: "pystr \<Rightarrow> tree \<Rightarrow> exec_error + tree" where
  "finish_one sid t = bind_res (cleanup sid t) (freeze sid)"

text \<open>
  \<open>close_scope\<close> run to the end with nothing else scheduled: \<open>None\<close> is a wait on a settlement that
  some descendant still has open.
\<close>

definition all_idle :: "tree \<Rightarrow> pystr \<Rightarrow> bool" where
  "all_idle t sid \<longleftrightarrow> list_all sc_idle (descendants t sid)"

definition close_scope :: "pystr \<Rightarrow> tree \<Rightarrow> (exec_error + tree) option" where
  "close_scope sid t =
     (let t1 = close_begin sid t in
      if all_idle t1 sid then Some (fold_res finish_one (close_order t1 sid) t1) else None)"

definition close_tool_scope :: "pystr \<Rightarrow> tree \<Rightarrow> (exec_error + tree) option" where
  "close_tool_scope sid t = (case dget (t_scopes t) sid of None \<Rightarrow> Some (Inl PyKeyError)
     | Some s \<Rightarrow> if sc_state s = FROZEN then Some (Inr t) else close_scope sid t)"

section \<open>Finalizing a run\<close>

record summary =
  sm_usage :: "usage option"
  sm_usage_known :: "bool option"
  sm_effects :: "effect list"
  sm_cleanup :: "cleanup_error list"
  sm_records :: "execution_record list"
  sm_complete :: bool
  sm_blockers :: "blocker list"
  sm_cleanup_affects_status :: bool

definition cleanup_affects :: "tree \<Rightarrow> nat \<Rightarrow> cleanup_error list \<Rightarrow> exec_error + bool" where
  "cleanup_affects t depth errors =
     bind_res (map_res (\<lambda>e. with_scope (ce_scope e) t (\<lambda>s. Inr (ln_agent_depth (sc_lineage s) = depth))) errors)
       (\<lambda>bs. Inr (list_ex (\<lambda>b. b) bs))"

definition summarize :: "pystr \<Rightarrow> tree \<Rightarrow> exec_error + summary" where
  "summarize sid t = with_scope sid t (\<lambda>s.
     let is_root = (sid = t_root t);
         (usage, known) = (if is_root then usage_result t else usage_for_scope t sid);
         errors = (if is_root then t_cleanup t else cleanup_errors_for_scope t sid)
     in bind_res (if is_root then effects t else effects_for_scope t sid) (\<lambda>es.
        bind_res (cleanup_affects t (ln_agent_depth (sc_lineage s)) errors) (\<lambda>affects.
        Inr \<lparr>sm_usage = usage, sm_usage_known = known, sm_effects = es, sm_cleanup = errors,
             sm_records = (if is_root then t_records t else records_for_scope t sid),
             sm_complete = t_complete t,
             sm_blockers = (if is_root then t_blockers t else blockers_for_scope t sid),
             sm_cleanup_affects_status = affects\<rparr>)))"

definition finalize :: "pystr \<Rightarrow> tree \<Rightarrow> (exec_error + summary \<times> tree) option" where
  "finalize sid t = (case close_scope sid t of None \<Rightarrow> None
     | Some r \<Rightarrow> Some (bind_res r (\<lambda>t1. bind_res (summarize sid t1) (\<lambda>sm. Inr (sm, t1)))))"

end
