(* ===== verification/TreeInv.thy ===== *)
theory TreeInv
  imports ExecScope
begin

text \<open>
  The invariant of the execution tree and its preservation by every operation. \<open>skeleton\<close> is what
  never changes once a scope exists; \<open>linked\<close> says the parent links of the skeleton are well-founded;
  the rest relates scope states, budgets, the record log and the keyed stores.
\<close>

section \<open>Frames\<close>

named_theorems frame \<open>fields an operation leaves alone\<close>

lemma get_upd_scope [simp, frame]:
  "dget (t_scopes (upd_scope sid f t)) j =
     (if j = sid then map_option f (dget (t_scopes t) sid) else dget (t_scopes t) j)"
  by (auto simp: upd_scope_def split: option.splits)

lemma upd_scope_frame [simp, frame]:
  "t_root_run (upd_scope sid f t) = t_root_run t" "t_tokens (upd_scope sid f t) = t_tokens t"
  "t_budget (upd_scope sid f t) = t_budget t" "t_max_records (upd_scope sid f t) = t_max_records t"
  "t_max_evidence (upd_scope sid f t) = t_max_evidence t"
  "t_scope_next (upd_scope sid f t) = t_scope_next t"
  "t_record_next (upd_scope sid f t) = t_record_next t"
  "t_child_runs (upd_scope sid f t) = t_child_runs t"
  "t_nested_tools (upd_scope sid f t) = t_nested_tools t"
  "t_contributions (upd_scope sid f t) = t_contributions t"
  "t_usage_state (upd_scope sid f t) = t_usage_state t" "t_usage (upd_scope sid f t) = t_usage t"
  "t_effects (upd_scope sid f t) = t_effects t" "t_records (upd_scope sid f t) = t_records t"
  "t_complete (upd_scope sid f t) = t_complete t" "t_cleanup (upd_scope sid f t) = t_cleanup t"
  "t_blockers (upd_scope sid f t) = t_blockers t" "t_root (upd_scope sid f t) = t_root t"
  by (simp_all add: upd_scope_def split: option.splits)

lemma keys_upd_scope [simp, frame]: "dkeys (t_scopes (upd_scope sid f t)) = dkeys (t_scopes t)"
proof -
  have "sid \<in> dkeys (t_scopes t)" if "dget (t_scopes t) sid = Some s" for s
    using dget_Some_in [OF that] by force
  then show ?thesis by (auto simp: upd_scope_def split: option.splits)
qed

lemma mapfst_upd_scope [simp]: "map fst (t_scopes (upd_scope sid f t)) = map fst (t_scopes t)"
proof (cases "dget (t_scopes t) sid")
  case (Some s)
  from dget_Some_in [OF this] have "sid \<in> dkeys (t_scopes t)" by force
  with Some show ?thesis by (simp add: upd_scope_def dset_keys_present)
qed (simp add: upd_scope_def)

lemma length_upd_scope [simp]: "length (t_scopes (upd_scope sid f t)) = length (t_scopes t)"
  by (metis length_map mapfst_upd_scope)

lemma dict_ok_upd_scope [simp]: "dict_ok (t_scopes (upd_scope sid f t)) = dict_ok (t_scopes t)"
  by (simp add: dict_ok_def)

lemma key_of_get: "dget d k = Some v \<Longrightarrow> k \<in> dkeys d"
  using dget_Some_in by force

lemma get_of_key: "k \<in> dkeys d \<Longrightarrow> \<exists>v. dget d k = Some v"
  by (meson dget_None_iff not_None_eq)

text \<open>
  \<open>core\<close> forgets the ledgers of a tree: an operation that leaves the core alone leaves alone every
  fact about scopes, budgets and tokens.
\<close>

definition core :: "tree \<Rightarrow> tree" where
  "core t = t\<lparr>t_contributions := [], t_usage_state := None, t_usage := None, t_effects := [],
     t_records := [], t_complete := True, t_record_next := 0, t_cleanup := [], t_blockers := [],
     t_event_next := 0\<rparr>"

lemma core_fields:
  assumes "core u = core t"
  shows "t_scopes u = t_scopes t" "t_scope_next u = t_scope_next t" "t_tokens u = t_tokens t"
    "t_root u = t_root t" "t_root_run u = t_root_run t" "t_budget u = t_budget t"
    "t_child_runs u = t_child_runs t" "t_nested_tools u = t_nested_tools t"
    "t_max_records u = t_max_records t"
  using assms by (cases t; cases u; simp add: core_def)+

lemma core_append_record [simp, frame]: "core (append_record r t) = core t"
  by (simp add: append_record_def core_def Let_def)

lemma core_summary_record [simp, frame]: "core (add_summary_record cx s r t) = core t"
  by (simp add: add_summary_record_def) (simp add: core_def)

lemma core_tool_record [simp, frame]: "core (add_tool_record cx s c n a p st e v t) = core t"
  by (simp add: add_tool_record_def) (simp add: core_def)

lemma core_store_effects [simp, frame]: "core (fst (store_effects es t)) = core t"
proof (induction es arbitrary: t)
  case (Cons e es)
  have "core (t\<lparr>t_effects := d\<rparr>) = core t" for d by (simp add: core_def)
  with Cons show ?case by (auto split: option.splits)
qed simp

lemma core_merge_usage [simp, frame]: "core (merge_usage u t) = core t"
  by (simp add: merge_usage_def core_def split: usage_contribution.splits option.splits)

lemma core_blocker [simp, frame]: "core (add_retry_blocker b t) = core t"
  by (simp add: add_retry_blocker_def core_def)

lemma core_commit_stored [simp, frame]: "core (commit_stored i t) = core t"
  by (simp add: commit_stored_def core_def split: option.splits)

lemma fold_same: "(\<And>x t. g (h x t) = g t) \<Longrightarrow> g (fold h xs t) = g t"
  by (induction xs arbitrary: t) auto

lemma core_contribute [simp, frame]: "core (fst (contribute cx settlement c t)) = core t"
proof -
  have 1: "core (t\<lparr>t_contributions := d\<rparr>) = core t" "core (t\<lparr>t_cleanup := e\<rparr>) = core t" for t d e
    by (simp_all add: core_def)
  have 2: "core (fold (add_summary_record cx s) rs t) = core t" for s rs t
    by (rule fold_same) simp
  have 3: "store_effects es u = (v, r) \<Longrightarrow> core v = core u" for es u v r
    using core_store_effects [of es u] by simp
  show ?thesis
    by (auto simp: contribute_def Let_def 1 2 split: option.splits prod.splits dest!: 3)
qed

lemma core_commit_if_accepted: "commit_if_accepted accepted i t = Inr u \<Longrightarrow> core u = core t"
  by (auto simp: commit_if_accepted_def with_scope_def split: option.splits if_splits)

lemma core_mark_tool_calls: "mark_tool_calls_committed ids t = Inr u \<Longrightarrow> core u = core t"
  unfolding mark_tool_calls_committed_def
  by (rule fold_res_inv [where P = "\<lambda>v. core v = core t"]) (auto dest: core_commit_if_accepted)

section \<open>The invariant of scopes\<close>

definition scope_ok :: "tree \<Rightarrow> pystr \<Rightarrow> scope \<Rightarrow> bool" where
  "scope_ok t sid s \<longleftrightarrow>
     ln_scope (sc_lineage s) = sid \<and> ln_root (sc_lineage s) = t_root_run t \<and> lineage_ok (sc_lineage s)
     \<and> sc_sequence s < t_scope_next t \<and> sc_token s < length (t_tokens t)
     \<and> ln_agent_depth (sc_lineage s) \<le> bc_agent_depth (t_budget t)
     \<and> (sc_idle s \<longleftrightarrow> sc_active s = 0)
     \<and> (sc_state s = FROZEN \<longrightarrow> sc_active s = 0 \<and> sc_resources s = [])"

text \<open>A parent was created before its child, one level up, and is never less closed than it.\<close>

definition link_ok :: "scope \<Rightarrow> scope \<Rightarrow> bool" where
  "link_ok p s \<longleftrightarrow> sc_sequence p < sc_sequence s \<and> ln_depth (sc_lineage s) = ln_depth (sc_lineage p) + 1
     \<and> ln_agent_depth (sc_lineage p) \<le> ln_agent_depth (sc_lineage s)
     \<and> (sc_state p \<noteq> OPEN \<longrightarrow> sc_state s \<noteq> OPEN) \<and> (sc_state p = FROZEN \<longrightarrow> sc_state s = FROZEN)"

definition parent_ok :: "tree \<Rightarrow> pystr \<Rightarrow> scope \<Rightarrow> bool" where
  "parent_ok t sid s = (case ln_parent (sc_lineage s) of
     None \<Rightarrow> sid = t_root t
   | Some p \<Rightarrow> sid \<noteq> t_root t \<and> (\<exists>ps. dget (t_scopes t) p = Some ps \<and> link_ok ps s))"

definition scopes_ok :: "tree \<Rightarrow> bool" where
  "scopes_ok t \<longleftrightarrow> dict_ok (t_scopes t) \<and> t_root t \<in> dkeys (t_scopes t)
     \<and> length (t_scopes t) = t_scope_next t \<and> tokens_ok (t_tokens t)
     \<and> (\<forall>i s. dget (t_scopes t) i = Some s \<longrightarrow> scope_ok t i s \<and> parent_ok t i s)
     \<and> (\<forall>i j s u. dget (t_scopes t) i = Some s \<longrightarrow> dget (t_scopes t) j = Some u \<longrightarrow>
          sc_sequence s = sc_sequence u \<longrightarrow> i = j)"

lemma scopes_okI:
  assumes "dict_ok (t_scopes t)" "t_root t \<in> dkeys (t_scopes t)" "length (t_scopes t) = t_scope_next t"
    "tokens_ok (t_tokens t)" "\<And>i s. dget (t_scopes t) i = Some s \<Longrightarrow> scope_ok t i s \<and> parent_ok t i s"
    "\<And>i j s u. dget (t_scopes t) i = Some s \<Longrightarrow> dget (t_scopes t) j = Some u \<Longrightarrow>
       sc_sequence s = sc_sequence u \<Longrightarrow> i = j"
  shows "scopes_ok t"
  unfolding scopes_ok_def using assms by blast

lemma scopes_ok_inj:
  "scopes_ok t \<Longrightarrow> dget (t_scopes t) i = Some s \<Longrightarrow> dget (t_scopes t) j = Some u \<Longrightarrow>
     sc_sequence s = sc_sequence u \<Longrightarrow> i = j"
  unfolding scopes_ok_def by blast

lemma scopes_ok_core: "core u = core t \<Longrightarrow> scopes_ok u \<longleftrightarrow> scopes_ok t"
  unfolding scopes_ok_def scope_ok_def parent_ok_def by (simp only: core_fields [of u t])

lemma scopes_okD:
  assumes "scopes_ok t" "dget (t_scopes t) i = Some s"
  shows "ln_scope (sc_lineage s) = i" "sc_sequence s < t_scope_next t" "scope_ok t i s" "parent_ok t i s"
  using assms by (auto simp: scopes_ok_def scope_ok_def)

text \<open>Updating one scope without touching its lineage, sequence, token or state.\<close>

lemma scopes_ok_upd:
  assumes "scopes_ok t"
    and "\<And>s. dget (t_scopes t) sid = Some s \<Longrightarrow> sc_lineage (f s) = sc_lineage s \<and> sc_sequence (f s) = sc_sequence s
       \<and> sc_token (f s) = sc_token s \<and> sc_state (f s) = sc_state s \<and> (scope_ok t sid s \<longrightarrow> scope_ok t sid (f s))"
  shows "scopes_ok (upd_scope sid f t)"
proof -
  have so: "scope_ok (upd_scope sid f t) i s = scope_ok t i s" for i s by (simp add: scope_ok_def)
  have po: "parent_ok (upd_scope sid f t) i s" if "parent_ok t i s" for i s
    using that assms(2) by (auto simp: parent_ok_def link_ok_def split: option.splits)
  have pf: "parent_ok t i (f s) = parent_ok t i s" if "dget (t_scopes t) sid = Some s" for i s
    using assms(2) [OF that] by (simp add: parent_ok_def link_ok_def split: option.splits)
  show ?thesis
    using assms(1) assms(2) unfolding scopes_ok_def
    by (auto simp: so pf intro!: po split: if_splits)
qed

section \<open>Creating scopes\<close>

lemma minimum_deadline_le:
  "minimum_deadline a b = Some d \<Longrightarrow> (\<forall>x. a = Some x \<longrightarrow> d \<le> x) \<and> (\<forall>x. b = Some x \<longrightarrow> d \<le> x)"
  by (auto simp: minimum_deadline_def split: option.splits)

text \<open>What a successful \<open>_new_scope\<close> under an open parent leaves in the tree.\<close>

lemma new_scope_effect:
  assumes "new_scope uuid run (Some p) agent_depth token deadline call agent_tool t = Inr u"
    and "uuid \<notin> dkeys (t_scopes t)" and "dget (t_scopes t) pid = Some p" and "ln_scope (sc_lineage p) = pid"
  shows "t_scopes u = dset pid (p\<lparr>sc_children := sc_children p @ [uuid]\<rparr>) (t_scopes t) @
      [(uuid, make_scope \<lparr>ln_root = t_root_run t, ln_run = run, ln_scope = uuid, ln_parent = Some pid,
          ln_depth = ln_depth (sc_lineage p) + 1, ln_agent_depth = agent_depth, ln_call = call,
          ln_agent_tool = agent_tool\<rparr> (t_scope_next t) token deadline)]"
    and "u\<lparr>t_scopes := t_scopes t, t_scope_next := t_scope_next t\<rparr> = t"
    and "t_scope_next u = t_scope_next t + 1" and "uuid \<noteq> []" and "run \<noteq> []" and "t_root_run t \<noteq> []"
proof -
  have "pid \<noteq> uuid" using assms(2,3) by (metis key_of_get)
  have app: "dset pid x (d @ [(uuid, y)]) = dset pid x d @ [(uuid, y)]" if "pid \<in> dkeys d" for x y d
    using that \<open>pid \<noteq> uuid\<close> by (induction d) auto
  have k: "pid \<in> dkeys (t_scopes t)" using assms(3) by (rule key_of_get)
  show "t_scopes u = dset pid (p\<lparr>sc_children := sc_children p @ [uuid]\<rparr>) (t_scopes t) @
      [(uuid, make_scope \<lparr>ln_root = t_root_run t, ln_run = run, ln_scope = uuid, ln_parent = Some pid,
          ln_depth = ln_depth (sc_lineage p) + 1, ln_agent_depth = agent_depth, ln_call = call,
          ln_agent_tool = agent_tool\<rparr> (t_scope_next t) token deadline)]"
    "u\<lparr>t_scopes := t_scopes t, t_scope_next := t_scope_next t\<rparr> = t"
    "t_scope_next u = t_scope_next t + 1" "uuid \<noteq> []" "run \<noteq> []" "t_root_run t \<noteq> []"
    using assms \<open>pid \<noteq> uuid\<close> k
    by (auto simp: new_scope_def Let_def upd_scope_def dset_new app lineage_ok_def split: if_splits)
qed

lemma scopes_ok_new_scope:
  assumes n: "new_scope uuid run (Some p) agent_depth token deadline call agent_tool t = Inr u"
    and fresh: "uuid \<notin> dkeys (t_scopes t)" and ok: "scopes_ok t" and p: "dget (t_scopes t) pid = Some p"
    and op: "sc_state p = OPEN" and tok: "token < length (t_tokens t)"
    and ad: "ln_agent_depth (sc_lineage p) \<le> agent_depth" "agent_depth \<le> bc_agent_depth (t_budget t)"
  shows "scopes_ok u"
proof -
  note E = new_scope_effect [OF n fresh p scopes_okD(1) [OF ok p]]
  let ?s0 = "make_scope \<lparr>ln_root = t_root_run t, ln_run = run, ln_scope = uuid, ln_parent = Some pid,
      ln_depth = ln_depth (sc_lineage p) + 1, ln_agent_depth = agent_depth, ln_call = call,
      ln_agent_tool = agent_tool\<rparr> (t_scope_next t) token deadline"
  let ?q = "p\<lparr>sc_children := sc_children p @ [uuid]\<rparr>"
  have f: "t_tokens u = t_tokens t" "t_root u = t_root t" "t_root_run u = t_root_run t" "t_budget u = t_budget t"
    using arg_cong [OF E(2), of t_tokens] arg_cong [OF E(2), of t_root] arg_cong [OF E(2), of t_root_run]
      arg_cong [OF E(2), of t_budget] by simp_all
  have k: "pid \<in> dkeys (t_scopes t)" "pid \<noteq> uuid" using p fresh key_of_get by metis+
  have un: "dget (t_scopes t) uuid = None" using fresh by (simp add: dget_None_iff)
  have g: "dget (t_scopes u) i = (if i = uuid then Some ?s0
        else if i = pid then Some ?q else dget (t_scopes t) i)" for i
    using k un by (auto simp: E(1) map_add_def split: option.splits)
  have old: "scope_ok u i s" if "scope_ok t i s" for i s
    using that E(3) f by (auto simp: scope_ok_def)
  have new: "scope_ok u uuid ?s0"
    using E(3-6) f tok ad scopes_okD(3) [OF ok p] by (auto simp: scope_ok_def make_scope_def lineage_ok_def)
  have pq: "parent_ok u i s" if "parent_ok t i s" for i s
    using that f p fresh unfolding parent_ok_def g
    by (auto simp: link_ok_def split: option.splits dest: key_of_get)
  have pn: "parent_ok u uuid ?s0"
    using ok fresh k f op ad scopes_okD(2) [OF ok p]
    by (auto simp: parent_ok_def g make_scope_def link_ok_def scopes_ok_def)
  have so: "scope_ok t pid ?q" "parent_ok t pid ?q"
    using scopes_okD(3,4) [OF ok p] by (auto simp: scope_ok_def parent_ok_def link_ok_def split: option.splits)
  have d: "dict_ok (t_scopes u)" "dkeys (t_scopes u) = insert uuid (dkeys (t_scopes t))"
      "length (t_scopes u) = Suc (length (t_scopes t))"
    using ok fresh k by (auto simp: E(1) scopes_ok_def dict_ok_def dset_keys_present length_dset)
  have sq: "sc_sequence s = t_scope_next t" if "dget (t_scopes u) uuid = Some s" for s
    using that by (auto simp: g make_scope_def)
  have so2: "\<exists>s'. dget (t_scopes t) i = Some s' \<and> sc_sequence s' = sc_sequence s"
    if "dget (t_scopes u) i = Some s" "i \<noteq> uuid" for i s
    using that p by (auto simp: g split: if_splits)
  have inj: "i = j" if h: "dget (t_scopes u) i = Some s" "dget (t_scopes u) j = Some r" "sc_sequence s = sc_sequence r"
    for i j s r
  proof -
    have lt: "sc_sequence x < t_scope_next t" if "dget (t_scopes u) m = Some x" "m \<noteq> uuid" for m x
      using so2 [OF that] scopes_okD(2) [OF ok] by metis
    show ?thesis
    proof (cases "i = uuid \<or> j = uuid")
      case True
      with h sq lt show ?thesis by (metis less_irrefl)
    next
      case False
      with so2 [OF h(1)] so2 [OF h(2)] h(3) show ?thesis using scopes_ok_inj [OF ok] by metis
    qed
  qed
  have all: "scope_ok u i s \<and> parent_ok u i s" if "dget (t_scopes u) i = Some s" for i s
    using that new old pn pq so scopes_okD(3,4) [OF ok] by (auto simp: g split: if_splits)
  have "tokens_ok (t_tokens t)" "t_root t \<in> dkeys (t_scopes t)" "length (t_scopes t) = t_scope_next t"
    using ok by (simp_all add: scopes_ok_def)
  then show ?thesis
  proof (intro scopes_okI)
    show "i = j" if "dget (t_scopes u) i = Some s" "dget (t_scopes u) j = Some r"
      "sc_sequence s = sc_sequence r" for i j s r using inj that .
  qed (simp_all add: d f E(3) all)
qed

end
