(* ===== verification/TreeClose.thy ===== *)
theory TreeClose
  imports TreeInv
begin

text \<open>
  Parent chains and closing: the climbing loops of the execution tree compute the reflexive-transitive
  closure of the parent link, and closing a scope closes exactly the scopes below it, children first.
\<close>

section \<open>The parent chain\<close>

text \<open>The specification of the climbing loops: reflexive-transitive closure of the parent link.\<close>

inductive anc :: "tree \<Rightarrow> pystr \<Rightarrow> pystr \<Rightarrow> bool" for t where
  anc_refl: "dget (t_scopes t) i = Some s \<Longrightarrow> anc t i i"
| anc_step: "dget (t_scopes t) i = Some s \<Longrightarrow> ln_parent (sc_lineage s) = Some p \<Longrightarrow> anc t p a \<Longrightarrow> anc t i a"

inductive_cases anc_elim: "anc t i a"

lemma anc_iff:
  "dget (t_scopes t) i = Some s \<Longrightarrow>
     anc t i a \<longleftrightarrow> i = a \<or> (\<exists>p. ln_parent (sc_lineage s) = Some p \<and> anc t p a)"
  by (auto intro: anc_refl anc_step elim: anc_elim)

lemma anc_keys: "anc t i a \<Longrightarrow> i \<in> dkeys (t_scopes t) \<and> a \<in> dkeys (t_scopes t)"
  by (induction rule: anc.induct) (auto intro: key_of_get)

lemma anc_trans: "anc t i j \<Longrightarrow> anc t j a \<Longrightarrow> anc t i a"
  by (induction rule: anc.induct) (auto intro: anc_step)

lemma parent_get:
  assumes "scopes_ok t" "dget (t_scopes t) i = Some s" "ln_parent (sc_lineage s) = Some p"
  obtains ps where "dget (t_scopes t) p = Some ps" "link_ok ps s"
  using scopes_okD(4) [OF assms(1,2)] assms(3) by (auto simp: parent_ok_def)

lemma descendant_loop_iff:
  assumes "scopes_ok t"
  shows "dget (t_scopes t) i = Some s \<Longrightarrow> sc_sequence s + 2 \<le> fuel \<Longrightarrow>
     descendant_loop fuel (t_scopes t) a (Some s) = Some (anc t i a)"
proof (induction fuel arbitrary: i s)
  case (Suc fuel)
  have i: "ln_scope (sc_lineage s) = i" using scopes_okD(1) [OF assms Suc.prems(1)] .
  show ?case
  proof (cases "ln_parent (sc_lineage s)")
    case None
    from Suc.prems(2) obtain m where "fuel = Suc m" by (cases fuel) auto
    with None i anc_iff [OF Suc.prems(1), of a] show ?thesis by simp
  next
    case (Some p)
    with assms Suc.prems(1) obtain ps where ps: "dget (t_scopes t) p = Some ps" "link_ok ps s"
      by (rule parent_get)
    then have "sc_sequence ps + 2 \<le> fuel" using Suc.prems(2) by (simp add: link_ok_def)
    from Suc.IH [OF ps(1) this] Some ps i anc_iff [OF Suc.prems(1), of a] show ?thesis by auto
  qed
qed simp

lemma chain_fuel_enough:
  "scopes_ok t \<Longrightarrow> dget (t_scopes t) i = Some s \<Longrightarrow> sc_sequence s + 2 \<le> chain_fuel t"
  using scopes_okD(2) by (fastforce simp: chain_fuel_def)

lemma is_descendant_iff: "scopes_ok t \<Longrightarrow> is_descendant t i a \<longleftrightarrow> anc t i a"
proof (cases "dget (t_scopes t) i")
  case None
  then have "\<not> anc t i a" by (auto elim: anc_elim)
  with None show ?thesis by (simp add: is_descendant_def chain_fuel_def)
next
  case (Some s)
  moreover assume "scopes_ok t"
  ultimately show ?thesis
    using descendant_loop_iff [of t i s "chain_fuel t" a] chain_fuel_enough [of t i s]
    by (simp add: is_descendant_def)
qed

lemma anc_root: "scopes_ok t \<Longrightarrow> dget (t_scopes t) i = Some s \<Longrightarrow> anc t i (t_root t)"
proof (induction "sc_sequence s" arbitrary: i s rule: less_induct)
  case less
  show ?case
  proof (cases "ln_parent (sc_lineage s)")
    case None
    with scopes_okD(4) [OF less.prems] have "i = t_root t" by (simp add: parent_ok_def)
    with less.prems show ?thesis by (auto intro: anc_refl)
  next
    case (Some p)
    with less.prems obtain ps where "dget (t_scopes t) p = Some ps" "link_ok ps s" by (rule parent_get)
    with less.hyps [of ps p] less.prems Some show ?thesis by (auto simp: link_ok_def intro: anc_step)
  qed
qed

lemma anc_sequence:
  assumes ok: "scopes_ok t" and "anc t i a" "dget (t_scopes t) i = Some s" "dget (t_scopes t) a = Some u"
  shows "i = a \<or> sc_sequence u < sc_sequence s"
  using assms(2-)
proof (induction arbitrary: s rule: anc.induct)
  case (anc_step i s' p a)
  then have s: "ln_parent (sc_lineage s) = Some p" by simp
  from ok anc_step.prems(1) s obtain ps where ps: "dget (t_scopes t) p = Some ps" "link_ok ps s"
    by (rule parent_get)
  from anc_step.IH [OF ps(1) anc_step.prems(2)] ps anc_step.prems show ?case by (auto simp: link_ok_def)
qed simp

text \<open>Trees with the same links have the same chains.\<close>

definition same_links :: "tree \<Rightarrow> tree \<Rightarrow> bool" where
  "same_links t u \<longleftrightarrow> (\<forall>i. map_option sc_lineage (dget (t_scopes t) i) = map_option sc_lineage (dget (t_scopes u) i))"

lemma same_links_sym: "same_links t u \<Longrightarrow> same_links u t"
  by (simp add: same_links_def)

lemma same_links_get:
  assumes "same_links t u" "dget (t_scopes t) i = Some s"
  obtains s' where "dget (t_scopes u) i = Some s'" "sc_lineage s' = sc_lineage s"
  using assms unfolding same_links_def by (cases "dget (t_scopes u) i") (metis option.simps(3,8,9) option.inject)+

lemma anc_same_links: "anc t i a \<Longrightarrow> same_links t u \<Longrightarrow> anc u i a"
proof (induction rule: anc.induct)
  case (anc_refl i s)
  then show ?case by (metis same_links_get anc.anc_refl)
next
  case (anc_step i s p a)
  from anc_step.prems anc_step.hyps(1) obtain s' where "dget (t_scopes u) i = Some s'" "sc_lineage s' = sc_lineage s"
    by (rule same_links_get)
  with anc_step show ?case by (auto intro: anc.anc_step)
qed

lemma descendant_loop_links:
  assumes "\<And>i. map_option sc_lineage (dget d i) = map_option sc_lineage (dget e i)"
  shows "map_option sc_lineage x = map_option sc_lineage y \<Longrightarrow> descendant_loop fuel d a x = descendant_loop fuel e a y"
proof (induction fuel arbitrary: x y)
  case (Suc fuel)
  have "descendant_loop fuel d a (dget d p) = descendant_loop fuel e a (dget e p)" for p
    by (rule Suc.IH) (rule assms)
  moreover have "descendant_loop fuel d a None = descendant_loop fuel e a None" by (rule Suc.IH) simp
  ultimately show ?case using Suc.prems by (cases x; cases y) (auto split: option.splits)
qed simp

lemma is_descendant_links:
  "same_links t u \<Longrightarrow> t_scope_next t = t_scope_next u \<Longrightarrow> is_descendant t i a = is_descendant u i a"
  unfolding is_descendant_def chain_fuel_def same_links_def
  using descendant_loop_links [of "t_scopes t" "t_scopes u"] by metis

section \<open>Closing\<close>

lemma fold_upd_scope:
  assumes "distinct ids"
  shows "dget (t_scopes (fold (\<lambda>i. upd_scope i f) ids t)) j =
    (if j \<in> set ids then map_option f (dget (t_scopes t) j) else dget (t_scopes t) j)"
  using assms by (induction ids arbitrary: t) auto

lemma scopes_ok_dict: "scopes_ok t \<Longrightarrow> dict_ok (t_scopes t)"
  by (simp add: scopes_ok_def)

lemma scopes_ok_self: "scopes_ok t \<Longrightarrow> (i, s) \<in> set (t_scopes t) \<Longrightarrow> ln_scope (sc_lineage s) = i"
  using scopes_ok_dict dict_ok_get scopes_okD(1) by metis

lemma scope_values:
  assumes "scopes_ok t"
  shows "s \<in> snd ` set (t_scopes t) \<longleftrightarrow> dget (t_scopes t) (ln_scope (sc_lineage s)) = Some s"
proof
  assume "s \<in> snd ` set (t_scopes t)"
  then obtain i where "(i, s) \<in> set (t_scopes t)" by force
  with scopes_ok_self [OF assms this] dict_ok_get [OF scopes_ok_dict [OF assms]]
  show "dget (t_scopes t) (ln_scope (sc_lineage s)) = Some s" by simp
qed (force dest: dget_Some_in)

lemma set_descendants:
  "scopes_ok t \<Longrightarrow> s \<in> set (descendants t sid) \<longleftrightarrow>
     dget (t_scopes t) (ln_scope (sc_lineage s)) = Some s \<and> anc t (ln_scope (sc_lineage s)) sid"
  by (simp only: descendants_def set_filter set_map mem_Collect_eq scope_values is_descendant_iff)

lemma set_close_order: "scopes_ok t \<Longrightarrow> set (close_order t sid) = {i. anc t i sid}"
proof -
  assume ok: "scopes_ok t"
  have "set (close_order t sid) = (ln_scope \<circ> sc_lineage) ` set (descendants t sid)"
    by (simp add: close_order_def)
  moreover have "anc t i sid \<Longrightarrow> \<exists>s. dget (t_scopes t) i = Some s \<and> ln_scope (sc_lineage s) = i" for i
    using anc_keys [of t i sid] get_of_key scopes_okD(1) [OF ok] by meson
  ultimately show ?thesis
    using set_descendants [OF ok] by (fastforce simp: image_iff)
qed

lemma distinct_descendants: "scopes_ok t \<Longrightarrow> distinct (map (ln_scope \<circ> sc_lineage) (descendants t sid))"
proof -
  assume ok: "scopes_ok t"
  have "map (ln_scope \<circ> sc_lineage) (map snd (t_scopes t)) = map fst (t_scopes t)"
    unfolding map_map by (rule map_cong) (auto simp: scopes_ok_self [OF ok])
  then have "distinct (map (ln_scope \<circ> sc_lineage) (map snd (t_scopes t)))"
    using scopes_ok_dict [OF ok] unfolding dict_ok_def by metis
  then show ?thesis unfolding descendants_def by (rule distinct_map_filter)
qed

lemma distinct_close_order: "scopes_ok t \<Longrightarrow> distinct (close_order t sid)"
proof -
  assume "scopes_ok t"
  let ?f = "ln_scope \<circ> sc_lineage" and ?s = "rev (sort_key sc_sequence (rev (descendants t sid)))"
  have "mset (map ?f ?s) = mset (map ?f (descendants t sid))" by simp
  with distinct_descendants [OF \<open>scopes_ok t\<close>] show ?thesis
    unfolding close_order_def using mset_eq_imp_distinct_iff by blast
qed


lemma close_order_children_first:
  assumes "scopes_ok t"
  shows "sorted_wrt (\<lambda>i j. \<forall>s u. dget (t_scopes t) i = Some s \<longrightarrow> dget (t_scopes t) j = Some u \<longrightarrow>
           sc_sequence u \<le> sc_sequence s) (close_order t sid)"
proof -
  let ?s = "sort_key sc_sequence (rev (descendants t sid))"
  have "sorted_wrt (\<lambda>x y. sc_sequence x \<le> sc_sequence y) ?s"
    using sorted_sort_key [of sc_sequence] by (simp only: sorted_map)
  then have "sorted_wrt (\<lambda>x y. sc_sequence y \<le> sc_sequence x) (rev ?s)"
    by (simp add: sorted_wrt_rev)
  then have "sorted_wrt (\<lambda>x y. \<forall>s u. dget (t_scopes t) (ln_scope (sc_lineage x)) = Some s \<longrightarrow>
      dget (t_scopes t) (ln_scope (sc_lineage y)) = Some u \<longrightarrow> sc_sequence u \<le> sc_sequence s) (rev ?s)"
    by (rule sorted_wrt_mono_rel [rotated]) (auto simp: set_descendants [OF assms])
  then show ?thesis by (simp add: close_order_def sorted_wrt_map)
qed

text \<open>What the first half of \<open>close_scope\<close> does: the scopes below, and only those, stop being open.\<close>

lemma same_links_upd_scope:
  "(\<And>s. sc_lineage (f s) = sc_lineage s) \<Longrightarrow> same_links t (upd_scope i f t)"
  by (auto simp: same_links_def option.map_comp comp_def)

lemma begin_closing_frame [simp]:
  "sc_lineage (begin_closing s) = sc_lineage s" "sc_sequence (begin_closing s) = sc_sequence s"
  "sc_token (begin_closing s) = sc_token s" "sc_active (begin_closing s) = sc_active s"
  "sc_idle (begin_closing s) = sc_idle s" "sc_resources (begin_closing s) = sc_resources s"
  "sc_state (begin_closing s) \<noteq> OPEN" "sc_state (begin_closing s) = FROZEN \<longleftrightarrow> sc_state s = FROZEN"
  "begin_closing (begin_closing s) = begin_closing s"
  by (auto simp: begin_closing_def)

lemma close_begin_get:
  assumes "scopes_ok t"
  shows "dget (t_scopes (close_begin sid t)) j =
    (if anc t j sid then map_option begin_closing (dget (t_scopes t) j) else dget (t_scopes t) j)"
proof -
  have "j = sid \<Longrightarrow> \<not> anc t j sid \<Longrightarrow> dget (t_scopes t) sid = None"
    by (metis anc_refl option.exhaust)
  then show ?thesis
    using fold_upd_scope [OF distinct_close_order [OF assms]]
    by (auto simp: close_begin_def set_close_order [OF assms] option.map_comp comp_def)
qed

lemma fold_upd_frame:
  "t_scope_next (fold (\<lambda>i. upd_scope i f) ids t) = t_scope_next t"
  "t_root (fold (\<lambda>i. upd_scope i f) ids t) = t_root t"
  "t_root_run (fold (\<lambda>i. upd_scope i f) ids t) = t_root_run t"
  "t_tokens (fold (\<lambda>i. upd_scope i f) ids t) = t_tokens t"
  "t_budget (fold (\<lambda>i. upd_scope i f) ids t) = t_budget t"
  "map fst (t_scopes (fold (\<lambda>i. upd_scope i f) ids t)) = map fst (t_scopes t)"
  by (induction ids arbitrary: t) simp_all

lemma close_begin_frame [simp]:
  "t_scope_next (close_begin sid t) = t_scope_next t" "t_root (close_begin sid t) = t_root t"
  "t_root_run (close_begin sid t) = t_root_run t" "t_tokens (close_begin sid t) = t_tokens t"
  "t_budget (close_begin sid t) = t_budget t"
  "map fst (t_scopes (close_begin sid t)) = map fst (t_scopes t)"
  by (simp_all add: close_begin_def fold_upd_frame)

text \<open>A tree whose scopes agree up to their state, in a way that respects the links, keeps the invariant.\<close>

lemma scopes_ok_states:
  assumes ok: "scopes_ok t"
    and fr: "map fst (t_scopes u) = map fst (t_scopes t)" "t_scope_next u = t_scope_next t" "t_root u = t_root t"
      "t_root_run u = t_root_run t" "t_tokens u = t_tokens t" "t_budget u = t_budget t"
    and sc: "\<And>i s'. dget (t_scopes u) i = Some s' \<Longrightarrow> \<exists>s. dget (t_scopes t) i = Some s \<and> sc_lineage s' = sc_lineage s
        \<and> sc_sequence s' = sc_sequence s \<and> sc_token s' = sc_token s \<and> (sc_idle s' \<longleftrightarrow> sc_active s' = 0)
        \<and> (sc_state s' = FROZEN \<longrightarrow> sc_active s' = 0 \<and> sc_resources s' = [])"
    and lk: "\<And>i p s' p'. dget (t_scopes u) i = Some s' \<Longrightarrow> dget (t_scopes u) p = Some p' \<Longrightarrow>
        ln_parent (sc_lineage s') = Some p \<Longrightarrow>
        (sc_state p' \<noteq> OPEN \<longrightarrow> sc_state s' \<noteq> OPEN) \<and> (sc_state p' = FROZEN \<longrightarrow> sc_state s' = FROZEN)"
  shows "scopes_ok u"
proof (rule scopes_okI)
  have keys: "dkeys (t_scopes u) = dkeys (t_scopes t)"
    using arg_cong [OF fr(1), of set] by simp
  have len: "length (t_scopes u) = length (t_scopes t)" using arg_cong [OF fr(1), of length] by simp
  have sok: "dict_ok (t_scopes t)" "t_root t \<in> dkeys (t_scopes t)" "length (t_scopes t) = t_scope_next t"
      "tokens_ok (t_tokens t)" using ok by (simp_all add: scopes_ok_def)
  from sok fr keys len show "dict_ok (t_scopes u)" "t_root u \<in> dkeys (t_scopes u)"
    "length (t_scopes u) = t_scope_next u" "tokens_ok (t_tokens u)" by (simp_all add: dict_ok_def)
  show "i = j" if h: "dget (t_scopes u) i = Some s" "dget (t_scopes u) j = Some r" "sc_sequence s = sc_sequence r"
    for i j s r
    using sc [OF h(1)] sc [OF h(2)] h(3) scopes_ok_inj [OF ok] by metis
  show "scope_ok u i s' \<and> parent_ok u i s'" if g: "dget (t_scopes u) i = Some s'" for i s'
  proof
    from sc [OF g] obtain s where s: "dget (t_scopes t) i = Some s" "sc_lineage s' = sc_lineage s"
      "sc_sequence s' = sc_sequence s" "sc_token s' = sc_token s" "sc_idle s' \<longleftrightarrow> sc_active s' = 0"
      "sc_state s' = FROZEN \<longrightarrow> sc_active s' = 0 \<and> sc_resources s' = []"
      by (elim exE conjE) (rule that)
    from scopes_okD(3) [OF ok s(1)] s(2-) show "scope_ok u i s'"
      unfolding scope_ok_def fr(2,4-6) by (simp only:)
    show "parent_ok u i s'"
    proof (cases "ln_parent (sc_lineage s)")
      case None
      with s(2) scopes_okD(4) [OF ok s(1)] fr show ?thesis by (simp add: parent_ok_def)
    next
      case (Some p)
      from ok s(1) Some obtain ps where ps: "dget (t_scopes t) p = Some ps" "link_ok ps s" by (rule parent_get)
      then obtain p' where p': "dget (t_scopes u) p = Some p'"
        using keys key_of_get [OF ps(1)] get_of_key [of p "t_scopes u"] by auto
      from sc [OF p'] ps(1) have p: "sc_lineage p' = sc_lineage ps" "sc_sequence p' = sc_sequence ps" by auto
      have i: "i \<noteq> t_root u" using scopes_okD(4) [OF ok s(1)] Some fr(3) by (simp add: parent_ok_def)
      have l: "ln_parent (sc_lineage s') = Some p" using s(2) Some by simp
      have "link_ok p' s'" using lk [OF g p' l] ps(2) p s(2,3) unfolding link_ok_def by metis
      with p' i l show ?thesis by (simp add: parent_ok_def)
    qed
  qed
qed

lemma scopes_ok_close_begin:
  assumes ok: "scopes_ok t"
  shows "scopes_ok (close_begin sid t)"
proof (rule scopes_ok_states [OF ok])
  fix i s' assume "dget (t_scopes (close_begin sid t)) i = Some s'"
  then show "\<exists>s. dget (t_scopes t) i = Some s \<and> sc_lineage s' = sc_lineage s
        \<and> sc_sequence s' = sc_sequence s \<and> sc_token s' = sc_token s \<and> (sc_idle s' \<longleftrightarrow> sc_active s' = 0)
        \<and> (sc_state s' = FROZEN \<longrightarrow> sc_active s' = 0 \<and> sc_resources s' = [])"
    using scopes_okD(3) [OF ok] by (auto simp: close_begin_get [OF ok] scope_ok_def split: if_splits)
next
  fix i p s' p'
  assume g: "dget (t_scopes (close_begin sid t)) i = Some s'" "dget (t_scopes (close_begin sid t)) p = Some p'"
    and l: "ln_parent (sc_lineage s') = Some p"
  then obtain s where s: "dget (t_scopes t) i = Some s" "sc_lineage s' = sc_lineage s"
    by (auto simp: close_begin_get [OF ok] split: if_splits)
  with l ok obtain ps where ps: "dget (t_scopes t) p = Some ps" "link_ok ps s" by (metis parent_get)
  have "anc t p sid \<Longrightarrow> anc t i sid" using s l by (auto intro: anc_step)
  with g s ps show "(sc_state p' \<noteq> OPEN \<longrightarrow> sc_state s' \<noteq> OPEN) \<and> (sc_state p' = FROZEN \<longrightarrow> sc_state s' = FROZEN)"
    by (auto simp: close_begin_get [OF ok] link_ok_def split: if_splits)
qed simp_all


text \<open>
  The second half of \<open>close_scope\<close>: cleaning up and freezing the scopes of a close order, and what a
  whole close leaves behind.
\<close>

section \<open>One scope\<close>

definition frozen :: "scope \<Rightarrow> scope" where
  "frozen q = q\<lparr>sc_resources := [], sc_state := FROZEN\<rparr>"

lemma frozen_frame [simp]:
  "sc_lineage (frozen s) = sc_lineage s" "sc_sequence (frozen s) = sc_sequence s"
  "sc_token (frozen s) = sc_token s" "sc_active (frozen s) = sc_active s" "sc_idle (frozen s) = sc_idle s"
  "sc_state (frozen s) = FROZEN" "sc_resources (frozen s) = []"
  by (simp_all add: frozen_def)

lemma core_upd_scope: "core (upd_scope i f t) = upd_scope i f (core t)"
  by (simp add: core_def upd_scope_def split: option.splits)

lemma upd_scope_compose: "upd_scope i f (upd_scope i g t) = upd_scope i (f \<circ> g) t"
  by (simp add: upd_scope_def split: option.splits)

lemma core_cleanup_resource [simp]: "core (cleanup_resource sid r t) = core t"
  by (simp add: cleanup_resource_def Let_def) (simp add: core_def)

lemma cleanup_effect:
  assumes "dget (t_scopes t) sid = Some s"
  shows "\<exists>u. cleanup sid t = Inr u \<and> core u = core (upd_scope sid (\<lambda>q. q\<lparr>sc_resources := []\<rparr>) t)"
proof -
  have "core (fold (cleanup_resource sid) rs t) = core t" for rs t by (rule fold_same) simp
  with assms show ?thesis by (simp add: cleanup_def with_scope_def)
qed

lemma finish_one_effect:
  assumes "dget (t_scopes t) sid = Some s" "sc_state s \<noteq> OPEN"
  shows "\<exists>u. finish_one sid t = Inr u \<and> core u = core (upd_scope sid frozen t)"
proof -
  from cleanup_effect [OF assms(1)] obtain v
    where v: "cleanup sid t = Inr v" "core v = core (upd_scope sid (\<lambda>q. q\<lparr>sc_resources := []\<rparr>) t)" by blast
  have "dget (t_scopes v) sid = Some (s\<lparr>sc_resources := []\<rparr>)"
    using core_fields(1) [OF v(2)] assms(1) by simp
  with v assms(2) have "finish_one sid t = Inr (upd_scope sid (\<lambda>q. q\<lparr>sc_state := FROZEN\<rparr>) v)"
    by (simp add: finish_one_def freeze_def with_scope_def)
  moreover have "core (upd_scope sid (\<lambda>q. q\<lparr>sc_state := FROZEN\<rparr>) v) = core (upd_scope sid frozen t)"
    by (simp add: core_upd_scope v(2) upd_scope_compose comp_def frozen_def [abs_def])
  ultimately show ?thesis by blast
qed

lemma finish_one_raises:
  "dget (t_scopes t) sid = None \<Longrightarrow> finish_one sid t = Inl PyKeyError"
  by (simp add: finish_one_def cleanup_def with_scope_def)

text \<open>Freezing keeps the invariant when the scope is idle, not open, and its children are frozen.\<close>

lemma scopes_ok_frozen:
  assumes ok: "scopes_ok t" and s: "dget (t_scopes t) sid = Some s" "sc_active s = 0"
    and ch: "\<And>i c. dget (t_scopes t) i = Some c \<Longrightarrow> ln_parent (sc_lineage c) = Some sid \<Longrightarrow> sc_state c = FROZEN"
  shows "scopes_ok (upd_scope sid frozen t)"
proof (rule scopes_ok_states [OF ok])
  fix i s' assume "dget (t_scopes (upd_scope sid frozen t)) i = Some s'"
  then show "\<exists>s. dget (t_scopes t) i = Some s \<and> sc_lineage s' = sc_lineage s
        \<and> sc_sequence s' = sc_sequence s \<and> sc_token s' = sc_token s \<and> (sc_idle s' \<longleftrightarrow> sc_active s' = 0)
        \<and> (sc_state s' = FROZEN \<longrightarrow> sc_active s' = 0 \<and> sc_resources s' = [])"
    using scopes_okD(3) [OF ok] s by (auto simp: scope_ok_def split: if_splits)
next
  fix i p s' p'
  assume g: "dget (t_scopes (upd_scope sid frozen t)) i = Some s'" "dget (t_scopes (upd_scope sid frozen t)) p = Some p'"
    and l: "ln_parent (sc_lineage s') = Some p"
  then obtain c where c: "dget (t_scopes t) i = Some c" "sc_lineage s' = sc_lineage c" "s' = c \<or> s' = frozen c"
    by (auto split: if_splits)
  with l ok obtain ps where ps: "dget (t_scopes t) p = Some ps" "link_ok ps c" by (metis parent_get)
  from ch [OF c(1)] c(2) l have "p = sid \<Longrightarrow> sc_state c = FROZEN" by simp
  with g ps c show "(sc_state p' \<noteq> OPEN \<longrightarrow> sc_state s' \<noteq> OPEN) \<and> (sc_state p' = FROZEN \<longrightarrow> sc_state s' = FROZEN)"
    by (auto simp: link_ok_def split: if_splits)
qed simp_all

section \<open>A whole close\<close>

lemma fold_frozen_effect:
  assumes "distinct ids"
    and "\<And>i. i \<in> set ids \<Longrightarrow> \<exists>s. dget (t_scopes t) i = Some s \<and> sc_state s \<noteq> OPEN"
  shows "\<exists>u. fold_res finish_one ids t = Inr u \<and> core u = core (fold (\<lambda>i. upd_scope i frozen) ids t)"
  using assms
proof (induction ids arbitrary: t)
  case (Cons i ids)
  from Cons.prems(2) [of i] obtain s where "dget (t_scopes t) i = Some s" "sc_state s \<noteq> OPEN" by auto
  from finish_one_effect [OF this] obtain v
    where v: "finish_one i t = Inr v" "core v = core (upd_scope i frozen t)" by blast
  have "\<exists>s. dget (t_scopes v) j = Some s \<and> sc_state s \<noteq> OPEN" if "j \<in> set ids" for j
    using Cons.prems that core_fields(1) [OF v(2)] by auto
  with Cons.IH [of v] Cons.prems(1) obtain u
    where u: "fold_res finish_one ids v = Inr u" "core u = core (fold (\<lambda>i. upd_scope i frozen) ids v)" by auto
  have "core (fold (\<lambda>i. upd_scope i frozen) ids x) = core (fold (\<lambda>i. upd_scope i frozen) ids y)"
    if "core x = core y" for x y
    using that by (induction ids arbitrary: x y) (simp_all add: core_upd_scope)
  from this [OF v(2)] u v(1) show ?case by simp
qed simp

lemma close_begin_links: "scopes_ok t \<Longrightarrow> same_links (close_begin sid t) t"
  by (auto simp: same_links_def close_begin_get option.map_comp comp_def)

lemma anc_close_begin: "scopes_ok t \<Longrightarrow> anc (close_begin sid t) i a \<longleftrightarrow> anc t i a"
  using close_begin_links [of t sid] anc_same_links same_links_sym by metis

lemma all_idle_iff:
  assumes "scopes_ok t"
  shows "all_idle t sid \<longleftrightarrow> (\<forall>i s. dget (t_scopes t) i = Some s \<longrightarrow> anc t i sid \<longrightarrow> sc_active s = 0)"
proof -
  have "sc_idle s \<longleftrightarrow> sc_active s = 0" if "dget (t_scopes t) i = Some s" for i s
    using scopes_okD(3) [OF assms that] by (simp add: scope_ok_def)
  with scopes_okD(1) [OF assms] show ?thesis
    unfolding all_idle_def list_all_iff Ball_def set_descendants [OF assms] by metis
qed

text \<open>
  The whole close: it returns exactly when the subtree has no settlement open, it freezes exactly the
  subtree, and outside it nothing about scopes, budgets or tokens moves.
\<close>

lemma close_scope_spec:
  assumes ok: "scopes_ok t" and idle: "all_idle t sid"
  shows "\<exists>u. close_scope sid t = Some (Inr u)
     \<and> (\<forall>i. dget (t_scopes u) i = (if anc t i sid then map_option frozen (dget (t_scopes t) i)
          else dget (t_scopes t) i))
     \<and> core u = (core t)\<lparr>t_scopes := t_scopes u\<rparr>"
proof -
  let ?t1 = "close_begin sid t" and ?ids = "close_order (close_begin sid t) sid"
  have ok1: "scopes_ok ?t1" by (rule scopes_ok_close_begin [OF ok])
  have ids: "set ?ids = {i. anc t i sid}" "distinct ?ids"
    using set_close_order [OF ok1] distinct_close_order [OF ok1] anc_close_begin [OF ok] by simp_all
  have "all_idle ?t1 sid"
    using idle by (auto simp: all_idle_iff ok ok1 anc_close_begin close_begin_get split: if_splits)
  moreover have "\<exists>s. dget (t_scopes ?t1) i = Some s \<and> sc_state s \<noteq> OPEN" if "i \<in> set ?ids" for i
    using that ids(1) anc_keys [of t i sid] get_of_key [of i "t_scopes t"] by (auto simp: close_begin_get [OF ok])
  from fold_frozen_effect [OF ids(2) this] obtain u where u: "fold_res finish_one ?ids ?t1 = Inr u"
    "core u = core (fold (\<lambda>i. upd_scope i frozen) ?ids ?t1)" by blast
  ultimately have r: "close_scope sid t = Some (Inr u)" by (simp add: close_scope_def Let_def)
  have "frozen (begin_closing s) = frozen s" for s by (simp add: frozen_def begin_closing_def)
  then have g: "dget (t_scopes u) i = (if anc t i sid then map_option frozen (dget (t_scopes t) i)
      else dget (t_scopes t) i)" for i
    using core_fields(1) [OF u(2)] ids
    by (simp add: fold_upd_scope close_begin_get [OF ok] option.map_comp comp_def)
  have fr: "core (fold (\<lambda>i. upd_scope i f) ids v) = (core v)\<lparr>t_scopes := t_scopes (fold (\<lambda>i. upd_scope i f) ids v)\<rparr>"
    for f ids v
  proof (induction ids arbitrary: v)
    case (Cons j ids)
    have "(core (upd_scope j f v))\<lparr>t_scopes := x\<rparr> = (core v)\<lparr>t_scopes := x\<rparr>" for x
      by (simp add: core_def upd_scope_def split: option.splits)
    with Cons.IH [of "upd_scope j f v"] show ?case by simp
  qed (simp add: core_def)
  have "core ?t1 = (core t)\<lparr>t_scopes := t_scopes ?t1\<rparr>"
    using fr [of begin_closing "sid # close_order t sid" t] by (simp add: close_begin_def)
  with fr [of frozen ?ids ?t1] u(2) core_fields(1) [OF u(2)] have "core u = (core t)\<lparr>t_scopes := t_scopes u\<rparr>"
    by simp
  with r g show ?thesis by blast
qed

lemma close_scope_waits:
  assumes ok: "scopes_ok t"
  shows "close_scope sid t = None \<longleftrightarrow> \<not> all_idle t sid"
proof -
  have "all_idle (close_begin sid t) sid \<longleftrightarrow> all_idle t sid"
    using all_idle_iff [OF ok, of sid] all_idle_iff [OF scopes_ok_close_begin [OF ok], of sid sid]
    by (auto simp: anc_close_begin [OF ok] close_begin_get [OF ok] split: if_splits)
  then show ?thesis by (simp add: close_scope_def Let_def)
qed

end
