(* ===== verification/TreeLedger.thy ===== *)
theory TreeLedger
  imports TreeClose
begin

text \<open>
  The ledgers of an execution tree: the bounded record log, the merged usage, the stored contributions
  and effects. Every operation of the tree keeps them consistent with each other.
\<close>

section \<open>The record log\<close>

text \<open>
  The log never exceeds its bound; its sequences increase and stay below the allocator; while it is
  complete there is room for the overflow marker, and when it is not the marker is its last entry.
\<close>

definition is_overflow :: "execution_record \<Rightarrow> bool" where
  "is_overflow r \<longleftrightarrow> er_type r = RT_SUMMARY \<and> er_status r = RS_UNKNOWN
     \<and> er_error_code r = Some (ascii ''execution_record_overflow'')"

definition log_ok :: "tree \<Rightarrow> bool" where
  "log_ok t \<longleftrightarrow> sorted_wrt (\<lambda>a b. er_sequence a < er_sequence b) (t_records t)
     \<and> (\<forall>r \<in> set (t_records t). er_sequence r < t_record_next t)
     \<and> (if t_complete t then length (t_records t) \<le> t_max_records t - 1
        else t_records t \<noteq> [] \<and> is_overflow (last (t_records t)) \<and> length (t_records t) \<le> max 1 (t_max_records t))"

lemma log_ok_append_record:
  assumes "log_ok t" "er_sequence r = t_record_next t"
  shows "log_ok (append_record r (t\<lparr>t_record_next := t_record_next t + 1\<rparr>))"
proof -
  have "is_overflow (overflow_record n root r)" for n root
    by (simp add: is_overflow_def overflow_record_def)
  moreover have "er_sequence (overflow_record n root r) = n" for n root
    by (simp add: overflow_record_def)
  moreover have "t_records t = []" if "length (t_records t) = t_max_records t"
      "length (t_records t) \<le> t_max_records t - 1"
    using that by (cases "t_max_records t") simp_all
  ultimately show ?thesis
    using assms
    by (auto simp: log_ok_def append_record_def Let_def sorted_wrt_append less_Suc_eq split: if_splits)
qed

lemma append_record_complete:
  "\<not> t_complete t \<Longrightarrow> append_record r t = t"
  by (simp add: append_record_def)

text \<open>The log is only read through these fields.\<close>

definition log_of :: "tree \<Rightarrow> execution_record list \<times> nat \<times> bool \<times> nat" where
  "log_of t = (t_records t, t_record_next t, t_complete t, t_max_records t)"

lemma log_ok_cong: "log_of u = log_of t \<Longrightarrow> log_ok u \<longleftrightarrow> log_ok t"
  by (simp add: log_of_def log_ok_def)

lemma log_ok_tool_record: "log_ok t \<Longrightarrow> log_ok (add_tool_record cx s c n a p st e v t)"
  unfolding add_tool_record_def by (rule log_ok_append_record) auto

lemma log_ok_summary_record: "log_ok t \<Longrightarrow> log_ok (add_summary_record cx s r t)"
  unfolding add_summary_record_def by (rule log_ok_append_record) auto

section \<open>Usage\<close>

text \<open>The merged usage is the fold of the usages of all contributions, in the order they arrived.\<close>

definition all_usages :: "tree \<Rightarrow> usage_contribution list" where
  "all_usages t = List.map_filter cb_usage (map snd (t_contributions t))"

definition usage_ok :: "tree \<Rightarrow> bool" where
  "usage_ok t \<longleftrightarrow> fold scope_usage_step (all_usages t) (None, None) = (t_usage_state t, t_usage t)"

lemma merge_usage_step:
  "scope_usage_step c (t_usage_state t, t_usage t) = (t_usage_state (merge_usage c t), t_usage (merge_usage c t))"
  by (auto simp: scope_usage_step_def merge_usage_def split: usage_contribution.splits option.splits)

lemma merge_usage_fields [simp]:
  "t_contributions (merge_usage c t) = t_contributions t" "t_effects (merge_usage c t) = t_effects t"
  "log_of (merge_usage c t) = log_of t" "t_scopes (merge_usage c t) = t_scopes t" "t_cleanup (merge_usage c t) = t_cleanup t"
  by (auto simp: merge_usage_def log_of_def split: usage_contribution.splits option.splits)

lemma usage_answer_result: "usage_answer (t_usage_state t, t_usage t) = usage_result t"
  by (simp add: usage_answer_def usage_result_def split: option.split usage_knowledge.split)

section \<open>Contributions and effects\<close>

definition keyed_ok :: "tree \<Rightarrow> bool" where
  "keyed_ok t \<longleftrightarrow> dict_ok (t_contributions t)
     \<and> (\<forall>i c. dget (t_contributions t) i = Some c \<longrightarrow> cb_id c = i \<and> ci_scope i \<in> dkeys (t_scopes t))
     \<and> dict_ok (t_effects t) \<and> (\<forall>i e. dget (t_effects t) i = Some e \<longrightarrow> ef_id e = Some i)"

definition ledger_ok :: "tree \<Rightarrow> bool" where
  "ledger_ok t \<longleftrightarrow> log_ok t \<and> usage_ok t \<and> keyed_ok t"

lemma ledger_ok_cong:
  assumes ok: "ledger_ok t" and "log_of u = log_of t" "t_contributions u = t_contributions t"
    "t_usage_state u = t_usage_state t" "t_usage u = t_usage t" "t_effects u = t_effects t"
    "dkeys (t_scopes t) \<subseteq> dkeys (t_scopes u)"
  shows "ledger_ok u"
proof -
  from ok have "log_ok u" by (simp add: ledger_ok_def log_ok_cong [OF assms(2)])
  moreover from ok have "usage_ok u" by (simp add: ledger_ok_def usage_ok_def all_usages_def assms)
  moreover from ok assms(7) have "keyed_ok u" unfolding ledger_ok_def keyed_ok_def assms(3,6) by blast
  ultimately show ?thesis by (simp add: ledger_ok_def)
qed

lemma ledger_ok_upd_scope: "ledger_ok t \<Longrightarrow> ledger_ok (upd_scope sid f t)"
  by (erule ledger_ok_cong) (simp_all add: log_of_def)

lemma store_effects_fields:
  "t_contributions (fst (store_effects es t)) = t_contributions t
   \<and> t_usage_state (fst (store_effects es t)) = t_usage_state t
   \<and> t_usage (fst (store_effects es t)) = t_usage t \<and> log_of (fst (store_effects es t)) = log_of t
   \<and> t_scopes (fst (store_effects es t)) = t_scopes t \<and> t_cleanup (fst (store_effects es t)) = t_cleanup t"
proof (induction es arbitrary: t)
  case (Cons e es)
  then show ?case by (simp add: log_of_def split: option.split)
qed simp

lemma keyed_ok_effect:
  "keyed_ok t \<Longrightarrow> ef_id e = Some i \<Longrightarrow> keyed_ok (t\<lparr>t_effects := dset i e (t_effects t)\<rparr>)"
  by (simp add: keyed_ok_def)

lemma store_effects_keyed: "keyed_ok t \<Longrightarrow> keyed_ok (fst (store_effects es t))"
proof (induction es arbitrary: t)
  case (Cons e es)
  then show ?case using keyed_ok_effect [OF Cons.prems, of e]
    by (simp del: dget_dset split: option.split)
qed simp

lemma append_record_fields [simp]:
  "t_contributions (append_record r t) = t_contributions t" "t_effects (append_record r t) = t_effects t"
  "t_usage_state (append_record r t) = t_usage_state t" "t_usage (append_record r t) = t_usage t"
  "t_scopes (append_record r t) = t_scopes t" "t_cleanup (append_record r t) = t_cleanup t"
  by (simp_all add: append_record_def Let_def)

lemma ledger_ok_record:
  assumes "ledger_ok t" "log_ok (append_record r (t\<lparr>t_record_next := t_record_next t + 1\<rparr>))"
  shows "ledger_ok (append_record r (t\<lparr>t_record_next := t_record_next t + 1\<rparr>))"
  using assms by (simp add: ledger_ok_def usage_ok_def all_usages_def keyed_ok_def)

lemma ledger_ok_tool_record: "ledger_ok t \<Longrightarrow> ledger_ok (add_tool_record cx s c n a p st e v t)"
  unfolding add_tool_record_def
  by (rule ledger_ok_record, assumption, rule log_ok_append_record) (simp_all add: ledger_ok_def)

lemma ledger_ok_summary_record: "ledger_ok t \<Longrightarrow> ledger_ok (add_summary_record cx s r t)"
  unfolding add_summary_record_def
  by (rule ledger_ok_record, assumption, rule log_ok_append_record) (simp_all add: ledger_ok_def)

lemma fold_inv: "P t \<Longrightarrow> (\<And>x t. P t \<Longrightarrow> P (h x t)) \<Longrightarrow> P (fold h xs t)"
  by (induction xs arbitrary: t) auto

text \<open>A new contribution, stored and merged, before its effects.\<close>

lemma ledger_ok_stored:
  assumes ok: "ledger_ok t" and s: "ci_scope (cb_id c) \<in> dkeys (t_scopes t)"
    and new: "dget (t_contributions t) (cb_id c) = None"
  defines "t1 \<equiv> t\<lparr>t_contributions := dset (cb_id c) c (t_contributions t)\<rparr>"
  shows "ledger_ok (case cb_usage c of None \<Rightarrow> t1 | Some u \<Rightarrow> merge_usage u t1)"
proof -
  let ?t2 = "case cb_usage c of None \<Rightarrow> t1 | Some u \<Rightarrow> merge_usage u t1"
  have app: "dset (cb_id c) c (t_contributions t) = t_contributions t @ [(cb_id c, c)]"
    using new by (simp add: dset_new dget_None_iff)
  have "log_of t1 = log_of t" by (simp add: t1_def log_of_def)
  then have "log_of ?t2 = log_of t" by (simp split: option.split)
  then have "log_ok ?t2" using ok by (simp add: ledger_ok_def cong: log_ok_cong)
  moreover have "keyed_ok ?t2"
    using ok s by (cases "cb_usage c") (simp_all add: ledger_ok_def keyed_ok_def t1_def)
  moreover have "usage_ok ?t2"
  proof -
    have "all_usages ?t2 = all_usages t @ (case cb_usage c of None \<Rightarrow> [] | Some u \<Rightarrow> [u])"
      by (simp add: all_usages_def t1_def app List.map_filter_def split: option.splits)
    moreover have "fold scope_usage_step (all_usages t) (None, None) = (t_usage_state t1, t_usage t1)"
      using ok by (simp add: ledger_ok_def usage_ok_def t1_def)
    ultimately show ?thesis
      using merge_usage_step [of _ t1] by (cases "cb_usage c") (simp_all add: usage_ok_def)
  qed
  ultimately show ?thesis by (simp add: ledger_ok_def)
qed

lemma ledger_ok_effects: "ledger_ok t \<Longrightarrow> ledger_ok (fst (store_effects es t))"
  using store_effects_keyed [of t es] store_effects_fields [of es t] log_ok_cong [of "fst (store_effects es t)" t]
  by (simp add: ledger_ok_def usage_ok_def all_usages_def)

lemma ledger_ok_cleanup_errors: "ledger_ok t \<Longrightarrow> ledger_ok (t\<lparr>t_cleanup := es\<rparr>)"
  by (erule ledger_ok_cong) (simp_all add: log_of_def)

text \<open>The cases of \<open>contribute\<close>: refused, already known, or stored with the usage merged.\<close>

lemma contribute_cases:
  obtains (refused) "fst (contribute cx settlement c t) = t"
  | (stored) s t2 where "dget (t_scopes t) (ci_scope (cb_id c)) = Some s"
      "sc_state s = OPEN \<or> sc_state s = CLOSING \<and> settlement" "dget (t_contributions t) (cb_id c) = None"
      "t2 = (let t1 = t\<lparr>t_contributions := dset (cb_id c) c (t_contributions t)\<rparr> in
              case cb_usage c of None \<Rightarrow> t1 | Some u \<Rightarrow> merge_usage u t1)"
      "fst (contribute cx settlement c t) =
        (case store_effects (cb_effects c) t2 of
           (t3, Some e) \<Rightarrow> t3
         | (t3, None) \<Rightarrow> let t4 = fold (add_summary_record cx s) (cb_records c) t3
             in t4\<lparr>t_cleanup := t_cleanup t4 @ cb_cleanup c\<rparr>)"
proof (cases "dget (t_scopes t) (ci_scope (cb_id c))")
  case None
  then show thesis using refused by (simp add: contribute_def)
next
  case (Some s)
  show thesis
  proof (cases "(sc_state s = FROZEN \<or> sc_state s = CLOSING \<and> \<not> settlement) \<or> dget (t_contributions t) (cb_id c) \<noteq> None")
    case True
    with Some show thesis using refused by (auto simp: contribute_def)
  next
    case False
    moreover have "sc_state s = OPEN \<or> sc_state s = CLOSING \<and> settlement"
      using False by (cases "sc_state s") auto
    ultimately show thesis
      using Some by (intro stored [OF Some _ _ refl]) (auto simp: contribute_def Let_def split: prod.splits option.splits)
  qed
qed

lemma ledger_ok_contribute:
  assumes "ledger_ok t"
  shows "ledger_ok (fst (contribute cx settlement c t))"
proof (cases rule: contribute_cases [of cx settlement c t])
  case refused
  with assms show ?thesis by simp
next
  case (stored s t2)
  have "ledger_ok t2"
    using ledger_ok_stored [OF assms key_of_get [OF stored(1)] stored(3)] stored(4) by (simp add: Let_def)
  then have 3: "ledger_ok (fst (store_effects (cb_effects c) t2))" by (rule ledger_ok_effects)
  then have "ledger_ok (fold (add_summary_record cx s) (cb_records c) (fst (store_effects (cb_effects c) t2)))"
    by (rule fold_inv) (rule ledger_ok_summary_record)
  with 3 show ?thesis
    by (cases "store_effects (cb_effects c) t2")
      (simp add: stored(5) Let_def ledger_ok_cleanup_errors split: option.split)
qed

lemma ledger_ok_commit: "ledger_ok t \<Longrightarrow> ledger_ok (commit_stored i t)"
proof -
  assume ok: "ledger_ok t"
  have "ledger_ok (t\<lparr>t_effects := dset i (e\<lparr>ef_committed := True\<rparr>) (t_effects t)\<rparr>)"
    if "dget (t_effects t) i = Some e" for e
    using ok that by (auto simp: ledger_ok_def log_ok_def usage_ok_def all_usages_def keyed_ok_def)
  with ok show ?thesis by (simp add: commit_stored_def split: option.split)
qed

lemma ledger_ok_mark_tool_calls:
  assumes "ledger_ok t" "mark_tool_calls_committed ids t = Inr u"
  shows "ledger_ok u"
  using assms(2) unfolding mark_tool_calls_committed_def
proof (rule fold_res_inv [where P = ledger_ok])
  show "ledger_ok u'" if "ledger_ok t'" "commit_if_accepted ids x t' = Inr u'" for x t' u'
    using that by (auto simp: commit_if_accepted_def with_scope_def ledger_ok_commit split: option.splits if_splits)
qed (rule assms(1))

lemma ledger_ok_blocker: "ledger_ok t \<Longrightarrow> ledger_ok (add_retry_blocker b t)"
  by (erule ledger_ok_cong) (simp_all add: log_of_def add_retry_blocker_def)

lemma ledger_ok_cleanup_resource: "ledger_ok t \<Longrightarrow> ledger_ok (cleanup_resource sid r t)"
  by (simp add: cleanup_resource_def Let_def ledger_ok_blocker ledger_ok_cleanup_errors)

lemma ledger_ok_finish_one: "ledger_ok t \<Longrightarrow> finish_one sid t = Inr u \<Longrightarrow> ledger_ok u"
  by (auto simp: finish_one_def cleanup_def freeze_def with_scope_def res_simps
      split: option.splits if_splits
      intro!: ledger_ok_upd_scope fold_inv [where P = ledger_ok] ledger_ok_cleanup_resource)

lemma ledger_ok_close_begin: "ledger_ok t \<Longrightarrow> ledger_ok (close_begin sid t)"
  unfolding close_begin_def by (intro fold_inv [where P = ledger_ok] ledger_ok_upd_scope)

lemma ledger_ok_new_scope:
  assumes "ledger_ok t" "new_scope uuid run parent agent_depth token deadline call agent_tool t = Inr u"
  shows "ledger_ok u"
proof (rule ledger_ok_cong [OF assms(1)])
  show "dkeys (t_scopes t) \<subseteq> dkeys (t_scopes u)"
    using assms(2) by (cases parent) (auto simp: new_scope_def Let_def simp del: image_subset_iff
        intro!: subset_insertI del: subsetI split: if_splits)
qed (use assms(2) in \<open>auto simp: new_scope_def Let_def log_of_def upd_scope_frame split: if_splits option.splits\<close>)

end
