(* ===== verification/ExecSteps.thy ===== *)
theory ExecSteps
  imports TreeLedger
begin

text \<open>
  Runs of an execution tree: every operation as a step of an \<open>inductive\<close> relation, with the closes in
  flight as explicit processes, so that several of them and the other operations interleave. A close
  first marks its subtree, then waits for each of its scopes to be idle, then cleans up and freezes
  them one by one. An operation that raises before it mutates is no step.
\<close>

section \<open>Configurations\<close>

record closer =
  cl_root :: pystr
  cl_wait :: "pystr list"
  cl_work :: "pystr list"

record config =
  cf_tree :: tree
  cf_closers :: "closer list"

definition start_close :: "pystr \<Rightarrow> config \<Rightarrow> config" where
  "start_close sid c =
     (let t = close_begin sid (cf_tree c); ids = close_order t sid
      in \<lparr>cf_tree = t, cf_closers = cf_closers c @ [\<lparr>cl_root = sid, cl_wait = ids, cl_work = ids\<rparr>]\<rparr>)"

definition idle_at :: "tree \<Rightarrow> pystr \<Rightarrow> bool" where
  "idle_at t sid = (case dget (t_scopes t) sid of None \<Rightarrow> False | Some s \<Rightarrow> sc_idle s)"

text \<open>The steps of the tree itself. A scope id comes from \<open>uuid4\<close>: it is new.\<close>

inductive tree_step :: "codec \<Rightarrow> tree \<Rightarrow> tree \<Rightarrow> bool" for cx where
  s_child_tool: "uuid \<notin> dkeys (t_scopes t) \<Longrightarrow> child_tool uuid sid call name d t = Inr u \<Longrightarrow> tree_step cx t u"
| s_child_run: "uuid \<notin> dkeys (t_scopes t) \<Longrightarrow> token < length (t_tokens t) \<Longrightarrow>
    begin_child_run uuid sid run token d t = Inr u \<Longrightarrow> tree_step cx t u"
| s_new_token: "(\<forall>p. parent = Some p \<longrightarrow> p < length (t_tokens t)) \<Longrightarrow>
    tree_step cx t (t\<lparr>t_tokens := snd (alloc_token parent (t_tokens t))\<rparr>)"
| s_cancel: "tree_step cx t (t\<lparr>t_tokens := cancel why org i (t_tokens t)\<rparr>)"
| s_accept: "tree_step cx t (snd (accept_nested_tool t))"
| s_effect_id: "next_effect_id sid t = Inr (i, u) \<Longrightarrow> tree_step cx t u"
| s_contribution_id: "next_contribution_id sid t = Inr (i, u) \<Longrightarrow> tree_step cx t u"
| s_event: "tree_step cx t (snd (next_event_sequence t))"
| s_contribute: "tree_step cx t (fst (contribute cx settlement c t))"
| s_register: "register_resource sid r t = Inr u \<Longrightarrow> tree_step cx t u"
| s_enter: "enter_settlement sid t = Inr u \<Longrightarrow> tree_step cx t u"
| s_leave: "leave_settlement sid t = Inr u \<Longrightarrow> tree_step cx t u"
| s_cap: "tree_step cx t (cap_deadline sid d t)"
| s_blocker: "scope_add_retry_blocker sid code message t = Inr u \<Longrightarrow> tree_step cx t u"
| s_uncertain: "tree_step cx t (add_retry_blocker b t)"
| s_record: "record_tool_call cx sid call tool args preview status err ev t = Inr u \<Longrightarrow> tree_step cx t u"
| s_mark: "context_mark_committed sid ids t = Inr u \<Longrightarrow> tree_step cx t u"

inductive exec_step :: "codec \<Rightarrow> config \<Rightarrow> config \<Rightarrow> bool" for cx where
  e_tree: "tree_step cx (cf_tree c) u \<Longrightarrow> exec_step cx c (c\<lparr>cf_tree := u\<rparr>)"
| e_close: "sid \<in> dkeys (t_scopes (cf_tree c)) \<Longrightarrow> exec_step cx c (start_close sid c)"
| e_wait: "k < length (cf_closers c) \<Longrightarrow> cf_closers c ! k = cl \<Longrightarrow> cl_wait cl = i # is \<Longrightarrow>
    idle_at (cf_tree c) i \<Longrightarrow>
    exec_step cx c (c\<lparr>cf_closers := (cf_closers c)[k := cl\<lparr>cl_wait := is\<rparr>]\<rparr>)"
| e_finish: "k < length (cf_closers c) \<Longrightarrow> cf_closers c ! k = cl \<Longrightarrow> cl_wait cl = [] \<Longrightarrow> cl_work cl = i # is \<Longrightarrow>
    finish_one i (cf_tree c) = Inr u \<Longrightarrow>
    exec_step cx c (c\<lparr>cf_tree := u, cf_closers := (cf_closers c)[k := cl\<lparr>cl_work := is\<rparr>]\<rparr>)"

inductive_cases tree_step_elim: "tree_step cx t u"
inductive_cases exec_step_elim: "exec_step cx c d"

text \<open>A run starts from a fresh tree with its root scope, and no close in flight.\<close>

inductive reachable :: "codec \<Rightarrow> config \<Rightarrow> bool" for cx where
  r_start: "new_tree uuid run token d budget max_records max_evidence tokens = Inr t \<Longrightarrow>
    token < length tokens \<Longrightarrow> tokens_ok tokens \<Longrightarrow> reachable cx \<lparr>cf_tree = t, cf_closers = []\<rparr>"
| r_step: "reachable cx c \<Longrightarrow> exec_step cx c d \<Longrightarrow> reachable cx d"

section \<open>What a step keeps: scopes\<close>

lemma scopes_ok_cong:
  assumes "scopes_ok t" "t_scopes u = t_scopes t" "t_scope_next u = t_scope_next t" "t_root u = t_root t"
    "t_root_run u = t_root_run t" "t_budget u = t_budget t"
    "tokens_ok (t_tokens u)" "length (t_tokens t) \<le> length (t_tokens u)"
  shows "scopes_ok u"
  using assms(1,7,8) unfolding scopes_ok_def scope_ok_def parent_ok_def assms(2-6)
  by (meson less_le_trans)

lemma tokens_of: "scopes_ok t \<Longrightarrow> tokens_ok (t_tokens t)"
  by (simp add: scopes_ok_def)

text \<open>
  A closed scope stays closed, a frozen one frozen, its open settlements only decrease, and nothing is
  created below it.
\<close>

definition closed_le :: "tree \<Rightarrow> tree \<Rightarrow> bool" where
  "closed_le t u \<longleftrightarrow>
     (\<forall>i s. dget (t_scopes t) i = Some s \<longrightarrow> (\<exists>s'. dget (t_scopes u) i = Some s' \<and> sc_lineage s' = sc_lineage s
        \<and> (sc_state s \<noteq> OPEN \<longrightarrow> sc_state s' \<noteq> OPEN \<and> sc_active s' \<le> sc_active s)
        \<and> (sc_state s = FROZEN \<longrightarrow> sc_state s' = FROZEN)))
     \<and> (\<forall>i s' p ps. dget (t_scopes u) i = Some s' \<longrightarrow> ln_parent (sc_lineage s') = Some p \<longrightarrow>
          dget (t_scopes t) p = Some ps \<longrightarrow> sc_state ps \<noteq> OPEN \<longrightarrow> i \<in> dkeys (t_scopes t))"

lemma closed_leD:
  assumes "closed_le t u" "dget (t_scopes t) i = Some s"
  obtains s' where "dget (t_scopes u) i = Some s'" "sc_lineage s' = sc_lineage s"
    "sc_state s \<noteq> OPEN \<longrightarrow> sc_state s' \<noteq> OPEN \<and> sc_active s' \<le> sc_active s"
    "sc_state s = FROZEN \<longrightarrow> sc_state s' = FROZEN"
  using assms unfolding closed_le_def by metis

lemma closed_le_child:
  "closed_le t u \<Longrightarrow> dget (t_scopes u) i = Some s' \<Longrightarrow> ln_parent (sc_lineage s') = Some p \<Longrightarrow>
     dget (t_scopes t) p = Some ps \<Longrightarrow> sc_state ps \<noteq> OPEN \<Longrightarrow> i \<in> dkeys (t_scopes t)"
  unfolding closed_le_def by blast

lemma closed_le_scopes: "t_scopes u = t_scopes t \<Longrightarrow> closed_le t u"
  by (auto simp: closed_le_def intro: key_of_get)

lemma closed_le_core: "core u = core t \<Longrightarrow> closed_le t u"
  by (rule closed_le_scopes) (rule core_fields)

lemma closed_le_trans:
  assumes "closed_le t u" "closed_le u v"
  shows "closed_le t v"
  unfolding closed_le_def
proof (intro conjI allI impI)
  fix i s assume "dget (t_scopes t) i = Some s"
  with assms(1) obtain s' where 1: "dget (t_scopes u) i = Some s'" "sc_lineage s' = sc_lineage s"
    "sc_state s \<noteq> OPEN \<longrightarrow> sc_state s' \<noteq> OPEN \<and> sc_active s' \<le> sc_active s"
    "sc_state s = FROZEN \<longrightarrow> sc_state s' = FROZEN" by (rule closed_leD)
  from assms(2) 1(1) obtain s'' where 2: "dget (t_scopes v) i = Some s''" "sc_lineage s'' = sc_lineage s'"
    "sc_state s' \<noteq> OPEN \<longrightarrow> sc_state s'' \<noteq> OPEN \<and> sc_active s'' \<le> sc_active s'"
    "sc_state s' = FROZEN \<longrightarrow> sc_state s'' = FROZEN" by (rule closed_leD)
  from 1 2 show "\<exists>s'. dget (t_scopes v) i = Some s' \<and> sc_lineage s' = sc_lineage s
      \<and> (sc_state s \<noteq> OPEN \<longrightarrow> sc_state s' \<noteq> OPEN \<and> sc_active s' \<le> sc_active s)
      \<and> (sc_state s = FROZEN \<longrightarrow> sc_state s' = FROZEN)" by (metis order_trans)
next
  fix i s'' p ps
  assume g: "dget (t_scopes v) i = Some s''" "ln_parent (sc_lineage s'') = Some p"
    "dget (t_scopes t) p = Some ps" "sc_state ps \<noteq> OPEN"
  from assms(1) g(3) obtain ps' where p': "dget (t_scopes u) p = Some ps'"
    "sc_state ps \<noteq> OPEN \<longrightarrow> sc_state ps' \<noteq> OPEN \<and> sc_active ps' \<le> sc_active ps" by (rule closed_leD)
  with closed_le_child [OF assms(2) g(1,2) p'(1)] g(4) have "i \<in> dkeys (t_scopes u)" by blast
  then obtain s' where s': "dget (t_scopes u) i = Some s'" using get_of_key by metis
  with assms(2) obtain x where "dget (t_scopes v) i = Some x" "sc_lineage x = sc_lineage s'" by (metis closed_leD)
  with g(1,2) have "ln_parent (sc_lineage s') = Some p" by simp
  from closed_le_child [OF assms(1) s' this g(3,4)] show "i \<in> dkeys (t_scopes t)" .
qed

lemma closed_le_upd:
  assumes "\<And>s. dget (t_scopes t) sid = Some s \<Longrightarrow> sc_lineage (f s) = sc_lineage s
      \<and> (sc_state s \<noteq> OPEN \<longrightarrow> sc_state (f s) \<noteq> OPEN \<and> sc_active (f s) \<le> sc_active s)
      \<and> (sc_state s = FROZEN \<longrightarrow> sc_state (f s) = FROZEN)"
  shows "closed_le t (upd_scope sid f t)"
  using assms by (auto simp: closed_le_def split: if_splits dest: key_of_get)

lemma closed_le_new_scope:
  assumes n: "new_scope uuid run (Some p) agent_depth token deadline call agent_tool t = Inr u"
    and fresh: "uuid \<notin> dkeys (t_scopes t)" and p: "dget (t_scopes t) pid = Some p"
    and pid: "ln_scope (sc_lineage p) = pid" and op: "sc_state p = OPEN"
  shows "closed_le t u"
proof -
  note E = new_scope_effect [OF n fresh p pid]
  have un: "dget (t_scopes t) uuid = None" using fresh by (simp add: dget_None_iff)
  have k: "pid \<noteq> uuid" using p un by auto
  have g: "dget (t_scopes u) i = (if i = uuid then Some (make_scope \<lparr>ln_root = t_root_run t, ln_run = run,
          ln_scope = uuid, ln_parent = Some pid, ln_depth = ln_depth (sc_lineage p) + 1,
          ln_agent_depth = agent_depth, ln_call = call, ln_agent_tool = agent_tool\<rparr> (t_scope_next t) token deadline)
        else if i = pid then Some (p\<lparr>sc_children := sc_children p @ [uuid]\<rparr>) else dget (t_scopes t) i)" for i
    using k un by (auto simp: E(1) map_add_def split: option.splits)
  show ?thesis
    unfolding closed_le_def g using p op un
    by (auto simp: make_scope_def split: if_splits dest: key_of_get)
qed

text \<open>\<open>kept t u\<close>: the scope invariant survives and closed scopes stay closed.\<close>

definition kept :: "tree \<Rightarrow> tree \<Rightarrow> bool" where
  "kept t u \<longleftrightarrow> (scopes_ok t \<longrightarrow> scopes_ok u \<and> closed_le t u)"

lemma kept_trans: "kept t u \<Longrightarrow> kept u v \<Longrightarrow> kept t v"
  by (auto simp: kept_def intro: closed_le_trans)

lemma kept_core: "core u = core t \<Longrightarrow> kept t u"
  unfolding kept_def using scopes_ok_core closed_le_core by blast

lemma kept_frame:
  assumes "t_scopes u = t_scopes t" "t_scope_next u = t_scope_next t" "t_root u = t_root t"
    "t_root_run u = t_root_run t" "t_budget u = t_budget t"
    "tokens_ok (t_tokens t) \<Longrightarrow> tokens_ok (t_tokens u) \<and> length (t_tokens t) \<le> length (t_tokens u)"
  shows "kept t u"
  unfolding kept_def
proof
  assume ok: "scopes_ok t"
  from assms(6) [OF tokens_of [OF ok]] have "scopes_ok u"
    by (intro scopes_ok_cong [OF ok assms(1-5)]) simp_all
  with closed_le_scopes [OF assms(1)] show "scopes_ok u \<and> closed_le t u" by simp
qed

lemma kept_upd:
  assumes "\<And>s. dget (t_scopes t) sid = Some s \<Longrightarrow> sc_lineage (f s) = sc_lineage s \<and> sc_sequence (f s) = sc_sequence s
       \<and> sc_token (f s) = sc_token s \<and> sc_state (f s) = sc_state s
       \<and> (sc_idle s = (sc_active s = 0) \<longrightarrow> sc_idle (f s) = (sc_active (f s) = 0))
       \<and> (sc_state s = FROZEN \<longrightarrow> sc_resources s = [] \<longrightarrow> sc_resources (f s) = [])
       \<and> (sc_state s \<noteq> OPEN \<longrightarrow> sc_active (f s) \<le> sc_active s)"
  shows "kept t (upd_scope sid f t)"
proof -
  have so: "scope_ok t sid s \<longrightarrow> scope_ok t sid (f s)" if "dget (t_scopes t) sid = Some s" for s
    using assms [OF that] by (cases "sc_state s") (simp_all add: scope_ok_def)
  show ?thesis
    using assms so by (auto simp: kept_def intro!: scopes_ok_upd closed_le_upd)
qed

lemma kept_new_scope:
  assumes n: "new_scope uuid run (Some p) agent_depth token deadline call agent_tool t = Inr u"
    and "uuid \<notin> dkeys (t_scopes t)" "dget (t_scopes t) pid = Some p" "sc_state p = OPEN"
    and "token < length (t_tokens t)"
    and "ln_agent_depth (sc_lineage p) \<le> agent_depth" "agent_depth \<le> bc_agent_depth (t_budget t)"
  shows "kept t u"
  using scopes_ok_new_scope [OF n assms(2) _ assms(3-7)] closed_le_new_scope [OF n assms(2,3) _ assms(4)]
    scopes_okD(1) [OF _ assms(3)] by (auto simp: kept_def)

lemma kept_child_tool:
  assumes fresh: "uuid \<notin> dkeys (t_scopes t)" and c: "child_tool uuid sid call name d t = Inr u"
  shows "kept t u"
  unfolding kept_def
proof
  assume ok: "scopes_ok t"
  let ?t = "\<lambda>p. t\<lparr>t_tokens := t_tokens t @ [new_token (Some (sc_token p))]\<rparr>"
  from c obtain p v where p: "dget (t_scopes t) sid = Some p" "sc_state p = OPEN"
    and v: "new_scope uuid (ln_run (sc_lineage p)) (Some p) (ln_agent_depth (sc_lineage p)) (length (t_tokens t))
          (minimum_deadline (sc_deadline p) d) (Some call) None (?t p) = Inr v"
    and u: "u = upd_scope uuid (\<lambda>s. s\<lparr>sc_tool := name\<rparr>) v"
    by (auto simp: child_tool_def with_scope_def require_open_def alloc_token_def res_simps split: option.splits)
  have so: "scope_ok t sid p" using scopes_okD(3) [OF ok p(1)] .
  then have "tokens_ok (t_tokens t @ [new_token (Some (sc_token p))])"
    using tokens_ok_alloc [OF tokens_of [OF ok], of "Some (sc_token p)"] by (simp add: scope_ok_def alloc_token_def)
  then have 1: "kept t (?t p)" by (intro kept_frame) simp_all
  have 2: "kept (?t p) v"
    by (rule kept_new_scope [OF v, where pid = sid]) (use fresh p so in \<open>simp_all add: scope_ok_def\<close>)
  have 3: "kept v u" unfolding u by (rule kept_upd) simp
  from kept_trans [OF kept_trans [OF 1 2] 3] ok show "scopes_ok u \<and> closed_le t u" by (simp add: kept_def)
qed

lemma kept_begin_child_run:
  assumes fresh: "uuid \<notin> dkeys (t_scopes t)" and tok: "token < length (t_tokens t)"
    and c: "begin_child_run uuid sid run token d t = Inr u"
  shows "kept t u"
proof -
  let ?t = "t\<lparr>t_child_runs := t_child_runs t + 1\<rparr>"
  from c obtain p where p: "dget (t_scopes t) sid = Some p" "sc_state p = OPEN"
      "ln_agent_depth (sc_lineage p) + 1 \<le> bc_agent_depth (t_budget t)"
    and v: "new_scope uuid run (Some p) (ln_agent_depth (sc_lineage p) + 1) token
          (minimum_deadline (sc_deadline p) d) None (Some (or_text (sc_tool p) (ascii ''agent''))) ?t = Inr u"
    by (auto simp: begin_child_run_def new_child_run_scope_def with_scope_def require_open_def Let_def res_simps
        split: option.splits if_splits)
  have "kept t ?t" by (rule kept_frame) simp_all
  moreover have "kept ?t u"
    by (rule kept_new_scope [OF v, where pid = sid]) (use fresh tok p in simp_all)
  ultimately show ?thesis by (rule kept_trans)
qed

lemma kept_tokens:
  "(\<forall>p. parent = Some p \<longrightarrow> p < length (t_tokens t)) \<Longrightarrow>
     kept t (t\<lparr>t_tokens := snd (alloc_token parent (t_tokens t))\<rparr>)"
  "kept t (t\<lparr>t_tokens := cancel why org i (t_tokens t)\<rparr>)"
proof -
  show "kept t (t\<lparr>t_tokens := snd (alloc_token parent (t_tokens t))\<rparr>)"
    if "\<forall>p. parent = Some p \<longrightarrow> p < length (t_tokens t)"
    using that tokens_ok_alloc [of "t_tokens t" parent] by (intro kept_frame) (simp_all add: alloc_token_def)
  show "kept t (t\<lparr>t_tokens := cancel why org i (t_tokens t)\<rparr>)"
    by (rule kept_frame) (simp_all add: tokens_ok_cancel)
qed

lemma core_scope_blocker: "scope_add_retry_blocker sid code message t = Inr u \<Longrightarrow> core u = core t"
  by (auto simp: scope_add_retry_blocker_def with_scope_def require_open_def res_simps split: option.splits if_splits)

lemma core_context_mark: "context_mark_committed sid ids t = Inr u \<Longrightarrow> core u = core t"
  by (auto simp: context_mark_committed_def with_scope_def core_mark_tool_calls split: option.splits if_splits)

lemma kept_scope_operations:
  "next_effect_id sid t = Inr (i, u) \<Longrightarrow> kept t u"
  "next_contribution_id sid t = Inr (j, u) \<Longrightarrow> kept t u"
  "register_resource sid r t = Inr u \<Longrightarrow> kept t u"
  "enter_settlement sid t = Inr u \<Longrightarrow> kept t u"
  "leave_settlement sid t = Inr u \<Longrightarrow> kept t u"
  "kept t (cap_deadline sid d t)"
  by (auto simp: next_effect_id_def next_contribution_id_def register_resource_def enter_settlement_def
      leave_settlement_def cap_deadline_def with_scope_def require_open_def res_simps
      split: option.splits if_splits intro!: kept_upd)

lemma kept_record:
  "record_tool_call cx sid call tool args preview status err ev t = Inr u \<Longrightarrow> kept t u"
proof -
  assume "record_tool_call cx sid call tool args preview status err ev t = Inr u"
  then obtain s where "u = upd_scope sid (\<lambda>q. q\<lparr>sc_terminal := True\<rparr>)
      (add_tool_record cx s call tool args preview status err ev t)"
    by (auto simp: record_tool_call_def with_scope_def split: option.splits)
  moreover have "kept t (add_tool_record cx s call tool args preview status err ev t)" by (rule kept_core) simp
  moreover have "kept v (upd_scope sid (\<lambda>q. q\<lparr>sc_terminal := True\<rparr>) v)" for v by (rule kept_upd) simp
  ultimately show ?thesis using kept_trans by blast
qed

lemma kept_counters: "kept t (snd (accept_nested_tool t))" "kept t (snd (next_event_sequence t))"
  by (rule kept_frame; simp add: accept_nested_tool_def next_event_sequence_def)+

lemma kept_tree_step: "tree_step cx t u \<Longrightarrow> kept t u"
  by (induction rule: tree_step.induct)
    (auto intro: kept_child_tool kept_begin_child_run kept_tokens kept_scope_operations kept_record
      kept_counters kept_core [OF core_contribute] kept_core [OF core_blocker] kept_core [OF core_scope_blocker]
      kept_core [OF core_context_mark])

end
