(* ===== verification/ExecReach.thy ===== *)
theory ExecReach
  imports ExecSteps
begin

text \<open>
  The invariant of reachable configurations: scopes, ledgers, budgets and the closes in flight, and what
  follows for the scopes that have been closed.
\<close>

section \<open>Ledgers and budgets along a step\<close>

definition budget_ok :: "tree \<Rightarrow> bool" where
  "budget_ok t \<longleftrightarrow> t_child_runs t \<le> bc_child_runs (t_budget t) \<and> t_nested_tools t \<le> bc_nested_calls (t_budget t)"

text \<open>A contribution is only ever added, at the end, for a scope that is not frozen.\<close>

definition contributions_le :: "tree \<Rightarrow> tree \<Rightarrow> bool" where
  "contributions_le t u \<longleftrightarrow> t_contributions u = t_contributions t
     \<or> (\<exists>c s. dget (t_scopes t) (ci_scope (cb_id c)) = Some s \<and> sc_state s \<noteq> FROZEN
          \<and> t_contributions u = t_contributions t @ [(cb_id c, c)])"

text \<open>The fields that only the allocating operations touch.\<close>

definition books :: "tree \<Rightarrow> budget_config \<times> nat \<times> nat \<times> nat \<times> (contribution_id, contribution) dict" where
  "books t = (t_budget t, t_child_runs t, t_nested_tools t, t_max_records t, t_contributions t)"

lemma books_upd_scope [simp]: "books (upd_scope sid f t) = books t"
  by (simp add: books_def)

lemma books_append_record [simp]: "books (append_record r t) = books t"
  by (simp add: books_def append_record_def Let_def)

lemma books_records [simp]:
  "books (add_tool_record cx s c n a p st e v t) = books t" "books (add_summary_record cx s r t) = books t"
  by (simp_all add: add_tool_record_def add_summary_record_def) (simp_all add: books_def)

lemma books_blocker [simp]: "books (add_retry_blocker b t) = books t"
  by (simp add: books_def add_retry_blocker_def)

lemma books_commit [simp]: "books (commit_stored i t) = books t"
  by (simp add: books_def commit_stored_def split: option.splits)

lemma books_mark_tool_calls: "mark_tool_calls_committed ids t = Inr u \<Longrightarrow> books u = books t"
  unfolding mark_tool_calls_committed_def
  by (rule fold_res_inv [where P = "\<lambda>v. books v = books t"])
    (auto simp: commit_if_accepted_def with_scope_def split: option.splits if_splits)

lemma books_cleanup_resource [simp]: "books (cleanup_resource sid r t) = books t"
  by (simp add: cleanup_resource_def Let_def) (simp add: books_def)

lemma books_finish_one: "finish_one sid t = Inr u \<Longrightarrow> books u = books t"
  using fold_same [of books "cleanup_resource sid"]
  by (auto simp: finish_one_def cleanup_def freeze_def with_scope_def res_simps split: option.splits if_splits)

lemma books_close_begin: "books (close_begin sid t) = books t"
  by (simp add: close_begin_def fold_same [of books])

lemma books_new_scope:
  "new_scope uuid run parent agent_depth token deadline call agent_tool t = Inr u \<Longrightarrow> books u = books t"
  by (cases parent) (auto simp: new_scope_def Let_def split: if_splits, simp_all add: books_def)

lemma contribute_books:
  "(t_budget (fst (contribute cx settlement c t)), t_child_runs (fst (contribute cx settlement c t)),
    t_nested_tools (fst (contribute cx settlement c t))) = (t_budget t, t_child_runs t, t_nested_tools t)"
  using core_fields(6-8) [OF core_contribute] by simp

lemma contribute_contributions: "contributions_le t (fst (contribute cx settlement c t))"
proof (cases rule: contribute_cases [of cx settlement c t])
  case refused
  then show ?thesis by (simp add: contributions_le_def)
next
  case (stored s t2)
  have "t_contributions (fold (add_summary_record cx s) rs v) = t_contributions v" for rs v
    by (rule fold_same) (simp add: add_summary_record_def)
  moreover have "t_contributions t2 = t_contributions t @ [(cb_id c, c)]"
    using stored(3,4) by (simp add: Let_def dset_new dget_None_iff split: option.split)
  ultimately have "t_contributions (fst (contribute cx settlement c t)) = t_contributions t @ [(cb_id c, c)]"
    using store_effects_fields [of "cb_effects c" t2]
    by (cases "store_effects (cb_effects c) t2") (auto simp: stored(5) Let_def split: option.split)
  with stored(1,2) show ?thesis by (auto simp: contributions_le_def)
qed

lemma books_scope_operations:
  "next_effect_id sid t = Inr (i, u) \<Longrightarrow> books u = books t"
  "next_contribution_id sid t = Inr (j, u) \<Longrightarrow> books u = books t"
  "register_resource sid r t = Inr u \<Longrightarrow> books u = books t"
  "enter_settlement sid t = Inr u \<Longrightarrow> books u = books t"
  "leave_settlement sid t = Inr u \<Longrightarrow> books u = books t"
  "books (cap_deadline sid d t) = books t"
  "scope_add_retry_blocker sid code message t = Inr u \<Longrightarrow> books u = books t"
  "record_tool_call cx sid call tool args preview status err ev t = Inr u \<Longrightarrow> books u = books t"
  "context_mark_committed sid ids t = Inr u \<Longrightarrow> books u = books t"
  by (auto simp: next_effect_id_def next_contribution_id_def register_resource_def enter_settlement_def
      leave_settlement_def cap_deadline_def with_scope_def require_open_def scope_add_retry_blocker_def
      record_tool_call_def context_mark_committed_def books_mark_tool_calls res_simps
      split: option.splits if_splits)

text \<open>\<open>booked t u\<close>: budgets are respected and contributions only added.\<close>

definition booked :: "tree \<Rightarrow> tree \<Rightarrow> bool" where
  "booked t u \<longleftrightarrow> (budget_ok t \<longrightarrow> budget_ok u) \<and> t_budget u = t_budget t \<and> contributions_le t u"

lemma booked_books: "books u = books t \<Longrightarrow> booked t u"
  by (simp add: booked_def books_def budget_ok_def contributions_le_def)

lemma booked_child_tool: "child_tool uuid sid call name d t = Inr u \<Longrightarrow> booked t u"
  by (rule booked_books)
    (auto simp: child_tool_def with_scope_def alloc_token_def res_simps dest!: books_new_scope split: option.splits,
     simp add: books_def)

lemma booked_child_run: "begin_child_run uuid sid run token d t = Inr u \<Longrightarrow> booked t u"
  by (auto simp: begin_child_run_def new_child_run_scope_def with_scope_def Let_def res_simps booked_def
      budget_ok_def contributions_le_def books_def dest!: books_new_scope split: option.splits if_splits)

lemma booked_tree_step: "tree_step cx t u \<Longrightarrow> booked t u"
proof (induction rule: tree_step.induct)
  case (s_accept t)
  then show ?case by (simp add: accept_nested_tool_def booked_def budget_ok_def contributions_le_def)
next
  case (s_contribute t settlement c)
  then show ?case
    using contribute_books [of cx settlement c t] contribute_contributions [of t cx settlement c]
    by (simp add: booked_def budget_ok_def)
qed (auto intro: booked_child_tool booked_child_run booked_books [OF books_blocker] booked_books books_scope_operations
    simp: booked_books books_def next_event_sequence_def)

lemma ledger_scope_operations:
  "ledger_ok t \<Longrightarrow> next_effect_id sid t = Inr (i, u) \<Longrightarrow> ledger_ok u"
  "ledger_ok t \<Longrightarrow> next_contribution_id sid t = Inr (j, u) \<Longrightarrow> ledger_ok u"
  "ledger_ok t \<Longrightarrow> register_resource sid r t = Inr u \<Longrightarrow> ledger_ok u"
  "ledger_ok t \<Longrightarrow> enter_settlement sid t = Inr u \<Longrightarrow> ledger_ok u"
  "ledger_ok t \<Longrightarrow> leave_settlement sid t = Inr u \<Longrightarrow> ledger_ok u"
  "ledger_ok t \<Longrightarrow> ledger_ok (cap_deadline sid d t)"
  "ledger_ok t \<Longrightarrow> scope_add_retry_blocker sid code message t = Inr u \<Longrightarrow> ledger_ok u"
  "ledger_ok t \<Longrightarrow> record_tool_call cx sid call tool args preview status err ev t = Inr u \<Longrightarrow> ledger_ok u"
  "ledger_ok t \<Longrightarrow> context_mark_committed sid ids t = Inr u \<Longrightarrow> ledger_ok u"
  by (auto simp: next_effect_id_def next_contribution_id_def register_resource_def enter_settlement_def
      leave_settlement_def cap_deadline_def with_scope_def require_open_def scope_add_retry_blocker_def
      record_tool_call_def context_mark_committed_def res_simps
      split: option.splits if_splits
      intro: ledger_ok_upd_scope ledger_ok_blocker ledger_ok_tool_record ledger_ok_mark_tool_calls)

lemma ledger_child_tool: "ledger_ok t \<Longrightarrow> child_tool uuid sid call name d t = Inr u \<Longrightarrow> ledger_ok u"
proof -
  assume ok: "ledger_ok t" and c: "child_tool uuid sid call name d t = Inr u"
  have "ledger_ok (t\<lparr>t_tokens := h\<rparr>)" for h by (rule ledger_ok_cong [OF ok]) (simp_all add: log_of_def)
  with c show ?thesis
    by (auto simp: child_tool_def with_scope_def alloc_token_def res_simps split: option.splits
        intro!: ledger_ok_upd_scope intro: ledger_ok_new_scope)
qed

lemma ledger_child_run: "ledger_ok t \<Longrightarrow> begin_child_run uuid sid run token d t = Inr u \<Longrightarrow> ledger_ok u"
proof -
  assume ok: "ledger_ok t" and c: "begin_child_run uuid sid run token d t = Inr u"
  have "ledger_ok (t\<lparr>t_child_runs := n\<rparr>)" for n by (rule ledger_ok_cong [OF ok]) (simp_all add: log_of_def)
  with c show ?thesis
    by (auto simp: begin_child_run_def new_child_run_scope_def with_scope_def Let_def res_simps
        split: option.splits if_splits intro: ledger_ok_new_scope)
qed

lemma ledger_tree_step: "tree_step cx t u \<Longrightarrow> ledger_ok t \<Longrightarrow> ledger_ok u"
proof (induction rule: tree_step.induct)
  case (s_new_token parent t)
  then show ?case by (elim ledger_ok_cong) (simp_all add: log_of_def)
next
  case (s_cancel t why org i)
  then show ?case by (elim ledger_ok_cong) (simp_all add: log_of_def)
next
  case (s_accept t)
  then show ?case by (elim ledger_ok_cong) (simp_all add: log_of_def accept_nested_tool_def)
next
  case (s_event t)
  then show ?case by (elim ledger_ok_cong) (simp_all add: log_of_def next_event_sequence_def)
qed (auto intro: ledger_child_tool ledger_child_run ledger_scope_operations ledger_ok_contribute ledger_ok_blocker)

section \<open>Closes in flight\<close>

text \<open>
  What a close in flight relies on: its scopes are no longer open, those it has waited for have no
  settlement left, and the children of a scope still to be frozen are frozen or come before it.
\<close>

definition closer_ok :: "tree \<Rightarrow> closer \<Rightarrow> bool" where
  "closer_ok t cl \<longleftrightarrow>
     (\<forall>i \<in> set (cl_work cl). \<exists>s. dget (t_scopes t) i = Some s \<and> sc_state s \<noteq> OPEN
        \<and> (i \<in> set (cl_wait cl) \<or> sc_active s = 0))
     \<and> (\<forall>xs i ys j s. cl_work cl = xs @ i # ys \<longrightarrow> dget (t_scopes t) j = Some s \<longrightarrow>
          ln_parent (sc_lineage s) = Some i \<longrightarrow> sc_state s = FROZEN \<or> j \<in> set xs)"

lemma closer_ok_stable:
  assumes ok: "closer_ok t cl" and le: "closed_le t u"
  shows "closer_ok u cl"
  unfolding closer_ok_def
proof (intro conjI ballI allI impI)
  fix i assume "i \<in> set (cl_work cl)"
  with ok obtain s where s: "dget (t_scopes t) i = Some s" "sc_state s \<noteq> OPEN"
    "i \<in> set (cl_wait cl) \<or> sc_active s = 0" unfolding closer_ok_def by blast
  from le s(1) obtain s' where "dget (t_scopes u) i = Some s'"
    "sc_state s \<noteq> OPEN \<longrightarrow> sc_state s' \<noteq> OPEN \<and> sc_active s' \<le> sc_active s" by (rule closed_leD)
  with s show "\<exists>s. dget (t_scopes u) i = Some s \<and> sc_state s \<noteq> OPEN
        \<and> (i \<in> set (cl_wait cl) \<or> sc_active s = 0)" by auto
next
  fix xs i ys j s'
  assume w: "cl_work cl = xs @ i # ys" and g: "dget (t_scopes u) j = Some s'" "ln_parent (sc_lineage s') = Some i"
  then have "i \<in> set (cl_work cl)" by simp
  with ok obtain p where p: "dget (t_scopes t) i = Some p" "sc_state p \<noteq> OPEN"
    unfolding closer_ok_def by blast
  from closed_le_child [OF le g p] obtain s where s: "dget (t_scopes t) j = Some s" using get_of_key by metis
  from le this obtain x where "dget (t_scopes u) j = Some x" "sc_lineage x = sc_lineage s"
    "sc_state s = FROZEN \<longrightarrow> sc_state x = FROZEN" by (rule closed_leD)
  with g have x: "sc_lineage s' = sc_lineage s" "sc_state s = FROZEN \<longrightarrow> sc_state s' = FROZEN" by simp_all
  with g(2) have l: "ln_parent (sc_lineage s) = Some i" by simp
  from ok have "cl_work cl = xs @ i # ys \<longrightarrow> dget (t_scopes t) j = Some s \<longrightarrow>
      ln_parent (sc_lineage s) = Some i \<longrightarrow> sc_state s = FROZEN \<or> j \<in> set xs"
    unfolding closer_ok_def by blast
  with w s l x(2) show "sc_state s' = FROZEN \<or> j \<in> set xs" by blast
qed

lemma kept_close_begin: "kept t (close_begin sid t)"
  unfolding kept_def
proof
  assume ok: "scopes_ok t"
  have "sc_active (begin_closing s) \<le> sc_active s" for s by simp
  then have "closed_le t (close_begin sid t)"
    unfolding closed_le_def close_begin_get [OF ok] by (auto split: if_splits dest: key_of_get)
  with scopes_ok_close_begin [OF ok] show "scopes_ok (close_begin sid t) \<and> closed_le t (close_begin sid t)" by simp
qed

lemma closer_ok_start:
  assumes ok: "scopes_ok t" and u_def: "u = close_begin sid t"
  shows "closer_ok u \<lparr>cl_root = sid, cl_wait = close_order u sid, cl_work = close_order u sid\<rparr>"
proof -
  have ok1: "scopes_ok u" unfolding u_def by (rule scopes_ok_close_begin [OF ok])
  have open1: "\<exists>s. dget (t_scopes u) i = Some s \<and> sc_state s \<noteq> OPEN" if "i \<in> set (close_order u sid)" for i
  proof -
    from that have "anc u i sid" using set_close_order [OF ok1] by simp
    then have "anc t i sid" using anc_close_begin [OF ok] by (simp add: u_def)
    with anc_keys [of t i sid] get_of_key [of i "t_scopes t"] show ?thesis
      by (auto simp: u_def close_begin_get [OF ok])
  qed
  have "j \<in> set xs" if w: "close_order u sid = xs @ i # ys" and s: "dget (t_scopes u) j = Some s"
      "ln_parent (sc_lineage s) = Some i" for xs i ys j s
  proof -
    have i: "anc u i sid" using set_close_order [OF ok1, of sid] w by auto
    with s have "anc u j sid" by (rule anc_step)
    then have j: "j \<in> set xs \<or> j = i \<or> j \<in> set ys" using set_close_order [OF ok1, of sid] w by auto
    from ok1 s obtain p where p: "dget (t_scopes u) i = Some p" "link_ok p s" by (rule parent_get)
    then have lt: "sc_sequence p < sc_sequence s" by (simp add: link_ok_def)
    have "sc_sequence s \<le> sc_sequence p" if "j \<in> set ys"
      using close_order_children_first [OF ok1, of sid] that s(1) p(1) unfolding w
      by (auto simp: sorted_wrt_append)
    with j lt s(1) p(1) show ?thesis by force
  qed
  with open1 show ?thesis by (auto simp: closer_ok_def)
qed

lemma closer_ok_wait:
  assumes "closer_ok t cl" "cl_wait cl = i # is" "idle_at t i" "scopes_ok t"
  shows "closer_ok t (cl\<lparr>cl_wait := is\<rparr>)"
proof -
  from assms(3) obtain s where s: "dget (t_scopes t) i = Some s" "sc_idle s"
    by (auto simp: idle_at_def split: option.splits)
  with scopes_okD(3) [OF assms(4) s(1)] have a: "sc_active s = 0" by (simp add: scope_ok_def)
  have "\<exists>x. dget (t_scopes t) j = Some x \<and> sc_state x \<noteq> OPEN \<and> (j \<in> set is \<or> sc_active x = 0)"
    if "j \<in> set (cl_work cl)" for j
  proof -
    from assms(1) that obtain x where x: "dget (t_scopes t) j = Some x" "sc_state x \<noteq> OPEN"
      "j \<in> set (i # is) \<or> sc_active x = 0" unfolding closer_ok_def assms(2) by blast
    with s(1) a show ?thesis by (cases "j = i") auto
  qed
  with assms(1) show ?thesis unfolding closer_ok_def by simp
qed

lemma closer_ok_next:
  assumes ok: "closer_ok t cl" and le: "closed_le t u" and w: "cl_work cl = i # is"
    and fr: "\<exists>s. dget (t_scopes u) i = Some s \<and> sc_state s = FROZEN"
  shows "closer_ok u (cl\<lparr>cl_work := is\<rparr>)"
proof -
  have u: "closer_ok u cl" by (rule closer_ok_stable [OF ok le])
  have "sc_state s = FROZEN \<or> j \<in> set xs"
    if "is = xs @ k # ys" "dget (t_scopes u) j = Some s" "ln_parent (sc_lineage s) = Some k" for xs k ys j s
  proof -
    from that(1) w have "cl_work cl = (i # xs) @ k # ys" by simp
    with u that(2,3) have "sc_state s = FROZEN \<or> j \<in> set (i # xs)" unfolding closer_ok_def by blast
    with fr that(2) show ?thesis by auto
  qed
  with u w show ?thesis unfolding closer_ok_def by auto
qed

lemma kept_finish:
  assumes ok: "scopes_ok t" and cl: "closer_ok t cl" and w: "cl_wait cl = []" "cl_work cl = i # is"
    and f: "finish_one i t = Inr u"
  shows "scopes_ok u \<and> closed_le t u \<and> (\<exists>s. dget (t_scopes u) i = Some s \<and> sc_state s = FROZEN)"
proof -
  from cl w obtain s where s: "dget (t_scopes t) i = Some s" "sc_state s \<noteq> OPEN" "sc_active s = 0"
    unfolding closer_ok_def by auto
  from finish_one_effect [OF s(1,2)] f have c: "core u = core (upd_scope i frozen t)" by simp
  have ch: "sc_state x = FROZEN" if "dget (t_scopes t) j = Some x" "ln_parent (sc_lineage x) = Some i" for j x
  proof -
    from cl have "cl_work cl = [] @ i # is \<longrightarrow> dget (t_scopes t) j = Some x \<longrightarrow>
        ln_parent (sc_lineage x) = Some i \<longrightarrow> sc_state x = FROZEN \<or> j \<in> set []"
      unfolding closer_ok_def by blast
    with w that show ?thesis by simp
  qed
  have "scopes_ok (upd_scope i frozen t)" by (rule scopes_ok_frozen [OF ok s(1,3) ch])
  then have "scopes_ok u" using scopes_ok_core [OF c] by simp
  moreover have "closed_le t (upd_scope i frozen t)" by (rule closed_le_upd) simp
  with closed_le_core [OF c] have "closed_le t u" using closed_le_trans by blast
  ultimately show ?thesis using core_fields(1) [OF c] s(1) by simp
qed

section \<open>Reachable configurations\<close>

definition reach_ok :: "config \<Rightarrow> bool" where
  "reach_ok c \<longleftrightarrow> scopes_ok (cf_tree c) \<and> ledger_ok (cf_tree c) \<and> budget_ok (cf_tree c)
     \<and> (\<forall>cl \<in> set (cf_closers c). closer_ok (cf_tree c) cl)"

lemma new_tree_ok:
  assumes "new_tree uuid run token d budget max_records max_evidence tokens = Inr t"
    and "token < length tokens" "tokens_ok tokens"
  shows "scopes_ok t \<and> ledger_ok t \<and> budget_ok t \<and> t_contributions t = [] \<and> t_records t = []"
proof -
  from assms(1) have t: "t = \<lparr>t_root_run = run, t_tokens = tokens, t_budget = budget, t_max_records = max_records,
        t_max_evidence = max_evidence, t_scope_next = 1, t_event_next = 0, t_record_next = 0,
        t_child_runs = 0, t_nested_tools = 0, t_contributions = [], t_usage_state = None, t_usage = None,
        t_effects = [], t_records = [], t_complete = True, t_cleanup = [], t_blockers = [],
        t_scopes = [(uuid, make_scope \<lparr>ln_root = run, ln_run = run, ln_scope = uuid, ln_parent = None,
           ln_depth = 0, ln_agent_depth = 0, ln_call = None, ln_agent_tool = None\<rparr> 0 token d)], t_root = uuid\<rparr>"
      and l: "uuid \<noteq> []" "run \<noteq> []"
    by (auto simp: new_tree_def new_scope_def Let_def lineage_ok_def split: if_splits)
  have "scopes_ok t"
    using assms(2,3) l
    by (intro scopes_okI) (auto simp: t scope_ok_def parent_ok_def make_scope_def lineage_ok_def dict_ok_def split: if_splits)
  moreover have "ledger_ok t"
    by (simp add: t ledger_ok_def log_ok_def usage_ok_def all_usages_def keyed_ok_def List.map_filter_def)
  ultimately show ?thesis by (simp add: t budget_ok_def)
qed

lemma exec_step_kept:
  assumes "exec_step cx c d" "reach_ok c"
  shows "reach_ok d \<and> closed_le (cf_tree c) (cf_tree d) \<and> contributions_le (cf_tree c) (cf_tree d)"
  using assms
proof (induction rule: exec_step.induct)
  case (e_tree c u)
  then show ?case
    using kept_tree_step [OF e_tree(1)] booked_tree_step [OF e_tree(1)] ledger_tree_step [OF e_tree(1)]
      closer_ok_stable by (auto simp: reach_ok_def kept_def booked_def)
next
  case (e_close sid c)
  let ?u = "close_begin sid (cf_tree c)"
  have b: "books ?u = books (cf_tree c)" by (rule books_close_begin)
  from e_close have "scopes_ok (cf_tree c)" by (simp add: reach_ok_def)
  with kept_close_begin [of "cf_tree c" sid] have "scopes_ok ?u \<and> closed_le (cf_tree c) ?u"
    by (simp add: kept_def)
  with e_close closer_ok_start [of "cf_tree c" _ sid, OF _ refl] booked_books [OF b] ledger_ok_close_begin closer_ok_stable
  show ?case by (auto simp: reach_ok_def start_close_def Let_def booked_def)
next
  case (e_wait k c cl i "is")
  then have "closer_ok (cf_tree c) (cl\<lparr>cl_wait := is\<rparr>)"
    using closer_ok_wait by (auto simp: reach_ok_def)
  with e_wait show ?case
    by (auto simp: reach_ok_def contributions_le_def closed_le_scopes dest!: set_update_subset_insert [THEN subsetD])
next
  case (e_finish k c cl i "is" u)
  have cl: "closer_ok (cf_tree c) cl" using e_finish by (auto simp: reach_ok_def)
  have ok: "scopes_ok (cf_tree c)" using e_finish by (simp add: reach_ok_def)
  from kept_finish [OF ok cl e_finish(3-5)] have u: "scopes_ok u" "closed_le (cf_tree c) u"
    "\<exists>s. dget (t_scopes u) i = Some s \<and> sc_state s = FROZEN" by blast+
  from closer_ok_next [OF cl u(2) e_finish(4) u(3)] have "closer_ok u (cl\<lparr>cl_work := is\<rparr>)" .
  moreover have "ledger_ok u" using e_finish ledger_ok_finish_one by (auto simp: reach_ok_def)
  moreover have "booked (cf_tree c) u" using booked_books [OF books_finish_one [OF e_finish(5)]] .
  ultimately show ?case
    using e_finish u closer_ok_stable [OF _ u(2)]
    by (auto simp: reach_ok_def booked_def dest!: set_update_subset_insert [THEN subsetD])
qed

lemma reachable_ok: "reachable cx c \<Longrightarrow> reach_ok c"
  by (induction rule: reachable.induct) (auto simp: reach_ok_def dest: new_tree_ok exec_step_kept)

end
