(* ===== verification/ExecViews.thy ===== *)
theory ExecViews
  imports ExecReach
begin

text \<open>
  What the views of an execution tree mean: the usage of a scope, the ordered effects, the scope a
  tool call is committed through, and which of them are final once a scope is frozen.
\<close>

section \<open>Scopes below a scope\<close>

lemma state_below:
  assumes "scopes_ok t" "anc t i a"
  shows "\<exists>s p. dget (t_scopes t) i = Some s \<and> dget (t_scopes t) a = Some p
     \<and> (sc_state p \<noteq> OPEN \<longrightarrow> sc_state s \<noteq> OPEN) \<and> (sc_state p = FROZEN \<longrightarrow> sc_state s = FROZEN)"
  using assms(2)
proof (induction rule: anc.induct)
  case (anc_step i s p a)
  from assms(1) anc_step.hyps(1,2) obtain ps where "dget (t_scopes t) p = Some ps" "link_ok ps s"
    by (rule parent_get)
  with anc_step show ?case by (auto simp: link_ok_def)
qed auto

lemma anc_closed_le:
  assumes ok: "scopes_ok t" and le: "closed_le t u" and i: "i \<in> dkeys (t_scopes t)"
  shows "anc u i a \<longleftrightarrow> anc t i a"
proof
  have "anc u i a \<Longrightarrow> i \<in> dkeys (t_scopes t) \<Longrightarrow> anc t i a" for i
  proof (induction rule: anc.induct)
    case (anc_refl i s)
    then show ?case using get_of_key anc.anc_refl by metis
  next
    case (anc_step i s' p a)
    then obtain s where s: "dget (t_scopes t) i = Some s" using get_of_key by metis
    with le obtain x where "dget (t_scopes u) i = Some x" "sc_lineage x = sc_lineage s" by (rule closed_leD)
    with anc_step.hyps(1,2) have l: "ln_parent (sc_lineage s) = Some p" by simp
    with ok s obtain ps where "dget (t_scopes t) p = Some ps" by (metis parent_get)
    with anc_step.IH s l show ?case by (auto intro: anc.anc_step dest: key_of_get)
  qed
  with i show "anc u i a \<Longrightarrow> anc t i a" by blast
  show "anc t i a \<Longrightarrow> anc u i a"
  proof (induction rule: anc.induct)
    case (anc_refl i s)
    with le show ?case by (metis closed_leD anc.anc_refl)
  next
    case (anc_step i s p a)
    from le anc_step.hyps(1) obtain x where "dget (t_scopes u) i = Some x" "sc_lineage x = sc_lineage s"
      by (rule closed_leD)
    with anc_step show ?case by (auto intro: anc.anc_step)
  qed
qed

section \<open>Usage\<close>

text \<open>
  The usage of a list of contributions, whatever their order: unknown as soon as one is unknown; a
  counter is the sum, unless some contribution does not report it.
\<close>

definition sum_counts :: "nat option list \<Rightarrow> nat option" where
  "sum_counts xs = (if None \<in> set xs then None else Some (sum_list (map the xs)))"

definition known_usages :: "usage_contribution list \<Rightarrow> usage list" where
  "known_usages us = concat (map (\<lambda>c. case c of KnownUsage u \<Rightarrow> [u] | UnknownUsage \<Rightarrow> []) us)"

definition usage_spec :: "usage_contribution list \<Rightarrow> usage option \<times> bool option" where
  "usage_spec us =
     (if us = [] then (None, None)
      else if UnknownUsage \<in> set us then (None, Some False)
      else (Some (Usage (sum_counts (map u_input (known_usages us))) (sum_counts (map u_output (known_usages us)))
                        (sum_counts (map u_total (known_usages us)))), Some True))"

lemma sum_counts_append: "sum_counts (xs @ ys) = merge_count (sum_counts xs) (sum_counts ys)"
  by (auto simp: sum_counts_def merge_count_def)

lemma sum_counts_single [simp]: "sum_counts [x] = x"
  by (cases x) (simp_all add: sum_counts_def)

definition usage_state_spec :: "usage_contribution list \<Rightarrow> usage_knowledge option \<times> usage option" where
  "usage_state_spec us =
     (if us = [] then (None, None)
      else if UnknownUsage \<in> set us then (Some USAGE_UNKNOWN, None)
      else (Some USAGE_KNOWN, fst (usage_spec us)))"

lemma usage_fold_spec: "fold scope_usage_step us (None, None) = usage_state_spec us"
proof (induction us rule: rev_induct)
  case (snoc c us)
  show ?case
  proof (cases "us = []")
    case True
    then show ?thesis
      by (cases c) (simp_all add: usage_state_spec_def usage_spec_def scope_usage_step_def known_usages_def)
  next
    case False
    with snoc show ?thesis
      by (cases c) (auto simp: usage_state_spec_def usage_spec_def scope_usage_step_def known_usages_def
          sum_counts_append merge_known_usage_def)
  qed
qed (simp add: usage_state_spec_def)

lemma usage_fold_answer: "usage_answer (fold scope_usage_step us (None, None)) = usage_spec us"
  by (auto simp: usage_fold_spec usage_state_spec_def usage_spec_def usage_answer_def)

lemma usage_spec_mset:
  assumes "mset us = mset vs"
  shows "usage_spec us = usage_spec vs"
proof -
  have s: "set us = set vs" "us = [] \<longleftrightarrow> vs = []" using assms by (metis mset_eq_setD, metis mset_zero_iff)
  have "mset (known_usages ws) =
      \<Sum>\<^sub># (image_mset (\<lambda>c. mset (case c of KnownUsage u \<Rightarrow> [u] | UnknownUsage \<Rightarrow> [])) (mset ws))" for ws
    by (induction ws) (simp_all add: known_usages_def)
  with assms have k: "mset (known_usages us) = mset (known_usages vs)" by simp
  have counts: "sum_counts (map f xs) = sum_counts (map f ys)" if "mset xs = mset ys" for f :: "usage \<Rightarrow> _" and xs ys
  proof -
    have "set (map f xs) = set (map f ys)" using mset_eq_setD [OF that] by simp
    moreover have "sum_list (map h zs) = sum_mset (image_mset h (mset zs))" for h :: "usage \<Rightarrow> nat" and zs
      by (induction zs) simp_all
    then have "sum_list (map (the \<circ> f) xs) = sum_list (map (the \<circ> f) ys)" using that by simp
    ultimately show ?thesis unfolding sum_counts_def map_map by (simp only:)
  qed
  from counts [OF k] show ?thesis by (simp only: usage_spec_def s)
qed

lemma usage_for_scope_spec: "usage_for_scope t sid = usage_spec (scope_usages t sid)"
  by (simp add: usage_for_scope_def usage_fold_answer)

lemma map_filter_cong:
  "(\<And>x. x \<in> set xs \<Longrightarrow> f x = g x) \<Longrightarrow> List.map_filter f xs = List.map_filter g xs"
  by (induction xs) (simp_all add: List.map_filter_simps split: option.split)

lemma scope_usages_root:
  assumes "scopes_ok t" "keyed_ok t"
  shows "scope_usages t (t_root t) = all_usages t"
proof -
  have "is_descendant t (ci_scope (cb_id c)) (t_root t)" if c: "c \<in> set (map snd (t_contributions t))" for c
  proof -
    from c obtain i where "(i, c) \<in> set (t_contributions t)" by auto
    with assms(2) have "dget (t_contributions t) i = Some c" by (simp add: keyed_ok_def dict_ok_get)
    with assms(2) have "ci_scope (cb_id c) \<in> dkeys (t_scopes t)" by (auto simp: keyed_ok_def)
    with assms(1) show ?thesis using anc_root get_of_key is_descendant_iff by metis
  qed
  then show ?thesis
    unfolding scope_usages_def all_usages_def by (intro map_filter_cong) auto
qed

section \<open>Final contributions\<close>

lemma frozen_usages_step:
  assumes st: "exec_step cx c d" and ok: "reach_ok c"
    and fr: "dget (t_scopes (cf_tree c)) sid = Some s" "sc_state s = FROZEN"
  shows "scope_usages (cf_tree d) sid = scope_usages (cf_tree c) sid"
proof -
  let ?t = "cf_tree c" and ?u = "cf_tree d"
  from exec_step_kept [OF st ok] have d: "reach_ok d" "closed_le ?t ?u" "contributions_le ?t ?u" by blast+
  from ok have o: "scopes_ok ?t" "keyed_ok ?t" by (auto simp: reach_ok_def ledger_ok_def)
  from d(1) have o2: "scopes_ok ?u" by (simp add: reach_ok_def)
  have same: "is_descendant ?u i sid = is_descendant ?t i sid" if "i \<in> dkeys (t_scopes ?t)" for i
    using anc_closed_le [OF o(1) d(2) that] o(1) o2 by (simp add: is_descendant_iff)
  have known: "ci_scope (cb_id x) \<in> dkeys (t_scopes ?t)" if x: "x \<in> set (map snd (t_contributions ?t))" for x
  proof -
    from x obtain i where "(i, x) \<in> set (t_contributions ?t)" by auto
    with o(2) have "dget (t_contributions ?t) i = Some x" by (simp add: keyed_ok_def dict_ok_get)
    with o(2) show ?thesis by (auto simp: keyed_ok_def)
  qed
  have old: "List.map_filter (\<lambda>x. if is_descendant ?u (ci_scope (cb_id x)) sid then cb_usage x else None)
        (map snd (t_contributions ?t)) = scope_usages ?t sid"
    unfolding scope_usages_def by (intro map_filter_cong) (use same [OF known] in simp)
  from d(3) show ?thesis
    unfolding contributions_le_def
  proof (elim disjE exE conjE)
    fix x r assume x: "dget (t_scopes ?t) (ci_scope (cb_id x)) = Some r" "sc_state r \<noteq> FROZEN"
      "t_contributions ?u = t_contributions ?t @ [(cb_id x, x)]"
    have "\<not> is_descendant ?t (ci_scope (cb_id x)) sid"
      using state_below [OF o(1), of "ci_scope (cb_id x)" sid] x(1,2) fr o(1) by (auto simp: is_descendant_iff)
    then have "\<not> is_descendant ?u (ci_scope (cb_id x)) sid" using same [OF key_of_get [OF x(1)]] by simp
    with old show ?thesis by (simp add: scope_usages_def x(3) List.map_filter_def)
  qed (use old in \<open>simp add: scope_usages_def\<close>)
qed

lemma frozen_usages_steps:
  assumes "(exec_step cx)\<^sup>*\<^sup>* c d" "reach_ok c" "dget (t_scopes (cf_tree c)) sid = Some s" "sc_state s = FROZEN"
  shows "scope_usages (cf_tree d) sid = scope_usages (cf_tree c) sid \<and> reach_ok d
     \<and> (\<exists>s'. dget (t_scopes (cf_tree d)) sid = Some s' \<and> sc_state s' = FROZEN)"
  using assms(1)
proof (induction rule: rtranclp_induct)
  case base
  with assms show ?case by simp
next
  case (step x y)
  then obtain s' where s': "dget (t_scopes (cf_tree x)) sid = Some s'" "sc_state s' = FROZEN" "reach_ok x" by blast
  from exec_step_kept [OF step.hyps(2) s'(3)] have y: "reach_ok y" "closed_le (cf_tree x) (cf_tree y)" by blast+
  from y(2) s'(1) obtain s'' where "dget (t_scopes (cf_tree y)) sid = Some s''"
    "sc_state s' = FROZEN \<longrightarrow> sc_state s'' = FROZEN" by (rule closed_leD)
  with s' y(1) step.IH frozen_usages_step [OF step.hyps(2) s'(3,1,2)] show ?case by simp
qed

section \<open>Effects in order\<close>

definition effects_known :: "tree \<Rightarrow> bool" where
  "effects_known t \<longleftrightarrow> (\<forall>i \<in> dkeys (t_effects t). ei_scope i \<in> dkeys (t_scopes t))"

definition effect_rank :: "tree \<Rightarrow> effect \<Rightarrow> nat \<times> nat" where
  "effect_rank t e = (case ef_id e of None \<Rightarrow> (0, 0)
     | Some i \<Rightarrow> ((case dget (t_scopes t) (ei_scope i) of None \<Rightarrow> 0 | Some s \<Rightarrow> sc_sequence s), ei_sequence i))"

lemma map_res_total: "(\<And>x. x \<in> set xs \<Longrightarrow> f x = Inr (g x)) \<Longrightarrow> map_res f xs = Inr (map g xs)"
  by (induction xs) auto

lemma effects_value:
  assumes "keyed_ok t" "effects_known t"
  shows "effects t = Inr (map snd (sort_key fst (map (\<lambda>e. (effect_rank t e, e)) (map snd (t_effects t)))))"
proof -
  have "bind_res (effect_key t e) (\<lambda>k. Inr (k, e)) = Inr (effect_rank t e, e)"
    if e: "e \<in> set (map snd (t_effects t))" for e
  proof -
    from e obtain i where "(i, e) \<in> set (t_effects t)" by auto
    with assms(1) have "dget (t_effects t) i = Some e" by (simp add: keyed_ok_def dict_ok_get)
    with assms have "ef_id e = Some i" "ei_scope i \<in> dkeys (t_scopes t)"
      by (auto simp: keyed_ok_def effects_known_def dest: key_of_get)
    then show ?thesis using get_of_key [of "ei_scope i" "t_scopes t"]
      by (auto simp: effect_key_def effect_rank_def with_scope_def)
  qed
  then have "map_res (\<lambda>e. bind_res (effect_key t e) (\<lambda>k. Inr (k, e))) (map snd (t_effects t)) =
      Inr (map (\<lambda>e. (effect_rank t e, e)) (map snd (t_effects t)))" by (rule map_res_total)
  then show ?thesis unfolding effects_def by (simp only: bind_res.simps)
qed

lemma effects_sorted:
  assumes "keyed_ok t" "effects_known t"
  shows "\<exists>es. effects t = Inr es \<and> mset es = mset (map snd (t_effects t))
     \<and> sorted (map (effect_rank t) es)"
proof -
  let ?k = "map (\<lambda>e. (effect_rank t e, e)) (map snd (t_effects t))"
  have "map snd (map (\<lambda>e. (effect_rank t e, e)) es) = es" for es by (induction es) simp_all
  moreover have "mset (map snd (sort_key fst k)) = mset (map snd k)" for k :: "((nat \<times> nat) \<times> effect) list"
    by (simp only: mset_map mset_sort)
  ultimately have 1: "mset (map snd (sort_key fst ?k)) = mset (map snd (t_effects t))" by (simp only:)
  have "map (effect_rank t) (map snd (sort_key fst ?k)) = map fst (sort_key fst ?k)"
    unfolding map_map by (rule map_cong) auto
  then have "sorted (map (effect_rank t) (map snd (sort_key fst ?k)))"
    by (rule ssubst) (rule sorted_sort_key)
  with 1 effects_value [OF assms] show ?thesis by blast
qed

lemma effects_root:
  assumes "scopes_ok t" "keyed_ok t" "effects_known t"
  shows "effects_for_scope t (t_root t) = effects t"
proof -
  from effects_sorted [OF assms(2,3)] obtain es where es: "effects t = Inr es"
    "mset es = mset (map snd (t_effects t))" by blast
  have "case ef_id e of None \<Rightarrow> False | Some i \<Rightarrow> is_descendant t (ei_scope i) (t_root t)" if "e \<in> set es" for e
  proof -
    from that es(2) have "e \<in> set (map snd (t_effects t))" by (metis set_mset_mset)
    then obtain i where "(i, e) \<in> set (t_effects t)" by auto
    with assms(2) have "dget (t_effects t) i = Some e" by (simp add: keyed_ok_def dict_ok_get)
    with assms have "ef_id e = Some i" "ei_scope i \<in> dkeys (t_scopes t)"
      by (auto simp: keyed_ok_def effects_known_def dest: key_of_get)
    with assms(1) show ?thesis using anc_root get_of_key is_descendant_iff by (metis option.simps(5))
  qed
  then show ?thesis by (simp add: effects_for_scope_def es(1))
qed

section \<open>Committing tool calls\<close>

lemma top_loop_spec:
  assumes ok: "scopes_ok t"
  shows "dget (t_scopes t) i = Some s \<Longrightarrow> sc_sequence s + 1 \<le> fuel \<Longrightarrow>
    \<exists>h j. top_loop fuel (t_scopes t) (t_root t) s = Some h \<and> dget (t_scopes t) j = Some h \<and> anc t i j
      \<and> (ln_parent (sc_lineage h) = Some (t_root t) \<or> i = t_root t \<and> j = i)"
proof (induction fuel arbitrary: i s)
  case (Suc fuel)
  show ?case
  proof (cases "ln_parent (sc_lineage s)")
    case None
    with scopes_okD(4) [OF ok Suc.prems(1)] have "i = t_root t" by (simp add: parent_ok_def)
    with None Suc.prems(1) show ?thesis by (auto intro: anc_refl)
  next
    case (Some p)
    with ok Suc.prems(1) obtain ps where ps: "dget (t_scopes t) p = Some ps" "link_ok ps s" by (rule parent_get)
    show ?thesis
    proof (cases "p = t_root t")
      case True
      with Some Suc.prems(1) show ?thesis by (auto intro: anc_refl)
    next
      case False
      from ps(2) Suc.prems(2) have "sc_sequence ps + 1 \<le> fuel" by (simp add: link_ok_def)
      from Suc.IH [OF ps(1) this] obtain h j where "top_loop fuel (t_scopes t) (t_root t) ps = Some h"
        "dget (t_scopes t) j = Some h" "anc t p j" "ln_parent (sc_lineage h) = Some (t_root t)"
        using False by blast
      with Some False ps(1) Suc.prems(1) show ?thesis by (auto intro: anc_step)
    qed
  qed
qed simp

text \<open>Whether an effect's outermost call is among the accepted ones.\<close>

definition accepted_effect :: "tree \<Rightarrow> pystr list \<Rightarrow> effect_identity \<Rightarrow> bool" where
  "accepted_effect t ids i = (case dget (t_scopes t) (ei_scope i) of None \<Rightarrow> False
     | Some s \<Rightarrow> (case top_loop (chain_fuel t) (t_scopes t) (t_root t) s of None \<Rightarrow> False
        | Some h \<Rightarrow> (case ln_call (sc_lineage h) of None \<Rightarrow> False | Some c \<Rightarrow> c \<in> set ids)))"

lemma accepted_core: "core u = core t \<Longrightarrow> accepted_effect u ids i = accepted_effect t ids i"
  unfolding accepted_effect_def chain_fuel_def by (simp only: core_fields [of u t])

lemma commit_if_accepted_value:
  assumes "scopes_ok t" "ei_scope i \<in> dkeys (t_scopes t)"
  shows "commit_if_accepted ids i t = Inr (if accepted_effect t ids i then commit_stored i t else t)"
proof -
  from assms(2) obtain s where s: "dget (t_scopes t) (ei_scope i) = Some s" using get_of_key by metis
  have "sc_sequence s + 1 \<le> chain_fuel t" using chain_fuel_enough [OF assms(1) s] by simp
  from top_loop_spec [OF assms(1) s this] obtain h where
    "top_loop (chain_fuel t) (t_scopes t) (t_root t) s = Some h" by blast
  with s show ?thesis by (simp add: commit_if_accepted_def with_scope_def accepted_effect_def split: option.split)
qed

lemma commit_stored_get:
  "dget (t_effects (commit_stored i t)) j =
     (if j = i then map_option (\<lambda>e. e\<lparr>ef_committed := True\<rparr>) (dget (t_effects t) i) else dget (t_effects t) j)"
  by (simp add: commit_stored_def split: option.split)

lemma commit_loop:
  assumes "distinct ks" "\<And>i. i \<in> set ks \<Longrightarrow> ei_scope i \<in> dkeys (t_scopes t0)" "scopes_ok t0" "core t = core t0"
  shows "\<exists>u. fold_res (commit_if_accepted ids) ks t = Inr u \<and> core u = core t0
    \<and> (\<forall>j. dget (t_effects u) j =
         (if j \<in> set ks \<and> accepted_effect t0 ids j then map_option (\<lambda>e. e\<lparr>ef_committed := True\<rparr>) (dget (t_effects t) j)
          else dget (t_effects t) j))"
  using assms
proof (induction ks arbitrary: t)
  case (Cons k ks)
  let ?v = "if accepted_effect t0 ids k then commit_stored k t else t"
  have ok: "scopes_ok t" using Cons.prems(3,4) scopes_ok_core by blast
  have "ei_scope k \<in> dkeys (t_scopes t)" using Cons.prems(2) [of k] core_fields(1) [OF Cons.prems(4)] by simp
  from commit_if_accepted_value [OF ok this, of ids] have 1: "commit_if_accepted ids k t = Inr ?v"
    using accepted_core [OF Cons.prems(4)] by simp
  have "core ?v = core t0" using Cons.prems(4) by simp
  from Cons.IH [OF _ _ Cons.prems(3) this] Cons.prems(1,2) obtain u where
    "fold_res (commit_if_accepted ids) ks ?v = Inr u" "core u = core t0"
    "\<forall>j. dget (t_effects u) j = (if j \<in> set ks \<and> accepted_effect t0 ids j
        then map_option (\<lambda>e. e\<lparr>ef_committed := True\<rparr>) (dget (t_effects ?v) j) else dget (t_effects ?v) j)"
    by auto
  with 1 Cons.prems(1) show ?case by (auto simp: commit_stored_get option.map_comp)
qed simp

lemma mark_tool_calls_value:
  assumes "scopes_ok t" "keyed_ok t" "effects_known t"
  shows "\<exists>u. mark_tool_calls_committed ids t = Inr u \<and> core u = core t
    \<and> (\<forall>j. dget (t_effects u) j = (if accepted_effect t ids j
         then map_option (\<lambda>e. e\<lparr>ef_committed := True\<rparr>) (dget (t_effects t) j) else dget (t_effects t) j))"
proof -
  have d: "distinct (map fst (t_effects t))" using assms(2) by (simp add: keyed_ok_def dict_ok_def)
  have "ei_scope i \<in> dkeys (t_scopes t)" if "i \<in> set (map fst (t_effects t))" for i
    using assms(3) that by (auto simp: effects_known_def)
  from commit_loop [OF d this assms(1) refl, of ids] obtain u where
    u: "mark_tool_calls_committed ids t = Inr u" "core u = core t"
    "\<forall>j. dget (t_effects u) j = (if j \<in> set (map fst (t_effects t)) \<and> accepted_effect t ids j
       then map_option (\<lambda>e. e\<lparr>ef_committed := True\<rparr>) (dget (t_effects t) j) else dget (t_effects t) j)"
    by (auto simp: mark_tool_calls_committed_def)
  have "dget (t_effects t) j = None" if "j \<notin> set (map fst (t_effects t))" for j
    using that by (simp add: dget_None_iff)
  with u show ?thesis by (metis option.simps(8))
qed

section \<open>Retrying a contribution\<close>

text \<open>JSON values as their constructors leave them: every object has distinct keys.\<close>

fun content_ok :: "tool_content \<Rightarrow> bool" where
  "content_ok (ToolJsonContent j) \<longleftrightarrow> json_ok j"
| "content_ok _ \<longleftrightarrow> True"

definition contribution_ok :: "contribution \<Rightarrow> bool" where
  "contribution_ok c \<longleftrightarrow>
     list_all (\<lambda>e. case ef_content e of None \<Rightarrow> True | Some x \<Rightarrow> content_ok x) (cb_effects c)
     \<and> list_all (\<lambda>r. case sp_evidence r of None \<Rightarrow> True | Some j \<Rightarrow> json_ok (JObj j)) (cb_records c)"

lemma tool_content_eq_refl: "content_ok x \<Longrightarrow> tool_content_eq x x"
  by (cases x) (simp_all add: json_eq_refl)

lemma contribution_eq_refl: "contribution_ok c \<Longrightarrow> contribution_eq c c"
  by (auto simp: contribution_eq_def contribution_ok_def list_all2_same list_all_iff effect_eq_def
      supplemental_eq_def evidence_eq_def jobj_eq_def simp del: json_ok.simps json_eq.simps
      intro: tool_content_eq_refl json_eq_refl split: option.splits)

lemma contribute_stores:
  assumes "dget (t_scopes t) (ci_scope (cb_id c)) = Some s" "sc_state s = OPEN \<or> sc_state s = CLOSING \<and> settlement"
    and "dget (t_contributions t) (cb_id c) = None"
  shows "dget (t_contributions (fst (contribute cx settlement c t))) (cb_id c) = Some c"
proof -
  let ?t1 = "t\<lparr>t_contributions := dset (cb_id c) c (t_contributions t)\<rparr>"
  let ?t2 = "case cb_usage c of None \<Rightarrow> ?t1 | Some u \<Rightarrow> merge_usage u ?t1"
  have 2: "dget (t_contributions ?t2) (cb_id c) = Some c" by (simp split: option.split)
  have "t_contributions (fold (add_summary_record cx s) rs v) = t_contributions v" for rs v
    by (rule fold_same) (simp add: add_summary_record_def)
  with 2 assms store_effects_fields [of "cb_effects c" ?t2] show ?thesis
    by (cases "store_effects (cb_effects c) ?t2") (auto simp: contribute_def Let_def split: option.split)
qed


text \<open>
  A small run on which the properties of the execution tree are instantiated: a root scope, a tool
  scope under it that has contributed usage, and its close, each step by the code's own operations.
\<close>

section \<open>A small run\<close>

definition demo_codec :: codec where
  "demo_codec = \<lparr>cx_float = (\<lambda>_. []), cx_sha = (\<lambda>_. [])\<rparr>"

definition demo_budget :: budget_config where
  "demo_budget = \<lparr>bc_agent_depth = 1, bc_child_runs = 1, bc_nested_calls = 2\<rparr>"

definition demo_tree0 :: tree where
  "demo_tree0 = projr (new_tree [1] [9] 0 None demo_budget 2 100 [new_token None])"

definition demo_tree1 :: tree where
  "demo_tree1 = projr (child_tool [2] [1] [7] (Some [8]) None demo_tree0)"

definition demo_contribution :: contribution where
  "demo_contribution = \<lparr>cb_id = ContributionId [2] 0, cb_usage = Some (KnownUsage (Usage (Some 3) None (Some 5))),
     cb_effects = [], cb_records = [\<lparr>sp_status = RS_SUCCEEDED, sp_error_code = None, sp_evidence = None\<rparr>],
     cb_cleanup = []\<rparr>"

definition demo_tree2 :: tree where
  "demo_tree2 = fst (contribute demo_codec False demo_contribution demo_tree1)"

definition demo_config :: config where
  "demo_config = \<lparr>cf_tree = demo_tree2, cf_closers = []\<rparr>"

lemma demo_new: "new_tree [1] [9] 0 None demo_budget 2 100 [new_token None] = Inr demo_tree0"
  by (simp add: demo_tree0_def new_tree_def new_scope_def Let_def lineage_ok_def)

lemma demo_child: "[2] \<notin> dkeys (t_scopes demo_tree0)"
  "child_tool [2] [1] [7] (Some [8]) None demo_tree0 = Inr demo_tree1"
proof -
  show "[2] \<notin> dkeys (t_scopes demo_tree0)"
    by (simp add: demo_tree0_def new_tree_def new_scope_def Let_def lineage_ok_def)
  have "isl (child_tool [2] [1] [7] (Some [8]) None demo_tree0) = False" by code_simp
  then show "child_tool [2] [1] [7] (Some [8]) None demo_tree0 = Inr demo_tree1"
    by (simp add: demo_tree1_def)
qed

lemma demo_tokens: "tokens_ok [new_token None]"
  by (simp add: tokens_ok_def new_token_def)

lemma demo_reachable: "reachable demo_codec demo_config"
proof -
  have 0: "reachable demo_codec \<lparr>cf_tree = demo_tree0, cf_closers = []\<rparr>"
    by (rule r_start [OF demo_new]) (simp_all add: demo_tokens)
  have s1: "tree_step demo_codec demo_tree0 demo_tree1" using demo_child by (rule s_child_tool)
  have s2: "tree_step demo_codec demo_tree1 demo_tree2" unfolding demo_tree2_def by (rule s_contribute)
  from r_step [OF 0 e_tree, of demo_tree1] s1 have 1: "reachable demo_codec \<lparr>cf_tree = demo_tree1, cf_closers = []\<rparr>"
    by simp
  from r_step [OF 1 e_tree, of demo_tree2] s2 show ?thesis by (simp add: demo_config_def)
qed

text \<open>The tool scope of that run is closed, and its subtree is frozen.\<close>

definition demo_closed :: config where
  "demo_closed = (let c = start_close [2] demo_config in
     \<lparr>cf_tree = projr (finish_one [2] (cf_tree c)), cf_closers = [\<lparr>cl_root = [2], cl_wait = [], cl_work = []\<rparr>]\<rparr>)"

lemma demo_order: "cf_closers (start_close [2] demo_config) = [\<lparr>cl_root = [2], cl_wait = [[2]], cl_work = [[2]]\<rparr>]"
  by code_simp

lemma demo_idle: "idle_at (cf_tree (start_close [2] demo_config)) [2]"
  by code_simp

lemma demo_finish: "finish_one [2] (cf_tree (start_close [2] demo_config)) = Inr (cf_tree demo_closed)"
proof -
  have "isl (finish_one [2] (cf_tree (start_close [2] demo_config))) = False" by code_simp
  then show ?thesis by (simp add: demo_closed_def Let_def)
qed

lemma demo_closed_reachable: "reachable demo_codec demo_closed"
proof -
  let ?c = "start_close [2] demo_config"
  have k: "[2] \<in> dkeys (t_scopes (cf_tree demo_config))" by code_simp
  from r_step [OF demo_reachable e_close [OF k]] have 1: "reachable demo_codec ?c" .
  from r_step [OF 1 e_wait [of 0 ?c _ "[2]" "[]"]] have
    2: "reachable demo_codec (?c\<lparr>cf_closers := [\<lparr>cl_root = [2], cl_wait = [], cl_work = [[2]]\<rparr>]\<rparr>)"
    by (simp add: demo_order demo_idle)
  from r_step [OF 2 e_finish [of 0 _ _ "[2]" "[]" "cf_tree demo_closed"]]
  have "reachable demo_codec (?c\<lparr>cf_tree := cf_tree demo_closed,
      cf_closers := [\<lparr>cl_root = [2], cl_wait = [], cl_work = []\<rparr>]\<rparr>)"
    by (simp add: demo_finish)
  then show ?thesis by (simp add: demo_closed_def Let_def start_close_def)
qed

end
