(* ===== verification/ExecProps.thy ===== *)
theory ExecProps
  imports ExecViews
begin

text \<open>
  The properties of the execution tree. Each holds in every configuration the operations and the
  closes in flight can reach, or for every call of an operation on such a tree.
\<close>

section \<open>Scopes\<close>

text \<open>
  C1. Closing is hereditary: below a scope that is closing or frozen no scope is open, and below a frozen
  scope every scope is frozen, with no settlement in progress and no resource left. Nothing can be
  created, registered or settled there any more.
\<close>

theorem closing_is_hereditary:
  assumes "reachable cx c" "is_descendant (cf_tree c) i a" "dget (t_scopes (cf_tree c)) a = Some p"
  shows "\<exists>s. dget (t_scopes (cf_tree c)) i = Some s \<and> (sc_state p \<noteq> OPEN \<longrightarrow> sc_state s \<noteq> OPEN)
    \<and> (sc_state p = FROZEN \<longrightarrow> sc_state s = FROZEN \<and> sc_active s = 0 \<and> sc_resources s = [])"
proof -
  have ok: "scopes_ok (cf_tree c)" using reachable_ok [OF assms(1)] by (simp add: reach_ok_def)
  with assms(2) have "anc (cf_tree c) i a" by (simp add: is_descendant_iff)
  from state_below [OF ok this] assms(3) obtain s where "dget (t_scopes (cf_tree c)) i = Some s"
    "sc_state p \<noteq> OPEN \<longrightarrow> sc_state s \<noteq> OPEN" "sc_state p = FROZEN \<longrightarrow> sc_state s = FROZEN" by auto
  with scopes_okD(3) [OF ok this(1)] show ?thesis by (auto simp: scope_ok_def)
qed

lemma demo_closed_frozen: "map_option sc_state (dget (t_scopes (cf_tree demo_closed)) [2]) = Some FROZEN"
  by code_simp

theorem closing_is_hereditary_witness:
  "\<exists>p s. dget (t_scopes (cf_tree demo_closed)) [2] = Some p \<and> sc_state p = FROZEN
     \<and> dget (t_scopes (cf_tree demo_closed)) [2] = Some s \<and> sc_resources s = []"
proof -
  obtain p where p: "dget (t_scopes (cf_tree demo_closed)) [2] = Some p" "sc_state p = FROZEN"
    using demo_closed_frozen by (cases "dget (t_scopes (cf_tree demo_closed)) [2]") auto
  have "is_descendant (cf_tree demo_closed) [2] [2]" by code_simp
  from closing_is_hereditary [OF demo_closed_reachable this p(1)] p show ?thesis by auto
qed

text \<open>
  The climb of \<open>_is_descendant\<close> along the parent links always ends, and answers whether one scope is
  reachable from the other by parent links; the root is above every scope.
\<close>

theorem is_descendant_total:
  assumes "reachable cx c" "dget (t_scopes (cf_tree c)) i = Some s"
  shows "descendant_loop (chain_fuel (cf_tree c)) (t_scopes (cf_tree c)) a (Some s) = Some (anc (cf_tree c) i a)
    \<and> is_descendant (cf_tree c) i (t_root (cf_tree c))"
proof -
  have ok: "scopes_ok (cf_tree c)" using reachable_ok [OF assms(1)] by (simp add: reach_ok_def)
  from descendant_loop_iff [OF ok assms(2) chain_fuel_enough [OF ok assms(2)], of a]
    anc_root [OF ok assms(2)] ok show ?thesis by (simp add: is_descendant_iff)
qed

theorem is_descendant_total_witness:
  "\<exists>s. dget (t_scopes (cf_tree demo_config)) [2] = Some s
     \<and> descendant_loop 3 (t_scopes (cf_tree demo_config)) [1] (Some s) = Some (anc (cf_tree demo_config) [2] [1])"
proof -
  have "\<exists>s. dget (t_scopes (cf_tree demo_config)) [2] = Some s"
    by (rule get_of_key) code_simp
  then obtain s where s: "dget (t_scopes (cf_tree demo_config)) [2] = Some s" ..
  have "chain_fuel (cf_tree demo_config) = 3" by code_simp
  with is_descendant_total [OF demo_reachable s, of "[1]"] s show ?thesis by simp
qed



text \<open>
  What a tool scope inherits: it is created open under an open parent, in the parent's run, one level
  deeper, with the earlier of the two deadlines, and it is cancelled as soon as its parent is.
\<close>

theorem child_tool_inherits:
  assumes "scopes_ok t" "uuid \<notin> dkeys (t_scopes t)" "child_tool uuid sid call name d t = Inr u"
  shows "\<exists>p s. dget (t_scopes t) sid = Some p \<and> sc_state p = OPEN \<and> dget (t_scopes u) uuid = Some s
    \<and> sc_state s = OPEN \<and> ln_run (sc_lineage s) = ln_run (sc_lineage p)
    \<and> ln_parent (sc_lineage s) = Some sid \<and> ln_depth (sc_lineage s) = ln_depth (sc_lineage p) + 1
    \<and> ln_agent_depth (sc_lineage s) = ln_agent_depth (sc_lineage p)
    \<and> sc_deadline s = minimum_deadline (sc_deadline p) d
    \<and> chain (t_tokens u) (sc_token s) (sc_token p)"
proof -
  let ?t = "\<lambda>p. t\<lparr>t_tokens := t_tokens t @ [new_token (Some (sc_token p))]\<rparr>"
  from assms(3) obtain p v where p: "dget (t_scopes t) sid = Some p" "sc_state p = OPEN"
    and v: "new_scope uuid (ln_run (sc_lineage p)) (Some p) (ln_agent_depth (sc_lineage p)) (length (t_tokens t))
          (minimum_deadline (sc_deadline p) d) (Some call) None (?t p) = Inr v"
    and u: "u = upd_scope uuid (\<lambda>s. s\<lparr>sc_tool := name\<rparr>) v"
    by (auto simp: child_tool_def with_scope_def require_open_def alloc_token_def res_simps split: option.splits)
  have pid: "ln_scope (sc_lineage p) = sid" using scopes_okD(1) [OF assms(1) p(1)] .
  have k: "sid \<noteq> uuid" using p(1) assms(2) key_of_get by metis
  have un: "dget (t_scopes t) uuid = None" using assms(2) by (simp add: dget_None_iff)
  note E = new_scope_effect [OF v, where pid = sid]
  have sc: "t_scopes v = dset sid (p\<lparr>sc_children := sc_children p @ [uuid]\<rparr>) (t_scopes t) @
      [(uuid, make_scope \<lparr>ln_root = t_root_run t, ln_run = ln_run (sc_lineage p), ln_scope = uuid, ln_parent = Some sid,
          ln_depth = ln_depth (sc_lineage p) + 1, ln_agent_depth = ln_agent_depth (sc_lineage p), ln_call = Some call,
          ln_agent_tool = None\<rparr> (t_scope_next t) (length (t_tokens t)) (minimum_deadline (sc_deadline p) d))]"
    using E(1) assms(2) p(1) pid by simp
  have "t_tokens v = t_tokens t @ [new_token (Some (sc_token p))]"
    using arg_cong [OF E(2), of t_tokens] assms(2) p(1) pid by simp
  moreover have "sc_token p < length (t_tokens t)" using scopes_okD(3) [OF assms(1) p(1)] by (simp add: scope_ok_def)
  ultimately have "chain (t_tokens v) (length (t_tokens t)) (sc_token p)"
    by (intro chain_step [OF _ _ chain_refl]) (simp_all add: parent_of_def new_token_def)
  with p sc k un show ?thesis by (auto simp: u make_scope_def map_add_def)
qed

theorem child_tool_inherits_witness: "\<exists>s. dget (t_scopes demo_tree1) [2] = Some s \<and> sc_state s = OPEN"
proof -
  have "scopes_ok demo_tree0"
    using new_tree_ok [OF demo_new] by (simp add: demo_tokens)
  from child_tool_inherits [OF this demo_child] show ?thesis by auto
qed

section \<open>Budgets and the record log\<close>



text \<open>
  The record log is bounded and never loses records silently: it holds at most the configured number
  of records (one when that is zero), in strictly increasing sequence order, and either it is complete or
  its last record is the overflow marker, after which it never changes again.
\<close>

theorem record_log_bounded:
  assumes "reachable cx c"
  shows "length (t_records (cf_tree c)) \<le> max 1 (t_max_records (cf_tree c))
    \<and> sorted_wrt (\<lambda>a b. er_sequence a < er_sequence b) (t_records (cf_tree c))
    \<and> (t_complete (cf_tree c) \<or> t_records (cf_tree c) \<noteq> []
         \<and> er_error_code (last (t_records (cf_tree c))) = Some (ascii ''execution_record_overflow''))
    \<and> (\<not> t_complete (cf_tree c) \<longrightarrow> append_record r (cf_tree c) = cf_tree c)"
proof -
  from reachable_ok [OF assms] have "log_ok (cf_tree c)" by (simp add: reach_ok_def ledger_ok_def)
  then show ?thesis
    by (auto simp: log_ok_def is_overflow_def append_record_complete split: if_splits)
qed

theorem record_log_bounded_witness: "length (t_records (cf_tree demo_config)) \<le> 2"
proof -
  have "t_max_records (cf_tree demo_config) = 2" by code_simp
  moreover have "length (t_records (cf_tree demo_config)) \<le> max 1 (t_max_records (cf_tree demo_config))"
    using record_log_bounded [OF demo_reachable] by blast
  ultimately show ?thesis by simp
qed

section \<open>Contributions\<close>

text \<open>
  A contribution counts once. Offering a contribution again, after it was stored, changes nothing and
  raises nothing, even when the first offer raised in the middle of its effects; offering different
  content under a stored identity is refused and changes nothing.
\<close>

theorem contribute_once:
  assumes "dget (t_scopes t) (ci_scope (cb_id c)) = Some s" "sc_state s = OPEN \<or> sc_state s = CLOSING \<and> settlement"
    and "dget (t_contributions t) (cb_id c) = None" "contribution_ok c"
    and u_def: "u = fst (contribute cx settlement c t)"
  shows "contribute cx settlement c u = (u, None)
    \<and> (cb_id c' = cb_id c \<longrightarrow> \<not> contribution_eq c c' \<longrightarrow> (\<exists>e. contribute cx settlement c' u = (u, Some e)))"
proof -
  have 1: "dget (t_contributions u) (cb_id c) = Some c"
    unfolding u_def by (rule contribute_stores [OF assms(1-3)])
  have 2: "dget (t_scopes u) (ci_scope (cb_id c)) = Some s"
    using assms(1) core_fields(1) [OF core_contribute] by (simp add: u_def)
  from assms(2) have 3: "\<not> (sc_state s = FROZEN \<or> sc_state s = CLOSING \<and> \<not> settlement)" by auto
  from 1 2 3 contribution_eq_refl [OF assms(4)] show ?thesis by (auto simp: contribute_def)
qed

theorem contribute_once_witness: "contribute demo_codec False demo_contribution demo_tree2 = (demo_tree2, None)"
proof -
  have "map_option sc_state (dget (t_scopes demo_tree1) (ci_scope (cb_id demo_contribution))) = Some OPEN" by code_simp
  then obtain s where s: "dget (t_scopes demo_tree1) (ci_scope (cb_id demo_contribution)) = Some s" "sc_state s = OPEN"
    by (cases "dget (t_scopes demo_tree1) (ci_scope (cb_id demo_contribution))") auto
  have "Option.is_none (dget (t_contributions demo_tree1) (cb_id demo_contribution))" by code_simp
  then have n: "dget (t_contributions demo_tree1) (cb_id demo_contribution) = None" by (simp add: Option.is_none_def)
  have "contribution_ok demo_contribution" by (simp add: contribution_ok_def demo_contribution_def)
  from contribute_once [OF s(1) disjI1 [OF s(2)] n this refl]
  show ?thesis by (simp add: demo_tree2_def)
qed

text \<open>
  The usage of a closed scope is final: once a scope is frozen, no step of the run, of any other scope
  or of any close in flight, changes the usage reported for it.
\<close>

theorem frozen_usage_final:
  assumes "reachable cx c" "dget (t_scopes (cf_tree c)) sid = Some s" "sc_state s = FROZEN"
    and "(exec_step cx)\<^sup>*\<^sup>* c d"
  shows "usage_for_scope (cf_tree d) sid = usage_for_scope (cf_tree c) sid"
  using frozen_usages_steps [OF assms(4) reachable_ok [OF assms(1)] assms(2,3)]
  by (simp add: usage_for_scope_def)

theorem frozen_usage_final_witness:
  "usage_for_scope (cf_tree (demo_closed\<lparr>cf_tree := snd (accept_nested_tool (cf_tree demo_closed))\<rparr>)) [2]
     = usage_for_scope (cf_tree demo_closed) [2]"
proof -
  obtain p where p: "dget (t_scopes (cf_tree demo_closed)) [2] = Some p" "sc_state p = FROZEN"
    using demo_closed_frozen by (cases "dget (t_scopes (cf_tree demo_closed)) [2]") auto
  from frozen_usage_final [OF demo_closed_reachable p r_into_rtranclp [where r = "exec_step demo_codec", OF e_tree [OF s_accept]]] show ?thesis .
qed

text \<open>
  The two accounts of usage agree: the usage merged while contributions arrive is the usage the root
  scope computes from the stored contributions, and it is the counter-wise sum of all of them, unknown as
  soon as one of them is unknown.
\<close>

theorem usage_result_is_total:
  assumes "reachable cx c"
  shows "usage_result (cf_tree c) = usage_for_scope (cf_tree c) (t_root (cf_tree c))
    \<and> usage_result (cf_tree c) = usage_spec (all_usages (cf_tree c))"
proof -
  from reachable_ok [OF assms] have ok: "scopes_ok (cf_tree c)" "keyed_ok (cf_tree c)" "usage_ok (cf_tree c)"
    by (simp_all add: reach_ok_def ledger_ok_def)
  have "usage_result (cf_tree c) = usage_spec (all_usages (cf_tree c))"
    using ok(3) usage_fold_answer [of "all_usages (cf_tree c)"] usage_answer_result [of "cf_tree c"]
    by (simp add: usage_ok_def)
  then show ?thesis by (simp add: usage_for_scope_spec scope_usages_root [OF ok(1,2)])
qed

theorem usage_result_is_total_witness:
  "usage_for_scope (cf_tree demo_config) (t_root (cf_tree demo_config))
     = (Some (Usage (Some 3) None (Some 5)), Some True)"
proof -
  have "usage_result (cf_tree demo_config) = (Some (Usage (Some 3) None (Some 5)), Some True)" by code_simp
  with usage_result_is_total [OF demo_reachable] show ?thesis by simp
qed

text \<open>
  The merged usage does not depend on the order in which concurrent branches contribute.
\<close>

theorem usage_order_independent:
  assumes "mset us = mset vs"
  shows "usage_answer (fold scope_usage_step us (None, None)) = usage_answer (fold scope_usage_step vs (None, None))"
  using usage_spec_mset [OF assms] by (simp add: usage_fold_answer)

theorem usage_order_independent_witness:
  "usage_answer (fold scope_usage_step [KnownUsage (Usage (Some 1) None None), UnknownUsage] (None, None))
     = usage_answer (fold scope_usage_step [UnknownUsage, KnownUsage (Usage (Some 1) None None)] (None, None))"
  by (rule usage_order_independent) simp

section \<open>Effects\<close>

text \<open>
  The effects of a run are reported in one fixed order, whatever the order in which they arrived: by
  the creation sequence of their scope, then by their number in it; none is lost, and the root scope sees
  them all. Reporting raises only for an effect whose scope does not exist.
\<close>

theorem effects_in_order:
  assumes "reachable cx c" "effects_known (cf_tree c)"
  shows "\<exists>es. effects (cf_tree c) = Inr es \<and> effects_for_scope (cf_tree c) (t_root (cf_tree c)) = Inr es
    \<and> mset es = mset (map snd (t_effects (cf_tree c))) \<and> sorted (map (effect_rank (cf_tree c)) es)"
proof -
  from reachable_ok [OF assms(1)] have ok: "scopes_ok (cf_tree c)" "keyed_ok (cf_tree c)"
    by (simp_all add: reach_ok_def ledger_ok_def)
  from effects_sorted [OF ok(2) assms(2)] effects_root [OF ok assms(2)] show ?thesis by auto
qed

theorem effects_in_order_witness: "\<exists>es. effects (cf_tree demo_config) = Inr es"
proof -
  have "t_effects (cf_tree demo_config) = []" by code_simp
  then have "effects_known (cf_tree demo_config)" by (simp add: effects_known_def)
  from effects_in_order [OF demo_reachable this] show ?thesis by blast
qed

text \<open>
  Committing a model turn marks exactly the effects of the accepted calls: an effect is marked when the
  outermost call above its scope was accepted, however deep it was nested; the others and everything
  else in the tree stay as they are.
\<close>

theorem mark_tool_calls_exact:
  assumes "reachable cx c" "effects_known (cf_tree c)"
  shows "\<exists>u. mark_tool_calls_committed ids (cf_tree c) = Inr u \<and> core u = core (cf_tree c)
    \<and> (\<forall>i. dget (t_effects u) i = (if accepted_effect (cf_tree c) ids i
         then map_option (\<lambda>e. e\<lparr>ef_committed := True\<rparr>) (dget (t_effects (cf_tree c)) i)
         else dget (t_effects (cf_tree c)) i))"
proof -
  from reachable_ok [OF assms(1)] have "scopes_ok (cf_tree c)" "keyed_ok (cf_tree c)"
    by (simp_all add: reach_ok_def ledger_ok_def)
  from mark_tool_calls_value [OF this assms(2)] show ?thesis .
qed

theorem mark_tool_calls_exact_witness: "\<exists>u. mark_tool_calls_committed [[7]] (cf_tree demo_config) = Inr u"
proof -
  have "t_effects (cf_tree demo_config) = []" by code_simp
  then have "effects_known (cf_tree demo_config)" by (simp add: effects_known_def)
  from mark_tool_calls_exact [OF demo_reachable this] show ?thesis by blast
qed

section \<open>Cancellation\<close>

text \<open>
  Cancelling a token cancels exactly the tokens linked below it: those whose chain of parents passes
  through it, and no other.
\<close>

theorem cancel_reaches_exactly:
  "cancelled (cancel r org i h) j \<longleftrightarrow> cancelled h j \<or> chain h j i"
  by (rule cancelled_cancel)

end
