(* ===== verification/PatchText.thy ===== *)
theory PatchText
  imports Pytext Utf8
begin

text \<open>
  The text side of the \<open>apply_patch\<close> tool (\<open>roboagent/tool/apply_patch.py\<close>): the patch grammar, strict
  relative paths, added files, hunks, and the application of an update to the lines of a file. An error
  is the code of the \<open>ToolExecutionFailure\<close> that \<open>_fail\<close> raises.
\<close>

section \<open>The patch container\<close>

datatype operation = ADDED | MODIFIED | DELETED

record patch_section =
  ps_operation :: operation
  ps_path :: pystr
  ps_body :: "pystr list"

definition begin_marker :: pystr where
  "begin_marker = ascii ''*** Begin Patch''"

definition end_marker :: pystr where
  "end_marker = ascii ''*** End Patch''"

definition no_newline_marker :: pystr where
  "no_newline_marker = ascii (CHR 0x5C # '' No newline at end of file'')"

definition patch_headers :: "(pystr \<times> operation) list" where
  "patch_headers = [(ascii ''*** Add File: '', ADDED), (ascii ''*** Update File: '', MODIFIED),
                    (ascii ''*** Delete File: '', DELETED)]"

definition header_of :: "pystr \<Rightarrow> (pystr \<times> operation) option" where
  "header_of line = List.find (\<lambda>(prefix, op). starts_with prefix line) patch_headers"

definition validate_path :: "pystr \<Rightarrow> string + pystr" where
  "validate_path path =
     (if utf8_encode path = None then Inl ''invalid_path''
      else if path = [] \<or> starts_with [47] path \<or> starts_with [32] path \<or> starts_with [9] path
        \<or> ends_with [47] path \<or> ends_with [32] path \<or> ends_with [9] path
        \<or> has_pair 47 47 path \<or> 10 \<in> set path \<or> 0 \<in> set path
        \<or> list_ex (\<lambda>part. part \<in> {[], [46], [46, 46]}) (split_on 47 path)
      then Inl ''invalid_path''
      else Inr path)"

text \<open>The loop over the lines between the two markers.\<close>

function parse_sections :: "pystr list \<Rightarrow> string + patch_section list" where
  "parse_sections [] = Inr []"
| "parse_sections (header # rest) =
     (case header_of header of
        None \<Rightarrow> Inl ''invalid_patch''
      | Some (prefix, op) \<Rightarrow>
          bind_res (validate_path (drop (length prefix) header)) (\<lambda>path.
          bind_res (parse_sections (dropWhile (\<lambda>l. header_of l = None) rest)) (\<lambda>ss.
          Inr (\<lparr>ps_operation = op, ps_path = path, ps_body = takeWhile (\<lambda>l. header_of l = None) rest\<rparr> # ss))))"
  by pat_completeness auto
termination
  by (relation "measure length") (auto intro: le_imp_less_Suc length_dropWhile_le)

section \<open>Added files\<close>

fun add_line :: "pystr \<Rightarrow> (pystr \<times> bool) list \<Rightarrow> string + (pystr \<times> bool) list" where
  "add_line line values =
     (if line = no_newline_marker
      then if values = [] \<or> snd (last values) then Inl ''invalid_patch''
           else Inr (butlast values @ [(fst (last values), True)])
      else if starts_with [43] line then Inr (values @ [(tl line, False)])
      else Inl ''invalid_patch'')"

definition parse_add :: "pystr list \<Rightarrow> string + bytes" where
  "parse_add body =
     bind_res (fold_res add_line body []) (\<lambda>values.
       if list_ex snd (butlast values) then Inl ''invalid_patch''
       else case utf8_encode (concat (map (\<lambda>(text, no_newline). text @ (if no_newline then [] else [10])) values)) of
         None \<Rightarrow> Inl ''unsupported_binary_content''
       | Some data \<Rightarrow> Inr data)"

section \<open>Hunks\<close>

datatype line_kind = CONTEXT | PLUS | MINUS

record patch_line =
  pl_kind :: line_kind
  pl_text :: pystr
  pl_no_newline :: bool

definition kind_of :: "nat \<Rightarrow> line_kind option" where
  "kind_of c = (if c = 32 then Some CONTEXT else if c = 43 then Some PLUS else if c = 45 then Some MINUS else None)"

fun hunk_line :: "pystr \<Rightarrow> patch_line list list \<Rightarrow> string + patch_line list list" where
  "hunk_line line hunks =
     (if rstrip line = [64, 64] \<and> starts_with [64, 64] line then Inr (hunks @ [[]])
      else if line = no_newline_marker
      then if hunks = [] \<or> last hunks = [] \<or> pl_no_newline (last (last hunks)) then Inl ''invalid_patch''
           else Inr (butlast hunks @ [butlast (last hunks) @ [(last (last hunks))\<lparr>pl_no_newline := True\<rparr>]])
      else case line of
          [] \<Rightarrow> Inl ''invalid_patch''
        | c # text \<Rightarrow>
            (case kind_of c of
               None \<Rightarrow> Inl ''invalid_patch''
             | Some k \<Rightarrow>
                 if hunks = [] then Inl ''invalid_patch''
                 else Inr (butlast hunks @ [last hunks @ [\<lparr>pl_kind = k, pl_text = text, pl_no_newline = False\<rparr>]])))"

definition parse_hunks :: "pystr list \<Rightarrow> string + patch_line list list" where
  "parse_hunks body =
     bind_res (fold_res hunk_line body []) (\<lambda>hunks.
       if hunks = [] \<or> [] \<in> set hunks then Inl ''invalid_patch'' else Inr hunks)"

definition check_body :: "patch_section \<Rightarrow> string + unit" where
  "check_body s = (case ps_operation s of
       ADDED \<Rightarrow> bind_res (parse_add (ps_body s)) (\<lambda>_. Inr ())
     | DELETED \<Rightarrow> raise_if (ps_body s \<noteq> []) ''invalid_patch''
     | MODIFIED \<Rightarrow> bind_res (parse_hunks (ps_body s)) (\<lambda>_. Inr ()))"

definition parse_patch :: "pystr \<Rightarrow> string + patch_section list" where
  "parse_patch patch =
     (if 0 \<in> set patch then Inl ''unsupported_binary_content''
      else if 13 \<in> set (replace_crlf [] patch) then Inl ''invalid_patch''
      else
        let normalized = replace_crlf [10] patch in
        if \<not> (ends_with end_marker normalized \<or> ends_with (end_marker @ [10]) normalized) then Inl ''invalid_patch''
        else
          let text = (if ends_with (end_marker @ [10]) normalized then butlast normalized else normalized);
              lines = split_on 10 text
          in if hd lines \<noteq> begin_marker \<or> last lines \<noteq> end_marker then Inl ''invalid_patch''
             else
               bind_res (parse_sections (butlast (tl lines))) (\<lambda>ss.
               if ss = [] then Inl ''invalid_patch''
               else if \<not> distinct (map ps_path ss) then Inl ''duplicate_patch_target''
               else bind_res (fold_res (\<lambda>s _. check_body s) ss ()) (\<lambda>_. Inr ss)))"

section \<open>Files as lines\<close>

text \<open>The separators of \<open>str.splitlines\<close>.\<close>

definition line_break :: "nat \<Rightarrow> bool" where
  "line_break c \<longleftrightarrow> (10 \<le> c \<and> c \<le> 13) \<or> (28 \<le> c \<and> c \<le> 30) \<or> c = 133 \<or> c = 8232 \<or> c = 8233"

fun split_lines :: "pystr \<Rightarrow> pystr list" where
  "split_lines [] = []"
| "split_lines (c # s) =
     (if c = 13 \<and> starts_with [10] s then [13, 10] # split_lines (tl s)
      else if line_break c then [c] # split_lines s
      else case split_lines s of [] \<Rightarrow> [[c]] | l # ls \<Rightarrow> (c # l) # ls)"

type_synonym file_line = "pystr \<times> pystr"

definition file_line_of :: "pystr \<Rightarrow> file_line" where
  "file_line_of line =
     (if ends_with [13, 10] line then (take (length line - 2) line, [13, 10])
      else if ends_with [10] line then (butlast line, [10])
      else (line, []))"

definition file_lines :: "pystr \<Rightarrow> file_line list" where
  "file_lines text = map file_line_of (split_lines text)"

definition dominant_newline :: "file_line list \<Rightarrow> pystr" where
  "dominant_newline lines =
     (let endings = filter (\<lambda>e. e \<noteq> []) (map snd lines);
          lf = count_list endings [10]; crlf = count_list endings [13, 10]
      in if lf > crlf then [10] else if crlf > lf then [13, 10]
         else (case endings of [] \<Rightarrow> [10] | e # _ \<Rightarrow> e))"

section \<open>Applying an update\<close>

definition line_matches :: "patch_line \<Rightarrow> file_line \<Rightarrow> bool" where
  "line_matches expected l \<longleftrightarrow> fst l = pl_text expected
     \<and> (if pl_no_newline expected then snd l = [] else snd l \<noteq> [])"

definition old_side :: "patch_line list \<Rightarrow> patch_line list" where
  "old_side hunk = filter (\<lambda>l. pl_kind l \<in> {CONTEXT, MINUS}) hunk"

definition matches_at :: "patch_line list \<Rightarrow> file_line list \<Rightarrow> nat \<Rightarrow> bool" where
  "matches_at old lines start \<longleftrightarrow> list_all2 line_matches old (take (length old) (drop start lines))"

definition hunk_matches :: "patch_line list \<Rightarrow> file_line list \<Rightarrow> nat list" where
  "hunk_matches old lines = filter (matches_at old lines) [0..<length lines + 1 - length old]"

fun replacement :: "pystr \<Rightarrow> patch_line list \<Rightarrow> file_line list \<Rightarrow> file_line list" where
  "replacement newline [] source = []"
| "replacement newline (l # hunk) source =
     (case pl_kind l of
        CONTEXT \<Rightarrow> hd source # replacement newline hunk (tl source)
      | MINUS \<Rightarrow> replacement newline hunk (tl source)
      | PLUS \<Rightarrow> (pl_text l, if pl_no_newline l then [] else newline) # replacement newline hunk source)"

definition apply_hunk :: "pystr \<Rightarrow> patch_line list \<Rightarrow> file_line list \<Rightarrow> string + file_line list" where
  "apply_hunk newline hunk lines =
     (case hunk_matches (old_side hunk) lines of
        [start] \<Rightarrow> Inr (take start lines @ replacement newline hunk (drop start lines)
                      @ drop (start + length (old_side hunk)) lines)
      | _ \<Rightarrow> Inl ''patch_conflict'')"

definition join_lines :: "file_line list \<Rightarrow> pystr" where
  "join_lines lines = concat (map (\<lambda>(text, ending). text @ ending) lines)"

text \<open>The two errors are Python's own: the caller has checked that the data decodes and the patch encodes.\<close>

definition apply_update :: "bytes \<Rightarrow> pystr list \<Rightarrow> string + bytes" where
  "apply_update before body =
     (case utf8_decode before of
        None \<Rightarrow> Inl ''UnicodeDecodeError''
      | Some text \<Rightarrow>
          let lines = file_lines text; newline = dominant_newline lines in
          bind_res (parse_hunks body) (\<lambda>hunks.
          bind_res (fold_res (apply_hunk newline) hunks lines) (\<lambda>result.
          case utf8_encode (join_lines result) of None \<Rightarrow> Inl ''UnicodeEncodeError'' | Some data \<Rightarrow> Inr data)))"

definition validate_text :: "bytes \<Rightarrow> string + unit" where
  "validate_text data =
     raise_if (starts_with [239, 187, 191] data \<or> 0 \<in> set data \<or> utf8_decode data = None) ''unsupported_binary_content''"

section \<open>Laws of lines\<close>

lemma concat_split_lines: "concat (split_lines s) = s"
proof (induction s rule: split_lines.induct)
  case (2 c s)
  show ?case
  proof (cases "c = 13 \<and> starts_with [10] s")
    case True
    then obtain r where "s = 10 # r" by (auto simp: starts_with_iff)
    with True 2 show ?thesis by simp
  next
    case False
    with 2 show ?thesis by (auto split: list.splits)
  qed
qed simp

lemma file_line_of_join: "fst (file_line_of line) @ snd (file_line_of line) = line"
  by (auto simp: file_line_of_def ends_with_iff)

lemma join_file_lines: "join_lines (file_lines text) = text"
proof -
  have "(\<lambda>(text, ending). text @ ending) (file_line_of line) = line" for line
    using file_line_of_join [of line] by (simp add: case_prod_beta)
  then have "join_lines (file_lines text) = concat (split_lines text)"
    by (simp add: join_lines_def file_lines_def comp_def)
  then show ?thesis by (simp add: concat_split_lines)
qed

section \<open>Laws of hunks\<close>

lemma hunk_matches_iff:
  "start \<in> set (hunk_matches old lines) \<longleftrightarrow>
     start + length old \<le> length lines \<and> list_all2 line_matches old (take (length old) (drop start lines))"
  by (auto simp: hunk_matches_def matches_at_def)

text \<open>An applied hunk replaces the one place where its old side matches, and nothing else.\<close>

lemma apply_hunk_split:
  assumes "apply_hunk newline hunk lines = Inr result"
  shows "\<exists>pre mid post. lines = pre @ mid @ post \<and> list_all2 line_matches (old_side hunk) mid
     \<and> result = pre @ replacement newline hunk mid @ post
     \<and> (\<forall>pre' mid' post'. lines = pre' @ mid' @ post' \<longrightarrow> list_all2 line_matches (old_side hunk) mid' \<longrightarrow> pre' = pre)"
proof -
  let ?old = "old_side hunk"
  have rep: "replacement newline h (mid @ post) = replacement newline h mid"
    if "length (old_side h) = length mid" for h mid post
    using that
  proof (induction h arbitrary: mid)
    case (Cons l h)
    then show ?case
    proof (cases "pl_kind l")
      case PLUS
      with Cons.prems have "length (old_side h) = length mid" by (simp add: old_side_def)
      from Cons.IH [OF this] PLUS show ?thesis by simp
    qed (cases mid; simp add: old_side_def)+
  qed simp
  from assms obtain start where m: "hunk_matches ?old lines = [start]"
    and r: "result = take start lines @ replacement newline hunk (drop start lines) @ drop (start + length ?old) lines"
    by (auto simp: apply_hunk_def split: list.splits)
  define pre mid post where d: "pre = take start lines" "mid = take (length ?old) (drop start lines)"
    "post = drop (start + length ?old) lines"
  have s: "start + length ?old \<le> length lines" "list_all2 line_matches ?old mid"
    using hunk_matches_iff [of start ?old lines] m by (simp_all add: d)
  have "mid @ drop (length ?old) (drop start lines) = drop start lines" unfolding d by (rule append_take_drop_id)
  then have dr: "drop start lines = mid @ post" unfolding d by (simp add: add.commute)
  have l: "lines = pre @ mid @ post" using append_take_drop_id [of start lines] by (simp add: d(1) flip: dr)
  from s have "length ?old = length mid" by (simp add: list_all2_lengthD)
  from r rep [OF this, of post] have "result = pre @ replacement newline hunk mid @ post"
    unfolding dr d(1,3) [symmetric] by simp
  moreover have "pre' = pre" if h: "lines = pre' @ mid' @ post'" "list_all2 line_matches ?old mid'" for pre' mid' post'
  proof -
    have "length ?old = length mid'" using h(2) by (rule list_all2_lengthD)
    with h have "length pre' \<in> set (hunk_matches ?old lines)" by (simp add: hunk_matches_iff)
    with m have "length pre' = start" by simp
    with h(1) show ?thesis by (simp add: d(1))
  qed
  ultimately show ?thesis using l s(2) by blast
qed

end
