(* ===== verification/PatchLaws.thy ===== *)
theory PatchLaws
  imports PatchText
begin

text \<open>
  What the text side of \<open>apply_patch\<close> promises: parsed patches are well formed and confined, printing and
  parsing are inverse, and an update is exactly the sequence of its unambiguous replacements.
\<close>

section \<open>Paths\<close>

definition part_ok :: "pystr \<Rightarrow> bool" where
  "part_ok part \<longleftrightarrow> part \<noteq> [] \<and> part \<noteq> [46] \<and> part \<noteq> [46, 46] \<and> 47 \<notin> set part \<and> 0 \<notin> set part"

lemma validate_path_same: "validate_path p = Inr q \<Longrightarrow> q = p"
  by (auto simp: validate_path_def split: if_splits)

lemma set_split_on: "part \<in> set (split_on sep s) \<Longrightarrow> set part \<subseteq> set s"
proof (induction s arbitrary: part)
  case (Cons c s)
  then show ?case by (fastforce split: if_splits list.splits)
qed simp

lemma validate_path_parts:
  assumes "validate_path p = Inr q" "part \<in> set (split_on 47 p)"
  shows "part_ok part"
proof -
  from assms(1) have "0 \<notin> set p" "\<forall>part \<in> set (split_on 47 p). part \<notin> {[], [46], [46, 46]}"
    by (auto simp: validate_path_def list_ex_iff split: if_splits)
  with assms(2) set_split_on [OF assms(2)] split_on_no_sep [OF assms(2)] show ?thesis
    unfolding part_ok_def by blast
qed

section \<open>Parsed patches\<close>

definition section_ok :: "patch_section \<Rightarrow> bool" where
  "section_ok s \<longleftrightarrow> validate_path (ps_path s) = Inr (ps_path s) \<and> check_body s = Inr ()
     \<and> (\<forall>l \<in> set (ps_body s). header_of l = None)"

lemma parse_sections_ok:
  "parse_sections lines = Inr ss \<Longrightarrow>
     \<forall>s \<in> set ss. validate_path (ps_path s) = Inr (ps_path s) \<and> (\<forall>l \<in> set (ps_body s). header_of l = None)"
proof (induction lines arbitrary: ss rule: parse_sections.induct)
  case (2 header rest)
  from "2.prems" obtain prefix op path ss' where
    h: "header_of header = Some (prefix, op)" "validate_path (drop (length prefix) header) = Inr path"
    "parse_sections (dropWhile (\<lambda>l. header_of l = None) rest) = Inr ss'"
    "ss = \<lparr>ps_operation = op, ps_path = path, ps_body = takeWhile (\<lambda>l. header_of l = None) rest\<rparr> # ss'"
    by (auto simp: res_simps split: option.splits)
  from "2.IH" [OF h(1) refl h(3)] h(2,4) validate_path_same [OF h(2)] show ?case
    by (auto dest: set_takeWhileD)
qed simp

lemma check_bodies:
  "fold_res (\<lambda>s _. check_body s) ss () = Inr u \<longleftrightarrow> (\<forall>s \<in> set ss. check_body s = Inr ())"
  by (induction ss) (auto simp: res_simps)

lemma parse_patch_ok:
  assumes "parse_patch patch = Inr ss"
  shows "ss \<noteq> [] \<and> distinct (map ps_path ss) \<and> (\<forall>s \<in> set ss. section_ok s)"
  using assms
  by (auto simp: parse_patch_def Let_def res_simps check_bodies section_ok_def split: if_splits
      dest!: parse_sections_ok)

section \<open>Printing\<close>

definition header_text :: "operation \<Rightarrow> pystr" where
  "header_text op = (case op of ADDED \<Rightarrow> ascii ''*** Add File: '' | MODIFIED \<Rightarrow> ascii ''*** Update File: ''
     | DELETED \<Rightarrow> ascii ''*** Delete File: '')"

definition section_lines :: "patch_section \<Rightarrow> pystr list" where
  "section_lines s = (header_text (ps_operation s) @ ps_path s) # ps_body s"

definition render_patch :: "patch_section list \<Rightarrow> pystr" where
  "render_patch ss = join_with [10] (begin_marker # concat (map section_lines ss) @ [end_marker])"

text \<open>Sections that can be printed: their text is one line per line, without carriage returns or NUL.\<close>

definition printable :: "patch_section \<Rightarrow> bool" where
  "printable s \<longleftrightarrow> section_ok s \<and> (\<forall>l \<in> set (ps_path s # ps_body s). 10 \<notin> set l \<and> 13 \<notin> set l \<and> 0 \<notin> set l)"

lemma header_of_text: "header_of (header_text op @ path) = Some (header_text op, op)"
  by (cases op) (simp_all add: header_of_def patch_headers_def header_text_def ascii_def)

lemma split_join:
  "fs \<noteq> [] \<Longrightarrow> (\<And>f. f \<in> set fs \<Longrightarrow> sep \<notin> set f) \<Longrightarrow> split_on sep (join_with [sep] fs) = fs"
proof (induction fs rule: induct_list012)
  case (3 x y zs)
  then have "split_on sep (join_with [sep] (y # zs)) = y # zs" "sep \<notin> set x" by auto
  then show ?case using split_on_append [of sep x "join_with [sep] (y # zs)"] by simp
qed (simp_all add: split_on_single)

lemma set_join: "set (join_with sep fs) \<subseteq> set sep \<union> \<Union> (set ` set fs)"
  by (induction sep fs rule: join_with.induct) auto

lemma replace_crlf_none: "13 \<notin> set s \<Longrightarrow> replace_crlf new s = s"
  by (induction new s rule: replace_crlf.induct) auto

lemma parse_section_lines:
  "\<forall>s \<in> set ss. section_ok s \<Longrightarrow> parse_sections (concat (map section_lines ss)) = Inr ss"
proof (induction ss)
  case (Cons s ss)
  have body: "\<forall>l \<in> set (ps_body s). header_of l = None" using Cons.prems by (simp add: section_ok_def)
  let ?none = "\<lambda>l. header_of l = None"
  have tw: "takeWhile ?none (ps_body s @ concat (map section_lines ss)) = ps_body s"
    using body by (cases ss) (simp_all add: section_lines_def header_of_text)
  have dw: "dropWhile ?none (ps_body s @ concat (map section_lines ss)) = concat (map section_lines ss)"
    using body by (cases ss) (simp_all add: section_lines_def header_of_text)
  from Cons have "parse_sections (concat (map section_lines ss)) = Inr ss" "validate_path (ps_path s) = Inr (ps_path s)"
    by (simp_all add: section_ok_def)
  then show ?case by (simp add: section_lines_def [of s] header_of_text tw dw)
qed simp

lemma parse_render:
  assumes "ss \<noteq> []" "distinct (map ps_path ss)" "\<forall>s \<in> set ss. printable s"
  shows "parse_patch (render_patch ss) = Inr ss"
proof -
  let ?lines = "begin_marker # concat (map section_lines ss) @ [end_marker]" and ?text = "render_patch ss"
  have ok: "\<forall>s \<in> set ss. section_ok s" using assms(3) by (simp add: printable_def)
  have hd: "10 \<notin> set (header_text op) \<and> 13 \<notin> set (header_text op) \<and> 0 \<notin> set (header_text op)" for op
    by (cases op) (simp_all add: header_text_def ascii_def)
  have mk: "10 \<notin> set m \<and> 13 \<notin> set m \<and> 0 \<notin> set m" if "m \<in> {begin_marker, end_marker}" for m
    using that by (auto simp: begin_marker_def end_marker_def ascii_def)
  have clean: "10 \<notin> set l \<and> 13 \<notin> set l \<and> 0 \<notin> set l" if "l \<in> set ?lines" for l
    using that mk hd assms(3) by (auto simp: printable_def section_lines_def)
  then have sp: "split_on 10 ?text = ?lines" unfolding render_patch_def by (intro split_join) auto
  have tx: "set ?text \<subseteq> set [10] \<union> \<Union> (set ` set ?lines)" unfolding render_patch_def by (rule set_join)
  have "13 \<notin> \<Union> (set ` set ?lines)" "0 \<notin> \<Union> (set ` set ?lines)" using clean by blast+
  with tx have no: "13 \<notin> set ?text" "0 \<notin> set ?text" by auto
  have "join_with [10] (xs @ [y]) = (if xs = [] then y else join_with [10] xs @ 10 # y)" for xs :: "pystr list" and y
    by (induction xs rule: induct_list012) auto
  from this [of "begin_marker # concat (map section_lines ss)" end_marker]
  obtain r where r: "?text = r @ end_marker" by (auto simp: render_patch_def)
  have e: "ends_with end_marker ?text" using r by (auto simp: ends_with_iff)
  have ne: "\<not> ends_with (end_marker @ [10]) ?text"
  proof
    assume "ends_with (end_marker @ [10]) ?text"
    then obtain q where "?text = (q @ end_marker) @ [10]" by (auto simp: ends_with_iff)
    then have "last ?text = 10" by simp
    moreover have "last ?text = last end_marker" "last end_marker \<noteq> 10"
      using r by (simp_all add: end_marker_def ascii_def)
    ultimately show False by simp
  qed
  have "fold_res (\<lambda>s _. check_body s) ss () = Inr ()" using ok by (simp add: check_bodies section_ok_def)
  with e ne no sp assms(1,2) parse_section_lines [OF ok] show ?thesis
    by (simp add: parse_patch_def replace_crlf_none Let_def butlast_append)
qed

section \<open>Updates\<close>

text \<open>
  The specification of an update: hunk after hunk, the single place where the old side matches is
  replaced. Context lines come from the file, so they keep their line ending.
\<close>

inductive patched :: "pystr \<Rightarrow> patch_line list list \<Rightarrow> file_line list \<Rightarrow> file_line list \<Rightarrow> bool" for newline where
  patched_done: "patched newline [] lines lines"
| patched_hunk: "list_all2 line_matches (old_side h) mid \<Longrightarrow>
    (\<forall>pre' mid' post'. pre @ mid @ post = pre' @ mid' @ post' \<longrightarrow> list_all2 line_matches (old_side h) mid' \<longrightarrow> pre' = pre) \<Longrightarrow>
    patched newline hs (pre @ replacement newline h mid @ post) result \<Longrightarrow>
    patched newline (h # hs) (pre @ mid @ post) result"

inductive_cases patched_elim: "patched newline (h # hs) lines result"
inductive_simps patched_Nil: "patched newline [] lines result"

lemma replacement_append:
  "length (old_side h) = length mid \<Longrightarrow> replacement newline h (mid @ post) = replacement newline h mid"
proof (induction h arbitrary: mid)
  case (Cons l h)
  then show ?case
  proof (cases "pl_kind l")
    case PLUS
    with Cons.prems have "length (old_side h) = length mid" by (simp add: old_side_def)
    from Cons.IH [OF this] PLUS show ?thesis by simp
  qed (cases mid; simp add: old_side_def)+
qed simp

lemma singleton_list: "distinct xs \<Longrightarrow> a \<in> set xs \<Longrightarrow> (\<And>s. s \<in> set xs \<Longrightarrow> s = a) \<Longrightarrow> xs = [a]"
proof (cases xs)
  case (Cons x ys)
  assume d: "distinct xs" and a: "\<And>s. s \<in> set xs \<Longrightarrow> s = a"
  from a Cons have "x = a" by simp
  moreover have "y = a" if "y \<in> set ys" for y using a [of y] that Cons by simp
  ultimately have "ys = []" using d Cons by (cases ys) auto
  with Cons \<open>x = a\<close> show ?thesis by simp
qed simp

lemma apply_hunk_unique:
  assumes m: "list_all2 line_matches (old_side h) mid"
    and u: "\<forall>pre' mid' post'. pre @ mid @ post = pre' @ mid' @ post' \<longrightarrow>
      list_all2 line_matches (old_side h) mid' \<longrightarrow> pre' = pre"
  shows "apply_hunk newline h (pre @ mid @ post) = Inr (pre @ replacement newline h mid @ post)"
proof -
  let ?old = "old_side h" and ?lines = "pre @ mid @ post"
  have len: "length ?old = length mid" using m by (rule list_all2_lengthD)
  have "length pre \<in> set (hunk_matches ?old ?lines)" using m len by (simp add: hunk_matches_iff)
  moreover have "s = length pre" if "s \<in> set (hunk_matches ?old ?lines)" for s
  proof -
    from that have s: "s + length ?old \<le> length ?lines" "list_all2 line_matches ?old (take (length ?old) (drop s ?lines))"
      by (simp_all add: hunk_matches_iff)
    have "?lines = take s ?lines @ take (length ?old) (drop s ?lines) @ drop (length ?old) (drop s ?lines)"
      by (simp only: append_take_drop_id)
    with u s(2) have "take s ?lines = pre" by blast
    then have "length (take s ?lines) = length pre" by (rule arg_cong)
    moreover from s(1) have "s \<le> length ?lines" by (rule add_leD1)
    then have "length (take s ?lines) = s" by (simp only: length_take min.absorb2)
    ultimately show ?thesis by (simp only:)
  qed
  moreover have "distinct (hunk_matches ?old ?lines)" by (simp add: hunk_matches_def)
  ultimately have "hunk_matches ?old ?lines = [length pre]"
    by (rule singleton_list [rotated])
  then show ?thesis using len replacement_append [OF len] by (simp add: apply_hunk_def)
qed

lemma patched_iff: "fold_res (apply_hunk newline) hs lines = Inr result \<longleftrightarrow> patched newline hs lines result"
proof
  show "fold_res (apply_hunk newline) hs lines = Inr result \<Longrightarrow> patched newline hs lines result"
  proof (induction hs arbitrary: lines)
    case (Cons h hs)
    then obtain mid where m: "apply_hunk newline h lines = Inr mid" "fold_res (apply_hunk newline) hs mid = Inr result"
      by (auto simp: res_simps)
    from apply_hunk_split [OF m(1)] obtain a b c where s: "lines = a @ b @ c" "list_all2 line_matches (old_side h) b"
      "mid = a @ replacement newline h b @ c" "\<forall>pre' mid' post'. lines = pre' @ mid' @ post' \<longrightarrow>
        list_all2 line_matches (old_side h) mid' \<longrightarrow> pre' = a" by (elim exE conjE) (rule that)
    from Cons.IH [OF m(2)] have "patched newline hs (a @ replacement newline h b @ c) result" unfolding s(3) .
    with s(4) show ?case unfolding s(1) by (intro patched_hunk [OF s(2)])
  qed (simp add: patched_done)
  show "patched newline hs lines result \<Longrightarrow> fold_res (apply_hunk newline) hs lines = Inr result"
    by (induction rule: patched.induct) (simp_all add: apply_hunk_unique)
qed

end
