(* ===== verification/DataProps.thy ===== *)
theory DataProps
  imports ToolTypes PatchLaws
begin

text \<open>
  Properties of the data the program exchanges: frozen JSON values, transcripts, effect records, the
  tool registry, and the text of patches.
\<close>

section \<open>Values in another key order\<close>

text \<open>\<open>reordered\<close>: the same value with the members of its objects in another order, at any depth.\<close>

inductive reordered :: "json \<Rightarrow> json \<Rightarrow> bool" where
  reordered_refl: "reordered j j"
| reordered_array: "list_all2 reordered vs ws \<Longrightarrow> reordered (JArr vs) (JArr ws)"
| reordered_object: "distinct (map fst xs) \<Longrightarrow> list_all2 (\<lambda>p q. fst p = fst q \<and> reordered (snd p) (snd q)) xs zs \<Longrightarrow>
    mset ys = mset zs \<Longrightarrow> reordered (JObj xs) (JObj ys)"

lemma dumps_reordered: "reordered x y \<Longrightarrow> dumps frepr True x = dumps frepr True y"
proof (induction rule: reordered.induct)
  case (reordered_array vs ws)
  then have "map (dumps frepr True) vs = map (dumps frepr True) ws"
    by (auto simp: list_all2_conv_all_nth intro!: nth_equalityI)
  then show ?case by simp
next
  case (reordered_object xs zs ys)
  then have keys: "map fst xs = map fst zs"
    and vals: "map (\<lambda>(k, v). (k, dumps frepr True v)) xs = map (\<lambda>(k, v). (k, dumps frepr True v)) zs"
    by (auto simp: list_all2_conv_all_nth case_prod_unfold intro!: nth_equalityI)
  have "dumps frepr True (JObj xs) = dumps frepr True (JObj zs)" by (simp only: dumps.simps vals)
  also have "\<dots> = dumps frepr True (JObj ys)"
    using dumps_sorted_reorder [of zs ys frepr] reordered_object keys by simp
  finally show ?case .
qed simp

text \<open>
  The canonical digest does not depend on the order in which the keys of an object were written, at
  any depth of the value.
\<close>

theorem digest_ignores_key_order:
  assumes "reordered x y"
  shows "canonical_json_digest frepr sha x = canonical_json_digest frepr sha y"
  using dumps_reordered [OF assms, of frepr] by (simp add: canonical_json_digest_def)

theorem digest_ignores_key_order_witness:
  "canonical_json_digest (\<lambda>_. [48]) (\<lambda>x. x) (JObj [([97], JNull), ([98], JArr [])])
    = canonical_json_digest (\<lambda>_. [48]) (\<lambda>x. x) (JObj [([98], JArr []), ([97], JNull)])"
  by (rule digest_ignores_key_order, rule reordered_object [where zs = "[([97], JNull), ([98], JArr [])]"])
    (simp_all add: reordered_refl)

text \<open>
  Freezing what \<open>thaw_json\<close> returns gives back the frozen value, and whatever \<open>freeze_json\<close>
  returns is such a value: every object in it, at any depth, has distinct keys.
\<close>

theorem freeze_thaw_roundtrip:
  assumes "pyval_ok v" "freeze_json v = Inr j"
  shows "json_ok j \<and> freeze_json (thaw_json j) = Inr j \<and> json_eq j j"
  using freeze_ok(1) [OF assms(2,1)] freeze_thaw_json json_eq_refl by blast

theorem freeze_thaw_roundtrip_witness:
  "json_ok (JObj [([97], JArr [JInt 3])]) \<and> freeze_json (thaw_json (JObj [([97], JArr [JInt 3])])) = Inr (JObj [([97], JArr [JInt 3])])"
  using freeze_thaw_roundtrip [of "PMap [(PStr [97], PSeq [PInt 3])]" "JObj [([97], JArr [JInt 3])]"]
  by (simp add: res_simps)

section \<open>Transcripts\<close>

text \<open>
  C11. \<open>TranscriptValidator.validate\<close> accepts a complete transcript exactly when it is a sequence of
  messages each followed by one result per tool call it makes, in the order of the calls and with the
  same names, no result standing alone, and every message's content within the media limits.
\<close>

theorem validate_accepts_exactly: "validate limits True ms = Inr () \<longleftrightarrow> blocks ms \<and> list_all (content_ok limits) ms"
  unfolding validate_iff transcript_ok_def ..

text \<open>
  Validation composes: after a transcript that is complete on its own, whatever follows is judged as
  it would be alone, error and all.
\<close>

theorem validate_is_incremental:
  assumes "validate limits True xs = Inr ()"
  shows "validate limits whole (xs @ ys) = validate limits whole ys"
  using assms by (rule validate_append)

theorem validate_is_incremental_witness:
  "validate default_media_limits True ([UserMessage [] 0 [1]] @ [UserMessage [] 1 [2]]) = validate default_media_limits True [UserMessage [] 1 [2]]"
  by (rule validate_is_incremental) (simp add: validate_single_user content_ok_def normalize_content_def default_media_limits_def)

section \<open>Effects and the registry\<close>




text \<open>
  A snapshot of a registry holds the same tools under the same names, unsealed; registering a tool
  changes the answer for its own name only; and a sealed registry refuses every registration.
\<close>

theorem registry_laws:
  assumes "make_registry tools = Inr r"
  shows "registry_snapshot r = Inr (r\<lparr>rg_sealed := False\<rparr>)
    \<and> (\<forall>t b r'. register t b r = Inr r' \<longrightarrow>
         registry_get r' n = (if n = td_name (tl_definition t) then Some t else registry_get r n))
    \<and> register t b (registry_seal r) = Inl ''ToolRegistry snapshot is immutable.''"
proof -
  have "fold_res (\<lambda>t. register t False) tools r0 = Inr r \<Longrightarrow> registry_ok r0 \<Longrightarrow> registry_ok r" for r0
  proof (induction tools arbitrary: r0)
    case (Cons t tools)
    then obtain r1 where "register t False r0 = Inr r1" "fold_res (\<lambda>t. register t False) tools r1 = Inr r"
      by (auto simp: res_simps)
    with Cons.IH [of r1] register_ok [OF Cons.prems(2)] show ?case by blast
  qed simp
  from this [OF assms [unfolded make_registry_def]] have "registry_ok r"
    by (simp add: registry_ok_def empty_registry_def dict_ok_def)
  then have "registry_snapshot r = Inr (r\<lparr>rg_sealed := False\<rparr>)" by (rule registry_snapshot_eq)
  moreover have "register t b (registry_seal r) = Inl ''ToolRegistry snapshot is immutable.''"
    by (simp add: register_def registry_seal_def)
  ultimately show ?thesis using register_get by blast
qed

theorem registry_laws_witness:
  "\<exists>r. make_registry [] = Inr r \<and> registry_snapshot r = Inr (r\<lparr>rg_sealed := False\<rparr>)"
proof -
  have "make_registry [] = Inr empty_registry" by (simp add: make_registry_def)
  with registry_laws [OF this] show ?thesis by blast
qed

section \<open>Patch text\<close>

text \<open>
  C9. Every path a parsed patch names stays below the workspace root: it splits into parts none of which
  is empty, \<open>.\<close> or \<open>..\<close> and none of which holds a separator or a null character; no path occurs
  twice, there is at least one section, and every body has the form its operation needs.
\<close>

theorem parsed_paths_confined:
  assumes "parse_patch patch = Inr sections"
  shows "sections \<noteq> [] \<and> distinct (map ps_path sections)
    \<and> (\<forall>s \<in> set sections. check_body s = Inr () \<and> (\<forall>part \<in> set (split_on 47 (ps_path s)). part_ok part))"
  using parse_patch_ok [OF assms] validate_path_parts by (auto simp: section_ok_def)

theorem parsed_paths_confined_witness:
  "\<exists>s. parse_patch (render_patch [\<lparr>ps_operation = DELETED, ps_path = [97, 47, 98], ps_body = []\<rparr>]) = Inr [s]
     \<and> (\<forall>part \<in> set (split_on 47 (ps_path s)). part_ok part)"
proof -
  let ?s = "\<lparr>ps_operation = DELETED, ps_path = [97, 47, 98], ps_body = []\<rparr>"
  have p: "parse_patch (render_patch [?s]) = Inr [?s]" by code_simp
  from parsed_paths_confined [OF p] have "\<forall>part \<in> set (split_on 47 (ps_path ?s)). part_ok part" by simp
  with p show ?thesis by blast
qed

text \<open>
  C10. Parsing the text of any sections with distinct paths and well-formed bodies gives back exactly those
  sections.
\<close>

theorem patch_text_roundtrip:
  assumes "sections \<noteq> []" "distinct (map ps_path sections)" "\<forall>s \<in> set sections. printable s"
  shows "parse_patch (render_patch sections) = Inr sections"
  using assms by (rule parse_render)

theorem patch_text_roundtrip_witness:
  "parse_patch (render_patch [\<lparr>ps_operation = ADDED, ps_path = [97], ps_body = [[43, 120]]\<rparr>])
     = Inr [\<lparr>ps_operation = ADDED, ps_path = [97], ps_body = [[43, 120]]\<rparr>]"
proof (rule patch_text_roundtrip)
  show "\<forall>s \<in> set [\<lparr>ps_operation = ADDED, ps_path = [97], ps_body = [[43, 120]]\<rparr>]. printable s" by code_simp
qed simp_all


end
