(* ===== verification/PatchFs.thy ===== *)
theory PatchFs
  imports PatchLaws
begin

text \<open>
  The file system under \<open>apply_patch\<close>: names under the workspace root, inodes shared by hard links, and
  the POSIX calls the tool makes. Every call first consults a list of faults, so that any call may
  raise \<open>OSError\<close> without effect; a list that is used up injects no more. Nothing else writes to the
  files while the tool runs.
\<close>

type_synonym path = "pystr list"

datatype link_target = Dangling | To_file nat | To_other

datatype node = Dir | File nat | Symlink link_target | Special

record inode =
  in_data :: bytes
  in_mode :: nat

record fs =
  fs_nodes :: "path \<Rightarrow> node option"
  fs_inodes :: "nat \<Rightarrow> inode option"
  fs_next :: nat
  fs_faults :: "bool list"

section \<open>Reading\<close>

definition is_symlink :: "fs \<Rightarrow> path \<Rightarrow> bool" where
  "is_symlink f p = (case fs_nodes f p of Some (Symlink _) \<Rightarrow> True | _ \<Rightarrow> False)"

definition path_exists :: "fs \<Rightarrow> path \<Rightarrow> bool" where
  "path_exists f p = (case fs_nodes f p of None \<Rightarrow> False | Some (Symlink l) \<Rightarrow> l \<noteq> Dangling | Some _ \<Rightarrow> True)"

definition is_dir :: "fs \<Rightarrow> path \<Rightarrow> bool" where
  "is_dir f p \<longleftrightarrow> p = [] \<or> fs_nodes f p = Some Dir"

text \<open>\<open>stat\<close> of a regular file: its inode number and the inode.\<close>

definition regular :: "fs \<Rightarrow> path \<Rightarrow> (nat \<times> inode) option" where
  "regular f p = (case fs_nodes f p of
       Some (File i) \<Rightarrow> map_option (\<lambda>n. (i, n)) (fs_inodes f i)
     | Some (Symlink (To_file i)) \<Rightarrow> map_option (\<lambda>n. (i, n)) (fs_inodes f i)
     | _ \<Rightarrow> None)"

section \<open>Calls that may fail\<close>

definition os_call :: "(fs \<Rightarrow> 'a option \<times> fs) \<Rightarrow> fs \<Rightarrow> 'a option \<times> fs" where
  "os_call g f = (case fs_faults f of
       [] \<Rightarrow> g f
     | fault # rest \<Rightarrow> if fault then (None, f\<lparr>fs_faults := rest\<rparr>) else g (f\<lparr>fs_faults := rest\<rparr>))"

definition read_bytes :: "path \<Rightarrow> fs \<Rightarrow> bytes option \<times> fs" where
  "read_bytes p = os_call (\<lambda>f. (map_option (in_data \<circ> snd) (regular f p), f))"

definition os_link :: "path \<Rightarrow> path \<Rightarrow> fs \<Rightarrow> unit option \<times> fs" where
  "os_link src dst = os_call (\<lambda>f. case (fs_nodes f src, fs_nodes f dst) of
       (Some (File i), None) \<Rightarrow> (Some (), f\<lparr>fs_nodes := (fs_nodes f)(dst := Some (File i))\<rparr>)
     | _ \<Rightarrow> (None, f))"

definition os_unlink :: "bool \<Rightarrow> path \<Rightarrow> fs \<Rightarrow> unit option \<times> fs" where
  "os_unlink missing_ok p = os_call (\<lambda>f. case fs_nodes f p of
       None \<Rightarrow> (if missing_ok then (Some (), f) else (None, f))
     | Some Dir \<Rightarrow> (None, f)
     | Some _ \<Rightarrow> (Some (), f\<lparr>fs_nodes := (fs_nodes f)(p := None)\<rparr>))"

text \<open>\<open>rename(2)\<close>: atomic, and without effect when both names are links to the same file.\<close>

definition os_replace :: "path \<Rightarrow> path \<Rightarrow> fs \<Rightarrow> unit option \<times> fs" where
  "os_replace src dst = os_call (\<lambda>f. case (fs_nodes f src, fs_nodes f dst) of
       (Some (File i), Some Dir) \<Rightarrow> (None, f)
     | (Some (File i), d) \<Rightarrow>
         if d = Some (File i) then (Some (), f)
         else (Some (), f\<lparr>fs_nodes := (fs_nodes f)(src := None, dst := Some (File i))\<rparr>)
     | _ \<Rightarrow> (None, f))"

text \<open>\<open>O_CREAT | O_EXCL\<close>: a new empty file with a fresh inode.\<close>

definition os_create :: "path \<Rightarrow> nat \<Rightarrow> fs \<Rightarrow> unit option \<times> fs" where
  "os_create p mode = os_call (\<lambda>f.
     if fs_nodes f p \<noteq> None \<or> \<not> is_dir f (butlast p) then (None, f)
     else (Some (), f\<lparr>fs_nodes := (fs_nodes f)(p := Some (File (fs_next f))),
                      fs_inodes := (fs_inodes f)(fs_next f := Some \<lparr>in_data = [], in_mode = mode\<rparr>),
                      fs_next := fs_next f + 1\<rparr>))"

definition upd_inode :: "path \<Rightarrow> (inode \<Rightarrow> inode) \<Rightarrow> fs \<Rightarrow> unit option \<times> fs" where
  "upd_inode p g f = (case fs_nodes f p of
       Some (File i) \<Rightarrow> (case fs_inodes f i of
            Some n \<Rightarrow> (Some (), f\<lparr>fs_inodes := (fs_inodes f)(i := Some (g n))\<rparr>) | None \<Rightarrow> (None, f))
     | _ \<Rightarrow> (None, f))"

definition os_write :: "path \<Rightarrow> bytes \<Rightarrow> fs \<Rightarrow> unit option \<times> fs" where
  "os_write p data = os_call (upd_inode p (\<lambda>n. n\<lparr>in_data := data\<rparr>))"

definition os_chmod :: "path \<Rightarrow> nat \<Rightarrow> fs \<Rightarrow> unit option \<times> fs" where
  "os_chmod p mode = os_call (upd_inode p (\<lambda>n. n\<lparr>in_mode := mode\<rparr>))"

text \<open>Calls in sequence: the first that raises ends it.\<close>

fun os_seq :: "(fs \<Rightarrow> unit option \<times> fs) list \<Rightarrow> fs \<Rightarrow> unit option \<times> fs" where
  "os_seq [] f = (Some (), f)"
| "os_seq (c # cs) f = (case c f of (None, f1) \<Rightarrow> (None, f1) | (Some _, f1) \<Rightarrow> os_seq cs f1)"

section \<open>What a name holds\<close>

text \<open>Data and mode of the regular file a name holds itself.\<close>

definition content :: "fs \<Rightarrow> path \<Rightarrow> (bytes \<times> nat) option" where
  "content f p = (case fs_nodes f p of
       Some (File i) \<Rightarrow> map_option (\<lambda>n. (in_data n, in_mode n)) (fs_inodes f i) | _ \<Rightarrow> None)"

definition fs_ok :: "fs \<Rightarrow> bool" where
  "fs_ok f \<longleftrightarrow> (\<forall>p i. fs_nodes f p = Some (File i) \<longrightarrow> i < fs_next f \<and> fs_inodes f i \<noteq> None)"

text \<open>\<open>plain\<close>: a name that is free or holds a regular file, as the targets of a checked plan are.\<close>

definition plain :: "fs \<Rightarrow> path \<Rightarrow> bool" where
  "plain f p \<longleftrightarrow> (\<forall>n. fs_nodes f p = Some n \<longrightarrow> (\<exists>i. n = File i))"

lemma plain_cases: "plain f p \<longleftrightarrow> fs_nodes f p = None \<or> (\<exists>i. fs_nodes f p = Some (File i))"
  by (cases "fs_nodes f p") (auto simp: plain_def)

lemma content_of: "fs_nodes f p = Some (File i) \<Longrightarrow> content f p = map_option (\<lambda>n. (in_data n, in_mode n)) (fs_inodes f i)"
  by (simp add: content_def)

lemma fs_ok_file: "fs_ok f \<Longrightarrow> fs_nodes f p = Some (File i) \<Longrightarrow> \<exists>n. fs_inodes f i = Some n \<and> i < fs_next f"
  unfolding fs_ok_def by blast

lemma plain_exists: "fs_ok f \<Longrightarrow> plain f p \<Longrightarrow> path_exists f p \<longleftrightarrow> content f p \<noteq> None"
  by (auto simp: plain_cases path_exists_def content_def dest: fs_ok_file)

lemma plain_regular:
  "plain f p \<Longrightarrow> map_option (in_data \<circ> snd) (regular f p) = map_option fst (content f p)"
  by (auto simp: plain_cases regular_def content_def option.map_comp comp_def)

lemma content_exists: "fs_ok f \<Longrightarrow> plain f p \<Longrightarrow> content f p = None \<longleftrightarrow> fs_nodes f p = None"
  by (auto simp: plain_cases content_def dest: fs_ok_file)

section \<open>Effects of the calls\<close>

text \<open>
  A call either raises, and the names and inodes stay as they were, or it has its effect. \<open>off\<close> lists
  the names whose content a sequence of calls may have touched.
\<close>

definition disk_eq :: "fs \<Rightarrow> fs \<Rightarrow> bool" where
  "disk_eq f g \<longleftrightarrow> fs_nodes f = fs_nodes g \<and> fs_inodes f = fs_inodes g \<and> fs_next f = fs_next g"

definition steps_off :: "path set \<Rightarrow> fs \<Rightarrow> fs \<Rightarrow> bool" where
  "steps_off A f g \<longleftrightarrow> fs_ok g \<and> fs_next f \<le> fs_next g
     \<and> (\<forall>p. p \<notin> A \<longrightarrow> fs_nodes g p = fs_nodes f p \<and> content g p = content f p)"

lemma steps_off_refl: "fs_ok f \<Longrightarrow> steps_off A f f"
  by (simp add: steps_off_def)

lemma steps_off_trans: "steps_off A f g \<Longrightarrow> steps_off B g h \<Longrightarrow> steps_off (A \<union> B) f h"
  by (auto simp: steps_off_def)

lemma steps_off_mono: "steps_off A f g \<Longrightarrow> A \<subseteq> B \<Longrightarrow> steps_off B f g"
  by (auto simp: steps_off_def)

lemma content_faults [simp]:
  "content (f\<lparr>fs_faults := r\<rparr>) p = content f p" "fs_ok (f\<lparr>fs_faults := r\<rparr>) = fs_ok f"
  "plain (f\<lparr>fs_faults := r\<rparr>) p = plain f p" "regular (f\<lparr>fs_faults := r\<rparr>) p = regular f p"
  "path_exists (f\<lparr>fs_faults := r\<rparr>) p = path_exists f p" "is_dir (f\<lparr>fs_faults := r\<rparr>) p = is_dir f p"
  by (simp_all add: content_def fs_ok_def plain_def regular_def path_exists_def is_dir_def
      split: option.split node.split link_target.split)

lemma steps_off_faults: "fs_ok f \<Longrightarrow> steps_off A f (f\<lparr>fs_faults := r\<rparr>)"
  by (simp add: steps_off_def)

lemma os_call_cases:
  assumes "os_call g f = (r, f')"
  obtains (fault) rest where "r = None" "f' = f\<lparr>fs_faults := rest\<rparr>"
  | (run) rest where "g (f\<lparr>fs_faults := rest\<rparr>) = (r, f')"
proof (cases "fs_faults f")
  case Nil
  then have "f\<lparr>fs_faults := []\<rparr> = f" by (cases f) simp
  with assms Nil run [of "[]"] show thesis by (simp add: os_call_def)
next
  case (Cons b rest)
  with assms fault [of rest] run [of rest] show thesis by (cases b) (auto simp: os_call_def)
qed

lemma os_call_nofault: "fs_faults f = [] \<Longrightarrow> os_call g f = g f"
  by (simp add: os_call_def)

lemma read_bytes_effect:
  assumes "read_bytes p f = (r, f')"
  shows "(\<exists>rest. f' = f\<lparr>fs_faults := rest\<rparr>) \<and> (r = None \<or> r = map_option (in_data \<circ> snd) (regular f p))"
  using assms unfolding read_bytes_def
  by (rule os_call_cases) auto

lemma os_unlink_effect:
  assumes ok: "fs_ok f" and c: "os_unlink m p f = (r, f')"
  shows "steps_off {p} f f' \<and> (content f' p = content f p \<or> content f' p = None)
     \<and> (plain f p \<longrightarrow> plain f' p \<and> (r = Some () \<longrightarrow> fs_nodes f' p = None))"
  using c unfolding os_unlink_def
proof (rule os_call_cases)
  fix rest assume "r = None" "f' = f\<lparr>fs_faults := rest\<rparr>"
  with ok show ?thesis by (simp add: steps_off_faults)
next
  fix rest
  assume "(case fs_nodes (f\<lparr>fs_faults := rest\<rparr>) p of None \<Rightarrow> if m then (Some (), f\<lparr>fs_faults := rest\<rparr>) else (None, f\<lparr>fs_faults := rest\<rparr>)
     | Some Dir \<Rightarrow> (None, f\<lparr>fs_faults := rest\<rparr>)
     | Some _ \<Rightarrow> (Some (), f\<lparr>fs_faults := rest, fs_nodes := (fs_nodes (f\<lparr>fs_faults := rest\<rparr>))(p := None)\<rparr>)) = (r, f')"
  with ok show ?thesis
    by (auto simp: steps_off_def fs_ok_def content_def plain_def split: option.splits node.splits if_splits)
qed

text \<open>A name that is the only link to its file: writing through it changes no other name.\<close>

definition owns :: "fs \<Rightarrow> path \<Rightarrow> bool" where
  "owns f p \<longleftrightarrow> (\<exists>i. fs_nodes f p = Some (File i) \<and> (\<forall>q. fs_nodes f q = Some (File i) \<longrightarrow> q = p))"

lemma owns_faults [simp]: "owns (f\<lparr>fs_faults := r\<rparr>) p = owns f p"
  by (simp add: owns_def)

lemma os_create_effect:
  assumes ok: "fs_ok f" and c: "os_create p mode f = (r, f')"
  shows "steps_off {p} f f' \<and> (r = None \<longrightarrow> fs_nodes f' = fs_nodes f)
     \<and> (r = Some () \<longrightarrow> fs_nodes f p = None \<and> owns f' p \<and> content f' p = Some ([], mode))"
  using c unfolding os_create_def
proof (rule os_call_cases)
  fix rest assume "r = None" "f' = f\<lparr>fs_faults := rest\<rparr>"
  with ok show ?thesis by (simp add: steps_off_faults)
next
  fix rest
  let ?f = "f\<lparr>fs_faults := rest\<rparr>"
  let ?g = "?f\<lparr>fs_nodes := (fs_nodes f)(p := Some (File (fs_next f))),
      fs_inodes := (fs_inodes f)(fs_next f := Some \<lparr>in_data = [], in_mode = mode\<rparr>), fs_next := fs_next f + 1\<rparr>"
  assume h: "(if fs_nodes ?f p \<noteq> None \<or> \<not> is_dir ?f (butlast p) then (None, ?f)
      else (Some (), ?f\<lparr>fs_nodes := (fs_nodes ?f)(p := Some (File (fs_next ?f))),
        fs_inodes := (fs_inodes ?f)(fs_next ?f := Some \<lparr>in_data = [], in_mode = mode\<rparr>),
        fs_next := fs_next ?f + 1\<rparr>)) = (r, f')"
  have old: "i < fs_next f" if "fs_nodes f q = Some (File i)" for q i using fs_ok_file [OF ok that] by blast
  have "content ?g q = content f q" if "q \<noteq> p" for q
    using that old by (auto simp: content_def split: option.split node.split)
  moreover have "fs_ok ?g" using ok old by (auto simp: fs_ok_def less_Suc_eq split: if_splits)
  moreover have "owns ?g p" using old by (auto simp: owns_def split: if_splits)
  moreover have "content ?g p = Some ([], mode)" by (simp add: content_def)
  ultimately show ?thesis using h ok by (auto simp: steps_off_def steps_off_faults split: if_splits)
qed

lemma inode_eta [simp]: "\<lparr>in_data = in_data n, in_mode = in_mode n\<rparr> = n"
  by (cases n) simp

lemma upd_inode_effect:
  assumes ok: "fs_ok f" and own: "owns f p" and c: "os_call (upd_inode p g) f = (r, f')"
  shows "steps_off {p} f f' \<and> fs_nodes f' = fs_nodes f \<and> owns f' p
     \<and> (r = Some () \<longrightarrow> content f' p = map_option (\<lambda>(d, m). (in_data (g \<lparr>in_data = d, in_mode = m\<rparr>), in_mode (g \<lparr>in_data = d, in_mode = m\<rparr>))) (content f p))"
  using c
proof (rule os_call_cases)
  fix rest assume "r = None" "f' = f\<lparr>fs_faults := rest\<rparr>"
  with ok own show ?thesis by (simp add: steps_off_faults)
next
  fix rest
  let ?f = "f\<lparr>fs_faults := rest\<rparr>"
  assume h: "upd_inode p g ?f = (r, f')"
  from own obtain i where i: "fs_nodes f p = Some (File i)" "\<And>q. fs_nodes f q = Some (File i) \<Longrightarrow> q = p"
    by (auto simp: owns_def)
  from fs_ok_file [OF ok i(1)] obtain n where n: "fs_inodes f i = Some n" by blast
  have f': "f' = ?f\<lparr>fs_inodes := (fs_inodes f)(i := Some (g n))\<rparr>" "r = Some ()"
    using h i(1) n by (simp_all add: upd_inode_def)
  have "content f' q = content f q" if "q \<noteq> p" for q
    using that i(2) f' by (auto simp: content_def split: option.split node.split)
  moreover have "fs_ok f'" using ok f' unfolding fs_ok_def by (auto split: if_splits)
  moreover have "owns f' p" using own f' by (simp add: owns_def)
  moreover have "content f' p = map_option (\<lambda>(d, m). (in_data (g \<lparr>in_data = d, in_mode = m\<rparr>),
      in_mode (g \<lparr>in_data = d, in_mode = m\<rparr>))) (content f p)"
    using f' i(1) n by (simp add: content_def)
  ultimately show ?thesis using f' by (simp add: steps_off_def)
qed

lemma os_write_effect:
  assumes "fs_ok f" "owns f p" "os_write p data f = (r, f')" "content f p = Some (d, m)"
  shows "steps_off {p} f f' \<and> fs_nodes f' = fs_nodes f \<and> owns f' p \<and> (r = Some () \<longrightarrow> content f' p = Some (data, m))"
  using upd_inode_effect [OF assms(1,2) assms(3) [unfolded os_write_def]] assms(4) by simp

lemma os_chmod_effect:
  assumes "fs_ok f" "owns f p" "os_chmod p mode f = (r, f')" "content f p = Some (d, m)"
  shows "steps_off {p} f f' \<and> fs_nodes f' = fs_nodes f \<and> owns f' p \<and> (r = Some () \<longrightarrow> content f' p = Some (d, mode))"
  using upd_inode_effect [OF assms(1,2) assms(3) [unfolded os_chmod_def]] assms(4) by simp

lemma os_replace_effect:
  assumes ok: "fs_ok f" and own: "owns f src" and c: "os_replace src dst f = (r, f')" and ne: "src \<noteq> dst"
  shows "steps_off {src, dst} f f' \<and> (r = None \<longrightarrow> fs_nodes f' = fs_nodes f \<and> content f' dst = content f dst)
     \<and> (r = Some () \<longrightarrow> content f' dst = content f src \<and> fs_nodes f' src = None \<and> owns f' dst)"
  using c unfolding os_replace_def
proof (rule os_call_cases)
  fix rest assume "r = None" "f' = f\<lparr>fs_faults := rest\<rparr>"
  with ok show ?thesis by (simp add: steps_off_faults)
next
  fix rest
  let ?f = "f\<lparr>fs_faults := rest\<rparr>"
  assume h: "(case (fs_nodes ?f src, fs_nodes ?f dst) of (Some (File i), Some Dir) \<Rightarrow> (None, ?f)
     | (Some (File i), d) \<Rightarrow> if d = Some (File i) then (Some (), ?f)
         else (Some (), ?f\<lparr>fs_nodes := (fs_nodes ?f)(src := None, dst := Some (File i))\<rparr>)
     | _ \<Rightarrow> (None, ?f)) = (r, f')"
  from own obtain i where i: "fs_nodes f src = Some (File i)" "\<And>q. fs_nodes f q = Some (File i) \<Longrightarrow> q = src"
    by (auto simp: owns_def)
  have ndst: "fs_nodes f dst \<noteq> Some (File i)" using i(2) ne by blast
  show ?thesis
  proof (cases "fs_nodes f dst = Some Dir")
    case True
    with h i(1) ok show ?thesis by (auto simp: steps_off_faults)
  next
    case False
    let ?g = "?f\<lparr>fs_nodes := (fs_nodes f)(src := None, dst := Some (File i))\<rparr>"
    have g: "r = Some ()" "f' = ?g"
      using h i(1) False ndst by (auto split: option.splits node.splits)
    have "fs_ok ?g" using ok fs_ok_file [OF ok i(1)] unfolding fs_ok_def by auto
    moreover have "content ?g q = content f q" if "q \<noteq> src" "q \<noteq> dst" for q
      using that by (simp add: content_def split: option.split node.split)
    moreover have "content ?g dst = content f src" using i(1) by (simp add: content_def)
    moreover have "owns ?g dst" using i(2) ne by (auto simp: owns_def split: if_splits)
    ultimately show ?thesis unfolding g using ne by (simp add: steps_off_def)
  qed
qed

lemma os_link_effect:
  assumes ok: "fs_ok f" and c: "os_link src dst f = (r, f')"
  shows "steps_off {dst} f f' \<and> (r = None \<longrightarrow> fs_nodes f' = fs_nodes f \<and> content f' dst = content f dst)
     \<and> (r = Some () \<longrightarrow> fs_nodes f dst = None \<and> fs_nodes f' dst = fs_nodes f src \<and> plain f' dst \<and> content f' dst = content f src)"
  using c unfolding os_link_def
proof (rule os_call_cases)
  fix rest assume "r = None" "f' = f\<lparr>fs_faults := rest\<rparr>"
  with ok show ?thesis by (simp add: steps_off_faults)
next
  fix rest
  let ?f = "f\<lparr>fs_faults := rest\<rparr>"
  assume h: "(case (fs_nodes ?f src, fs_nodes ?f dst) of
      (Some (File i), None) \<Rightarrow> (Some (), ?f\<lparr>fs_nodes := (fs_nodes ?f)(dst := Some (File i))\<rparr>)
    | _ \<Rightarrow> (None, ?f)) = (r, f')"
  show ?thesis
  proof (cases "\<exists>i. fs_nodes f src = Some (File i) \<and> fs_nodes f dst = None")
    case False
    then have "r = None" "f' = ?f" using h by (auto split: option.splits node.splits)
    with ok show ?thesis by (simp add: steps_off_faults)
  next
    case True
    then obtain i where i: "fs_nodes f src = Some (File i)" "fs_nodes f dst = None" by blast
    let ?g = "?f\<lparr>fs_nodes := (fs_nodes f)(dst := Some (File i))\<rparr>"
    have g: "r = Some ()" "f' = ?g" using h i by auto
    have "fs_ok ?g" using ok fs_ok_file [OF ok i(1)] unfolding fs_ok_def by auto
    moreover have "content ?g q = content f q" if "q \<noteq> dst" for q
      using that by (simp add: content_def split: option.split node.split)
    moreover have "content ?g dst = content f src" using i(1) by (simp add: content_def)
    ultimately show ?thesis unfolding g using i by (simp add: steps_off_def plain_def)
  qed
qed

end
