(* ===== verification/PatchTxn.thy ===== *)
theory PatchTxn
  imports PatchFs ExecTree
begin

text \<open>
  The transaction of \<open>apply_patch\<close>: \<open>_prepare\<close>, \<open>_revalidate\<close>, \<open>_stage\<close> and \<open>_PatchSettlement\<close>.
  Plans and the settlement handler are mutable objects: they are values threaded through the
  operations, and a plan is named by its index. SHA-256, the names \<open>mkstemp\<close> and \<open>uuid4\<close> make and the
  mode a new file gets from the umask are parameters.
\<close>

record patch_env =
  pe_sha :: "bytes \<Rightarrow> pystr"
  pe_name :: "nat \<Rightarrow> pystr"
  pe_create_mode :: nat

record patch_config =
  pc_max_patch_bytes :: nat
  pc_max_files :: nat
  pc_max_file_bytes :: nat
  pc_max_result_bytes :: nat

record plan =
  pn_operation :: operation
  pn_path :: pystr
  pn_target :: path
  pn_before :: "bytes option"
  pn_after :: "bytes option"
  pn_mode :: "nat option"
  pn_before_digest :: "pystr option"
  pn_after_digest :: "pystr option"
  pn_staged :: "path option"

definition digest :: "patch_env \<Rightarrow> bytes option \<Rightarrow> pystr option" where
  "digest e data = map_option (\<lambda>d. ascii ''sha256:'' @ pe_sha e d) data"

text \<open>A fresh name beside a target.\<close>

definition temp_name :: "patch_env \<Rightarrow> path \<Rightarrow> fs \<Rightarrow> path" where
  "temp_name e target f = butlast target @ [pe_name e (fs_next f)]"

section \<open>Preparing\<close>

text \<open>The directories from the root down to \<open>parent\<close>; none may be a symlink.\<close>

definition validate_parent :: "bool \<Rightarrow> fs \<Rightarrow> path \<Rightarrow> string + unit" where
  "validate_parent changed f parent =
     raise_if (list_ex (\<lambda>n. is_symlink f (take n parent)) [1..<length parent + 1])
       (if changed then ''patch_target_changed'' else ''symlink_not_allowed'')"

definition file_too_large :: "patch_config \<Rightarrow> bytes option \<Rightarrow> bytes option \<Rightarrow> bool" where
  "file_too_large cfg before after \<longleftrightarrow>
     max (length (or_else before [])) (length (or_else after [])) > pc_max_file_bytes cfg"

definition make_plan ::
  "patch_env \<Rightarrow> patch_config \<Rightarrow> patch_section \<Rightarrow> path \<Rightarrow> bytes option \<Rightarrow> bytes option \<Rightarrow> nat option \<Rightarrow> string + plan" where
  "make_plan e cfg s target before after mode =
     (if file_too_large cfg before after then Inl ''patch_file_too_large''
      else Inr \<lparr>pn_operation = ps_operation s, pn_path = ps_path s, pn_target = target, pn_before = before,
                pn_after = after, pn_mode = mode, pn_before_digest = digest e before,
                pn_after_digest = digest e after, pn_staged = None\<rparr>)"

text \<open>One turn of the \<open>_prepare\<close> loop: the plan, and the inode a modified or deleted target has.\<close>

definition prepare_one ::
  "patch_env \<Rightarrow> patch_config \<Rightarrow> fs \<Rightarrow> nat list \<Rightarrow> path list \<Rightarrow> patch_section \<Rightarrow> string + nat option \<times> plan" where
  "prepare_one e cfg f inodes targets s =
     (let target = split_on 47 (ps_path s) in
      if target \<in> set targets then Inl ''duplicate_patch_target''
      else bind_res (validate_parent False f (butlast target)) (\<lambda>_.
        if is_symlink f target then Inl ''symlink_not_allowed''
        else if ps_operation s = ADDED
        then (if path_exists f target then Inl ''patch_target_exists''
              else if \<not> is_dir f (butlast target) then Inl ''parent_directory_missing''
              else bind_res (parse_add (ps_body s)) (\<lambda>after.
                   bind_res (make_plan e cfg s target None (Some after) None) (\<lambda>p. Inr (None, p))))
        else if \<not> path_exists f target then Inl ''patch_target_missing''
        else (case regular f target of
            None \<Rightarrow> Inl ''unsupported_binary_content''
          | Some (i, n) \<Rightarrow>
              if length (in_data n) > pc_max_file_bytes cfg then Inl ''patch_file_too_large''
              else if i \<in> set inodes then Inl ''duplicate_patch_target''
              else bind_res (validate_text (in_data n)) (\<lambda>_.
                   bind_res (if ps_operation s = DELETED
                             then bind_res (raise_if (ps_body s \<noteq> []) ''invalid_patch'') (\<lambda>_. Inr None)
                             else bind_res (apply_update (in_data n) (ps_body s)) (\<lambda>d. Inr (Some d))) (\<lambda>after.
                   bind_res (make_plan e cfg s target (Some (in_data n)) after (Some (in_mode n))) (\<lambda>p.
                   Inr (Some i, p)))))))"

fun prepare :: "patch_env \<Rightarrow> patch_config \<Rightarrow> fs \<Rightarrow> nat list \<Rightarrow> path list \<Rightarrow> patch_section list \<Rightarrow> string + plan list" where
  "prepare e cfg f inodes targets [] = Inr []"
| "prepare e cfg f inodes targets (s # ss) =
     bind_res (prepare_one e cfg f inodes targets s) (\<lambda>(i, p).
     bind_res (prepare e cfg f (inodes @ (case i of None \<Rightarrow> [] | Some n \<Rightarrow> [n])) (targets @ [pn_target p]) ss)
       (\<lambda>ps. Inr (p # ps)))"

text \<open>One turn of the \<open>_revalidate\<close> loop.\<close>

definition revalidate_one :: "patch_env \<Rightarrow> fs \<Rightarrow> plan \<Rightarrow> nat list \<Rightarrow> string + nat list" where
  "revalidate_one e f p inodes =
     bind_res (validate_parent True f (butlast (pn_target p))) (\<lambda>_.
       if is_symlink f (pn_target p) then Inl ''patch_target_changed''
       else if pn_operation p = ADDED
       then (if path_exists f (pn_target p) \<or> \<not> is_dir f (butlast (pn_target p))
             then Inl ''patch_target_changed'' else Inr inodes)
       else (case regular f (pn_target p) of
           None \<Rightarrow> Inl ''patch_target_changed''
         | Some (i, n) \<Rightarrow>
             if digest e (Some (in_data n)) \<noteq> pn_before_digest p \<or> Some (in_mode n) \<noteq> pn_mode p
             then Inl ''patch_target_changed''
             else if i \<in> set inodes then Inl ''duplicate_patch_target'' else Inr (inodes @ [i])))"

definition revalidate :: "patch_env \<Rightarrow> fs \<Rightarrow> plan list \<Rightarrow> string + unit" where
  "revalidate e f plans = bind_res (fold_res (revalidate_one e f) plans []) (\<lambda>_. Inr ())"

section \<open>Staging\<close>

text \<open>One turn of the \<open>_stage\<close> loop. The flag is \<open>False\<close> when a call raised \<open>OSError\<close>.\<close>

definition stage_one :: "patch_env \<Rightarrow> plan \<Rightarrow> fs \<Rightarrow> bool \<times> plan \<times> fs" where
  "stage_one e p f =
     (case pn_after p of
        None \<Rightarrow> (True, p, f)
      | Some data \<Rightarrow>
          let name = temp_name e (pn_target p) f; added = (pn_operation p = ADDED) in
          (case os_create name (if added then pe_create_mode e else 384) f of
             (None, f1) \<Rightarrow> (False, p, f1)
           | (Some _, f1) \<Rightarrow>
               let p1 = p\<lparr>pn_staged := Some name, pn_mode := (if added then Some (pe_create_mode e) else pn_mode p)\<rparr>;
                   (r, f2) = os_seq (os_write name data
                       # (if added then [] else [os_chmod name (the (pn_mode p1))])) f1
               in (r \<noteq> None, p1, f2)))"

fun stage_loop :: "patch_env \<Rightarrow> plan list \<Rightarrow> fs \<Rightarrow> bool \<times> plan list \<times> fs" where
  "stage_loop e [] f = (True, [], f)"
| "stage_loop e (p # ps) f =
     (case stage_one e p f of
        (False, p1, f1) \<Rightarrow> (False, p1 # ps, f1)
      | (True, p1, f1) \<Rightarrow> (case stage_loop e ps f1 of (ok, ps1, f2) \<Rightarrow> (ok, p1 # ps1, f2)))"

text \<open>Unlinking staged files until a call raises; a plan that is unlinked forgets its file when \<open>forget\<close>.\<close>

fun unlink_staged :: "bool \<Rightarrow> plan list \<Rightarrow> fs \<Rightarrow> bool \<times> plan list \<times> fs" where
  "unlink_staged forget [] f = (True, [], f)"
| "unlink_staged forget (p # ps) f =
     (case pn_staged p of
        None \<Rightarrow> (case unlink_staged forget ps f of (ok, ps1, f1) \<Rightarrow> (ok, p # ps1, f1))
      | Some name \<Rightarrow>
          (case os_unlink True name f of
             (None, f1) \<Rightarrow> (False, p # ps, f1)
           | (Some _, f1) \<Rightarrow>
               (case unlink_staged forget ps f1 of
                  (ok, ps1, f2) \<Rightarrow> (ok, (if forget then p\<lparr>pn_staged := None\<rparr> else p) # ps1, f2))))"

text \<open>\<open>_stage\<close>: an \<open>OSError\<close> of the cleanup itself replaces the tool failure.\<close>

definition stage :: "patch_env \<Rightarrow> plan list \<Rightarrow> fs \<Rightarrow> (string + plan list) \<times> fs" where
  "stage e plans f =
     (case stage_loop e plans f of
        (True, plans1, f1) \<Rightarrow> (Inr plans1, f1)
      | (False, plans1, f1) \<Rightarrow>
          (case unlink_staged False plans1 f1 of
             (True, _, f2) \<Rightarrow> (Inl ''patch_stage_failed'', f2)
           | (False, _, f2) \<Rightarrow> (Inl ''OSError'', f2)))"

section \<open>The settlement handler\<close>

datatype target_state = S_COMMITTED | S_RESTORED | S_UNCHANGED | S_UNKNOWN

record settlement =
  st_plans :: "plan list"
  st_committed :: "nat list"
  st_failure :: bool
  st_states :: "(pystr, target_state) dict"
  st_forced :: bool

definition new_settlement :: "plan list \<Rightarrow> settlement" where
  "new_settlement plans = \<lparr>st_plans = plans, st_committed = [], st_failure = False, st_states = [], st_forced = False\<rparr>"

definition set_staged :: "nat \<Rightarrow> settlement \<Rightarrow> settlement" where
  "set_staged i h = h\<lparr>st_plans := (st_plans h)[i := (st_plans h ! i)\<lparr>pn_staged := None\<rparr>]\<rparr>"

text \<open>One turn of \<open>commit\<close>. A plan counts as committed when its last call has returned.\<close>

definition commit_one :: "nat \<Rightarrow> settlement \<Rightarrow> fs \<Rightarrow> bool \<times> settlement \<times> fs" where
  "commit_one i h f =
     (let p = st_plans h ! i; done = (\<lambda>h1. h1\<lparr>st_committed := st_committed h1 @ [i]\<rparr>) in
      case pn_operation p of
        ADDED \<Rightarrow>
          (case pn_staged p of None \<Rightarrow> (False, h, f)
           | Some name \<Rightarrow>
               (case os_seq [os_link name (pn_target p), os_unlink False name] f of
                  (None, f1) \<Rightarrow> (False, h, f1)
                | (Some _, f1) \<Rightarrow> (True, done (set_staged i h), f1)))
      | MODIFIED \<Rightarrow>
          (case pn_staged p of None \<Rightarrow> (False, h, f)
           | Some name \<Rightarrow>
               (case os_replace name (pn_target p) f of
                  (None, f1) \<Rightarrow> (False, h, f1)
                | (Some _, f1) \<Rightarrow> (True, done (set_staged i h), f1)))
      | DELETED \<Rightarrow>
          (case os_unlink False (pn_target p) f of
             (None, f1) \<Rightarrow> (False, h, f1)
           | (Some _, f1) \<Rightarrow> (True, done h, f1)))"

fun commit_loop :: "nat list \<Rightarrow> settlement \<Rightarrow> fs \<Rightarrow> settlement \<times> fs" where
  "commit_loop [] h f = (h, f)"
| "commit_loop (i # is) h f =
     (case commit_one i h f of
        (False, h1, f1) \<Rightarrow> (h1\<lparr>st_failure := True\<rparr>, f1)
      | (True, h1, f1) \<Rightarrow> commit_loop is h1 f1)"

text \<open>The body of the barrier: \<open>commit\<close>, with its exception kept as \<open>failure\<close>.\<close>

definition commit :: "settlement \<Rightarrow> fs \<Rightarrow> settlement \<times> fs" where
  "commit h f = commit_loop [0..<length (st_plans h)] h f"

text \<open>\<open>_restore\<close>: a temporary file with the old content and mode, renamed over the target.\<close>

definition restore :: "patch_env \<Rightarrow> path \<Rightarrow> bytes \<Rightarrow> nat \<Rightarrow> fs \<Rightarrow> unit option \<times> fs" where
  "restore e target data mode f =
     (let name = temp_name e target f in
      case os_create name 384 f of
        (None, f1) \<Rightarrow> (None, f1)
      | (Some _, f1) \<Rightarrow>
          (case os_seq [os_write name data, os_chmod name mode, os_replace name target] f1 of
             (r, f2) \<Rightarrow> (case os_unlink True name f2 of
                (None, f3) \<Rightarrow> (None, f3) | (Some _, f3) \<Rightarrow> (r, f3))))"

text \<open>The \<open>try\<close> of \<open>rollback\<close>: \<open>None\<close> when a call raised \<open>OSError\<close>.\<close>

definition undo :: "patch_env \<Rightarrow> plan \<Rightarrow> fs \<Rightarrow> target_state option \<times> fs" where
  "undo e p f =
     (let target = pn_target p; exists = path_exists f target;
          put_back = (\<lambda>g. case restore e target (the (pn_before p)) (the (pn_mode p)) g of
            (None, g1) \<Rightarrow> (None, g1) | (Some _, g1) \<Rightarrow> (Some S_RESTORED, g1)) in
      case pn_operation p of
        ADDED \<Rightarrow>
          if \<not> exists then (Some S_UNKNOWN, f)
          else (case read_bytes target f of
              (None, f1) \<Rightarrow> (None, f1)
            | (Some d, f1) \<Rightarrow>
                if digest e (Some d) = pn_after_digest p
                then (case os_unlink False target f1 of
                    (None, f2) \<Rightarrow> (None, f2) | (Some _, f2) \<Rightarrow> (Some S_RESTORED, f2))
                else (Some S_UNKNOWN, f1))
      | MODIFIED \<Rightarrow>
          if \<not> exists then (Some S_UNKNOWN, f)
          else (case read_bytes target f of
              (None, f1) \<Rightarrow> (None, f1)
            | (Some d, f1) \<Rightarrow> if digest e (Some d) = pn_after_digest p then put_back f1 else (Some S_UNKNOWN, f1))
      | DELETED \<Rightarrow>
          if \<not> exists then put_back f
          else (case read_bytes target f of
              (None, f1) \<Rightarrow> (None, f1)
            | (Some d, f1) \<Rightarrow>
                (Some (if digest e (Some d) = pn_before_digest p then S_UNCHANGED else S_UNKNOWN), f1)))"

text \<open>The \<open>except OSError\<close> of \<open>rollback\<close>: what the target holds now.\<close>

definition inspect :: "patch_env \<Rightarrow> plan \<Rightarrow> fs \<Rightarrow> target_state \<times> fs" where
  "inspect e p f =
     (if path_exists f (pn_target p)
      then (case read_bytes (pn_target p) f of
          (None, f1) \<Rightarrow> (S_UNKNOWN, f1)
        | (Some d, f1) \<Rightarrow> (if digest e (Some d) = pn_after_digest p then S_COMMITTED else S_UNKNOWN, f1))
      else (if None = pn_after_digest p then S_COMMITTED else S_UNKNOWN, f))"

definition settled_state :: "target_state option \<Rightarrow> bool" where
  "settled_state s \<longleftrightarrow> s = Some S_RESTORED \<or> s = Some S_UNCHANGED"

definition rollback_one :: "patch_env \<Rightarrow> nat \<Rightarrow> settlement \<times> fs \<Rightarrow> settlement \<times> fs" where
  "rollback_one e i w = (case w of (h, f) \<Rightarrow>
     let p = st_plans h ! i in
     if settled_state (dget (st_states h) (pn_path p)) then (h, f)
     else
       let (s, f2) = (case undo e p f of (Some s, f1) \<Rightarrow> (s, f1) | (None, f1) \<Rightarrow> inspect e p f1)
       in (h\<lparr>st_states := dset (pn_path p) s (st_states h)\<rparr>, f2))"

definition set_default :: "pystr \<Rightarrow> (pystr, target_state) dict \<Rightarrow> (pystr, target_state) dict" where
  "set_default k d = (case dget d k of None \<Rightarrow> dset k S_UNCHANGED d | Some _ \<Rightarrow> d)"

definition rollback :: "patch_env \<Rightarrow> settlement \<times> fs \<Rightarrow> settlement \<times> fs" where
  "rollback e w =
     (case fold (rollback_one e) (rev (st_committed (fst w))) w of
        (h, f) \<Rightarrow> (h\<lparr>st_states := fold (\<lambda>p. set_default (pn_path p)) (st_plans h) (st_states h)\<rparr>, f))"

definition incomplete :: "settlement \<Rightarrow> bool" where
  "incomplete h \<longleftrightarrow> list_ex (\<lambda>(k, s). s = S_COMMITTED \<or> s = S_UNKNOWN) (st_states h)"

definition cleanup_staged :: "settlement \<times> fs \<Rightarrow> bool \<times> settlement \<times> fs" where
  "cleanup_staged w = (case w of (h, f) \<Rightarrow>
     case unlink_staged True (st_plans h) f of (ok, ps, f1) \<Rightarrow> (ok, h\<lparr>st_plans := ps\<rparr>, f1))"

definition finish_settle :: "settlement \<times> fs \<Rightarrow> outcome \<times> settlement \<times> fs" where
  "finish_settle w = (case cleanup_staged w of (ok, h, f) \<Rightarrow>
     (if \<not> ok \<or> incomplete h then RAISED else RETURNED, h, f))"

definition settle :: "patch_env \<Rightarrow> settlement \<times> fs \<Rightarrow> outcome \<times> settlement \<times> fs" where
  "settle e w = finish_settle (if st_failure (fst w) then rollback e w else w)"

definition force_settle :: "patch_env \<Rightarrow> settlement \<times> fs \<Rightarrow> outcome \<times> settlement \<times> fs" where
  "force_settle e w = finish_settle (rollback e ((fst w)\<lparr>st_forced := True\<rparr>, snd w))"

end
