(* ===== verification/Settlement.thy ===== *)
theory Settlement
  imports ExecScope
begin

text \<open>
  The settlement barrier of a tool scope (\<open>roboagent/runtime/execution.py\<close>, \<open>_SettlementBarrier\<close>). A
  handler is foreign code acting on a world of its own: what a call of \<open>settle\<close> or \<open>force_settle\<close> does,
  and how it ends under the settlement timeout. \<open>settlement_handler\<close> is the contract a handler has with
  the barrier: returning normally means that the world has converged,
  for \<open>settle\<close> from a \<open>fresh\<close> world, for \<open>force_settle\<close> from the \<open>sane\<close> ones a settlement leaves.
\<close>

datatype settlement_error = SETTLEMENT_TIMEOUT | SETTLEMENT_FAILED

datatype barrier_exit =
    Exited
  | Settlement_raised settlement_error
  | Cancelled_after_settlement
  | Lifecycle_error exec_error

record 'w handler =
  hd_settle :: "'w \<Rightarrow> outcome \<times> 'w"
  hd_force :: "'w \<Rightarrow> outcome \<times> 'w"

definition uncertain_blocker :: "pystr \<Rightarrow> blocker" where
  "uncertain_blocker sid = \<lparr>bl_code = SETTLEMENT_UNCERTAIN, bl_scope = sid,
     bl_message = ascii ''Settlement could not be confirmed.''\<rparr>"

definition mark_uncertain :: "pystr \<Rightarrow> tree \<Rightarrow> tree" where
  "mark_uncertain sid t = add_retry_blocker (uncertain_blocker sid) t"

text \<open>\<open>_drive_settlement\<close>: settle, and force when that does not return.\<close>

definition drive_settlement ::
  "'w handler \<Rightarrow> pystr \<Rightarrow> 'w \<Rightarrow> tree \<Rightarrow> settlement_error option \<times> 'w \<times> tree" where
  "drive_settlement h sid w t =
     (case hd_settle h w of
        (RETURNED, w1) \<Rightarrow> (None, w1, t)
      | (TIMED_OUT, w1) \<Rightarrow>
          (case hd_force h w1 of
             (RETURNED, w2) \<Rightarrow> (None, w2, t)
           | (_, w2) \<Rightarrow> (Some SETTLEMENT_TIMEOUT, w2, mark_uncertain sid t))
      | (RAISED, w1) \<Rightarrow>
          (case hd_force h w1 of
             (RETURNED, w2) \<Rightarrow> (Some SETTLEMENT_FAILED, w2, t)
           | (_, w2) \<Rightarrow> (Some SETTLEMENT_FAILED, w2, mark_uncertain sid t)))"

text \<open>
  \<open>__aexit__\<close>. \<open>was_cancelled\<close> says that the caller was cancelled while it waited: that is only reported
  after the driver has ended. \<open>interrupted\<close> is a driver task that was itself cancelled, with the world
  it leaves behind. The barrier is left in every case.
\<close>

definition barrier_aexit ::
  "'w handler \<Rightarrow> pystr \<Rightarrow> bool \<Rightarrow> 'w option \<Rightarrow> 'w \<Rightarrow> tree \<Rightarrow> barrier_exit \<times> 'w \<times> tree" where
  "barrier_aexit h sid was_cancelled interrupted w t =
     (let (error, w1, t1) = (case interrupted of
            Some w1 \<Rightarrow> (Some SETTLEMENT_FAILED, w1, mark_uncertain sid t)
          | None \<Rightarrow> drive_settlement h sid w t)
      in case leave_settlement sid t1 of
           Inl e \<Rightarrow> (Lifecycle_error e, w1, t1)
         | Inr t2 \<Rightarrow>
             (case error of
                Some e \<Rightarrow> (Settlement_raised e, w1, t2)
              | None \<Rightarrow> if was_cancelled then (Cancelled_after_settlement, w1, t2) else (Exited, w1, t2)))"

text \<open>\<open>async with settlement_barrier(...)\<close> around a body.\<close>

definition with_barrier ::
  "'w handler \<Rightarrow> pystr \<Rightarrow> ('w \<Rightarrow> tree \<Rightarrow> 'w \<times> tree) \<Rightarrow> bool \<Rightarrow> 'w option \<Rightarrow> 'w \<Rightarrow> tree \<Rightarrow> barrier_exit \<times> 'w \<times> tree" where
  "with_barrier h sid body was_cancelled interrupted w t =
     (case enter_settlement sid t of
        Inl e \<Rightarrow> (Lifecycle_error e, w, t)
      | Inr t1 \<Rightarrow> (case body w t1 of (w1, t2) \<Rightarrow> barrier_aexit h sid was_cancelled interrupted w1 t2))"

section \<open>The contract of a handler\<close>

locale settlement_handler =
  fixes h :: "'w handler" and fresh sane converged :: "'w \<Rightarrow> bool"
  assumes settle_sane: "fresh w \<Longrightarrow> hd_settle h w = (r, w') \<Longrightarrow> sane w'"
    and force_sane: "sane w \<Longrightarrow> hd_force h w = (r, w') \<Longrightarrow> sane w'"
    and settle_converges: "fresh w \<Longrightarrow> hd_settle h w = (RETURNED, w') \<Longrightarrow> converged w'"
    and force_converges: "sane w \<Longrightarrow> hd_force h w = (RETURNED, w') \<Longrightarrow> converged w'"

context settlement_handler
begin

text \<open>When the driver ends, the world has converged or the run carries the uncertainty blocker.\<close>

lemma drive_converges:
  assumes "fresh w" "drive_settlement h sid w t = (r, w', t')"
  shows "(converged w' \<or> uncertain_blocker sid \<in> set (t_blockers t')) \<and> (r = None \<longrightarrow> converged w' \<and> t' = t)"
proof -
  have m: "uncertain_blocker sid \<in> set (t_blockers (mark_uncertain sid t))"
    by (simp add: mark_uncertain_def add_retry_blocker_def)
  from assms m settle_sane [OF assms(1)] show ?thesis
    by (auto simp: drive_settlement_def settle_converges [OF assms(1)] split: prod.splits outcome.splits
        dest: force_converges [rotated])
qed

lemma drive_sane: "fresh w \<Longrightarrow> drive_settlement h sid w t = (r, w', t') \<Longrightarrow> sane w'"
  by (auto simp: drive_settlement_def split: prod.splits outcome.splits dest: settle_sane force_sane)

lemma leave_blockers: "leave_settlement sid t = Inr t' \<Longrightarrow> t_blockers t' = t_blockers t"
  by (auto simp: leave_settlement_def with_scope_def upd_scope_def split: option.splits if_splits)

lemma aexit_converges:
  assumes "fresh w" "barrier_aexit h sid was_cancelled interrupted w t = (x, w', t')"
  shows "(converged w' \<or> uncertain_blocker sid \<in> set (t_blockers t'))
    \<and> (x = Exited \<or> x = Cancelled_after_settlement \<longrightarrow> converged w')"
proof (cases interrupted)
  case None
  obtain r w1 t1 where d: "drive_settlement h sid w t = (r, w1, t1)" by (metis prod_cases3)
  from drive_converges [OF assms(1) d] assms(2) None d show ?thesis
    by (auto simp: barrier_aexit_def dest!: leave_blockers split: sum.splits option.splits if_splits)
next
  case (Some w1)
  have "uncertain_blocker sid \<in> set (t_blockers (mark_uncertain sid t))"
    by (simp add: mark_uncertain_def add_retry_blocker_def)
  with assms(2) Some show ?thesis
    by (auto simp: barrier_aexit_def dest!: leave_blockers split: sum.splits)
qed

end

section \<open>The settlement count\<close>

lemma scopes_mark_uncertain [simp]: "t_scopes (mark_uncertain sid t) = t_scopes t"
  by (simp add: mark_uncertain_def add_retry_blocker_def)

lemma scopes_drive: "drive_settlement h sid w t = (r, w', t') \<Longrightarrow> t_scopes t' = t_scopes t"
  by (auto simp: drive_settlement_def split: prod.splits outcome.splits)

definition active_count :: "tree \<Rightarrow> pystr \<Rightarrow> nat option" where
  "active_count t sid = map_option sc_active (dget (t_scopes t) sid)"

lemma leave_count:
  assumes "active_count t sid = Some (Suc n)"
  shows "\<exists>u. leave_settlement sid t = Inr u \<and> active_count u sid = Some n"
  using assms by (auto simp: active_count_def leave_settlement_def with_scope_def upd_scope_def)

lemma aexit_count:
  assumes "active_count t sid = Some (Suc n)"
  shows "\<exists>x w' t'. barrier_aexit h sid was_cancelled interrupted w t = (x, w', t') \<and> active_count t' sid = Some n
     \<and> (\<forall>e. x \<noteq> Lifecycle_error e)"
proof -
  obtain r w1 t1 where d: "(case interrupted of Some w1 \<Rightarrow> (Some SETTLEMENT_FAILED, w1, mark_uncertain sid t)
      | None \<Rightarrow> drive_settlement h sid w t) = (r, w1, t1)" by (metis prod_cases3)
  then have "t_scopes t1 = t_scopes t" by (auto dest: scopes_drive split: option.splits)
  with assms have "active_count t1 sid = Some (Suc n)" by (simp add: active_count_def)
  from leave_count [OF this] obtain u where "leave_settlement sid t1 = Inr u" "active_count u sid = Some n" by blast
  with d show ?thesis by (cases r) (auto simp: barrier_aexit_def)
qed

lemma enter_count:
  "enter_settlement sid t = Inr u \<Longrightarrow> \<exists>n. active_count t sid = Some n \<and> active_count u sid = Some (Suc n)"
  by (auto simp: enter_settlement_def active_count_def with_scope_def require_open_def res_simps upd_scope_def
      split: option.splits if_splits)

end
