(* ===== verification/PatchAtomic.thy ===== *)
theory PatchAtomic
  imports PatchTxn Settlement
begin

text \<open>
  What the patch transaction guarantees under arbitrary faults of the file system: a target is only ever
  in its old or its new content, a state that claims the old content is right, and a settlement that
  returns has undone every committed target of a failed patch.
\<close>

section \<open>Well-formed plans\<close>

definition before_content :: "plan \<Rightarrow> (bytes \<times> nat) option" where
  "before_content p = map_option (\<lambda>d. (d, the (pn_mode p))) (pn_before p)"

definition after_content :: "plan \<Rightarrow> (bytes \<times> nat) option" where
  "after_content p = map_option (\<lambda>d. (d, the (pn_mode p))) (pn_after p)"

definition plan_ok :: "patch_env \<Rightarrow> plan \<Rightarrow> bool" where
  "plan_ok e p \<longleftrightarrow> (pn_operation p = ADDED \<longleftrightarrow> pn_before p = None) \<and> (pn_operation p = DELETED \<longleftrightarrow> pn_after p = None)
     \<and> (pn_before p \<noteq> None \<longrightarrow> pn_mode p \<noteq> None)
     \<and> pn_before_digest p = digest e (pn_before p) \<and> pn_after_digest p = digest e (pn_after p)"

text \<open>The temporary names of a target, whatever number they get, are not targets.\<close>

definition temps :: "patch_env \<Rightarrow> path \<Rightarrow> path set" where
  "temps e target = range (\<lambda>n. butlast target @ [pe_name e n])"

definition plans_ok :: "patch_env \<Rightarrow> plan list \<Rightarrow> bool" where
  "plans_ok e plans \<longleftrightarrow> distinct (map pn_target plans) \<and> distinct (map pn_path plans)
     \<and> (\<forall>p \<in> set plans. plan_ok e p)
     \<and> (\<forall>p \<in> set plans. \<forall>q \<in> set plans. pn_target q \<notin> temps e (pn_target p))
     \<and> (\<forall>p \<in> set plans. \<forall>q \<in> set plans. pn_staged p \<noteq> Some (pn_target q))"

definition sane :: "patch_env \<Rightarrow> settlement \<times> fs \<Rightarrow> bool" where
  "sane e w \<longleftrightarrow> (case w of (h, f) \<Rightarrow> plans_ok e (st_plans h) \<and> fs_ok f
     \<and> (\<forall>p \<in> set (st_plans h). plain f (pn_target p))
     \<and> (\<forall>i \<in> set (st_committed h). i < length (st_plans h)
          \<and> content f (pn_target (st_plans h ! i)) \<in> {before_content (st_plans h ! i), after_content (st_plans h ! i)}
          \<and> (settled_state (dget (st_states h) (pn_path (st_plans h ! i))) \<longrightarrow>
               content f (pn_target (st_plans h ! i)) = before_content (st_plans h ! i))))"

text \<open>The committed targets of a failed or forced transaction hold their old content again.\<close>

definition undone :: "settlement \<times> fs \<Rightarrow> bool" where
  "undone w \<longleftrightarrow> (case w of (h, f) \<Rightarrow> st_failure h \<or> st_forced h \<longrightarrow>
     (\<forall>i \<in> set (st_committed h). content f (pn_target (st_plans h ! i)) = before_content (st_plans h ! i)))"

section \<open>Restoring one target\<close>

lemma plain_nodes: "fs_nodes g p = fs_nodes f p \<Longrightarrow> plain g p = plain f p"
  by (simp add: plain_def)

lemma owns_plain: "owns f p \<Longrightarrow> plain f p"
  by (auto simp: owns_def plain_def)

lemma restore_seq_effect:
  assumes ok: "fs_ok f" and own: "owns f name" and c: "content f name = Some (d0, m0)" and ne: "name \<noteq> target"
    and pl: "plain f target"
    and s: "os_seq [os_write name data, os_chmod name mode, os_replace name target] f = (r, g)"
  shows "steps_off {name, target} f g \<and> plain g target
     \<and> (content g target = content f target \<or> content g target = Some (data, mode))
     \<and> (r = Some () \<longrightarrow> content g target = Some (data, mode))"
proof -
  obtain r1 f1 where 1: "os_write name data f = (r1, f1)" by (metis surj_pair)
  have e1: "steps_off {name} f f1" "fs_nodes f1 = fs_nodes f" "owns f1 name"
    "r1 = Some () \<longrightarrow> content f1 name = Some (data, m0)" using os_write_effect [OF ok own 1 c] by auto
  have t1: "content f1 target = content f target" "plain f1 target" "fs_ok f1"
    using e1 ne pl by (auto simp: steps_off_def plain_nodes [of f1 target f])
  show ?thesis
  proof (cases r1)
    case None
    with 1 s have "g = f1" "r = None" by simp_all
    with e1 t1 show ?thesis using steps_off_mono [OF e1(1)] by auto
  next
    case (Some u)
    then have c1: "content f1 name = Some (data, m0)" using e1(4) by simp
    obtain r2 f2 where 2: "os_chmod name mode f1 = (r2, f2)" by (metis surj_pair)
    have e2: "steps_off {name} f1 f2" "fs_nodes f2 = fs_nodes f1" "owns f2 name"
      "r2 = Some () \<longrightarrow> content f2 name = Some (data, mode)" using os_chmod_effect [OF t1(3) e1(3) 2 c1] by auto
    have t2: "content f2 target = content f target" "plain f2 target" "fs_ok f2"
      using e2 t1 ne by (auto simp: steps_off_def plain_nodes [of f2 target f1])
    have s2: "steps_off {name, target} f f2"
      using steps_off_mono [OF steps_off_trans [OF e1(1) e2(1)]] by auto
    show ?thesis
    proof (cases r2)
      case None
      with 1 2 Some s have "g = f2" "r = None" by simp_all
      with s2 t2 show ?thesis by simp
    next
      case (Some v)
      obtain r3 f3 where 3: "os_replace name target f2 = (r3, f3)" by (metis surj_pair)
      from 1 2 3 \<open>r1 = Some u\<close> Some s have g: "g = f3" "r = r3" by (cases r3; simp)+
      from os_replace_effect [OF t2(3) e2(3) 3 ne] have e3: "steps_off {name, target} f2 f3"
        "r3 = None \<longrightarrow> fs_nodes f3 = fs_nodes f2 \<and> content f3 target = content f2 target"
        "r3 = Some () \<longrightarrow> content f3 target = content f2 name \<and> owns f3 target" by auto
      have "plain f3 target"
        using e3(2,3) t2(2) owns_plain plain_nodes [of f3 target f2] by (cases r3) auto
      moreover have "steps_off {name, target} f f3" using steps_off_mono [OF steps_off_trans [OF s2 e3(1)]] by auto
      ultimately show ?thesis using e2(4) e3(2,3) t2(1) Some unfolding g by (cases r3) auto
    qed
  qed
qed

lemma restore_effect:
  assumes ok: "fs_ok f" and pl: "plain f target" and tp: "target \<notin> temps e target"
    and r: "restore e target data mode f = (r, g)"
  shows "steps_off (insert target (temps e target)) f g \<and> plain g target
     \<and> (content g target = content f target \<or> content g target = Some (data, mode))
     \<and> (r = Some () \<longrightarrow> content g target = Some (data, mode))"
proof -
  define name where "name = temp_name e target f"
  have nm: "name \<in> temps e target" "name \<noteq> target"
    using tp by (auto simp: name_def temp_name_def temps_def image_iff) (metis)
  obtain r1 f1 where 1: "os_create name 384 f = (r1, f1)" by (metis surj_pair)
  from os_create_effect [OF ok 1] have e1: "steps_off {name} f f1"
    "r1 = Some () \<longrightarrow> owns f1 name \<and> content f1 name = Some ([], 384)" by auto
  have t1: "content f1 target = content f target" "plain f1 target" "fs_ok f1"
    using e1(1) nm(2) pl by (auto simp: steps_off_def plain_nodes [of f1 target f])
  have m: "steps_off A f h \<Longrightarrow> A \<subseteq> {name, target} \<Longrightarrow> steps_off (insert target (temps e target)) f h" for A h
    by (erule steps_off_mono) (use nm(1) in auto)
  show ?thesis
  proof (cases r1)
    case None
    with 1 r have "g = f1" "r = None" by (simp_all add: restore_def name_def)
    with t1 m [OF e1(1)] show ?thesis by simp
  next
    case (Some u)
    with e1(2) have o: "owns f1 name" "content f1 name = Some ([], 384)" by simp_all
    obtain r2 f2 where 2: "os_seq [os_write name data, os_chmod name mode, os_replace name target] f1 = (r2, f2)"
      by (metis surj_pair)
    from restore_seq_effect [OF t1(3) o nm(2) t1(2) 2] have e2: "steps_off {name, target} f1 f2" "plain f2 target"
      "content f2 target = content f1 target \<or> content f2 target = Some (data, mode)"
      "r2 = Some () \<longrightarrow> content f2 target = Some (data, mode)" by auto
    obtain r3 f3 where 3: "os_unlink True name f2 = (r3, f3)" by (metis surj_pair)
    have e3: "steps_off {name} f2 f3" using os_unlink_effect [OF _ 3] e2(1) by (simp add: steps_off_def)
    then have t3: "content f3 target = content f2 target" "plain f3 target"
      using nm(2) e2(2) by (auto simp: steps_off_def plain_nodes [of f3 target f2])
    from 1 2 3 Some r have g: "g = f3" "r = Some () \<longrightarrow> r2 = Some ()"
      by (auto simp: restore_def name_def [symmetric] Let_def split: option.splits)
    have "steps_off ({name} \<union> {name, target} \<union> {name}) f f3"
      by (rule steps_off_trans [OF steps_off_trans [OF e1(1) e2(1)] e3])
    from m [OF this] t1 t3 e2 g show ?thesis by auto
  qed
qed

section \<open>Undoing one plan\<close>

lemma undo_effect:
  assumes ok: "fs_ok f" and pl: "plain f (pn_target p)" and tp: "pn_target p \<notin> temps e (pn_target p)"
    and po: "plan_ok e p" and c: "content f (pn_target p) \<in> {before_content p, after_content p}"
    and u: "undo e p f = (s, g)"
  shows "steps_off (insert (pn_target p) (temps e (pn_target p))) f g \<and> plain g (pn_target p)
     \<and> content g (pn_target p) \<in> {before_content p, after_content p}
     \<and> (settled_state s \<longrightarrow> content g (pn_target p) = before_content p)"
proof -
  let ?t = "pn_target p" and ?A = "insert (pn_target p) (temps e (pn_target p))"
  have ex: "path_exists f ?t \<longleftrightarrow> content f ?t \<noteq> None" by (rule plain_exists [OF ok pl])
  have rd: "steps_off ?A f h \<and> plain h ?t \<and> content h ?t = content f ?t \<and> fs_ok h"
    if "read_bytes ?t f = (r, h)" for r h
    using read_bytes_effect [OF that] ok pl steps_off_faults [OF ok] by auto
  have putback: "steps_off ?A f g \<and> plain g ?t \<and> content g ?t \<in> {before_content p, after_content p}
      \<and> (settled_state s \<longrightarrow> content g ?t = before_content p)"
    if h: "fs_ok h" "plain h ?t" "steps_off ?A f h" "content h ?t \<in> {before_content p, after_content p}"
      and b: "pn_before p \<noteq> None"
      and r: "(case restore e ?t (the (pn_before p)) (the (pn_mode p)) h of
            (None, g1) \<Rightarrow> (None, g1) | (Some _, g1) \<Rightarrow> (Some S_RESTORED, g1)) = (s, g)" for h
  proof -
    obtain q g1 where q: "restore e ?t (the (pn_before p)) (the (pn_mode p)) h = (q, g1)" by (metis surj_pair)
    from restore_effect [OF h(1,2) tp q] have e: "steps_off ?A h g1" "plain g1 ?t"
      "content g1 ?t = content h ?t \<or> content g1 ?t = Some (the (pn_before p), the (pn_mode p))"
      "q = Some () \<longrightarrow> content g1 ?t = Some (the (pn_before p), the (pn_mode p))" by auto
    have b': "before_content p = Some (the (pn_before p), the (pn_mode p))" using b by (auto simp: before_content_def)
    from q r have "g = g1" "settled_state s \<longrightarrow> q = Some ()" by (auto simp: settled_state_def split: option.splits)
    moreover have "steps_off ?A f g1" using steps_off_mono [OF steps_off_trans [OF h(3) e(1)]] by auto
    ultimately show ?thesis using e h(4) b' by auto
  qed
  show ?thesis
  proof (cases "pn_operation p")
    case ADDED
    then have b: "before_content p = None" using po by (simp add: plan_ok_def before_content_def)
    show ?thesis
    proof (cases "path_exists f ?t")
      case False
      with u ADDED ok pl c ex show ?thesis by (auto simp: undo_def Let_def settled_state_def steps_off_refl)
    next
      case True
      obtain r h where rh: "read_bytes ?t f = (r, h)" by (metis surj_pair)
      obtain r2 h2 where uh: "os_unlink False ?t h = (r2, h2)" by (metis surj_pair)
      from rd [OF rh] have hh: "steps_off ?A f h" "plain h ?t" "content h ?t = content f ?t" "fs_ok h" by auto
      from os_unlink_effect [OF hh(4) uh] hh(2) have e: "steps_off {?t} h h2" "plain h2 ?t"
        "content h2 ?t = content h ?t \<or> content h2 ?t = None" "r2 = Some () \<longrightarrow> fs_nodes h2 ?t = None" by auto
      have st: "steps_off ?A f h2" using steps_off_mono [OF steps_off_trans [OF hh(1) e(1)]] by auto
      have z: "r2 = Some () \<longrightarrow> content h2 ?t = None" using e(4) by (simp add: content_def)
      from u ADDED True rh uh show ?thesis
        using hh st e c b z
        by (auto simp: undo_def Let_def settled_state_def split: option.splits if_splits)
    qed
  next
    case MODIFIED
    then have b: "pn_before p \<noteq> None" using po by (simp add: plan_ok_def)
    show ?thesis
    proof (cases "path_exists f ?t")
      case False
      with u MODIFIED ok pl c ex show ?thesis by (auto simp: undo_def Let_def settled_state_def steps_off_refl)
    next
      case True
      obtain r h where rh: "read_bytes ?t f = (r, h)" by (metis surj_pair)
      from rd [OF rh] have hh: "steps_off ?A f h" "plain h ?t" "content h ?t = content f ?t" "fs_ok h" by auto
      show ?thesis
      proof (cases "\<exists>d. r = Some d \<and> digest e (Some d) = pn_after_digest p")
        case False
        with u MODIFIED True rh hh c show ?thesis
          by (auto simp: undo_def Let_def settled_state_def split: option.splits if_splits)
      next
        case d: True
        then have "(case restore e ?t (the (pn_before p)) (the (pn_mode p)) h of
            (None, g1) \<Rightarrow> (None, g1) | (Some _, g1) \<Rightarrow> (Some S_RESTORED, g1)) = (s, g)"
          using u MODIFIED True rh by (auto simp: undo_def Let_def)
        from putback [OF hh(4,2,1) _ b this] hh(3) c show ?thesis by simp
      qed
    qed
  next
    case DELETED
    then have b: "pn_before p \<noteq> None" "after_content p = None" using po by (auto simp: plan_ok_def after_content_def)
    show ?thesis
    proof (cases "path_exists f ?t")
      case False
      then have "(case restore e ?t (the (pn_before p)) (the (pn_mode p)) f of
            (None, g1) \<Rightarrow> (None, g1) | (Some _, g1) \<Rightarrow> (Some S_RESTORED, g1)) = (s, g)"
        using u DELETED by (auto simp: undo_def Let_def)
      from putback [OF ok pl steps_off_refl [OF ok] c b(1) this] show ?thesis .
    next
      case True
      obtain r h where rh: "read_bytes ?t f = (r, h)" by (metis surj_pair)
      from rd [OF rh] have hh: "steps_off ?A f h" "plain h ?t" "content h ?t = content f ?t" "fs_ok h" by auto
      have "content h ?t = before_content p" using c b(2) ex True hh(3) by auto
      with u DELETED True rh hh show ?thesis
        by (auto simp: undo_def Let_def split: option.splits)
    qed
  qed
qed

end
