(* ===== verification/PatchSettle.thy ===== *)
theory PatchSettle
  imports PatchAtomic
begin

text \<open>
  Rolling back and settling a patch under arbitrary faults, and the patch handler as an instance of the
  settlement contract.
\<close>

section \<open>Rollback\<close>

lemma plans_okD:
  assumes "plans_ok e plans" "p \<in> set plans"
  shows "plan_ok e p" "pn_target p \<notin> temps e (pn_target p)"
  using assms by (auto simp: plans_ok_def)

lemma other_target:
  assumes "plans_ok e plans" "i < length plans" "j < length plans" "i \<noteq> j"
  shows "pn_target (plans ! j) \<notin> insert (pn_target (plans ! i)) (temps e (pn_target (plans ! i)))"
    "pn_path (plans ! j) \<noteq> pn_path (plans ! i)"
proof -
  from assms have d: "distinct (map pn_target plans)" "distinct (map pn_path plans)"
    "\<forall>p \<in> set plans. \<forall>q \<in> set plans. pn_target q \<notin> temps e (pn_target p)" by (simp_all add: plans_ok_def)
  from d(3) assms(2,3) have "pn_target (plans ! j) \<notin> temps e (pn_target (plans ! i))" by simp
  moreover from d(1) assms(2-4) have "pn_target (plans ! j) \<noteq> pn_target (plans ! i)"
    using nth_eq_iff_index_eq [OF d(1), of i j] by auto
  ultimately show "pn_target (plans ! j) \<notin> insert (pn_target (plans ! i)) (temps e (pn_target (plans ! i)))" by simp
  from d(2) assms(2-4) show "pn_path (plans ! j) \<noteq> pn_path (plans ! i)"
    using nth_eq_iff_index_eq [OF d(2), of i j] by auto
qed

text \<open>The fields a rollback leaves alone.\<close>

definition same_run :: "settlement \<Rightarrow> settlement \<Rightarrow> bool" where
  "same_run h g \<longleftrightarrow> st_plans g = st_plans h \<and> st_committed g = st_committed h \<and> st_failure g = st_failure h
     \<and> st_forced g = st_forced h"

text \<open>Only the targets of the plans \<open>is\<close> may have changed their content.\<close>

definition content_off :: "nat set \<Rightarrow> settlement \<Rightarrow> fs \<Rightarrow> fs \<Rightarrow> bool" where
  "content_off is h f g \<longleftrightarrow> (\<forall>j < length (st_plans h). j \<notin> is \<longrightarrow>
     content g (pn_target (st_plans h ! j)) = content f (pn_target (st_plans h ! j)))"

definition has_state :: "settlement \<Rightarrow> nat \<Rightarrow> bool" where
  "has_state h i \<longleftrightarrow> dget (st_states h) (pn_path (st_plans h ! i)) \<noteq> None"

lemma inspect_effect: "inspect e p f = (s, g) \<Longrightarrow> (\<exists>rest. g = f\<lparr>fs_faults := rest\<rparr>) \<or> g = f"
  using read_bytes_effect by (auto simp: inspect_def split: if_splits prod.splits option.splits)

lemma inspect_state: "inspect e p f = (s, g) \<Longrightarrow> \<not> settled_state (Some s)"
  by (auto simp: inspect_def settled_state_def split: if_splits prod.splits option.splits)

lemma rollback_one_sane:
  assumes sane: "sane e (h, f)" and i: "i \<in> set (st_committed h)" and r: "rollback_one e i (h, f) = (h', f')"
  shows "sane e (h', f') \<and> same_run h h' \<and> has_state h' i \<and> (\<forall>j. has_state h j \<longrightarrow> has_state h' j)
     \<and> content_off {i} h f f'"
proof (cases "settled_state (dget (st_states h) (pn_path (st_plans h ! i)))")
  case True
  with r sane show ?thesis by (auto simp: rollback_one_def Let_def same_run_def has_state_def settled_state_def
        content_off_def)
next
  case False
  let ?p = "st_plans h ! i"
  from sane have s: "plans_ok e (st_plans h)" "fs_ok f" "\<forall>p \<in> set (st_plans h). plain f (pn_target p)"
    "i < length (st_plans h)" "content f (pn_target ?p) \<in> {before_content ?p, after_content ?p}"
    using i by (auto simp: sane_def)
  then have mem: "?p \<in> set (st_plans h)" by simp
  obtain q f1 where u: "undo e ?p f = (q, f1)" by (metis surj_pair)
  from undo_effect [OF s(2) _ plans_okD(2) [OF s(1) mem] plans_okD(1) [OF s(1) mem] s(5) u] s(3) mem
  have e1: "steps_off (insert (pn_target ?p) (temps e (pn_target ?p))) f f1" "plain f1 (pn_target ?p)"
    "content f1 (pn_target ?p) \<in> {before_content ?p, after_content ?p}"
    "settled_state q \<longrightarrow> content f1 (pn_target ?p) = before_content ?p" by auto
  obtain st f2 where st: "(case q of Some s \<Rightarrow> (s, f1) | None \<Rightarrow> inspect e ?p f1) = (st, f2)" by (metis surj_pair)
  have e2: "\<exists>rest. f2 = f1\<lparr>fs_faults := rest\<rparr>"
  proof (cases q)
    case None
    with st inspect_effect [of e ?p f1 st f2] show ?thesis by (metis fs.surjective fs.update_convs(4) option.simps(4))
  next
    case (Some x)
    with st have "f2 = f1\<lparr>fs_faults := fs_faults f1\<rparr>" by simp
    then show ?thesis ..
  qed
  have e3: "settled_state (Some st) \<longrightarrow> content f1 (pn_target ?p) = before_content ?p"
    using st e1(4) inspect_state [of e ?p f1 st f2] by (cases q) auto
  have h': "h' = h\<lparr>st_states := dset (pn_path ?p) st (st_states h)\<rparr>" "f' = f2"
    using r False u st by (auto simp: rollback_one_def Let_def split: option.splits)
  have c: "content f' = content f1" "fs_ok f'" "plain f' = plain f1"
    using e2 e1(1) h' by (auto simp: steps_off_def fun_eq_iff)
  have off: "content f' (pn_target (st_plans h ! j)) = content f (pn_target (st_plans h ! j))
      \<and> plain f' (pn_target (st_plans h ! j))" if j: "j < length (st_plans h)" "j \<noteq> i" for j
  proof -
    have "pn_target (st_plans h ! j) \<notin> insert (pn_target ?p) (temps e (pn_target ?p))"
      using other_target(1) [OF s(1) s(4) j(1)] j(2) by simp
    with e1(1) have "content f1 (pn_target (st_plans h ! j)) = content f (pn_target (st_plans h ! j))"
      "fs_nodes f1 (pn_target (st_plans h ! j)) = fs_nodes f (pn_target (st_plans h ! j))"
      by (auto simp: steps_off_def)
    moreover have "plain f (pn_target (st_plans h ! j))" using s(3) j(1) by simp
    ultimately show ?thesis using c plain_nodes by metis
  qed
  have "plain f' (pn_target p)" if p: "p \<in> set (st_plans h)" for p
  proof -
    from p obtain j where j: "j < length (st_plans h)" "p = st_plans h ! j" by (metis in_set_conv_nth)
    show ?thesis using off [OF j(1)] e1(2) c j(2) by (cases "j = i") auto
  qed
  moreover have "j < length (st_plans h) \<and> content f' (pn_target (st_plans h ! j)) \<in>
      {before_content (st_plans h ! j), after_content (st_plans h ! j)}
      \<and> (settled_state (dget (dset (pn_path ?p) st (st_states h)) (pn_path (st_plans h ! j))) \<longrightarrow>
           content f' (pn_target (st_plans h ! j)) = before_content (st_plans h ! j))"
    if j: "j \<in> set (st_committed h)" for j
  proof (cases "j = i")
    case True
    with s(4) e1(3) e3 c show ?thesis by auto
  next
    case False
    from sane j have old: "j < length (st_plans h)"
      "content f (pn_target (st_plans h ! j)) \<in> {before_content (st_plans h ! j), after_content (st_plans h ! j)}"
      "settled_state (dget (st_states h) (pn_path (st_plans h ! j))) \<longrightarrow>
         content f (pn_target (st_plans h ! j)) = before_content (st_plans h ! j)" by (auto simp: sane_def)
    with off [OF old(1) False] other_target(2) [OF s(1) s(4) old(1)] False show ?thesis by auto
  qed
  ultimately have "sane e (h', f')" using s(1) c(2) by (simp add: sane_def h')
  moreover have "content_off {i} h f f'" using off by (simp add: content_off_def)
  ultimately show ?thesis by (auto simp: h' same_run_def has_state_def)
qed

lemma rollback_loop_sane:
  assumes "sane e (h, f)" "set is \<subseteq> set (st_committed h)" "fold (rollback_one e) is (h, f) = (h', f')"
  shows "sane e (h', f') \<and> same_run h h' \<and> (\<forall>i \<in> set is. has_state h' i) \<and> (\<forall>j. has_state h j \<longrightarrow> has_state h' j)
     \<and> content_off (set is) h f f'"
  using assms
proof (induction "is" arbitrary: h f)
  case (Cons i "is")
  obtain h1 f1 where 1: "rollback_one e i (h, f) = (h1, f1)" by (metis surj_pair)
  from rollback_one_sane [OF Cons.prems(1) _ 1] Cons.prems(2) have s: "sane e (h1, f1)" "same_run h h1"
    "has_state h1 i" "\<forall>j. has_state h j \<longrightarrow> has_state h1 j" "content_off {i} h f f1" by auto
  have "sane e (h', f') \<and> same_run h1 h' \<and> (\<forall>i \<in> set is. has_state h' i) \<and> (\<forall>j. has_state h1 j \<longrightarrow> has_state h' j)
      \<and> content_off (set is) h1 f1 f'"
    using Cons.prems 1 s(2) by (intro Cons.IH [OF s(1)]) (auto simp: same_run_def)
  with s show ?case by (auto simp: same_run_def content_off_def)
qed (simp add: same_run_def content_off_def)

lemma set_default_keeps: "dget d k = Some s \<Longrightarrow> dget (fold (\<lambda>p. set_default (pn_path p)) ps d) k = Some s"
proof (induction ps arbitrary: d)
  case (Cons p ps)
  from Cons.prems have "dget (set_default (pn_path p) d) k = Some s"
    by (auto simp: set_default_def split: option.split)
  from Cons.IH [OF this] show ?case by simp
qed simp

lemma rollback_sane:
  assumes "sane e (h, f)" "rollback e (h, f) = (h', f')"
  shows "sane e (h', f') \<and> same_run h h' \<and> (\<forall>i \<in> set (st_committed h). has_state h' i)
     \<and> content_off (set (st_committed h)) h f f'"
proof -
  obtain h1 f1 where 1: "fold (rollback_one e) (rev (st_committed h)) (h, f) = (h1, f1)" by (metis surj_pair)
  from rollback_loop_sane [OF assms(1) _ 1] have s: "sane e (h1, f1)" "same_run h h1"
    "\<forall>i \<in> set (st_committed h). has_state h1 i" "content_off (set (st_committed h)) h f f1" by auto
  from assms(2) 1 have h': "h' = h1\<lparr>st_states := fold (\<lambda>p. set_default (pn_path p)) (st_plans h1) (st_states h1)\<rparr>" "f' = f1"
    by (auto simp: rollback_def)
  have c: "st_committed h1 = st_committed h" using s(2) by (simp add: same_run_def)
  have k: "dget (st_states h') (pn_path (st_plans h1 ! i)) = dget (st_states h1) (pn_path (st_plans h1 ! i))"
    if i: "i \<in> set (st_committed h)" for i
  proof -
    from s(3) i obtain x where "dget (st_states h1) (pn_path (st_plans h1 ! i)) = Some x" by (auto simp: has_state_def)
    from set_default_keeps [OF this] this show ?thesis by (simp add: h')
  qed
  from s(1) have "sane e (h', f')" using k c by (simp add: sane_def h')
  with s k show ?thesis by (auto simp: has_state_def same_run_def h')
qed

section \<open>Staged files\<close>

definition same_plan :: "plan \<Rightarrow> plan \<Rightarrow> bool" where
  "same_plan p q \<longleftrightarrow> q = p \<or> q = p\<lparr>pn_staged := None\<rparr>"

lemma same_planD:
  assumes "same_plan p q"
  shows "pn_target q = pn_target p" "pn_path q = pn_path p" "before_content q = before_content p"
    "after_content q = after_content p" "plan_ok e q = plan_ok e p" "pn_staged q = None \<or> pn_staged q = pn_staged p"
  using assms by (auto simp: same_plan_def before_content_def after_content_def plan_ok_def)

lemma unlink_staged_effect:
  assumes "fs_ok f" "unlink_staged forget ps f = (ok, qs, g)"
  shows "steps_off {n. \<exists>p \<in> set ps. pn_staged p = Some n} f g \<and> list_all2 same_plan ps qs"
  using assms
proof (induction ps arbitrary: f ok qs g)
  case (Cons p ps)
  show ?case
  proof (cases "pn_staged p")
    case None
    obtain ok1 qs1 where 1: "unlink_staged forget ps f = (ok1, qs1, g)" "qs = p # qs1"
      using Cons.prems(2) None by (auto split: prod.splits)
    from Cons.IH [OF Cons.prems(1) 1(1)] 1(2) None show ?thesis
      by (auto simp: same_plan_def elim!: steps_off_mono)
  next
    case (Some n)
    obtain r f1 where u: "os_unlink True n f = (r, f1)" by (metis surj_pair)
    from os_unlink_effect [OF Cons.prems(1) u] have e: "steps_off {n} f f1" "fs_ok f1" by (auto simp: steps_off_def)
    show ?thesis
    proof (cases r)
      case None
      with Cons.prems(2) Some u have "g = f1" "qs = p # ps" by auto
      with e Some show ?thesis by (auto simp: same_plan_def list_all2_same elim!: steps_off_mono)
    next
      case (Some v)
      obtain ok1 qs1 g1 where 1: "unlink_staged forget ps f1 = (ok1, qs1, g1)" by (metis prod_cases3)
      with Cons.prems(2) \<open>pn_staged p = Some n\<close> u Some have q: "g = g1"
        "qs = (if forget then p\<lparr>pn_staged := None\<rparr> else p) # qs1" by auto
      from Cons.IH [OF e(2) 1] have "steps_off ({n} \<union> {n. \<exists>p \<in> set ps. pn_staged p = Some n}) f g1"
        "list_all2 same_plan ps qs1" using steps_off_trans [OF e(1)] by auto
      moreover have "same_plan p (if forget then p\<lparr>pn_staged := None\<rparr> else p)" by (simp add: same_plan_def)
      ultimately show ?thesis using q \<open>pn_staged p = Some n\<close> by (auto elim!: steps_off_mono)
    qed
  qed
qed (simp add: steps_off_refl)

lemma plans_ok_same:
  assumes "plans_ok e ps" "list_all2 same_plan ps qs"
  shows "plans_ok e qs"
proof -
  have l: "length qs = length ps" using assms(2) by (simp add: list_all2_lengthD)
  have n: "same_plan (ps ! i) (qs ! i)" if "i < length ps" for i using assms(2) that by (simp add: list_all2_conv_all_nth)
  have m: "map pn_target qs = map pn_target ps" "map pn_path qs = map pn_path ps"
    using l same_planD(1,2) [OF n] by (auto intro: nth_equalityI)
  have q: "\<exists>p \<in> set ps. same_plan p x" if "x \<in> set qs" for x
    using that l n by (metis in_set_conv_nth)
  have t: "pn_target ` set qs = pn_target ` set ps" using arg_cong [OF m(1), of set] by simp
  from assms(1) show ?thesis
    unfolding plans_ok_def m
  proof (elim conjE, intro conjI ballI)
    fix x assume "\<forall>p \<in> set ps. plan_ok e p" "x \<in> set qs"
    with q [of x] show "plan_ok e x" using same_planD(5) by blast
  next
    fix x y assume a: "\<forall>p \<in> set ps. \<forall>q \<in> set ps. pn_target q \<notin> temps e (pn_target p)" "x \<in> set qs" "y \<in> set qs"
    from q [OF a(2)] q [OF a(3)] obtain p r where "p \<in> set ps" "same_plan p x" "r \<in> set ps" "same_plan r y" by blast
    with a(1) show "pn_target y \<notin> temps e (pn_target x)" by (simp add: same_planD)
  next
    fix x y assume a: "\<forall>p \<in> set ps. \<forall>q \<in> set ps. pn_staged p \<noteq> Some (pn_target q)" "x \<in> set qs" "y \<in> set qs"
    from q [OF a(2)] q [OF a(3)] obtain p r where "p \<in> set ps" "same_plan p x" "r \<in> set ps" "same_plan r y" by blast
    with a(1) show "pn_staged x \<noteq> Some (pn_target y)" using same_planD(1) [of r y] same_planD(6) [of p x] by auto
  qed
qed

lemma cleanup_sane:
  assumes sane: "sane e (h, f)" and c: "cleanup_staged (h, f) = (ok, h', f')"
  shows "sane e (h', f') \<and> st_committed h' = st_committed h \<and> st_failure h' = st_failure h
     \<and> st_forced h' = st_forced h \<and> st_states h' = st_states h \<and> list_all2 same_plan (st_plans h) (st_plans h')
     \<and> (\<forall>p \<in> set (st_plans h). content f' (pn_target p) = content f (pn_target p))"
proof -
  from c obtain qs where u: "unlink_staged True (st_plans h) f = (ok, qs, f')" "h' = h\<lparr>st_plans := qs\<rparr>"
    by (auto simp: cleanup_staged_def split: prod.splits)
  from sane have s: "plans_ok e (st_plans h)" "fs_ok f" "\<forall>p \<in> set (st_plans h). plain f (pn_target p)"
    by (auto simp: sane_def)
  from unlink_staged_effect [OF s(2) u(1)] have e: "steps_off {n. \<exists>p \<in> set (st_plans h). pn_staged p = Some n} f f'"
    "list_all2 same_plan (st_plans h) qs" by auto
  have off: "content f' (pn_target p) = content f (pn_target p) \<and> plain f' (pn_target p)" if "p \<in> set (st_plans h)" for p
  proof -
    have "pn_target p \<notin> {n. \<exists>p \<in> set (st_plans h). pn_staged p = Some n}" using s(1) that by (auto simp: plans_ok_def)
    with e(1) have "content f' (pn_target p) = content f (pn_target p)" "fs_nodes f' (pn_target p) = fs_nodes f (pn_target p)"
      by (auto simp: steps_off_def)
    with s(3) that show ?thesis using plain_nodes by metis
  qed
  have l: "length qs = length (st_plans h)" using e(2) by (simp add: list_all2_lengthD)
  have n: "same_plan (st_plans h ! i) (qs ! i)" if "i < length qs" for i
    using e(2) that l by (simp add: list_all2_conv_all_nth)
  have "plain f' (pn_target q)" if "q \<in> set qs" for q
    using that off n l same_planD(1) by (metis in_set_conv_nth nth_mem)
  moreover have "i < length qs \<and> content f' (pn_target (qs ! i)) \<in> {before_content (qs ! i), after_content (qs ! i)}
      \<and> (settled_state (dget (st_states h) (pn_path (qs ! i))) \<longrightarrow> content f' (pn_target (qs ! i)) = before_content (qs ! i))"
    if "i \<in> set (st_committed h)" for i
  proof -
    from sane that have i: "i < length qs" and o: "content f (pn_target (st_plans h ! i)) \<in>
        {before_content (st_plans h ! i), after_content (st_plans h ! i)}"
      "settled_state (dget (st_states h) (pn_path (st_plans h ! i))) \<longrightarrow>
         content f (pn_target (st_plans h ! i)) = before_content (st_plans h ! i)"
      using l by (auto simp: sane_def)
    have "st_plans h ! i \<in> set (st_plans h)" using i l by simp
    from i o off [OF this] same_planD(1-4) [OF n [OF i]] show ?thesis by simp
  qed
  ultimately have "sane e (h', f')"
    using plans_ok_same [OF s(1) e(2)] e(1) by (simp add: sane_def u(2) steps_off_def)
  with e(2) off show ?thesis by (simp add: u(2))
qed

section \<open>The handler contract\<close>

definition patch_handler :: "patch_env \<Rightarrow> (settlement \<times> fs) handler" where
  "patch_handler e = \<lparr>hd_settle = settle e, hd_force = force_settle e\<rparr>"

definition patch_fresh :: "patch_env \<Rightarrow> settlement \<times> fs \<Rightarrow> bool" where
  "patch_fresh e w \<longleftrightarrow> sane e w \<and> \<not> st_forced (fst w)"

lemma incomplete_states:
  assumes "\<not> incomplete h" "dget (st_states h) k = Some s"
  shows "settled_state (dget (st_states h) k)"
  using assms dget_Some_in [OF assms(2)]
  by (cases s) (auto simp: incomplete_def list_ex_iff settled_state_def)

text \<open>What a settlement keeps and brings about.\<close>

definition resettled :: "patch_env \<Rightarrow> settlement \<times> fs \<Rightarrow> settlement \<times> fs \<Rightarrow> bool" where
  "resettled e w w' \<longleftrightarrow> sane e w' \<and> (\<not> incomplete (fst w') \<longrightarrow> undone w')
     \<and> st_committed (fst w') = st_committed (fst w) \<and> st_failure (fst w') = st_failure (fst w)
     \<and> list_all2 same_plan (st_plans (fst w)) (st_plans (fst w'))
     \<and> content_off (set (st_committed (fst w))) (fst w) (snd w) (snd w')"

lemma finish_settle_sane:
  assumes sane: "sane e w" and st: "\<forall>i \<in> set (st_committed (fst w)). has_state (fst w) i"
    and f: "finish_settle w = (r, w')"
  shows "resettled e w w' \<and> st_forced (fst w') = st_forced (fst w) \<and> (r = RETURNED \<longrightarrow> \<not> incomplete (fst w'))
     \<and> content_off {} (fst w) (snd w) (snd w')"
proof -
  obtain h g where w: "w = (h, g)" by (cases w)
  obtain ok h1 g1 where c: "cleanup_staged (h, g) = (ok, h1, g1)" by (metis prod_cases3)
  from cleanup_sane [OF _ c] sane w have s: "sane e (h1, g1)" "st_committed h1 = st_committed h"
    "st_forced h1 = st_forced h" "st_states h1 = st_states h" "list_all2 same_plan (st_plans h) (st_plans h1)"
    "st_failure h1 = st_failure h" "\<forall>p \<in> set (st_plans h). content g1 (pn_target p) = content g (pn_target p)" by auto
  from f w c have w': "w' = (h1, g1)" "r = RETURNED \<longrightarrow> \<not> incomplete h1"
    by (auto simp: finish_settle_def split: if_splits)
  have "content g1 (pn_target (st_plans h1 ! i)) = before_content (st_plans h1 ! i)"
    if "\<not> incomplete h1" "i \<in> set (st_committed h1)" for i
  proof -
    from s(1) that(2) have i: "i < length (st_plans h1)" by (auto simp: sane_def)
    have "pn_path (st_plans h1 ! i) = pn_path (st_plans h ! i)"
      using s(5) i same_planD(2) by (auto simp: list_all2_conv_all_nth)
    moreover have "has_state h i" using st w that(2) s(2) by simp
    ultimately obtain x where "dget (st_states h1) (pn_path (st_plans h1 ! i)) = Some x"
      by (auto simp: has_state_def s(4))
    from incomplete_states [OF that(1) this] that(2) s(1) show ?thesis by (auto simp: sane_def)
  qed
  moreover have "content_off A h g g1" for A using s(7) by (simp add: content_off_def)
  ultimately show ?thesis using s w w' by (simp add: undone_def resettled_def)
qed

lemma rollback_resettled:
  assumes "sane e (h, f)" "rollback e (h, f) = (h1, f1)" "finish_settle (h1, f1) = (r, w')"
  shows "resettled e (h, f) w' \<and> st_forced (fst w') = st_forced h \<and> (r = RETURNED \<longrightarrow> \<not> incomplete (fst w'))"
proof -
  from rollback_sane [OF assms(1,2)] have s: "sane e (h1, f1)" "same_run h h1"
    "\<forall>i \<in> set (st_committed h). has_state h1 i" "content_off (set (st_committed h)) h f f1" by auto
  from finish_settle_sane [OF s(1) _ assms(3)] s show ?thesis
    by (auto simp: same_run_def content_off_def resettled_def)
qed

lemma settle_sane:
  assumes "patch_fresh e w" "settle e w = (r, w')"
  shows "resettled e w w' \<and> \<not> st_forced (fst w') \<and> (r = RETURNED \<longrightarrow> \<not> incomplete (fst w'))
     \<and> (\<not> st_failure (fst w) \<longrightarrow> content_off {} (fst w) (snd w) (snd w'))"
proof (cases "st_failure (fst w)")
  case True
  obtain h f where w: "w = (h, f)" by (cases w)
  obtain h1 f1 where 1: "rollback e (h, f) = (h1, f1)" by (metis surj_pair)
  from assms(1) w have "sane e (h, f)" by (simp add: patch_fresh_def)
  moreover have "finish_settle (h1, f1) = (r, w')" using assms(2) w True 1 by (simp add: settle_def)
  ultimately show ?thesis using rollback_resettled [OF _ 1] assms(1) w True by (simp add: patch_fresh_def)
next
  case False
  obtain h f where w: "w = (h, f)" by (cases w)
  obtain ok h1 g1 where c: "cleanup_staged (h, f) = (ok, h1, g1)" by (metis prod_cases3)
  have "sane e (h, f)" "\<not> st_forced h" using assms(1) w by (auto simp: patch_fresh_def)
  from cleanup_sane [OF this(1) c] this(2) have "sane e (h1, g1)" "\<not> st_failure h1" "\<not> st_forced h1"
    "list_all2 same_plan (st_plans h) (st_plans h1)" "\<forall>A. content_off A h f g1" "st_committed h1 = st_committed h"
    using False w by (auto simp: content_off_def)
  moreover have "w' = (h1, g1)" "r = RETURNED \<longrightarrow> \<not> incomplete h1"
    using assms(2) w False c by (auto simp: settle_def finish_settle_def split: if_splits)
  ultimately show ?thesis using w False by (simp add: undone_def resettled_def)
qed

lemma force_settle_sane:
  assumes "sane e w" "force_settle e w = (r, w')"
  shows "resettled e w w' \<and> st_forced (fst w') \<and> (r = RETURNED \<longrightarrow> \<not> incomplete (fst w'))"
proof -
  obtain h f where w: "w = (h, f)" by (cases w)
  let ?h = "h\<lparr>st_forced := True\<rparr>"
  obtain h1 f1 where 1: "rollback e (?h, f) = (h1, f1)" by (metis surj_pair)
  from assms(1) w have s: "sane e (?h, f)" by (simp add: sane_def)
  have "finish_settle (h1, f1) = (r, w')" using assms(2) w 1 by (simp add: force_settle_def)
  from rollback_resettled [OF s 1 this] w show ?thesis by (simp add: resettled_def content_off_def)
qed

lemma patch_settlement_laws:
  "patch_fresh e w \<Longrightarrow> hd_settle (patch_handler e) w = (r, w') \<Longrightarrow> sane e w'"
  "sane e w \<Longrightarrow> hd_force (patch_handler e) w = (r, w') \<Longrightarrow> sane e w'"
  "patch_fresh e w \<Longrightarrow> hd_settle (patch_handler e) w = (RETURNED, w') \<Longrightarrow> undone w'"
  "sane e w \<Longrightarrow> hd_force (patch_handler e) w = (RETURNED, w') \<Longrightarrow> undone w'"
  using settle_sane [of e w _ w'] force_settle_sane [of e w _ w'] by (auto simp: patch_handler_def resettled_def)

interpretation patch: settlement_handler "patch_handler e" "patch_fresh e" "sane e" undone for e
  by unfold_locales (auto intro: patch_settlement_laws)

end
