(* ===== verification/PatchCommit.thy ===== *)
theory PatchCommit
  imports PatchSettle
begin

text \<open>
  Committing staged plans under arbitrary faults: how far a commit got, and what the whole transaction,
  commit and settlement, leaves in every target.
\<close>

section \<open>Sole links survive calls on other names\<close>

lemma owns_stable:
  assumes "owns f q" "fs_nodes g q = fs_nodes f q"
    and "\<And>x j. fs_nodes f q = Some (File j) \<Longrightarrow> fs_nodes g x = Some (File j) \<Longrightarrow> fs_nodes f x = Some (File j)"
  shows "owns g q"
  using assms unfolding owns_def by metis

lemma owns_other: "owns f q \<Longrightarrow> fs_nodes f p = Some (File i) \<Longrightarrow> q \<noteq> p \<Longrightarrow> fs_nodes f q \<noteq> Some (File i)"
  unfolding owns_def by (metis node.inject(1) option.inject)

lemma owns_link:
  assumes "os_link src dst f = (r, g)" "owns f q" "q \<noteq> src" "q \<noteq> dst"
  shows "owns g q"
  using assms(1) unfolding os_link_def
proof (rule os_call_cases)
  fix rest assume "g = f\<lparr>fs_faults := rest\<rparr>" with assms(2) show ?thesis by simp
next
  fix rest
  let ?f = "f\<lparr>fs_faults := rest\<rparr>"
  assume h: "(case (fs_nodes ?f src, fs_nodes ?f dst) of
      (Some (File i), None) \<Rightarrow> (Some (), ?f\<lparr>fs_nodes := (fs_nodes ?f)(dst := Some (File i))\<rparr>)
    | _ \<Rightarrow> (None, ?f)) = (r, g)"
  show ?thesis
  proof (cases "\<exists>i. fs_nodes f src = Some (File i) \<and> fs_nodes f dst = None")
    case True
    then obtain i where i: "fs_nodes f src = Some (File i)" "fs_nodes f dst = None" by blast
    have "g = ?f\<lparr>fs_nodes := (fs_nodes f)(dst := Some (File i))\<rparr>" using h i by simp
    with owns_other [OF assms(2) i(1) assms(3)] assms(4) show ?thesis
      by (intro owns_stable [OF assms(2)]) (auto split: if_splits)
  next
    case False
    then have "g = ?f" using h by (auto split: option.splits node.splits)
    with assms(2) show ?thesis by simp
  qed
qed

lemma owns_replace:
  assumes "os_replace src dst f = (r, g)" "owns f q" "q \<noteq> src" "q \<noteq> dst"
  shows "owns g q"
  using assms(1) unfolding os_replace_def
proof (rule os_call_cases)
  fix rest assume "g = f\<lparr>fs_faults := rest\<rparr>" with assms(2) show ?thesis by simp
next
  fix rest
  let ?f = "f\<lparr>fs_faults := rest\<rparr>"
  assume h: "(case (fs_nodes ?f src, fs_nodes ?f dst) of (Some (File i), Some Dir) \<Rightarrow> (None, ?f)
     | (Some (File i), d) \<Rightarrow> if d = Some (File i) then (Some (), ?f)
         else (Some (), ?f\<lparr>fs_nodes := (fs_nodes ?f)(src := None, dst := Some (File i))\<rparr>)
     | _ \<Rightarrow> (None, ?f)) = (r, g)"
  show ?thesis
  proof (cases "g = ?f")
    case False
    then obtain i where i: "fs_nodes f src = Some (File i)"
      "g = ?f\<lparr>fs_nodes := (fs_nodes f)(src := None, dst := Some (File i))\<rparr>"
      using h by (auto split: option.splits node.splits if_splits)
    with owns_other [OF assms(2) i(1) assms(3)] assms(3,4) show ?thesis
      by (intro owns_stable [OF assms(2)]) (auto split: if_splits)
  qed (use assms(2) in simp)
qed

lemma owns_unlink:
  assumes "os_unlink m p f = (r, g)" "owns f q" "q \<noteq> p"
  shows "owns g q"
  using assms(1) unfolding os_unlink_def
proof (rule os_call_cases)
  fix rest assume "g = f\<lparr>fs_faults := rest\<rparr>" with assms(2) show ?thesis by simp
next
  fix rest
  assume "(case fs_nodes (f\<lparr>fs_faults := rest\<rparr>) p of None \<Rightarrow> if m then (Some (), f\<lparr>fs_faults := rest\<rparr>) else (None, f\<lparr>fs_faults := rest\<rparr>)
     | Some Dir \<Rightarrow> (None, f\<lparr>fs_faults := rest\<rparr>)
     | Some _ \<Rightarrow> (Some (), f\<lparr>fs_faults := rest, fs_nodes := (fs_nodes (f\<lparr>fs_faults := rest\<rparr>))(p := None)\<rparr>)) = (r, g)"
  then have "fs_nodes g x = fs_nodes f x \<or> x = p \<and> fs_nodes g x = None" for x
    by (auto split: option.splits node.splits if_splits)
  with assms(3) show ?thesis by (intro owns_stable [OF assms(2)]) (metis option.distinct(1))+
qed

section \<open>The state of a commit\<close>

text \<open>\<open>committing e k (h, f)\<close>: the first \<open>k\<close> plans are done, the others are staged and untouched.\<close>

definition staged_ok :: "fs \<Rightarrow> plan \<Rightarrow> bool" where
  "staged_ok f p \<longleftrightarrow> pn_after p = None
     \<or> (\<exists>n. pn_staged p = Some n \<and> owns f n \<and> content f n = after_content p)"

definition staged_apart :: "plan list \<Rightarrow> bool" where
  "staged_apart ps \<longleftrightarrow> (\<forall>i < length ps. \<forall>j < length ps. i \<noteq> j \<longrightarrow> pn_staged (ps ! i) \<noteq> None \<longrightarrow>
     pn_staged (ps ! i) \<noteq> pn_staged (ps ! j))"

definition committing :: "patch_env \<Rightarrow> nat \<Rightarrow> settlement \<Rightarrow> fs \<Rightarrow> bool" where
  "committing e k h f \<longleftrightarrow> plans_ok e (st_plans h) \<and> fs_ok f \<and> staged_apart (st_plans h)
     \<and> (\<forall>p \<in> set (st_plans h). plain f (pn_target p))
     \<and> st_committed h = [0..<k] \<and> k \<le> length (st_plans h) \<and> st_states h = [] \<and> \<not> st_failure h \<and> \<not> st_forced h
     \<and> (\<forall>i < k. content f (pn_target (st_plans h ! i)) = after_content (st_plans h ! i))
     \<and> (\<forall>i < length (st_plans h). k \<le> i \<longrightarrow> staged_ok f (st_plans h ! i)
          \<and> content f (pn_target (st_plans h ! i)) = before_content (st_plans h ! i))"

text \<open>A commit that stopped at plan \<open>k\<close>.\<close>

definition stopped :: "patch_env \<Rightarrow> nat \<Rightarrow> settlement \<Rightarrow> fs \<Rightarrow> bool" where
  "stopped e k h f \<longleftrightarrow> k < length (st_plans h) \<and> st_committed h = [0..<k] \<and> \<not> st_forced h \<and> st_states h = []
     \<and> (\<forall>i < k. content f (pn_target (st_plans h ! i)) = after_content (st_plans h ! i))
     \<and> (\<forall>i < length (st_plans h). k < i \<longrightarrow> content f (pn_target (st_plans h ! i)) = before_content (st_plans h ! i))
     \<and> (content f (pn_target (st_plans h ! k)) = before_content (st_plans h ! k)
        \<or> pn_operation (st_plans h ! k) = ADDED \<and> content f (pn_target (st_plans h ! k)) = after_content (st_plans h ! k))"

text \<open>The calls of plan \<open>k\<close>: what they touch, and the content they give the target.\<close>

definition commit_calls :: "plan \<Rightarrow> fs \<Rightarrow> unit option \<times> fs" where
  "commit_calls p f = (case pn_operation p of
       ADDED \<Rightarrow> os_seq [os_link (the (pn_staged p)) (pn_target p), os_unlink False (the (pn_staged p))] f
     | MODIFIED \<Rightarrow> os_replace (the (pn_staged p)) (pn_target p) f
     | DELETED \<Rightarrow> os_unlink False (pn_target p) f)"

definition touched :: "plan \<Rightarrow> path set" where
  "touched p = insert (pn_target p) (case pn_staged p of None \<Rightarrow> {} | Some n \<Rightarrow> {n})"

lemma commit_calls_effect:
  assumes ok: "fs_ok f" and po: "plan_ok e p" and pl: "plain f (pn_target p)" and st: "staged_ok f p"
    and c: "content f (pn_target p) = before_content p" and ne: "pn_staged p \<noteq> Some (pn_target p)"
    and g: "commit_calls p f = (r, g)"
  shows "steps_off (touched p) f g \<and> plain g (pn_target p)
     \<and> (\<forall>q. owns f q \<longrightarrow> q \<notin> touched p \<longrightarrow> owns g q)
     \<and> (r = Some () \<longrightarrow> content g (pn_target p) = after_content p)
     \<and> (r = None \<longrightarrow> content g (pn_target p) = before_content p
          \<or> pn_operation p = ADDED \<and> content g (pn_target p) = after_content p)"
proof (cases "pn_operation p")
  case ADDED
  with po st obtain n where n: "pn_staged p = Some n" "owns f n" "content f n = after_content p"
    by (auto simp: plan_ok_def staged_ok_def)
  have nt: "n \<noteq> pn_target p" using n(1) ne by simp
  obtain r1 f1 where 1: "os_link n (pn_target p) f = (r1, f1)" by (metis surj_pair)
  from os_link_effect [OF ok 1] have e1: "steps_off {pn_target p} f f1"
    "r1 = None \<longrightarrow> fs_nodes f1 = fs_nodes f \<and> content f1 (pn_target p) = content f (pn_target p)"
    "r1 = Some () \<longrightarrow> plain f1 (pn_target p) \<and> content f1 (pn_target p) = content f n" by auto
  show ?thesis
  proof (cases r1)
    case None
    with g ADDED n 1 have "g = f1" "r = None" by (auto simp: commit_calls_def)
    with e1 None c pl owns_link [OF 1] n(1) show ?thesis
      by (auto simp: touched_def plain_nodes [of f1 _ f] elim: steps_off_mono)
  next
    case (Some u)
    obtain r2 f2 where 2: "os_unlink False n f1 = (r2, f2)" by (metis surj_pair)
    have "fs_ok f1" using e1(1) by (simp add: steps_off_def)
    from os_unlink_effect [OF this 2] have e2: "steps_off {n} f1 f2" by simp
    from g ADDED n 1 2 Some have gf: "g = f2" "r = r2" by (cases r2; auto simp: commit_calls_def)+
    have "content f2 (pn_target p) = content f1 (pn_target p)" "plain f2 (pn_target p) = plain f1 (pn_target p)"
      using e2 nt by (auto simp: steps_off_def plain_nodes [of f2 _ f1])
    moreover have "steps_off (touched p) f f2"
      using steps_off_mono [OF steps_off_trans [OF e1(1) e2]] n(1) by (auto simp: touched_def)
    moreover have "owns f2 q" if "owns f q" "q \<notin> touched p" for q
      using owns_unlink [OF 2 owns_link [OF 1]] that n(1) by (auto simp: touched_def)
    ultimately show ?thesis using e1(3) Some n(3) ADDED unfolding gf by auto
  qed
next
  case MODIFIED
  with po st obtain n where n: "pn_staged p = Some n" "owns f n" "content f n = after_content p"
    by (auto simp: plan_ok_def staged_ok_def)
  have nt: "n \<noteq> pn_target p" using n(1) ne by simp
  from g MODIFIED n have 1: "os_replace n (pn_target p) f = (r, g)" by (simp add: commit_calls_def)
  from os_replace_effect [OF ok n(2) 1 nt] have e1: "steps_off (touched p) f g"
    "r = None \<longrightarrow> fs_nodes g = fs_nodes f \<and> content g (pn_target p) = content f (pn_target p)"
    "r = Some () \<longrightarrow> owns g (pn_target p) \<and> content g (pn_target p) = content f n"
    using n(1) by (auto simp: touched_def insert_commute)
  have "plain g (pn_target p)" using e1(2,3) owns_plain pl plain_nodes [of g _ f] by (cases r) auto
  with e1 owns_replace [OF 1] n c show ?thesis by (auto simp: touched_def)
next
  case DELETED
  then have a: "after_content p = None" using po by (simp add: plan_ok_def after_content_def)
  from g DELETED have 1: "os_unlink False (pn_target p) f = (r, g)" by (simp add: commit_calls_def)
  show ?thesis
  proof (cases r)
    case None
    have "fs_nodes g = fs_nodes f \<and> content g = content f"
      using 1 None unfolding os_unlink_def
      by (rule_tac os_call_cases) (auto simp: fun_eq_iff split: option.splits node.splits if_splits)
    with None os_unlink_effect [OF ok 1] pl c owns_unlink [OF 1] show ?thesis
      by (auto simp: touched_def elim: steps_off_mono)
  next
    case (Some u)
    with os_unlink_effect [OF ok 1] pl have "plain g (pn_target p)" "content g (pn_target p) = None"
      by (auto simp: content_def)
    with os_unlink_effect [OF ok 1] Some a owns_unlink [OF 1] show ?thesis
      by (auto simp: touched_def elim: steps_off_mono)
  qed
qed

lemma commit_one_calls:
  assumes "pn_operation (st_plans h ! i) \<noteq> DELETED \<Longrightarrow> pn_staged (st_plans h ! i) \<noteq> None"
  shows "commit_one i h f = (case commit_calls (st_plans h ! i) f of
      (None, g) \<Rightarrow> (False, h, g)
    | (Some _, g) \<Rightarrow> (True, (if pn_operation (st_plans h ! i) = DELETED then h else set_staged i h)
        \<lparr>st_committed := st_committed h @ [i]\<rparr>, g))"
  using assms by (cases "pn_operation (st_plans h ! i)")
    (auto simp: commit_one_def commit_calls_def Let_def set_staged_def split: prod.splits option.splits)

section \<open>The commit loop\<close>

lemma touched_apart:
  assumes "plans_ok e ps" "staged_apart ps" "k < length ps" "j < length ps" "j \<noteq> k"
  shows "pn_target (ps ! j) \<notin> touched (ps ! k)" "pn_staged (ps ! j) = Some n \<Longrightarrow> n \<notin> touched (ps ! k)"
proof -
  have t: "pn_target (ps ! j) \<noteq> pn_target (ps ! k)" using other_target(1) [OF assms(1) assms(3,4)] assms(5) by auto
  have s: "pn_staged (ps ! a) \<noteq> Some (pn_target (ps ! b))" if "a < length ps" "b < length ps" for a b
    using assms(1) that by (auto simp: plans_ok_def)
  from t s [OF assms(3,4)] show "pn_target (ps ! j) \<notin> touched (ps ! k)" by (auto simp: touched_def split: option.split)
  assume n: "pn_staged (ps ! j) = Some n"
  from assms(2) have "pn_staged (ps ! j) \<noteq> None \<longrightarrow> pn_staged (ps ! j) \<noteq> pn_staged (ps ! k)"
    using assms(3-5) unfolding staged_apart_def by blast
  with n s [OF assms(4,3)] show "n \<notin> touched (ps ! k)"
    unfolding touched_def by (auto split: option.split)
qed

lemma same_plan_set_staged:
  "i < length (st_plans h) \<Longrightarrow> list_all2 same_plan (st_plans h) (st_plans (set_staged i h))"
  by (auto simp: set_staged_def list_all2_conv_all_nth same_plan_def nth_list_update)

lemma same_plan_refl: "list_all2 same_plan ps ps"
  by (simp add: list_all2_same same_plan_def)

lemma same_plan_trans: "list_all2 same_plan ps qs \<Longrightarrow> list_all2 same_plan qs rs \<Longrightarrow> list_all2 same_plan ps rs"
  by (rule list_all2_trans [of same_plan same_plan same_plan]) (auto simp: same_plan_def)

lemma commit_step:
  assumes c: "committing e k h f" and k: "k < length (st_plans h)"
  shows "\<exists>ok h' f'. commit_one k h f = (ok, h', f') \<and> list_all2 same_plan (st_plans h) (st_plans h')
    \<and> (ok \<longrightarrow> committing e (k + 1) h' f')
    \<and> (\<not> ok \<longrightarrow> stopped e k h' f' \<and> sane e (h', f'))"
proof -
  let ?ps = "st_plans h" and ?p = "st_plans h ! k"
  from c have C: "plans_ok e ?ps" "fs_ok f" "staged_apart ?ps" "\<forall>p \<in> set ?ps. plain f (pn_target p)"
    "st_committed h = [0..<k]" "st_states h = []" "\<not> st_failure h" "\<not> st_forced h"
    "\<forall>i < k. content f (pn_target (?ps ! i)) = after_content (?ps ! i)"
    "\<forall>i < length ?ps. k \<le> i \<longrightarrow> staged_ok f (?ps ! i) \<and> content f (pn_target (?ps ! i)) = before_content (?ps ! i)"
    by (simp_all add: committing_def)
  have mem: "?p \<in> set ?ps" using k by simp
  have po: "plan_ok e ?p" and ne: "pn_staged ?p \<noteq> Some (pn_target ?p)"
    using C(1) mem by (auto simp: plans_ok_def)
  have stk: "staged_ok f ?p" "content f (pn_target ?p) = before_content ?p" using C(10) k by auto
  obtain r g where g: "commit_calls ?p f = (r, g)" by (metis surj_pair)
  from commit_calls_effect [OF C(2) po _ stk ne g] C(4) mem have E: "steps_off (touched ?p) f g"
    "plain g (pn_target ?p)" "\<forall>q. owns f q \<longrightarrow> q \<notin> touched ?p \<longrightarrow> owns g q"
    "r = Some () \<longrightarrow> content g (pn_target ?p) = after_content ?p"
    "r = None \<longrightarrow> content g (pn_target ?p) = before_content ?p
       \<or> pn_operation ?p = ADDED \<and> content g (pn_target ?p) = after_content ?p" by auto
  have off: "content g (pn_target (?ps ! j)) = content f (pn_target (?ps ! j)) \<and> plain g (pn_target (?ps ! j))"
    if "j < length ?ps" "j \<noteq> k" for j
  proof -
    from E(1) touched_apart(1) [OF C(1,3) k that] have
      "content g (pn_target (?ps ! j)) = content f (pn_target (?ps ! j))"
      "fs_nodes g (pn_target (?ps ! j)) = fs_nodes f (pn_target (?ps ! j))" by (auto simp: steps_off_def)
    with C(4) that(1) plain_nodes show ?thesis by (metis nth_mem)
  qed
  have pl: "\<forall>p \<in> set ?ps. plain g (pn_target p)"
    using off E(2) by (metis in_set_conv_nth)
  have stj: "staged_ok g (?ps ! j)" if "j < length ?ps" "k < j" for j
  proof (cases "pn_after (?ps ! j)")
    case (Some a)
    with C(10) that obtain n where n: "pn_staged (?ps ! j) = Some n" "owns f n" "content f n = after_content (?ps ! j)"
      by (auto simp: staged_ok_def)
    from touched_apart(2) [OF C(1,3) k that(1) _ n(1)] that(2) have "n \<notin> touched ?p" by simp
    with E(1,3) n show ?thesis by (auto simp: staged_ok_def steps_off_def)
  qed (simp add: staged_ok_def)
  have need: "pn_operation ?p \<noteq> DELETED \<Longrightarrow> pn_staged ?p \<noteq> None"
    using po stk(1) by (auto simp: plan_ok_def staged_ok_def)
  show ?thesis
  proof (cases r)
    case None
    with commit_one_calls [OF need] g have one: "commit_one k h f = (False, h, g)" by simp
    have st: "stopped e k h g" using k C(5,6,8-10) off E(5) None by (auto simp: stopped_def)
    have "sane e (h, g)"
      using C(1,5,6,9) pl E(1) off k by (auto simp: sane_def steps_off_def settled_state_def)
    with one st show ?thesis using same_plan_refl by auto
  next
    case (Some u)
    let ?h = "(if pn_operation ?p = DELETED then h else set_staged k h)\<lparr>st_committed := st_committed h @ [k]\<rparr>"
    from commit_one_calls [OF need] g Some have one: "commit_one k h f = (True, ?h, g)" by simp
    have sp: "list_all2 same_plan ?ps (st_plans ?h)"
      using same_plan_set_staged [OF k] same_plan_refl [of ?ps] by simp
    have len: "length (st_plans ?h) = length ?ps" using sp by (simp add: list_all2_lengthD)
    have nth: "same_plan (?ps ! j) (st_plans ?h ! j)" if "j < length ?ps" for j
      using sp that by (simp add: list_all2_conv_all_nth)
    have same: "st_plans ?h ! j = ?ps ! j" if "j \<noteq> k" for j
      using that by (simp add: set_staged_def)
    have "plain g (pn_target p)" if "p \<in> set (st_plans ?h)" for p
    proof -
      from that obtain j where j: "j < length (st_plans ?h)" "p = st_plans ?h ! j"
        unfolding in_set_conv_nth by blast
      then have j': "j < length ?ps" unfolding len by simp
      with pl have "plain g (pn_target (?ps ! j))" by simp
      with same_planD(1) [OF nth [OF j']] show ?thesis unfolding j(2) by simp
    qed
    moreover have "staged_apart (st_plans ?h)"
      unfolding staged_apart_def len
    proof (intro allI impI)
      fix i j assume ij: "i < length ?ps" "j < length ?ps" "i \<noteq> j" "pn_staged (st_plans ?h ! i) \<noteq> None"
      from same_planD(6) [OF nth [OF ij(1)]] ij(4) have i: "pn_staged (st_plans ?h ! i) = pn_staged (?ps ! i)" by blast
      with C(3) ij have "pn_staged (?ps ! i) \<noteq> pn_staged (?ps ! j)" unfolding staged_apart_def by metis
      with same_planD(6) [OF nth [OF ij(2)]] i ij(4)
      show "pn_staged (st_plans ?h ! i) \<noteq> pn_staged (st_plans ?h ! j)" by metis
    qed
    moreover have "content g (pn_target (st_plans ?h ! i)) = after_content (st_plans ?h ! i)" if "i < k + 1" for i
    proof (cases "i = k")
      case True
      with E(4) Some nth [OF k] show ?thesis by (simp add: same_planD)
    next
      case False
      with that k have "i < length ?ps" "i < k" by auto
      with off [of i] C(9) False same [OF False] show ?thesis by simp
    qed
    moreover have "staged_ok g (st_plans ?h ! i) \<and> content g (pn_target (st_plans ?h ! i)) = before_content (st_plans ?h ! i)"
      if "i < length (st_plans ?h)" "k + 1 \<le> i" for i
      using stj [of i] off [of i] C(10) that len same [of i] by auto
    ultimately have "committing e (k + 1) ?h g"
      using plans_ok_same [OF C(1) sp] E(1) C(5-8) k len
      by (simp add: committing_def steps_off_def set_staged_def)
    with one sp show ?thesis by auto
  qed
qed

lemma commit_loop_spec:
  assumes "committing e k h f"
  shows "\<exists>h' f'. commit_loop [k..<length (st_plans h)] h f = (h', f')
    \<and> list_all2 same_plan (st_plans h) (st_plans h')
    \<and> (\<not> st_failure h' \<longrightarrow> committing e (length (st_plans h)) h' f')
    \<and> (st_failure h' \<longrightarrow> (\<exists>j. stopped e j h' f') \<and> sane e (h', f'))"
  using assms
proof (induction "length (st_plans h) - k" arbitrary: k h f)
  case 0
  then have "k = length (st_plans h)" by (simp add: committing_def)
  with 0 show ?case using same_plan_refl by (auto simp: committing_def)
next
  case (Suc n)
  then have k: "k < length (st_plans h)" by simp
  from commit_step [OF Suc.prems k] obtain ok h1 f1 where 1: "commit_one k h f = (ok, h1, f1)"
    "list_all2 same_plan (st_plans h) (st_plans h1)" "ok \<longrightarrow> committing e (k + 1) h1 f1"
    "\<not> ok \<longrightarrow> stopped e k h1 f1 \<and> sane e (h1, f1)" by blast
  have l: "length (st_plans h1) = length (st_plans h)" using 1(2) by (simp add: list_all2_lengthD)
  have up: "[k..<length (st_plans h)] = k # [k + 1..<length (st_plans h)]" using k by (simp add: upt_conv_Cons)
  show ?case
  proof (cases ok)
    case True
    have "n = length (st_plans h1) - (k + 1)" using Suc.hyps(2) l by simp
    from Suc.hyps(1) [OF this] 1(3) True obtain h' f' where
      "commit_loop [k + 1..<length (st_plans h1)] h1 f1 = (h', f')" "list_all2 same_plan (st_plans h1) (st_plans h')"
      "\<not> st_failure h' \<longrightarrow> committing e (length (st_plans h1)) h' f'"
      "st_failure h' \<longrightarrow> (\<exists>j. stopped e j h' f') \<and> sane e (h', f')" by blast
    with True 1(1,2) same_plan_trans l up show ?thesis by auto
  next
    case False
    let ?h = "h1\<lparr>st_failure := True\<rparr>"
    have "stopped e k ?h f1" "sane e (?h, f1)" using 1(4) False by (auto simp: stopped_def sane_def)
    with False 1(1,2) up show ?thesis by auto
  qed
qed

lemma committing_sane: "committing e k h f \<Longrightarrow> sane e (h, f)"
  by (auto simp: committing_def sane_def settled_state_def)

text \<open>A staged transaction, before anything is committed.\<close>

definition ready :: "patch_env \<Rightarrow> plan list \<Rightarrow> fs \<Rightarrow> bool" where
  "ready e plans f \<longleftrightarrow> plans_ok e plans \<and> fs_ok f \<and> staged_apart plans
     \<and> (\<forall>p \<in> set plans. plain f (pn_target p) \<and> staged_ok f p \<and> content f (pn_target p) = before_content p)"

lemma ready_committing: "ready e plans f \<Longrightarrow> committing e 0 (new_settlement plans) f"
  by (auto simp: ready_def committing_def new_settlement_def)

lemma commit_spec:
  assumes "ready e plans f" "commit (new_settlement plans) f = (h, g)"
  shows "patch_fresh e (h, g) \<and> list_all2 same_plan plans (st_plans h)
    \<and> (\<not> st_failure h \<longrightarrow> committing e (length plans) h g) \<and> (st_failure h \<longrightarrow> (\<exists>j. stopped e j h g))"
proof -
  from commit_loop_spec [OF ready_committing [OF assms(1)]] assms(2)
  have s: "list_all2 same_plan plans (st_plans h)" "\<not> st_failure h \<longrightarrow> committing e (length plans) h g"
    "st_failure h \<longrightarrow> (\<exists>j. stopped e j h g) \<and> sane e (h, g)"
    by (auto simp: commit_def new_settlement_def)
  then have "patch_fresh e (h, g)"
    by (cases "st_failure h") (auto simp: patch_fresh_def committing_sane stopped_def committing_def dest: committing_sane)
  with s show ?thesis by blast
qed

end
