(* ===== verification/PatchTool.thy ===== *)
theory PatchTool
  imports PatchCommit
begin

text \<open>
  The \<open>apply_patch\<close> handler as a whole: the order of its checks, the settlement barrier around the
  commit, and the effects, records and results it reports.
\<close>

section \<open>Reports\<close>

definition operation_text :: "operation \<Rightarrow> pystr" where
  "operation_text op = ascii (case op of ADDED \<Rightarrow> ''added'' | MODIFIED \<Rightarrow> ''modified'' | DELETED \<Rightarrow> ''deleted'')"

definition state_text :: "target_state \<Rightarrow> pystr" where
  "state_text s = ascii (case s of S_COMMITTED \<Rightarrow> ''committed'' | S_RESTORED \<Rightarrow> ''restored''
     | S_UNCHANGED \<Rightarrow> ''unchanged'' | S_UNKNOWN \<Rightarrow> ''unknown'')"

definition plan_state :: "settlement \<Rightarrow> plan \<Rightarrow> target_state" where
  "plan_state h p = or_else (dget (st_states h) (pn_path p)) S_UNKNOWN"

definition failure_effect :: "settlement \<Rightarrow> pystr \<Rightarrow> plan \<Rightarrow> string + effect" where
  "failure_effect h call p =
     (if plan_state h p = S_COMMITTED
      then make_effect call (ascii ''apply_patch'') SIDE_EFFECTING EF_SUCCEEDED
             (Some (ToolJsonContent (JObj [(ascii ''path'', JStr (pn_path p)),
                (ascii ''rollback_state'', JStr (state_text (plan_state h p)))])))
             None False None (Some CERTAIN)
      else bind_res (make_tool_error (ascii ''patch_rollback_failed'') (ascii ''Patch target state is unknown.'') False)
             (\<lambda>error. make_effect call (ascii ''apply_patch'') SIDE_EFFECTING EF_UNKNOWN None (Some error) False None
                (Some CERTAINTY_UNKNOWN)))"

definition failure_effects :: "settlement \<Rightarrow> pystr \<Rightarrow> string + effect list" where
  "failure_effects h call =
     map_res (failure_effect h call) (filter (\<lambda>p. plan_state h p \<in> {S_COMMITTED, S_UNKNOWN}) (st_plans h))"

definition rollback_record :: "settlement \<Rightarrow> supplemental" where
  "rollback_record h =
     \<lparr>sp_status = RS_UNKNOWN, sp_error_code = Some (ascii ''patch_rollback_failed''),
      sp_evidence = Some [(ascii ''patch_target_states'', JArr (map (\<lambda>p.
        JObj [(ascii ''path'', JStr (pn_path p)), (ascii ''state'', JStr (state_text (plan_state h p)))]) (st_plans h)))]\<rparr>"

definition optional_text :: "pystr option \<Rightarrow> json" where
  "optional_text s = (case s of None \<Rightarrow> JNull | Some t \<Rightarrow> JStr t)"

definition success_effect :: "pystr \<Rightarrow> plan \<Rightarrow> string + effect" where
  "success_effect call p =
     make_effect call (ascii ''apply_patch'') SIDE_EFFECTING EF_SUCCEEDED
       (Some (ToolJsonContent (JObj [(ascii ''path'', JStr (pn_path p)),
          (ascii ''operation'', JStr (operation_text (pn_operation p))),
          (ascii ''before_digest'', optional_text (pn_before_digest p)),
          (ascii ''after_digest'', optional_text (pn_after_digest p))])))
       None False None (Some CERTAIN)"

definition count_operation :: "operation \<Rightarrow> plan list \<Rightarrow> json" where
  "count_operation op plans = JInt (int (length (filter (\<lambda>p. pn_operation p = op) plans)))"

definition result_object :: "json list \<Rightarrow> nat \<Rightarrow> plan list \<Rightarrow> bool \<Rightarrow> jobj" where
  "result_object files omitted plans truncated =
     [(ascii ''files'', JArr files), (ascii ''files_omitted'', JInt (int omitted)),
      (ascii ''added'', count_operation ADDED plans), (ascii ''modified'', count_operation MODIFIED plans),
      (ascii ''deleted'', count_operation DELETED plans), (ascii ''truncated'', JBool truncated)]"

text \<open>The text of a path was encoded before, so the size is there.\<close>

definition bounded_result :: "(rat \<Rightarrow> pystr) \<Rightarrow> plan list \<Rightarrow> nat \<Rightarrow> string + jobj" where
  "bounded_result frepr plans limit =
     (let full = result_object (map (\<lambda>p. JObj [(ascii ''path'', JStr (pn_path p)),
                    (ascii ''operation'', JStr (operation_text (pn_operation p)))]) plans) 0 plans False;
          fallback = result_object [] (length plans) plans True
      in case json_size frepr (JObj full) of
           None \<Rightarrow> Inl ''UnicodeEncodeError''
         | Some n \<Rightarrow>
             if n \<le> limit then Inr full
             else (case json_size frepr (JObj fallback) of
                 None \<Rightarrow> Inl ''UnicodeEncodeError''
               | Some m \<Rightarrow> if m > limit then Inl ''patch_result_too_large'' else Inr fallback))"

section \<open>The handler\<close>

datatype tool_end =
    Outcome jobj "effect list"
  | Failed string "effect list" "supplemental list"
  | Cancelled_with "effect list" "supplemental list"
  | Raised_settlement settlement_error
  | Raised_invariant exec_error

text \<open>Everything before the barrier: the staged transaction and the result to report.\<close>

definition plan_patch :: "patch_env \<Rightarrow> patch_config \<Rightarrow> (rat \<Rightarrow> pystr) \<Rightarrow> pystr \<Rightarrow> fs \<Rightarrow> string + plan list \<times> jobj" where
  "plan_patch e cfg frepr patch f =
     (case utf8_encode patch of
        None \<Rightarrow> Inl ''unsupported_binary_content''
      | Some encoded \<Rightarrow>
          if length encoded > pc_max_patch_bytes cfg then Inl ''patch_too_large''
          else bind_res (parse_patch patch) (\<lambda>ss.
            if length ss > pc_max_files cfg then Inl ''too_many_patch_files''
            else bind_res (prepare e cfg f [] [] ss) (\<lambda>plans.
              bind_res (bounded_result frepr plans (pc_max_result_bytes cfg)) (\<lambda>result.
              bind_res (revalidate e f plans) (\<lambda>_. Inr (plans, result))))))"

definition discard_staged :: "string \<Rightarrow> plan list \<Rightarrow> fs \<Rightarrow> tool_end \<times> fs" where
  "discard_staged code plans f = (case cleanup_staged (new_settlement plans, f) of
     (ok, h, f1) \<Rightarrow> (Failed (if ok then code else ''OSError'') [] [], f1))"

definition discard_cancelled :: "plan list \<Rightarrow> fs \<Rightarrow> tool_end \<times> fs" where
  "discard_cancelled plans f = (case cleanup_staged (new_settlement plans, f) of
     (ok, h, f1) \<Rightarrow> (if ok then Cancelled_with [] [] else Failed ''OSError'' [] [], f1))"

definition rollback_failed :: "settlement \<Rightarrow> pystr \<Rightarrow> tool_end" where
  "rollback_failed h call = (case failure_effects h call of
     Inl e \<Rightarrow> Failed e [] []
   | Inr es \<Rightarrow> Failed ''patch_rollback_failed'' es [rollback_record h])"

text \<open>What the handler reports after the barrier.\<close>

definition patch_report :: "barrier_exit \<Rightarrow> settlement \<Rightarrow> pystr \<Rightarrow> jobj \<Rightarrow> tool_end" where
  "patch_report x h call result =
     (case x of
        Lifecycle_error e \<Rightarrow> Raised_invariant e
      | Settlement_raised s \<Rightarrow>
          if incomplete h then rollback_failed h call
          else if st_failure h then Failed ''patch_commit_failed'' [] [] else Raised_settlement s
      | Cancelled_after_settlement \<Rightarrow>
          if \<not> st_failure h \<and> \<not> st_forced h \<and> length (st_committed h) = length (st_plans h)
          then (case map_res (success_effect call) (st_plans h) of
                  Inl e \<Rightarrow> Failed e [] [] | Inr es \<Rightarrow> Cancelled_with es [])
          else if incomplete h
          then (case failure_effects h call of
                  Inl e \<Rightarrow> Failed e [] [] | Inr es \<Rightarrow> Cancelled_with es [rollback_record h])
          else Cancelled_with [] []
      | Exited \<Rightarrow>
          if incomplete h then rollback_failed h call
          else if st_forced h \<or> st_failure h then Failed ''patch_commit_failed'' [] []
          else (case map_res (success_effect call) (st_plans h) of
                  Inl e \<Rightarrow> Failed e [] [] | Inr es \<Rightarrow> Outcome result es))"

text \<open>
  \<open>execution\<close> is the scope the tool runs in with its tool-call id, \<open>None\<close> outside a run; \<open>before\<close> says
  that the run was cancelled before the barrier, \<open>during\<close> while it settled.
\<close>

definition apply_patch ::
  "patch_env \<Rightarrow> patch_config \<Rightarrow> (rat \<Rightarrow> pystr) \<Rightarrow> pystr \<Rightarrow> (pystr \<times> pystr option) option \<Rightarrow> bool \<Rightarrow> bool
     \<Rightarrow> (settlement \<times> fs) option \<Rightarrow> fs \<Rightarrow> tree \<Rightarrow> tool_end \<times> fs \<times> tree" where
  "apply_patch e cfg frepr patch execution before during interrupted f t =
     (case plan_patch e cfg frepr patch f of
        Inl code \<Rightarrow> (Failed code [] [], f, t)
      | Inr (plans, result) \<Rightarrow>
          (case stage e plans f of
             (Inl code, f1) \<Rightarrow> (Failed code [] [], f1, t)
           | (Inr staged, f1) \<Rightarrow>
               (case revalidate e f1 staged of
                  Inl code \<Rightarrow> (case discard_staged code staged f1 of (r, f2) \<Rightarrow> (r, f2, t))
                | Inr _ \<Rightarrow>
                    (case execution of
                       None \<Rightarrow> (case discard_staged ''nested_execution_unavailable'' staged f1 of (r, f2) \<Rightarrow> (r, f2, t))
                     | Some (sid, call) \<Rightarrow>
                         if before then (case discard_cancelled staged f1 of (r, f2) \<Rightarrow> (r, f2, t))
                         else (case with_barrier (patch_handler e) sid (\<lambda>(h, g) u. (commit h g, u)) during interrupted
                                      (new_settlement staged, f1) t of
                                 (x, (h, f2), t1) \<Rightarrow>
                                   (patch_report x h (or_text call (ascii ''apply_patch'')) result, f2, t1))))))"

section \<open>Staging makes a ready transaction\<close>

text \<open>Two plans that differ in their staged file, and for an added file in its mode.\<close>

definition staged_plan :: "plan \<Rightarrow> plan \<Rightarrow> bool" where
  "staged_plan p q \<longleftrightarrow> (\<exists>n m. q = p\<lparr>pn_staged := n, pn_mode := m\<rparr> \<and> (pn_operation p \<noteq> ADDED \<longrightarrow> m = pn_mode p))"

lemma staged_planD:
  assumes "staged_plan p q"
  shows "pn_target q = pn_target p" "pn_path q = pn_path p" "pn_operation q = pn_operation p"
    "pn_before q = pn_before p" "pn_after q = pn_after p" "pn_before_digest q = pn_before_digest p"
    "pn_after_digest q = pn_after_digest p" "pn_operation p \<noteq> ADDED \<Longrightarrow> pn_mode q = pn_mode p"
  using assms by (auto simp: staged_plan_def)

lemma owns_create:
  assumes ok: "fs_ok f" and c: "os_create p m f = (r, g)" and o: "owns f q"
  shows "owns g q"
  using c unfolding os_create_def
proof (rule os_call_cases)
  fix rest assume "g = f\<lparr>fs_faults := rest\<rparr>" with o show ?thesis by simp
next
  fix rest
  let ?f = "f\<lparr>fs_faults := rest\<rparr>"
  assume h: "(if fs_nodes ?f p \<noteq> None \<or> \<not> is_dir ?f (butlast p) then (None, ?f)
      else (Some (), ?f\<lparr>fs_nodes := (fs_nodes ?f)(p := Some (File (fs_next ?f))),
        fs_inodes := (fs_inodes ?f)(fs_next ?f := Some \<lparr>in_data = [], in_mode = m\<rparr>),
        fs_next := fs_next ?f + 1\<rparr>)) = (r, g)"
  from o obtain j where j: "fs_nodes f q = Some (File j)" unfolding owns_def by blast
  then have "j < fs_next f" using fs_ok_file [OF ok] by blast
  with h o j show ?thesis
    by (intro owns_stable [OF o]) (auto split: if_splits)
qed

lemma owns_write: "fs_ok f \<Longrightarrow> owns f p \<Longrightarrow> os_call (upd_inode p g) f = (r, h) \<Longrightarrow> owns f q \<Longrightarrow> owns h q"
  using upd_inode_effect [of f p g r h] by (simp add: owns_def)

lemma stage_write_effect:
  assumes ok: "fs_ok f" and o: "owns f n" and c: "content f n = Some (d, m0)"
    and w: "os_seq (os_write n data # cs) f = (r, g)" "cs = [] \<and> m0 = m \<or> cs = [os_chmod n m]"
  shows "steps_off {n} f g \<and> owns g n \<and> (r = Some () \<longrightarrow> content g n = Some (data, m))
     \<and> (\<forall>q. owns f q \<longrightarrow> owns g q) \<and> fs_nodes g = fs_nodes f"
proof -
  obtain r1 f1 where 1: "os_write n data f = (r1, f1)" by (metis surj_pair)
  from os_write_effect [OF ok o 1 c] have e1: "steps_off {n} f f1" "fs_nodes f1 = fs_nodes f" "owns f1 n"
    "r1 = Some () \<longrightarrow> content f1 n = Some (data, m0)" by auto
  have k1: "\<forall>q. owns f q \<longrightarrow> owns f1 q" using e1(2) by (simp add: owns_def)
  show ?thesis
  proof (cases r1)
    case None
    with 1 w(1) have "g = f1" "r = None" by auto
    with e1 k1 show ?thesis by simp
  next
    case (Some u)
    then have c1: "content f1 n = Some (data, m0)" using e1(4) by simp
    show ?thesis
    proof (cases "cs = []")
      case True
      with 1 w Some have "g = f1" "r = Some ()" "m0 = m" by auto
      with e1 k1 c1 show ?thesis by simp
    next
      case False
      then have cs: "cs = [os_chmod n m]" using w(2) by blast
      obtain r2 f2 where 2: "os_chmod n m f1 = (r2, f2)" by (metis surj_pair)
      have "fs_ok f1" using e1(1) by (simp add: steps_off_def)
      from os_chmod_effect [OF this e1(3) 2 c1] have e2: "steps_off {n} f1 f2" "fs_nodes f2 = fs_nodes f1" "owns f2 n"
        "r2 = Some () \<longrightarrow> content f2 n = Some (data, m)" by auto
      from 1 2 w(1) cs Some have g: "g = f2" "r = r2" by (cases r2; auto)+
      have "steps_off {n} f f2" using steps_off_trans [OF e1(1) e2(1)] by simp
      moreover have "\<forall>q. owns f q \<longrightarrow> owns f2 q" using e1(2) e2(2) by (simp add: owns_def)
      ultimately show ?thesis using e1(2) e2 g by simp
    qed
  qed
qed

lemma stage_one_effect:
  assumes ok: "fs_ok f" and mode: "pn_operation p \<noteq> ADDED \<Longrightarrow> pn_mode p \<noteq> None" and fresh: "pn_staged p = None"
    and s: "stage_one e p f = (True, q, g)"
  shows "staged_plan p q \<and> staged_ok g q \<and> (\<forall>x. owns f x \<longrightarrow> owns g x)
    \<and> steps_off (case pn_staged q of None \<Rightarrow> {} | Some n \<Rightarrow> {n}) f g
    \<and> (\<forall>n. pn_staged q = Some n \<longrightarrow> fs_nodes f n = None \<and> n \<in> temps e (pn_target p) \<and> fs_nodes g n \<noteq> None)"
proof (cases "pn_after p")
  case None
  with s have "q = p" "g = f" by (auto simp: stage_one_def)
  moreover have "p = p\<lparr>pn_staged := None, pn_mode := pn_mode p\<rparr>" using fresh by (cases p) simp
  then have "staged_plan p p" unfolding staged_plan_def by blast
  ultimately show ?thesis using None ok fresh by (simp add: staged_ok_def steps_off_refl)
next
  case (Some data)
  define n where "n = temp_name e (pn_target p) f"
  define added where "added \<longleftrightarrow> pn_operation p = ADDED"
  let ?mode = "if added then Some (pe_create_mode e) else pn_mode p"
  obtain r1 f1 where 1: "os_create n (if added then pe_create_mode e else 384) f = (r1, f1)" by (metis surj_pair)
  have r1: "r1 = Some ()" using s Some 1 by (cases r1) (auto simp: stage_one_def Let_def n_def added_def)
  from os_create_effect [OF ok 1] r1 have e1: "steps_off {n} f f1" "fs_nodes f n = None" "owns f1 n"
    "content f1 n = Some ([], if added then pe_create_mode e else 384)" by auto
  let ?cs = "if added then [] else [os_chmod n (the ?mode)]"
  obtain r2 f2 where 2: "os_seq (os_write n data # ?cs) f1 = (r2, f2)" by (metis surj_pair)
  have "os_seq (os_write n data # (if added then [] else [os_chmod n (the (pn_mode p))])) f1 = (r2, f2)"
    using 2 by (cases added) (simp_all del: os_seq.simps)
  with s Some 1 r1 have q: "q = p\<lparr>pn_staged := Some n, pn_mode := ?mode\<rparr>" "g = f2" "r2 \<noteq> None"
    by (auto simp: stage_one_def Let_def n_def [symmetric] added_def [symmetric]
      simp del: os_seq.simps split: if_splits)
  have okf: "fs_ok f1" using e1(1) by (simp add: steps_off_def)
  have "?cs = [] \<and> (if added then pe_create_mode e else 384) = the ?mode \<or> ?cs = [os_chmod n (the ?mode)]"
    by (cases added) auto
  from stage_write_effect [OF okf e1(3,4) 2 this] q(3) have e2: "steps_off {n} f1 f2" "owns f2 n"
    "content f2 n = Some (data, the ?mode)" "\<forall>x. owns f1 x \<longrightarrow> owns f2 x" "fs_nodes f2 = fs_nodes f1"
    by (cases r2; auto)+
  have "staged_plan p q" unfolding staged_plan_def q(1) added_def by auto
  moreover have "staged_ok g q" using e2(2,3) Some by (simp add: staged_ok_def q after_content_def)
  moreover have "\<forall>x. owns f x \<longrightarrow> owns g x" using owns_create [OF ok 1] e2(4) q(2) by blast
  moreover have "steps_off {n} f g" using steps_off_trans [OF e1(1) e2(1)] q(2) by simp
  moreover have "n \<in> temps e (pn_target p)" by (simp add: n_def temp_name_def temps_def)
  moreover have "fs_nodes g n \<noteq> None" using e2(2) q(2) by (auto simp: owns_def)
  ultimately show ?thesis using e1(2) by (simp add: q(1))
qed

lemma stage_loop_effect:
  assumes "fs_ok f" "\<forall>p \<in> set ps. (pn_operation p \<noteq> ADDED \<longrightarrow> pn_mode p \<noteq> None) \<and> pn_staged p = None"
    and "stage_loop e ps f = (True, qs, g)"
  shows "list_all2 staged_plan ps qs \<and> (\<forall>q \<in> set qs. staged_ok g q) \<and> staged_apart qs
    \<and> (\<forall>x. owns f x \<longrightarrow> owns g x) \<and> steps_off {n. \<exists>q \<in> set qs. pn_staged q = Some n} f g
    \<and> (\<forall>q \<in> set qs. \<forall>n. pn_staged q = Some n \<longrightarrow> fs_nodes f n = None \<and> n \<in> temps e (pn_target q))"
  using assms
proof (induction ps arbitrary: f qs g)
  case Nil
  then show ?case by (simp add: staged_apart_def steps_off_refl)
next
  case (Cons p ps)
  obtain ok1 q f1 where 1: "stage_one e p f = (ok1, q, f1)" by (metis prod_cases3)
  with Cons.prems(3) have ok1 by (cases ok1) auto
  obtain ok2 qs1 f2 where 2: "stage_loop e ps f1 = (ok2, qs1, f2)" by (metis prod_cases3)
  with Cons.prems(3) 1 \<open>ok1\<close> have r: "ok2" "qs = q # qs1" "g = f2" by auto
  have s1: "stage_one e p f = (True, q, f1)" "pn_operation p \<noteq> ADDED \<Longrightarrow> pn_mode p \<noteq> None" "pn_staged p = None"
    using 1 \<open>ok1\<close> Cons.prems(2) by simp_all
  from stage_one_effect [OF Cons.prems(1) s1(2,3,1)] have a: "staged_plan p q" "staged_ok f1 q"
    "\<forall>x. owns f x \<longrightarrow> owns f1 x" "steps_off (case pn_staged q of None \<Rightarrow> {} | Some n \<Rightarrow> {n}) f f1"
    "\<forall>n. pn_staged q = Some n \<longrightarrow> fs_nodes f n = None \<and> n \<in> temps e (pn_target p) \<and> fs_nodes f1 n \<noteq> None" by blast+
  have ok: "fs_ok f1" using a(4) by (simp add: steps_off_def)
  have s2: "stage_loop e ps f1 = (True, qs1, f2)"
    "\<forall>p \<in> set ps. (pn_operation p \<noteq> ADDED \<longrightarrow> pn_mode p \<noteq> None) \<and> pn_staged p = None"
    using 2 r(1) Cons.prems(2) by simp_all
  from Cons.IH [OF ok s2(2,1)] have b: "list_all2 staged_plan ps qs1"
    "\<forall>q \<in> set qs1. staged_ok f2 q" "staged_apart qs1" "\<forall>x. owns f1 x \<longrightarrow> owns f2 x"
    "steps_off {n. \<exists>q \<in> set qs1. pn_staged q = Some n} f1 f2"
    "\<forall>q \<in> set qs1. \<forall>n. pn_staged q = Some n \<longrightarrow> fs_nodes f1 n = None \<and> n \<in> temps e (pn_target q)" by blast+
  have apart: "pn_staged q' \<noteq> pn_staged q" if "q' \<in> set qs1" "pn_staged q' \<noteq> None" for q'
  proof
    assume eq: "pn_staged q' = pn_staged q"
    from that(2) obtain n where n: "pn_staged q' = Some n" by blast
    with b(6) that(1) have "fs_nodes f1 n = None" by blast
    moreover have "fs_nodes f1 n \<noteq> None" using a(5) n eq by simp
    ultimately show False by simp
  qed
  have "staged_apart (q # qs1)"
    unfolding staged_apart_def
  proof (intro allI impI)
    fix i j assume ij: "i < length (q # qs1)" "j < length (q # qs1)" "i \<noteq> j" "pn_staged ((q # qs1) ! i) \<noteq> None"
    show "pn_staged ((q # qs1) ! i) \<noteq> pn_staged ((q # qs1) ! j)"
    proof (cases i; cases j)
      fix x y assume "i = Suc x" "j = Suc y"
      with ij b(3) show ?thesis unfolding staged_apart_def by (metis Suc_less_eq length_Cons nth_Cons_Suc)
    next
      fix x assume "i = Suc x" "j = 0"
      with ij apart show ?thesis by simp
    next
      fix y assume z: "i = 0" "j = Suc y"
      with ij(2) have "qs1 ! y \<in> set qs1" by simp
      with apart [OF this] ij(4) z show ?thesis by auto
    qed (use ij(3) in simp)
  qed
  moreover have "staged_ok f2 q"
  proof (cases "pn_after q")
    case (Some d)
    with a(2) obtain n where n: "pn_staged q = Some n" "owns f1 n" "content f1 n = after_content q"
      by (auto simp: staged_ok_def)
    have "n \<notin> {n. \<exists>q \<in> set qs1. pn_staged q = Some n}" using apart n(1) by force
    with b(4,5) n show ?thesis by (auto simp: staged_ok_def steps_off_def)
  qed (simp add: staged_ok_def)
  moreover have "steps_off {n. \<exists>q' \<in> set (q # qs1). pn_staged q' = Some n} f f2"
    by (rule steps_off_mono [OF steps_off_trans [OF a(4) b(5)]]) (auto split: option.splits)
  moreover have "fs_nodes f n = None \<and> n \<in> temps e (pn_target q')"
    if "q' \<in> set (q # qs1)" "pn_staged q' = Some n" for q' n
  proof (cases "q' = q")
    case True
    with a(5) that staged_planD(1) [OF a(1)] show ?thesis by simp
  next
    case False
    with that have q': "q' \<in> set qs1" by simp
    with b(6) that have n: "fs_nodes f1 n = None" "n \<in> temps e (pn_target q')" by auto
    have "n \<notin> (case pn_staged q of None \<Rightarrow> {} | Some n \<Rightarrow> {n})" using apart [OF q'] that(2) by (auto split: option.splits)
    with a(4) n show ?thesis by (simp add: steps_off_def)
  qed
  ultimately show ?case using a b r by auto
qed

end
