(* ===== verification/PatchApply.thy ===== *)
theory PatchApply
  imports PatchTool
begin

text \<open>
  From the text of a patch to the files: a prepared plan matches its section and the file it found, a
  staged transaction is \<open>ready\<close>, and the result the tool reports says what the targets hold.
\<close>

section \<open>Prepared plans\<close>

definition target_of :: "patch_section \<Rightarrow> path" where
  "target_of s = split_on 47 (ps_path s)"

definition after_of :: "patch_section \<Rightarrow> bytes option \<Rightarrow> bytes option \<Rightarrow> bool" where
  "after_of s before after = (case ps_operation s of
       ADDED \<Rightarrow> (\<exists>d. parse_add (ps_body s) = Inr d \<and> after = Some d)
     | MODIFIED \<Rightarrow> (\<exists>b d. before = Some b \<and> apply_update b (ps_body s) = Inr d \<and> after = Some d)
     | DELETED \<Rightarrow> after = None)"

definition plan_for :: "patch_env \<Rightarrow> fs \<Rightarrow> patch_section \<Rightarrow> plan \<Rightarrow> bool" where
  "plan_for e f s p \<longleftrightarrow> pn_operation p = ps_operation s \<and> pn_path p = ps_path s \<and> pn_target p = target_of s
     \<and> pn_staged p = None \<and> plan_ok e p \<and> plain f (pn_target p) \<and> content f (pn_target p) = before_content p
     \<and> after_of s (pn_before p) (pn_after p)"

lemma not_symlink_missing: "\<not> is_symlink f p \<Longrightarrow> \<not> path_exists f p \<Longrightarrow> fs_nodes f p = None"
  by (auto simp: is_symlink_def path_exists_def split: option.splits node.splits link_target.splits)

lemma regular_file:
  "\<not> is_symlink f p \<Longrightarrow> regular f p = Some (i, n) \<Longrightarrow> fs_nodes f p = Some (File i) \<and> fs_inodes f i = Some n"
  by (auto simp: is_symlink_def regular_def split: option.splits node.splits link_target.splits)

lemma make_plan_Inr:
  "make_plan e cfg s target before after mode = Inr p \<Longrightarrow>
     pn_operation p = ps_operation s \<and> pn_path p = ps_path s \<and> pn_target p = target \<and> pn_before p = before
     \<and> pn_after p = after \<and> pn_mode p = mode \<and> pn_before_digest p = digest e before
     \<and> pn_after_digest p = digest e after \<and> pn_staged p = None"
  by (auto simp: make_plan_def split: if_splits)

lemma prepare_added_ok:
  assumes op: "ps_operation s = ADDED" and p: "prepare_one e cfg f inodes targets s = Inr (i, p)"
  shows "plan_for e f s p"
proof -
  from op p obtain after where m: "make_plan e cfg s (target_of s) None (Some after) None = Inr p"
    "parse_add (ps_body s) = Inr after" "\<not> is_symlink f (target_of s)" "\<not> path_exists f (target_of s)"
    by (auto simp: prepare_one_def Let_def res_simps target_of_def split: if_splits)
  from not_symlink_missing [OF m(3,4)] have "plain f (target_of s)" "content f (target_of s) = None"
    by (simp_all add: plain_def content_def)
  with make_plan_Inr [OF m(1)] m(2) op show ?thesis
    by (simp add: plan_for_def plan_ok_def before_content_def after_of_def digest_def)
qed

lemma prepare_other_ok:
  assumes op: "ps_operation s \<noteq> ADDED" and p: "prepare_one e cfg f inodes targets s = Inr (i, p)"
  shows "plan_for e f s p"
proof -
  from op p obtain j n after where m: "make_plan e cfg s (target_of s) (Some (in_data n)) after (Some (in_mode n)) = Inr p"
    "\<not> is_symlink f (target_of s)" "regular f (target_of s) = Some (j, n)"
    "ps_operation s = DELETED \<longrightarrow> after = None"
    "ps_operation s \<noteq> DELETED \<longrightarrow> (\<exists>d. apply_update (in_data n) (ps_body s) = Inr d \<and> after = Some d)"
    by (auto simp: prepare_one_def Let_def res_simps target_of_def split: if_splits option.splits prod.splits)
  from regular_file [OF m(2,3)] have "plain f (target_of s)" "content f (target_of s) = Some (in_data n, in_mode n)"
    by (simp_all add: plain_def content_def)
  with make_plan_Inr [OF m(1)] m(4,5) op show ?thesis
    by (cases "ps_operation s") (auto simp: plan_for_def plan_ok_def before_content_def after_of_def digest_def)
qed

lemma prepare_one_ok:
  assumes "prepare_one e cfg f inodes targets s = Inr (i, p)"
  shows "plan_for e f s p" "target_of s \<notin> set targets"
  using assms prepare_added_ok prepare_other_ok
  by (blast, auto simp: prepare_one_def Let_def target_of_def split: if_splits)

lemma prepare_ok:
  "prepare e cfg f inodes targets ss = Inr plans \<Longrightarrow>
     list_all2 (plan_for e f) ss plans \<and> distinct (map target_of ss) \<and> set (map target_of ss) \<inter> set targets = {}"
proof (induction ss arbitrary: inodes targets plans)
  case (Cons s ss)
  then obtain i p ps where p: "prepare_one e cfg f inodes targets s = Inr (i, p)"
    "prepare e cfg f (inodes @ (case i of None \<Rightarrow> [] | Some n \<Rightarrow> [n])) (targets @ [pn_target p]) ss = Inr ps"
    "plans = p # ps" by (auto simp: res_simps)
  have t: "pn_target p = target_of s" using prepare_one_ok(1) [OF p(1)] by (simp add: plan_for_def)
  from Cons.IH [OF p(2)] have "list_all2 (plan_for e f) ss ps" "distinct (map target_of ss)"
    "set (map target_of ss) \<inter> set (targets @ [target_of s]) = {}" by (simp_all add: t)
  with prepare_one_ok [OF p(1)] p(3) show ?case by auto
qed simp

section \<open>A staged transaction is ready\<close>

text \<open>No section names a file the way \<open>mkstemp\<close> and \<open>uuid4\<close> name temporary ones.\<close>

definition names_apart :: "patch_env \<Rightarrow> patch_section list \<Rightarrow> bool" where
  "names_apart e ss \<longleftrightarrow> (\<forall>s \<in> set ss. \<forall>n. last (target_of s) \<noteq> pe_name e n)"

lemma target_not_temp: "names_apart e ss \<Longrightarrow> s \<in> set ss \<Longrightarrow> target_of s \<notin> temps e t"
proof
  assume a: "names_apart e ss" "s \<in> set ss" and "target_of s \<in> temps e t"
  then obtain n where "target_of s = butlast t @ [pe_name e n]" by (auto simp: temps_def)
  then have "last (target_of s) = pe_name e n" by simp
  with a show False by (simp add: names_apart_def)
qed

lemma staged_same_content:
  assumes "staged_plan p q" "plan_ok e p"
  shows "plan_ok e q \<and> before_content q = before_content p"
  using staged_planD [OF assms(1)] assms(2) by (auto simp: plan_ok_def before_content_def)

lemma staged_member:
  assumes "list_all2 (plan_for e f) ss plans" "list_all2 staged_plan plans staged" "q \<in> set staged"
  obtains s p where "s \<in> set ss" "plan_for e f s p" "staged_plan p q"
proof -
  from assms(3) obtain i where i: "i < length staged" "q = staged ! i" by (auto simp: in_set_conv_nth)
  with assms(1,2) have "plan_for e f (ss ! i) (plans ! i)" "staged_plan (plans ! i) q" "ss ! i \<in> set ss"
    by (auto simp: list_all2_conv_all_nth)
  then show thesis using that by blast
qed

lemma staged_maps:
  assumes "list_all2 (plan_for e f) ss plans" "list_all2 staged_plan plans staged"
  shows "map pn_target staged = map target_of ss" "map pn_path staged = map ps_path ss"
proof -
  have "length staged = length ss" using assms by (simp add: list_all2_conv_all_nth)
  moreover have "pn_target (staged ! i) = target_of (ss ! i) \<and> pn_path (staged ! i) = ps_path (ss ! i)"
    if "i < length staged" for i
  proof -
    from assms that have "plan_for e f (ss ! i) (plans ! i)" "staged_plan (plans ! i) (staged ! i)"
      by (auto simp: list_all2_conv_all_nth)
    then show ?thesis using staged_planD(1,2) by (simp add: plan_for_def)
  qed
  ultimately show "map pn_target staged = map target_of ss" "map pn_path staged = map ps_path ss"
    by (simp_all add: list_eq_iff_nth_eq)
qed

lemma ready_after_stage:
  assumes ok: "fs_ok f" and plans: "list_all2 (plan_for e f) ss plans" "distinct (map target_of ss)"
    "distinct (map ps_path ss)" and names: "names_apart e ss" and st: "stage e plans f = (Inr staged, g)"
  shows "ready e staged g \<and> list_all2 staged_plan plans staged \<and> (\<forall>s \<in> set ss. content g (target_of s) = content f (target_of s))"
proof -
  from st have sl: "stage_loop e plans f = (True, staged, g)"
    by (auto simp: stage_def split: prod.splits bool.splits)
  have pre: "\<forall>p \<in> set plans. (pn_operation p \<noteq> ADDED \<longrightarrow> pn_mode p \<noteq> None) \<and> pn_staged p = None"
    using plans(1) by (auto simp: in_set_conv_nth list_all2_conv_all_nth plan_for_def plan_ok_def)
  from stage_loop_effect [OF ok pre sl] have s: "list_all2 staged_plan plans staged" "\<forall>q \<in> set staged. staged_ok g q"
    "staged_apart staged" "steps_off {n. \<exists>q \<in> set staged. pn_staged q = Some n} f g"
    "\<forall>q \<in> set staged. \<forall>n. pn_staged q = Some n \<longrightarrow> n \<in> temps e (pn_target q)" by blast+
  have off: "pn_staged q \<noteq> Some (target_of s)" if "s \<in> set ss" "q \<in> set staged" for s q
    using s(5) that target_not_temp [OF names] by blast
  have keep: "fs_nodes g (target_of s) = fs_nodes f (target_of s) \<and> content g (target_of s) = content f (target_of s)"
    if "s \<in> set ss" for s using s(4) off [OF that] by (auto simp: steps_off_def)
  have each: "plan_ok e q \<and> plain g (pn_target q) \<and> content g (pn_target q) = before_content q
      \<and> (\<exists>s \<in> set ss. pn_target q = target_of s)" if q: "q \<in> set staged" for q
  proof -
    obtain s0 p where m: "s0 \<in> set ss" "plan_for e f s0 p" "staged_plan p q"
      using staged_member [OF plans(1) s(1) q] .
    with staged_same_content [OF m(3)] staged_planD(1) [OF m(3)] keep [OF m(1)] show ?thesis
      by (auto simp: plan_for_def plain_def)
  qed
  have "plans_ok e staged"
    unfolding plans_ok_def staged_maps [OF plans(1) s(1)]
    using plans(2,3) each off target_not_temp [OF names] by metis
  with s each show ?thesis using keep by (simp add: ready_def steps_off_def)
qed


section \<open>What the barrier leaves\<close>

lemma resettled_trans:
  assumes 1: "resettled e w w1" and 2: "resettled e w1 w2"
  shows "resettled e w w2"
proof -
  have l: "list_all2 same_plan (st_plans (fst w)) (st_plans (fst w1))" using 1 by (simp add: resettled_def)
  have t: "pn_target (st_plans (fst w1) ! j) = pn_target (st_plans (fst w) ! j)" if "j < length (st_plans (fst w))" for j
    using l that same_planD(1) by (auto simp: list_all2_conv_all_nth)
  have "content_off (set (st_committed (fst w))) (fst w) (snd w) (snd w2)"
    using 1 2 l t by (simp add: resettled_def content_off_def list_all2_conv_all_nth)
  with 1 2 same_plan_trans [OF l] show ?thesis by (simp add: resettled_def)
qed

lemma drive_resettled:
  assumes fresh: "patch_fresh e w" and d: "drive_settlement (patch_handler e) sid w t = (r, w', t')"
  shows "resettled e w w' \<and> (\<not> st_forced (fst w') \<and> \<not> st_failure (fst w') \<longrightarrow> content_off {} (fst w) (snd w) (snd w'))"
proof -
  obtain r1 w1 where 1: "settle e w = (r1, w1)" by (metis surj_pair)
  obtain r2 w2 where 2: "force_settle e w1 = (r2, w2)" by (metis surj_pair)
  from settle_sane [OF fresh 1] have a: "resettled e w w1" "sane e w1"
    "\<not> st_failure (fst w) \<longrightarrow> content_off {} (fst w) (snd w) (snd w1)" "st_failure (fst w1) = st_failure (fst w)"
    by (auto simp: resettled_def)
  from force_settle_sane [OF a(2) 2] have b: "resettled e w1 w2" "st_forced (fst w2)" by auto
  have "r1 = RETURNED \<and> w' = w1 \<or> w' = w2" using d 1 2
    by (cases r1; cases r2) (simp_all add: drive_settlement_def patch_handler_def)
  with a b resettled_trans [OF a(1) b(1)] show ?thesis by auto
qed

lemma barrier_resettled:
  assumes ready: "ready e staged g" and b: "with_barrier (patch_handler e) sid (\<lambda>(h, g) u. (commit h g, u)) during interrupted
      (new_settlement staged, g) t = (x, (h, f2), t1)"
    and x: "\<And>er. x \<noteq> Lifecycle_error er" and i: "interrupted = None \<or> x = Exited"
  shows "\<exists>h0 g0. commit (new_settlement staged) g = (h0, g0) \<and> resettled e (h0, g0) (h, f2)
    \<and> (\<not> st_forced h \<and> \<not> st_failure h \<longrightarrow> content_off {} h0 g0 f2)"
proof -
  obtain h0 g0 where c: "commit (new_settlement staged) g = (h0, g0)" by (metis surj_pair)
  obtain u where a: "barrier_aexit (patch_handler e) sid during interrupted (h0, g0) u = (x, (h, f2), t1)"
    using b c x by (cases "enter_settlement sid t") (auto simp: with_barrier_def)
  have n: "interrupted = None"
    using a i by (cases interrupted) (auto simp: barrier_aexit_def split: sum.splits)
  obtain r w t2 where d: "drive_settlement (patch_handler e) sid (h0, g0) u = (r, w, t2)" by (metis prod_cases3)
  have "w = (h, f2)"
    using a n d by (auto simp: barrier_aexit_def split: sum.splits option.splits if_splits)
  with drive_resettled [OF _ d] commit_spec [OF ready c] c show ?thesis by auto
qed

section \<open>Sections and files\<close>

definition applied_content :: "fs \<Rightarrow> patch_section \<Rightarrow> (bytes \<times> nat) option \<Rightarrow> bool" where
  "applied_content f s c = (case ps_operation s of
       ADDED \<Rightarrow> content f (target_of s) = None \<and> (\<exists>d m. parse_add (ps_body s) = Inr d \<and> c = Some (d, m))
     | MODIFIED \<Rightarrow> (\<exists>b m d. content f (target_of s) = Some (b, m) \<and> apply_update b (ps_body s) = Inr d \<and> c = Some (d, m))
     | DELETED \<Rightarrow> content f (target_of s) \<noteq> None \<and> c = None)"

definition section_applied :: "fs \<Rightarrow> fs \<Rightarrow> patch_section \<Rightarrow> bool" where
  "section_applied f g s = applied_content f s (content g (target_of s))"

definition section_undone :: "fs \<Rightarrow> fs \<Rightarrow> patch_section \<Rightarrow> bool" where
  "section_undone f g s \<longleftrightarrow> content g (target_of s) = content f (target_of s)"

definition plan_facts :: "fs \<Rightarrow> patch_section \<Rightarrow> plan \<Rightarrow> bool" where
  "plan_facts f s q \<longleftrightarrow> pn_target q = target_of s \<and> pn_operation q = ps_operation s
     \<and> before_content q = content f (target_of s) \<and> applied_content f s (after_content q)"

lemma plan_facts_staged:
  assumes p: "plan_for e f s p" and q: "staged_plan p q"
  shows "plan_facts f s q"
proof -
  have ok: "plan_ok e p" and b: "content f (target_of s) = before_content p" using p by (auto simp: plan_for_def)
  have bq: "before_content q = content f (target_of s)" using staged_same_content [OF q ok] b by simp
  have "applied_content f s (after_content q)"
  proof (cases "ps_operation s")
    case ADDED
    with p have "after_of s (pn_before p) (pn_after p)" "pn_before p = None" by (auto simp: plan_for_def plan_ok_def)
    with ADDED b staged_planD(5) [OF q] show ?thesis
      by (auto simp: applied_content_def after_of_def before_content_def after_content_def)
  next
    case MODIFIED
    with p have "after_of s (pn_before p) (pn_after p)" "pn_operation p \<noteq> ADDED" by (auto simp: plan_for_def)
    with MODIFIED b staged_planD(5,8) [OF q] show ?thesis
      by (auto simp: applied_content_def after_of_def before_content_def after_content_def)
  next
    case DELETED
    with p have "after_of s (pn_before p) (pn_after p)" "pn_before p \<noteq> None" by (auto simp: plan_for_def plan_ok_def)
    with DELETED b staged_planD(5) [OF q] show ?thesis
      by (auto simp: applied_content_def after_of_def before_content_def after_content_def)
  qed
  with p bq staged_planD(1,3) [OF q] show ?thesis by (simp add: plan_facts_def plan_for_def)
qed

lemma plan_facts_same: "plan_facts f s p \<Longrightarrow> same_plan p q \<Longrightarrow> plan_facts f s q"
  by (auto simp: plan_facts_def same_plan_def before_content_def after_content_def)

lemma plan_facts_all:
  assumes "list_all2 (plan_for e f) ss plans" "list_all2 staged_plan plans staged" "list_all2 same_plan staged qs"
  shows "list_all2 (plan_facts f) ss qs"
  unfolding list_all2_conv_all_nth
proof (intro conjI allI impI)
  fix i assume i: "i < length ss"
  with assms have "plan_for e f (ss ! i) (plans ! i)" "staged_plan (plans ! i) (staged ! i)" "same_plan (staged ! i) (qs ! i)"
    by (auto simp: list_all2_conv_all_nth)
  then show "plan_facts f (ss ! i) (qs ! i)" using plan_facts_staged plan_facts_same by blast
qed (use assms in \<open>simp add: list_all2_conv_all_nth\<close>)

end
