(* ===== verification/PatchProps.thy ===== *)
theory PatchProps
  imports PatchApply ExecViews
begin

text \<open>
  The properties of \<open>apply_patch\<close> as a whole: what its result says of the files.
\<close>

section \<open>Staging touches temporary names only\<close>

definition all_temps :: "patch_env \<Rightarrow> plan list \<Rightarrow> path set" where
  "all_temps e ps = (\<Union>p \<in> set ps. temps e (pn_target p))"

definition staged_in :: "patch_env \<Rightarrow> plan list \<Rightarrow> plan list \<Rightarrow> bool" where
  "staged_in e ps qs \<longleftrightarrow> (\<forall>q \<in> set qs. \<forall>n. pn_staged q = Some n \<longrightarrow> n \<in> all_temps e ps)"

lemma stage_one_temps:
  assumes ok: "fs_ok f" and fresh: "pn_staged p = None" and s: "stage_one e p f = (r, q, g)"
  shows "steps_off (temps e (pn_target p)) f g \<and> (\<forall>n. pn_staged q = Some n \<longrightarrow> n \<in> temps e (pn_target p))"
proof (cases "pn_after p")
  case None
  with s ok fresh show ?thesis by (auto simp: stage_one_def steps_off_refl)
next
  case (Some data)
  define name where "name = temp_name e (pn_target p) f"
  let ?m = "if pn_operation p = ADDED then pe_create_mode e else 384"
  have n: "{name} \<subseteq> temps e (pn_target p)" by (simp add: name_def temp_name_def temps_def)
  obtain r1 f1 where c: "os_create name ?m f = (r1, f1)" by (metis surj_pair)
  from os_create_effect [OF ok c] have c1: "steps_off {name} f f1" "r1 = Some () \<longrightarrow> owns f1 name \<and> content f1 name = Some ([], ?m)"
    by auto
  show ?thesis
  proof (cases r1)
    case None
    with s Some c have "g = f1" "q = p" by (auto simp: stage_one_def name_def Let_def split: if_splits)
    with c1(1) n fresh show ?thesis using steps_off_mono by simp
  next
    case (Some u)
    let ?cs = "if pn_operation p = ADDED then [] else [os_chmod name (the (pn_mode p))]"
    obtain r2 f2 where w: "os_seq (os_write name data # ?cs) f1 = (r2, f2)" by (metis surj_pair)
    have f1: "fs_ok f1" "owns f1 name" "content f1 name = Some ([], ?m)" using c1 Some by (auto simp: steps_off_def)
    have "steps_off {name} f1 f2"
      using stage_write_effect [OF f1 w, of "if pn_operation p = ADDED then ?m else the (pn_mode p)"] by auto
    with c1(1) have "steps_off {name} f f2" using steps_off_trans by fastforce
    moreover have "g = f2 \<and> pn_staged q = Some name"
      using s \<open>pn_after p = Some data\<close> Some c w
      by (cases "pn_operation p = ADDED") (auto simp: stage_one_def name_def [symmetric] Let_def simp del: os_seq.simps)
    ultimately show ?thesis using n steps_off_mono by auto
  qed
qed

lemma stage_loop_temps:
  assumes "fs_ok f" "\<forall>p \<in> set ps. pn_staged p = None" "stage_loop e ps f = (r, qs, g)"
  shows "steps_off (all_temps e ps) f g \<and> staged_in e ps qs"
  using assms
proof (induction ps arbitrary: f qs g r)
  case (Cons p ps)
  obtain r1 q f1 where 1: "stage_one e p f = (r1, q, f1)" by (metis prod_cases3)
  from stage_one_temps [OF Cons.prems(1) _ 1] Cons.prems(2) have a: "steps_off (temps e (pn_target p)) f f1"
    "\<forall>n. pn_staged q = Some n \<longrightarrow> n \<in> temps e (pn_target p)" by auto
  have sub: "temps e (pn_target p) \<subseteq> all_temps e (p # ps)" "all_temps e ps \<subseteq> all_temps e (p # ps)"
    by (auto simp: all_temps_def)
  show ?case
  proof (cases r1)
    case False
    with 1 Cons.prems(3) have "qs = q # ps" "g = f1" by auto
    with a sub(1) Cons.prems(2) show ?thesis using steps_off_mono by (auto simp: staged_in_def)
  next
    case True
    obtain r2 qs2 f2 where 2: "stage_loop e ps f1 = (r2, qs2, f2)" by (metis prod_cases3)
    with 1 True Cons.prems(3) have r: "qs = q # qs2" "g = f2" by auto
    have "fs_ok f1" using a(1) by (simp add: steps_off_def)
    from Cons.IH [OF this _ 2] Cons.prems(2) have b: "steps_off (all_temps e ps) f1 f2" "staged_in e ps qs2" by auto
    have "steps_off (all_temps e (p # ps)) f f2"
      using steps_off_mono [OF steps_off_trans [OF a(1) b(1)]] sub by simp
    with r a(2) b(2) sub show ?thesis by (auto simp: staged_in_def)
  qed
qed (simp add: steps_off_refl staged_in_def)

lemma stage_fails_clean:
  assumes ok: "fs_ok f" and plans: "list_all2 (plan_for e f) ss plans" and names: "names_apart e ss"
    and st: "stage e plans f = (Inl code, g)"
  shows "\<forall>s \<in> set ss. section_undone f g s"
proof
  fix s assume s: "s \<in> set ss"
  have fresh: "\<forall>p \<in> set plans. pn_staged p = None"
    using plans by (auto simp: in_set_conv_nth list_all2_conv_all_nth plan_for_def)
  from st obtain plans1 f1 ok2 qs where l: "stage_loop e plans f = (False, plans1, f1)"
    "unlink_staged False plans1 f1 = (ok2, qs, g)"
    by (auto simp: stage_def split: prod.splits bool.splits)
  from stage_loop_temps [OF ok fresh l(1)] have a: "steps_off (all_temps e plans) f f1" "staged_in e plans plans1" by auto
  have "fs_ok f1" using a(1) by (simp add: steps_off_def)
  from unlink_staged_effect [OF this l(2)] have b: "steps_off {n. \<exists>p \<in> set plans1. pn_staged p = Some n} f1 g" by blast
  have "target_of s \<notin> all_temps e plans"
    using target_not_temp [OF names s] by (simp add: all_temps_def)
  then have "content f1 (target_of s) = content f (target_of s)" using a(1) by (simp add: steps_off_def)
  moreover have "target_of s \<notin> {n. \<exists>p \<in> set plans1. pn_staged p = Some n}"
    using a(2) \<open>target_of s \<notin> all_temps e plans\<close> by (auto simp: staged_in_def)
  then have "content g (target_of s) = content f1 (target_of s)" using b by (simp add: steps_off_def)
  ultimately show "section_undone f g s" by (simp add: section_undone_def)
qed

section \<open>The phases of the handler\<close>

lemma plan_patch_ok:
  assumes "plan_patch e cfg frepr patch f = Inr (plans, result)" "parse_patch patch = Inr ss"
  shows "list_all2 (plan_for e f) ss plans" "distinct (map target_of ss)" "distinct (map ps_path ss)"
proof -
  from assms have "prepare e cfg f [] [] ss = Inr plans"
    by (auto simp: plan_patch_def res_simps split: option.splits if_splits)
  from prepare_ok [OF this] parse_patch_ok [OF assms(2)] show "list_all2 (plan_for e f) ss plans"
    "distinct (map target_of ss)" "distinct (map ps_path ss)" by auto
qed

lemma success_effect_ok: "call \<noteq> [] \<Longrightarrow> \<exists>e. success_effect call p = Inr e"
  by (simp add: success_effect_def make_effect_def or_else.simps)

lemma map_res_ok: "(\<And>x. x \<in> set xs \<Longrightarrow> \<exists>y. f x = Inr y) \<Longrightarrow> \<exists>ys. map_res f xs = Inr ys \<and> length ys = length xs"
proof (induction xs)
  case (Cons x xs)
  then obtain y ys where "f x = Inr y" "map_res f xs = Inr ys" "length ys = length xs" by force
  then show ?case by simp
qed simp

lemma success_effects_ok: "call \<noteq> [] \<Longrightarrow> \<exists>es. map_res (success_effect call) ps = Inr es \<and> length es = length ps"
  by (rule map_res_ok) (rule success_effect_ok)

lemma replace_crlf_keeps: "c \<in> set m \<Longrightarrow> c \<noteq> 13 \<Longrightarrow> c \<noteq> 10 \<Longrightarrow> c \<in> set (replace_crlf new m)"
  by (induction new m rule: replace_crlf.induct) auto

lemma split_ws_nonempty:
  assumes "c \<in> set s" "\<not> py_space c"
  shows "join_with [32] (split_ws s) \<noteq> []"
proof -
  from assms have r: "lstrip s \<noteq> []" by (auto simp: lstrip_def)
  then have "\<not> py_space (hd (lstrip s))" unfolding lstrip_def using hd_dropWhile by blast
  then have "takeWhile (\<lambda>c. \<not> py_space c) (lstrip s) \<noteq> []" using r by (cases "lstrip s") auto
  then show ?thesis using r
    by (subst split_ws.simps) (cases "split_ws (dropWhile (\<lambda>c. \<not> py_space c) (lstrip s))", auto simp: Let_def)
qed

lemma message_not_empty:
  assumes "c \<in> set m" "32 < c" "c < 128"
  shows "normalize_error_message m \<noteq> []"
proof -
  have "\<not> py_space c" using assms by (simp add: py_space_def)
  moreover have "c \<in> set (replace_crlf [10] m)" using replace_crlf_keeps [OF assms(1)] assms(2) by simp
  then have "c \<in> set (filter (\<lambda>c. c = 10 \<or> c = 9 \<or> 32 \<le> c)
      (map (\<lambda>c. if c = 13 then 10 else c) (replace_crlf [10] m)))" using assms(2) by force
  ultimately show ?thesis unfolding normalize_error_message_def Let_def by (intro split_ws_nonempty)
qed

lemma unknown_state_error:
  "\<exists>i. make_tool_error (ascii ''patch_rollback_failed'') (ascii ''Patch target state is unknown.'') False = Inr i"
proof -
  have "error_code_ok (ascii ''patch_rollback_failed'')" by code_simp
  moreover have "80 \<in> set (ascii ''Patch target state is unknown.'')" by (simp add: ascii_def)
  then have "normalize_error_message (ascii ''Patch target state is unknown.'') \<noteq> []"
    by (rule message_not_empty) simp_all
  ultimately show ?thesis unfolding make_tool_error_def by (simp only: not_True_eq_False if_False) blast
qed

lemma failure_effects_ok: "call \<noteq> [] \<Longrightarrow> \<exists>es. failure_effects h call = Inr es"
proof -
  assume "call \<noteq> []"
  obtain i where i: "make_tool_error (ascii ''patch_rollback_failed'') (ascii ''Patch target state is unknown.'') False = Inr i"
    using unknown_state_error by (elim exE)
  from \<open>call \<noteq> []\<close> have e: "\<exists>y. failure_effect h call p = Inr y" for p
    unfolding failure_effect_def i by (simp add: make_effect_def)
  have "\<exists>es. failure_effects h call = Inr es
      \<and> length es = length (filter (\<lambda>p. plan_state h p \<in> {S_COMMITTED, S_UNKNOWN}) (st_plans h))"
    unfolding failure_effects_def by (rule map_res_ok) (rule e)
  then show ?thesis by (elim exE conjE) (rule exI)
qed

lemma call_named: "or_text call (ascii ''apply_patch'') \<noteq> []"
  by (simp add: or_text_def split: option.split)


lemma sections_undone:
  assumes "list_all2 (plan_for e f) ss plans" "list_all2 staged_plan plans staged"
    and "\<forall>s \<in> set ss. content f1 (target_of s) = content f (target_of s)"
    and "\<forall>p \<in> set staged. content g (pn_target p) = content f1 (pn_target p)"
  shows "\<forall>s \<in> set ss. section_undone f g s"
proof
  fix s assume "s \<in> set ss"
  then have "target_of s \<in> set (map pn_target staged)" unfolding staged_maps(1) [OF assms(1,2)] by simp
  with assms(3,4) \<open>s \<in> set ss\<close> show "section_undone f g s" by (auto simp: section_undone_def)
qed

lemma discard_undone:
  assumes "ready e staged f1" "cleanup_staged (new_settlement staged, f1) = (ok, h, g)"
  shows "\<forall>p \<in> set staged. content g (pn_target p) = content f1 (pn_target p)"
  using cleanup_sane [OF committing_sane [OF ready_committing [OF assms(1)]] assms(2)]
  by (simp add: new_settlement_def)

lemma apply_patch_phases:
  assumes ok: "fs_ok f" and parse: "parse_patch patch = Inr ss" and names: "names_apart e ss"
    and ap: "apply_patch e cfg frepr patch execution before during interrupted f t = (r, g, u)"
  obtains (early) code where "r = Failed code [] [] \<or> r = Cancelled_with [] []" "\<forall>s \<in> set ss. section_undone f g s"
  | (settled) plans staged f1 sid call x h result where
      "list_all2 (plan_for e f) ss plans" "list_all2 staged_plan plans staged" "ready e staged f1"
      "\<forall>s \<in> set ss. content f1 (target_of s) = content f (target_of s)"
      "with_barrier (patch_handler e) sid (\<lambda>(h, g) u. (commit h g, u)) during interrupted (new_settlement staged, f1) t
         = (x, (h, g), u)"
      "r = patch_report x h (or_text call (ascii ''apply_patch'')) result"
proof (cases "plan_patch e cfg frepr patch f")
  case (Inl code)
  with ap have "r = Failed code [] []" "g = f" by (auto simp: apply_patch_def)
  with early show thesis by (simp add: section_undone_def)
next
  case (Inr pr)
  obtain plans result where pr: "pr = (plans, result)" by (cases pr)
  note plan = Inr [unfolded pr]
  note ps = plan_patch_ok [OF plan parse]
  obtain sr f1 where st: "stage e plans f = (sr, f1)" by (metis surj_pair)
  show thesis
  proof (cases sr)
    case (Inl code)
    with ap plan st have "r = Failed code [] []" "g = f1" by (auto simp: apply_patch_def)
    with early stage_fails_clean [OF ok ps(1) names] st Inl show thesis by simp
  next
    case (Inr staged)
    note st = st [unfolded Inr]
    from ready_after_stage [OF ok ps names st] have rd: "ready e staged f1" "list_all2 staged_plan plans staged"
      "\<forall>s \<in> set ss. content f1 (target_of s) = content f (target_of s)" by blast+
    obtain okc hc fc where cl: "cleanup_staged (new_settlement staged, f1) = (okc, hc, fc)" by (metis prod_cases3)
    note undone = sections_undone [OF ps(1) rd(2,3) discard_undone [OF rd(1) cl]]
    have disc: "discard_staged c staged f1 = (Failed (if okc then c else ''OSError'') [] [], fc)" for c
      by (simp add: discard_staged_def cl)
    have disc2: "discard_cancelled staged f1 = (if okc then Cancelled_with [] [] else Failed ''OSError'' [] [], fc)"
      by (simp add: discard_cancelled_def cl)
    show thesis
    proof (cases "revalidate e f1 staged")
      case (Inl code)
      with ap plan st disc have "r = Failed (if okc then code else ''OSError'') [] []" "g = fc" by (auto simp: apply_patch_def)
      with early undone show thesis by blast
    next
      case (Inr x)
      note rv = Inr
      show thesis
      proof (cases execution)
        case None
        with ap plan st disc rv have "r = Failed (if okc then ''nested_execution_unavailable'' else ''OSError'') [] []" "g = fc"
          by (auto simp: apply_patch_def)
        with early undone show thesis by blast
      next
        case (Some sc)
        obtain sid call where sc: "sc = (sid, call)" by (cases sc)
        show thesis
        proof (cases before)
          case True
          with ap plan st disc2 rv Some sc have "r = (if okc then Cancelled_with [] [] else Failed ''OSError'' [] [])" "g = fc"
            by (auto simp: apply_patch_def)
          with early undone show thesis by (cases okc) auto
        next
          case False
          obtain x h f2 t1 where b: "with_barrier (patch_handler e) sid (\<lambda>(h, g) u. (commit h g, u)) during interrupted
              (new_settlement staged, f1) t = (x, (h, f2), t1)" by (metis prod.exhaust)
          with ap plan st rv Some sc False have "r = patch_report x h (or_text call (ascii ''apply_patch'')) result"
            "g = f2" "u = t1" by (auto simp: apply_patch_def)
          with settled [OF ps(1) rd(2,1,3)] b show thesis by blast
        qed
      qed
    qed
  qed
qed

section \<open>A patch on two files\<close>

text \<open>
  A patch that deletes \<open>b\<close> and adds \<open>a\<close>. It makes five calls that can fail: the temporary file is
  created and written, \<open>b\<close> is unlinked, the temporary file is linked to \<open>a\<close> and unlinked.
\<close>

definition demo_env :: patch_env where
  "demo_env = \<lparr>pe_sha = (\<lambda>d. d), pe_name = (\<lambda>n. [46, n]), pe_create_mode = 420\<rparr>"

definition demo_limits :: patch_config where
  "demo_limits = \<lparr>pc_max_patch_bytes = 200, pc_max_files = 4, pc_max_file_bytes = 100, pc_max_result_bytes = 400\<rparr>"

definition demo_files :: "bool list \<Rightarrow> fs" where
  "demo_files faults = \<lparr>fs_nodes = [[[98]] \<mapsto> File 0], fs_inodes = [0 \<mapsto> \<lparr>in_data = [120, 10], in_mode = 384\<rparr>],
     fs_next = 1, fs_faults = faults\<rparr>"

definition demo_sections :: "patch_section list" where
  "demo_sections = [\<lparr>ps_operation = DELETED, ps_path = [98], ps_body = []\<rparr>,
     \<lparr>ps_operation = ADDED, ps_path = [97], ps_body = [[43, 121]]\<rparr>]"

definition demo_apply :: "bool list \<Rightarrow> tool_end \<times> fs \<times> tree" where
  "demo_apply faults = apply_patch demo_env demo_limits (\<lambda>_. []) (render_patch demo_sections) (Some ([1], None))
     False False None (demo_files faults) demo_tree1"

lemma demo_files_ok: "fs_ok (demo_files faults)"
  by (auto simp: fs_ok_def demo_files_def)

lemma demo_parse: "parse_patch (render_patch demo_sections) = Inr demo_sections"
  by code_simp

lemma demo_names: "names_apart demo_env demo_sections"
  by (auto simp: names_apart_def demo_env_def demo_sections_def target_of_def)

lemma demo_success: "case demo_apply [] of (r, g, u) \<Rightarrow> case r of Outcome x es \<Rightarrow> True | _ \<Rightarrow> False"
  by code_simp

lemma demo_fails_clean:
  "case demo_apply [False, False, False, True] of (r, g, u) \<Rightarrow> r = Failed ''patch_commit_failed'' [] []"
  by code_simp


section \<open>What the result says\<close>

lemma settled_sections:
  assumes plans: "list_all2 (plan_for e f) ss plans" "list_all2 staged_plan plans staged" and ready: "ready e staged f1"
    and c: "commit (new_settlement staged) f1 = (h0, g0)" and r: "resettled e (h0, g0) (h, g)"
  shows "list_all2 (plan_facts f) ss (st_plans h0)" "list_all2 (plan_facts f) ss (st_plans h)"
proof -
  have "list_all2 same_plan staged (st_plans h0)" using commit_spec [OF ready c] by blast
  moreover have "list_all2 same_plan (st_plans h0) (st_plans h)" using r by (simp add: resettled_def)
  ultimately show "list_all2 (plan_facts f) ss (st_plans h0)" "list_all2 (plan_facts f) ss (st_plans h)"
    using plan_facts_all [OF plans] same_plan_trans by blast+
qed


lemma report_outcome:
  assumes "patch_report x h call result = Outcome res es"
  shows "x = Exited \<and> \<not> st_forced h \<and> \<not> st_failure h \<and> map_res (success_effect call) (st_plans h) = Inr es"
  using assms by (auto simp: patch_report_def rollback_failed_def split: barrier_exit.splits sum.splits if_splits)

lemma report_clean:
  assumes "patch_report x h call result = Failed code [] [] \<or> patch_report x h call result = Cancelled_with [] []"
    and "call \<noteq> []" "st_plans h \<noteq> []"
  shows "(\<forall>er. x \<noteq> Lifecycle_error er) \<and> \<not> incomplete h
    \<and> (st_failure h \<or> st_forced h \<or> length (st_committed h) \<noteq> length (st_plans h))"
proof -
  obtain es where es: "map_res (success_effect call) (st_plans h) = Inr es" "length es = length (st_plans h)"
    using success_effects_ok [OF assms(2)] by blast
  obtain fs where fs: "failure_effects h call = Inr fs" using failure_effects_ok [OF assms(2)] by blast
  from es(2) assms(3) have "es \<noteq> []" by auto
  with assms(1) es(1) fs show ?thesis
    by (cases x) (auto simp: patch_report_def rollback_failed_def split: if_splits)
qed

lemma committing_length: "committing e k h f \<Longrightarrow> length (st_committed h) = k"
  by (simp add: committing_def)

text \<open>
  C4. When \<open>apply_patch\<close> reports success, every section of the patch has been applied to the files it was
  called on: an added file was free and holds the text the section gives, a modified file holds the update
  of what it held and keeps its mode, a deleted file was there and is gone; and there is one effect per
  section.
\<close>

theorem apply_patch_success:
  assumes "fs_ok f" "parse_patch patch = Inr ss" "names_apart e ss"
    and "apply_patch e cfg frepr patch execution before during interrupted f t = (Outcome result es, g, u)"
  shows "(\<forall>s \<in> set ss. section_applied f g s) \<and> length es = length ss"
  using assms
proof (cases rule: apply_patch_phases)
  case (settled plans staged f1 sid call x h result')
  from report_outcome [OF settled(6) [symmetric]] have x: "x = Exited" "\<not> st_forced h" "\<not> st_failure h"
    "map_res (success_effect (or_text call (ascii ''apply_patch''))) (st_plans h) = Inr es" by blast+
  from barrier_resettled [OF settled(3,5)] x obtain h0 g0 where c: "commit (new_settlement staged) f1 = (h0, g0)"
    and r: "resettled e (h0, g0) (h, g)" and off: "content_off {} h0 g0 g" by auto
  note facts = settled_sections [OF settled(1,2,3) c r]
  have "\<not> st_failure h0" using r x(3) by (simp add: resettled_def)
  then have all: "committing e (length staged) h0 g0" using commit_spec [OF settled(3) c] by blast
  have len: "length (st_plans h0) = length staged" "length ss = length staged" "length (st_plans h) = length ss"
    using commit_spec [OF settled(3) c] facts by (auto simp: list_all2_conv_all_nth)
  have "section_applied f g (ss ! i)" if "i < length ss" for i
    using that len facts(1) all off
    by (auto simp: list_all2_conv_all_nth plan_facts_def committing_def content_off_def section_applied_def)
  moreover have "length es = length (st_plans h)"
    using success_effects_ok [OF call_named, of call "st_plans h"] x(4) by auto
  ultimately show ?thesis using len by (metis in_set_conv_nth)
qed auto

theorem apply_patch_success_witness: "\<exists>x es g u. demo_apply [] = (Outcome x es, g, u)
    \<and> (\<forall>s \<in> set demo_sections. section_applied (demo_files []) g s) \<and> length es = 2"
proof -
  obtain r g u where a: "demo_apply [] = (r, g, u)" by (metis prod_cases3)
  with demo_success obtain x es where r: "r = Outcome x es" by (cases r) simp_all
  from apply_patch_success [OF demo_files_ok demo_parse demo_names a [unfolded r demo_apply_def]] a r
  show ?thesis by (simp add: demo_sections_def)
qed

lemma stopped_or_undone:
  assumes rd: "ready e staged f1" "commit (new_settlement staged) f1 = (h0, g0)"
    and len: "length (st_plans h0) = length ss" "length (st_plans h) = length ss" "length staged = length ss"
    and same: "st_committed h = st_committed h0" "st_failure h = st_failure h0"
    and why: "st_failure h \<or> st_forced h \<or> length (st_committed h) \<noteq> length (st_plans h)"
    and off: "content_off (set (st_committed h0)) h0 g0 g"
    and sides: "\<And>i. i < length ss \<Longrightarrow> pn_target (st_plans h0 ! i) = target_of (ss ! i)
      \<and> before_content (st_plans h0 ! i) = content f (target_of (ss ! i))
      \<and> applied_content f (ss ! i) (after_content (st_plans h0 ! i))
      \<and> pn_operation (st_plans h0 ! i) = ps_operation (ss ! i)"
    and restored: "\<And>i. st_failure h \<or> st_forced h \<Longrightarrow> i \<in> set (st_committed h0) \<Longrightarrow> i < length ss
      \<Longrightarrow> section_undone f g (ss ! i)"
  shows "\<exists>k. \<forall>i < length ss. section_undone f g (ss ! i)
    \<or> i = k \<and> ps_operation (ss ! i) = ADDED \<and> section_applied f g (ss ! i)"
proof (cases "st_failure h0")
  case True
  then obtain j where st: "stopped e j h0 g0" using commit_spec [OF rd] by blast
  have "section_undone f g (ss ! i) \<or> i = j \<and> ps_operation (ss ! i) = ADDED \<and> section_applied f g (ss ! i)"
    if i: "i < length ss" for i
  proof (cases "i < j")
    case True
    with st have "i \<in> set (st_committed h0)" by (simp add: stopped_def)
    with restored i same \<open>st_failure h0\<close> show ?thesis by simp
  next
    case False
    with st have "i \<notin> set (st_committed h0)" by (auto simp: stopped_def)
    with off len i sides [OF i] have "content g (target_of (ss ! i)) = content g0 (target_of (ss ! i))"
      by (auto simp: content_off_def)
    with False st sides [OF i] len i show ?thesis
      by (cases "i = j") (auto simp: stopped_def section_undone_def section_applied_def)
  qed
  then show ?thesis by blast
next
  case False
  then have cm: "committing e (length staged) h0 g0" using commit_spec [OF rd] by blast
  with why same False len have "st_forced h" by (auto dest: committing_length)
  moreover have "i \<in> set (st_committed h0)" if "i < length ss" for i
    using cm len that by (simp add: committing_def)
  ultimately show ?thesis using restored by blast
qed

text \<open>
  C5. When \<open>apply_patch\<close> fails or is cancelled without reporting an effect or a record, every target
  holds what it held before, data and mode, whatever calls failed on the way, with at most one exception: a
  file that one section was adding may have been left behind with its new text.
\<close>

theorem apply_patch_clean_failure:
  assumes "fs_ok f" "parse_patch patch = Inr ss" "names_apart e ss"
    and "apply_patch e cfg frepr patch execution before during None f t = (r, g, u)"
    and clean: "r = Failed code [] [] \<or> r = Cancelled_with [] []"
  shows "\<exists>k. \<forall>i < length ss. section_undone f g (ss ! i)
    \<or> i = k \<and> ps_operation (ss ! i) = ADDED \<and> section_applied f g (ss ! i)"
  using assms(1-4)
proof (cases rule: apply_patch_phases)
  case (settled plans staged f1 sid call x h result')
  have "plans \<noteq> []" using settled(1) parse_patch_ok [OF assms(2)] by auto
  note rc = clean [unfolded settled(6)]
  have x: "x \<noteq> Lifecycle_error er" for er
    using rc by (cases x) (auto simp: patch_report_def)
  from barrier_resettled [OF settled(3,5) x] obtain h0 g0 where c: "commit (new_settlement staged) f1 = (h0, g0)"
    and r: "resettled e (h0, g0) (h, g)" by auto
  note facts = settled_sections [OF settled(1,2,3) c r]
  have len: "length (st_plans h0) = length ss" "length (st_plans h) = length ss" "length staged = length ss"
    using facts commit_spec [OF settled(3) c] by (auto simp: list_all2_conv_all_nth)
  with parse_patch_ok [OF assms(2)] have ne: "st_plans h \<noteq> []" by auto
  from report_clean [OF rc call_named ne] have ni: "\<not> incomplete h"
    and why: "st_failure h \<or> st_forced h \<or> length (st_committed h) \<noteq> length (st_plans h)" by blast+
  have same: "st_committed h = st_committed h0" "st_failure h = st_failure h0"
    and un: "undone (h, g)" and off: "content_off (set (st_committed h0)) h0 g0 g"
    using r ni by (auto simp: resettled_def)
  have sides: "pn_target (st_plans h0 ! i) = target_of (ss ! i)" "pn_target (st_plans h ! i) = target_of (ss ! i)"
      "before_content (st_plans h0 ! i) = content f (target_of (ss ! i))"
      "before_content (st_plans h ! i) = content f (target_of (ss ! i))"
      "applied_content f (ss ! i) (after_content (st_plans h0 ! i))"
      "pn_operation (st_plans h0 ! i) = ps_operation (ss ! i)" if "i < length ss" for i
    using facts that by (auto simp: list_all2_conv_all_nth plan_facts_def)
  have restored: "section_undone f g (ss ! i)" if "st_failure h \<or> st_forced h" "i \<in> set (st_committed h0)" "i < length ss" for i
  proof -
    from un that(1,2) same(1) have "content g (pn_target (st_plans h ! i)) = before_content (st_plans h ! i)"
      by (auto simp: undone_def)
    with sides(2,4) [OF that(3)] show ?thesis by (simp add: section_undone_def)
  qed
  show ?thesis
  proof (rule stopped_or_undone [OF settled(3) c len same why off])
    show "pn_target (st_plans h0 ! i) = target_of (ss ! i) \<and> before_content (st_plans h0 ! i) = content f (target_of (ss ! i))
      \<and> applied_content f (ss ! i) (after_content (st_plans h0 ! i)) \<and> pn_operation (st_plans h0 ! i) = ps_operation (ss ! i)"
      if "i < length ss" for i using sides [OF that] by blast
  next
    show "section_undone f g (ss ! i)" if "st_failure h \<or> st_forced h" "i \<in> set (st_committed h0)" "i < length ss" for i
      using restored that by blast
  qed
qed auto


theorem apply_patch_clean_failure_witness:
  "\<exists>g u. demo_apply [False, False, False, True] = (Failed ''patch_commit_failed'' [] [], g, u)
    \<and> (\<exists>k. \<forall>i < 2. section_undone (demo_files [False, False, False, True]) g (demo_sections ! i) \<or> i = k)"
proof -
  obtain r g u where a: "demo_apply [False, False, False, True] = (r, g, u)" by (metis prod_cases3)
  with demo_fails_clean have r: "r = Failed ''patch_commit_failed'' [] []" by simp
  from apply_patch_clean_failure [OF demo_files_ok demo_parse demo_names a [unfolded r demo_apply_def] disjI1 [OF refl]]
  obtain k where "\<forall>i < length demo_sections. section_undone (demo_files [False, False, False, True]) g (demo_sections ! i) \<or> i = k"
    by blast
  then have "\<exists>k. \<forall>i < 2. section_undone (demo_files [False, False, False, True]) g (demo_sections ! i) \<or> i = k"
    unfolding demo_sections_def by (intro exI [of _ k]) (simp add: numeral_2_eq_2)
  with a r show ?thesis by blast
qed



section \<open>The barrier around the commit\<close>




end
