(* ===== verification/WorldTypes.thy ===== *)
theory WorldTypes
  imports ExecTree Json "HOL-Library.Product_Lexorder"
begin

text \<open>
  The contracts of the world model (\<open>roboagent/world/types.py\<close> and \<open>_codec.py\<close>): references,
  observations, claims, entries, and the JSON each is digested and measured as. A constructor is a
  function from its arguments to the value or the code of the \<open>WorldError\<close> it raises. A \<open>datetime\<close>
  is its ISO text, the one thing the program uses of it.
\<close>

text \<open>\<open>UnicodeError\<close> is what encoding a text with surrogates raises, \<open>KeyError\<close> a missing dictionary key.\<close>

datatype world_error = WorldError string | UnicodeError | KeyError

definition text_ok :: "pystr \<Rightarrow> bool" where
  "text_ok s \<longleftrightarrow> \<not> blank s \<and> length s \<le> 1024"

definition check_text :: "pystr \<Rightarrow> string \<Rightarrow> world_error + unit" where
  "check_text s code = raise_if (\<not> text_ok s) (WorldError code)"

fun check_optional :: "pystr option \<Rightarrow> string \<Rightarrow> world_error + unit" where
  "check_optional None code = Inr ()"
| "check_optional (Some s) code = check_text s code"

section \<open>References\<close>

datatype observation_time = ObservationTime (tm_clock: pystr) (tm_ns: nat)

datatype observation_ref = ObservationRef (or_source: pystr) (or_id: pystr)

datatype entity_ref = EntityRef (er_id: pystr)

datatype claim_ref = ClaimRef (cr_id: pystr)

text \<open>Claims are listed by the order of their ids.\<close>

instantiation claim_ref :: linorder
begin

definition less_eq_claim_ref :: "claim_ref \<Rightarrow> claim_ref \<Rightarrow> bool" where
  "less_eq_claim_ref a b \<longleftrightarrow> cr_id a \<le> cr_id b"

definition less_claim_ref :: "claim_ref \<Rightarrow> claim_ref \<Rightarrow> bool" where
  "less_claim_ref a b \<longleftrightarrow> cr_id a < cr_id b"

instance
  by standard (auto simp: less_eq_claim_ref_def less_claim_ref_def claim_ref.expand)

end

datatype evidence_kind = OBSERVATION | CLAIM

datatype evidence_ref = EvidenceRef (ev_kind: evidence_kind) (ev_source: "pystr option") (ev_id: pystr)

record resource_ref =
  rr_uri :: pystr
  rr_media_type :: "pystr option"
  rr_size :: "nat option"
  rr_digest :: "pystr option"
  rr_available :: bool

definition make_observation_time :: "pystr \<Rightarrow> int \<Rightarrow> world_error + observation_time" where
  "make_observation_time clock ns =
     bind_res (check_text clock ''clock_unavailable'') (\<lambda>_.
       if ns < 0 then Inl (WorldError ''clock_unavailable'') else Inr (ObservationTime clock (nat ns)))"

definition make_observation_ref :: "pystr \<Rightarrow> pystr \<Rightarrow> world_error + observation_ref" where
  "make_observation_ref source i =
     bind_res (check_text source ''invalid_observation'') (\<lambda>_.
     bind_res (check_text i ''invalid_observation'') (\<lambda>_. Inr (ObservationRef source i)))"

definition make_entity_ref :: "pystr \<Rightarrow> world_error + entity_ref" where
  "make_entity_ref i = bind_res (check_text i ''invalid_claim'') (\<lambda>_. Inr (EntityRef i))"

definition make_claim_ref :: "pystr \<Rightarrow> world_error + claim_ref" where
  "make_claim_ref i = bind_res (check_text i ''invalid_claim'') (\<lambda>_. Inr (ClaimRef i))"

definition make_evidence_ref :: "evidence_kind \<Rightarrow> pystr option \<Rightarrow> pystr \<Rightarrow> world_error + evidence_ref" where
  "make_evidence_ref kind source i =
     bind_res (check_text i ''invalid_claim'') (\<lambda>_.
     bind_res (if kind = OBSERVATION \<and> source = None then Inl (WorldError ''invalid_claim'')
               else check_optional source ''invalid_claim'') (\<lambda>_. Inr (EvidenceRef kind source i)))"

definition make_resource_ref ::
  "pystr \<Rightarrow> pystr option \<Rightarrow> int option \<Rightarrow> pystr option \<Rightarrow> bool \<Rightarrow> world_error + resource_ref" where
  "make_resource_ref uri media sz digest available =
     bind_res (check_text uri ''invalid_observation'') (\<lambda>_.
     bind_res (check_optional media ''invalid_observation'') (\<lambda>_.
     bind_res (check_optional digest ''invalid_observation'') (\<lambda>_.
       if (case sz of None \<Rightarrow> False | Some n \<Rightarrow> n < 0) then Inl (WorldError ''invalid_observation'')
       else Inr \<lparr>rr_uri = uri, rr_media_type = media, rr_size = map_option nat sz, rr_digest = digest,
                 rr_available = available\<rparr>)))"

section \<open>Observations and claims\<close>

datatype payload = P_resource resource_ref | P_json json

datatype world_value = V_entity entity_ref | V_json json

record observation =
  ob_ref :: observation_ref
  ob_modality :: pystr
  ob_observed_at :: observation_time
  ob_received_at :: pystr
  ob_payload :: payload
  ob_scope :: "pystr option"

datatype claim_kind = MEASUREMENT | INTERPRETATION | INFERENCE | HYPOTHESIS | PRIOR | PREDICTION

record claim =
  cl_ref :: claim_ref
  cl_subject :: entity_ref
  cl_predicate :: pystr
  cl_value :: world_value
  cl_kind :: claim_kind
  cl_source :: pystr
  cl_scope :: "pystr option"
  cl_evidence :: "evidence_ref list"
  cl_asserted_at :: pystr
  cl_valid_at :: "observation_time option"
  cl_valid_for :: "nat option"
  cl_supersedes :: "claim_ref list"

text \<open>The payload or the value is frozen by the constructor; a refused value is an invalid object.\<close>

definition freeze_value :: "string \<Rightarrow> pyval \<Rightarrow> world_error + json" where
  "freeze_value code v = (case freeze_json v of Inl _ \<Rightarrow> Inl (WorldError code) | Inr j \<Rightarrow> Inr j)"

definition make_observation ::
  "observation_ref \<Rightarrow> pystr \<Rightarrow> observation_time \<Rightarrow> pystr \<Rightarrow> resource_ref + pyval \<Rightarrow> pystr option
     \<Rightarrow> world_error + observation" where
  "make_observation ref modality observed received load scope =
     bind_res (check_text modality ''invalid_observation'') (\<lambda>_.
     bind_res (check_optional scope ''invalid_observation'') (\<lambda>_.
     bind_res (case load of Inl r \<Rightarrow> Inr (P_resource r)
               | Inr v \<Rightarrow> bind_res (freeze_value ''invalid_observation'' v) (\<lambda>j. Inr (P_json j))) (\<lambda>payload.
       Inr \<lparr>ob_ref = ref, ob_modality = modality, ob_observed_at = observed, ob_received_at = received,
            ob_payload = payload, ob_scope = scope\<rparr>)))"

text \<open>\<open>Claim(...)\<close>: the fields are given as a claim record, but for the value, still unfrozen.\<close>

definition make_claim :: "claim \<Rightarrow> entity_ref + pyval \<Rightarrow> int option \<Rightarrow> world_error + claim" where
  "make_claim c val valid_for =
     bind_res (check_text (cl_predicate c) ''invalid_claim'') (\<lambda>_.
     bind_res (check_text (cl_source c) ''invalid_claim'') (\<lambda>_.
     bind_res (check_optional (cl_scope c) ''invalid_claim'') (\<lambda>_.
       if (case valid_for of None \<Rightarrow> False | Some n \<Rightarrow> n < 0 \<or> cl_valid_at c = None) then Inl (WorldError ''invalid_claim'')
       else if cl_ref c \<in> set (cl_supersedes c) then Inl (WorldError ''invalid_claim'')
       else bind_res (case val of Inl e \<Rightarrow> Inr (V_entity e)
                      | Inr v \<Rightarrow> bind_res (freeze_value ''invalid_claim'' v) (\<lambda>j. Inr (V_json j))) (\<lambda>v.
            Inr (c\<lparr>cl_value := v, cl_valid_for := map_option nat valid_for\<rparr>)))))"

text \<open>What a constructed claim satisfies.\<close>

definition claim_ok :: "claim \<Rightarrow> bool" where
  "claim_ok c \<longleftrightarrow> text_ok (cl_predicate c) \<and> text_ok (cl_source c)
     \<and> (cl_valid_for c \<noteq> None \<longrightarrow> cl_valid_at c \<noteq> None) \<and> cl_ref c \<notin> set (cl_supersedes c)"

lemma make_claim_ok: "make_claim c val valid_for = Inr d \<Longrightarrow> claim_ok d"
  by (auto simp: make_claim_def check_text_def claim_ok_def res_simps split: if_splits option.splits)

section \<open>JSON forms\<close>

definition time_data :: "observation_time \<Rightarrow> json" where
  "time_data t = J_record [(''clock_id'', JStr (tm_clock t)), (''nanoseconds'', JInt (int (tm_ns t)))]"

definition kind_text :: "claim_kind \<Rightarrow> pystr" where
  "kind_text k = ascii (case k of MEASUREMENT \<Rightarrow> ''measurement'' | INTERPRETATION \<Rightarrow> ''interpretation''
     | INFERENCE \<Rightarrow> ''inference'' | HYPOTHESIS \<Rightarrow> ''hypothesis'' | PRIOR \<Rightarrow> ''prior'' | PREDICTION \<Rightarrow> ''prediction'')"

definition evidence_kind_text :: "evidence_kind \<Rightarrow> pystr" where
  "evidence_kind_text k = ascii (case k of OBSERVATION \<Rightarrow> ''observation'' | CLAIM \<Rightarrow> ''claim'')"

definition evidence_data :: "evidence_ref \<Rightarrow> json" where
  "evidence_data e = J_record [(''kind'', JStr (evidence_kind_text (ev_kind e))), (''source'', J_text (ev_source e)),
     (''id'', JStr (ev_id e))]"

definition value_data :: "world_value \<Rightarrow> json" where
  "value_data v = (case v of V_entity e \<Rightarrow> J_record [(''entity_ref'', J_record [(''id'', JStr (er_id e))])] | V_json j \<Rightarrow> j)"

definition value_kind :: "world_value \<Rightarrow> json" where
  "value_kind v = JStr (ascii (case v of V_entity _ \<Rightarrow> ''entity_ref'' | V_json _ \<Rightarrow> ''json''))"

definition claim_data :: "claim \<Rightarrow> json" where
  "claim_data c = J_record [
     (''ref'', J_record [(''id'', JStr (cr_id (cl_ref c)))]),
     (''subject'', J_record [(''id'', JStr (er_id (cl_subject c)))]),
     (''predicate'', JStr (cl_predicate c)),
     (''value'', value_data (cl_value c)),
     (''kind'', JStr (kind_text (cl_kind c))),
     (''source'', JStr (cl_source c)),
     (''scope'', J_text (cl_scope c)),
     (''evidence_refs'', JArr (map evidence_data (cl_evidence c))),
     (''asserted_at'', JStr (cl_asserted_at c)),
     (''valid_at'', case cl_valid_at c of None \<Rightarrow> JNull | Some t \<Rightarrow> time_data t),
     (''valid_for_ns'', J_nat (cl_valid_for c)),
     (''supersedes'', JArr (map (\<lambda>r. J_record [(''id'', JStr (cr_id r))]) (cl_supersedes c))),
     (''value_kind'', value_kind (cl_value c))]"

definition resource_data :: "resource_ref \<Rightarrow> json" where
  "resource_data r = J_record [(''uri'', JStr (rr_uri r)), (''media_type'', J_text (rr_media_type r)),
     (''size'', J_nat (rr_size r)), (''digest'', J_text (rr_digest r)), (''available'', JBool (rr_available r))]"

definition observation_data :: "observation \<Rightarrow> json" where
  "observation_data ob = J_record [
     (''ref'', J_record [(''source'', JStr (or_source (ob_ref ob))), (''id'', JStr (or_id (ob_ref ob)))]),
     (''modality'', JStr (ob_modality ob)),
     (''observed_at'', time_data (ob_observed_at ob)),
     (''received_at'', JStr (ob_received_at ob)),
     (''payload'', case ob_payload ob of P_resource r \<Rightarrow> resource_data r | P_json j \<Rightarrow> j),
     (''scope'', J_text (ob_scope ob))]"

text \<open>The size and the digest of a JSON form; both encode it.\<close>

definition world_size :: "codec \<Rightarrow> json \<Rightarrow> world_error + nat" where
  "world_size cx j = (case json_size (cx_float cx) j of None \<Rightarrow> Inl UnicodeError | Some n \<Rightarrow> Inr n)"

definition world_digest :: "codec \<Rightarrow> json \<Rightarrow> world_error + pystr" where
  "world_digest cx j = (case canonical_json_digest (cx_float cx) (cx_sha cx) j of None \<Rightarrow> Inl UnicodeError | Some d \<Rightarrow> Inr d)"

section \<open>Limits and results\<close>

record world_limits =
  wl_entities :: nat
  wl_observations :: nat
  wl_claims :: nat
  wl_evidence :: nat
  wl_payload_bytes :: nat
  wl_media :: nat
  wl_search :: nat

datatype world_status = KNOWN | UNKNOWN_STATUS | STALE | CONFLICTED

record candidate =
  wc_value :: world_value
  wc_claims :: "claim_ref list"
  wc_evidence :: "evidence_ref list"
  wc_valid_at :: "observation_time option"

record entry =
  en_subject :: entity_ref
  en_predicate :: pystr
  en_status :: world_status
  en_value :: world_value
  en_candidates :: "candidate list"
  en_claims :: "claim_ref list"
  en_evidence :: "evidence_ref list"
  en_valid_at :: "observation_time option"
  en_scope :: "pystr option"

record receipt =
  rc_revision :: nat
  rc_changed :: bool
  rc_observation :: "observation_ref option"
  rc_claims :: "claim_ref list"

end
