(* ===== verification/WorldCommit.thy ===== *)
theory WorldCommit
  imports WorldTypes
begin

text \<open>
  The world's state and its one write operation (\<open>roboagent/world/world.py\<close>, \<open>World.__init__\<close>,
  \<open>_commit\<close>, \<open>_validate_graph\<close>). Everything after the lock is taken runs without suspension, so a
  commit is one step from the state it finds. The event loop check is not modelled.
\<close>

record world =
  wd_limits :: world_limits
  wd_sources :: "pystr list"
  wd_scopes :: "pystr option list"
  wd_revision :: nat
  wd_observations :: "(observation_ref, observation) dict"
  wd_transactions :: "(observation_ref, claim_ref list) dict"
  wd_claims :: "(claim_ref, claim) dict"
  wd_payload_bytes :: nat
  wd_claim_digests :: "(claim_ref, pystr) dict"
  wd_observation_digests :: "(observation_ref, pystr) dict"

definition new_world ::
  "pystr \<Rightarrow> world_limits \<Rightarrow> pystr list \<Rightarrow> pystr option list \<Rightarrow> string + world" where
  "new_world i limits sources scopes =
     (if \<not> text_ok i then Inl ''world_id must be non-empty.''
      else if list_ex blank sources then Inl ''allowed_sources must contain non-empty identities.''
      else if list_ex (\<lambda>s. case s of None \<Rightarrow> False | Some t \<Rightarrow> blank t) scopes
      then Inl ''allowed_scopes must contain scopes or None.''
      else Inr \<lparr>wd_limits = limits, wd_sources = sources, wd_scopes = scopes, wd_revision = 0,
                wd_observations = [], wd_transactions = [], wd_claims = [], wd_payload_bytes = 0,
                wd_claim_digests = [], wd_observation_digests = []\<rparr>)"

definition membership :: "world \<Rightarrow> pystr \<Rightarrow> pystr option \<Rightarrow> world_error + unit" where
  "membership w source scope =
     (if source \<notin> set (wd_sources w) then Inl (WorldError ''source_not_allowed'')
      else raise_if (scope \<notin> set (wd_scopes w)) (WorldError ''scope_not_allowed''))"

section \<open>The claim graph\<close>

definition claim_evidence :: "claim \<Rightarrow> claim_ref list" where
  "claim_evidence c = map (ClaimRef \<circ> ev_id) (filter (\<lambda>e. ev_kind e = CLAIM) (cl_evidence c))"

definition parents :: "claim \<Rightarrow> claim_ref list" where
  "parents c = cl_supersedes c @ claim_evidence c"

text \<open>
  The \<open>while\<close> loop of \<open>_validate_graph\<close>: the top of the stack is the head of the list, \<open>fin\<close> are the
  finished claims and \<open>act\<close> the claims on the current path.
\<close>

function graph_loop ::
  "(claim_ref, claim) dict \<Rightarrow> (claim_ref \<times> bool) list \<Rightarrow> claim_ref set \<Rightarrow> claim_ref set
     \<Rightarrow> world_error + claim_ref set \<times> claim_ref set" where
  "graph_loop cs [] fin act = Inr (fin, act)"
| "graph_loop cs ((ref, leaving) # stack) fin act =
     (if leaving
      then (if ref \<notin> act then Inl KeyError else graph_loop cs stack (insert ref fin) (act - {ref}))
      else if ref \<in> fin then graph_loop cs stack fin act
      else if ref \<in> act then Inl (WorldError ''invalid_claim'')
      else (case dget cs ref of
          None \<Rightarrow> Inl KeyError
        | Some c \<Rightarrow> graph_loop cs (rev (map (\<lambda>p. (p, False)) (parents c)) @ (ref, True) # stack) fin (insert ref act)))"
  by pat_completeness auto
termination
proof (relation "measures [\<lambda>(cs, stack, fin, act). card (dkeys cs - (fin \<union> act)), \<lambda>(cs, stack, fin, act). length stack]")
  fix cs :: "(claim_ref, claim) dict" and ref :: claim_ref and leaving and stack and fin act :: "claim_ref set"
  assume "leaving" "\<not> ref \<notin> act"
  then have "insert ref fin \<union> (act - {ref}) = fin \<union> act" by auto
  then show "((cs, stack, insert ref fin, act - {ref}), cs, (ref, leaving) # stack, fin, act) \<in>
      measures [\<lambda>(cs, stack, fin, act). card (dkeys cs - (fin \<union> act)), \<lambda>(cs, stack, fin, act). length stack]" by simp
next
  fix cs :: "(claim_ref, claim) dict" and ref :: claim_ref and leaving and stack and fin act :: "claim_ref set" and c
  assume n: "ref \<notin> fin" "ref \<notin> act" and c: "dget cs ref = Some c"
  have "ref \<in> dkeys cs" using c by (metis domI dom_map_of_conv_image_fst)
  with n have "dkeys cs - (fin \<union> insert ref act) \<subset> dkeys cs - (fin \<union> act)" by blast
  then have "card (dkeys cs - (fin \<union> insert ref act)) < card (dkeys cs - (fin \<union> act))"
    by (intro psubset_card_mono) simp_all
  then show "((cs, rev (map (\<lambda>p. (p, False)) (parents c)) @ (ref, True) # stack, fin, insert ref act), cs,
      (ref, leaving) # stack, fin, act) \<in>
      measures [\<lambda>(cs, stack, fin, act). card (dkeys cs - (fin \<union> act)), \<lambda>(cs, stack, fin, act). length stack]" by simp
qed simp_all

definition visit_root :: "(claim_ref, claim) dict \<Rightarrow> claim_ref \<Rightarrow> claim_ref set \<times> claim_ref set
     \<Rightarrow> world_error + claim_ref set \<times> claim_ref set" where
  "visit_root cs start s = graph_loop cs [(start, False)] (fst s) (snd s)"

definition validate_graph :: "(claim_ref, claim) dict \<Rightarrow> claim_ref list \<Rightarrow> world_error + unit" where
  "validate_graph cs existing =
     bind_res (fold_res (visit_root cs) (map fst cs) (set existing, {})) (\<lambda>_. Inr ())"

section \<open>Checks of a commit\<close>

text \<open>One turn of the loop over the batch: the claims so far and their digests.\<close>

definition collect_claim ::
  "codec \<Rightarrow> world \<Rightarrow> claim \<Rightarrow> (claim_ref, claim) dict \<times> (claim_ref, pystr) dict
     \<Rightarrow> world_error + (claim_ref, claim) dict \<times> (claim_ref, pystr) dict" where
  "collect_claim cx w c s = (case s of (incoming, digests) \<Rightarrow>
     bind_res (membership w (cl_source c) (cl_scope c)) (\<lambda>_.
     bind_res (world_digest cx (claim_data c)) (\<lambda>d.
       if cl_ref c \<in> dkeys incoming \<and> dget digests (cl_ref c) \<noteq> Some d then Inl (WorldError ''claim_conflict'')
       else Inr (dset (cl_ref c) c incoming, dset (cl_ref c) d digests))))"

definition claim_size :: "codec \<Rightarrow> claim_ref \<times> claim \<Rightarrow> world_error + claim_ref \<times> nat" where
  "claim_size cx p = bind_res (world_size cx (claim_data (snd p))) (\<lambda>n. Inr (fst p, n))"

definition observation_size :: "codec \<Rightarrow> observation option \<Rightarrow> world_error + nat" where
  "observation_size cx ob = (case ob of None \<Rightarrow> Inr 0 | Some b \<Rightarrow> world_size cx (observation_data b))"

definition observation_digest :: "codec \<Rightarrow> observation option \<Rightarrow> world_error + pystr option" where
  "observation_digest cx ob = (case ob of None \<Rightarrow> Inr None
     | Some b \<Rightarrow> bind_res (world_digest cx (observation_data b)) (\<lambda>d. Inr (Some d)))"

text \<open>A known observation may only be observed again with the same content and the same claims.\<close>

definition check_observation ::
  "world \<Rightarrow> observation option \<Rightarrow> pystr option \<Rightarrow> claim_ref list \<Rightarrow> world_error + unit" where
  "check_observation w ob d refs = (case ob of None \<Rightarrow> Inr ()
     | Some b \<Rightarrow>
         if ob_ref b \<notin> dkeys (wd_observations w) then Inr ()
         else raise_if (dget (wd_observation_digests w) (ob_ref b) \<noteq> d
             \<or> map_option set (dget (wd_transactions w) (ob_ref b)) \<noteq> Some (set refs)) (WorldError ''observation_conflict''))"

definition add_observation :: "observation option \<Rightarrow> (observation_ref, observation) dict \<Rightarrow> (observation_ref, observation) dict" where
  "add_observation ob obs = (case ob of None \<Rightarrow> obs | Some b \<Rightarrow> dset (ob_ref b) b obs)"

text \<open>One turn of the merge loop: the merged claims and the new ones.\<close>

definition merge_claim ::
  "world \<Rightarrow> (claim_ref, pystr) dict \<Rightarrow> claim_ref \<times> claim \<Rightarrow> (claim_ref, claim) dict \<times> (claim_ref, claim) dict
     \<Rightarrow> world_error + (claim_ref, claim) dict \<times> (claim_ref, claim) dict" where
  "merge_claim w digests p s = (case s of (merged, fresh) \<Rightarrow>
     if fst p \<in> dkeys merged \<and> dget (wd_claim_digests w) (fst p) \<noteq> dget digests (fst p)
     then Inl (WorldError ''claim_conflict'')
     else Inr (dset (fst p) (snd p) merged, if fst p \<in> dkeys merged then fresh else dset (fst p) (snd p) fresh))"

definition check_evidence ::
  "(observation_ref, observation) dict \<Rightarrow> (claim_ref, claim) dict \<Rightarrow> evidence_ref \<Rightarrow> world_error + unit" where
  "check_evidence obs merged e =
     (if ev_kind e = OBSERVATION
      then raise_if (ObservationRef (or_text (ev_source e) []) (ev_id e) \<notin> dkeys obs) (WorldError ''evidence_not_found'')
      else case dget merged (ClaimRef (ev_id e)) of
          None \<Rightarrow> Inl (WorldError ''evidence_not_found'')
        | Some parent \<Rightarrow> raise_if (ev_source e \<noteq> None \<and> ev_source e \<noteq> Some (cl_source parent)) (WorldError ''evidence_not_found''))"

definition factual :: "claim_kind \<Rightarrow> bool" where
  "factual k \<longleftrightarrow> k \<in> {MEASUREMENT, INTERPRETATION, INFERENCE}"

definition check_claim ::
  "(observation_ref, observation) dict \<Rightarrow> (claim_ref, claim) dict \<Rightarrow> claim \<Rightarrow> world_error + unit" where
  "check_claim obs merged c =
     (if factual (cl_kind c) \<and> cl_evidence c = [] then Inl (WorldError ''invalid_claim'')
      else bind_res (fold_res (\<lambda>e _. check_evidence obs merged e) (cl_evidence c) ()) (\<lambda>_.
           fold_res (\<lambda>r _. raise_if (r \<notin> dkeys merged) (WorldError ''evidence_not_found'')) (cl_supersedes c) ()))"

definition world_entities :: "(claim_ref, claim) dict \<Rightarrow> entity_ref list" where
  "world_entities cs = remdups (map (cl_subject \<circ> snd) cs
     @ concat (map (\<lambda>(r, c). case cl_value c of V_entity e \<Rightarrow> [e] | V_json _ \<Rightarrow> []) cs))"

definition media_count :: "(observation_ref, observation) dict \<Rightarrow> nat" where
  "media_count obs = length (filter (\<lambda>(r, b). case ob_payload b of P_resource _ \<Rightarrow> True | P_json _ \<Rightarrow> False) obs)"

definition over_capacity ::
  "world_limits \<Rightarrow> (observation_ref, observation) dict \<Rightarrow> (claim_ref, claim) dict \<Rightarrow> nat \<Rightarrow> bool" where
  "over_capacity l obs cs payload \<longleftrightarrow> length (world_entities cs) > wl_entities l
     \<or> length obs > wl_observations l \<or> length cs > wl_claims l \<or> length obs + length cs > wl_evidence l
     \<or> media_count obs > wl_media l \<or> payload > wl_payload_bytes l"

section \<open>The commit\<close>

text \<open>\<open>bytes_of\<close> sums the sizes of the new claims.\<close>

definition bytes_of :: "(claim_ref, nat) dict \<Rightarrow> (claim_ref, claim) dict \<Rightarrow> nat" where
  "bytes_of sizes fresh = sum_list (map (\<lambda>(r, c). or_else (dget sizes r) 0) fresh)"

definition known_observation :: "world \<Rightarrow> observation option \<Rightarrow> bool" where
  "known_observation w ob = (case ob of None \<Rightarrow> True | Some b \<Rightarrow> ob_ref b \<in> dkeys (wd_observations w))"

text \<open>\<open>dict.update\<close>.\<close>

definition dict_update :: "('k, 'v) dict \<Rightarrow> ('k, 'v) dict \<Rightarrow> ('k, 'v) dict" where
  "dict_update xs d = fold (\<lambda>(k, v). dset k v) xs d"

text \<open>What a commit that changes the world stores.\<close>

definition store_commit ::
  "world \<Rightarrow> observation option \<Rightarrow> pystr option \<Rightarrow> (claim_ref, claim) dict \<Rightarrow> (claim_ref, pystr) dict
     \<Rightarrow> (claim_ref, claim) dict \<Rightarrow> nat \<Rightarrow> world" where
  "store_commit w ob d incoming digests merged payload =
     w\<lparr>wd_observations := add_observation ob (wd_observations w),
       wd_claims := merged,
       wd_payload_bytes := payload,
       wd_claim_digests := dict_update digests (wd_claim_digests w),
       wd_observation_digests := (case (ob, d) of (Some b, Some x) \<Rightarrow> dset (ob_ref b) x (wd_observation_digests w)
          | _ \<Rightarrow> wd_observation_digests w),
       wd_transactions := (case ob of Some b \<Rightarrow> dset (ob_ref b) (map fst incoming) (wd_transactions w)
          | None \<Rightarrow> wd_transactions w),
       wd_revision := wd_revision w + 1\<rparr>"

text \<open>The section under the lock.\<close>

definition commit_section ::
  "world \<Rightarrow> observation option \<Rightarrow> pystr option \<Rightarrow> nat \<Rightarrow> (claim_ref, claim) dict \<Rightarrow> (claim_ref, pystr) dict
     \<Rightarrow> (claim_ref, nat) dict \<Rightarrow> world_error + receipt \<times> world" where
  "commit_section w ob d ob_size incoming digests sizes =
     bind_res (check_observation w ob d (map fst incoming)) (\<lambda>_.
     bind_res (fold_res (merge_claim w digests) incoming (wd_claims w, [])) (\<lambda>(merged, fresh).
     let obs = add_observation ob (wd_observations w) in
     bind_res (fold_res (\<lambda>p _. check_claim obs merged (snd p)) incoming ()) (\<lambda>_.
     bind_res (validate_graph merged (map fst (wd_claims w))) (\<lambda>_.
     let payload = wd_payload_bytes w + bytes_of sizes fresh + (if known_observation w ob then 0 else ob_size);
         changed = (fresh \<noteq> [] \<or> \<not> known_observation w ob);
         w1 = (if changed then store_commit w ob d incoming digests merged payload else w)
     in if over_capacity (wd_limits w) obs merged payload then Inl (WorldError ''world_capacity_exceeded'')
        else Inr (\<lparr>rc_revision = wd_revision w1, rc_changed = changed, rc_observation = map_option ob_ref ob,
                   rc_claims = map fst incoming\<rparr>, w1)))))"

definition world_commit :: "codec \<Rightarrow> observation option \<Rightarrow> claim list \<Rightarrow> world \<Rightarrow> world_error + receipt \<times> world" where
  "world_commit cx ob claims w =
     (if length claims > wl_claims (wd_limits w) then Inl (WorldError ''world_capacity_exceeded'')
      else bind_res (case ob of None \<Rightarrow> Inr () | Some b \<Rightarrow> membership w (or_source (ob_ref b)) (ob_scope b)) (\<lambda>_.
      bind_res (fold_res (collect_claim cx w) claims ([], [])) (\<lambda>(incoming, digests).
      bind_res (map_res (claim_size cx) incoming) (\<lambda>sizes.
      bind_res (observation_size cx ob) (\<lambda>ob_size.
        if list_ex (\<lambda>n. n > wl_payload_bytes (wd_limits w)) (map snd sizes @ [ob_size])
        then Inl (WorldError ''world_capacity_exceeded'')
        else bind_res (observation_digest cx ob) (\<lambda>d.
             commit_section w ob d ob_size incoming digests sizes))))))"

definition observe :: "codec \<Rightarrow> observation \<Rightarrow> claim list \<Rightarrow> world \<Rightarrow> world_error + receipt \<times> world" where
  "observe cx ob claims w = world_commit cx (Some ob) claims w"

definition add_claims :: "codec \<Rightarrow> claim list \<Rightarrow> world \<Rightarrow> world_error + receipt \<times> world" where
  "add_claims cx claims w = world_commit cx None claims w"


text \<open>
  \<open>_validate_graph\<close> decides whether the claims form an acyclic graph. Soundness: a finished claim is
  accessible along the parent links, because everything a claim on the path waits for is finished or above
  it on the stack. Completeness: whatever is above a claim on the stack leads back to it.
\<close>

definition claim_edges :: "(claim_ref, claim) dict \<Rightarrow> (claim_ref \<times> claim_ref) set" where
  "claim_edges cs = {(p, r). \<exists>c. dget cs r = Some c \<and> p \<in> set (parents c)}"

lemma edges_of: "dget cs r = Some c \<Longrightarrow> (p, r) \<in> claim_edges cs \<longleftrightarrow> p \<in> set (parents c)"
  by (simp add: claim_edges_def)

lemma edges_key: "(p, r) \<in> claim_edges cs \<Longrightarrow> r \<in> dkeys cs"
  by (auto simp: claim_edges_def dest: map_of_SomeD intro: rev_image_eqI)

declare graph_loop.simps(2) [simp del]

lemma graph_loop_leave: "ref \<in> act \<Longrightarrow> graph_loop cs ((ref, True) # stack) fin act = graph_loop cs stack (insert ref fin) (act - {ref})"
  by (simp add: graph_loop.simps(2))

lemma graph_loop_skip: "ref \<in> fin \<Longrightarrow> graph_loop cs ((ref, False) # stack) fin act = graph_loop cs stack fin act"
  by (simp add: graph_loop.simps(2))

definition unmarked :: "claim_ref list \<Rightarrow> (claim_ref \<times> bool) list" where
  "unmarked ps = rev (map (\<lambda>p. (p, False)) ps)"

lemma graph_loop_new:
  "ref \<notin> fin \<Longrightarrow> ref \<notin> act \<Longrightarrow> dget cs ref = Some c \<Longrightarrow>
     graph_loop cs ((ref, False) # stack) fin act = graph_loop cs (unmarked (parents c) @ (ref, True) # stack) fin (insert ref act)"
  by (simp add: unmarked_def graph_loop.simps(2))

lemma unmarked_marks [simp]: "(r, True) \<notin> set (unmarked ps)" "fst ` set (unmarked ps) = set ps"
  by (auto simp: unmarked_def image_image)

section \<open>Soundness\<close>

text \<open>\<open>stack_ok E X s\<close>: every claim being left on \<open>s\<close> has its parents in \<open>X\<close> or above it.\<close>

fun stack_ok :: "(claim_ref \<times> claim_ref) set \<Rightarrow> claim_ref set \<Rightarrow> (claim_ref \<times> bool) list \<Rightarrow> bool" where
  "stack_ok E X [] \<longleftrightarrow> True"
| "stack_ok E X ((r, leaving) # s) \<longleftrightarrow> (leaving \<longrightarrow> (\<forall>p. (p, r) \<in> E \<longrightarrow> p \<in> X)) \<and> stack_ok E (insert r X) s"

lemma stack_ok_mono: "stack_ok E X s \<Longrightarrow> X \<subseteq> Y \<Longrightarrow> stack_ok E Y s"
proof (induction s arbitrary: X Y)
  case (Cons a s)
  from Cons.IH [of "insert (fst a) X" "insert (fst a) Y"] Cons.prems show ?case by (cases a) auto
qed simp

lemma stack_ok_unmarked: "stack_ok E X (map (\<lambda>p. (p, False)) ps @ s) = stack_ok E (X \<union> set ps) s"
  by (induction ps arbitrary: X) simp_all

lemma graph_loop_sound:
  assumes "graph_loop cs stack fin act = Inr (fin', act')" "stack_ok (claim_edges cs) fin stack"
    "fin \<subseteq> Wellfounded.acc (claim_edges cs)"
  shows "fin' \<subseteq> Wellfounded.acc (claim_edges cs) \<and> fin \<union> fst ` set stack \<subseteq> fin'"
  using assms
proof (induction cs stack fin act rule: graph_loop.induct)
  case (2 cs ref leaving stack fin act)
  have "leaving \<longrightarrow> ref \<in> act" "\<not> leaving \<longrightarrow> ref \<notin> fin \<longrightarrow> ref \<notin> act \<and> dget cs ref \<noteq> None"
    using "2.prems"(1) unfolding graph_loop.simps(2) by (auto split: if_splits option.splits)
  then consider (leave) "leaving" "ref \<in> act" | (skip) "\<not> leaving" "ref \<in> fin"
    | (new) c where "\<not> leaving" "ref \<notin> fin" "ref \<notin> act" "dget cs ref = Some c"
    by blast
  then show ?case
  proof cases
    case leave
    have "ref \<in> Wellfounded.acc (claim_edges cs)"
    proof (rule accI)
      fix p assume "(p, ref) \<in> claim_edges cs"
      with "2.prems"(2) leave(1) have "p \<in> fin" by simp
      with "2.prems"(3) show "p \<in> Wellfounded.acc (claim_edges cs)" by blast
    qed
    with "2.prems" have "insert ref fin \<subseteq> Wellfounded.acc (claim_edges cs)"
      "graph_loop cs stack (insert ref fin) (act - {ref}) = Inr (fin', act')"
      "stack_ok (claim_edges cs) (insert ref fin) stack"
      using leave graph_loop_leave [OF leave(2)] by simp_all
    with "2.IH"(1) [OF leave(1)] leave(2) show ?thesis by simp
  next
    case skip
    then have "insert ref fin = fin" by blast
    with "2.prems" "2.IH"(2) [OF skip] skip graph_loop_skip [OF skip(2)] show ?thesis by auto
  next
    case new
    let ?s = "unmarked (parents c) @ (ref, True) # stack"
    have r: "graph_loop cs ?s fin (insert ref act) = Inr (fin', act')"
      using "2.prems"(1) new graph_loop_new [OF new(2,3,4)] by simp
    have "stack_ok (claim_edges cs) (insert ref fin) stack" using "2.prems"(2) by simp
    then have "stack_ok (claim_edges cs) (insert ref (fin \<union> set (parents c))) stack"
      by (rule stack_ok_mono) blast
    then have "stack_ok (claim_edges cs) fin ?s"
      using edges_of [OF new(4)] by (simp add: unmarked_def rev_map stack_ok_unmarked)
    from "2.IH"(3) [OF new(1,2,3,4), folded unmarked_def, OF r this "2.prems"(3)] show ?thesis by auto
  qed
qed simp

lemma visit_roots_sound:
  assumes "fold_res (visit_root cs) rs (fin, act) = Inr (fin', act')" "fin \<subseteq> Wellfounded.acc (claim_edges cs)"
  shows "fin' \<subseteq> Wellfounded.acc (claim_edges cs) \<and> fin \<union> set rs \<subseteq> fin'"
  using assms
proof (induction rs arbitrary: fin act)
  case (Cons r rs)
  from Cons.prems(1) obtain fin1 act1 where 1: "graph_loop cs [(r, False)] fin act = Inr (fin1, act1)"
    "fold_res (visit_root cs) rs (fin1, act1) = Inr (fin', act')"
    by (auto simp: res_simps) (simp add: visit_root_def)
  from graph_loop_sound [OF 1(1) _ Cons.prems(2)] have "fin1 \<subseteq> Wellfounded.acc (claim_edges cs)" "fin \<union> {r} \<subseteq> fin1" by auto
  with Cons.IH [OF 1(2)] show ?case by auto
qed simp

section \<open>Completeness\<close>

text \<open>Every entry leads back to every claim being left below it.\<close>

fun chain_ok :: "(claim_ref \<times> claim_ref) set \<Rightarrow> (claim_ref \<times> bool) list \<Rightarrow> bool" where
  "chain_ok E [] \<longleftrightarrow> True"
| "chain_ok E ((x, leaving) # s) \<longleftrightarrow> (\<forall>r. (r, True) \<in> set s \<longrightarrow> (x, r) \<in> E\<^sup>+) \<and> chain_ok E s"

lemma chain_ok_unmarked:
  "chain_ok E (map (\<lambda>p. (p, False)) ps @ s) \<longleftrightarrow> (\<forall>p \<in> set ps. \<forall>r. (r, True) \<in> set s \<longrightarrow> (p, r) \<in> E\<^sup>+) \<and> chain_ok E s"
  by (induction ps) auto

lemma graph_loop_complete:
  assumes "acyclic (claim_edges cs)" "\<forall>r c. dget cs r = Some c \<longrightarrow> set (parents c) \<subseteq> dkeys cs"
    and "act = {r. (r, True) \<in> set stack}" "chain_ok (claim_edges cs) stack" "fst ` set stack \<subseteq> dkeys cs"
  shows "\<exists>fin'. graph_loop cs stack fin act = Inr (fin', {})"
  using assms
proof (induction cs stack fin act rule: graph_loop.induct)
  case (2 cs ref leaving stack fin act)
  have no: "(ref, True) \<notin> set stack"
    using "2.prems"(1,4) by (auto simp: acyclic_def)
  show ?case
  proof (cases leaving)
    case True
    then have "ref \<in> act" "act - {ref} = {r. (r, True) \<in> set stack}" using "2.prems"(3) no by auto
    with "2.IH"(1) [OF True] "2.prems" True graph_loop_leave show ?thesis by simp
  next
    case False
    have act: "act = {r. (r, True) \<in> set stack}" "ref \<notin> act" using "2.prems"(3) no False by auto
    show ?thesis
    proof (cases "ref \<in> fin")
      case True
      with "2.IH"(2) [OF False True] "2.prems" False act graph_loop_skip show ?thesis by simp
    next
      case new: False
      have "ref \<in> dkeys cs" using "2.prems"(5) by simp
      then obtain c where c: "dget cs ref = Some c" by (metis dget_None_iff not_None_eq)
      let ?s = "unmarked (parents c) @ (ref, True) # stack"
      have "chain_ok (claim_edges cs) ?s"
        using "2.prems"(4) edges_of [OF c]
        by (auto simp: unmarked_def rev_map chain_ok_unmarked intro: trancl_into_trancl2)
      moreover have "insert ref act = {r. (r, True) \<in> set ?s}" using act by auto
      moreover have "fst ` set ?s \<subseteq> dkeys cs" using "2.prems"(2,5) c by (simp add: image_Un)
      ultimately have "\<exists>fin'. graph_loop cs ?s fin (insert ref act) = Inr (fin', {})"
        using "2.IH"(3) [OF False new act(2) c, folded unmarked_def] "2.prems"(1,2) by blast
      with graph_loop_new [OF new act(2) c, of stack] False show ?thesis by simp
    qed
  qed
qed simp

lemma visit_roots_complete:
  assumes "acyclic (claim_edges cs)" "\<forall>r c. dget cs r = Some c \<longrightarrow> set (parents c) \<subseteq> dkeys cs" "set rs \<subseteq> dkeys cs"
  shows "\<exists>fin'. fold_res (visit_root cs) rs (fin, {}) = Inr (fin', {})"
  using assms(3)
proof (induction rs arbitrary: fin)
  case (Cons r rs)
  from graph_loop_complete [OF assms(1,2), of "{}" "[(r, False)]" fin] Cons.prems
  obtain fin1 where "graph_loop cs [(r, False)] fin {} = Inr (fin1, {})" by auto
  with Cons.IH [of fin1] Cons.prems show ?case by (simp add: visit_root_def)
qed simp

lemma edges_wf:
  assumes "dkeys cs \<subseteq> Wellfounded.acc (claim_edges cs)"
  shows "wf (claim_edges cs)"
proof (rule acc_wfI, rule allI)
  fix r show "r \<in> Wellfounded.acc (claim_edges cs)"
    using assms edges_key by (cases "r \<in> dkeys cs") (blast, blast intro: accI)
qed

lemma validate_graph_iff:
  assumes "\<forall>r c. dget cs r = Some c \<longrightarrow> set (parents c) \<subseteq> dkeys cs" "set existing \<subseteq> Wellfounded.acc (claim_edges cs)"
  shows "validate_graph cs existing = Inr () \<longleftrightarrow> wf (claim_edges cs)"
proof
  assume "validate_graph cs existing = Inr ()"
  then obtain fin act where "fold_res (visit_root cs) (map fst cs) (set existing, {}) = Inr (fin, act)"
    by (auto simp: validate_graph_def res_simps)
  from visit_roots_sound [OF this assms(2)] have "dkeys cs \<subseteq> Wellfounded.acc (claim_edges cs)" by auto
  then show "wf (claim_edges cs)" by (rule edges_wf)
next
  assume "wf (claim_edges cs)"
  then have "acyclic (claim_edges cs)" by (rule wf_acyclic)
  from visit_roots_complete [OF this assms(1), of "map fst cs" "set existing"] show "validate_graph cs existing = Inr ()"
    by (auto simp: validate_graph_def)
qed

end
