(* ===== verification/WorldInv.thy ===== *)
theory WorldInv
  imports WorldCommit
begin

text \<open>
  The invariant of the world and that every commit keeps it: claims and observations are stored under
  their own references with their digests, all they refer to is there, their graph is well-founded, and
  the limits hold.
\<close>

section \<open>Dictionaries\<close>

lemma each_checked: "fold_res (\<lambda>x _. f x) xs () = Inr () \<longleftrightarrow> (\<forall>x \<in> set xs. f x = Inr ())"
  by (induction xs) (auto simp: res_simps)

lemma dict_update_Cons [simp]: "dict_update ((k, v) # xs) d = dict_update xs (dset k v d)" "dict_update [] d = d"
  by (simp_all add: dict_update_def)

lemma dict_update_get:
  "dict_ok xs \<Longrightarrow> dget (dict_update xs d) k = (case dget xs k of None \<Rightarrow> dget d k | Some v \<Rightarrow> Some v)"
proof (induction xs arbitrary: d)
  case (Cons p xs)
  obtain j v where p: "p = (j, v)" by (cases p)
  with Cons.prems have "dict_ok xs" "dget xs j = None" by (auto simp: dict_ok_def map_of_eq_None_iff)
  with Cons.IH [of "dset j v d"] p show ?case by (auto split: option.split)
qed simp

lemma dict_update_keys: "dkeys (dict_update xs d) = dkeys xs \<union> dkeys d"
proof (induction xs arbitrary: d)
  case (Cons p xs)
  then show ?case by (cases p) auto
qed simp

lemma dict_update_ok: "dict_ok d \<Longrightarrow> dict_ok (dict_update xs d)"
proof (induction xs arbitrary: d)
  case (Cons p xs)
  then show ?case by (cases p) auto
qed simp

lemma dset_same: "dget d k = Some v \<Longrightarrow> dset k v d = d"
  by (induction d) (auto split: if_splits)

lemma dict_update_same: "\<forall>(k, v) \<in> set xs. dget d k = Some v \<Longrightarrow> dict_update xs d = d"
proof (induction xs arbitrary: d)
  case (Cons p xs)
  then show ?case by (cases p) (auto simp: dset_same)
qed simp

lemma key_get: "k \<in> dkeys d \<Longrightarrow> \<exists>v. dget d k = Some v"
  by (metis dget_None_iff not_None_eq)

lemma get_key: "dget d k = Some v \<Longrightarrow> k \<in> dkeys d"
  by (metis dget_None_iff option.distinct(1))

section \<open>Checked claims\<close>

lemma check_claim_iff:
  "check_claim obs m c = Inr () \<longleftrightarrow> (factual (cl_kind c) \<longrightarrow> cl_evidence c \<noteq> [])
     \<and> (\<forall>e \<in> set (cl_evidence c). check_evidence obs m e = Inr ()) \<and> set (cl_supersedes c) \<subseteq> dkeys m"
  unfolding check_claim_def by (simp add: bind_res_Inr_iff each_checked raise_if_Inr_iff subset_iff Ball_def)

lemma check_evidence_iff:
  "check_evidence obs m e = Inr () \<longleftrightarrow>
     (if ev_kind e = OBSERVATION then ObservationRef (or_text (ev_source e) []) (ev_id e) \<in> dkeys obs
      else \<exists>parent. dget m (ClaimRef (ev_id e)) = Some parent \<and> (ev_source e = None \<or> ev_source e = Some (cl_source parent)))"
  unfolding check_evidence_def by (auto simp: raise_if_def split: option.splits)

lemma check_claim_parents: "check_claim obs m c = Inr () \<Longrightarrow> set (parents c) \<subseteq> dkeys m"
  unfolding check_claim_iff check_evidence_iff
  by (fastforce simp: parents_def claim_evidence_def dest: get_key)

text \<open>Two claims that differ in their value at most.\<close>

definition same_claim :: "claim \<Rightarrow> claim \<Rightarrow> bool" where
  "same_claim c d \<longleftrightarrow> d\<lparr>cl_value := cl_value c\<rparr> = c"

lemma same_claim_refl [simp]: "same_claim c c"
  by (simp add: same_claim_def)

lemma same_claimD:
  assumes "same_claim c d"
  shows "cl_ref d = cl_ref c" "cl_source d = cl_source c" "parents d = parents c" "cl_evidence d = cl_evidence c"
    "cl_supersedes d = cl_supersedes c" "cl_kind d = cl_kind c" "cl_scope d = cl_scope c"
proof -
  have c: "c = d\<lparr>cl_value := cl_value c\<rparr>" using assms by (simp add: same_claim_def)
  show "cl_ref d = cl_ref c" "cl_source d = cl_source c" "cl_evidence d = cl_evidence c"
    "cl_supersedes d = cl_supersedes c" "cl_kind d = cl_kind c" "cl_scope d = cl_scope c"
    by (subst c, simp)+
  then show "parents d = parents c" by (simp add: parents_def claim_evidence_def)
qed

definition extends :: "(claim_ref, claim) dict \<Rightarrow> (claim_ref, claim) dict \<Rightarrow> bool" where
  "extends m m' \<longleftrightarrow> (\<forall>r c. dget m r = Some c \<longrightarrow> (\<exists>d. dget m' r = Some d \<and> same_claim c d))"

lemma check_claim_mono:
  assumes "check_claim obs m c = Inr ()" "dkeys obs \<subseteq> dkeys obs'" "extends m m'"
  shows "check_claim obs' m' c = Inr ()"
proof -
  have "check_evidence obs' m' e = Inr ()" if "check_evidence obs m e = Inr ()" for e
  proof (cases "ev_kind e = OBSERVATION")
    case True
    with that assms(2) show ?thesis by (auto simp: check_evidence_iff)
  next
    case False
    with that obtain parent where 1: "dget m (ClaimRef (ev_id e)) = Some parent"
      "ev_source e = None \<or> ev_source e = Some (cl_source parent)" by (auto simp: check_evidence_iff)
    with assms(3) obtain d where "dget m' (ClaimRef (ev_id e)) = Some d" "same_claim parent d"
      unfolding extends_def by blast
    with 1(2) same_claimD(2) [of parent d] False show ?thesis by (simp add: check_evidence_iff)
  qed
  moreover have "dkeys m \<subseteq> dkeys m'"
  proof
    fix r assume "r \<in> dkeys m"
    from key_get [OF this] obtain c where "dget m r = Some c" ..
    with assms(3) obtain d where "dget m' r = Some d" unfolding extends_def by blast
    then show "r \<in> dkeys m'" by (rule get_key)
  qed
  ultimately show ?thesis using assms(1) by (auto simp: check_claim_iff)
qed

lemma check_claim_same: "same_claim c d \<Longrightarrow> check_claim obs m d = check_claim obs m c"
  unfolding check_claim_def using same_claimD [of c d] by simp

section \<open>The invariant\<close>

definition world_ok :: "codec \<Rightarrow> world \<Rightarrow> bool" where
  "world_ok cx w \<longleftrightarrow> dict_ok (wd_claims w) \<and> dict_ok (wd_observations w)
     \<and> (\<forall>r c. dget (wd_claims w) r = Some c \<longrightarrow> cl_ref c = r
          \<and> cl_source c \<in> set (wd_sources w) \<and> cl_scope c \<in> set (wd_scopes w)
          \<and> check_claim (wd_observations w) (wd_claims w) c = Inr ()
          \<and> (\<exists>d. world_digest cx (claim_data c) = Inr d \<and> dget (wd_claim_digests w) r = Some d))
     \<and> (\<forall>r b. dget (wd_observations w) r = Some b \<longrightarrow> ob_ref b = r
          \<and> or_source r \<in> set (wd_sources w) \<and> ob_scope b \<in> set (wd_scopes w)
          \<and> (\<exists>d. world_digest cx (observation_data b) = Inr d \<and> dget (wd_observation_digests w) r = Some d)
          \<and> (\<exists>refs. dget (wd_transactions w) r = Some refs \<and> set refs \<subseteq> dkeys (wd_claims w)))
     \<and> wf (claim_edges (wd_claims w))
     \<and> \<not> over_capacity (wd_limits w) (wd_observations w) (wd_claims w) (wd_payload_bytes w)"

lemma world_okD:
  assumes "world_ok cx w"
  shows "dict_ok (wd_claims w)" "dict_ok (wd_observations w)" "wf (claim_edges (wd_claims w))"
    and "dget (wd_claims w) r = Some c \<Longrightarrow> cl_ref c = r"
    and "dget (wd_claims w) r = Some c \<Longrightarrow> check_claim (wd_observations w) (wd_claims w) c = Inr ()"
    and "dget (wd_claims w) r = Some c \<Longrightarrow>
      \<exists>d. world_digest cx (claim_data c) = Inr d \<and> dget (wd_claim_digests w) r = Some d"
    and "\<not> over_capacity (wd_limits w) (wd_observations w) (wd_claims w) (wd_payload_bytes w)"
  using assms unfolding world_ok_def by blast+

text \<open>No two different claims of the world and a batch share a digest, but for the order of keys in a value.\<close>

definition no_collision :: "codec \<Rightarrow> world \<Rightarrow> claim list \<Rightarrow> bool" where
  "no_collision cx w claims \<longleftrightarrow> (\<forall>c d. dget (wd_claims w) (cl_ref d) = Some c \<longrightarrow> d \<in> set claims \<longrightarrow>
     world_digest cx (claim_data c) = world_digest cx (claim_data d) \<longrightarrow> same_claim c d)"

section \<open>The loops of a commit\<close>

definition collected :: "codec \<Rightarrow> world \<Rightarrow> (claim_ref, claim) dict \<Rightarrow> (claim_ref, pystr) dict \<Rightarrow> bool" where
  "collected cx w incoming digests \<longleftrightarrow> dict_ok incoming \<and> map fst digests = map fst incoming
     \<and> (\<forall>r c. dget incoming r = Some c \<longrightarrow> cl_ref c = r
          \<and> cl_source c \<in> set (wd_sources w) \<and> cl_scope c \<in> set (wd_scopes w)
          \<and> (\<exists>d. world_digest cx (claim_data c) = Inr d \<and> dget digests r = Some d))"

lemma dset_map_fst: "map fst a = map fst b \<Longrightarrow> map fst (dset k x a) = map fst (dset k y b)"
proof (induction a arbitrary: b)
  case (Cons p a)
  then obtain q b' where "b = q # b'" by (cases b) auto
  with Cons show ?case by (cases p; cases q) auto
qed simp

lemma collect_claim_ok:
  assumes "collected cx w incoming digests" "collect_claim cx w c (incoming, digests) = Inr (incoming', digests')"
  shows "collected cx w incoming' digests' \<and> dkeys incoming' = insert (cl_ref c) (dkeys incoming)
    \<and> snd ` set incoming' \<subseteq> insert c (snd ` set incoming)"
proof -
  from assms(2) obtain d where d: "world_digest cx (claim_data c) = Inr d" "cl_source c \<in> set (wd_sources w)"
    "cl_scope c \<in> set (wd_scopes w)" "incoming' = dset (cl_ref c) c incoming" "digests' = dset (cl_ref c) d digests"
    by (auto simp: collect_claim_def membership_def res_simps split: if_splits)
  have "snd ` set incoming' \<subseteq> insert c (snd ` set incoming)"
    using assms(1) by (auto simp: d(4) set_dset collected_def)
  with d assms(1) show ?thesis by (auto simp: collected_def intro: dset_map_fst)
qed

lemma collect_all:
  assumes "fold_res (collect_claim cx w) claims (inc0, dig0) = Inr (incoming, digests)" "collected cx w inc0 dig0"
  shows "collected cx w incoming digests \<and> dkeys incoming = dkeys inc0 \<union> cl_ref ` set claims
    \<and> snd ` set incoming \<subseteq> set claims \<union> snd ` set inc0"
  using assms
proof (induction claims arbitrary: inc0 dig0)
  case (Cons c claims)
  then obtain s where s: "collect_claim cx w c (inc0, dig0) = Inr s" "fold_res (collect_claim cx w) claims s = Inr (incoming, digests)"
    by (auto simp: res_simps)
  obtain inc1 dig1 where e: "s = (inc1, dig1)" by (cases s)
  from collect_claim_ok [OF Cons.prems(2)] s(1) e have 1: "collected cx w inc1 dig1"
    "dkeys inc1 = insert (cl_ref c) (dkeys inc0)" "snd ` set inc1 \<subseteq> insert c (snd ` set inc0)" by blast+
  from Cons.IH [OF s(2) [unfolded e] 1(1)] have 2: "collected cx w incoming digests"
    "dkeys incoming = dkeys inc1 \<union> cl_ref ` set claims" "snd ` set incoming \<subseteq> set claims \<union> snd ` set inc1" by blast+
  have "snd ` set incoming \<subseteq> set (c # claims) \<union> snd ` set inc0" using 2(3) 1(3) unfolding list.set by blast
  with 2(1,2) 1(2) show ?case by simp
qed auto

lemma merge_all:
  assumes "fold_res (merge_claim w digests) incoming (m, f) = Inr (merged, fresh)" "dict_ok incoming"
    "\<forall>r \<in> dkeys incoming. r \<notin> dkeys f"
  shows "merged = dict_update incoming m \<and> fresh = f @ filter (\<lambda>p. fst p \<notin> dkeys m) incoming
    \<and> (\<forall>r \<in> dkeys incoming. r \<in> dkeys m \<longrightarrow> dget (wd_claim_digests w) r = dget digests r)"
  using assms
proof (induction incoming arbitrary: m f)
  case (Cons p incoming)
  obtain r c where p: "p = (r, c)" by (cases p)
  let ?f = "if r \<in> dkeys m then f else dset r c f"
  have 1: "r \<in> dkeys m \<longrightarrow> dget (wd_claim_digests w) r = dget digests r"
    "fold_res (merge_claim w digests) incoming (dset r c m, ?f) = Inr (merged, fresh)"
  proof -
    from Cons.prems(1) p obtain s where s: "merge_claim w digests (r, c) (m, f) = Inr s"
      "fold_res (merge_claim w digests) incoming s = Inr (merged, fresh)" by (auto simp only: fold_res.simps bind_res_Inr_iff)
    from s(1) have "(r \<in> dkeys m \<longrightarrow> dget (wd_claim_digests w) r = dget digests r) \<and> s = (dset r c m, ?f)"
      unfolding merge_claim_def prod.case fst_conv snd_conv by (simp split: if_splits)
    with s(2) show "r \<in> dkeys m \<longrightarrow> dget (wd_claim_digests w) r = dget digests r"
      "fold_res (merge_claim w digests) incoming (dset r c m, ?f) = Inr (merged, fresh)" by blast+
  qed
  have 2: "dict_ok incoming" "r \<notin> dkeys incoming" using Cons.prems(2) p by (auto simp: dict_ok_def)
  have new: "?f = f @ (if r \<in> dkeys m then [] else [(r, c)])"
    using Cons.prems(3) p by (auto intro!: dset_new)
  have "\<forall>j \<in> dkeys incoming. j \<notin> dkeys ?f"
    unfolding new using Cons.prems(3) 2(2) p by (auto simp: image_iff split: if_splits)
  from Cons.IH [OF 1(2) 2(1) this] have 3: "merged = dict_update incoming (dset r c m)"
    "fresh = ?f @ filter (\<lambda>p. fst p \<notin> dkeys (dset r c m)) incoming"
    "\<forall>j \<in> dkeys incoming. j \<in> dkeys (dset r c m) \<longrightarrow> dget (wd_claim_digests w) j = dget digests j" by blast+
  have "filter (\<lambda>p. fst p \<notin> dkeys (dset r c m)) incoming = filter (\<lambda>p. fst p \<notin> dkeys m) incoming"
    using 2(2) by (intro filter_cong) (auto simp: image_iff)
  with 3 p new 1(1) show ?case by auto
qed simp


section \<open>What a commit does\<close>

text \<open>The facts about a batch that the checks before and under the lock establish.\<close>

definition accepted :: "codec \<Rightarrow> world \<Rightarrow> observation option \<Rightarrow> claim list \<Rightarrow> (claim_ref, claim) dict
     \<Rightarrow> (claim_ref, pystr) dict \<Rightarrow> pystr option \<Rightarrow> (claim_ref, nat) dict \<Rightarrow> nat \<Rightarrow> bool" where
  "accepted cx w ob claims incoming digests d sizes ob_size \<longleftrightarrow>
     length claims \<le> wl_claims (wd_limits w)
     \<and> (case ob of None \<Rightarrow> Inr () | Some b \<Rightarrow> membership w (or_source (ob_ref b)) (ob_scope b)) = Inr ()
     \<and> fold_res (collect_claim cx w) claims ([], []) = Inr (incoming, digests)
     \<and> map_res (claim_size cx) incoming = Inr sizes \<and> observation_size cx ob = Inr ob_size
     \<and> \<not> list_ex (\<lambda>n. n > wl_payload_bytes (wd_limits w)) (map snd sizes @ [ob_size])
     \<and> observation_digest cx ob = Inr d"

lemma world_commit_Inr:
  "world_commit cx ob claims w = Inr r \<longleftrightarrow> (\<exists>incoming digests d sizes ob_size.
     accepted cx w ob claims incoming digests d sizes ob_size
     \<and> commit_section w ob d ob_size incoming digests sizes = Inr r)"
  unfolding world_commit_def accepted_def
  by (simp add: bind_res_Inr_iff not_less split: prod.split) blast

definition new_claims :: "world \<Rightarrow> (claim_ref, claim) dict \<Rightarrow> (claim_ref, claim) dict" where
  "new_claims w incoming = filter (\<lambda>p. fst p \<notin> dkeys (wd_claims w)) incoming"

lemma accepted_collected:
  assumes "accepted cx w ob claims incoming digests d sizes ob_size"
  shows "collected cx w incoming digests" "dkeys incoming = cl_ref ` set claims" "snd ` set incoming \<subseteq> set claims"
proof -
  have c: "collected cx w [] []" by (simp add: collected_def)
  have "fold_res (collect_claim cx w) claims ([], []) = Inr (incoming, digests)" using assms unfolding accepted_def by (elim conjE)
  from collect_all [OF this c] show "collected cx w incoming digests" "dkeys incoming = cl_ref ` set claims" "snd ` set incoming \<subseteq> set claims"
    by (simp_all only: list.set image_empty Un_empty_left Un_empty_right)
qed

text \<open>The section under the lock, step by step.\<close>

definition passed ::
  "world \<Rightarrow> observation option \<Rightarrow> pystr option \<Rightarrow> nat \<Rightarrow> (claim_ref, claim) dict \<Rightarrow> (claim_ref, pystr) dict
     \<Rightarrow> (claim_ref, nat) dict \<Rightarrow> (claim_ref, claim) dict \<Rightarrow> nat \<Rightarrow> bool" where
  "passed w ob d ob_size incoming digests sizes merged payload \<longleftrightarrow>
     check_observation w ob d (map fst incoming) = Inr ()
     \<and> merged = dict_update incoming (wd_claims w)
     \<and> (\<forall>r \<in> dkeys incoming. r \<in> dkeys (wd_claims w) \<longrightarrow> dget (wd_claim_digests w) r = dget digests r)
     \<and> (\<forall>p \<in> set incoming. check_claim (add_observation ob (wd_observations w)) merged (snd p) = Inr ())
     \<and> validate_graph merged (map fst (wd_claims w)) = Inr ()
     \<and> payload = wd_payload_bytes w + bytes_of sizes (new_claims w incoming) + (if known_observation w ob then 0 else ob_size)
     \<and> \<not> over_capacity (wd_limits w) (add_observation ob (wd_observations w)) merged payload"

definition changes :: "world \<Rightarrow> observation option \<Rightarrow> (claim_ref, claim) dict \<Rightarrow> bool" where
  "changes w ob incoming \<longleftrightarrow> new_claims w incoming \<noteq> [] \<or> \<not> known_observation w ob"

definition committed_world ::
  "world \<Rightarrow> observation option \<Rightarrow> pystr option \<Rightarrow> (claim_ref, claim) dict \<Rightarrow> (claim_ref, pystr) dict
     \<Rightarrow> (claim_ref, claim) dict \<Rightarrow> nat \<Rightarrow> world" where
  "committed_world w ob d incoming digests merged payload =
     (if changes w ob incoming then store_commit w ob d incoming digests merged payload else w)"

definition receipt_for :: "world \<Rightarrow> world \<Rightarrow> observation option \<Rightarrow> (claim_ref, claim) dict \<Rightarrow> receipt" where
  "receipt_for w w1 ob incoming = \<lparr>rc_revision = wd_revision w1, rc_changed = changes w ob incoming,
     rc_observation = map_option ob_ref ob, rc_claims = map fst incoming\<rparr>"

lemma merge_start:
  assumes "dict_ok incoming"
  shows "fold_res (merge_claim w digests) incoming (wd_claims w, []) = Inr (merged, fresh) \<Longrightarrow>
    merged = dict_update incoming (wd_claims w) \<and> fresh = new_claims w incoming
    \<and> (\<forall>r \<in> dkeys incoming. r \<in> dkeys (wd_claims w) \<longrightarrow> dget (wd_claim_digests w) r = dget digests r)"
  using merge_all [of w digests incoming "wd_claims w" "[]" merged fresh] assms by (simp add: new_claims_def)

lemma commit_section_passed:
  assumes ok: "dict_ok incoming" and c: "commit_section w ob d ob_size incoming digests sizes = Inr (rc, w')"
  shows "\<exists>merged payload. passed w ob d ob_size incoming digests sizes merged payload
    \<and> w' = committed_world w ob d incoming digests merged payload \<and> rc = receipt_for w w' ob incoming"
proof -
  from c obtain merged fresh where m: "check_observation w ob d (map fst incoming) = Inr ()"
    "fold_res (merge_claim w digests) incoming (wd_claims w, []) = Inr (merged, fresh)"
    "fold_res (\<lambda>p _. check_claim (add_observation ob (wd_observations w)) merged (snd p)) incoming () = Inr ()"
    "validate_graph merged (map fst (wd_claims w)) = Inr ()"
    and rest: "(let payload = wd_payload_bytes w + bytes_of sizes fresh + (if known_observation w ob then 0 else ob_size);
         changed = (fresh \<noteq> [] \<or> \<not> known_observation w ob);
         w1 = (if changed then store_commit w ob d incoming digests merged payload else w)
     in if over_capacity (wd_limits w) (add_observation ob (wd_observations w)) merged payload
        then Inl (WorldError ''world_capacity_exceeded'')
        else Inr (\<lparr>rc_revision = wd_revision w1, rc_changed = changed, rc_observation = map_option ob_ref ob,
                   rc_claims = map fst incoming\<rparr>, w1)) = Inr (rc, w')"
    unfolding commit_section_def Let_def bind_res_Inr_iff by (auto simp: bind_res_Inr_iff)
  from merge_start [OF ok m(2)] have f: "merged = dict_update incoming (wd_claims w)" "fresh = new_claims w incoming"
    "\<forall>r \<in> dkeys incoming. r \<in> dkeys (wd_claims w) \<longrightarrow> dget (wd_claim_digests w) r = dget digests r" by blast+
  let ?payload = "wd_payload_bytes w + bytes_of sizes fresh + (if known_observation w ob then 0 else ob_size)"
  have "passed w ob d ob_size incoming digests sizes merged ?payload"
    using m f rest unfolding passed_def each_checked Let_def by (simp split: if_splits)
  moreover have "w' = committed_world w ob d incoming digests merged ?payload"
    "rc = receipt_for w w' ob incoming"
    using rest f(2) unfolding committed_world_def changes_def receipt_for_def Let_def by (auto split: if_splits)
  ultimately show ?thesis by blast
qed

end
