(* ===== verification/WorldKeep.thy ===== *)
theory WorldKeep
  imports WorldInv
begin

text \<open>
  Every commit keeps the invariant of the world, keeps what the world already holds, and changes nothing
  when it is repeated.
\<close>

section \<open>The merged claims\<close>

lemma collected_digests_ok: "collected cx w incoming digests \<Longrightarrow> dict_ok digests"
  by (simp add: collected_def dict_ok_def)

lemma collected_keys: "collected cx w incoming digests \<Longrightarrow> dkeys digests = dkeys incoming"
  unfolding collected_def by (metis set_map)

lemma collectedD:
  assumes "collected cx w incoming digests" "dget incoming r = Some c"
  shows "cl_ref c = r" "cl_source c \<in> set (wd_sources w)" "cl_scope c \<in> set (wd_scopes w)"
    "\<exists>d. world_digest cx (claim_data c) = Inr d \<and> dget digests r = Some d"
  using assms unfolding collected_def by blast+

lemma merged_get:
  "collected cx w incoming digests \<Longrightarrow>
     dget (dict_update incoming m) r = (case dget incoming r of None \<Rightarrow> dget m r | Some c \<Rightarrow> Some c)"
  by (rule dict_update_get) (simp add: collected_def)

lemma merged_extends:
  assumes ok: "world_ok cx w" and acc: "accepted cx w ob claims incoming digests d sizes n"
    and ps: "passed w ob d n incoming digests sizes merged payload" and nc: "no_collision cx w claims"
  shows "extends (wd_claims w) merged"
  unfolding extends_def
proof (intro allI impI)
  fix r c assume c: "dget (wd_claims w) r = Some c"
  note col = accepted_collected [OF acc]
  have m: "merged = dict_update incoming (wd_claims w)" using ps by (simp add: passed_def)
  show "\<exists>d. dget merged r = Some d \<and> same_claim c d"
  proof (cases "dget incoming r")
    case None
    with c show ?thesis by (simp add: m merged_get [OF col(1)])
  next
    case (Some c')
    have "r \<in> dkeys incoming" "r \<in> dkeys (wd_claims w)" using get_key Some c by metis+
    with ps have same: "dget (wd_claim_digests w) r = dget digests r" unfolding passed_def by blast
    from collectedD(1,4) [OF col(1) Some] obtain x where x: "world_digest cx (claim_data c') = Inr x"
      "dget digests r = Some x" "cl_ref c' = r" by blast
    from world_okD(6) [OF ok c] obtain y where y: "world_digest cx (claim_data c) = Inr y"
      "dget (wd_claim_digests w) r = Some y" by blast
    have "c' \<in> set claims" using col(3) dget_Some_in [OF Some] by force
    moreover have "world_digest cx (claim_data c) = world_digest cx (claim_data c')" using x y same by simp
    ultimately have "same_claim c c'" using nc c x(3) unfolding no_collision_def by blast
    with Some show ?thesis by (simp add: m merged_get [OF col(1)])
  qed
qed

lemma add_observation_keys: "dkeys obs \<subseteq> dkeys (add_observation ob obs)"
  by (cases ob) (auto simp: add_observation_def)

lemma extends_keys: "extends m m' \<Longrightarrow> dkeys m \<subseteq> dkeys m'"
proof
  fix r assume e: "extends m m'" and "r \<in> dkeys m"
  from key_get [OF this(2)] obtain c where "dget m r = Some c" ..
  with e obtain d where "dget m' r = Some d" unfolding extends_def by blast
  then show "r \<in> dkeys m'" by (rule get_key)
qed

lemma merged_checked:
  assumes ok: "world_ok cx w" and acc: "accepted cx w ob claims incoming digests d sizes n"
    and ps: "passed w ob d n incoming digests sizes merged payload" and nc: "no_collision cx w claims"
    and g: "dget merged r = Some c"
  shows "check_claim (add_observation ob (wd_observations w)) merged c = Inr ()"
proof -
  have m: "merged = dict_update incoming (wd_claims w)" using ps by (simp add: passed_def)
  show ?thesis
  proof (cases "dget incoming r")
    case None
    with g have c: "dget (wd_claims w) r = Some c" by (simp add: m merged_get [OF accepted_collected(1) [OF acc]])
    show ?thesis
      by (rule check_claim_mono [OF world_okD(5) [OF ok c] add_observation_keys merged_extends [OF ok acc ps nc]])
  next
    case (Some c')
    with g have "c' = c" by (simp add: m merged_get [OF accepted_collected(1) [OF acc]])
    with dget_Some_in [OF Some] ps show ?thesis unfolding passed_def by fastforce
  qed
qed

lemma merged_wf:
  assumes ok: "world_ok cx w" and acc: "accepted cx w ob claims incoming digests d sizes n"
    and ps: "passed w ob d n incoming digests sizes merged payload" and nc: "no_collision cx w claims"
  shows "wf (claim_edges merged)"
proof -
  note ext = merged_extends [OF ok acc ps nc]
  have old: "(p, r) \<in> claim_edges (wd_claims w)" if r: "r \<in> dkeys (wd_claims w)" and e: "(p, r) \<in> claim_edges merged" for p r
  proof -
    from key_get [OF r] obtain c where c: "dget (wd_claims w) r = Some c" ..
    with ext obtain c' where "dget merged r = Some c'" "same_claim c c'" unfolding extends_def by blast
    with e edges_of [OF this(1)] same_claimD(3) [of c c'] edges_of [OF c] show ?thesis by simp
  qed
  have "r \<in> dkeys (wd_claims w) \<longrightarrow> r \<in> Wellfounded.acc (claim_edges merged)" for r
  proof (induction r rule: wf_induct_rule [OF world_okD(3) [OF ok]])
    case (1 r)
    show ?case
    proof
      assume r: "r \<in> dkeys (wd_claims w)"
      show "r \<in> Wellfounded.acc (claim_edges merged)"
      proof (rule accI)
        fix p assume "(p, r) \<in> claim_edges merged"
        then have e: "(p, r) \<in> claim_edges (wd_claims w)" by (rule old [OF r])
        from key_get [OF r] obtain c where c: "dget (wd_claims w) r = Some c" ..
        with e check_claim_parents [OF world_okD(5) [OF ok c]] have "p \<in> dkeys (wd_claims w)"
          by (auto simp: edges_of [OF c])
        with 1 e show "p \<in> Wellfounded.acc (claim_edges merged)" by blast
      qed
    qed
  qed
  then have "set (map fst (wd_claims w)) \<subseteq> Wellfounded.acc (claim_edges merged)" unfolding set_map by blast
  moreover have "\<forall>r c. dget merged r = Some c \<longrightarrow> set (parents c) \<subseteq> dkeys merged"
    using merged_checked [OF ok acc ps nc] check_claim_parents by blast
  moreover have "validate_graph merged (map fst (wd_claims w)) = Inr ()" using ps unfolding passed_def by blast
  ultimately show ?thesis using validate_graph_iff by blast
qed

section \<open>The invariant is kept\<close>

lemma store_commit_simps [simp]:
  "wd_limits (store_commit w ob d incoming digests merged payload) = wd_limits w"
  "wd_sources (store_commit w ob d incoming digests merged payload) = wd_sources w"
  "wd_scopes (store_commit w ob d incoming digests merged payload) = wd_scopes w"
  "wd_claims (store_commit w ob d incoming digests merged payload) = merged"
  "wd_payload_bytes (store_commit w ob d incoming digests merged payload) = payload"
  "wd_observations (store_commit w ob d incoming digests merged payload) = add_observation ob (wd_observations w)"
  "wd_claim_digests (store_commit w ob d incoming digests merged payload) = dict_update digests (wd_claim_digests w)"
  "wd_revision (store_commit w ob d incoming digests merged payload) = wd_revision w + 1"
  by (simp_all add: store_commit_def)

lemma stored_claims:
  assumes ok: "world_ok cx w" and acc: "accepted cx w ob claims incoming digests d sizes n"
    and ps: "passed w ob d n incoming digests sizes merged payload" and nc: "no_collision cx w claims"
    and g: "dget merged r = Some c"
  shows "cl_ref c = r \<and> cl_source c \<in> set (wd_sources w) \<and> cl_scope c \<in> set (wd_scopes w)
    \<and> (\<exists>x. world_digest cx (claim_data c) = Inr x \<and> dget (dict_update digests (wd_claim_digests w)) r = Some x)"
proof -
  note col = accepted_collected(1) [OF acc]
  have m: "merged = dict_update incoming (wd_claims w)" using ps by (simp add: passed_def)
  have digs: "dget (dict_update digests (wd_claim_digests w)) r
      = (case dget digests r of None \<Rightarrow> dget (wd_claim_digests w) r | Some x \<Rightarrow> Some x)"
    by (rule dict_update_get [OF collected_digests_ok [OF col]])
  show ?thesis
  proof (cases "dget incoming r")
    case None
    with g have c: "dget (wd_claims w) r = Some c" by (simp add: m merged_get [OF col])
    from None have "dget digests r = None" using collected_keys [OF col] dget_None_iff by metis
    with ok c digs show ?thesis unfolding world_ok_def by auto
  next
    case (Some c')
    with g have "c' = c" by (simp add: m merged_get [OF col])
    with collectedD [OF col Some] digs show ?thesis by auto
  qed
qed

lemma stored_observations:
  assumes ok: "world_ok cx w" and acc: "accepted cx w ob claims incoming digests d sizes n"
    and keys: "dkeys (wd_claims w) \<subseteq> dkeys merged" "dkeys incoming \<subseteq> dkeys merged"
    and g: "dget (add_observation ob (wd_observations w)) r = Some b"
  shows "ob_ref b = r \<and> or_source r \<in> set (wd_sources w) \<and> ob_scope b \<in> set (wd_scopes w)
    \<and> (\<exists>x. world_digest cx (observation_data b) = Inr x
         \<and> dget (wd_observation_digests (store_commit w ob d incoming digests merged payload)) r = Some x)
    \<and> (\<exists>refs. dget (wd_transactions (store_commit w ob d incoming digests merged payload)) r = Some refs
         \<and> set refs \<subseteq> dkeys merged)"
proof (cases "\<exists>o'. ob = Some o' \<and> ob_ref o' = r")
  case True
  then obtain o' where o: "ob = Some o'" "ob_ref o' = r" by blast
  with g have b: "b = o'" by (simp add: add_observation_def)
  from acc o obtain x where "world_digest cx (observation_data o') = Inr x" "d = Some x"
    "or_source (ob_ref o') \<in> set (wd_sources w)" "ob_scope o' \<in> set (wd_scopes w)"
    by (auto simp: accepted_def observation_digest_def membership_def bind_res_Inr_iff raise_if_Inr_iff split: if_splits)
  with o b keys(2) show ?thesis by (auto simp: store_commit_def)
next
  case False
  with g have old: "dget (wd_observations w) r = Some b"
    by (cases ob) (auto simp: add_observation_def split: if_splits)
  have same: "dget (wd_observation_digests (store_commit w ob d incoming digests merged payload)) r = dget (wd_observation_digests w) r"
    "dget (wd_transactions (store_commit w ob d incoming digests merged payload)) r = dget (wd_transactions w) r"
    using False by (auto simp: store_commit_def split: option.split)
  from ok old obtain refs where "dget (wd_transactions w) r = Some refs" "set refs \<subseteq> dkeys (wd_claims w)"
    unfolding world_ok_def by blast
  with ok old same keys(1) show ?thesis unfolding world_ok_def by auto
qed

lemma store_commit_ok:
  assumes ok: "world_ok cx w" and acc: "accepted cx w ob claims incoming digests d sizes n"
    and ps: "passed w ob d n incoming digests sizes merged payload" and nc: "no_collision cx w claims"
  shows "world_ok cx (store_commit w ob d incoming digests merged payload)"
proof -
  have m: "merged = dict_update incoming (wd_claims w)" using ps by (simp add: passed_def)
  have keys: "dkeys (wd_claims w) \<subseteq> dkeys merged" "dkeys incoming \<subseteq> dkeys merged"
    by (auto simp: m dict_update_keys)
  have dicts: "dict_ok merged" "dict_ok (add_observation ob (wd_observations w))"
    using world_okD(1,2) [OF ok] by (auto simp: m dict_update_ok add_observation_def split: option.split)
  have cap: "\<not> over_capacity (wd_limits w) (add_observation ob (wd_observations w)) merged payload"
    using ps unfolding passed_def by blast
  from stored_claims [OF ok acc ps nc] merged_checked [OF ok acc ps nc] stored_observations [OF ok acc keys]
    merged_wf [OF ok acc ps nc] dicts cap
  show ?thesis unfolding world_ok_def store_commit_simps by blast
qed

lemma world_commit_cases:
  assumes "world_commit cx ob claims w = Inr (rc, w')"
  obtains incoming digests d sizes n merged payload where "accepted cx w ob claims incoming digests d sizes n"
    "passed w ob d n incoming digests sizes merged payload"
    "w' = committed_world w ob d incoming digests merged payload" "rc = receipt_for w w' ob incoming"
proof -
  from assms obtain incoming digests d sizes n where a: "accepted cx w ob claims incoming digests d sizes n"
    and c: "commit_section w ob d n incoming digests sizes = Inr (rc, w')" unfolding world_commit_Inr by blast
  have "dict_ok incoming" using accepted_collected(1) [OF a] by (simp add: collected_def)
  from commit_section_passed [OF this c] a that show thesis by blast
qed

lemma world_commit_ok:
  assumes "world_ok cx w" "no_collision cx w claims" "world_commit cx ob claims w = Inr (rc, w')"
  shows "world_ok cx w'"
  using assms(3)
proof (cases rule: world_commit_cases)
  case (1 incoming digests d sizes n merged payload)
  with store_commit_ok [OF assms(1) 1(1,2) assms(2)] assms(1) show ?thesis by (simp add: committed_world_def)
qed

lemma world_commit_keeps:
  assumes "world_ok cx w" "no_collision cx w claims" "world_commit cx ob claims w = Inr (rc, w')"
  shows "extends (wd_claims w) (wd_claims w') \<and> dkeys (wd_observations w) \<subseteq> dkeys (wd_observations w')
    \<and> wd_revision w' = wd_revision w + (if rc_changed rc then 1 else 0) \<and> (\<not> rc_changed rc \<longrightarrow> w' = w)"
  using assms(3)
proof (cases rule: world_commit_cases)
  case (1 incoming digests d sizes n merged payload)
  have "extends (wd_claims w) (wd_claims w)" by (simp add: extends_def)
  with merged_extends [OF assms(1) 1(1,2) assms(2)] 1(3,4) add_observation_keys show ?thesis
    by (auto simp: committed_world_def receipt_for_def)
qed


section \<open>A repeated commit\<close>

lemma accepted_same:
  assumes "wd_limits w' = wd_limits w" "wd_sources w' = wd_sources w" "wd_scopes w' = wd_scopes w"
  shows "accepted cx w' ob claims incoming digests d sizes n = accepted cx w ob claims incoming digests d sizes n"
proof -
  have m: "membership w' = membership w" by (intro ext) (simp add: membership_def assms)
  have c: "collect_claim cx w' = collect_claim cx w" by (intro ext) (simp add: collect_claim_def m)
  show ?thesis unfolding accepted_def m c assms ..
qed

lemma merge_again:
  "\<forall>p \<in> set incoming. dget m (fst p) = Some (snd p) \<and> dget (wd_claim_digests w) (fst p) = dget digests (fst p) \<Longrightarrow>
     fold_res (merge_claim w digests) incoming (m, f) = Inr (m, f)"
proof (induction incoming)
  case (Cons p incoming)
  then have g: "dget m (fst p) = Some (snd p)" by simp
  from Cons get_key [OF g] dset_same [OF g] show ?case by (simp add: merge_claim_def)
qed simp

lemma validate_known: "set rs \<subseteq> fin \<Longrightarrow> fold_res (visit_root cs) rs (fin, act) = Inr (fin, act)"
  by (induction rs) (simp_all add: visit_root_def graph_loop_skip)

lemma add_observation_again: "add_observation ob (add_observation ob obs) = add_observation ob obs"
  by (cases ob) (simp_all add: add_observation_def dset_same)

lemma world_commit_again:
  assumes "world_commit cx ob claims w = Inr (rc, w')"
  shows "\<exists>rc'. world_commit cx ob claims w' = Inr (rc', w') \<and> \<not> rc_changed rc' \<and> rc_revision rc' = rc_revision rc"
  using assms
proof (cases rule: world_commit_cases)
  case (1 incoming digests d sizes n merged payload)
  show ?thesis
  proof (cases "changes w ob incoming")
    case False
    with 1(3,4) assms show ?thesis by (auto simp: committed_world_def receipt_for_def)
  next
    case True
    with 1(3) have w': "w' = store_commit w ob d incoming digests merged payload" by (simp add: committed_world_def)
    note col = accepted_collected(1) [OF 1(1)]
    have m: "merged = dict_update incoming (wd_claims w)" using 1(2) by (simp add: passed_def)
    have inc: "dget merged (fst p) = Some (snd p)" "dget (wd_claim_digests w') (fst p) = dget digests (fst p)"
      if p: "p \<in> set incoming" for p
    proof -
      have g: "dget incoming (fst p) = Some (snd p)" using col p by (cases p) (auto simp: collected_def intro: dict_ok_get)
      with m show "dget merged (fst p) = Some (snd p)" by (simp add: merged_get [OF col])
      from collectedD(4) [OF col g] show "dget (wd_claim_digests w') (fst p) = dget digests (fst p)"
        by (auto simp: w' dict_update_get [OF collected_digests_ok [OF col]])
    qed
    have obs: "check_observation w' ob d (map fst incoming) = Inr ()"
      using 1(1) by (cases ob)
        (auto simp: check_observation_def w' store_commit_def accepted_def observation_digest_def bind_res_Inr_iff)
    have merge: "fold_res (merge_claim w' digests) incoming (wd_claims w', []) = Inr (merged, [])"
      using inc by (simp add: w' merge_again)
    have checks: "fold_res (\<lambda>p _. check_claim (add_observation ob (wd_observations w')) merged (snd p)) incoming () = Inr ()"
    proof -
      have "\<forall>p \<in> set incoming. check_claim (add_observation ob (wd_observations w)) merged (snd p) = Inr ()"
        using 1(2) unfolding passed_def by blast
      then show ?thesis by (simp add: each_checked w' add_observation_again)
    qed
    have graph: "validate_graph merged (map fst (wd_claims w')) = Inr ()"
      by (simp add: validate_graph_def w' validate_known)
    have known: "known_observation w' ob" by (cases ob) (simp_all add: known_observation_def w' add_observation_def)
    have cap: "\<not> over_capacity (wd_limits w') (add_observation ob (wd_observations w')) merged (wd_payload_bytes w' + bytes_of sizes [])"
    proof -
      have "\<not> over_capacity (wd_limits w) (add_observation ob (wd_observations w)) merged payload"
        using 1(2) unfolding passed_def by blast
      then show ?thesis by (simp add: w' add_observation_again bytes_of_def)
    qed
    let ?rc = "\<lparr>rc_revision = wd_revision w', rc_changed = False, rc_observation = map_option ob_ref ob, rc_claims = map fst incoming\<rparr>"
    have "commit_section w' ob d n incoming digests sizes = Inr (?rc, w')"
      unfolding commit_section_def Let_def by (simp add: obs merge checks graph known cap)
    moreover have "accepted cx w' ob claims incoming digests d sizes n"
      using 1(1) accepted_same [of w' w] by (simp add: w')
    ultimately have "world_commit cx ob claims w' = Inr (?rc, w')" unfolding world_commit_Inr by blast
    with 1(4) show ?thesis by (simp add: receipt_for_def)
  qed
qed

end
