(* ===== verification/WorldQuery.thy ===== *)
theory WorldQuery
  imports WorldKeep
begin

text \<open>
  Reading the world (\<open>roboagent/world/world.py\<close>, \<open>snapshot\<close>, \<open>query\<close>, \<open>find_entities\<close> and the
  functions they use): which claims are grounded in observations, which are in force at the time a clock
  gives, and what an attribute of an entity is known to be. The result \<open>None\<close> of a read is a loop that
  does not end. A clock resolver is a function; Python's \<open>None\<close> as a value is the JSON null it prints as.
\<close>

section \<open>Grounded claims\<close>

definition index_claims :: "claim list \<Rightarrow> (claim_ref, claim) dict" where
  "index_claims claims = dict_update (map (\<lambda>c. (cl_ref c, c)) claims) []"

definition supports :: "claim_ref set \<Rightarrow> claim_ref set \<Rightarrow> claim_ref \<Rightarrow> claim \<Rightarrow> bool" where
  "supports superseded good ref c \<longleftrightarrow> ref \<notin> superseded \<and> factual (cl_kind c)
     \<and> list_ex (\<lambda>e. ev_kind e = OBSERVATION \<or> ClaimRef (ev_id e) \<in> good) (cl_evidence c)"

text \<open>The \<open>while\<close> loop of \<open>_grounded_claims\<close>: \<open>fin\<close> are the finished claims, \<open>good\<close> the supported ones.\<close>

partial_function (option) ground_loop ::
  "(claim_ref, claim) dict \<Rightarrow> claim_ref set \<Rightarrow> (claim_ref \<times> bool) list \<Rightarrow> claim_ref set \<Rightarrow> claim_ref set
     \<Rightarrow> (world_error + claim_ref set \<times> claim_ref set) option" where
  "ground_loop cs superseded stack fin good =
     (case stack of
        [] \<Rightarrow> Some (Inr (fin, good))
      | (ref, leaving) # rest \<Rightarrow>
          if ref \<in> fin then ground_loop cs superseded rest fin good
          else case dget cs ref of
              None \<Rightarrow> Some (Inl KeyError)
            | Some c \<Rightarrow>
                if leaving
                then ground_loop cs superseded rest (insert ref fin)
                       (if supports superseded good ref c then insert ref good else good)
                else ground_loop cs superseded (rev (map (\<lambda>p. (p, False)) (claim_evidence c)) @ (ref, True) # rest) fin good)"

fun ground_roots ::
  "(claim_ref, claim) dict \<Rightarrow> claim_ref set \<Rightarrow> claim_ref list \<Rightarrow> claim_ref set \<Rightarrow> claim_ref set
     \<Rightarrow> (world_error + claim_ref set) option" where
  "ground_roots cs superseded [] fin good = Some (Inr good)"
| "ground_roots cs superseded (r # rs) fin good =
     (case ground_loop cs superseded [(r, False)] fin good of
        None \<Rightarrow> None
      | Some (Inl e) \<Rightarrow> Some (Inl e)
      | Some (Inr (fin1, good1)) \<Rightarrow> ground_roots cs superseded rs fin1 good1)"

definition grounded_claims :: "claim list \<Rightarrow> claim_ref set \<Rightarrow> (world_error + claim_ref set) option" where
  "grounded_claims claims superseded =
     ground_roots (index_claims claims) superseded (map fst (index_claims claims)) {} {}"

definition superseded_refs :: "claim list \<Rightarrow> claim_ref set" where
  "superseded_refs claims = set (concat (map cl_supersedes claims))"

section \<open>Time\<close>

datatype clock_reading = Reading observation_time | No_reading | Clock_failed

definition read_clock :: "(pystr \<Rightarrow> clock_reading) option \<Rightarrow> pystr \<Rightarrow> world_error + observation_time option" where
  "read_clock clock i = (case clock of
       None \<Rightarrow> Inr None
     | Some now \<Rightarrow> (case now i of
           No_reading \<Rightarrow> Inr None
         | Clock_failed \<Rightarrow> Inl (WorldError ''clock_unavailable'')
         | Reading t \<Rightarrow> if tm_clock t \<noteq> i then Inl (WorldError ''clock_unavailable'') else Inr (Some t)))"

definition take_time :: "(pystr \<Rightarrow> clock_reading) option \<Rightarrow> claim \<Rightarrow> (pystr, observation_time option) dict
     \<Rightarrow> world_error + (pystr, observation_time option) dict" where
  "take_time clock c tms = (case cl_valid_at c of
       None \<Rightarrow> Inr tms
     | Some t \<Rightarrow> if tm_clock t \<in> dkeys tms then Inr tms
         else bind_res (read_clock clock (tm_clock t)) (\<lambda>n. Inr (dset (tm_clock t) n tms)))"

datatype temporal = LIVE | EXPIRED | UNRESOLVED

definition time_now :: "(pystr, observation_time option) dict \<Rightarrow> claim \<Rightarrow> observation_time option" where
  "time_now tms c = (case cl_valid_at c of None \<Rightarrow> None | Some t \<Rightarrow> or_else (dget tms (tm_clock t)) None)"

definition temporal_class :: "(pystr, observation_time option) dict \<Rightarrow> claim \<Rightarrow> temporal" where
  "temporal_class tms c =
     (case (cl_valid_at c, time_now tms c) of
        (Some t, Some n) \<Rightarrow>
          if tm_ns n < tm_ns t then UNRESOLVED
          else (case cl_valid_for c of None \<Rightarrow> LIVE
             | Some d \<Rightarrow> if tm_ns n \<ge> tm_ns t + d then EXPIRED else LIVE)
      | (Some t, None) \<Rightarrow> UNRESOLVED
      | (None, _) \<Rightarrow> if cl_valid_for c = None then LIVE else UNRESOLVED)"

section \<open>One attribute\<close>

definition value_key :: "codec \<Rightarrow> world_value \<Rightarrow> world_error + pystr" where
  "value_key cx v = (case v of V_entity e \<Rightarrow> Inr (ascii ''entity:'' @ er_id e)
     | V_json j \<Rightarrow> bind_res (world_digest cx j) (\<lambda>d. Inr (ascii ''json:'' @ d)))"

definition keyed :: "codec \<Rightarrow> claim list \<Rightarrow> world_error + (pystr \<times> claim) list" where
  "keyed cx cs = map_res (\<lambda>c. bind_res (value_key cx (cl_value c)) (\<lambda>k. Inr (k, c))) cs"

definition head_key :: "claim_ref set \<Rightarrow> claim \<Rightarrow> observation_time \<Rightarrow> pystr \<times> bool \<times> pystr" where
  "head_key grounded c t = (cl_source c, cl_ref c \<in> grounded, tm_clock t)"

definition head_step :: "(pystr, observation_time option) dict \<Rightarrow> claim_ref set \<Rightarrow> claim
     \<Rightarrow> (pystr \<times> bool \<times> pystr, nat) dict \<Rightarrow> (pystr \<times> bool \<times> pystr, nat) dict" where
  "head_step tms grounded c heads = (case cl_valid_at c of
       None \<Rightarrow> heads
     | Some t \<Rightarrow>
         if temporal_class tms c = UNRESOLVED then heads
         else dset (head_key grounded c t) (max (or_else (dget heads (head_key grounded c t)) 0) (tm_ns t)) heads)"

text \<open>The claims that are not overtaken by a later one of the same source, grounding and clock.\<close>

definition selected :: "(pystr, observation_time option) dict \<Rightarrow> claim_ref set \<Rightarrow> claim list \<Rightarrow> claim list" where
  "selected tms grounded claims =
     (let heads = fold (head_step tms grounded) claims [] in
      filter (\<lambda>c. case cl_valid_at c of None \<Rightarrow> True
        | Some t \<Rightarrow> temporal_class tms c = UNRESOLVED \<or> dget heads (head_key grounded c t) = Some (tm_ns t)) claims)"

definition null_value :: world_value where
  "null_value = V_json JNull"

definition resolve_status :: "codec \<Rightarrow> claim list \<Rightarrow> claim list \<Rightarrow> claim list \<Rightarrow> claim list
     \<Rightarrow> world_error + world_status \<times> claim list \<times> world_value" where
  "resolve_status cx live expired unresolved ungrounded =
     bind_res (keyed cx live) (\<lambda>lk.
       if length (remdups (map fst lk)) > 1 then Inr (CONFLICTED, live @ unresolved, null_value)
       else if live \<noteq> []
       then bind_res (keyed cx unresolved) (\<lambda>uk.
              if list_ex (\<lambda>p. fst p \<notin> set (map fst lk)) uk then Inr (UNKNOWN_STATUS, live @ unresolved, null_value)
              else Inr (KNOWN, live, cl_value (hd live)))
       else if unresolved \<noteq> [] then Inr (UNKNOWN_STATUS, expired @ unresolved @ ungrounded, null_value)
       else if expired \<noteq> [] then Inr (STALE, expired, null_value)
       else Inr (UNKNOWN_STATUS, ungrounded, null_value))"

definition evidence_order :: "evidence_ref \<Rightarrow> pystr \<times> pystr \<times> pystr" where
  "evidence_order e = (evidence_kind_text (ev_kind e), or_text (ev_source e) [], ev_id e)"

definition provenance :: "claim list \<Rightarrow> claim_ref list \<times> evidence_ref list \<times> observation_time option" where
  "provenance claims =
     (let tms = remdups (map cl_valid_at claims) in
      (sort (remdups (map cl_ref claims)),
       sort_key evidence_order (remdups (concat (map cl_evidence claims))),
       if length tms = 1 then hd tms else None))"

definition make_candidate :: "claim list \<Rightarrow> candidate" where
  "make_candidate supporters = (case provenance supporters of (refs, evidence, valid_at) \<Rightarrow>
     \<lparr>wc_value = cl_value (hd supporters), wc_claims = refs, wc_evidence = evidence, wc_valid_at = valid_at\<rparr>)"

definition candidates_of :: "(pystr \<times> claim) list \<Rightarrow> candidate list" where
  "candidates_of bk = map (\<lambda>k. make_candidate (map snd (filter (\<lambda>p. fst p = k) bk))) (sort (remdups (map fst bk)))"

type_synonym attribute = "entity_ref \<times> pystr \<times> pystr option"

definition resolve :: "codec \<Rightarrow> (pystr, observation_time option) dict \<Rightarrow> claim_ref set \<Rightarrow> attribute \<Rightarrow> claim list
     \<Rightarrow> world_error + entry" where
  "resolve cx tms grounded a claims =
     (let sel = selected tms grounded claims;
          of_class = (\<lambda>k. filter (\<lambda>c. cl_ref c \<in> grounded \<and> temporal_class tms c = k) sel);
          ungrounded = filter (\<lambda>c. cl_ref c \<notin> grounded) sel
      in bind_res (resolve_status cx (of_class LIVE) (of_class EXPIRED) (of_class UNRESOLVED) ungrounded)
           (\<lambda>(status, basis, v).
         bind_res (keyed cx basis) (\<lambda>bk.
           case provenance basis of (refs, evidence, valid_at) \<Rightarrow>
             Inr \<lparr>en_subject = fst a, en_predicate = fst (snd a), en_status = status, en_value = v,
                  en_candidates = candidates_of bk, en_claims = refs, en_evidence = evidence,
                  en_valid_at = valid_at, en_scope = snd (snd a)\<rparr>)))"

section \<open>Snapshots\<close>

record snapshot =
  sn_revision :: nat
  sn_entries :: "entry list"

definition attribute_of :: "claim \<Rightarrow> attribute" where
  "attribute_of c = (cl_subject c, cl_predicate c, cl_scope c)"

text \<open>For every attribute the index of its last claim.\<close>

definition updated :: "claim list \<Rightarrow> (attribute, nat) dict" where
  "updated claims = fold (\<lambda>(i, c). dset (attribute_of c) i) (enumerate 0 claims) []"

definition attributes :: "claim list \<Rightarrow> attribute list" where
  "attributes claims = map fst (sort_key (\<lambda>((s, p, c), i). (i, er_id s, p)) (updated claims))"

definition entries_of :: "codec \<Rightarrow> (pystr, observation_time option) dict \<Rightarrow> claim_ref set \<Rightarrow> claim_ref set \<Rightarrow> claim list
     \<Rightarrow> world_error + entry list" where
  "entries_of cx tms grounded superseded claims =
     map_res (\<lambda>a. resolve cx tms grounded a (filter (\<lambda>c. attribute_of c = a \<and> cl_ref c \<notin> superseded) claims))
       (attributes claims)"

definition take_snapshot :: "codec \<Rightarrow> (pystr \<Rightarrow> clock_reading) option \<Rightarrow> world \<Rightarrow> (world_error + snapshot) option" where
  "take_snapshot cx clock w =
     (let claims = map snd (wd_claims w); superseded = superseded_refs claims in
      case fold_res (take_time clock) claims [] of
        Inl e \<Rightarrow> Some (Inl e)
      | Inr tms \<Rightarrow>
          (case grounded_claims claims superseded of
             None \<Rightarrow> None
           | Some (Inl e) \<Rightarrow> Some (Inl e)
           | Some (Inr grounded) \<Rightarrow>
               Some (bind_res (entries_of cx tms grounded superseded claims) (\<lambda>es.
                 Inr \<lparr>sn_revision = wd_revision w, sn_entries = es\<rparr>))))"

definition entry_key :: "entry \<Rightarrow> attribute" where
  "entry_key e = (en_subject e, en_predicate e, en_scope e)"

definition lookup :: "snapshot \<Rightarrow> attribute \<Rightarrow> entry option" where
  "lookup s k = List.find (\<lambda>e. entry_key e = k) (sn_entries s)"

text \<open>The answer to a query: the revision and the entry, empty and unknown when there is none.\<close>

definition check_key :: "pystr \<Rightarrow> pystr option \<Rightarrow> world_error + unit" where
  "check_key predicate scope =
     bind_res (check_text predicate ''invalid_claim'') (\<lambda>_. check_optional scope ''invalid_claim'')"

definition unknown_entry :: "attribute \<Rightarrow> entry" where
  "unknown_entry a = \<lparr>en_subject = fst a, en_predicate = fst (snd a), en_status = UNKNOWN_STATUS, en_value = null_value,
     en_candidates = [], en_claims = [], en_evidence = [], en_valid_at = None, en_scope = snd (snd a)\<rparr>"

definition world_query :: "codec \<Rightarrow> (pystr \<Rightarrow> clock_reading) option \<Rightarrow> entity_ref \<Rightarrow> pystr \<Rightarrow> pystr option \<Rightarrow> world
     \<Rightarrow> (world_error + nat \<times> entry) option" where
  "world_query cx clock subject predicate scope w =
     (if blank predicate then Some (Inl (WorldError ''invalid_claim''))
      else case take_snapshot cx clock w of
          None \<Rightarrow> None
        | Some r \<Rightarrow> Some (bind_res r (\<lambda>s. bind_res (check_key predicate scope) (\<lambda>_.
            Inr (sn_revision s, case lookup s (subject, predicate, scope) of
              None \<Rightarrow> unknown_entry (subject, predicate, scope) | Some e \<Rightarrow> e)))))"

section \<open>Searching entities\<close>

datatype match_status = CONFIRMED | POSSIBLE

record match =
  mt_entity :: entity_ref
  mt_status :: match_status
  mt_matched :: "pystr list"
  mt_uncertain :: "pystr list"
  mt_missing :: "pystr list"
  mt_claims :: "claim_ref list"

definition freeze_filter :: "pystr option \<Rightarrow> pystr \<times> (entity_ref + pyval) \<Rightarrow> world_error + pystr \<times> world_value" where
  "freeze_filter scope f =
     bind_res (check_key (fst f) scope) (\<lambda>_.
       case snd f of Inl e \<Rightarrow> Inr (fst f, V_entity e)
       | Inr v \<Rightarrow> bind_res (freeze_value ''invalid_claim'' v) (\<lambda>j. Inr (fst f, V_json j)))"

type_synonym partition = "pystr list \<times> pystr list \<times> pystr list \<times> claim_ref list"

text \<open>One filter on one entity's entries; \<open>None\<close> excludes the entity.\<close>

definition match_filter :: "codec \<Rightarrow> (pystr, entry) dict \<Rightarrow> pystr \<times> world_value \<Rightarrow> partition \<Rightarrow> world_error + partition option" where
  "match_filter cx attrs f s = (case s of (matched, uncertain, missing, refs) \<Rightarrow>
     (case dget attrs (fst f) of
        None \<Rightarrow> Inr (Some (matched, uncertain, missing @ [fst f], refs))
      | Some e \<Rightarrow>
          if en_status e = UNKNOWN_STATUS \<and> en_candidates e = []
          then Inr (Some (matched, uncertain, missing @ [fst f], refs))
          else if en_status e = KNOWN
          then bind_res (value_key cx (en_value e)) (\<lambda>k. bind_res (value_key cx (snd f)) (\<lambda>l.
                 Inr (if k \<noteq> l then None else Some (matched @ [fst f], uncertain, missing, refs @ en_claims e))))
          else bind_res (map_res (\<lambda>c. bind_res (value_key cx (wc_value c)) (\<lambda>k. bind_res (value_key cx (snd f)) (\<lambda>l.
                   Inr (k = l, c)))) (en_candidates e)) (\<lambda>ks.
                 let hits = map snd (filter fst ks) in
                 Inr (if hits = [] then None
                      else Some (matched, uncertain @ [fst f], missing, refs @ concat (map wc_claims hits))))))"

fun match_filters :: "codec \<Rightarrow> (pystr, entry) dict \<Rightarrow> (pystr \<times> world_value) list \<Rightarrow> partition \<Rightarrow> world_error + partition option" where
  "match_filters cx attrs [] s = Inr (Some s)"
| "match_filters cx attrs (f # fs) s =
     bind_res (match_filter cx attrs f s) (\<lambda>r. case r of None \<Rightarrow> Inr None | Some s1 \<Rightarrow> match_filters cx attrs fs s1)"

definition match_entity :: "codec \<Rightarrow> (pystr \<times> world_value) list \<Rightarrow> bool \<Rightarrow> entity_ref \<times> (pystr, entry) dict \<Rightarrow> world_error + match list" where
  "match_entity cx filters include_possible p =
     bind_res (match_filters cx (snd p) filters ([], [], [], [])) (\<lambda>r. case r of
         None \<Rightarrow> Inr []
       | Some (matched, uncertain, missing, refs) \<Rightarrow>
           let status = (if uncertain \<noteq> [] \<or> missing \<noteq> [] then POSSIBLE else CONFIRMED) in
           if matched = [] \<and> uncertain = [] then Inr []
           else if status = POSSIBLE \<and> \<not> include_possible then Inr []
           else Inr [\<lparr>mt_entity = fst p, mt_status = status, mt_matched = matched, mt_uncertain = uncertain,
                      mt_missing = missing, mt_claims = sort (remdups refs)\<rparr>])"

text \<open>The entries of one scope, by entity and predicate.\<close>

definition entity_step :: "pystr option \<Rightarrow> entry \<Rightarrow> (entity_ref, (pystr, entry) dict) dict \<Rightarrow> (entity_ref, (pystr, entry) dict) dict" where
  "entity_step scope e d =
     (if en_scope e = scope
      then dset (en_subject e) (dset (en_predicate e) e (or_else (dget d (en_subject e)) [])) d else d)"

definition match_order :: "match \<Rightarrow> bool \<times> pystr" where
  "match_order m = (mt_status m = POSSIBLE, er_id (mt_entity m))"

definition find_entities :: "codec \<Rightarrow> (pystr \<Rightarrow> clock_reading) option \<Rightarrow> (pystr \<times> (entity_ref + pyval)) list \<Rightarrow> pystr option
     \<Rightarrow> bool \<Rightarrow> int \<Rightarrow> world \<Rightarrow> (world_error + nat \<times> match list \<times> bool \<times> nat) option" where
  "find_entities cx clock filters scope include_possible limit w =
     (if \<not> (1 \<le> limit \<and> limit \<le> int (wl_search (wd_limits w))) then Some (Inl (WorldError ''invalid_claim''))
      else if filters = [] then Some (Inl (WorldError ''invalid_claim''))
      else if (case scope of None \<Rightarrow> False | Some s \<Rightarrow> blank s) then Some (Inl (WorldError ''invalid_claim''))
      else case map_res (freeze_filter scope) filters of
          Inl e \<Rightarrow> Some (Inl (WorldError ''invalid_claim''))
        | Inr frozen \<Rightarrow>
            (case take_snapshot cx clock w of
               None \<Rightarrow> None
             | Some r \<Rightarrow> Some (bind_res r (\<lambda>s.
                 bind_res (map_res (match_entity cx (sort_key fst frozen) include_possible)
                     (fold (entity_step scope) (sn_entries s) [])) (\<lambda>ms.
                   let found = sort_key match_order (concat ms) in
                   Inr (sn_revision s, take (nat limit) found, int (length found) > limit, length found))))))"

end
