(* ===== verification/WorldRead.thy ===== *)
theory WorldRead
  imports WorldQuery
begin

text \<open>
  What reading the world computes: the grounded claims are the least set closed under the evidence rule,
  the loop that finds them ends on every consistent world, and a snapshot is then always taken.
\<close>

section \<open>Grounded claims\<close>

inductive grounded :: "(claim_ref, claim) dict \<Rightarrow> claim_ref set \<Rightarrow> claim_ref \<Rightarrow> bool" for cs superseded where
  grounded_observation: "dget cs r = Some c \<Longrightarrow> r \<notin> superseded \<Longrightarrow> factual (cl_kind c) \<Longrightarrow> e \<in> set (cl_evidence c) \<Longrightarrow>
    ev_kind e = OBSERVATION \<Longrightarrow> grounded cs superseded r"
| grounded_claim: "dget cs r = Some c \<Longrightarrow> r \<notin> superseded \<Longrightarrow> factual (cl_kind c) \<Longrightarrow> p \<in> set (claim_evidence c) \<Longrightarrow>
    grounded cs superseded p \<Longrightarrow> grounded cs superseded r"

inductive_cases grounded_elim: "grounded cs superseded r"

lemma grounded_key: "grounded cs superseded r \<Longrightarrow> r \<in> dkeys cs"
  by (erule grounded_elim) (rule get_key, assumption)+

lemma claim_evidence_iff: "p \<in> set (claim_evidence c) \<longleftrightarrow> (\<exists>e \<in> set (cl_evidence c). ev_kind e = CLAIM \<and> ClaimRef (ev_id e) = p)"
  by (auto simp: claim_evidence_def)

lemma supports_iff:
  assumes c: "dget cs r = Some c" and good: "\<And>p. p \<in> set (claim_evidence c) \<Longrightarrow> p \<in> good \<longleftrightarrow> grounded cs superseded p"
  shows "supports superseded good r c \<longleftrightarrow> grounded cs superseded r"
proof
  assume s: "supports superseded good r c"
  then obtain e where e: "e \<in> set (cl_evidence c)" "ev_kind e = OBSERVATION \<or> ClaimRef (ev_id e) \<in> good"
    and o: "r \<notin> superseded" "factual (cl_kind c)" by (auto simp: supports_def list_ex_iff)
  show "grounded cs superseded r"
  proof (cases "ev_kind e")
    case OBSERVATION
    with c o e(1) show ?thesis by (blast intro: grounded_observation)
  next
    case CLAIM
    with e have p: "ClaimRef (ev_id e) \<in> set (claim_evidence c)" "ClaimRef (ev_id e) \<in> good"
      by (auto simp: claim_evidence_iff)
    with good have "grounded cs superseded (ClaimRef (ev_id e))" by blast
    with c o p(1) show ?thesis by (blast intro: grounded_claim)
  qed
next
  assume "grounded cs superseded r"
  then show "supports superseded good r c"
  proof cases
    case (grounded_observation d e)
    with c show ?thesis by (auto simp: supports_def list_ex_iff)
  next
    case (grounded_claim d p)
    with c good [of p] have "p \<in> good" "p \<in> set (claim_evidence c)" by auto
    with grounded_claim c show ?thesis by (auto simp: supports_def list_ex_iff claim_evidence_iff)
  qed
qed

section \<open>The loop\<close>

definition ground_ok :: "(claim_ref, claim) dict \<Rightarrow> claim_ref set \<Rightarrow> claim_ref set \<Rightarrow> claim_ref set \<Rightarrow> bool" where
  "ground_ok cs superseded fin good \<longleftrightarrow> good = {r \<in> fin. grounded cs superseded r}"

definition visited :: "(claim_ref, claim) dict \<Rightarrow> claim_ref set \<Rightarrow> claim_ref list \<Rightarrow> bool" where
  "visited cs superseded ps \<longleftrightarrow> (\<forall>rest fin good. ground_ok cs superseded fin good \<longrightarrow>
     (\<exists>fin' good'. ground_loop cs superseded (map (\<lambda>p. (p, False)) ps @ rest) fin good = ground_loop cs superseded rest fin' good'
        \<and> ground_ok cs superseded fin' good' \<and> fin \<union> set ps \<subseteq> fin'))"

lemma visited_all: "\<forall>p \<in> set ps. visited cs superseded [p] \<Longrightarrow> visited cs superseded ps"
proof (induction ps)
  case (Cons p ps)
  then have p: "visited cs superseded [p]" and ps: "visited cs superseded ps" by simp_all
  show ?case
    unfolding visited_def
  proof (intro allI impI)
    fix rest fin good assume ok: "ground_ok cs superseded fin good"
    from p [unfolded visited_def, rule_format, OF ok, of "map (\<lambda>p. (p, False)) ps @ rest"]
    obtain fin1 good1 where 1: "ground_loop cs superseded ((p, False) # map (\<lambda>p. (p, False)) ps @ rest) fin good
        = ground_loop cs superseded (map (\<lambda>p. (p, False)) ps @ rest) fin1 good1"
      "ground_ok cs superseded fin1 good1" "fin \<union> {p} \<subseteq> fin1" by auto
    from ps [unfolded visited_def, rule_format, OF 1(2), of rest] obtain fin2 good2 where
      2: "ground_loop cs superseded (map (\<lambda>p. (p, False)) ps @ rest) fin1 good1 = ground_loop cs superseded rest fin2 good2"
      "ground_ok cs superseded fin2 good2" "fin1 \<union> set ps \<subseteq> fin2" by blast
    from 1(1,3) 2(1,3) have "ground_loop cs superseded (map (\<lambda>p. (p, False)) (p # ps) @ rest) fin good
        = ground_loop cs superseded rest fin2 good2" "fin \<union> set (p # ps) \<subseteq> fin2" by auto
    with 2(2) show "\<exists>fin' good'. ground_loop cs superseded (map (\<lambda>p. (p, False)) (p # ps) @ rest) fin good
        = ground_loop cs superseded rest fin' good' \<and> ground_ok cs superseded fin' good' \<and> fin \<union> set (p # ps) \<subseteq> fin'"
      by blast
  qed
qed (auto simp: visited_def)

lemma ground_loop_skip: "r \<in> fin \<Longrightarrow> ground_loop cs superseded ((r, b) # rest) fin good = ground_loop cs superseded rest fin good"
  by (simp add: ground_loop.simps [of cs superseded "(r, b) # rest"])

lemma ground_loop_enter:
  "r \<notin> fin \<Longrightarrow> dget cs r = Some c \<Longrightarrow> ground_loop cs superseded ((r, False) # rest) fin good
     = ground_loop cs superseded (rev (map (\<lambda>p. (p, False)) (claim_evidence c)) @ (r, True) # rest) fin good"
  by (simp add: ground_loop.simps [of cs superseded "(r, False) # rest"])

lemma ground_loop_leave:
  "r \<notin> fin \<Longrightarrow> dget cs r = Some c \<Longrightarrow> ground_loop cs superseded ((r, True) # rest) fin good
     = ground_loop cs superseded rest (insert r fin) (if supports superseded good r c then insert r good else good)"
  by (simp add: ground_loop.simps [of cs superseded "(r, True) # rest"])

lemma visit_claim:
  assumes c: "dget cs r = Some c" and ps: "\<forall>p \<in> set (claim_evidence c). visited cs superseded [p]"
  shows "visited cs superseded [r]"
  unfolding visited_def
proof (intro allI impI)
  fix rest fin good assume ok: "ground_ok cs superseded fin good"
  show "\<exists>fin' good'. ground_loop cs superseded (map (\<lambda>p. (p, False)) [r] @ rest) fin good = ground_loop cs superseded rest fin' good'
      \<and> ground_ok cs superseded fin' good' \<and> fin \<union> set [r] \<subseteq> fin'"
  proof (cases "r \<in> fin")
    case True
    with ok ground_loop_skip [OF True] show ?thesis by auto
  next
    case False
    have "visited cs superseded (rev (claim_evidence c))" by (rule visited_all) (use ps in simp)
    from this [unfolded visited_def, rule_format, OF ok, of "(r, True) # rest"] obtain fin1 good1 where
      1: "ground_loop cs superseded (map (\<lambda>p. (p, False)) (rev (claim_evidence c)) @ (r, True) # rest) fin good
          = ground_loop cs superseded ((r, True) # rest) fin1 good1"
        "ground_ok cs superseded fin1 good1" "fin \<union> set (claim_evidence c) \<subseteq> fin1" by auto
    have e: "ground_loop cs superseded ((r, False) # rest) fin good = ground_loop cs superseded ((r, True) # rest) fin1 good1"
      using ground_loop_enter [OF False c] 1(1) by (simp add: rev_map)
    show ?thesis
    proof (cases "r \<in> fin1")
      case True
      with e 1(2,3) ground_loop_skip [OF True] show ?thesis by auto
    next
      case r: False
      let ?good = "if supports superseded good1 r c then insert r good1 else good1"
      have "p \<in> good1 \<longleftrightarrow> grounded cs superseded p" if "p \<in> set (claim_evidence c)" for p
        using 1(2,3) that by (auto simp: ground_ok_def)
      from supports_iff [OF c this] have "supports superseded good1 r c \<longleftrightarrow> grounded cs superseded r" .
      then have "ground_ok cs superseded (insert r fin1) ?good" using 1(2) r by (auto simp: ground_ok_def)
      moreover have "ground_loop cs superseded (map (\<lambda>p. (p, False)) [r] @ rest) fin good
          = ground_loop cs superseded rest (insert r fin1) ?good"
        unfolding ground_loop_leave [OF r c, symmetric] using e by simp
      moreover have "fin \<union> set [r] \<subseteq> insert r fin1" using 1(3) by auto
      ultimately show ?thesis by blast
    qed
  qed
qed

lemma visited_keys:
  assumes wf: "wf (claim_edges cs)" and closed: "\<forall>r c. dget cs r = Some c \<longrightarrow> set (parents c) \<subseteq> dkeys cs"
  shows "r \<in> dkeys cs \<Longrightarrow> visited cs superseded [r]"
proof (induction r rule: wf_induct_rule [OF wf])
  case (1 r)
  from key_get [OF "1.prems"] obtain c where c: "dget cs r = Some c" ..
  have "visited cs superseded [p]" if p: "p \<in> set (claim_evidence c)" for p
  proof -
    have "p \<in> set (parents c)" using p by (simp add: parents_def)
    then have "(p, r) \<in> claim_edges cs" "p \<in> dkeys cs" using closed c edges_of [OF c] by blast+
    then show ?thesis by (rule "1.IH")
  qed
  then show ?case using visit_claim [OF c] by simp
qed

lemma ground_roots_exact:
  assumes "\<forall>r \<in> set rs. visited cs superseded [r]" "ground_ok cs superseded fin good" "dkeys cs \<subseteq> fin \<union> set rs"
  shows "ground_roots cs superseded rs fin good = Some (Inr {r. grounded cs superseded r})"
  using assms
proof (induction rs arbitrary: fin good)
  case Nil
  then show ?case using grounded_key by (auto simp: ground_ok_def)
next
  case (Cons r rs)
  then have "visited cs superseded [r]" by simp
  from this [unfolded visited_def, rule_format, OF Cons.prems(2), of "[]"] obtain fin1 good1 where
    1: "ground_loop cs superseded [(r, False)] fin good = ground_loop cs superseded [] fin1 good1"
      "ground_ok cs superseded fin1 good1" "fin \<union> {r} \<subseteq> fin1" by auto
  have "ground_loop cs superseded [(r, False)] fin good = Some (Inr (fin1, good1))"
    unfolding 1(1) by (simp add: ground_loop.simps)
  moreover have "dkeys cs \<subseteq> fin1 \<union> set rs" using Cons.prems(3) 1(3) by auto
  ultimately show ?case using Cons.IH [OF _ 1(2)] Cons.prems(1) by simp
qed

lemma index_claims_same:
  assumes "dict_ok cs" "\<forall>(r, c) \<in> set cs. cl_ref c = r"
  shows "index_claims (map snd cs) = cs"
proof -
  have "dict_update xs acc = acc @ xs" if "dict_ok (acc @ xs)" for xs acc :: "(claim_ref, claim) dict"
    using that
  proof (induction xs arbitrary: acc)
    case (Cons p xs)
    obtain k v where p: "p = (k, v)" by (cases p)
    have "k \<notin> dkeys acc" using Cons.prems p by (auto simp: dict_ok_def)
    with Cons.IH [of "acc @ [(k, v)]"] Cons.prems p show ?case by (simp add: dset_new)
  qed simp
  moreover have "map (\<lambda>c. (cl_ref c, c)) (map snd cs) = cs"
    using assms(2) by (induction cs) auto
  ultimately show ?thesis using assms(1) by (simp add: index_claims_def)
qed

lemma grounded_claims_exact:
  assumes ok: "world_ok cx w"
  shows "grounded_claims (map snd (wd_claims w)) superseded = Some (Inr {r. grounded (wd_claims w) superseded r})"
proof -
  have "\<forall>(r, c) \<in> set (wd_claims w). cl_ref c = r"
    using dict_ok_get [OF world_okD(1) [OF ok]] world_okD(4) [OF ok] by blast
  then have i: "index_claims (map snd (wd_claims w)) = wd_claims w"
    using index_claims_same world_okD(1) [OF ok] by blast
  have closed: "\<forall>r c. dget (wd_claims w) r = Some c \<longrightarrow> set (parents c) \<subseteq> dkeys (wd_claims w)"
    using world_okD(5) [OF ok] check_claim_parents by blast
  show ?thesis unfolding grounded_claims_def i
    by (rule ground_roots_exact) (use visited_keys [OF world_okD(3) [OF ok] closed] in \<open>auto simp: ground_ok_def\<close>)
qed

end
