(* ===== verification/WorldAnswers.thy ===== *)
theory WorldAnswers
  imports WorldRead
begin

text \<open>
  What a snapshot says of an attribute, and what a search finds. The values of stored claims always have
  a key, because the claim they are part of was encoded when it was committed.
\<close>

section \<open>Values can be compared\<close>

lemma utf8_encode_iff: "utf8_encode t \<noteq> None \<longleftrightarrow> (\<forall>c \<in> set t. utf8_char c \<noteq> None)"
  by (induction t) (auto split: option.splits)

lemma set_commas: "x \<in> set xs \<Longrightarrow> set x \<subseteq> set (commas xs)"
  by (induction xs rule: commas.induct) auto

lemma dumps_member:
  assumes "(k, v) \<in> set items"
  shows "set (dumps f True v) \<subseteq> set (dumps f True (JObj items))"
proof -
  let ?ms = "map (\<lambda>(k, v). (k, dumps f True v)) items"
  have "member_text (k, dumps f True v) \<in> set (map member_text (sort_key fst ?ms))" using assms by force
  from set_commas [OF this] show ?thesis by (auto simp: Let_def member_text_def)
qed

lemma encodable_member:
  assumes "world_digest cx (JObj items) = Inr d" "(k, v) \<in> set items"
  shows "\<exists>d. world_digest cx v = Inr d"
proof -
  have "utf8_encode (dumps (cx_float cx) True (JObj items)) \<noteq> None"
    using assms(1) by (auto simp: world_digest_def canonical_json_digest_def split: option.splits)
  then have "utf8_encode (dumps (cx_float cx) True v) \<noteq> None"
    using dumps_member [OF assms(2), of "cx_float cx"] unfolding utf8_encode_iff by blast
  then show ?thesis by (auto simp: world_digest_def canonical_json_digest_def)
qed

definition vkey :: "codec \<Rightarrow> claim \<Rightarrow> pystr" where
  "vkey cx c = (case value_key cx (cl_value c) of Inl _ \<Rightarrow> [] | Inr k \<Rightarrow> k)"

definition keyable :: "codec \<Rightarrow> claim \<Rightarrow> bool" where
  "keyable cx c \<longleftrightarrow> value_key cx (cl_value c) = Inr (vkey cx c)"

lemma stored_keyable:
  assumes "world_digest cx (claim_data c) = Inr d"
  shows "keyable cx c"
proof (cases "cl_value c")
  case (V_entity e)
  then show ?thesis by (simp add: keyable_def vkey_def value_key_def)
next
  case (V_json j)
  have "\<exists>items. claim_data c = JObj items \<and> (ascii ''value'', j) \<in> set items"
    unfolding claim_data_def J_record_def by (rule exI, rule conjI, rule refl) (simp add: V_json value_data_def)
  then obtain items where "claim_data c = JObj items" "(ascii ''value'', j) \<in> set items" by blast
  with encodable_member assms have "\<exists>k. world_digest cx j = Inr k" by metis
  then show ?thesis by (auto simp: keyable_def vkey_def value_key_def V_json)
qed

lemma keyed_eq: "\<forall>c \<in> set cs. keyable cx c \<Longrightarrow> keyed cx cs = Inr (map (\<lambda>c. (vkey cx c, c)) cs)"
  by (induction cs) (simp_all add: keyed_def keyable_def)

lemma keys_of_keyed: "map fst (map (\<lambda>c. (vkey cx c, c)) cs) = map (vkey cx) cs"
  by simp

section \<open>The status of an attribute\<close>

lemma resolve_status_total:
  assumes "\<forall>c \<in> set (live @ expired @ unresolved @ ungrounded). keyable cx c"
  shows "\<exists>status basis v. resolve_status cx live expired unresolved ungrounded = Inr (status, basis, v)
    \<and> set basis \<subseteq> set (live @ expired @ unresolved @ ungrounded)"
  using assms by (simp add: resolve_status_def keyed_eq) auto

lemma one_key:
  assumes "\<not> length (remdups xs) > 1" "x \<in> set xs" "y \<in> set xs"
  shows "x = y"
proof -
  have "card (set xs) \<le> 1" using assms(1) by (simp add: length_remdups_card_conv)
  then show ?thesis using assms(2,3) card_le_Suc0_iff_eq [of "set xs"] by simp
qed

lemma resolve_status_known:
  assumes k: "\<forall>c \<in> set (live @ unresolved). keyable cx c"
    and r: "resolve_status cx live expired unresolved ungrounded = Inr (KNOWN, basis, v)"
  shows "basis = live \<and> live \<noteq> [] \<and> v = cl_value (hd live)
    \<and> (\<forall>c \<in> set (live @ unresolved). vkey cx c = vkey cx (hd live))"
proof -
  have one: "\<not> length (remdups (map (vkey cx) live)) > 1" and ne: "live \<noteq> []" and b: "basis = live" "v = cl_value (hd live)"
    and un: "\<forall>c \<in> set unresolved. vkey cx c \<in> vkey cx ` set live"
    using k r by (auto simp: resolve_status_def keyed_eq comp_def list_ex_iff split: if_splits)
  have l: "vkey cx c = vkey cx (hd live)" if "c \<in> set live" for c
    using one_key [OF one, of "vkey cx c" "vkey cx (hd live)"] that ne by simp
  have "vkey cx c = vkey cx (hd live)" if c: "c \<in> set unresolved" for c
  proof -
    from un c obtain d where "d \<in> set live" "vkey cx c = vkey cx d" by blast
    with l show ?thesis by simp
  qed
  with l have "\<forall>c \<in> set (live @ unresolved). vkey cx c = vkey cx (hd live)" by (simp add: ball_Un)
  with b ne show ?thesis by blast
qed

lemma selected_subset: "set (selected tms gr claims) \<subseteq> set claims"
  by (auto simp: selected_def Let_def)

lemma resolve_total:
  assumes "\<forall>c \<in> set claims. keyable cx c"
  shows "\<exists>e. resolve cx tms gr a claims = Inr e"
proof -
  let ?sel = "selected tms gr claims"
  let ?of = "\<lambda>k. filter (\<lambda>c. cl_ref c \<in> gr \<and> temporal_class tms c = k) ?sel"
  let ?un = "filter (\<lambda>c. cl_ref c \<notin> gr) ?sel"
  have sub: "set (?of LIVE @ ?of EXPIRED @ ?of UNRESOLVED @ ?un) \<subseteq> set claims" using selected_subset by auto
  with assms have k: "\<forall>c \<in> set (?of LIVE @ ?of EXPIRED @ ?of UNRESOLVED @ ?un). keyable cx c" by blast
  obtain status basis v where s: "resolve_status cx (?of LIVE) (?of EXPIRED) (?of UNRESOLVED) ?un = Inr (status, basis, v)"
    "set basis \<subseteq> set (?of LIVE @ ?of EXPIRED @ ?of UNRESOLVED @ ?un)" using resolve_status_total [OF k] by blast
  obtain refs ev va where p: "provenance basis = (refs, ev, va)" by (metis prod_cases3)
  have "\<forall>c \<in> set basis. keyable cx c" using s(2) k by blast
  from keyed_eq [OF this] show ?thesis
    unfolding resolve_def Let_def by (simp add: s(1) p)
qed

lemma resolve_known:
  assumes k: "\<forall>c \<in> set claims. keyable cx c" and r: "resolve cx tms gr a claims = Inr e" and s: "en_status e = KNOWN"
  shows "entry_key e = a \<and> en_claims e \<noteq> [] \<and> (\<forall>r \<in> set (en_claims e). \<exists>c \<in> set claims. cl_ref c = r \<and> r \<in> gr
    \<and> temporal_class tms c = LIVE \<and> value_key cx (cl_value c) = value_key cx (en_value e))"
proof -
  let ?sel = "selected tms gr claims"
  let ?of = "\<lambda>k. filter (\<lambda>c. cl_ref c \<in> gr \<and> temporal_class tms c = k) ?sel"
  let ?un = "filter (\<lambda>c. cl_ref c \<notin> gr) ?sel"
  obtain refs ev va where p: "provenance (?of LIVE) = (refs, ev, va)" by (metis prod_cases3)
  from r obtain status basis v bk where b: "resolve_status cx (?of LIVE) (?of EXPIRED) (?of UNRESOLVED) ?un = Inr (status, basis, v)"
    "keyed cx basis = Inr bk" and e: "(case provenance basis of (refs, evidence, valid_at) \<Rightarrow>
       (Inr \<lparr>en_subject = fst a, en_predicate = fst (snd a), en_status = status, en_value = v,
                  en_candidates = candidates_of bk, en_claims = refs, en_evidence = evidence,
                  en_valid_at = valid_at, en_scope = snd (snd a)\<rparr> :: world_error + entry)) = Inr e"
    unfolding resolve_def Let_def by (auto simp: bind_res_Inr_iff)
  have st: "status = KNOWN" using e s by (auto split: prod.splits)
  have kk: "\<forall>c \<in> set (?of LIVE @ ?of UNRESOLVED). keyable cx c" using k selected_subset by fastforce
  from resolve_status_known [OF kk b(1) [unfolded st]] have known: "basis = ?of LIVE" "?of LIVE \<noteq> []"
    "v = cl_value (hd (?of LIVE))" "\<forall>c \<in> set (?of LIVE). vkey cx c = vkey cx (hd (?of LIVE))" by auto
  from e p known(1) have f: "entry_key e = a" "en_claims e = refs" "en_value e = v" by (auto simp: entry_key_def)
  have refs: "set refs = cl_ref ` set (?of LIVE)" using p by (auto simp: provenance_def Let_def)
  have "hd (?of LIVE) \<in> set (?of LIVE)" using known(2) by (rule hd_in_set)
  then have key: "value_key cx v = Inr (vkey cx (hd (?of LIVE)))"
    using kk known(3) by (simp add: keyable_def)
  have "\<exists>c \<in> set claims. cl_ref c = r \<and> r \<in> gr \<and> temporal_class tms c = LIVE
      \<and> value_key cx (cl_value c) = value_key cx v" if "r \<in> set refs" for r
  proof -
    from that refs obtain c where c: "c \<in> set (?of LIVE)" "cl_ref c = r" by auto
    with known(4) kk key have "value_key cx (cl_value c) = value_key cx v" by (simp add: keyable_def)
    with c show ?thesis using selected_subset by fastforce
  qed
  moreover have "refs \<noteq> []" using refs known(2) by auto
  ultimately show ?thesis using f by simp
qed


section \<open>Snapshots\<close>

lemma map_res_returns: "\<forall>x \<in> set xs. \<exists>y. f x = Inr y \<Longrightarrow> \<exists>ys. map_res f xs = Inr ys"
  by (induction xs) auto

lemma map_res_in: "map_res f xs = Inr ys \<Longrightarrow> y \<in> set ys \<Longrightarrow> \<exists>x \<in> set xs. f x = Inr y"
  by (induction xs arbitrary: ys) (auto simp: bind_res_Inr_iff)

lemma stored_get:
  assumes ok: "world_ok cx w" and c: "c \<in> set (map snd (wd_claims w))"
  shows "dget (wd_claims w) (cl_ref c) = Some c"
proof -
  from c obtain p where p: "p \<in> set (wd_claims w)" "c = snd p" by auto
  have "dget (wd_claims w) (fst p) = Some c"
    by (rule dict_ok_get [OF world_okD(1) [OF ok]]) (use p in simp)
  with world_okD(4) [OF ok this] show ?thesis by simp
qed

lemma stored_claims_keyable:
  assumes ok: "world_ok cx w"
  shows "\<forall>c \<in> set (map snd (wd_claims w)). keyable cx c"
proof
  fix c assume "c \<in> set (map snd (wd_claims w))"
  from world_okD(6) [OF ok stored_get [OF ok this]] show "keyable cx c" using stored_keyable by blast
qed

definition superseded_in :: "world \<Rightarrow> claim_ref set" where
  "superseded_in w = superseded_refs (map snd (wd_claims w))"

definition grounded_in :: "world \<Rightarrow> claim_ref set" where
  "grounded_in w = {r. WorldRead.grounded (wd_claims w) (superseded_in w) r}"

text \<open>A snapshot in terms of its parts.\<close>

lemma take_snapshot_eq:
  assumes ok: "world_ok cx w"
  shows "take_snapshot cx clock w =
    Some (bind_res (fold_res (take_time clock) (map snd (wd_claims w)) []) (\<lambda>tms.
      bind_res (entries_of cx tms (grounded_in w) (superseded_in w) (map snd (wd_claims w))) (\<lambda>es.
        Inr \<lparr>sn_revision = wd_revision w, sn_entries = es\<rparr>)))"
  unfolding take_snapshot_def Let_def grounded_claims_exact [OF ok] grounded_in_def superseded_in_def
  by (simp split: sum.split)

lemma entries_total:
  assumes ok: "world_ok cx w"
  shows "\<exists>es. entries_of cx tms (grounded_in w) (superseded_in w) (map snd (wd_claims w)) = Inr es"
  unfolding entries_of_def
proof (rule map_res_returns, rule ballI)
  fix a
  have "\<forall>c \<in> set (filter (\<lambda>c. attribute_of c = a \<and> cl_ref c \<notin> superseded_in w) (map snd (wd_claims w))). keyable cx c"
    using stored_claims_keyable [OF ok] by auto
  then show "\<exists>y. resolve cx tms (grounded_in w) a
      (filter (\<lambda>c. attribute_of c = a \<and> cl_ref c \<notin> superseded_in w) (map snd (wd_claims w))) = Inr y"
    by (rule resolve_total)
qed

lemma times_total:
  assumes "\<forall>i. \<exists>n. read_clock clock i = Inr n"
  shows "\<exists>tms. fold_res (take_time clock) claims acc = Inr tms"
proof (induction claims arbitrary: acc)
  case (Cons c claims)
  have "\<exists>t. take_time clock c acc = Inr t"
  proof (cases "cl_valid_at c")
    case (Some t)
    obtain n where "read_clock clock (tm_clock t) = Inr n" using assms by blast
    with Some show ?thesis by (simp add: take_time_def)
  qed (simp add: take_time_def)
  then obtain t where "take_time clock c acc = Inr t" ..
  with Cons.IH [of t] show ?case by simp
qed simp

lemma snapshot_known:
  assumes ok: "world_ok cx w" and s: "take_snapshot cx clock w = Some (Inr s)" and e: "e \<in> set (sn_entries s)"
    and k: "en_status e = KNOWN"
  shows "en_claims e \<noteq> [] \<and> (\<forall>r \<in> set (en_claims e). \<exists>c. dget (wd_claims w) r = Some c \<and> attribute_of c = entry_key e
    \<and> r \<notin> superseded_in w \<and> r \<in> grounded_in w \<and> value_key cx (cl_value c) = value_key cx (en_value e))"
proof -
  from s take_snapshot_eq [OF ok] obtain tms es where
    es: "entries_of cx tms (grounded_in w) (superseded_in w) (map snd (wd_claims w)) = Inr es" "sn_entries s = es"
    by (auto simp: bind_res_Inr_iff)
  from map_res_in [OF es(1) [unfolded entries_of_def]] e es(2) obtain a where
    r: "resolve cx tms (grounded_in w) a
      (filter (\<lambda>c. attribute_of c = a \<and> cl_ref c \<notin> superseded_in w) (map snd (wd_claims w))) = Inr e" by blast
  have kk: "\<forall>c \<in> set (filter (\<lambda>c. attribute_of c = a \<and> cl_ref c \<notin> superseded_in w) (map snd (wd_claims w))). keyable cx c"
    using stored_claims_keyable [OF ok] by auto
  from resolve_known [OF kk r k] have f: "entry_key e = a" "en_claims e \<noteq> []"
    "\<forall>r \<in> set (en_claims e). \<exists>c \<in> set (filter (\<lambda>c. attribute_of c = a \<and> cl_ref c \<notin> superseded_in w) (map snd (wd_claims w))).
       cl_ref c = r \<and> r \<in> grounded_in w \<and> temporal_class tms c = LIVE \<and> value_key cx (cl_value c) = value_key cx (en_value e)"
    by blast+
  have "\<exists>c. dget (wd_claims w) r = Some c \<and> attribute_of c = entry_key e
    \<and> r \<notin> superseded_in w \<and> r \<in> grounded_in w \<and> value_key cx (cl_value c) = value_key cx (en_value e)"
    if "r \<in> set (en_claims e)" for r
  proof -
    from f(3) that obtain c where "c \<in> set (map snd (wd_claims w))" "attribute_of c = a" "cl_ref c \<notin> superseded_in w"
      "cl_ref c = r" "r \<in> grounded_in w" "value_key cx (cl_value c) = value_key cx (en_value e)" by fastforce
    with stored_get [OF ok] f(1) show ?thesis by blast
  qed
  with f(2) show ?thesis by blast
qed

text \<open>A grounded claim is a fact, and some claim it rests on, itself perhaps, cites an observation of the world.\<close>

lemma grounded_rests:
  assumes ok: "world_ok cx w" and g: "WorldRead.grounded (wd_claims w) S r"
  shows "\<exists>q c e. (q, r) \<in> (claim_edges (wd_claims w))\<^sup>* \<and> dget (wd_claims w) q = Some c \<and> e \<in> set (cl_evidence c)
    \<and> ev_kind e = OBSERVATION \<and> ObservationRef (or_text (ev_source e) []) (ev_id e) \<in> dkeys (wd_observations w)"
  using g
proof (induction rule: grounded.induct)
  case (grounded_observation r c e)
  have "check_evidence (wd_observations w) (wd_claims w) e = Inr ()"
    using world_okD(5) [OF ok grounded_observation(1)] grounded_observation(4) by (simp add: check_claim_iff)
  then have "ObservationRef (or_text (ev_source e) []) (ev_id e) \<in> dkeys (wd_observations w)"
    unfolding check_evidence_iff using grounded_observation(5) by (simp only: if_True)
  with grounded_observation show ?case by blast
next
  case (grounded_claim r c p)
  have "(p, r) \<in> claim_edges (wd_claims w)"
    using edges_of [OF grounded_claim(1)] grounded_claim(4) by (simp add: parents_def)
  with grounded_claim.IH show ?case by (meson rtrancl.rtrancl_into_rtrancl)
qed

end
