(* ===== verification/WorldProps.thy ===== *)
theory WorldProps
  imports WorldAnswers
begin

text \<open>
  The properties of the world: what holds of every world that observations and claims can build, and what
  its answers mean. \<open>world_reachable\<close> is the history of a world; its steps assume that SHA-256 tells
  the claims of a batch from the ones already stored.
\<close>

section \<open>Histories\<close>

inductive world_reachable :: "codec \<Rightarrow> world \<Rightarrow> bool" for cx where
  wr_new: "new_world i limits sources scopes = Inr w \<Longrightarrow> world_reachable cx w"
| wr_observe: "world_reachable cx w \<Longrightarrow> no_collision cx w claims \<Longrightarrow> observe cx ob claims w = Inr (rc, w') \<Longrightarrow> world_reachable cx w'"
| wr_add: "world_reachable cx w \<Longrightarrow> no_collision cx w claims \<Longrightarrow> add_claims cx claims w = Inr (rc, w') \<Longrightarrow> world_reachable cx w'"

lemma new_world_ok: "new_world i limits sources scopes = Inr w \<Longrightarrow> world_ok cx w"
proof -
  assume "new_world i limits sources scopes = Inr w"
  then have w: "wd_claims w = []" "wd_observations w = []" "wd_payload_bytes w = 0"
    by (auto simp: new_world_def split: if_splits)
  then show ?thesis by (simp add: world_ok_def over_capacity_def world_entities_def media_count_def claim_edges_def)
qed

lemma world_reachable_ok: "world_reachable cx w \<Longrightarrow> world_ok cx w"
proof (induction rule: world_reachable.induct)
  case (wr_new i limits sources scopes w)
  then show ?case by (rule new_world_ok)
next
  case (wr_observe w claims ob rc w')
  then show ?case unfolding observe_def by (blast intro: world_commit_ok)
next
  case (wr_add w claims rc w')
  then show ?case unfolding add_claims_def by (blast intro: world_commit_ok)
qed

section \<open>A small world\<close>

definition world_codec :: codec where
  "world_codec = \<lparr>cx_float = (\<lambda>_. []), cx_sha = (\<lambda>d. d)\<rparr>"

definition demo_world0 :: world where
  "demo_world0 = projr (new_world [119] \<lparr>wl_entities = 4, wl_observations = 4, wl_claims = 4, wl_evidence = 8,
     wl_payload_bytes = 2000, wl_media = 1, wl_search = 4\<rparr> [[115]] [None])"

definition demo_observation :: observation where
  "demo_observation = \<lparr>ob_ref = ObservationRef [115] [49], ob_modality = [109], ob_observed_at = ObservationTime [99] 5,
     ob_received_at = [116], ob_payload = P_json JNull, ob_scope = None\<rparr>"

definition demo_claim :: claim where
  "demo_claim = \<lparr>cl_ref = ClaimRef [97], cl_subject = EntityRef [101], cl_predicate = [112], cl_value = V_json (JInt 7),
     cl_kind = MEASUREMENT, cl_source = [115], cl_scope = None,
     cl_evidence = [EvidenceRef OBSERVATION (Some [115]) [49]], cl_asserted_at = [116], cl_valid_at = None,
     cl_valid_for = None, cl_supersedes = []\<rparr>"

definition demo_world :: world where
  "demo_world = snd (projr (observe world_codec demo_observation [demo_claim] demo_world0))"

lemma demo_new_world: "new_world [119] \<lparr>wl_entities = 4, wl_observations = 4, wl_claims = 4, wl_evidence = 8,
     wl_payload_bytes = 2000, wl_media = 1, wl_search = 4\<rparr> [[115]] [None] = Inr demo_world0"
proof -
  have "isl (new_world [119] \<lparr>wl_entities = 4, wl_observations = 4, wl_claims = 4, wl_evidence = 8,
     wl_payload_bytes = 2000, wl_media = 1, wl_search = 4\<rparr> [[115]] [None]) = False" by code_simp
  then show ?thesis by (simp add: demo_world0_def)
qed

lemma demo_observed: "observe world_codec demo_observation [demo_claim] demo_world0
    = Inr (fst (projr (observe world_codec demo_observation [demo_claim] demo_world0)), demo_world)"
proof -
  have "isl (observe world_codec demo_observation [demo_claim] demo_world0) = False" by code_simp
  then show ?thesis by (simp add: demo_world_def)
qed

lemma demo_fresh: "no_collision world_codec demo_world0 [demo_claim]"
proof -
  have "wd_claims demo_world0 = []" by code_simp
  then show ?thesis by (simp add: no_collision_def)
qed

lemma demo_world_reachable: "world_reachable world_codec demo_world"
  by (rule wr_observe [OF wr_new [OF demo_new_world] demo_fresh demo_observed])


lemma demo_world_claims: "wd_claims demo_world = [(ClaimRef [97], demo_claim)]"
proof -
  from demo_observed obtain incoming digests d sizes n where
    a: "accepted world_codec demo_world0 (Some demo_observation) [demo_claim] incoming digests d sizes n"
    and c: "commit_section demo_world0 (Some demo_observation) d n incoming digests sizes
      = Inr (fst (projr (observe world_codec demo_observation [demo_claim] demo_world0)), demo_world)"
    unfolding observe_def world_commit_Inr by blast
  have w0: "wd_claims demo_world0 = []" by code_simp
  have o0: "wd_observations demo_world0 = []" by code_simp
  have inc: "dict_ok incoming" "dkeys incoming = {ClaimRef [97]}"
    using accepted_collected(1,2) [OF a] by (simp_all add: collected_def demo_claim_def)
  from commit_section_passed [OF inc(1) c] obtain merged payload where
    ps: "passed demo_world0 (Some demo_observation) d n incoming digests sizes merged payload"
    and w: "demo_world = committed_world demo_world0 (Some demo_observation) d incoming digests merged payload" by blast
  have m: "merged = dict_update incoming []" using ps w0 unfolding passed_def by simp
  have "demo_world = store_commit demo_world0 (Some demo_observation) d incoming digests merged payload"
    using w o0 by (simp add: committed_world_def changes_def known_observation_def)
  from arg_cong [OF this, of wd_claims] have dw: "wd_claims demo_world = dict_update incoming []"
    unfolding store_commit_simps m .
  have "length incoming = 1" using inc distinct_card [of "map fst incoming"] by (simp add: dict_ok_def)
  then obtain p where p: "incoming = [p]" by (auto simp: length_Suc_conv)
  with inc(2) accepted_collected(3) [OF a] have "p = (ClaimRef [97], demo_claim)" by (cases p) auto
  with p show ?thesis unfolding dw by simp
qed

section \<open>What every world satisfies\<close>



text \<open>
  A commit only adds: every claim and observation of the world is still there, a claim unchanged but
  for the order of keys in its value, the revision grows by one exactly when the receipt says that
  something changed, and otherwise the world is the same.
\<close>

theorem commit_only_adds:
  assumes "world_reachable cx w" "no_collision cx w claims" "world_commit cx ob claims w = Inr (rc, w')"
  shows "(\<forall>r c. dget (wd_claims w) r = Some c \<longrightarrow> (\<exists>d. dget (wd_claims w') r = Some d \<and> same_claim c d))
    \<and> dkeys (wd_observations w) \<subseteq> dkeys (wd_observations w')
    \<and> wd_revision w' = wd_revision w + (if rc_changed rc then 1 else 0) \<and> (\<not> rc_changed rc \<longrightarrow> w' = w)"
  using world_commit_keeps [OF world_reachable_ok [OF assms(1)] assms(2,3)] unfolding extends_def by blast

theorem commit_only_adds_witness: "dkeys (wd_observations demo_world0) \<subseteq> dkeys (wd_observations demo_world)"
  using commit_only_adds [OF wr_new [OF demo_new_world] demo_fresh demo_observed [unfolded observe_def]] by (elim conjE)

text \<open>
  A commit can be repeated: committing the same observation and claims again succeeds, changes nothing
  and reports the revision of the first commit.
\<close>

theorem commit_idempotent:
  assumes "world_commit cx ob claims w = Inr (rc, w')"
  shows "\<exists>rc'. world_commit cx ob claims w' = Inr (rc', w') \<and> \<not> rc_changed rc' \<and> rc_revision rc' = rc_revision rc"
  using assms by (rule world_commit_again)

theorem commit_idempotent_witness:
  "\<exists>rc'. world_commit world_codec (Some demo_observation) [demo_claim] demo_world = Inr (rc', demo_world) \<and> \<not> rc_changed rc'"
  using commit_idempotent [OF demo_observed [unfolded observe_def]] by blast

text \<open>
  C15. The iterative search of \<open>_validate_graph\<close> always ends, and accepts a set of claims that is closed
  under its references exactly when no claim is, through evidence and supersession, its own ancestor; the
  claims it is told to skip only have to be unproblematic themselves.
\<close>

theorem validate_graph_exact:
  assumes "\<forall>r c. dget cs r = Some c \<longrightarrow> set (parents c) \<subseteq> dkeys cs" "set existing \<subseteq> Wellfounded.acc (claim_edges cs)"
  shows "validate_graph cs existing = Inr () \<longleftrightarrow> wf (claim_edges cs)"
  using assms by (rule validate_graph_iff)

definition demo_cycle :: "(claim_ref, claim) dict" where
  "demo_cycle = [(ClaimRef [97], demo_claim\<lparr>cl_supersedes := [ClaimRef [98]]\<rparr>),
     (ClaimRef [98], demo_claim\<lparr>cl_ref := ClaimRef [98], cl_supersedes := [ClaimRef [97]]\<rparr>)]"

theorem validate_graph_exact_witness: "validate_graph demo_cycle [] \<noteq> Inr () \<and> \<not> wf (claim_edges demo_cycle)"
proof -
  have "\<forall>r c. dget demo_cycle r = Some c \<longrightarrow> set (parents c) \<subseteq> dkeys demo_cycle"
    by (auto simp: demo_cycle_def parents_def claim_evidence_def demo_claim_def)
  with validate_graph_exact [of demo_cycle "[]"] have "validate_graph demo_cycle [] = Inr () \<longleftrightarrow> wf (claim_edges demo_cycle)" by simp
  moreover have "validate_graph demo_cycle [] \<noteq> Inr ()" by code_simp
  ultimately show ?thesis by blast
qed

section \<open>What its answers mean\<close>

text \<open>
  Taking a snapshot of a world always ends, and returns one unless the clock resolver fails: the search
  for the grounded claims ends because the claims form a well-founded graph, and every stored value can be
  compared.
\<close>

theorem snapshot_terminates:
  assumes "world_reachable cx w"
  shows "(\<exists>r. take_snapshot cx clock w = Some r)
    \<and> ((\<forall>i. \<exists>n. read_clock clock i = Inr n) \<longrightarrow> (\<exists>s. take_snapshot cx clock w = Some (Inr s)))"
proof -
  note ok = world_reachable_ok [OF assms]
  have "\<exists>s. take_snapshot cx clock w = Some (Inr s)" if c: "\<forall>i. \<exists>n. read_clock clock i = Inr n"
  proof -
    obtain tms where "fold_res (take_time clock) (map snd (wd_claims w)) [] = Inr tms" using times_total [OF c] by blast
    moreover obtain es where "entries_of cx tms (grounded_in w) (superseded_in w) (map snd (wd_claims w)) = Inr es"
      using entries_total [OF ok] by blast
    ultimately show ?thesis by (simp add: take_snapshot_eq [OF ok])
  qed
  then show ?thesis by (simp add: take_snapshot_eq [OF ok])
qed

lemma demo_clock: "\<forall>i. \<exists>n. read_clock None i = Inr n"
  by (simp add: read_clock_def)

theorem snapshot_terminates_witness: "\<exists>s. take_snapshot world_codec None demo_world = Some (Inr s)"
  using snapshot_terminates [OF demo_world_reachable, of None] demo_clock by blast

text \<open>
  C14. Nothing becomes known by assertion alone. When a snapshot calls an attribute known, it names at least
  one supporting claim, and every claim it names is about that attribute, has the value it reports, is not
  superseded, is a measurement, interpretation or inference, and rests, over a chain of claims, on an
  observation the world holds.
\<close>

theorem known_rests_on_observations:
  assumes w: "world_reachable cx w" and s: "take_snapshot cx clock w = Some (Inr s)" and e: "e \<in> set (sn_entries s)"
    and known: "en_status e = KNOWN"
  shows "en_claims e \<noteq> [] \<and> (\<forall>r \<in> set (en_claims e). \<exists>c. dget (wd_claims w) r = Some c \<and> attribute_of c = entry_key e
      \<and> value_key cx (cl_value c) = value_key cx (en_value e) \<and> r \<notin> superseded_in w \<and> factual (cl_kind c)
      \<and> (\<exists>q d ev. (q, r) \<in> (claim_edges (wd_claims w))\<^sup>* \<and> dget (wd_claims w) q = Some d \<and> ev \<in> set (cl_evidence d)
           \<and> ev_kind ev = OBSERVATION \<and> ObservationRef (or_text (ev_source ev) []) (ev_id ev) \<in> dkeys (wd_observations w)))"
proof -
  note ok = world_reachable_ok [OF w]
  note sup = snapshot_known [OF ok s e known]
  show ?thesis
  proof (intro conjI ballI)
    fix r assume "r \<in> set (en_claims e)"
    with sup obtain c where c: "dget (wd_claims w) r = Some c" "attribute_of c = entry_key e" "r \<notin> superseded_in w"
      "value_key cx (cl_value c) = value_key cx (en_value e)" and g: "WorldRead.grounded (wd_claims w) (superseded_in w) r"
      unfolding grounded_in_def by blast
    have "factual (cl_kind c)" using g c(1) by (cases rule: grounded.cases) auto
    with c grounded_rests [OF ok g] show "\<exists>c. dget (wd_claims w) r = Some c \<and> attribute_of c = entry_key e
      \<and> value_key cx (cl_value c) = value_key cx (en_value e) \<and> r \<notin> superseded_in w \<and> factual (cl_kind c)
      \<and> (\<exists>q d ev. (q, r) \<in> (claim_edges (wd_claims w))\<^sup>* \<and> dget (wd_claims w) q = Some d \<and> ev \<in> set (cl_evidence d)
           \<and> ev_kind ev = OBSERVATION \<and> ObservationRef (or_text (ev_source ev) []) (ev_id ev) \<in> dkeys (wd_observations w))"
      by blast
  qed (use sup in blast)
qed


lemma demo_grounded: "grounded_claims [demo_claim] {} = Some (Inr {ClaimRef [97]})"
proof -
  have i: "index_claims [demo_claim] = [(ClaimRef [97], demo_claim)]" by (simp add: index_claims_def demo_claim_def)
  have s: "supports {} {} (ClaimRef [97]) demo_claim" by (simp add: supports_def factual_def demo_claim_def)
  have c: "claim_evidence demo_claim = []" by (simp add: claim_evidence_def demo_claim_def)
  show ?thesis
    by (simp add: grounded_claims_def i c s ground_loop_enter ground_loop_leave ground_loop.simps [of _ _ "[]"])
qed

lemma demo_snapshot: "\<exists>s e. take_snapshot world_codec None demo_world = Some (Inr s) \<and> sn_entries s = [e]
    \<and> en_status e = KNOWN \<and> en_claims e = [ClaimRef [97]]"
proof -
  let ?es = "entries_of world_codec [] {ClaimRef [97]} {} [demo_claim]"
  have "(case ?es of Inl _ \<Rightarrow> False | Inr es \<Rightarrow> (case es of [e] \<Rightarrow> en_status e = KNOWN \<and> en_claims e = [ClaimRef [97]] | _ \<Rightarrow> False))"
    by code_simp
  then obtain e where e: "?es = Inr [e]" "en_status e = KNOWN" "en_claims e = [ClaimRef [97]]"
    by (auto split: sum.splits list.splits)
  note g = demo_grounded
  have "superseded_refs [demo_claim] = {}" "fold_res (take_time None) [demo_claim] [] = Inr []"
    by (simp_all add: superseded_refs_def demo_claim_def take_time_def)
  with e g show ?thesis by (simp add: take_snapshot_def demo_world_claims)
qed

theorem known_rests_on_observations_witness:
  "\<exists>c. dget (wd_claims demo_world) (ClaimRef [97]) = Some c \<and> factual (cl_kind c)"
proof -
  obtain s e where s: "take_snapshot world_codec None demo_world = Some (Inr s)" "e \<in> set (sn_entries s)"
    "en_status e = KNOWN" "en_claims e = [ClaimRef [97]]" using demo_snapshot by fastforce
  from known_rests_on_observations [OF demo_world_reachable s(1,2,3)] s(4) show ?thesis by auto
qed

end
