(* ===== verification/SessionCodec.thy ===== *)
theory SessionCodec
  imports ToolTypes Json Utf8
begin

text \<open>
  Session snapshots and their JSON codec (\<open>roboagent/agent/persistence.py\<close> with the value classes of
  \<open>agent/session.py\<close> and \<open>context/manager.py\<close>). A snapshot is written as a document, the value
  \<open>json.dumps\<close> prints; what \<open>json.loads\<close> gives back is a \<open>pyval\<close> of dicts, lists and
  scalars, and \<open>thaw_json\<close> of the document is what it gives for a text that \<open>json.dumps\<close> printed:
  the keys are sorted in the text, and only ever looked up by name. An integer timestamp is taken exactly.
  \<open>urlparse\<close>'s two verdicts on a URL are parameters.
\<close>

text \<open>\<open>Raised\<close> is an exception that is not a \<open>SessionPersistenceError\<close>: a missing key, a wrong type or value.\<close>

datatype store_error =
    PersistenceError string
  | ConflictError string
  | CorruptedError string
  | VersionUnsupportedError string
  | Raised

fun lift_error :: "'e + 'a \<Rightarrow> store_error + 'a" where
  "lift_error (Inl e) = Inl Raised"
| "lift_error (Inr x) = Inr x"

text \<open>\<open>except (KeyError, TypeError, ValueError)\<close>, and the outer \<open>except Exception\<close>.\<close>

fun rewrap :: "string \<Rightarrow> store_error + 'a \<Rightarrow> store_error + 'a" where
  "rewrap msg (Inl Raised) = Inl (CorruptedError msg)"
| "rewrap msg r = r"

section \<open>Values\<close>

record input_receipt =
  ir_id :: pystr
  ir_sequence :: nat
  ir_session :: pystr

datatype pending_kind = STEER | FOLLOW_UP

record pending_input =
  pi_receipt :: input_receipt
  pi_message :: message
  pi_kind :: pending_kind

record context_summary =
  su_end :: nat
  su_digest :: pystr
  su_text :: pystr
  su_version :: nat
  su_summarizer :: "pystr option"

record session_snapshot =
  sp_schema :: nat
  sp_session :: pystr
  sp_revision :: nat
  sp_last_sequence :: nat
  sp_messages :: "message list"
  sp_pending :: "pending_input list"
  sp_compaction :: "context_summary option"
  sp_metadata :: jobj

record snapshot_codec =
  sc_inline :: nat
  sc_http :: "pystr \<Rightarrow> bool"
  sc_workspace :: "pystr \<Rightarrow> bool"
  sc_float :: "rat \<Rightarrow> pystr"

definition schema_version :: nat where
  "schema_version = 2"

definition min_schema_version :: nat where
  "min_schema_version = 1"

definition make_receipt :: "pystr \<Rightarrow> int \<Rightarrow> pystr \<Rightarrow> store_error + input_receipt" where
  "make_receipt i n sid = (if i = [] \<or> sid = [] \<or> n < 1 then Inl Raised
     else Inr \<lparr>ir_id = i, ir_sequence = nat n, ir_session = sid\<rparr>)"

definition make_pending :: "input_receipt \<Rightarrow> message \<Rightarrow> pystr \<Rightarrow> store_error + pending_input" where
  "make_pending r m kind =
     (if \<not> is_UserMessage m then Inl Raised
      else if kind = ascii ''steer'' then Inr \<lparr>pi_receipt = r, pi_message = m, pi_kind = STEER\<rparr>
      else if kind = ascii ''follow_up'' then Inr \<lparr>pi_receipt = r, pi_message = m, pi_kind = FOLLOW_UP\<rparr>
      else Inl Raised)"

definition make_summary :: "int \<Rightarrow> int \<Rightarrow> pystr \<Rightarrow> pystr \<Rightarrow> int \<Rightarrow> pystr option \<Rightarrow> store_error + context_summary" where
  "make_summary start stop digest txt version summarizer =
     (if start \<noteq> 0 \<or> stop < 0 \<or> digest = [] \<or> version < 1 \<or> summarizer = Some [] then Inl Raised
      else Inr \<lparr>su_end = nat stop, su_digest = digest, su_text = txt, su_version = nat version, su_summarizer = summarizer\<rparr>)"

definition make_session_snapshot ::
  "nat \<Rightarrow> pystr \<Rightarrow> int \<Rightarrow> int \<Rightarrow> message list \<Rightarrow> pending_input list \<Rightarrow> context_summary option \<Rightarrow> jobj
     \<Rightarrow> store_error + session_snapshot" where
  "make_session_snapshot schema sid revision sequence ms ps compaction metadata =
     (if schema < 1 \<or> revision < 0 \<or> sequence < 0 \<or> sid = [] then Inl Raised
      else Inr \<lparr>sp_schema = schema, sp_session = sid, sp_revision = nat revision, sp_last_sequence = nat sequence,
                sp_messages = ms, sp_pending = ps, sp_compaction = compaction, sp_metadata = metadata\<rparr>)"

definition make_url_source :: "snapshot_codec \<Rightarrow> pystr \<Rightarrow> store_error + media_source" where
  "make_url_source cx u = (if sc_http cx u then Inr (UrlSource u) else Inl Raised)"

text \<open>\<open>sha256:[0-9a-f]{64}\<close>, fully matched.\<close>

definition artifact_digest_ok :: "pystr \<Rightarrow> bool" where
  "artifact_digest_ok s \<longleftrightarrow> starts_with (ascii ''sha256:'') s \<and> length s = 71
     \<and> list_all (\<lambda>c. (48 \<le> c \<and> c \<le> 57) \<or> (97 \<le> c \<and> c \<le> 102)) (drop 7 s)"

definition make_artifact ::
  "snapshot_codec \<Rightarrow> pystr \<Rightarrow> pystr option \<Rightarrow> int \<Rightarrow> pystr \<Rightarrow> pystr option \<Rightarrow> store_error + content" where
  "make_artifact cx uri media_type n digest preview =
     (if \<not> sc_workspace cx uri then Inl Raised
      else bind_res (lift_error (check_mime media_type None)) (\<lambda>_.
        if n < 0 \<or> \<not> artifact_digest_ok digest then Inl Raised
        else if (case preview of None \<Rightarrow> False
          | Some p \<Rightarrow> (case utf8_encode p of None \<Rightarrow> True | Some bs \<Rightarrow> length bs > 4096)) then Inl Raised
        else Inr (ArtifactReferenceContent \<lparr>ar_uri = uri, ar_media_type = media_type, ar_size = nat n,
                    ar_digest = digest, ar_preview = preview\<rparr>)))"

section \<open>Encoding\<close>

text \<open>\<open>_encode_json\<close> writes an object as the list of its entries, which keeps their order.\<close>

fun encode_json :: "json \<Rightarrow> json" where
  "encode_json (JObj items) = J_record [(''type'', JStr (ascii ''object'')),
     (''entries'', JArr (map (\<lambda>(k, v). JArr [JStr k, encode_json v]) items))]"
| "encode_json (JArr vs) = J_record [(''type'', JStr (ascii ''array'')), (''items'', JArr (map encode_json vs))]"
| "encode_json v = J_record [(''type'', JStr (ascii ''scalar'')), (''value'', v)]"

definition encode_source :: "snapshot_codec \<Rightarrow> media_source \<Rightarrow> store_error + json" where
  "encode_source cx s = (case s of
       BytesSource bs \<Rightarrow>
         if length bs > sc_inline cx then Inl (PersistenceError ''Inline media exceeds snapshot limit.'')
         else Inr (J_record [(''type'', JStr (ascii ''bytes'')), (''encoding'', JStr (ascii ''base64'')),
                (''data'', JStr (b64_encode bs))])
     | FileSource p \<Rightarrow> Inr (J_record [(''type'', JStr (ascii ''file'')), (''path'', JStr p)])
     | UrlSource u \<Rightarrow> Inr (J_record [(''type'', JStr (ascii ''url'')), (''url'', JStr u)]))"

definition encode_media ::
  "snapshot_codec \<Rightarrow> string \<Rightarrow> media_source \<Rightarrow> pystr option \<Rightarrow> string \<Rightarrow> pystr option \<Rightarrow> store_error + json" where
  "encode_media cx kind s media_type label extra =
     bind_res (encode_source cx s) (\<lambda>d. Inr (J_record [(''type'', JStr (ascii kind)), (''source'', d),
       (''media_type'', J_text media_type), (label, J_text extra)]))"

fun encode_content :: "snapshot_codec \<Rightarrow> content \<Rightarrow> store_error + json" where
  "encode_content cx (TextContent t) = Inr (J_record [(''type'', JStr (ascii ''text'')), (''text'', JStr t)])"
| "encode_content cx (JsonContent j) = Inr (J_record [(''type'', JStr (ascii ''json'')), (''value'', encode_json j)])"
| "encode_content cx (ArtifactReferenceContent a) = Inr (J_record [(''type'', JStr (ascii ''artifact_reference'')),
     (''uri'', JStr (ar_uri a)), (''media_type'', J_text (ar_media_type a)), (''size'', JInt (int (ar_size a))),
     (''digest'', JStr (ar_digest a)), (''preview'', J_text (ar_preview a))])"
| "encode_content cx (ImageContent s mt d) = encode_media cx ''image'' s mt ''detail'' d"
| "encode_content cx (AudioContent s mt d) = encode_media cx ''audio'' s mt ''transcript'' d"
| "encode_content cx (FileContent s mt d) = encode_media cx ''file'' s mt ''filename'' d"

definition encode_call :: "tool_call \<Rightarrow> json" where
  "encode_call c = J_record [(''id'', JStr (tc_id c)), (''name'', JStr (tc_name c)),
     (''arguments'', encode_json (JObj (tc_arguments c)))]"

definition status_text :: "tool_result_status \<Rightarrow> pystr" where
  "status_text s = ascii (case s of SUCCESS \<Rightarrow> ''success'' | ERROR \<Rightarrow> ''error'')"

definition error_data :: "tool_error_info option \<Rightarrow> json" where
  "error_data e = (case e of None \<Rightarrow> JNull | Some i \<Rightarrow> J_record [(''code'', JStr (te_code i)),
     (''message'', JStr (te_message i)), (''retryable'', JBool (te_retryable i))])"

fun role_fields :: "message \<Rightarrow> string \<times> (string \<times> json) list" where
  "role_fields (UserMessage c ts i) = (''user_message'', [])"
| "role_fields (AssistantMessage c calls reasoning ts i) = (''assistant_message'',
     (''tool_calls'', JArr (map encode_call calls))
       # (case reasoning of None \<Rightarrow> [] | Some r \<Rightarrow> [(''reasoning_content'', JStr r)]))"
| "role_fields (ToolResultMessage cid name status c e ts i) = (''tool_message'',
     [(''tool_call_id'', JStr cid), (''tool_name'', JStr name), (''status'', JStr (status_text status)),
      (''error'', error_data e)])"

definition encode_message :: "snapshot_codec \<Rightarrow> message \<Rightarrow> store_error + json" where
  "encode_message cx m = bind_res (map_res (encode_content cx) (msg_content m)) (\<lambda>cs.
     Inr (J_record ([(''type'', JStr (ascii (fst (role_fields m)))), (''message_id'', JStr (msg_id m)),
       (''timestamp'', JFloat (msg_timestamp m)), (''content'', JArr cs)] @ snd (role_fields m))))"

definition kind_name :: "pending_kind \<Rightarrow> pystr" where
  "kind_name k = ascii (case k of STEER \<Rightarrow> ''steer'' | FOLLOW_UP \<Rightarrow> ''follow_up'')"

definition encode_receipt :: "input_receipt \<Rightarrow> json" where
  "encode_receipt r = J_record [(''input_id'', JStr (ir_id r)), (''sequence'', JInt (int (ir_sequence r))),
     (''session_id'', JStr (ir_session r))]"

definition encode_pending :: "snapshot_codec \<Rightarrow> pending_input \<Rightarrow> store_error + json" where
  "encode_pending cx p = bind_res (encode_message cx (pi_message p)) (\<lambda>m.
     Inr (J_record [(''receipt'', encode_receipt (pi_receipt p)), (''message'', m), (''kind'', JStr (kind_name (pi_kind p)))]))"

definition encode_summary :: "context_summary option \<Rightarrow> json" where
  "encode_summary s = (case s of None \<Rightarrow> JNull | Some c \<Rightarrow> J_record [(''source_start'', JInt 0),
     (''source_end_exclusive'', JInt (int (su_end c))), (''source_digest'', JStr (su_digest c)),
     (''text'', JStr (su_text c)), (''summary_format_version'', JInt (int (su_version c))),
     (''summarizer_id'', J_text (su_summarizer c))])"

text \<open>\<open>encode\<close>: the document, when its text can be encoded.\<close>

definition encode_snapshot :: "snapshot_codec \<Rightarrow> session_snapshot \<Rightarrow> store_error + json" where
  "encode_snapshot cx s =
     bind_res (map_res (encode_message cx) (sp_messages s)) (\<lambda>ms.
     bind_res (map_res (encode_pending cx) (sp_pending s)) (\<lambda>ps.
     let doc = J_record [(''schema_version'', JInt (int (sp_schema s))), (''session_id'', JStr (sp_session s)),
           (''revision'', JInt (int (sp_revision s))), (''last_pending_sequence'', JInt (int (sp_last_sequence s))),
           (''messages'', JArr ms), (''pending'', JArr ps), (''compaction'', encode_summary (sp_compaction s)),
           (''metadata'', encode_json (JObj (sp_metadata s)))]
     in if utf8_encode (canonical_json_dumps (sc_float cx) doc) = None then Inl Raised else Inr doc))"

section \<open>Decoding\<close>

text \<open>\<open>_dict\<close>, \<open>_list\<close>, \<open>value[k]\<close>, \<open>value.get(k)\<close> and the type checks of the constructors.\<close>

fun as_dict :: "pyval \<Rightarrow> store_error + (pyval \<times> pyval) list" where
  "as_dict (PMap d) = Inr d"
| "as_dict _ = Inl (CorruptedError ''Expected JSON object.'')"

fun as_list :: "pyval \<Rightarrow> store_error + pyval list" where
  "as_list (PSeq vs) = Inr vs"
| "as_list _ = Inl (CorruptedError ''Expected JSON array.'')"

definition field :: "(pyval \<times> pyval) list \<Rightarrow> string \<Rightarrow> pyval option" where
  "field d k = dget d (PStr (ascii k))"

definition need :: "(pyval \<times> pyval) list \<Rightarrow> string \<Rightarrow> store_error + pyval" where
  "need d k = (case field d k of None \<Rightarrow> Inl Raised | Some v \<Rightarrow> Inr v)"

definition opt :: "(pyval \<times> pyval) list \<Rightarrow> string \<Rightarrow> pyval" where
  "opt d k = or_else (field d k) PNone"

fun as_text :: "pyval \<Rightarrow> store_error + pystr" where
  "as_text (PStr s) = Inr s"
| "as_text _ = Inl Raised"

fun as_opt_text :: "pyval \<Rightarrow> store_error + pystr option" where
  "as_opt_text PNone = Inr None"
| "as_opt_text (PStr s) = Inr (Some s)"
| "as_opt_text _ = Inl Raised"

fun as_int :: "pyval \<Rightarrow> store_error + int" where
  "as_int (PInt i) = Inr i"
| "as_int _ = Inl Raised"

fun as_bool :: "pyval \<Rightarrow> store_error + bool" where
  "as_bool (PBool b) = Inr b"
| "as_bool _ = Inl Raised"

text \<open>The keyword arguments of a dataclass: no other name is allowed.\<close>

definition only_keys :: "string list \<Rightarrow> (pyval \<times> pyval) list \<Rightarrow> store_error + unit" where
  "only_keys ks d = raise_if (\<not> list_all (\<lambda>p. fst p \<in> set (map (\<lambda>k. PStr (ascii k)) ks)) d) Raised"

lemma size_field: "field d k = Some v \<Longrightarrow> size v < size (PMap d)"
proof -
  assume "field d k = Some v"
  then have "(PStr (ascii k), v) \<in> set d" unfolding field_def by (rule dget_Some_in)
  then show ?thesis by (induction d) auto
qed

text \<open>An entry \<open>[key, value]\<close> of an encoded object.\<close>

fun entry_parts :: "pyval \<Rightarrow> (pystr \<times> pyval) option" where
  "entry_parts (PSeq [PStr k, v]) = Some (k, v)"
| "entry_parts _ = None"

lemma size_entry: "entry_parts e = Some (k, v) \<Longrightarrow> size v < size e"
  by (induction e rule: entry_parts.induct) auto

lemma size_member: "x \<in> set vs \<Longrightarrow> size x < size (PSeq vs)"
  by (induction vs) auto

text \<open>The constructor of \<open>FrozenJsonObject\<close> takes the entries one by one, as they are decoded.\<close>

function decode_json :: "pyval \<Rightarrow> store_error + json"
  and decode_entries :: "pystr list \<Rightarrow> pyval list \<Rightarrow> store_error + (pystr \<times> json) list" where
  "decode_json (PMap d) =
     (if opt d ''type'' = PStr (ascii ''scalar'')
      then (case field d ''value'' of
           None \<Rightarrow> Inl (CorruptedError ''Scalar JSON value is missing its value field.'')
         | Some v \<Rightarrow> lift_error (freeze_json v))
      else if opt d ''type'' = PStr (ascii ''array'')
      then (case field d ''items'' of
           Some (PSeq vs) \<Rightarrow> bind_res (map_res decode_json vs) (\<lambda>js. Inr (JArr js))
         | _ \<Rightarrow> Inl (CorruptedError ''Expected JSON array.''))
      else if opt d ''type'' = PStr (ascii ''object'')
      then (case field d ''entries'' of
           Some (PSeq es) \<Rightarrow>
             if \<not> list_all (\<lambda>e. entry_parts e \<noteq> None) es
             then Inl (CorruptedError ''Invalid ordered JSON object entries.'')
             else bind_res (decode_entries [] es) (\<lambda>items. Inr (JObj items))
         | _ \<Rightarrow> Inl (CorruptedError ''Expected JSON array.''))
      else Inl (CorruptedError ''Unknown JSON value type.''))"
| "decode_json PNone = Inl (CorruptedError ''Expected JSON object.'')"
| "decode_json (PBool b) = Inl (CorruptedError ''Expected JSON object.'')"
| "decode_json (PInt i) = Inl (CorruptedError ''Expected JSON object.'')"
| "decode_json (PFloat x) = Inl (CorruptedError ''Expected JSON object.'')"
| "decode_json (PStr s) = Inl (CorruptedError ''Expected JSON object.'')"
| "decode_json (PFrozen j) = Inl (CorruptedError ''Expected JSON object.'')"
| "decode_json (PSeq vs) = Inl (CorruptedError ''Expected JSON object.'')"
| "decode_json POther = Inl (CorruptedError ''Expected JSON object.'')"
| "decode_entries seen [] = Inr []"
| "decode_entries seen (e # es) =
     (case entry_parts e of
        None \<Rightarrow> Inl Raised
      | Some (k, v) \<Rightarrow> bind_res (decode_json v) (\<lambda>j.
          if k \<in> set seen then Inl Raised
          else bind_res (decode_entries (k # seen) es) (\<lambda>items. Inr ((k, j) # items))))"
  by pat_completeness auto
termination
proof (relation "measure (case_sum size (\<lambda>(seen, es). size_list size es))", goal_cases)
  case (2 d x vs z)
  then show ?case using size_field [of d "''items''" "PSeq vs"] size_member [of z vs] by simp
next
  case (3 d x es)
  then show ?case using size_field [of d "''entries''" "PSeq es"] by simp
next
  case (4 seen e es kv k v)
  then show ?case using size_entry [of e k v] by simp
qed simp_all

text \<open>An object that is expected: the arguments of a call, the metadata.\<close>

definition decode_object :: "string \<Rightarrow> pyval \<Rightarrow> store_error + jobj" where
  "decode_object msg v = bind_res (decode_json v) (\<lambda>j. case j of JObj items \<Rightarrow> Inr items | _ \<Rightarrow> Inl (CorruptedError msg))"

definition decode_source :: "snapshot_codec \<Rightarrow> pyval \<Rightarrow> store_error + media_source" where
  "decode_source cx v = bind_res (as_dict v) (\<lambda>d.
     if opt d ''type'' = PStr (ascii ''bytes'')
     then (if opt d ''encoding'' \<noteq> PStr (ascii ''base64'') then Inl (CorruptedError ''Unknown bytes encoding.'')
           else bind_res (need d ''data'') (\<lambda>x. bind_res (as_text x) (\<lambda>t. case b64_decode t of
               None \<Rightarrow> Inl Raised
             | Some bs \<Rightarrow>
                 if length bs > sc_inline cx then Inl (CorruptedError ''Inline media exceeds snapshot limit.'')
                 else lift_error (make_bytes_source bs))))
     else if opt d ''type'' = PStr (ascii ''file'')
     then bind_res (need d ''path'') (\<lambda>x. bind_res (as_text x) (\<lambda>p. lift_error (make_file_source p)))
     else if opt d ''type'' = PStr (ascii ''url'')
     then bind_res (need d ''url'') (\<lambda>x. bind_res (as_text x) (make_url_source cx))
     else Inl (CorruptedError ''Unknown media source type.''))"

definition decode_media ::
  "snapshot_codec \<Rightarrow> (media_source \<Rightarrow> pystr option \<Rightarrow> pystr option \<Rightarrow> protocol_error + content) \<Rightarrow> string
     \<Rightarrow> (pyval \<times> pyval) list \<Rightarrow> store_error + content" where
  "decode_media cx constructor label d =
     bind_res (need d ''source'') (\<lambda>x. bind_res (decode_source cx x) (\<lambda>s.
     bind_res (as_opt_text (opt d ''media_type'')) (\<lambda>mt. bind_res (as_opt_text (opt d label)) (\<lambda>extra.
     lift_error (constructor s mt extra)))))"

definition decode_artifact :: "snapshot_codec \<Rightarrow> (pyval \<times> pyval) list \<Rightarrow> store_error + content" where
  "decode_artifact cx d =
     bind_res (need d ''uri'') (\<lambda>u. bind_res (need d ''size'') (\<lambda>n. bind_res (need d ''digest'') (\<lambda>g.
     bind_res (as_text u) (\<lambda>uri. bind_res (as_opt_text (opt d ''media_type'')) (\<lambda>mt.
     bind_res (as_int n) (\<lambda>i. bind_res (as_text g) (\<lambda>digest. bind_res (as_opt_text (opt d ''preview'')) (\<lambda>preview.
     make_artifact cx uri mt i digest preview))))))))"

text \<open>A list or a dict as the type is not hashable, so \<open>kind in {...}\<close> raises.\<close>

definition decode_content :: "snapshot_codec \<Rightarrow> pyval \<Rightarrow> store_error + content" where
  "decode_content cx v = bind_res (as_dict v) (\<lambda>d. rewrap ''Invalid content fields.'' (case opt d ''type'' of
       PStr kind \<Rightarrow>
         if kind = ascii ''text''
         then bind_res (need d ''text'') (\<lambda>x. bind_res (as_text x) (\<lambda>t. Inr (TextContent t)))
         else if kind = ascii ''json''
         then bind_res (need d ''value'') (\<lambda>x. bind_res (decode_json x) (\<lambda>j. Inr (JsonContent j)))
         else if kind = ascii ''artifact_reference'' then decode_artifact cx d
         else if kind = ascii ''image'' then decode_media cx make_image ''detail'' d
         else if kind = ascii ''audio'' then decode_media cx make_audio ''transcript'' d
         else if kind = ascii ''file'' then decode_media cx make_file ''filename'' d
         else Inl (CorruptedError ''Unknown content type.'')
     | PSeq _ \<Rightarrow> Inl Raised
     | PMap _ \<Rightarrow> Inl Raised
     | _ \<Rightarrow> Inl (CorruptedError ''Unknown content type.'')))"


text \<open>
  The stable JSON form of a message and the digest of a transcript (\<open>roboagent/message.py\<close>,
  \<open>canonical_message_data\<close> and \<open>canonical_message_digest\<close>), which ties a summary to the
  messages it stands for. The id of a message is not part of it. \<open>None\<close> is a text that does not encode.
\<close>

definition source_form :: "media_source \<Rightarrow> json" where
  "source_form s = (case s of
       BytesSource bs \<Rightarrow> J_record [(''type'', JStr (ascii ''bytes'')), (''data'', JStr (b64_encode bs))]
     | FileSource p \<Rightarrow> J_record [(''type'', JStr (ascii ''file'')), (''path'', JStr p)]
     | UrlSource u \<Rightarrow> J_record [(''type'', JStr (ascii ''url'')), (''url'', JStr u)])"

definition media_form :: "string \<Rightarrow> media_source \<Rightarrow> pystr option \<Rightarrow> string \<Rightarrow> pystr option \<Rightarrow> json" where
  "media_form kind s mt label extra = J_record [(''type'', JStr (ascii kind)), (''source'', source_form s),
     (''media_type'', J_text mt), (label, J_text extra)]"

fun content_form :: "content \<Rightarrow> json" where
  "content_form (TextContent t) = J_record [(''type'', JStr (ascii ''text'')), (''text'', JStr t)]"
| "content_form (JsonContent j) = J_record [(''type'', JStr (ascii ''json'')), (''value'', j)]"
| "content_form (ArtifactReferenceContent a) = J_record [(''type'', JStr (ascii ''artifact_reference'')),
     (''uri'', JStr (ar_uri a)), (''media_type'', J_text (ar_media_type a)), (''size'', JInt (int (ar_size a))),
     (''digest'', JStr (ar_digest a)), (''preview'', J_text (ar_preview a))]"
| "content_form (ImageContent s mt d) = media_form ''image'' s mt ''detail'' d"
| "content_form (AudioContent s mt d) = media_form ''audio'' s mt ''transcript'' d"
| "content_form (FileContent s mt d) = media_form ''file'' s mt ''filename'' d"

definition call_form :: "tool_call \<Rightarrow> json" where
  "call_form c = J_record [(''id'', JStr (tc_id c)), (''name'', JStr (tc_name c)), (''arguments'', JObj (tc_arguments c))]"

definition error_form :: "tool_error_info option \<Rightarrow> json" where
  "error_form e = (case e of None \<Rightarrow> JNull | Some i \<Rightarrow> J_record [(''code'', JStr (te_code i)),
     (''message'', JStr (te_message i)), (''retryable'', JBool (te_retryable i))])"

fun role_form :: "message \<Rightarrow> string \<times> (string \<times> json) list" where
  "role_form (UserMessage c ts i) = (''user'', [])"
| "role_form (AssistantMessage c calls reasoning ts i) = (''assistant'', (''tool_calls'', JArr (map call_form calls))
     # (case reasoning of None \<Rightarrow> [] | Some r \<Rightarrow> [(''reasoning_content'', JStr r)]))"
| "role_form (ToolResultMessage cid name status c e ts i) = (''tool'',
     [(''tool_call_id'', JStr cid), (''tool_name'', JStr name),
      (''status'', JStr (ascii (case status of SUCCESS \<Rightarrow> ''success'' | ERROR \<Rightarrow> ''error''))),
      (''error'', error_form e)])"

definition canonical_message_data :: "message \<Rightarrow> json" where
  "canonical_message_data m = J_record ([(''type'', JStr (ascii (fst (role_form m)))),
     (''content'', JArr (map content_form (msg_content m))), (''timestamp'', JFloat (msg_timestamp m))] @ snd (role_form m))"

definition canonical_message_digest :: "(rat \<Rightarrow> pystr) \<Rightarrow> (bytes \<Rightarrow> pystr) \<Rightarrow> message list \<Rightarrow> pystr option" where
  "canonical_message_digest frepr sha ms = canonical_json_digest frepr sha (JArr (map canonical_message_data ms))"


text \<open>
  Documents of ASCII text. Their canonical text is ASCII too, so it always encodes; an \<open>ascii\<close> literal is
  such a text when its characters are.
\<close>

definition plain :: "pystr \<Rightarrow> bool" where
  "plain s \<longleftrightarrow> list_all (\<lambda>c. c < 128) s"

fun plain_json :: "json \<Rightarrow> bool" where
  "plain_json (JStr s) \<longleftrightarrow> plain s"
| "plain_json (JArr vs) \<longleftrightarrow> list_all plain_json vs"
| "plain_json (JObj items) \<longleftrightarrow> list_all (\<lambda>(k, v). plain k \<and> plain_json v) items"
| "plain_json _ \<longleftrightarrow> True"

lemma plain_simps [simp]: "plain []" "plain (c # s) \<longleftrightarrow> c < 128 \<and> plain s" "plain (s @ t) \<longleftrightarrow> plain s \<and> plain t"
  by (simp_all add: plain_def)

lemma plain_concat [simp]: "plain (concat ss) \<longleftrightarrow> list_all plain ss"
  by (induction ss) simp_all

lemma plain_encodes: "plain s \<Longrightarrow> utf8_encode s = Some s"
  by (induction s) (simp_all add: utf8_char_def)

lemma plain_digits [simp]: "plain (nat_digits n)"
  by (induction n rule: nat_digits.induct) (subst nat_digits.simps, simp add: order_less_trans [OF mod_less_divisor [of 10]])

lemma plain_escape: "c < 128 \<Longrightarrow> plain (escape_char c)"
  by (auto simp: escape_char_def hex_digit_def ascii_def)

lemma plain_quote: "plain s \<Longrightarrow> plain (quote s)"
  by (auto simp: quote_def plain_def list_all_iff dest!: plain_escape [unfolded plain_def list_all_iff])

lemma plain_commas: "list_all plain ss \<Longrightarrow> plain (commas ss)"
  by (induction ss rule: commas.induct) simp_all

lemma plain_dumps: "plain_json j \<Longrightarrow> \<forall>r. plain (frepr r) \<Longrightarrow> plain (dumps frepr b j)"
proof (induction j)
  case (JArr vs)
  then show ?case by (auto simp: list_all_iff intro!: plain_commas)
next
  case (JObj items)
  have "plain (member_text (k, dumps frepr b v))" if "(k, v) \<in> set items" for k v
    using JObj that by (fastforce simp: member_text_def list_all_iff intro: plain_quote)
  then have "list_all plain (map member_text (map (\<lambda>(k, v). (k, dumps frepr b v)) items))"
    by (auto simp: list_all_iff)
  then show ?case by (auto simp: Let_def list_all_iff intro!: plain_commas)
next
  case (JInt i)
  then show ?case by (simp add: int_text_def)
qed (simp_all add: ascii_def plain_quote)

lemma plain_canonical: "plain_json j \<Longrightarrow> \<forall>r. plain (frepr r) \<Longrightarrow> utf8_encode (canonical_json_dumps frepr j) \<noteq> None"
  using plain_dumps plain_encodes by (simp add: canonical_json_dumps_def)

lemma plain_record [simp]: "plain_json (J_record ms) \<longleftrightarrow> list_all (\<lambda>(k, v). plain (ascii k) \<and> plain_json v) ms"
  by (induction ms) (auto simp: J_record_def)

lemma plain_text [simp]: "plain_json (J_text t) \<longleftrightarrow> (case t of None \<Rightarrow> True | Some s \<Rightarrow> plain s)"
  by (simp add: J_text_def split: option.splits)


text \<open>
  Decoding the messages and the rest of a session snapshot (\<open>agent/persistence.py\<close>,
  \<open>CanonicalMessageCodec.decode\<close> and \<open>JsonSessionSnapshotCodec\<close>). A message without an id, as
  schema 1 wrote it, is given a fresh one: \<open>fresh\<close> is the supply, indexed by the place of the message
  in the document.
\<close>

definition decode_call :: "pyval \<Rightarrow> store_error + tool_call" where
  "decode_call v = bind_res (as_dict v) (\<lambda>d.
     bind_res (need d ''arguments'') (\<lambda>a.
     bind_res (decode_object ''ToolCall arguments must be a JSON object.'' a) (\<lambda>args.
     bind_res (need d ''id'') (\<lambda>x. bind_res (need d ''name'') (\<lambda>y.
     bind_res (as_text x) (\<lambda>i. bind_res (as_text y) (\<lambda>name.
     lift_error (make_tool_call i name args))))))))"

definition decode_error :: "pyval \<Rightarrow> store_error + tool_error_info option" where
  "decode_error v = (case v of PNone \<Rightarrow> Inr None | _ \<Rightarrow>
     bind_res (as_dict v) (\<lambda>d. bind_res (only_keys [''code'', ''message'', ''retryable''] d) (\<lambda>_.
     bind_res (need d ''code'') (\<lambda>x. bind_res (need d ''message'') (\<lambda>y.
     bind_res (as_text x) (\<lambda>code. bind_res (as_text y) (\<lambda>msg.
     bind_res (as_bool (or_else (field d ''retryable'') (PBool False))) (\<lambda>r.
     bind_res (lift_error (make_tool_error code msg r)) (\<lambda>e. Inr (Some e))))))))))"

definition decode_status :: "pyval \<Rightarrow> store_error + tool_result_status" where
  "decode_status v = (if v = PStr (ascii ''success'') then Inr SUCCESS
     else if v = PStr (ascii ''error'') then Inr ERROR else Inl Raised)"

definition decode_timestamp :: "pyval \<Rightarrow> store_error + rat" where
  "decode_timestamp v = (case v of PInt i \<Rightarrow> Inr (of_int i) | PFloat (Fin r) \<Rightarrow> Inr r
     | _ \<Rightarrow> Inl (CorruptedError ''Invalid message timestamp.''))"

definition decode_id :: "pyval \<Rightarrow> store_error + pystr option" where
  "decode_id v = (case v of PNone \<Rightarrow> Inr None
     | PStr s \<Rightarrow> if s = [] then Inl (CorruptedError ''Invalid message_id.'') else Inr (Some s)
     | _ \<Rightarrow> Inl (CorruptedError ''Invalid message_id.''))"

definition decode_reasoning :: "pyval \<Rightarrow> store_error + pystr option" where
  "decode_reasoning v = (case v of PNone \<Rightarrow> Inr None | PStr s \<Rightarrow> Inr (Some s)
     | _ \<Rightarrow> Inl (CorruptedError ''Invalid assistant reasoning_content.''))"

text \<open>The part inside the \<open>try\<close>, by the type of the record.\<close>

definition decode_user :: "content list \<Rightarrow> rat \<Rightarrow> pystr \<Rightarrow> pystr option \<Rightarrow> store_error + message" where
  "decode_user cs ts fresh mid = lift_error (make_user_message default_media_limits ts fresh cs (Some (Fin ts)) mid)"

definition decode_assistant ::
  "(pyval \<times> pyval) list \<Rightarrow> content list \<Rightarrow> rat \<Rightarrow> pystr \<Rightarrow> pystr option \<Rightarrow> store_error + message" where
  "decode_assistant d cs ts fresh mid =
     bind_res (as_list (or_else (field d ''tool_calls'') (PSeq []))) (\<lambda>vs.
     bind_res (map_res decode_call vs) (\<lambda>calls.
     bind_res (decode_reasoning (opt d ''reasoning_content'')) (\<lambda>reasoning.
     lift_error (make_assistant_message default_media_limits ts fresh cs calls reasoning (Some (Fin ts)) mid))))"

definition decode_result ::
  "(pyval \<times> pyval) list \<Rightarrow> content list \<Rightarrow> rat \<Rightarrow> pystr \<Rightarrow> pystr option \<Rightarrow> store_error + message" where
  "decode_result d cs ts fresh mid =
     bind_res (need d ''status'') (\<lambda>x. bind_res (decode_status x) (\<lambda>status.
     bind_res (decode_error (opt d ''error'')) (\<lambda>e.
     bind_res (need d ''tool_call_id'') (\<lambda>y. bind_res (need d ''tool_name'') (\<lambda>z.
     bind_res (as_text y) (\<lambda>cid. bind_res (as_text z) (\<lambda>name.
     lift_error (make_tool_result default_media_limits ts fresh cid name status cs e (Some (Fin ts)) mid))))))))"

definition decode_message :: "snapshot_codec \<Rightarrow> pystr \<Rightarrow> pyval \<Rightarrow> store_error + message" where
  "decode_message cx fresh v = (case v of
       PMap d \<Rightarrow>
         (case field d ''content'' of
            Some (PSeq vs) \<Rightarrow>
              bind_res (decode_timestamp (opt d ''timestamp'')) (\<lambda>ts.
              bind_res (map_res (decode_content cx) vs) (\<lambda>cs.
              bind_res (decode_id (opt d ''message_id'')) (\<lambda>mid.
                rewrap ''Invalid message fields.'' (
                  if opt d ''type'' = PStr (ascii ''user_message'') then decode_user cs ts fresh mid
                  else if opt d ''type'' = PStr (ascii ''assistant_message'') then decode_assistant d cs ts fresh mid
                  else if opt d ''type'' = PStr (ascii ''tool_message'') then decode_result d cs ts fresh mid
                  else Inl (CorruptedError ''Unknown message type.'')))))
          | _ \<Rightarrow> Inl (CorruptedError ''Invalid message record.''))
     | _ \<Rightarrow> Inl (CorruptedError ''Invalid message record.''))"

section \<open>The rest of a snapshot\<close>

definition decode_receipt :: "pyval \<Rightarrow> store_error + input_receipt" where
  "decode_receipt v = bind_res (as_dict v) (\<lambda>d.
     bind_res (only_keys [''input_id'', ''sequence'', ''session_id''] d) (\<lambda>_.
     bind_res (need d ''input_id'') (\<lambda>x. bind_res (need d ''sequence'') (\<lambda>y. bind_res (need d ''session_id'') (\<lambda>z.
     bind_res (as_text x) (\<lambda>i. bind_res (as_text z) (\<lambda>sid. bind_res (as_int y) (\<lambda>n. make_receipt i n sid))))))))"

definition decode_pending :: "snapshot_codec \<Rightarrow> pystr \<Rightarrow> pyval \<Rightarrow> store_error + pending_input" where
  "decode_pending cx fresh v = bind_res (as_dict v) (\<lambda>d.
     bind_res (need d ''message'') (\<lambda>x. bind_res (decode_message cx fresh x) (\<lambda>m.
       if \<not> is_UserMessage m then Inl (CorruptedError ''Pending messages must be UserMessage values.'')
       else bind_res (need d ''receipt'') (\<lambda>y. bind_res (decode_receipt y) (\<lambda>r.
            bind_res (need d ''kind'') (\<lambda>k. bind_res (as_text k) (make_pending r m)))))))"

definition is_zero :: "pyval \<Rightarrow> bool" where
  "is_zero v \<longleftrightarrow> v = PInt 0 \<or> v = PBool False \<or> v = PFloat (Fin 0)"

definition decode_summary :: "pyval \<Rightarrow> store_error + context_summary option" where
  "decode_summary v = (case v of PNone \<Rightarrow> Inr None | _ \<Rightarrow>
     bind_res (as_dict v) (\<lambda>d.
     bind_res (only_keys [''source_start'', ''source_end_exclusive'', ''source_digest'', ''text'',
         ''summary_format_version'', ''summarizer_id''] d) (\<lambda>_.
     bind_res (need d ''source_start'') (\<lambda>w. bind_res (need d ''source_end_exclusive'') (\<lambda>x.
     bind_res (need d ''source_digest'') (\<lambda>y. bind_res (need d ''text'') (\<lambda>z. bind_res (need d ''summary_format_version'') (\<lambda>u.
     bind_res (raise_if (\<not> is_zero w) Raised) (\<lambda>_.
     bind_res (as_int x) (\<lambda>stop. bind_res (as_text y) (\<lambda>digest. bind_res (as_text z) (\<lambda>txt. bind_res (as_int u) (\<lambda>version.
     bind_res (as_opt_text (opt d ''summarizer_id'')) (\<lambda>summarizer.
     bind_res (make_summary 0 stop digest txt version summarizer) (\<lambda>s. Inr (Some s))))))))))))))))"

definition read_version :: "(pyval \<times> pyval) list \<Rightarrow> store_error + nat" where
  "read_version d = (case opt d ''schema_version'' of
       PInt i \<Rightarrow> if int min_schema_version \<le> i \<and> i \<le> int schema_version then Inr (nat i)
         else Inl (VersionUnsupportedError ''Unsupported Session snapshot version.'')
     | _ \<Rightarrow> Inl (VersionUnsupportedError ''Unsupported Session snapshot version.''))"

definition number_from :: "nat \<Rightarrow> 'a list \<Rightarrow> (nat \<times> 'a) list" where
  "number_from n xs = zip [n..<n + length xs] xs"

text \<open>\<open>decode_with_migration\<close>: the snapshot, and whether it was of an older schema.\<close>

definition decode_fields :: "snapshot_codec \<Rightarrow> (nat \<Rightarrow> pystr) \<Rightarrow> (pyval \<times> pyval) list \<Rightarrow> store_error + session_snapshot" where
  "decode_fields cx fresh d =
     bind_res (need d ''messages'') (\<lambda>x. bind_res (as_list x) (\<lambda>ms.
     bind_res (map_res (\<lambda>(i, v). decode_message cx (fresh i) v) (number_from 0 ms)) (\<lambda>messages.
     bind_res (need d ''pending'') (\<lambda>y. bind_res (as_list y) (\<lambda>ps.
     bind_res (map_res (\<lambda>(i, v). decode_pending cx (fresh i) v) (number_from (length ms) ps)) (\<lambda>pending.
     bind_res (decode_summary (opt d ''compaction'')) (\<lambda>compaction.
     bind_res (need d ''metadata'') (\<lambda>z. bind_res (decode_object ''Session metadata must be a JSON object.'' z) (\<lambda>metadata.
     bind_res (need d ''session_id'') (\<lambda>s. bind_res (need d ''revision'') (\<lambda>r. bind_res (need d ''last_pending_sequence'') (\<lambda>l.
     bind_res (as_int r) (\<lambda>revision. bind_res (as_int l) (\<lambda>sequence. bind_res (as_text s) (\<lambda>sid.
     make_session_snapshot schema_version sid revision sequence messages pending compaction metadata)))))))))))))))"

definition decode_with_migration ::
  "snapshot_codec \<Rightarrow> (nat \<Rightarrow> pystr) \<Rightarrow> pyval \<Rightarrow> store_error + session_snapshot \<times> bool" where
  "decode_with_migration cx fresh v = bind_res (as_dict v) (\<lambda>d. bind_res (read_version d) (\<lambda>version.
     bind_res (rewrap ''Invalid Session snapshot.'' (decode_fields cx fresh d)) (\<lambda>s.
     Inr (s, version < schema_version))))"

definition decode_snapshot :: "snapshot_codec \<Rightarrow> (nat \<Rightarrow> pystr) \<Rightarrow> pyval \<Rightarrow> store_error + session_snapshot" where
  "decode_snapshot cx fresh v = bind_res (decode_with_migration cx fresh v) (\<lambda>(s, old). Inr s)"

definition needs_migration :: "pyval \<Rightarrow> store_error + bool" where
  "needs_migration v = (case v of
       PMap d \<Rightarrow> (case opt d ''schema_version'' of
           PInt i \<Rightarrow> Inr (i < int schema_version)
         | _ \<Rightarrow> Inl (VersionUnsupportedError ''Unsupported Session snapshot version.''))
     | _ \<Rightarrow> Inl (CorruptedError ''Snapshot is not valid JSON.''))"

end
