(* ===== verification/SessionState.thy ===== *)
theory SessionState
  imports SessionCodec
begin

text \<open>
  A conversation session (\<open>roboagent/agent/session.py\<close>): one owning run at a time, a transcript that
  only grows by whole exchanges, a queue of pending input, and a durable copy in a repository. The sections
  of the source that run under its asyncio locks contain no \<open>await\<close>, so each is one function here; an
  operation is such a section followed by \<open>_persist_required\<close>, which other operations may overtake.
  Workspaces, skills and event emission are left out; fresh ids and the state of a cancellation token are
  arguments.
\<close>

datatype session_error =
    SessionBusy
  | SessionClosed
  | SessionOwnership
  | SessionNotFound
  | Run_cancelled
  | InvalidTranscript protocol_error
  | InvalidArgument
  | Storage store_error

record session =
  ss_id :: pystr
  ss_messages :: "message list"
  ss_active :: "pystr option"
  ss_closed :: bool
  ss_sequence :: nat
  ss_pending :: "pending_input list"
  ss_compaction :: "context_summary option"
  ss_limits :: media_limits
  ss_metadata :: jobj
  ss_revision :: nat
  ss_durable :: "nat option"

type_synonym 'a session_op = "session \<Rightarrow> session_error + 'a \<times> session"

fun checked :: "protocol_error + unit \<Rightarrow> session_error + unit" where
  "checked (Inl e) = Inl (InvalidTranscript e)"
| "checked (Inr u) = Inr ()"

definition check_transcript :: "media_limits \<Rightarrow> message list \<Rightarrow> session_error + unit" where
  "check_transcript limits ms = checked (validate limits True ms)"

section \<open>Creating a session\<close>

text \<open>\<open>fresh\<close> is the id \<open>uuid4\<close> gives when none is passed.\<close>

definition new_session ::
  "media_limits \<Rightarrow> pystr \<Rightarrow> message list \<Rightarrow> pystr option \<Rightarrow> jobj \<Rightarrow> session_error + session" where
  "new_session limits fresh ms sid metadata =
     (if sid = Some [] then Inl InvalidArgument
      else bind_res (check_transcript limits ms) (\<lambda>_.
        Inr \<lparr>ss_id = or_else sid fresh, ss_messages = ms, ss_active = None, ss_closed = False, ss_sequence = 0,
             ss_pending = [], ss_compaction = None, ss_limits = limits, ss_metadata = metadata, ss_revision = 0,
             ss_durable = None\<rparr>))"

section \<open>Ownership\<close>

definition acquire_run :: "pystr \<Rightarrow> unit session_op" where
  "acquire_run run s =
     (if ss_closed s then Inl SessionClosed
      else if ss_active s \<noteq> None then Inl SessionBusy
      else Inr ((), s\<lparr>ss_active := Some run\<rparr>))"

definition release_run :: "pystr \<Rightarrow> unit session_op" where
  "release_run run s =
     (if ss_active s \<noteq> Some run then Inl SessionOwnership else Inr ((), s\<lparr>ss_active := None\<rparr>))"

definition owned :: "pystr \<Rightarrow> session \<Rightarrow> session_error + unit" where
  "owned run s = raise_if (ss_active s \<noteq> Some run) SessionOwnership"

text \<open>\<open>start\<close>: the session is taken for the run, and given back when the message does not fit.\<close>

definition start_run :: "pystr \<Rightarrow> message option \<Rightarrow> session \<Rightarrow> (session_error + nat) \<times> session" where
  "start_run run m s = (case acquire_run run s of
       Inl e \<Rightarrow> (Inl e, s)
     | Inr (_, s1) \<Rightarrow>
         (case m of None \<Rightarrow> (Inr (ss_sequence s1), s1)
          | Some msg \<Rightarrow>
              (case check_transcript (ss_limits s1) (ss_messages s1 @ [msg]) of
                 Inl e \<Rightarrow> (case release_run run s1 of Inl e1 \<Rightarrow> (Inl e1, s1) | Inr (_, s2) \<Rightarrow> (Inl e, s2))
               | Inr _ \<Rightarrow> (Inr (ss_sequence s1), s1))))"

section \<open>Pending input\<close>

definition bump :: "session \<Rightarrow> session" where
  "bump s = s\<lparr>ss_revision := ss_revision s + 1\<rparr>"

definition enqueue :: "pystr \<Rightarrow> pending_kind \<Rightarrow> message \<Rightarrow> input_receipt session_op" where
  "enqueue fresh kind m s =
     (if \<not> is_UserMessage m then Inl InvalidArgument
      else if ss_closed s then Inl SessionClosed
      else let r = \<lparr>ir_id = fresh, ir_sequence = ss_sequence s + 1, ir_session = ss_id s\<rparr> in
        Inr (r, bump (s\<lparr>ss_sequence := ss_sequence s + 1,
          ss_pending := ss_pending s @ [\<lparr>pi_receipt = r, pi_message = m, pi_kind = kind\<rparr>]\<rparr>)))"

definition append_block :: "message list \<Rightarrow> session \<Rightarrow> session_error + session" where
  "append_block block s = bind_res (check_transcript (ss_limits s) (ss_messages s @ block)) (\<lambda>_.
     Inr (bump (s\<lparr>ss_messages := ss_messages s @ block\<rparr>)))"

definition consume_pending :: "pystr \<Rightarrow> bool \<Rightarrow> pending_input list session_op" where
  "consume_pending run was_cancelled s =
     bind_res (owned run s) (\<lambda>_. bind_res (raise_if was_cancelled Run_cancelled) (\<lambda>_.
       if ss_pending s = [] then Inr ([], s)
       else bind_res (append_block (map pi_message (ss_pending s)) s) (\<lambda>s1.
              Inr (ss_pending s, s1\<lparr>ss_pending := []\<rparr>))))"

definition commit_initial_input :: "pystr \<Rightarrow> message option \<Rightarrow> nat \<Rightarrow> bool \<Rightarrow> pending_input list session_op" where
  "commit_initial_input run m through was_cancelled s =
     bind_res (owned run s) (\<lambda>_. bind_res (raise_if was_cancelled Run_cancelled) (\<lambda>_.
       let due = takeWhile (\<lambda>p. ir_sequence (pi_receipt p) \<le> through) (ss_pending s);
           block = map pi_message due @ (case m of None \<Rightarrow> [] | Some msg \<Rightarrow> [msg])
       in if block = [] then Inr (due, s)
          else bind_res (append_block block s) (\<lambda>s1. Inr (due, s1\<lparr>ss_pending := drop (length due) (ss_pending s)\<rparr>))))"

definition clear_pending :: "input_receipt list session_op" where
  "clear_pending s =
     (if ss_active s \<noteq> None then Inl SessionBusy
      else if ss_pending s = [] then Inr ([], s)
      else Inr (map pi_receipt (ss_pending s), bump (s\<lparr>ss_pending := []\<rparr>)))"

section \<open>The transcript and its summary\<close>

definition commit_message :: "pystr \<Rightarrow> message \<Rightarrow> unit session_op" where
  "commit_message run m s = bind_res (owned run s) (\<lambda>_. bind_res (append_block [m] s) (\<lambda>s1. Inr ((), s1)))"

definition commit_exchange :: "pystr \<Rightarrow> message \<Rightarrow> message list \<Rightarrow> unit session_op" where
  "commit_exchange run m results s = bind_res (owned run s) (\<lambda>_. bind_res (append_block (m # results) s) (\<lambda>s1. Inr ((), s1)))"

definition capture_context_state :: "pystr \<Rightarrow> (message list \<times> context_summary option) session_op" where
  "capture_context_state run s = bind_res (owned run s) (\<lambda>_. Inr ((ss_messages s, ss_compaction s), s))"

text \<open>A \<open>CompactionUpdate\<close> is the summary and the digest of the one it replaces.\<close>

definition commit_compaction :: "pystr \<Rightarrow> context_summary option \<Rightarrow> pystr option \<Rightarrow> bool session_op" where
  "commit_compaction run summary expected s = bind_res (owned run s) (\<lambda>_.
     if map_option su_digest (ss_compaction s) \<noteq> expected then Inr (False, s)
     else Inr (True, bump (s\<lparr>ss_compaction := summary\<rparr>)))"

definition set_metadata :: "jobj \<Rightarrow> bool session_op" where
  "set_metadata value s =
     (if jobj_eq value (ss_metadata s) then Inr (False, s) else Inr (True, bump (s\<lparr>ss_metadata := value\<rparr>)))"

definition close_session :: "input_receipt list session_op" where
  "close_session s =
     (if ss_active s \<noteq> None then Inl SessionBusy
      else Inr (map pi_receipt (ss_pending s), s\<lparr>ss_closed := True\<rparr>))"

section \<open>Snapshots\<close>

definition take_session_snapshot :: "session \<Rightarrow> store_error + session_snapshot" where
  "take_session_snapshot s = make_session_snapshot schema_version (ss_id s) (int (ss_revision s)) (int (ss_sequence s))
     (ss_messages s) (ss_pending s) (ss_compaction s) (ss_metadata s)"

text \<open>
  \<open>restore\<close>. A summary is kept only when the messages it stands for are there, complete, and have the
  digest it names; \<open>digest\<close> is \<open>canonical_message_digest\<close>, whose encoding error goes to the caller.
\<close>

fun increasing :: "nat list \<Rightarrow> bool" where
  "increasing (x # y # zs) \<longleftrightarrow> x < y \<and> increasing (y # zs)"
| "increasing _ \<longleftrightarrow> True"

definition check_pending :: "session_snapshot \<Rightarrow> session_error + unit" where
  "check_pending sn =
     (let ns = map (ir_sequence \<circ> pi_receipt) (sp_pending sn) in
      if list_ex (\<lambda>p. ir_session (pi_receipt p) \<noteq> sp_session sn) (sp_pending sn)
      then Inl (Storage (CorruptedError ''Pending input belongs to another Session.''))
      else if \<not> increasing ns then Inl (Storage (CorruptedError ''Pending input sequence is not strictly increasing.''))
      else if list_ex (\<lambda>n. sp_last_sequence sn < n) ns then Inl (Storage (CorruptedError ''last_pending_sequence is stale.''))
      else Inr ())"

definition kept_compaction ::
  "(message list \<Rightarrow> pystr option) \<Rightarrow> media_limits \<Rightarrow> session_snapshot \<Rightarrow> session_error + context_summary option" where
  "kept_compaction digest limits sn = (case sp_compaction sn of
       None \<Rightarrow> Inr None
     | Some c \<Rightarrow>
         if validate limits True (take (su_end c) (sp_messages sn)) \<noteq> Inr () then Inr None
         else if su_end c > length (sp_messages sn) then Inr None
         else (case digest (take (su_end c) (sp_messages sn)) of
             None \<Rightarrow> Inl (Storage Raised)
           | Some d \<Rightarrow> Inr (if d = su_digest c then Some c else None)))"

definition restore_session ::
  "(message list \<Rightarrow> pystr option) \<Rightarrow> media_limits \<Rightarrow> session_snapshot \<Rightarrow> session_error + session" where
  "restore_session digest limits sn =
     (if \<not> (min_schema_version \<le> sp_schema sn \<and> sp_schema sn \<le> schema_version)
      then Inl (Storage (VersionUnsupportedError ''Unsupported Session snapshot version.''))
      else bind_res (check_transcript limits (sp_messages sn)) (\<lambda>_. bind_res (check_pending sn) (\<lambda>_.
        bind_res (new_session limits [] (sp_messages sn) (Some (sp_session sn)) (sp_metadata sn)) (\<lambda>s.
        bind_res (kept_compaction digest limits sn) (\<lambda>c.
        Inr (s\<lparr>ss_pending := sp_pending sn, ss_sequence := sp_last_sequence sn, ss_compaction := c,
               ss_revision := sp_revision sn, ss_durable := Some (sp_revision sn)\<rparr>))))))"

end
