(* ===== verification/SessionRound.thy ===== *)
theory SessionRound
  imports SessionCodec
begin

text \<open>
  Reading back what was written. Each decoder undoes its encoder on the values the constructors of the
  program return; \<open>made\<close> predicates say that a value is one of those, by applying its own constructor
  to its fields.
\<close>

section \<open>Looking up written fields\<close>

lemma ascii_eq [simp]: "ascii s = ascii t \<longleftrightarrow> s = t"
  by (simp add: ascii_def inj_map_eq_map inj_on_def)

definition thawed :: "(string \<times> json) list \<Rightarrow> (pyval \<times> pyval) list" where
  "thawed ms = map (\<lambda>(k, v). (PStr (ascii k), thaw_json v)) ms"

lemma thaw_J_record [simp]: "thaw_json (J_record ms) = PMap (thawed ms)"
  by (simp add: thaw_record thawed_def)

lemma field_record [simp]:
  "field (thawed ms) k = map_option thaw_json (map_of ms k)"
  by (induction ms) (auto simp: field_def thawed_def)

lemma need_record [simp]:
  "need (thawed ms) k
     = (case map_of ms k of None \<Rightarrow> Inl Raised | Some v \<Rightarrow> Inr (thaw_json v))"
  by (auto simp: need_def split: option.splits)

lemma opt_record [simp]:
  "opt (thawed ms) k
     = (case map_of ms k of None \<Rightarrow> PNone | Some v \<Rightarrow> thaw_json v)"
  by (auto simp: opt_def split: option.splits)

lemma only_keys_record [simp]:
  "only_keys ks (thawed ms) = raise_if (\<not> set (map fst ms) \<subseteq> set ks) Raised"
  by (force simp: only_keys_def thawed_def list_all_iff image_iff raise_if_def)

lemma as_opt_text_J [simp]: "as_opt_text (thaw_json (J_text s)) = Inr s"
  by (simp add: J_text_def split: option.splits)

section \<open>JSON values\<close>

lemma decode_entries_encoded:
  assumes "\<And>k v. (k, v) \<in> set items \<Longrightarrow> decode_json (thaw_json (encode_json v)) = Inr v"
    and "distinct (map fst items)" "set (map fst items) \<inter> set seen = {}"
  shows "decode_entries seen (map (\<lambda>(k, v). PSeq [PStr k, thaw_json (encode_json v)]) items) = Inr items"
  using assms
proof (induction items arbitrary: seen)
  case (Cons kv items)
  obtain k v where kv: "kv = (k, v)" by (cases kv)
  from Cons.prems have "decode_json (thaw_json (encode_json v)) = Inr v" "k \<notin> set seen" by (auto simp: kv)
  moreover have "decode_entries (k # seen) (map (\<lambda>(k, v). PSeq [PStr k, thaw_json (encode_json v)]) items) = Inr items"
    using Cons.prems by (intro Cons.IH) (auto simp: kv)
  ultimately show ?case by (simp add: kv)
qed simp

lemma map_res_all: "(\<And>x. x \<in> set xs \<Longrightarrow> f (g x) = Inr x) \<Longrightarrow> map_res f (map g xs) = Inr xs"
  by (induction xs) auto

lemma decode_encode_json: "json_ok j \<Longrightarrow> decode_json (thaw_json (encode_json j)) = Inr j"
proof (induction j rule: encode_json.induct)
  case (1 items)
  have "decode_entries [] (map (\<lambda>(k, v). PSeq [PStr k, thaw_json (encode_json v)]) items) = Inr items"
  proof (rule decode_entries_encoded)
    fix k v assume kv: "(k, v) \<in> set items"
    with 1(2) have "json_ok v" by (auto simp: list_all_iff)
    with 1(1) kv show "decode_json (thaw_json (encode_json v)) = Inr v" by blast
  qed (use 1(2) in auto)
  moreover have "list_all (\<lambda>e. entry_parts e \<noteq> None) (map (\<lambda>(k, v). PSeq [PStr k, thaw_json (encode_json v)]) items)"
    by (simp add: list_all_iff case_prod_unfold)
  ultimately show ?case by (simp add: case_prod_unfold o_def)
next
  case (2 vs)
  have "map_res decode_json (map (\<lambda>v. thaw_json (encode_json v)) vs) = Inr vs"
    using 2 by (intro map_res_all) (auto simp: list_all_iff)
  then show ?case by (simp add: o_def)
qed simp_all


section \<open>Content\<close>

fun source_made :: "snapshot_codec \<Rightarrow> media_source \<Rightarrow> bool" where
  "source_made cx (BytesSource bs) \<longleftrightarrow> bs \<noteq> [] \<and> (\<forall>b \<in> set bs. b < 256)"
| "source_made cx (FileSource p) \<longleftrightarrow> make_file_source p = Inr (FileSource p)"
| "source_made cx (UrlSource u) \<longleftrightarrow> sc_http cx u"

fun content_made :: "snapshot_codec \<Rightarrow> content \<Rightarrow> bool" where
  "content_made cx (TextContent t) \<longleftrightarrow> True"
| "content_made cx (JsonContent j) \<longleftrightarrow> json_ok j"
| "content_made cx (ImageContent s mt d) \<longleftrightarrow> source_made cx s \<and> make_image s mt d = Inr (ImageContent s mt d)"
| "content_made cx (AudioContent s mt d) \<longleftrightarrow> source_made cx s \<and> make_audio s mt d = Inr (AudioContent s mt d)"
| "content_made cx (FileContent s mt d) \<longleftrightarrow> source_made cx s \<and> make_file s mt d = Inr (FileContent s mt d)"
| "content_made cx (ArtifactReferenceContent a) \<longleftrightarrow>
     make_artifact cx (ar_uri a) (ar_media_type a) (int (ar_size a)) (ar_digest a) (ar_preview a) = Inr (ArtifactReferenceContent a)"

lemma decode_source_encoded:
  "encode_source cx s = Inr j \<Longrightarrow> source_made cx s \<Longrightarrow> decode_source cx (thaw_json j) = Inr s"
  by (cases s) (auto simp: encode_source_def decode_source_def b64_roundtrip make_bytes_source_def make_url_source_def
      split: if_splits)

lemma decode_media_encoded:
  assumes "encode_media cx kind s mt label extra = Inr j" "source_made cx s" "constructor s mt extra = Inr c"
    and "label \<notin> {''type'', ''source'', ''media_type''}"
  shows "\<exists>d. thaw_json j = PMap d \<and> opt d ''type'' = PStr (ascii kind) \<and> decode_media cx constructor label d = Inr c"
proof -
  from assms(1) obtain sd where sd: "encode_source cx s = Inr sd" and j: "j = J_record [(''type'', JStr (ascii kind)),
      (''source'', sd), (''media_type'', J_text mt), (label, J_text extra)]"
    by (auto simp: encode_media_def bind_res_Inr_iff)
  from decode_source_encoded [OF sd assms(2)] assms(3,4) show ?thesis
    by (auto simp: j decode_media_def)
qed

lemma decode_content_encoded:
  assumes "encode_content cx c = Inr j" "content_made cx c"
  shows "decode_content cx (thaw_json j) = Inr c"
proof (cases c)
  case (ImageContent s mt d)
  with assms have "encode_media cx ''image'' s mt ''detail'' d = Inr j" "source_made cx s" "make_image s mt d = Inr c" by simp_all
  from decode_media_encoded [where constructor = make_image, OF this] obtain m where m: "thaw_json j = PMap m" "opt m ''type'' = PStr (ascii ''image'')"
    "decode_media cx make_image ''detail'' m = Inr c" by auto
  then show ?thesis by (simp add: decode_content_def)
next
  case (AudioContent s mt d)
  with assms have "encode_media cx ''audio'' s mt ''transcript'' d = Inr j" "source_made cx s" "make_audio s mt d = Inr c" by simp_all
  from decode_media_encoded [where constructor = make_audio, OF this] obtain m where m: "thaw_json j = PMap m" "opt m ''type'' = PStr (ascii ''audio'')"
    "decode_media cx make_audio ''transcript'' m = Inr c" by auto
  then show ?thesis by (simp add: decode_content_def)
next
  case (FileContent s mt d)
  with assms have "encode_media cx ''file'' s mt ''filename'' d = Inr j" "source_made cx s" "make_file s mt d = Inr c" by simp_all
  from decode_media_encoded [where constructor = make_file, OF this] obtain m where m: "thaw_json j = PMap m" "opt m ''type'' = PStr (ascii ''file'')"
    "decode_media cx make_file ''filename'' m = Inr c" by auto
  then show ?thesis by (simp add: decode_content_def)
next
  case (ArtifactReferenceContent a)
  with assms have j: "j = J_record [(''type'', JStr (ascii ''artifact_reference'')), (''uri'', JStr (ar_uri a)),
      (''media_type'', J_text (ar_media_type a)), (''size'', JInt (int (ar_size a))), (''digest'', JStr (ar_digest a)),
      (''preview'', J_text (ar_preview a))]" by simp
  from ArtifactReferenceContent assms(2) show ?thesis unfolding j by (simp add: decode_content_def decode_artifact_def)
next
  case (TextContent t)
  with assms(1) have "j = J_record [(''type'', JStr (ascii ''text'')), (''text'', JStr t)]" by simp
  with TextContent show ?thesis by (simp add: decode_content_def)
next
  case (JsonContent v)
  with assms(1) have "j = J_record [(''type'', JStr (ascii ''json'')), (''value'', encode_json v)]" by simp
  with JsonContent assms(2) decode_encode_json [of v] show ?thesis by (simp add: decode_content_def)
qed

section \<open>Messages\<close>

definition call_made :: "tool_call \<Rightarrow> bool" where
  "call_made c \<longleftrightarrow> json_ok (JObj (tc_arguments c)) \<and> tc_id c \<noteq> [] \<and> tc_name c \<noteq> []"

definition error_made :: "tool_error_info option \<Rightarrow> bool" where
  "error_made e \<longleftrightarrow> (case e of None \<Rightarrow> True | Some i \<Rightarrow> make_tool_error (te_code i) (te_message i) (te_retryable i) = Inr i)"

fun fields_made :: "message \<Rightarrow> bool" where
  "fields_made (UserMessage cs ts i) \<longleftrightarrow>
     make_user_message default_media_limits ts [] cs (Some (Fin ts)) (Some i) = Inr (UserMessage cs ts i)"
| "fields_made (AssistantMessage cs calls reasoning ts i) \<longleftrightarrow> (\<forall>c \<in> set calls. call_made c)
     \<and> make_assistant_message default_media_limits ts [] cs calls reasoning (Some (Fin ts)) (Some i)
         = Inr (AssistantMessage cs calls reasoning ts i)"
| "fields_made (ToolResultMessage cid name status cs e ts i) \<longleftrightarrow> error_made e
     \<and> make_tool_result default_media_limits ts [] cid name status cs e (Some (Fin ts)) (Some i)
         = Inr (ToolResultMessage cid name status cs e ts i)"

definition message_made :: "snapshot_codec \<Rightarrow> message \<Rightarrow> bool" where
  "message_made cx m \<longleftrightarrow> fields_made m \<and> (\<forall>c \<in> set (msg_content m). content_made cx c)"

lemma message_id_fresh: "message_id f (Some i) = message_id g (Some i)"
  by (simp add: message_id_def)

lemma made_id: "fields_made m \<Longrightarrow> msg_id m \<noteq> []"
  by (cases m) (auto simp: make_user_message_def make_assistant_message_def make_tool_result_def message_id_def
      res_simps split: if_splits)

lemma decode_call_encoded: "call_made c \<Longrightarrow> decode_call (thaw_json (encode_call c)) = Inr c"
  using decode_encode_json [of "JObj (tc_arguments c)"]
  by (simp add: call_made_def encode_call_def decode_call_def decode_object_def make_tool_call_def del: encode_json.simps)

lemma decode_error_encoded: "error_made e \<Longrightarrow> decode_error (thaw_json (error_data e)) = Inr e"
  by (cases e) (simp_all add: error_made_def error_data_def decode_error_def)

lemma decode_status_text: "decode_status (PStr (status_text s)) = Inr s"
  by (cases s) (simp_all add: decode_status_def status_text_def)

lemma decode_assistant_encoded:
  assumes "fields_made (AssistantMessage cs calls reasoning ts i)"
    and "field d ''tool_calls'' = Some (PSeq (map (\<lambda>c. thaw_json (encode_call c)) calls))"
    and "opt d ''reasoning_content'' = (case reasoning of None \<Rightarrow> PNone | Some r \<Rightarrow> PStr r)"
  shows "decode_assistant d cs ts f (Some i) = Inr (AssistantMessage cs calls reasoning ts i)"
proof -
  have "map_res decode_call (map (\<lambda>c. thaw_json (encode_call c)) calls) = Inr calls"
    using assms(1) by (intro map_res_all) (simp add: decode_call_encoded)
  moreover have "decode_reasoning (opt d ''reasoning_content'') = Inr reasoning"
    by (simp add: assms(3) decode_reasoning_def split: option.splits)
  moreover have "make_assistant_message default_media_limits ts f cs calls reasoning (Some (Fin ts)) (Some i)
      = Inr (AssistantMessage cs calls reasoning ts i)"
    using assms(1) by (simp add: make_assistant_message_def message_id_fresh [of f _ "[]"])
  ultimately show ?thesis by (simp add: decode_assistant_def assms(2))
qed

lemma decode_result_encoded:
  assumes "fields_made (ToolResultMessage cid name status cs e ts i)"
    and "field d ''status'' = Some (PStr (status_text status))" "opt d ''error'' = thaw_json (error_data e)"
    and "field d ''tool_call_id'' = Some (PStr cid)" "field d ''tool_name'' = Some (PStr name)"
  shows "decode_result d cs ts f (Some i) = Inr (ToolResultMessage cid name status cs e ts i)"
proof -
  have "make_tool_result default_media_limits ts f cid name status cs e (Some (Fin ts)) (Some i)
      = Inr (ToolResultMessage cid name status cs e ts i)"
    using assms(1) by (simp add: make_tool_result_def message_id_fresh [of f _ "[]"])
  with assms show ?thesis by (simp add: decode_result_def need_def decode_status_text decode_error_encoded)
qed

lemma decode_user_encoded:
  "fields_made (UserMessage cs ts i) \<Longrightarrow> decode_user cs ts f (Some i) = Inr (UserMessage cs ts i)"
  by (simp add: decode_user_def make_user_message_def message_id_fresh [of f _ "[]"])

lemma decode_message_encoded:
  assumes e: "encode_message cx m = Inr j" and m: "message_made cx m"
  shows "decode_message cx f (thaw_json j) = Inr m"
proof -
  from e obtain js where js: "map_res (encode_content cx) (msg_content m) = Inr js"
    and j: "j = J_record ([(''type'', JStr (ascii (fst (role_fields m)))), (''message_id'', JStr (msg_id m)),
       (''timestamp'', JFloat (msg_timestamp m)), (''content'', JArr js)] @ snd (role_fields m))"
    by (auto simp: encode_message_def bind_res_Inr_iff)
  let ?d = "thawed ([(''type'', JStr (ascii (fst (role_fields m)))), (''message_id'', JStr (msg_id m)),
       (''timestamp'', JFloat (msg_timestamp m)), (''content'', JArr js)] @ snd (role_fields m))"
  have made: "fields_made m" and items: "\<forall>c \<in> set (msg_content m). content_made cx c"
    using m by (simp_all add: message_made_def)
  have "list_all2 (\<lambda>c j. encode_content cx c = Inr j) (msg_content m) js" using js by (simp add: map_res_Inr_iff)
  then have "list_all2 (\<lambda>v c. decode_content cx v = Inr c) (map thaw_json js) (msg_content m)"
    using items by (auto simp: list_all2_conv_all_nth intro: decode_content_encoded)
  then have cs: "map_res (decode_content cx) (map thaw_json js) = Inr (msg_content m)" by (simp add: map_res_Inr_iff)
  have start: "decode_message cx f (PMap ?d) = rewrap ''Invalid message fields.'' (
      if opt ?d ''type'' = PStr (ascii ''user_message'') then decode_user (msg_content m) (msg_timestamp m) f (Some (msg_id m))
      else if opt ?d ''type'' = PStr (ascii ''assistant_message'')
      then decode_assistant ?d (msg_content m) (msg_timestamp m) f (Some (msg_id m))
      else if opt ?d ''type'' = PStr (ascii ''tool_message'')
      then decode_result ?d (msg_content m) (msg_timestamp m) f (Some (msg_id m))
      else Inl (CorruptedError ''Unknown message type.''))"
    using made_id [OF made] cs by (simp add: decode_message_def decode_timestamp_def decode_id_def)
  have "decode_message cx f (PMap ?d) = Inr m"
  proof (cases m)
    case (UserMessage cs ts i)
    with made decode_user_encoded [of cs ts i f] show ?thesis unfolding start by simp
  next
    case (AssistantMessage cs calls reasoning ts i)
    with made have "decode_assistant ?d cs ts f (Some i) = Inr m"
      using decode_assistant_encoded [of cs calls reasoning ts i ?d f] by (simp add: o_def split: option.splits)
    with AssistantMessage show ?thesis unfolding start by simp
  next
    case (ToolResultMessage cid name status cs e ts i)
    with made have "decode_result ?d cs ts f (Some i) = Inr m"
      using decode_result_encoded [of cid name status cs e ts i ?d f] by simp
    with ToolResultMessage show ?thesis unfolding start by simp
  qed
  then show ?thesis by (simp add: j)
qed

section \<open>Snapshots\<close>

definition pending_made :: "snapshot_codec \<Rightarrow> pending_input \<Rightarrow> bool" where
  "pending_made cx p \<longleftrightarrow> message_made cx (pi_message p) \<and> is_UserMessage (pi_message p)
     \<and> ir_id (pi_receipt p) \<noteq> [] \<and> ir_session (pi_receipt p) \<noteq> [] \<and> ir_sequence (pi_receipt p) \<ge> 1"

definition summary_made :: "context_summary \<Rightarrow> bool" where
  "summary_made c \<longleftrightarrow> su_digest c \<noteq> [] \<and> su_version c \<ge> 1 \<and> su_summarizer c \<noteq> Some []"

definition snapshot_made :: "snapshot_codec \<Rightarrow> session_snapshot \<Rightarrow> bool" where
  "snapshot_made cx s \<longleftrightarrow> sp_schema s = schema_version \<and> sp_session s \<noteq> []
     \<and> (\<forall>m \<in> set (sp_messages s). message_made cx m) \<and> (\<forall>p \<in> set (sp_pending s). pending_made cx p)
     \<and> (\<forall>c. sp_compaction s = Some c \<longrightarrow> summary_made c) \<and> json_ok (JObj (sp_metadata s))"

lemma decode_receipt_encoded:
  "ir_id r \<noteq> [] \<Longrightarrow> ir_session r \<noteq> [] \<Longrightarrow> ir_sequence r \<ge> 1 \<Longrightarrow> decode_receipt (thaw_json (encode_receipt r)) = Inr r"
  by (simp add: encode_receipt_def decode_receipt_def make_receipt_def)

lemma decode_pending_encoded:
  assumes e: "encode_pending cx p = Inr j" and p: "pending_made cx p"
  shows "decode_pending cx f (thaw_json j) = Inr p"
proof -
  from e obtain m where m: "encode_message cx (pi_message p) = Inr m"
    and j: "j = J_record [(''receipt'', encode_receipt (pi_receipt p)), (''message'', m), (''kind'', JStr (kind_name (pi_kind p)))]"
    by (auto simp: encode_pending_def bind_res_Inr_iff)
  have "make_pending (pi_receipt p) (pi_message p) (kind_name (pi_kind p)) = Inr p"
    using p by (cases "pi_kind p") (simp_all add: make_pending_def kind_name_def pending_made_def)
  with p decode_message_encoded [OF m] decode_receipt_encoded [of "pi_receipt p"] show ?thesis
    by (simp add: j decode_pending_def pending_made_def)
qed

lemma decode_summary_encoded:
  "\<forall>c. s = Some c \<longrightarrow> summary_made c \<Longrightarrow> decode_summary (thaw_json (encode_summary s)) = Inr s"
  by (cases s) (simp_all add: encode_summary_def decode_summary_def summary_made_def make_summary_def is_zero_def)

lemma map_res_numbered:
  assumes "list_all2 (\<lambda>x y. \<forall>i. g i x = Inr y) xs ys"
  shows "map_res (\<lambda>(i, x). g i x) (number_from n xs) = Inr ys"
  using assms by (auto simp: map_res_Inr_iff number_from_def list_all2_conv_all_nth)

lemma decode_all_encoded:
  assumes "map_res enc xs = Inr js" "\<And>x j f. x \<in> set xs \<Longrightarrow> enc x = Inr j \<Longrightarrow> dec f (thaw_json j) = Inr x"
  shows "map_res (\<lambda>(i, v). dec (fresh i) v) (number_from n (map thaw_json js)) = Inr xs"
proof (rule map_res_numbered)
  have "list_all2 (\<lambda>x j. enc x = Inr j) xs js" using assms(1) by (simp add: map_res_Inr_iff)
  then show "list_all2 (\<lambda>v x. \<forall>i. dec (fresh i) v = Inr x) (map thaw_json js) xs"
    using assms(2) by (auto simp: list_all2_conv_all_nth)
qed

lemma decode_snapshot_encoded:
  assumes e: "encode_snapshot cx s = Inr doc" and s: "snapshot_made cx s"
  shows "decode_with_migration cx fresh (thaw_json doc) = Inr (s, False)"
proof -
  from e obtain ms ps where ms: "map_res (encode_message cx) (sp_messages s) = Inr ms"
    and ps: "map_res (encode_pending cx) (sp_pending s) = Inr ps"
    and doc: "doc = J_record [(''schema_version'', JInt (int (sp_schema s))), (''session_id'', JStr (sp_session s)),
           (''revision'', JInt (int (sp_revision s))), (''last_pending_sequence'', JInt (int (sp_last_sequence s))),
           (''messages'', JArr ms), (''pending'', JArr ps), (''compaction'', encode_summary (sp_compaction s)),
           (''metadata'', encode_json (JObj (sp_metadata s)))]"
    by (auto simp: encode_snapshot_def bind_res_Inr_iff Let_def split: if_splits)
  note made = s [unfolded snapshot_made_def]
  have "map_res (\<lambda>(i, v). decode_message cx (fresh i) v) (number_from 0 (map thaw_json ms)) = Inr (sp_messages s)"
    by (rule decode_all_encoded [OF ms]) (use made decode_message_encoded in blast)
  moreover have "map_res (\<lambda>(i, v). decode_pending cx (fresh i) v) (number_from (length ms) (map thaw_json ps)) = Inr (sp_pending s)"
    by (rule decode_all_encoded [OF ps]) (use made decode_pending_encoded in blast)
  moreover have "decode_summary (thaw_json (encode_summary (sp_compaction s))) = Inr (sp_compaction s)"
    using made by (intro decode_summary_encoded) blast
  moreover have "decode_json (thaw_json (encode_json (JObj (sp_metadata s)))) = Inr (JObj (sp_metadata s))"
    using made by (intro decode_encode_json) blast
  ultimately show ?thesis
    using made by (simp add: doc decode_with_migration_def read_version_def decode_fields_def decode_object_def
        make_session_snapshot_def min_schema_version_def schema_version_def del: encode_json.simps)
qed

end
