(* ===== verification/SessionRepo.thy ===== *)
theory SessionRepo
  imports SessionRound
begin

text \<open>
  The snapshot repositories (\<open>roboagent/agent/persistence.py\<close>). A repository keeps one document per
  session and replaces it only when the caller names the revision it has (compare and swap).
  \<open>InMemorySessionRepository\<close> is a dictionary; \<open>LocalSessionRepository\<close> is a directory whose every
  call can fail. Both hold their lock for the whole of an operation, so an operation is one function. The
  locale \<open>snapshot_store\<close> is the contract both keep; a failed save may have been carried out, as when the
  directory cannot be synced after the file was replaced, but then it is carried out whole.
\<close>

definition check_cas :: "nat option \<Rightarrow> nat option \<Rightarrow> nat \<Rightarrow> store_error + unit" where
  "check_cas current expected new =
     raise_if (current \<noteq> expected \<or> (case current of None \<Rightarrow> False | Some n \<Rightarrow> new \<le> n)) (ConflictError ''Stale Session writer.'')"

definition check_loaded :: "session_snapshot \<Rightarrow> pystr \<Rightarrow> store_error + session_snapshot option" where
  "check_loaded s i = (if sp_session s \<noteq> i
     then Inl (CorruptedError ''Snapshot session ID does not match its repository key.'') else Inr (Some s))"

text \<open>The operations as the session sees them.\<close>

record 'r repository =
  rp_load :: "pystr \<Rightarrow> 'r \<Rightarrow> (store_error + session_snapshot option) \<times> 'r"
  rp_save :: "session_snapshot \<Rightarrow> nat option \<Rightarrow> 'r \<Rightarrow> (store_error + nat) \<times> 'r"
  rp_delete :: "pystr \<Rightarrow> nat \<Rightarrow> 'r \<Rightarrow> (store_error + unit) \<times> 'r"

section \<open>The repository in memory\<close>

type_synonym records = "(pystr, json) dict"

definition current_revision :: "snapshot_codec \<Rightarrow> (nat \<Rightarrow> pystr) \<Rightarrow> json option \<Rightarrow> store_error + nat option" where
  "current_revision cx fresh data = (case data of None \<Rightarrow> Inr None
     | Some doc \<Rightarrow> bind_res (decode_snapshot cx fresh (thaw_json doc)) (\<lambda>s. Inr (Some (sp_revision s))))"

definition mem_load :: "snapshot_codec \<Rightarrow> (nat \<Rightarrow> pystr) \<Rightarrow> pystr \<Rightarrow> records \<Rightarrow> (store_error + session_snapshot option) \<times> records" where
  "mem_load cx fresh i r = (case dget r i of
       None \<Rightarrow> (Inr None, r)
     | Some doc \<Rightarrow>
         (case decode_snapshot cx fresh (thaw_json doc) of
            Inl e \<Rightarrow> (Inl e, r)
          | Inr s \<Rightarrow>
              (case needs_migration (thaw_json doc) of
                 Inl e \<Rightarrow> (Inl e, r)
               | Inr False \<Rightarrow> (check_loaded s i, r)
               | Inr True \<Rightarrow>
                   (case encode_snapshot cx s of
                      Inl e \<Rightarrow> (Inl e, r)
                    | Inr d \<Rightarrow> (check_loaded s i, dset i d r)))))"

definition mem_save :: "snapshot_codec \<Rightarrow> (nat \<Rightarrow> pystr) \<Rightarrow> session_snapshot \<Rightarrow> nat option \<Rightarrow> records \<Rightarrow> (store_error + nat) \<times> records" where
  "mem_save cx fresh s expected r =
     (case bind_res (encode_snapshot cx s) (\<lambda>doc.
        bind_res (current_revision cx fresh (dget r (sp_session s))) (\<lambda>current.
        bind_res (check_cas current expected (sp_revision s)) (\<lambda>_. Inr doc))) of
        Inl e \<Rightarrow> (Inl e, r)
      | Inr doc \<Rightarrow> (Inr (sp_revision s), dset (sp_session s) doc r))"

definition mem_delete :: "snapshot_codec \<Rightarrow> (nat \<Rightarrow> pystr) \<Rightarrow> pystr \<Rightarrow> nat \<Rightarrow> records \<Rightarrow> (store_error + unit) \<times> records" where
  "mem_delete cx fresh i expected r =
     (case current_revision cx fresh (dget r i) of
        Inl e \<Rightarrow> (Inl e, r)
      | Inr current \<Rightarrow>
          if current \<noteq> Some expected then (Inl (ConflictError ''Stale Session delete.''), r)
          else (Inr (), AList.delete i r))"

definition memory_repository :: "snapshot_codec \<Rightarrow> (nat \<Rightarrow> pystr) \<Rightarrow> records repository" where
  "memory_repository cx fresh = \<lparr>rp_load = mem_load cx fresh, rp_save = mem_save cx fresh, rp_delete = mem_delete cx fresh\<rparr>"

section \<open>The repository in a directory\<close>

text \<open>A file that was created and not yet written holds no document. A fault makes the next call fail.\<close>

record local_dir =
  ld_files :: "(pystr, json option) dict"
  ld_faults :: "bool list"

definition dir_call :: "((pystr, json option) dict \<Rightarrow> (pystr, json option) dict) \<Rightarrow> local_dir \<Rightarrow> bool \<times> local_dir" where
  "dir_call act d = (case ld_faults d of
       [] \<Rightarrow> (True, d\<lparr>ld_files := act (ld_files d)\<rparr>)
     | True # fs \<Rightarrow> (False, d\<lparr>ld_faults := fs\<rparr>)
     | False # fs \<Rightarrow> (True, \<lparr>ld_files = act (ld_files d), ld_faults = fs\<rparr>))"

text \<open>\<open>[A-Za-z0-9_.-]{1,128}\<close>, fully matched.\<close>

definition local_id_ok :: "pystr \<Rightarrow> bool" where
  "local_id_ok s \<longleftrightarrow> 1 \<le> length s \<and> length s \<le> 128
     \<and> list_all (\<lambda>c. (65 \<le> c \<and> c \<le> 90) \<or> (97 \<le> c \<and> c \<le> 122) \<or> (48 \<le> c \<and> c \<le> 57) \<or> c \<in> {95, 46, 45}) s"

definition target_name :: "pystr \<Rightarrow> pystr" where
  "target_name i = i @ ascii ''.json''"

text \<open>A name no file has, as \<open>mkstemp\<close> finds one.\<close>

definition temp_file :: "pystr \<Rightarrow> (pystr, json option) dict \<Rightarrow> pystr" where
  "temp_file i files = ascii ''.'' @ i @ ascii ''.'' @ replicate (sum_list (map (length \<circ> fst) files)) 95 @ ascii ''.tmp''"

text \<open>The calls of a sequence up to the first that fails.\<close>

fun dir_calls :: "((pystr, json option) dict \<Rightarrow> (pystr, json option) dict) list \<Rightarrow> local_dir \<Rightarrow> bool \<times> local_dir" where
  "dir_calls [] d = (True, d)"
| "dir_calls (act # acts) d = (case dir_call act d of (False, d1) \<Rightarrow> (False, d1) | (True, d1) \<Rightarrow> dir_calls acts d1)"

definition rename_file :: "pystr \<Rightarrow> pystr \<Rightarrow> (pystr, json option) dict \<Rightarrow> (pystr, json option) dict" where
  "rename_file a b files = (case dget files a of None \<Rightarrow> files | Some c \<Rightarrow> dset b c (AList.delete a files))"

definition write_atomic :: "pystr \<Rightarrow> json \<Rightarrow> local_dir \<Rightarrow> bool \<times> local_dir" where
  "write_atomic i doc d =
     (let temp = temp_file i (ld_files d) in
      case dir_call (dset temp None) d of
        (False, d1) \<Rightarrow> (False, d1)
      | (True, d1) \<Rightarrow>
          (case dir_calls [dset temp (Some doc), \<lambda>files. files, rename_file temp (target_name i), \<lambda>files. files] d1 of
             (ok, d2) \<Rightarrow> (case dir_call (AList.delete temp) d2 of (ok1, d3) \<Rightarrow> (ok \<and> ok1, d3))))"

text \<open>\<open>target.exists()\<close> and \<open>read_bytes\<close>; an unwritten file is not JSON.\<close>

definition read_target :: "pystr \<Rightarrow> local_dir \<Rightarrow> (store_error + json option) \<times> local_dir" where
  "read_target i d = (case dir_call (\<lambda>files. files) d of
       (False, d1) \<Rightarrow> (Inl Raised, d1)
     | (True, d1) \<Rightarrow>
         (case dget (ld_files d1) (target_name i) of
            None \<Rightarrow> (Inr None, d1)
          | Some c \<Rightarrow>
              (case dir_call (\<lambda>files. files) d1 of
                 (False, d2) \<Rightarrow> (Inl Raised, d2)
               | (True, d2) \<Rightarrow> (case c of None \<Rightarrow> (Inl (CorruptedError ''Snapshot is not valid JSON.''), d2)
                   | Some doc \<Rightarrow> (Inr (Some doc), d2)))))"

definition invalid_id :: "store_error" where
  "invalid_id = PersistenceError ''Invalid session ID for local repository.''"

text \<open>The second reading of \<open>_load\<close>, under the exclusive lock.\<close>

definition migrate_target :: "snapshot_codec \<Rightarrow> (nat \<Rightarrow> pystr) \<Rightarrow> pystr \<Rightarrow> local_dir \<Rightarrow> (store_error + session_snapshot option) \<times> local_dir" where
  "migrate_target cx fresh i d = (case read_target i d of
       (Inl e, d1) \<Rightarrow> (Inl e, d1)
     | (Inr None, d1) \<Rightarrow> (Inr None, d1)
     | (Inr (Some doc), d1) \<Rightarrow>
         (case bind_res (decode_snapshot cx fresh (thaw_json doc)) (\<lambda>s. bind_res (check_loaded s i) (\<lambda>_.
            bind_res (needs_migration (thaw_json doc)) (\<lambda>old. Inr (s, old)))) of
            Inl e \<Rightarrow> (Inl e, d1)
          | Inr (s, False) \<Rightarrow> (Inr (Some s), d1)
          | Inr (s, True) \<Rightarrow>
              (case encode_snapshot cx s of
                 Inl e \<Rightarrow> (Inl e, d1)
               | Inr new \<Rightarrow> (case write_atomic i new d1 of
                   (False, d2) \<Rightarrow> (Inl Raised, d2) | (True, d2) \<Rightarrow> (Inr (Some s), d2)))))"

definition local_load :: "snapshot_codec \<Rightarrow> (nat \<Rightarrow> pystr) \<Rightarrow> pystr \<Rightarrow> local_dir \<Rightarrow> (store_error + session_snapshot option) \<times> local_dir" where
  "local_load cx fresh i d =
     (if \<not> local_id_ok i then (Inl invalid_id, d)
      else case read_target i d of
          (Inl e, d1) \<Rightarrow> (Inl e, d1)
        | (Inr None, d1) \<Rightarrow> (Inr None, d1)
        | (Inr (Some doc), d1) \<Rightarrow>
            (case needs_migration (thaw_json doc) of
               Inl e \<Rightarrow> (Inl e, d1)
             | Inr True \<Rightarrow> migrate_target cx fresh i d1
             | Inr False \<Rightarrow> (bind_res (decode_snapshot cx fresh (thaw_json doc)) (\<lambda>s. check_loaded s i), d1)))"

definition local_save :: "snapshot_codec \<Rightarrow> (nat \<Rightarrow> pystr) \<Rightarrow> session_snapshot \<Rightarrow> nat option \<Rightarrow> local_dir \<Rightarrow> (store_error + nat) \<times> local_dir" where
  "local_save cx fresh s expected d =
     (if \<not> local_id_ok (sp_session s) then (Inl invalid_id, d)
      else case encode_snapshot cx s of
          Inl e \<Rightarrow> (Inl e, d)
        | Inr doc \<Rightarrow>
            (case read_target (sp_session s) d of
               (Inl e, d1) \<Rightarrow> (Inl e, d1)
             | (Inr data, d1) \<Rightarrow>
                 (case bind_res (current_revision cx fresh data) (\<lambda>current. check_cas current expected (sp_revision s)) of
                    Inl e \<Rightarrow> (Inl e, d1)
                  | Inr _ \<Rightarrow> (case write_atomic (sp_session s) doc d1 of
                      (False, d2) \<Rightarrow> (Inl Raised, d2) | (True, d2) \<Rightarrow> (Inr (sp_revision s), d2)))))"

definition local_delete :: "snapshot_codec \<Rightarrow> (nat \<Rightarrow> pystr) \<Rightarrow> pystr \<Rightarrow> nat \<Rightarrow> local_dir \<Rightarrow> (store_error + unit) \<times> local_dir" where
  "local_delete cx fresh i expected d =
     (if \<not> local_id_ok i then (Inl invalid_id, d)
      else case read_target i d of
          (Inl e, d1) \<Rightarrow> (Inl e, d1)
        | (Inr data, d1) \<Rightarrow>
            (case current_revision cx fresh data of
               Inl e \<Rightarrow> (Inl e, d1)
             | Inr current \<Rightarrow>
                 if current \<noteq> Some expected then (Inl (ConflictError ''Stale Session delete.''), d1)
                 else (case dir_calls [AList.delete (target_name i), \<lambda>files. files] d1 of
                     (False, d2) \<Rightarrow> (Inl Raised, d2) | (True, d2) \<Rightarrow> (Inr (), d2))))"

definition local_repository :: "snapshot_codec \<Rightarrow> (nat \<Rightarrow> pystr) \<Rightarrow> local_dir repository" where
  "local_repository cx fresh = \<lparr>rp_load = local_load cx fresh, rp_save = local_save cx fresh, rp_delete = local_delete cx fresh\<rparr>"

end
