(* ===== verification/SessionStore.thy ===== *)
theory SessionStore
  imports SessionRepo
begin

text \<open>
  The contract of a snapshot repository and its two providers. \<open>view\<close> is the abstract content: which
  snapshot is stored for which session. A save is a compare and swap on it.
\<close>

definition swap_allowed :: "session_snapshot option \<Rightarrow> nat option \<Rightarrow> session_snapshot \<Rightarrow> bool" where
  "swap_allowed old expected s \<longleftrightarrow> map_option sp_revision old = expected
     \<and> (case expected of None \<Rightarrow> True | Some n \<Rightarrow> n < sp_revision s)"

locale snapshot_store =
  fixes rp :: "'r repository" and cx :: snapshot_codec and ok :: "'r \<Rightarrow> bool"
    and view :: "'r \<Rightarrow> pystr \<Rightarrow> session_snapshot option"
  assumes view_made: "ok r \<Longrightarrow> view r i = Some s \<Longrightarrow> snapshot_made cx s \<and> sp_session s = i"
    and load_ok: "ok r \<Longrightarrow> rp_load rp i r = (loaded, r') \<Longrightarrow> ok r' \<and> view r' = view r"
    and load_value: "ok r \<Longrightarrow> rp_load rp i r = (Inr found, r') \<Longrightarrow> found = view r i"
    and save_ok: "ok r \<Longrightarrow> snapshot_made cx s \<Longrightarrow> rp_save rp s expected r = (saved, r') \<Longrightarrow> ok r' \<and> (view r' = view r
       \<or> swap_allowed (view r (sp_session s)) expected s \<and> view r' = (view r)(sp_session s := Some s))"
    and save_value: "ok r \<Longrightarrow> snapshot_made cx s \<Longrightarrow> rp_save rp s expected r = (Inr n, r') \<Longrightarrow> n = sp_revision s
       \<and> swap_allowed (view r (sp_session s)) expected s \<and> view r' = (view r)(sp_session s := Some s)"
    and delete_ok: "ok r \<Longrightarrow> rp_delete rp i n r = (deleted, r') \<Longrightarrow> ok r' \<and> (view r' = view r
       \<or> map_option sp_revision (view r i) = Some n \<and> view r' = (view r)(i := None))"
    and delete_value: "ok r \<Longrightarrow> rp_delete rp i n r = (Inr u, r') \<Longrightarrow>
       map_option sp_revision (view r i) = Some n \<and> view r' = (view r)(i := None)"

section \<open>Written documents\<close>

definition written :: "snapshot_codec \<Rightarrow> pystr \<Rightarrow> json \<Rightarrow> bool" where
  "written cx i doc \<longleftrightarrow> (\<exists>s. sp_session s = i \<and> snapshot_made cx s \<and> encode_snapshot cx s = Inr doc)"

definition reading :: "snapshot_codec \<Rightarrow> json \<Rightarrow> session_snapshot option" where
  "reading cx doc = (case decode_snapshot cx (\<lambda>_. []) (thaw_json doc) of Inl _ \<Rightarrow> None | Inr s \<Rightarrow> Some s)"

lemma decode_written: "snapshot_made cx s \<Longrightarrow> encode_snapshot cx s = Inr doc \<Longrightarrow> decode_snapshot cx fresh (thaw_json doc) = Inr s"
  by (simp add: decode_snapshot_def decode_snapshot_encoded)

lemma reading_written: "snapshot_made cx s \<Longrightarrow> encode_snapshot cx s = Inr doc \<Longrightarrow> reading cx doc = Some s"
  by (simp add: reading_def decode_written)

lemma written_cases:
  assumes "written cx i doc"
  obtains s where "sp_session s = i" "snapshot_made cx s" "reading cx doc = Some s" "\<And>fresh. decode_snapshot cx fresh (thaw_json doc) = Inr s"
    "needs_migration (thaw_json doc) = Inr False" "check_loaded s i = Inr (Some s)"
    "\<And>fresh. current_revision cx fresh (Some doc) = Inr (Some (sp_revision s))"
proof -
  from assms obtain s where s: "sp_session s = i" "snapshot_made cx s" "encode_snapshot cx s = Inr doc"
    by (auto simp: written_def)
  from s(3) have "\<exists>ms ps. doc = J_record [(''schema_version'', JInt (int (sp_schema s))), (''session_id'', JStr (sp_session s)),
           (''revision'', JInt (int (sp_revision s))), (''last_pending_sequence'', JInt (int (sp_last_sequence s))),
           (''messages'', JArr ms), (''pending'', JArr ps), (''compaction'', encode_summary (sp_compaction s)),
           (''metadata'', encode_json (JObj (sp_metadata s)))]"
    by (auto simp: encode_snapshot_def bind_res_Inr_iff Let_def split: if_splits)
  then have "needs_migration (thaw_json doc) = Inr False"
    using s(2) by (auto simp: needs_migration_def snapshot_made_def)
  with s show thesis by (intro that [of s])
    (simp_all add: reading_written decode_written check_loaded_def current_revision_def)
qed

lemma check_cas_Inr: "check_cas current expected new = Inr u \<longleftrightarrow> current = expected \<and> (case expected of None \<Rightarrow> True | Some n \<Rightarrow> n < new)"
  by (auto simp: check_cas_def res_simps split: option.splits)

section \<open>The repository in memory keeps the contract\<close>

definition mem_ok :: "snapshot_codec \<Rightarrow> records \<Rightarrow> bool" where
  "mem_ok cx r \<longleftrightarrow> dict_ok r \<and> (\<forall>i doc. dget r i = Some doc \<longrightarrow> written cx i doc)"

definition mem_view :: "snapshot_codec \<Rightarrow> records \<Rightarrow> pystr \<Rightarrow> session_snapshot option" where
  "mem_view cx r i = Option.bind (dget r i) (reading cx)"

lemma mem_okD: "mem_ok cx r \<Longrightarrow> dget r i = Some doc \<Longrightarrow> written cx i doc"
  by (simp add: mem_ok_def)

lemma mem_current: "mem_ok cx r \<Longrightarrow> current_revision cx fresh (dget r i) = Inr (map_option sp_revision (mem_view cx r i))"
proof (cases "dget r i")
  case (Some doc)
  assume "mem_ok cx r"
  from mem_okD [OF this Some] Some show ?thesis by (elim written_cases) (simp add: mem_view_def)
qed (simp add: current_revision_def mem_view_def)

lemma mem_load_eq: "mem_ok cx r \<Longrightarrow> mem_load cx fresh i r = (Inr (mem_view cx r i), r)"
proof (cases "dget r i")
  case (Some doc)
  assume "mem_ok cx r"
  from mem_okD [OF this Some] Some show ?thesis by (elim written_cases) (simp add: mem_view_def mem_load_def)
qed (simp add: mem_load_def mem_view_def)

lemma mem_save_swap:
  assumes ok: "mem_ok cx r" and s: "snapshot_made cx s" and sv: "mem_save cx fresh s expected r = (Inr n, r')"
  shows "n = sp_revision s \<and> swap_allowed (mem_view cx r (sp_session s)) expected s
    \<and> mem_view cx r' = (mem_view cx r)(sp_session s := Some s) \<and> mem_ok cx r'"
proof -
  from sv obtain doc where doc: "encode_snapshot cx s = Inr doc" and n: "n = sp_revision s" "r' = dset (sp_session s) doc r"
    and c: "check_cas (map_option sp_revision (mem_view cx r (sp_session s))) expected (sp_revision s) = Inr ()"
    unfolding mem_save_def mem_current [OF ok] by (auto simp: res_simps split: sum.splits)
  have "mem_view cx r' = (mem_view cx r)(sp_session s := Some s)"
    by (rule ext) (simp add: mem_view_def n reading_written [OF s doc])
  moreover have "mem_ok cx r'" using ok s doc by (auto simp: mem_ok_def n written_def)
  ultimately show ?thesis using c n by (simp add: check_cas_Inr swap_allowed_def)
qed

lemma mem_save_fails: "mem_save cx fresh s expected r = (Inl e, r') \<Longrightarrow> r' = r"
  by (auto simp: mem_save_def split: sum.splits)

lemma dget_delete: "dget (AList.delete k d) j = (if j = k then None else dget d j)"
  by (simp add: delete_conv')

lemma dict_ok_delete: "dict_ok d \<Longrightarrow> dict_ok (AList.delete k d)"
  unfolding dict_ok_def by (rule distinct_delete)

lemma mem_delete_cases:
  assumes ok: "mem_ok cx r" and d: "mem_delete cx fresh i n r = (x, r')"
  shows "r' = r \<and> (\<forall>u. x \<noteq> Inr u) \<or> map_option sp_revision (mem_view cx r i) = Some n \<and> mem_view cx r' = (mem_view cx r)(i := None)
    \<and> mem_ok cx r'"
proof (cases "map_option sp_revision (mem_view cx r i) = Some n")
  case True
  with d have r': "r' = AList.delete i r" unfolding mem_delete_def mem_current [OF ok] by auto
  have "mem_view cx r' = (mem_view cx r)(i := None)" by (rule ext) (simp add: r' mem_view_def dget_delete)
  moreover have "mem_ok cx r'" using ok by (auto simp: mem_ok_def r' dget_delete dict_ok_delete)
  ultimately show ?thesis using True by blast
next
  case False
  with d show ?thesis unfolding mem_delete_def mem_current [OF ok] by auto
qed

lemma mem_view_made: "mem_ok cx r \<Longrightarrow> mem_view cx r i = Some s \<Longrightarrow> snapshot_made cx s \<and> sp_session s = i"
proof (cases "dget r i")
  case (Some doc)
  assume "mem_ok cx r" "mem_view cx r i = Some s"
  with mem_okD [OF this(1) Some] Some show ?thesis by (auto simp: mem_view_def elim: written_cases)
qed (simp add: mem_view_def)

interpretation memory: snapshot_store "memory_repository cx fresh" cx "mem_ok cx" "mem_view cx" for cx fresh
proof unfold_locales
  fix r i s
  assume "mem_ok cx r" "mem_view cx r i = Some s"
  then show "snapshot_made cx s \<and> sp_session s = i" by (rule mem_view_made)
next
  fix r s expected x r'
  assume "mem_ok cx r" "snapshot_made cx s" "rp_save (memory_repository cx fresh) s expected r = (x, r')"
  then show "mem_ok cx r' \<and> (mem_view cx r' = mem_view cx r
      \<or> swap_allowed (mem_view cx r (sp_session s)) expected s \<and> mem_view cx r' = (mem_view cx r)(sp_session s := Some s))"
    using mem_save_swap mem_save_fails by (cases x) (fastforce simp: memory_repository_def)+
next
  fix r i n x r'
  assume "mem_ok cx r" "rp_delete (memory_repository cx fresh) i n r = (x, r')"
  then show "mem_ok cx r' \<and> (mem_view cx r' = mem_view cx r
      \<or> map_option sp_revision (mem_view cx r i) = Some n \<and> mem_view cx r' = (mem_view cx r)(i := None))"
    using mem_delete_cases [of cx r fresh i n x r'] by (auto simp: memory_repository_def)
next
  fix r i n u r'
  assume "mem_ok cx r" "rp_delete (memory_repository cx fresh) i n r = (Inr u, r')"
  then show "map_option sp_revision (mem_view cx r i) = Some n \<and> mem_view cx r' = (mem_view cx r)(i := None)"
    using mem_delete_cases [of cx r fresh i n "Inr u" r'] by (auto simp: memory_repository_def)
qed (use mem_save_swap in \<open>auto simp: memory_repository_def mem_load_eq\<close>)

end
