(* ===== verification/SessionSteps.thy ===== *)
theory SessionSteps
  imports SessionState SessionStore "HOL-Library.Sublist"
begin

text \<open>
  Persistence of a session (\<open>agent/session.py\<close>, \<open>_persist_latest\<close>, \<open>delete\<close>, \<open>open\<close>) and
  its histories. The persist lock allows one save at a time; between capturing the snapshot, the save in the
  repository, and its return, the session goes on, and other handles save to the same repository.
\<close>

section \<open>Saving\<close>

text \<open>The first half of \<open>_persist_latest\<close>: the durable revision is new enough, or this is to be saved.\<close>

definition persist_begin :: "nat \<Rightarrow> session \<Rightarrow> (store_error + session_snapshot) option" where
  "persist_begin required s = (case ss_durable s of
       Some d \<Rightarrow> if required \<le> d then None else Some (take_session_snapshot s)
     | None \<Rightarrow> Some (take_session_snapshot s))"

fun storage_error :: "store_error \<Rightarrow> session_error" where
  "storage_error Raised = Storage (PersistenceError ''Session repository save failed.'')"
| "storage_error e = Storage e"

definition persist_finish :: "session_snapshot \<Rightarrow> store_error + nat \<Rightarrow> session \<Rightarrow> (session_error + nat) \<times> session" where
  "persist_finish sn result s = (case result of
       Inl e \<Rightarrow> (Inl (storage_error e), s)
     | Inr n \<Rightarrow>
         if n \<noteq> sp_revision sn
         then (Inl (Storage (PersistenceError ''Repository returned an unexpected revision.'')), s)
         else (Inr n, s\<lparr>ss_durable := Some n\<rparr>))"

text \<open>\<open>_persist_latest\<close> when nothing else happens meanwhile, and \<open>_persist_required\<close>.\<close>

definition persist_latest :: "'r repository option \<Rightarrow> nat \<Rightarrow> session \<Rightarrow> 'r \<Rightarrow> (session_error + nat) \<times> session \<times> 'r" where
  "persist_latest rp required s r = (case rp of
       None \<Rightarrow> (Inl (Storage (PersistenceError ''Session has no repository.'')), s, r)
     | Some ops \<Rightarrow>
         (case persist_begin required s of
            None \<Rightarrow> (Inr (or_else (ss_durable s) 0), s, r)
          | Some (Inl e) \<Rightarrow> (Inl (storage_error e), s, r)
          | Some (Inr sn) \<Rightarrow>
              (case rp_save ops sn (ss_durable s) r of (result, r1) \<Rightarrow>
               case persist_finish sn result s of (x, s1) \<Rightarrow> (x, s1, r1))))"

definition persist_required :: "'r repository option \<Rightarrow> nat \<Rightarrow> session \<Rightarrow> 'r \<Rightarrow> (session_error + unit) \<times> session \<times> 'r" where
  "persist_required rp revision s r = (case rp of
       None \<Rightarrow> (Inr (), s, r)
     | Some ops \<Rightarrow> (case persist_latest rp revision s r of (x, s1, r1) \<Rightarrow> (bind_res x (\<lambda>_. Inr ()), s1, r1)))"

definition delete_session :: "'r repository option \<Rightarrow> session \<Rightarrow> 'r \<Rightarrow> (session_error + unit) \<times> session \<times> 'r" where
  "delete_session rp s r =
     (let closing = s\<lparr>ss_closed := True\<rparr>;
          remove = (\<lambda>ops n r1. case rp_delete ops (ss_id s) n r1 of
              (Inl e, r2) \<Rightarrow> (Inl (Storage e), closing, r2)
            | (Inr _, r2) \<Rightarrow> (Inr (), closing\<lparr>ss_durable := None\<rparr>, r2))
      in if ss_active s \<noteq> None then (Inl SessionBusy, s, r)
      else case rp of None \<Rightarrow> (Inl (Storage (PersistenceError ''Session has no repository.'')), s, r)
        | Some ops \<Rightarrow>
            (case ss_durable s of
               Some n \<Rightarrow> remove ops n r
             | None \<Rightarrow>
                 (case rp_load ops (ss_id s) r of
                    (Inl e, r1) \<Rightarrow> (Inl (Storage e), s, r1)
                  | (Inr None, r1) \<Rightarrow> (Inr (), closing, r1)
                  | (Inr (Some sn), r1) \<Rightarrow> remove ops (sp_revision sn) r1)))"

definition open_session ::
  "'r repository \<Rightarrow> (message list \<Rightarrow> pystr option) \<Rightarrow> media_limits \<Rightarrow> pystr \<Rightarrow> 'r \<Rightarrow> (session_error + session) \<times> 'r" where
  "open_session ops digest limits i r =
     (if i = [] then (Inl InvalidArgument, r)
      else case rp_load ops i r of
          (Inl e, r1) \<Rightarrow> (Inl (Storage e), r1)
        | (Inr None, r1) \<Rightarrow> (Inl SessionNotFound, r1)
        | (Inr (Some sn), r1) \<Rightarrow> (restore_session digest limits sn, r1))"

section \<open>Steps\<close>

text \<open>
  The sections of the session, on values that the constructors of the program returned. A failing section
  leaves the session as it was, apart from \<open>start_run\<close>, which may have taken and returned it.
\<close>

inductive section_step :: "snapshot_codec \<Rightarrow> session \<Rightarrow> session \<Rightarrow> bool" for cx where
  sec_acquire: "acquire_run run s = Inr (u, s') \<Longrightarrow> section_step cx s s'"
| sec_release: "release_run run s = Inr (u, s') \<Longrightarrow> section_step cx s s'"
| sec_start: "start_run run m s = (x, s') \<Longrightarrow> section_step cx s s'"
| sec_enqueue: "fresh \<noteq> [] \<Longrightarrow> message_made cx m \<Longrightarrow> enqueue fresh kind m s = Inr (rc, s') \<Longrightarrow> section_step cx s s'"
| sec_consume: "consume_pending run c s = Inr (ps, s') \<Longrightarrow> section_step cx s s'"
| sec_initial: "\<forall>msg. m = Some msg \<longrightarrow> message_made cx msg \<Longrightarrow> commit_initial_input run m through c s = Inr (ps, s') \<Longrightarrow>
    section_step cx s s'"
| sec_clear: "clear_pending s = Inr (rcs, s') \<Longrightarrow> section_step cx s s'"
| sec_message: "message_made cx m \<Longrightarrow> commit_message run m s = Inr (u, s') \<Longrightarrow> section_step cx s s'"
| sec_exchange: "\<forall>msg \<in> set (m # results). message_made cx msg \<Longrightarrow> commit_exchange run m results s = Inr (u, s') \<Longrightarrow>
    section_step cx s s'"
| sec_compaction: "\<forall>c. summary = Some c \<longrightarrow> summary_made c \<Longrightarrow> commit_compaction run summary expected s = Inr (b, s') \<Longrightarrow>
    section_step cx s s'"
| sec_metadata: "json_ok (JObj value) \<Longrightarrow> set_metadata value s = Inr (b, s') \<Longrightarrow> section_step cx s s'"
| sec_close: "close_session s = Inr (rcs, s') \<Longrightarrow> section_step cx s s'"

datatype flight = Idle | Saving session_snapshot "nat option" | Saved session_snapshot "store_error + nat"

record 'r session_config =
  cg_session :: session
  cg_store :: 'r
  cg_flight :: flight

inductive session_step :: "snapshot_codec \<Rightarrow> 'r repository \<Rightarrow> 'r session_config \<Rightarrow> 'r session_config \<Rightarrow> bool" for cx rp where
  st_section: "section_step cx (cg_session c) s' \<Longrightarrow> session_step cx rp c (c\<lparr>cg_session := s'\<rparr>)"
| st_begin: "cg_flight c = Idle \<Longrightarrow> required \<le> ss_revision (cg_session c) \<Longrightarrow>
    persist_begin required (cg_session c) = Some (Inr sn) \<Longrightarrow>
    session_step cx rp c (c\<lparr>cg_flight := Saving sn (ss_durable (cg_session c))\<rparr>)"
| st_save: "cg_flight c = Saving sn expected \<Longrightarrow> rp_save rp sn expected (cg_store c) = (x, r') \<Longrightarrow>
    session_step cx rp c (c\<lparr>cg_store := r', cg_flight := Saved sn x\<rparr>)"
| st_finish: "cg_flight c = Saved sn x \<Longrightarrow> persist_finish sn x (cg_session c) = (y, s') \<Longrightarrow>
    session_step cx rp c (c\<lparr>cg_session := s', cg_flight := Idle\<rparr>)"
| st_other_save: "snapshot_made cx sn \<Longrightarrow> rp_save rp sn expected (cg_store c) = (z, r') \<Longrightarrow>
    session_step cx rp c (c\<lparr>cg_store := r'\<rparr>)"
| st_other_load: "rp_load rp i (cg_store c) = (w, r') \<Longrightarrow> session_step cx rp c (c\<lparr>cg_store := r'\<rparr>)"

text \<open>A history starts with a new session, or with one restored from what the repository holds.\<close>

inductive session_start :: "snapshot_codec \<Rightarrow> 'r repository \<Rightarrow> 'r \<Rightarrow> 'r session_config \<Rightarrow> bool" for cx rp r0 where
  start_new: "new_session limits fresh ms sid metadata = Inr s \<Longrightarrow> fresh \<noteq> [] \<Longrightarrow> \<forall>m \<in> set ms. message_made cx m \<Longrightarrow>
    json_ok (JObj metadata) \<Longrightarrow> session_start cx rp r0 \<lparr>cg_session = s, cg_store = r0, cg_flight = Idle\<rparr>"
| start_open: "open_session rp digest limits i r0 = (Inr s, r1) \<Longrightarrow>
    session_start cx rp r0 \<lparr>cg_session = s, cg_store = r1, cg_flight = Idle\<rparr>"

inductive session_run :: "snapshot_codec \<Rightarrow> 'r repository \<Rightarrow> 'r \<Rightarrow> 'r session_config \<Rightarrow> bool" for cx rp r0 where
  run_start: "session_start cx rp r0 c \<Longrightarrow> session_run cx rp r0 c"
| run_step: "session_run cx rp r0 c \<Longrightarrow> session_step cx rp c c' \<Longrightarrow> session_run cx rp r0 c'"

end
