(* ===== verification/SessionKeep.thy ===== *)
theory SessionKeep
  imports SessionSteps
begin

text \<open>
  What every section of a session keeps: its transcript is complete and only grows, its pending input is
  numbered upwards, and a section that changes what a snapshot holds gives the session a new revision.
\<close>

lemma increasing_iff [simp]: "increasing ns \<longleftrightarrow> sorted_wrt (<) ns"
  by (induction ns rule: increasing.induct) (simp_all add: sorted_wrt2 sorted_wrt1 del: sorted_wrt.simps(2))

definition sequences :: "pending_input list \<Rightarrow> nat list" where
  "sequences ps = map (ir_sequence \<circ> pi_receipt) ps"

definition pending_ok :: "snapshot_codec \<Rightarrow> pystr \<Rightarrow> nat \<Rightarrow> pending_input list \<Rightarrow> bool" where
  "pending_ok cx i n ps \<longleftrightarrow> sorted_wrt (<) (sequences ps)
     \<and> (\<forall>p \<in> set ps. pending_made cx p \<and> ir_session (pi_receipt p) = i \<and> ir_sequence (pi_receipt p) \<le> n)"

definition session_ok :: "snapshot_codec \<Rightarrow> session \<Rightarrow> bool" where
  "session_ok cx s \<longleftrightarrow> ss_id s \<noteq> [] \<and> transcript_ok (ss_limits s) (ss_messages s)
     \<and> (\<forall>m \<in> set (ss_messages s). message_made cx m) \<and> pending_ok cx (ss_id s) (ss_sequence s) (ss_pending s)
     \<and> (\<forall>c. ss_compaction s = Some c \<longrightarrow> summary_made c) \<and> json_ok (JObj (ss_metadata s))"

lemma check_transcript_iff: "check_transcript limits ms = Inr u \<longleftrightarrow> transcript_ok limits ms"
  using validate_iff [of limits ms] by (cases "validate limits True ms") (auto simp: check_transcript_def)

lemma owned_iff: "owned run s = Inr u \<longleftrightarrow> ss_active s = Some run"
  by (auto simp: owned_def raise_if_Inr_iff)

lemma append_block_iff:
  "append_block block s = Inr s' \<longleftrightarrow> transcript_ok (ss_limits s) (ss_messages s @ block)
     \<and> s' = bump (s\<lparr>ss_messages := ss_messages s @ block\<rparr>)"
  by (auto simp: append_block_def bind_res_Inr_iff check_transcript_iff)

section \<open>The image of a session in its snapshot\<close>

definition image_of :: "session \<Rightarrow> session_snapshot" where
  "image_of s = \<lparr>sp_schema = schema_version, sp_session = ss_id s, sp_revision = ss_revision s,
     sp_last_sequence = ss_sequence s, sp_messages = ss_messages s, sp_pending = ss_pending s,
     sp_compaction = ss_compaction s, sp_metadata = ss_metadata s\<rparr>"

lemma take_session_snapshot_eq: "ss_id s \<noteq> [] \<Longrightarrow> take_session_snapshot s = Inr (image_of s)"
  by (simp add: take_session_snapshot_def make_session_snapshot_def image_of_def schema_version_def)

lemma image_made: "session_ok cx s \<Longrightarrow> snapshot_made cx (image_of s)"
  by (simp add: session_ok_def snapshot_made_def image_of_def pending_ok_def)

text \<open>What one step may do to the parts of a session that are saved.\<close>

definition grows :: "session \<Rightarrow> session \<Rightarrow> bool" where
  "grows s t \<longleftrightarrow> ss_id t = ss_id s \<and> ss_limits t = ss_limits s \<and> prefix (ss_messages s) (ss_messages t)
     \<and> ss_sequence s \<le> ss_sequence t \<and> (image_of t = image_of s \<or> ss_revision s < ss_revision t)"

lemma grows_refl [intro]: "image_of t = image_of s \<Longrightarrow> ss_limits t = ss_limits s \<Longrightarrow> grows s t"
  by (simp add: grows_def image_of_def)

lemma grows_revision: "grows s t \<Longrightarrow> ss_revision s \<le> ss_revision t"
  by (auto simp: grows_def image_of_def)

lemma pending_ok_filter: "pending_ok cx i n (ps @ qs) \<Longrightarrow> pending_ok cx i n qs"
  by (auto simp: pending_ok_def sequences_def sorted_wrt_append)

lemma pending_messages_made:
  "pending_ok cx i n ps \<Longrightarrow> m \<in> set (map pi_message ps) \<Longrightarrow> message_made cx m"
  by (auto simp: pending_ok_def pending_made_def)

lemma session_ok_append:
  assumes "session_ok cx s" "append_block block s = Inr t" "\<forall>m \<in> set block. message_made cx m"
  shows "session_ok cx t \<and> grows s t \<and> ss_durable t = ss_durable s"
  using assms by (auto simp: append_block_iff session_ok_def bump_def grows_def)

lemma session_ok_drop_pending:
  assumes "session_ok cx s" "ss_pending s = ps @ qs"
  shows "session_ok cx (s\<lparr>ss_pending := qs\<rparr>)"
  using assms pending_ok_filter [of cx "ss_id s" "ss_sequence s" ps qs] by (simp add: session_ok_def)

text \<open>Dropping pending input after an extension: the revision has already moved.\<close>

lemma append_and_drop:
  assumes ok: "session_ok cx s" and e: "append_block block s = Inr t" and b: "\<forall>m \<in> set block. message_made cx m"
    and p: "ss_pending s = ps @ qs"
  shows "session_ok cx (t\<lparr>ss_pending := qs\<rparr>) \<and> grows s (t\<lparr>ss_pending := qs\<rparr>) \<and> ss_durable (t\<lparr>ss_pending := qs\<rparr>) = ss_durable s"
proof -
  have "ss_pending t = ps @ qs" using e p by (simp add: append_block_iff bump_def)
  with session_ok_append [OF ok e b] have "session_ok cx (t\<lparr>ss_pending := qs\<rparr>)" by (blast intro: session_ok_drop_pending)
  then show ?thesis using e by (auto simp: append_block_iff bump_def grows_def)
qed

section \<open>Every section\<close>

lemma enqueue_keeps:
  assumes ok: "session_ok cx s" and m: "fresh \<noteq> []" "message_made cx m" and e: "enqueue fresh kind m s = Inr (r, t)"
  shows "session_ok cx t \<and> grows s t \<and> ss_durable t = ss_durable s"
proof -
  let ?r = "\<lparr>ir_id = fresh, ir_sequence = ss_sequence s + 1, ir_session = ss_id s\<rparr>"
  from e have u: "is_UserMessage m" and t: "t = bump (s\<lparr>ss_sequence := ss_sequence s + 1,
      ss_pending := ss_pending s @ [\<lparr>pi_receipt = ?r, pi_message = m, pi_kind = kind\<rparr>]\<rparr>)"
    by (auto simp: enqueue_def Let_def split: if_splits)
  have "pending_ok cx (ss_id s) (ss_sequence s + 1) (ss_pending s @ [\<lparr>pi_receipt = ?r, pi_message = m, pi_kind = kind\<rparr>])"
    using ok m u by (auto simp: session_ok_def pending_ok_def sequences_def sorted_wrt_append pending_made_def less_Suc_eq_le)
  with ok show ?thesis by (simp add: t bump_def session_ok_def grows_def)
qed

lemma section_keeps:
  "section_step cx s t \<Longrightarrow> session_ok cx s \<Longrightarrow> session_ok cx t \<and> grows s t \<and> ss_durable t = ss_durable s"
proof (induction rule: section_step.induct)
  case (sec_start run m s x t)
  then have "t = s \<or> t = s\<lparr>ss_active := Some run\<rparr> \<or> t = s\<lparr>ss_active := None\<rparr>"
    by (auto simp: start_run_def acquire_run_def release_run_def split: if_splits option.splits sum.splits)
  with sec_start.prems show ?case by (auto simp: session_ok_def image_of_def)
next
  case (sec_enqueue fresh m kind s rc t)
  then show ?case using enqueue_keeps by blast
next
  case (sec_consume run c s ps t)
  show ?case
  proof (cases "ss_pending s = []")
    case True
    with sec_consume show ?thesis by (auto simp: consume_pending_def res_simps)
  next
    case False
    with sec_consume.hyps obtain s1 where e: "append_block (map pi_message (ss_pending s)) s = Inr s1" and t: "t = s1\<lparr>ss_pending := []\<rparr>"
      by (auto simp: consume_pending_def res_simps)
    have "\<forall>m \<in> set (map pi_message (ss_pending s)). message_made cx m"
      using sec_consume.prems pending_messages_made unfolding session_ok_def by blast
    from append_and_drop [OF sec_consume.prems e this, of "ss_pending s" "[]"] show ?thesis by (simp add: t)
  qed
next
  case (sec_initial m run through c s ps t)
  let ?due = "takeWhile (\<lambda>p. ir_sequence (pi_receipt p) \<le> through) (ss_pending s)"
  let ?block = "map pi_message ?due @ (case m of None \<Rightarrow> [] | Some msg \<Rightarrow> [msg])"
  show ?case
  proof (cases "?block = []")
    case True
    with sec_initial show ?thesis by (auto simp: commit_initial_input_def Let_def res_simps)
  next
    case False
    with sec_initial.hyps obtain s1 where e: "append_block ?block s = Inr s1" and t: "t = s1\<lparr>ss_pending := drop (length ?due) (ss_pending s)\<rparr>"
      by (auto simp: commit_initial_input_def Let_def res_simps simp del: map_is_Nil_conv append_is_Nil_conv)
    have "\<forall>msg \<in> set ?block. message_made cx msg"
      using sec_initial pending_messages_made [of cx "ss_id s" "ss_sequence s" "ss_pending s"]
      by (auto simp: session_ok_def dest: set_takeWhileD split: option.splits)
    moreover have "ss_pending s = ?due @ drop (length ?due) (ss_pending s)"
      by (metis append_take_drop_id takeWhile_eq_take)
    ultimately show ?thesis using append_and_drop [OF sec_initial.prems e] by (simp add: t)
  qed
next
  case (sec_message m run s u t)
  then show ?case using session_ok_append [of cx s "[m]" t] by (auto simp: commit_message_def res_simps)
next
  case (sec_exchange m results run s u t)
  then show ?case using session_ok_append [of cx s "m # results" t] by (auto simp: commit_exchange_def res_simps)
next
  case (sec_clear s rcs t)
  then show ?case using session_ok_drop_pending [of cx s "ss_pending s" "[]"]
    by (auto simp: clear_pending_def bump_def session_ok_def grows_def image_of_def pending_ok_def sequences_def split: if_splits)
next
  case (sec_compaction summary run expected s b t)
  then show ?case
    by (auto simp: commit_compaction_def res_simps bump_def session_ok_def grows_def split: if_splits)
next
  case (sec_metadata v s b t)
  then show ?case by (auto simp: set_metadata_def bump_def session_ok_def grows_def split: if_splits)
qed (auto simp: acquire_run_def release_run_def close_session_def session_ok_def image_of_def split: if_splits)

end
