(* ===== verification/SessionLocal.thy ===== *)
theory SessionLocal
  imports SessionStore
begin

text \<open>
  The directory keeps the contract of a repository whatever calls fail: every write goes to a file of its
  own first and takes the place of the document in one call.
\<close>

section \<open>Names\<close>

lemma target_name_eq [simp]: "target_name i = target_name j \<longleftrightarrow> i = j"
  by (simp add: target_name_def)

lemma temp_not_target [simp]: "temp_file i files \<noteq> target_name j"
proof
  assume "temp_file i files = target_name j"
  then have "last (temp_file i files) = last (target_name j)" by simp
  then show False by (simp add: temp_file_def target_name_def ascii_def)
qed

lemma target_name_not_temp [simp]: "target_name j \<noteq> temp_file i files"
  using temp_not_target by metis

section \<open>Calls\<close>

definition targets :: "local_dir \<Rightarrow> pystr \<Rightarrow> json option option" where
  "targets d i = dget (ld_files d) (target_name i)"

lemma dir_call_files: "dir_call act d = (b, d') \<Longrightarrow> ld_files d' = (if b then act (ld_files d) else ld_files d)"
  by (auto simp: dir_call_def split: list.splits bool.splits)

lemma read_target_value:
  assumes "read_target i d = (x, d')"
  shows "targets d' = targets d" "x = Inr data \<Longrightarrow> targets d i = map_option Some data"
  using assms by (auto simp: read_target_def targets_def fun_eq_iff dest!: dir_call_files split: prod.splits bool.splits option.splits)

lemma write_atomic_targets:
  assumes w: "write_atomic i doc d = (b, d')"
  shows "targets d' = targets d \<and> \<not> b \<or> targets d' = (targets d)(i := Some (Some doc))"
proof -
  let ?t = "temp_file i (ld_files d)"
  show ?thesis
  proof (cases "dir_call (dset ?t None) d")
    case (Pair b1 d1)
    show ?thesis
    proof (cases b1)
      case False
      with w Pair show ?thesis by (auto simp: write_atomic_def Let_def targets_def fun_eq_iff dest: dir_call_files)
    next
      case True
      have f1: "targets d1 = targets d" using dir_call_files [OF Pair] True by (simp add: targets_def fun_eq_iff)
      obtain b2 d2 where c2: "dir_calls [dset ?t (Some doc), \<lambda>files. files, rename_file ?t (target_name i), \<lambda>files. files] d1 = (b2, d2)"
        by fastforce
      obtain b3 d3 where c3: "dir_call (AList.delete ?t) d2 = (b3, d3)" by fastforce
      have f3: "targets d3 = targets d2"
        using dir_call_files [OF c3] by (simp add: targets_def fun_eq_iff dget_delete)
      from c2 have "targets d2 = targets d1 \<and> \<not> b2 \<or> targets d2 = (targets d1)(i := Some (Some doc))"
        by (auto simp: targets_def fun_eq_iff rename_file_def dget_delete dest!: dir_call_files split: prod.splits bool.splits)
      with w Pair True c2 c3 f1 f3 show ?thesis by (auto simp: write_atomic_def Let_def)
    qed
  qed
qed

section \<open>The contract\<close>

definition local_ok :: "snapshot_codec \<Rightarrow> local_dir \<Rightarrow> bool" where
  "local_ok cx d \<longleftrightarrow> (\<forall>i c. targets d i = Some c \<longrightarrow> (\<exists>doc. c = Some doc \<and> written cx i doc))"

definition local_view :: "snapshot_codec \<Rightarrow> local_dir \<Rightarrow> pystr \<Rightarrow> session_snapshot option" where
  "local_view cx d i = Option.bind (targets d i) (\<lambda>c. Option.bind c (reading cx))"

lemma local_same: "targets d' = targets d \<Longrightarrow> local_ok cx d' = local_ok cx d \<and> local_view cx d' = local_view cx d"
  by (simp add: local_ok_def local_view_def fun_eq_iff)

lemma local_okD: "local_ok cx d \<Longrightarrow> targets d i = Some (Some doc) \<Longrightarrow> written cx i doc"
  by (auto simp: local_ok_def)

lemma local_keeps:
  assumes "local_ok cx d" "targets d' = targets d"
  shows "local_ok cx d' \<and> local_view cx d' = local_view cx d"
  using assms local_same [of d' d cx] by simp

lemma local_put:
  assumes "local_ok cx d" "snapshot_made cx s" "encode_snapshot cx s = Inr doc"
    and "targets d' = (targets d)(sp_session s := Some (Some doc))"
  shows "local_ok cx d' \<and> local_view cx d' = (local_view cx d)(sp_session s := Some s)"
proof
  show "local_ok cx d'" using assms by (auto simp: local_ok_def written_def)
  show "local_view cx d' = (local_view cx d)(sp_session s := Some s)"
    by (rule ext) (simp add: local_view_def assms(4) reading_written [OF assms(2,3)])
qed

lemma local_drop:
  assumes "local_ok cx d" "targets d' = (targets d)(i := None)"
  shows "local_ok cx d' \<and> local_view cx d' = (local_view cx d)(i := None)"
proof
  show "local_ok cx d'" using assms(1) unfolding local_ok_def assms(2) by simp
  show "local_view cx d' = (local_view cx d)(i := None)" by (rule ext) (simp add: local_view_def assms(2))
qed

lemma local_current:
  assumes ok: "local_ok cx d" and t: "targets d i = map_option Some data"
  shows "current_revision cx fresh data = Inr (map_option sp_revision (local_view cx d i))"
proof (cases data)
  case (Some doc)
  with local_okD [OF ok, of i doc] t show ?thesis by (auto simp: local_view_def elim: written_cases)
qed (simp add: current_revision_def local_view_def t)

lemma local_load_value:
  assumes ok: "local_ok cx d" and l: "local_load cx fresh i d = (x, d')"
  shows "targets d' = targets d \<and> (\<forall>found. x = Inr found \<longrightarrow> found = local_view cx d i)"
proof (cases "local_id_ok i")
  case True
  obtain y d1 where r: "read_target i d = (y, d1)" by fastforce
  show ?thesis
  proof (cases y)
    case (Inl e)
    with l True r read_target_value(1) [OF r] show ?thesis by (auto simp: local_load_def)
  next
    case (Inr data)
    note t = read_target_value [OF r]
    show ?thesis
    proof (cases data)
      case None
      with l True r Inr t show ?thesis by (auto simp: local_load_def local_view_def)
    next
      case (Some doc)
      with t(2) [OF Inr] have doc: "targets d i = Some (Some doc)" by simp
      from local_okD [OF ok doc] obtain s where s: "reading cx doc = Some s" "decode_snapshot cx fresh (thaw_json doc) = Inr s"
        "needs_migration (thaw_json doc) = Inr False" "check_loaded s i = Inr (Some s)" by (auto elim: written_cases)
      with l True r Inr Some t(1) doc show ?thesis by (auto simp: local_load_def local_view_def)
    qed
  qed
qed (use l in \<open>auto simp: local_load_def\<close>)

lemma local_save_cases:
  assumes ok: "local_ok cx d" and s: "snapshot_made cx s" and sv: "local_save cx fresh s expected d = (x, d')"
  shows "targets d' = targets d \<and> (\<forall>n. x \<noteq> Inr n)
    \<or> (\<forall>n. x = Inr n \<longrightarrow> n = sp_revision s) \<and> swap_allowed (local_view cx d (sp_session s)) expected s
      \<and> local_ok cx d' \<and> local_view cx d' = (local_view cx d)(sp_session s := Some s)"
proof (cases "local_id_ok (sp_session s) \<and> (\<exists>doc. encode_snapshot cx s = Inr doc)")
  case True
  then obtain doc where id: "local_id_ok (sp_session s)" and doc: "encode_snapshot cx s = Inr doc" by blast
  obtain y d1 where r: "read_target (sp_session s) d = (y, d1)" by fastforce
  note t = read_target_value [OF r]
  show ?thesis
  proof (cases y)
    case (Inl e)
    with sv id doc r t show ?thesis by (auto simp: local_save_def)
  next
    case (Inr data)
    note cur = local_current [OF ok t(2) [OF Inr], of fresh]
    note view1 = local_same [OF t(1), of cx]
    show ?thesis
    proof (cases "check_cas (map_option sp_revision (local_view cx d (sp_session s))) expected (sp_revision s)")
      case (Inl e)
      with sv id doc r Inr cur t(1) show ?thesis by (auto simp: local_save_def)
    next
      case passed: (Inr u)
      obtain b d2 where w: "write_atomic (sp_session s) doc d1 = (b, d2)" by fastforce
      have x: "x = (if b then Inr (sp_revision s) else Inl Raised)" "d' = d2"
        using sv id doc r Inr cur passed w by (auto simp: local_save_def split: bool.splits)
      from write_atomic_targets [OF w] show ?thesis
      proof
        assume "targets d2 = targets d1 \<and> \<not> b"
        with x t(1) show ?thesis by simp
      next
        assume "targets d2 = (targets d1)(sp_session s := Some (Some doc))"
        with t(1) have "targets d2 = (targets d)(sp_session s := Some (Some doc))" by simp
        from local_put [OF ok s doc this] x passed show ?thesis by (auto simp: check_cas_Inr swap_allowed_def)
      qed
    qed
  qed
next
  case False
  with sv have "d' = d \<and> (\<exists>e. x = Inl e)" by (cases "encode_snapshot cx s") (auto simp: local_save_def split: if_splits)
  then show ?thesis by auto
qed

lemma local_delete_cases:
  assumes ok: "local_ok cx d" and dl: "local_delete cx fresh i n d = (x, d')"
  shows "targets d' = targets d \<and> (\<forall>u. x \<noteq> Inr u)
    \<or> map_option sp_revision (local_view cx d i) = Some n \<and> local_ok cx d' \<and> local_view cx d' = (local_view cx d)(i := None)"
proof (cases "local_id_ok i")
  case True
  obtain y d1 where r: "read_target i d = (y, d1)" by fastforce
  note t = read_target_value [OF r]
  show ?thesis
  proof (cases y)
    case (Inl e)
    with dl True r t show ?thesis by (auto simp: local_delete_def)
  next
    case (Inr data)
    note cur = local_current [OF ok t(2) [OF Inr], of fresh]
    show ?thesis
    proof (cases "map_option sp_revision (local_view cx d i) = Some n")
      case False
      with dl True r Inr cur t(1) show ?thesis by (auto simp: local_delete_def)
    next
      case same: True
      obtain b d2 where w: "dir_calls [AList.delete (target_name i), \<lambda>files. files] d1 = (b, d2)" by fastforce
      have x: "x = (if b then Inr () else Inl Raised)" "d' = d2"
        using dl True r Inr cur same w by (auto simp: local_delete_def split: bool.splits)
      from w have "targets d2 = targets d1 \<and> \<not> b \<or> targets d2 = (targets d1)(i := None)"
        by (auto simp: targets_def fun_eq_iff dget_delete dest!: dir_call_files split: prod.splits bool.splits)
      then show ?thesis
      proof
        assume "targets d2 = targets d1 \<and> \<not> b"
        with x t(1) show ?thesis by simp
      next
        assume "targets d2 = (targets d1)(i := None)"
        with t(1) have "targets d2 = (targets d)(i := None)" by simp
        from local_drop [OF ok this] x same show ?thesis by simp
      qed
    qed
  qed
qed (use dl in \<open>auto simp: local_delete_def\<close>)

lemma local_view_made:
  assumes ok: "local_ok cx d" and v: "local_view cx d i = Some s"
  shows "snapshot_made cx s \<and> sp_session s = i"
proof -
  from v obtain doc where doc: "targets d i = Some (Some doc)" "reading cx doc = Some s"
    by (auto simp: local_view_def bind_eq_Some_conv)
  from local_okD [OF ok doc(1)] doc(2) show ?thesis by (auto elim: written_cases)
qed

interpretation directory: snapshot_store "local_repository cx fresh" cx "local_ok cx" "local_view cx" for cx fresh
proof unfold_locales
  fix r i s
  assume "local_ok cx r" "local_view cx r i = Some s"
  then show "snapshot_made cx s \<and> sp_session s = i" by (rule local_view_made)
next
  fix r i x r'
  assume ok: "local_ok cx r" and "rp_load (local_repository cx fresh) i r = (x, r')"
  then have "local_load cx fresh i r = (x, r')" by (simp add: local_repository_def)
  from local_load_value [OF ok this] have "targets r' = targets r" by (elim conjE)
  from local_keeps [OF ok this] show "local_ok cx r' \<and> local_view cx r' = local_view cx r" .
next
  fix r i found r'
  assume "local_ok cx r" "rp_load (local_repository cx fresh) i r = (Inr found, r')"
  then show "found = local_view cx r i" using local_load_value [of cx r fresh i "Inr found" r'] by (simp add: local_repository_def)
next
  fix r s expected x r'
  assume ok: "local_ok cx r" and s: "snapshot_made cx s" and "rp_save (local_repository cx fresh) s expected r = (x, r')"
  then have "local_save cx fresh s expected r = (x, r')" by (simp add: local_repository_def)
  from local_save_cases [OF ok s this] show "local_ok cx r' \<and> (local_view cx r' = local_view cx r
      \<or> swap_allowed (local_view cx r (sp_session s)) expected s \<and> local_view cx r' = (local_view cx r)(sp_session s := Some s))"
  proof (elim disjE conjE)
    assume "targets r' = targets r"
    from local_keeps [OF ok this] show ?thesis by blast
  qed blast
next
  fix r s expected n r'
  assume ok: "local_ok cx r" and s: "snapshot_made cx s" and "rp_save (local_repository cx fresh) s expected r = (Inr n, r')"
  then have "local_save cx fresh s expected r = (Inr n, r')" by (simp add: local_repository_def)
  from local_save_cases [OF ok s this] show "n = sp_revision s \<and> swap_allowed (local_view cx r (sp_session s)) expected s
      \<and> local_view cx r' = (local_view cx r)(sp_session s := Some s)"
    by (elim disjE conjE) simp_all
next
  fix r i n x r'
  assume ok: "local_ok cx r" and "rp_delete (local_repository cx fresh) i n r = (x, r')"
  then have "local_delete cx fresh i n r = (x, r')" by (simp add: local_repository_def)
  from local_delete_cases [OF ok this] show "local_ok cx r' \<and> (local_view cx r' = local_view cx r
      \<or> map_option sp_revision (local_view cx r i) = Some n \<and> local_view cx r' = (local_view cx r)(i := None))"
  proof (elim disjE conjE)
    assume "targets r' = targets r"
    from local_keeps [OF ok this] show ?thesis by blast
  qed blast
next
  fix r i n u r'
  assume ok: "local_ok cx r" and "rp_delete (local_repository cx fresh) i n r = (Inr u, r')"
  then have "local_delete cx fresh i n r = (Inr u, r')" by (simp add: local_repository_def)
  from local_delete_cases [OF ok this] show "map_option sp_revision (local_view cx r i) = Some n \<and> local_view cx r' = (local_view cx r)(i := None)"
    by (elim disjE conjE) simp_all
qed

end
