(* ===== verification/SessionHistory.thy ===== *)
theory SessionHistory
  imports SessionKeep SessionLocal
begin

text \<open>
  A session and a repository that others write to as well. The invariant of such a history: the stored
  snapshot is the one this session last wrote, and holds what the session held then, or a newer one of
  another writer; a save in flight is of a state the session has been in.
\<close>

text \<open>A restored session may have dropped a summary that does not fit its messages.\<close>

definition agrees :: "session_snapshot \<Rightarrow> session_snapshot \<Rightarrow> bool" where
  "agrees sn t \<longleftrightarrow> sn\<lparr>sp_compaction := sp_compaction t\<rparr> = t \<and> sp_compaction t \<in> {None, sp_compaction sn}"

definition captured :: "session_snapshot \<Rightarrow> session \<Rightarrow> bool" where
  "captured sn s \<longleftrightarrow> sp_session sn = ss_id s \<and> prefix (sp_messages sn) (ss_messages s) \<and> sp_revision sn \<le> ss_revision s
     \<and> (sp_revision sn = ss_revision s \<longrightarrow> agrees sn (image_of s))"

definition held :: "session_snapshot option \<Rightarrow> nat \<Rightarrow> session \<Rightarrow> bool" where
  "held cur d s \<longleftrightarrow> d \<le> ss_revision s \<and> (\<exists>sn. cur = Some sn \<and> d \<le> sp_revision sn \<and> (sp_revision sn = d \<longrightarrow> captured sn s))"

definition stored :: "session_snapshot option \<Rightarrow> session_snapshot \<Rightarrow> bool" where
  "stored cur sn \<longleftrightarrow> (\<exists>now. cur = Some now \<and> sp_revision sn \<le> sp_revision now \<and> (sp_revision now = sp_revision sn \<longrightarrow> now = sn))"

fun flight_ok :: "snapshot_codec \<Rightarrow> session_snapshot option \<Rightarrow> flight \<Rightarrow> session \<Rightarrow> bool" where
  "flight_ok cx cur Idle s \<longleftrightarrow> True"
| "flight_ok cx cur (Saving sn expected) s \<longleftrightarrow> captured sn s \<and> snapshot_made cx sn \<and> expected = ss_durable s"
| "flight_ok cx cur (Saved sn x) s \<longleftrightarrow> captured sn s \<and> (\<forall>n. x = Inr n \<longrightarrow> n = sp_revision sn \<and> stored cur sn)"

definition config_ok :: "snapshot_codec \<Rightarrow> session_snapshot option \<Rightarrow> flight \<Rightarrow> session \<Rightarrow> bool" where
  "config_ok cx cur f s \<longleftrightarrow> session_ok cx s \<and> (\<forall>d. ss_durable s = Some d \<longrightarrow> held cur d s) \<and> flight_ok cx cur f s"

section \<open>Stability\<close>

lemma agrees_refl [simp]: "agrees sn sn"
  by (simp add: agrees_def)

lemma captured_image: "captured (image_of s) s"
  by (simp add: captured_def) (simp add: image_of_def)

lemma captured_grows:
  assumes c: "captured sn s" and g: "grows s t"
  shows "captured sn t"
proof (cases "image_of t = image_of s")
  case True
  then have "ss_revision t = ss_revision s" "ss_messages t = ss_messages s" "ss_id t = ss_id s" by (simp_all add: image_of_def)
  with c True show ?thesis by (simp add: captured_def)
next
  case False
  with g have "ss_revision s < ss_revision t" by (simp add: grows_def)
  with c g show ?thesis by (auto simp: captured_def grows_def intro: prefix_order.trans)
qed

lemma held_grows: "held cur d s \<Longrightarrow> grows s t \<Longrightarrow> held cur d t"
  using captured_grows grows_revision by (fastforce simp: held_def)

lemma held_swap: "held cur d s \<Longrightarrow> swap_allowed cur expected new \<Longrightarrow> held (Some new) d s"
  by (auto simp: held_def swap_allowed_def)

lemma stored_swap: "stored cur sn \<Longrightarrow> swap_allowed cur expected new \<Longrightarrow> stored (Some new) sn"
  by (auto simp: stored_def swap_allowed_def)

lemma config_ok_section:
  assumes c: "config_ok cx cur f s" and st: "section_step cx s t"
  shows "config_ok cx cur f t"
proof -
  have ok: "session_ok cx s" using c by (simp add: config_ok_def)
  note k = section_keeps [OF st ok]
  then have g: "grows s t" and d: "ss_durable t = ss_durable s" by blast+
  have "flight_ok cx cur f t" using c g d captured_grows by (cases f) (auto simp: config_ok_def)
  with c k held_grows [OF _ g] d show ?thesis by (simp add: config_ok_def)
qed

lemma config_ok_swap:
  assumes "config_ok cx cur f s" "swap_allowed cur expected new"
  shows "config_ok cx (Some new) f s"
  using assms held_swap stored_swap by (cases f) (fastforce simp: config_ok_def)+

lemma config_ok_idle: "config_ok cx cur f s \<Longrightarrow> config_ok cx cur Idle s"
  by (simp add: config_ok_def)

lemma config_ok_finish:
  assumes c: "config_ok cx cur (Saved sn x) s" and f: "persist_finish sn x s = (y, t)"
  shows "config_ok cx cur Idle t"
proof (cases "t = s")
  case True
  with config_ok_idle [OF c] show ?thesis by simp
next
  case False
  with f have x: "x = Inr (sp_revision sn)" and t: "t = s\<lparr>ss_durable := Some (sp_revision sn)\<rparr>"
    by (auto simp: persist_finish_def split: sum.splits if_splits)
  have g: "grows s t" unfolding t by (rule grows_refl) (simp_all add: image_of_def)
  from c x have s: "captured sn s" "stored cur sn" "session_ok cx s" by (simp_all add: config_ok_def)
  then have "captured sn t" using captured_grows g by blast
  with s(2) have "held cur (sp_revision sn) t" by (auto simp: held_def stored_def captured_def)
  with s(3) show ?thesis by (simp add: config_ok_def t session_ok_def)
qed

section \<open>The beginning\<close>

lemma new_session_ok:
  assumes "new_session limits fresh ms sid metadata = Inr s" "fresh \<noteq> []" "\<forall>m \<in> set ms. message_made cx m" "json_ok (JObj metadata)"
  shows "config_ok cx cur Idle s"
  using assms by (cases sid) (auto simp: new_session_def res_simps check_transcript_iff config_ok_def session_ok_def pending_ok_def
      sequences_def split: if_splits)

lemma check_pending_iff:
  "check_pending sn = Inr u \<longleftrightarrow> (\<forall>p \<in> set (sp_pending sn). ir_session (pi_receipt p) = sp_session sn
     \<and> ir_sequence (pi_receipt p) \<le> sp_last_sequence sn) \<and> sorted_wrt (<) (sequences (sp_pending sn))"
  by (auto simp: check_pending_def Let_def list_ex_iff sequences_def not_less) (meson leD)

lemma restore_session_Inr:
  assumes "restore_session digest limits sn = Inr s"
  shows "transcript_ok limits (sp_messages sn) \<and> check_pending sn = Inr ()
    \<and> (\<exists>c. c \<in> {None, sp_compaction sn} \<and> s = \<lparr>ss_id = sp_session sn, ss_messages = sp_messages sn, ss_active = None,
        ss_closed = False, ss_sequence = sp_last_sequence sn, ss_pending = sp_pending sn, ss_compaction = c, ss_limits = limits,
        ss_metadata = sp_metadata sn, ss_revision = sp_revision sn, ss_durable = Some (sp_revision sn)\<rparr>)"
proof -
  from assms obtain t c where t: "check_transcript limits (sp_messages sn) = Inr ()" "check_pending sn = Inr ()"
    "new_session limits [] (sp_messages sn) (Some (sp_session sn)) (sp_metadata sn) = Inr t"
    and c: "kept_compaction digest limits sn = Inr c"
    and s: "s = t\<lparr>ss_pending := sp_pending sn, ss_sequence := sp_last_sequence sn, ss_compaction := c,
               ss_revision := sp_revision sn, ss_durable := Some (sp_revision sn)\<rparr>"
    by (auto simp: restore_session_def res_simps split: if_splits)
  from c have "c \<in> {None, sp_compaction sn}"
    by (auto simp: kept_compaction_def split: option.splits if_splits)
  with t s show ?thesis by (auto simp: new_session_def res_simps check_transcript_iff split: if_splits)
qed

lemma restore_session_ok:
  assumes sn: "snapshot_made cx sn" and r: "restore_session digest limits sn = Inr s"
  shows "config_ok cx (Some sn) Idle s"
proof -
  note f = restore_session_Inr [OF r]
  then obtain c where c: "c \<in> {None, sp_compaction sn}" and s: "s = \<lparr>ss_id = sp_session sn, ss_messages = sp_messages sn, ss_active = None,
        ss_closed = False, ss_sequence = sp_last_sequence sn, ss_pending = sp_pending sn, ss_compaction = c, ss_limits = limits,
        ss_metadata = sp_metadata sn, ss_revision = sp_revision sn, ss_durable = Some (sp_revision sn)\<rparr>" by blast
  have "session_ok cx s"
    using f sn c by (auto simp: s session_ok_def pending_ok_def snapshot_made_def check_pending_iff)
  moreover have "agrees sn (image_of s)"
    using c sn by (cases sn) (auto simp: agrees_def image_of_def s snapshot_made_def)
  then have "held (Some sn) (sp_revision sn) s" by (simp add: held_def captured_def s)
  ultimately show ?thesis by (simp add: config_ok_def s)
qed

section \<open>Histories over any repository that keeps the contract\<close>

context snapshot_store
begin

abbreviation stored_now :: "'r session_config \<Rightarrow> session_snapshot option" where
  "stored_now c \<equiv> view (cg_store c) (ss_id (cg_session c))"

lemma save_effect:
  assumes "ok r" "snapshot_made cx s" "rp_save rp s expected r = (saved, r')"
  shows "ok r' \<and> (view r' i = view r i \<or> i = sp_session s \<and> swap_allowed (view r i) expected s \<and> view r' i = Some s)"
  using save_ok [OF assms] by (cases "i = sp_session s") auto

lemma start_ok:
  assumes "session_start cx rp r0 c" "ok r0"
  shows "ok (cg_store c) \<and> config_ok cx (stored_now c) (cg_flight c) (cg_session c)"
  using assms
proof (cases rule: session_start.cases)
  case (start_open digest limits i s r1)
  from start_open(2) obtain sn where l: "rp_load rp i r0 = (Inr (Some sn), r1)" and r: "restore_session digest limits sn = Inr s"
    by (auto simp: open_session_def split: if_splits prod.splits sum.splits option.splits)
  from load_ok [OF assms(2) l] load_value [OF assms(2) l] have v: "ok r1" "view r1 i = Some sn" by simp_all
  from view_made [OF v] have sn: "snapshot_made cx sn" "sp_session sn = i" by simp_all
  have "ss_id s = i" using restore_session_Inr [OF r] sn(2) by auto
  with restore_session_ok [OF sn(1) r] v start_open(1) show ?thesis by simp
qed (auto intro: new_session_ok)

lemma step_ok:
  assumes "session_step cx rp c c'" "ok (cg_store c)" "config_ok cx (stored_now c) (cg_flight c) (cg_session c)"
  shows "ok (cg_store c') \<and> config_ok cx (stored_now c') (cg_flight c') (cg_session c')"
  using assms
proof (cases rule: session_step.cases)
  case (st_section s')
  have "ss_id s' = ss_id (cg_session c)"
    using section_keeps [OF st_section(2)] assms(3) by (simp add: config_ok_def grows_def)
  with config_ok_section [OF assms(3) st_section(2)] assms(2) st_section(1) show ?thesis by simp
next
  case (st_begin required sn)
  have ok: "session_ok cx (cg_session c)" using assms(3) by (simp add: config_ok_def)
  then have "sn = image_of (cg_session c)" using st_begin(4) take_session_snapshot_eq
    by (auto simp: persist_begin_def session_ok_def split: option.splits if_splits)
  with image_made [OF ok] captured_image assms(2,3) st_begin(1) show ?thesis by (simp add: config_ok_def)
next
  case (st_save sn expected x r')
  from assms(3) st_save(2) have sn: "snapshot_made cx sn" "captured sn (cg_session c)" by (simp_all add: config_ok_def)
  note e = save_effect [OF assms(2) sn(1) st_save(3), of "ss_id (cg_session c)"]
  have n: "n = sp_revision sn \<and> stored (view r' (ss_id (cg_session c))) sn" if "x = Inr n" for n
    using save_value [OF assms(2) sn(1) st_save(3) [unfolded that]] sn(2) by (simp add: stored_def captured_def)
  have "config_ok cx (view r' (ss_id (cg_session c))) Idle (cg_session c)"
    using e config_ok_idle [OF assms(3)] config_ok_swap by metis
  with e n sn(2) st_save(1) show ?thesis by (simp add: config_ok_def)
next
  case (st_finish sn x y s')
  have "ss_id s' = ss_id (cg_session c)"
    using st_finish(3) by (auto simp: persist_finish_def split: sum.splits if_splits)
  with config_ok_finish [OF assms(3) [unfolded st_finish(2)] st_finish(3)] assms(2) st_finish(1) show ?thesis by simp
next
  case (st_other_save sn expected z r')
  note e = save_effect [OF assms(2) st_other_save(2,3), of "ss_id (cg_session c)"]
  then have "config_ok cx (view r' (ss_id (cg_session c))) (cg_flight c) (cg_session c)"
    using assms(3) config_ok_swap by metis
  with e st_other_save(1) show ?thesis by simp
next
  case (st_other_load i w r')
  with load_ok [OF assms(2) st_other_load(2)] assms(3) show ?thesis by simp
qed

lemma run_ok:
  "session_run cx rp r0 c \<Longrightarrow> ok r0 \<Longrightarrow> ok (cg_store c) \<and> config_ok cx (stored_now c) (cg_flight c) (cg_session c)"
  by (induction rule: session_run.induct) (use start_ok step_ok in blast)+

lemma run_durable:
  assumes "session_run cx rp r0 c" "ok r0" "ss_durable (cg_session c) = Some d"
  shows "held (stored_now c) d (cg_session c)"
  using run_ok [OF assms(1,2)] assms(3) by (simp add: config_ok_def)

text \<open>A writer that has been overtaken cannot save.\<close>

lemma stale_save_refused:
  assumes "session_run cx rp r0 c" "ok r0" "cg_flight c = Saving sn expected"
    and stale: "map_option sp_revision (stored_now c) \<noteq> ss_durable (cg_session c)"
    and sv: "rp_save rp sn expected (cg_store c) = (x, r')"
  shows "(\<exists>e. x = Inl e) \<and> view r' = view (cg_store c)"
proof -
  note k = run_ok [OF assms(1,2)]
  then have sn: "snapshot_made cx sn" "expected = ss_durable (cg_session c)" "sp_session sn = ss_id (cg_session c)"
    using assms(3) by (simp_all add: config_ok_def captured_def)
  have no: "\<not> swap_allowed (view (cg_store c) (sp_session sn)) expected sn"
    using stale sn by (simp add: swap_allowed_def)
  from k have "ok (cg_store c)" by blast
  with save_ok [OF this sn(1) sv] save_value [OF this sn(1)] sv no show ?thesis by (cases x) auto
qed

end

end
