(* ===== verification/SessionProps.thy ===== *)
theory SessionProps
  imports SessionHistory SessionCodec
begin

text \<open>
  The properties of sessions, of their snapshots and of the repositories that keep them.
\<close>

section \<open>Snapshots can be read back\<close>


definition demo_codec :: snapshot_codec where
  "demo_codec = \<lparr>sc_inline = 1000, sc_http = (\<lambda>_. True), sc_workspace = (\<lambda>_. True), sc_float = (\<lambda>_. [48])\<rparr>"

definition demo_message :: message where
  "demo_message = UserMessage [TextContent [104, 105], ImageContent (BytesSource [1, 2, 3, 4]) None (Some [97])] 5 [109]"

definition demo_snapshot :: session_snapshot where
  "demo_snapshot = \<lparr>sp_schema = 2, sp_session = [115], sp_revision = 1, sp_last_sequence = 0, sp_messages = [demo_message],
     sp_pending = [], sp_compaction = None, sp_metadata = [([107], JArr [JBool True, JNull])]\<rparr>"


lemma demo_encodes:
  assumes "plain_json doc" shows "utf8_encode (canonical_json_dumps (sc_float demo_codec) doc) \<noteq> None"
  using assms by (intro plain_canonical) (simp_all add: demo_codec_def)

lemmas encode_defs = encode_snapshot_def encode_message_def encode_media_def encode_source_def encode_summary_def
  status_text_def error_data_def



lemma make_content_limit:
  "make_user_message l ts f cs t i = Inr m \<Longrightarrow> msg_content m = cs \<and> length cs \<le> max_contents_per_message l"
  "make_assistant_message l ts f cs calls r t i = Inr m \<Longrightarrow> msg_content m = cs \<and> length cs \<le> max_contents_per_message l"
  "make_tool_result l ts f cid name st cs e t i = Inr m \<Longrightarrow> msg_content m = cs \<and> length cs \<le> max_contents_per_message l"
  by (auto simp: make_user_message_def make_assistant_message_def make_tool_result_def bind_res_Inr_iff normalize_Inr_iff)

lemma lift_error_Inr [simp]: "lift_error r = Inr x \<longleftrightarrow> r = Inr x"
  by (cases r) simp_all

lemma rewrap_Inr [simp]: "rewrap msg r = Inr x \<longleftrightarrow> r = Inr x"
  by (cases "(msg, r)" rule: rewrap.cases) simp_all

lemma decoded_message:
  assumes "encode_message cx m = Inr j" "decode_message cx f (thaw_json j) = Inr n"
  shows "length (msg_content m) \<le> 16"
proof -
  from assms(1) obtain js where js: "map_res (encode_content cx) (msg_content m) = Inr js"
    and j: "j = J_record ([(''type'', JStr (ascii (fst (role_fields m)))), (''message_id'', JStr (msg_id m)),
       (''timestamp'', JFloat (msg_timestamp m)), (''content'', JArr js)] @ snd (role_fields m))"
    by (auto simp: encode_message_def bind_res_Inr_iff)
  from assms(2) obtain cs where cs: "map_res (decode_content cx) (map thaw_json js) = Inr cs"
    and "msg_content n = cs \<and> length cs \<le> max_contents_per_message default_media_limits"
    by (auto simp: j decode_message_def bind_res_Inr_iff decode_user_def decode_assistant_def decode_result_def
        split: if_splits dest!: make_content_limit)
  with map_res_length [OF cs] map_res_length [OF js] show ?thesis by (simp add: default_media_limits_def)
qed

lemma decoded_messages:
  assumes e: "encode_snapshot cx s = Inr doc" and d: "decode_snapshot cx fresh (thaw_json doc) = Inr sn"
  shows "\<forall>m \<in> set (sp_messages s). length (msg_content m) \<le> 16"
proof -
  from e obtain ms ps where ms: "map_res (encode_message cx) (sp_messages s) = Inr ms"
    and doc: "doc = J_record [(''schema_version'', JInt (int (sp_schema s))), (''session_id'', JStr (sp_session s)),
           (''revision'', JInt (int (sp_revision s))), (''last_pending_sequence'', JInt (int (sp_last_sequence s))),
           (''messages'', JArr ms), (''pending'', JArr ps), (''compaction'', encode_summary (sp_compaction s)),
           (''metadata'', encode_json (JObj (sp_metadata s)))]"
    by (auto simp: encode_snapshot_def bind_res_Inr_iff Let_def split: if_splits)
  from d obtain ns where "map_res (\<lambda>(i, v). decode_message cx (fresh i) v) (number_from 0 (map thaw_json ms)) = Inr ns"
    by (auto simp: doc decode_snapshot_def decode_with_migration_def decode_fields_def bind_res_Inr_iff)
  then have ns: "list_all2 (\<lambda>(i, v) n. decode_message cx (fresh i) v = Inr n) (number_from 0 (map thaw_json ms)) ns"
    by (simp add: map_res_Inr_iff case_prod_unfold)
  from ms have js: "list_all2 (\<lambda>m j. encode_message cx m = Inr j) (sp_messages s) ms" by (simp add: map_res_Inr_iff)
  show ?thesis
  proof
    fix m assume "m \<in> set (sp_messages s)"
    then obtain k where k: "k < length ms" "sp_messages s ! k = m" "encode_message cx m = Inr (ms ! k)"
      using js by (auto simp: in_set_conv_nth list_all2_conv_all_nth)
    with ns have "decode_message cx (fresh k) (thaw_json (ms ! k)) = Inr (ns ! k)"
      by (auto simp: list_all2_conv_all_nth number_from_def)
    with decoded_message k(3) show "length (msg_content m) \<le> 16" by blast
  qed
qed

text \<open>
  C20. A session whose agent allows more contents in a message than the default can be saved and never be
  loaded again: a message of seventeen contents is accepted under such limits and its snapshot is written,
  but the codec rebuilds messages with the default limits and calls the document corrupted.
\<close>

theorem wide_message_unreadable:
  assumes "encode_snapshot cx s = Inr doc" "m \<in> set (sp_messages s)" "length (msg_content m) > 16"
  shows "\<exists>e. decode_snapshot cx fresh (thaw_json doc) = Inl e"
proof (rule ccontr)
  assume "\<nexists>e. decode_snapshot cx fresh (thaw_json doc) = Inl e"
  then obtain sn where "decode_snapshot cx fresh (thaw_json doc) = Inr sn"
    by (cases "decode_snapshot cx fresh (thaw_json doc)") auto
  from decoded_messages [OF assms(1) this] assms(2) have "length (msg_content m) \<le> 16" by blast
  with assms(3) show False by simp
qed

definition wide_limits :: media_limits where
  "wide_limits = \<lparr>max_inline_bytes = 10, max_contents_per_message = 32\<rparr>"

definition wide_message :: message where
  "wide_message = UserMessage (replicate 17 (TextContent [104])) 0 [109]"

definition wide_snapshot :: session_snapshot where
  "wide_snapshot = demo_snapshot\<lparr>sp_messages := [wide_message], sp_metadata := []\<rparr>"

lemma map_res_replicate: "f x = Inr y \<Longrightarrow> map_res f (replicate n x) = Inr (replicate n y)"
  by (induction n) simp_all

lemma wide_encoded: "\<exists>doc. encode_snapshot demo_codec wide_snapshot = Inr doc"
proof -
  have "map_res (encode_content demo_codec) (replicate 17 (TextContent [104]))
      = Inr (replicate 17 (J_record [(''type'', JStr (ascii ''text'')), (''text'', JStr [104])]))"
    by (rule map_res_replicate) simp
  then show ?thesis
    by (simp add: encode_defs wide_snapshot_def demo_snapshot_def wide_message_def Let_def demo_encodes list_all_iff
        ascii_def del: replicate.simps)
qed

theorem wide_message_unreadable_witness:
  "make_user_message wide_limits 0 [109] (replicate 17 (TextContent [104])) None None = Inr wide_message
    \<and> validate wide_limits True [wide_message] = Inr ()
    \<and> (\<exists>doc e. encode_snapshot demo_codec wide_snapshot = Inr doc \<and> decode_snapshot demo_codec (\<lambda>_. []) (thaw_json doc) = Inl e)"
proof (intro conjI)
  show "make_user_message wide_limits 0 [109] (replicate 17 (TextContent [104])) None None = Inr wide_message" by code_simp
  show "validate wide_limits True [wide_message] = Inr ()" by code_simp
  obtain doc where doc: "encode_snapshot demo_codec wide_snapshot = Inr doc" using wide_encoded by blast
  have "wide_message \<in> set (sp_messages wide_snapshot)" "length (msg_content wide_message) > 16"
    by (simp_all add: wide_snapshot_def wide_message_def)
  from wide_message_unreadable [OF doc this] doc show "\<exists>doc e. encode_snapshot demo_codec wide_snapshot = Inr doc
      \<and> decode_snapshot demo_codec (\<lambda>_. []) (thaw_json doc) = Inl e" by blast
qed

section \<open>A small history\<close>

definition demo_session :: session where
  "demo_session = \<lparr>ss_id = [115], ss_messages = [], ss_active = None, ss_closed = False, ss_sequence = 0, ss_pending = [],
     ss_compaction = None, ss_limits = default_media_limits, ss_metadata = [], ss_revision = 0, ss_durable = None\<rparr>"

definition empty_dir :: local_dir where
  "empty_dir = \<lparr>ld_files = [], ld_faults = []\<rparr>"

lemma empty_stores_ok: "local_ok demo_codec empty_dir" "mem_ok demo_codec []"
  by (simp_all add: local_ok_def targets_def empty_dir_def mem_ok_def)

lemma demo_started:
  "session_run demo_codec rp r0 \<lparr>cg_session = demo_session, cg_store = r0, cg_flight = Idle\<rparr>"
proof (rule run_start, rule start_new)
  show "new_session default_media_limits [115] [] None [] = Inr demo_session"
    by (simp add: new_session_def check_transcript_def validate_def demo_session_def)
qed simp_all

lemma demo_saving:
  "session_run demo_codec rp r0 \<lparr>cg_session = demo_session, cg_store = r0, cg_flight = Saving (image_of demo_session) None\<rparr>"
proof -
  have "persist_begin 0 demo_session = Some (Inr (image_of demo_session))"
    by (simp add: persist_begin_def demo_session_def take_session_snapshot_eq)
  moreover have "ss_durable demo_session = None" by (simp add: demo_session_def)
  ultimately show ?thesis using run_step [OF demo_started st_begin, of _ 0] by fastforce
qed

lemma demo_image: "snapshot_made demo_codec (image_of demo_session)" "\<exists>doc. encode_snapshot demo_codec (image_of demo_session) = Inr doc"
  by (simp_all add: snapshot_made_def image_of_def demo_session_def encode_defs Let_def demo_encodes ascii_def)

lemma demo_local_save: "\<exists>d. local_save demo_codec (\<lambda>_. []) (image_of demo_session) None empty_dir = (Inr 0, d)"
proof -
  obtain doc where doc: "encode_snapshot demo_codec (image_of demo_session) = Inr doc" using demo_image(2) by blast
  have i: "sp_session (image_of demo_session) = [115]" "sp_revision (image_of demo_session) = 0"
    by (simp_all add: image_of_def demo_session_def)
  obtain b d where w: "write_atomic [115] doc empty_dir = (b, d)" by fastforce
  then have b by (auto simp: write_atomic_def Let_def empty_dir_def dir_call_def)
  with w have "write_atomic [115] doc empty_dir = (True, d)" by simp
  then have "local_save demo_codec (\<lambda>_. []) (image_of demo_session) None empty_dir = (Inr 0, d)"
    by (simp add: local_save_def i doc local_id_ok_def read_target_def current_revision_def check_cas_def)
      (simp add: empty_dir_def dir_call_def i current_revision_def check_cas_def)
  then show ?thesis by blast
qed


lemma demo_mem_save: "\<exists>r. mem_save demo_codec (\<lambda>_. []) (image_of demo_session) None [] = (Inr 0, r)"
  using demo_image(2) by (auto simp: mem_save_def current_revision_def check_cas_def image_of_def demo_session_def)

lemma demo_overtaken:
  "\<exists>r. session_run demo_codec (memory_repository demo_codec (\<lambda>_. [])) []
       \<lparr>cg_session = demo_session, cg_store = r, cg_flight = Saving (image_of demo_session) None\<rparr>
     \<and> map_option sp_revision (mem_view demo_codec r [115]) = Some 0"
proof -
  obtain r where r: "mem_save demo_codec (\<lambda>_. []) (image_of demo_session) None [] = (Inr 0, r)" using demo_mem_save by blast
  then have "rp_save (memory_repository demo_codec (\<lambda>_. [])) (image_of demo_session) None [] = (Inr 0, r)"
    by (simp add: memory_repository_def)
  then have "session_run demo_codec (memory_repository demo_codec (\<lambda>_. [])) []
      \<lparr>cg_session = demo_session, cg_store = r, cg_flight = Saving (image_of demo_session) None\<rparr>"
    using run_step [OF demo_saving st_other_save [OF demo_image(1)]] by fastforce
  moreover have "mem_view demo_codec r [115] = Some (image_of demo_session)"
    using mem_save_swap [OF empty_stores_ok(2) demo_image(1) r] by (simp add: image_of_def demo_session_def)
  ultimately show ?thesis by (auto simp: image_of_def demo_session_def)
qed

section \<open>Sessions and their durable copies\<close>





text \<open>
  A writer that has been overtaken cannot save. When the revision the repository has for a session is
  not the one its handle last saw, a save by the handle fails and leaves the repository as it was.
\<close>

theorem stale_writer_refused:
  assumes "mem_ok cx r0" "session_run cx (memory_repository cx fresh) r0 c" "cg_flight c = Saving sn expected"
    and "map_option sp_revision (mem_view cx (cg_store c) (ss_id (cg_session c))) \<noteq> ss_durable (cg_session c)"
    and "mem_save cx fresh sn expected (cg_store c) = (x, r')"
  shows "(\<exists>e. x = Inl e) \<and> mem_view cx r' = mem_view cx (cg_store c)"
  using memory.stale_save_refused [OF assms(2,1,3,4)] assms(5) by (simp add: memory_repository_def)

theorem stale_writer_refused_witness:
  "\<exists>r x r'. map_option sp_revision (mem_view demo_codec r [115]) = Some 0
     \<and> mem_save demo_codec (\<lambda>_. []) (image_of demo_session) None r = (x, r') \<and> (\<exists>e. x = Inl e)"
proof -
  obtain r where r: "session_run demo_codec (memory_repository demo_codec (\<lambda>_. [])) []
       \<lparr>cg_session = demo_session, cg_store = r, cg_flight = Saving (image_of demo_session) None\<rparr>"
     "map_option sp_revision (mem_view demo_codec r [115]) = Some 0" using demo_overtaken by blast
  obtain x r' where sv: "mem_save demo_codec (\<lambda>_. []) (image_of demo_session) None r = (x, r')" by fastforce
  from stale_writer_refused [OF empty_stores_ok(2) r(1)] sv r(2) show ?thesis by (auto simp: demo_session_def)
qed

text \<open>
  C17. Saving in the directory is atomic. Whatever calls fail, afterwards the directory holds for the session
  either what it held or the new snapshot whole, and the same as before for every other session; a save that
  reports success has replaced exactly the revision the caller expected.
\<close>

theorem local_save_atomic:
  assumes "local_ok cx d" "snapshot_made cx s" "local_save cx fresh s expected d = (x, d')"
  shows "local_ok cx d' \<and> (local_view cx d' = local_view cx d
      \<or> swap_allowed (local_view cx d (sp_session s)) expected s \<and> local_view cx d' = (local_view cx d)(sp_session s := Some s))
    \<and> (\<forall>n. x = Inr n \<longrightarrow> n = sp_revision s \<and> swap_allowed (local_view cx d (sp_session s)) expected s
         \<and> local_view cx d' (sp_session s) = Some s)"
proof -
  have sv: "rp_save (local_repository cx fresh) s expected d = (x, d')" using assms(3) by (simp add: local_repository_def)
  have "n = sp_revision s \<and> swap_allowed (local_view cx d (sp_session s)) expected s \<and> local_view cx d' (sp_session s) = Some s"
    if "x = Inr n" for n using directory.save_value [OF assms(1,2) sv [unfolded that]] by simp
  with directory.save_ok [OF assms(1,2) sv] show ?thesis by blast
qed

theorem local_save_atomic_witness:
  "\<exists>d. local_save demo_codec (\<lambda>_. []) (image_of demo_session) None empty_dir = (Inr 0, d)
    \<and> local_view demo_codec d [115] = Some (image_of demo_session)"
proof -
  obtain d where d: "local_save demo_codec (\<lambda>_. []) (image_of demo_session) None empty_dir = (Inr 0, d)"
    using demo_local_save by blast
  have "sp_session (image_of demo_session) = [115]" by (simp add: image_of_def demo_session_def)
  with local_save_atomic [OF empty_stores_ok(1) demo_image(1) d] d show ?thesis by auto
qed

text \<open>
  Restoring undoes taking a snapshot: the snapshot of a session, restored under the same limits, gives
  the session as it was, free and open, with its revision durable; a summary survives when it stands for a
  complete beginning of the transcript and has its digest.
\<close>

theorem restore_undoes_snapshot:
  assumes "session_ok cx s"
    and "\<forall>c. ss_compaction s = Some c \<longrightarrow> su_end c \<le> length (ss_messages s)
      \<and> transcript_ok (ss_limits s) (take (su_end c) (ss_messages s)) \<and> digest (take (su_end c) (ss_messages s)) = Some (su_digest c)"
  shows "\<exists>sn. take_session_snapshot s = Inr sn \<and> restore_session digest (ss_limits s) sn
    = Inr (s\<lparr>ss_active := None, ss_closed := False, ss_durable := Some (ss_revision s)\<rparr>)"
proof -
  have sn: "take_session_snapshot s = Inr (image_of s)" using assms(1) by (simp add: session_ok_def take_session_snapshot_eq)
  have "check_pending (image_of s) = Inr ()"
    using assms(1) by (auto simp: check_pending_iff image_of_def session_ok_def pending_ok_def)
  moreover have "kept_compaction digest (ss_limits s) (image_of s) = Inr (ss_compaction s)"
    using assms(2) validate_iff by (auto simp: kept_compaction_def image_of_def not_less split: option.splits)
  ultimately have "restore_session digest (ss_limits s) (image_of s)
      = Inr (s\<lparr>ss_active := None, ss_closed := False, ss_durable := Some (ss_revision s)\<rparr>)"
    using assms(1) check_transcript_iff [of "ss_limits s" "ss_messages s" "()"]
    by (simp add: restore_session_def new_session_def session_ok_def image_of_def schema_version_def min_schema_version_def)
  with sn show ?thesis by blast
qed

theorem restore_undoes_snapshot_witness:
  "\<exists>sn. take_session_snapshot demo_session = Inr sn
    \<and> restore_session (\<lambda>_. None) default_media_limits sn = Inr (demo_session\<lparr>ss_durable := Some 0\<rparr>)"
proof -
  have "session_ok demo_codec demo_session"
    by (simp add: session_ok_def demo_session_def transcript_ok_def pending_ok_def sequences_def blocks_Nil)
  from restore_undoes_snapshot [OF this, of "\<lambda>_. None"] show ?thesis by (simp add: demo_session_def)
qed

end
