(* ===== verification/Programs.thy ===== *)
theory Programs
  imports Main
begin

text \<open>
  Programs that read and change a state, may raise, and may wait for ever: a function from the state to
  nothing (the program never returns), or to an exception or a value together with the new state. The
  combinators are the sequencing, \<open>except\<close>, \<open>finally\<close> and the loops of the source; \<open>holds\<close> is the
  partial-correctness triple with one postcondition for returning and one for raising.
\<close>

named_theorems run_simps \<open>what a program does on a state\<close>
named_theorems hoare_rules \<open>rules of the triples of programs\<close>

type_synonym ('s, 'e, 'a) prog = "'s \<Rightarrow> (('e + 'a) \<times> 's) option"

definition ret :: "'a \<Rightarrow> ('s, 'e, 'a) prog" where
  "ret x s = Some (Inr x, s)"

definition throw :: "'e \<Rightarrow> ('s, 'e, 'a) prog" where
  "throw e s = Some (Inl e, s)"

definition bind_prog :: "('s, 'e, 'a) prog \<Rightarrow> ('a \<Rightarrow> ('s, 'e, 'b) prog) \<Rightarrow> ('s, 'e, 'b) prog" where
  "bind_prog m f s = (case m s of None \<Rightarrow> None
     | Some (Inl e, s1) \<Rightarrow> Some (Inl e, s1)
     | Some (Inr x, s1) \<Rightarrow> f x s1)"

definition seq_prog :: "('s, 'e, 'a) prog \<Rightarrow> ('s, 'e, 'b) prog \<Rightarrow> ('s, 'e, 'b) prog" where
  "seq_prog m n = bind_prog m (\<lambda>_. n)"

text \<open>\<open>try ... except\<close>: a handler either answers or passes the exception on by raising it again.\<close>

definition catch_prog :: "('s, 'e, 'a) prog \<Rightarrow> ('e \<Rightarrow> ('s, 'e, 'a) prog) \<Rightarrow> ('s, 'e, 'a) prog" where
  "catch_prog m h s = (case m s of None \<Rightarrow> None
     | Some (Inl e, s1) \<Rightarrow> h e s1
     | Some (Inr x, s1) \<Rightarrow> Some (Inr x, s1))"

text \<open>\<open>try ... finally\<close>: what the last part raises replaces what the first part answered.\<close>

definition finally_prog :: "('s, 'e, 'a) prog \<Rightarrow> ('s, 'e, unit) prog \<Rightarrow> ('s, 'e, 'a) prog" where
  "finally_prog m f s = (case m s of None \<Rightarrow> None
     | Some (r, s1) \<Rightarrow> (case f s1 of None \<Rightarrow> None
         | Some (Inl e, s2) \<Rightarrow> Some (Inl e, s2)
         | Some (Inr u, s2) \<Rightarrow> Some (r, s2)))"

definition when_prog :: "bool \<Rightarrow> ('s, 'e, unit) prog \<Rightarrow> ('s, 'e, unit) prog" where
  "when_prog b m = (if b then m else ret ())"

definition gets :: "('s \<Rightarrow> 'a) \<Rightarrow> ('s, 'e, 'a) prog" where
  "gets f s = Some (Inr (f s), s)"

definition modify :: "('s \<Rightarrow> 's) \<Rightarrow> ('s, 'e, unit) prog" where
  "modify f s = Some (Inr (), f s)"

definition of_sum :: "'e + 'a \<Rightarrow> ('s, 'e, 'a) prog" where
  "of_sum r s = Some (r, s)"

primrec each_prog :: "('a \<Rightarrow> ('s, 'e, unit) prog) \<Rightarrow> 'a list \<Rightarrow> ('s, 'e, unit) prog" where
  "each_prog f [] = ret ()"
| "each_prog f (x # xs) = seq_prog (f x) (each_prog f xs)"

primrec map_prog :: "('a \<Rightarrow> ('s, 'e, 'b) prog) \<Rightarrow> 'a list \<Rightarrow> ('s, 'e, 'b list) prog" where
  "map_prog f [] = ret []"
| "map_prog f (x # xs) = bind_prog (f x) (\<lambda>y. bind_prog (map_prog f xs) (\<lambda>ys. ret (y # ys)))"

section \<open>Triples\<close>

definition holds :: "('s \<Rightarrow> bool) \<Rightarrow> ('s, 'e, 'a) prog \<Rightarrow> ('a \<Rightarrow> 's \<Rightarrow> bool) \<Rightarrow> ('e \<Rightarrow> 's \<Rightarrow> bool) \<Rightarrow> bool" where
  "holds P m Q E \<longleftrightarrow> (\<forall>s. P s \<longrightarrow> (case m s of None \<Rightarrow> True
     | Some (Inr x, s1) \<Rightarrow> Q x s1 | Some (Inl e, s1) \<Rightarrow> E e s1))"

lemma holdsI:
  assumes "\<And>s x s1. P s \<Longrightarrow> m s = Some (Inr x, s1) \<Longrightarrow> Q x s1"
    and "\<And>s e s1. P s \<Longrightarrow> m s = Some (Inl e, s1) \<Longrightarrow> E e s1"
  shows "holds P m Q E"
  using assms by (auto simp: holds_def split: option.split sum.split)

lemma holds_returns: "holds P m Q E \<Longrightarrow> P s \<Longrightarrow> m s = Some (Inr x, s1) \<Longrightarrow> Q x s1"
  by (auto simp: holds_def dest!: spec [of _ s])

lemma holds_raises: "holds P m Q E \<Longrightarrow> P s \<Longrightarrow> m s = Some (Inl e, s1) \<Longrightarrow> E e s1"
  by (auto simp: holds_def dest!: spec [of _ s])

lemma holds_weaken:
  assumes "holds P' m Q' E'" "\<And>s. P s \<Longrightarrow> P' s" "\<And>x s. Q' x s \<Longrightarrow> Q x s" "\<And>e s. E' e s \<Longrightarrow> E e s"
  shows "holds P m Q E"
  using assms by (intro holdsI) (blast dest: holds_returns holds_raises)+

lemma holds_post: "holds P m Q' E' \<Longrightarrow> (\<And>x s. Q' x s \<Longrightarrow> Q x s) \<Longrightarrow> (\<And>e s. E' e s \<Longrightarrow> E e s) \<Longrightarrow> holds P m Q E"
  by (rule holds_weaken)

lemma holds_ret [hoare_rules]: "(\<And>s. P s \<Longrightarrow> Q x s) \<Longrightarrow> holds P (ret x) Q E"
  by (simp add: holds_def ret_def)

lemma holds_throw [hoare_rules]: "(\<And>s. P s \<Longrightarrow> E e s) \<Longrightarrow> holds P (throw e) Q E"
  by (simp add: holds_def throw_def)

lemma holds_bind [hoare_rules]:
  assumes "holds P m R E" "\<And>x. holds (R x) (f x) Q E"
  shows "holds P (bind_prog m f) Q E"
  using assms by (intro holdsI)
    (auto simp: bind_prog_def split: option.splits prod.splits sum.splits dest: holds_returns holds_raises)

lemma holds_seq [hoare_rules]: "holds P m (\<lambda>_. R) E \<Longrightarrow> holds R n Q E \<Longrightarrow> holds P (seq_prog m n) Q E"
  unfolding seq_prog_def by (rule holds_bind)

lemma holds_catch [hoare_rules]:
  assumes "holds P m Q R" "\<And>e. holds (R e) (h e) Q E"
  shows "holds P (catch_prog m h) Q E"
  using assms by (intro holdsI)
    (auto simp: catch_prog_def split: option.splits prod.splits sum.splits dest: holds_returns holds_raises)

lemma holds_finally [hoare_rules]:
  assumes "holds P m Q' E'" "\<And>x. holds (Q' x) f (\<lambda>_. Q x) E" "\<And>e. holds (E' e) f (\<lambda>_. E e) E"
  shows "holds P (finally_prog m f) Q E"
proof (rule holdsI)
  fix s x s1
  assume s: "P s" "finally_prog m f s = Some (Inr x, s1)"
  then obtain s2 where "m s = Some (Inr x, s2)" "f s2 = Some (Inr (), s1)"
    by (auto simp: finally_prog_def split: option.splits prod.splits sum.splits)
  with s assms show "Q x s1" by (blast dest: holds_returns)
next
  fix s e s1
  assume s: "P s" "finally_prog m f s = Some (Inl e, s1)"
  then obtain r s2 r2 where m: "m s = Some (r, s2)" and f: "f s2 = Some (r2, s1)" and r: "r2 = Inl e \<or> (r2 = Inr () \<and> r = Inl e)"
    by (auto simp: finally_prog_def split: option.splits prod.splits sum.splits)
  show "E e s1"
  proof (cases r)
    case (Inl e1)
    with m assms(1) s have "E' e1 s2" by (blast dest: holds_raises)
    with f r Inl assms(3) show ?thesis by (blast dest: holds_returns holds_raises)
  next
    case (Inr x)
    with m assms(1) s have "Q' x s2" by (blast dest: holds_returns)
    with f r Inr assms(2) show ?thesis by (blast dest: holds_raises)
  qed
qed

lemma holds_when [hoare_rules]:
  "(b \<Longrightarrow> holds P m (\<lambda>_. Q ()) E) \<Longrightarrow> (\<And>s. \<not> b \<Longrightarrow> P s \<Longrightarrow> Q () s) \<Longrightarrow> holds P (when_prog b m) Q E"
  by (cases b) (simp_all add: when_prog_def holds_def ret_def)

lemma holds_gets [hoare_rules]: "(\<And>s. P s \<Longrightarrow> Q (f s) s) \<Longrightarrow> holds P (gets f) Q E"
  by (simp add: holds_def gets_def)

lemma holds_modify [hoare_rules]: "(\<And>s. P s \<Longrightarrow> Q () (f s)) \<Longrightarrow> holds P (modify f) Q E"
  by (simp add: holds_def modify_def)

lemma holds_of_sum [hoare_rules]:
  "(\<And>s x. r = Inr x \<Longrightarrow> P s \<Longrightarrow> Q x s) \<Longrightarrow> (\<And>s e. r = Inl e \<Longrightarrow> P s \<Longrightarrow> E e s) \<Longrightarrow> holds P (of_sum r) Q E"
  by (cases r) (simp_all add: holds_def of_sum_def)

lemma holds_each:
  assumes "\<And>x. x \<in> set xs \<Longrightarrow> holds P (f x) (\<lambda>_. P) E"
  shows "holds P (each_prog f xs) (\<lambda>_. P) E"
  using assms by (induction xs) (auto intro!: hoare_rules)

lemma holds_map:
  assumes "\<And>x. x \<in> set xs \<Longrightarrow> holds P (f x) (\<lambda>y s. P s \<and> R x y) E"
  shows "holds P (map_prog f xs) (\<lambda>ys s. P s \<and> list_all2 R xs ys) E"
  using assms
proof (induction xs)
  case (Cons x xs)
  have "holds (\<lambda>s. P s \<and> R x y) (map_prog f xs) (\<lambda>ys s. P s \<and> R x y \<and> list_all2 R xs ys) E" for y
  proof (cases "R x y")
    case True
    with Cons show ?thesis by (auto intro: holds_weaken [OF Cons.IH])
  qed (simp add: holds_def)
  then show ?case
    by (auto intro!: holds_bind [OF Cons.prems] holds_bind [of _ "map_prog f xs" _ _ "\<lambda>ys. ret (_ # ys)"] holds_ret)
qed (auto intro: holds_ret)

lemma holds_conj:
  assumes "holds P m Q E" "holds P' m Q' E'"
  shows "holds (\<lambda>s. P s \<and> P' s) m (\<lambda>x s. Q x s \<and> Q' x s) (\<lambda>e s. E e s \<and> E' e s)"
  using assms by (intro holdsI) (blast dest: holds_returns holds_raises)+

lemma holds_assume: "(\<And>s0. P s0 \<Longrightarrow> holds (\<lambda>s. s = s0) m Q E) \<Longrightarrow> holds P m Q E"
  by (auto simp: holds_def)

text \<open>What a program of a pure question answers does not touch the state.\<close>

lemma ret_simps [run_simps]:
  "ret x s = Some (Inr x, s)" "throw e s = Some (Inl e, s)" "gets f s = Some (Inr (f s), s)"
  "modify g s = Some (Inr (), g s)" "of_sum r s = Some (r, s)"
  by (simp_all add: ret_def throw_def gets_def modify_def of_sum_def)

lemma bind_prog_Some [run_simps]:
  "bind_prog (ret x) f = f x" "bind_prog (throw e) f = throw e" "bind_prog (gets g) f s = f (g s) s"
  "seq_prog (ret x) n = n" "seq_prog (modify h) n s = n (h s)" "seq_prog (throw e) n = throw e"
  by (auto simp: bind_prog_def seq_prog_def fun_eq_iff ret_simps)

end
