(* ===== verification/ToolOutput.thy ===== *)
theory ToolOutput
  imports ToolTypes Utf8
begin

text \<open>
  Raw tool output and its materialization (\<open>roboagent/tool/materializer.py\<close>, the content types of
  \<open>tool/tool.py\<close> and the bounded texts of \<open>tool/executor.py\<close>). Encoding a text that holds a surrogate
  raises; the workspace that stores blobs and the hash are parameters.
\<close>

section \<open>Decoding a cut text\<close>

text \<open>\<open>bytes.decode("utf-8", errors="ignore")\<close>: bytes that start no character are skipped one by one.\<close>

function utf8_ignore :: "bytes \<Rightarrow> pystr" where
  "utf8_ignore bs = (case bs of [] \<Rightarrow> []
     | b # rest \<Rightarrow> (case utf8_next bs of
         None \<Rightarrow> utf8_ignore rest
       | Some (c, r) \<Rightarrow> c # utf8_ignore r))"
  by pat_completeness auto
termination
  by (relation "measure length") (auto dest: utf8_next_shorter)

declare utf8_ignore.simps [simp del]

definition truncation_marker :: pystr where
  "truncation_marker = 10 # ascii ''...[truncated]''"

definition truncate_utf8 :: "pystr \<Rightarrow> nat \<Rightarrow> string + pystr" where
  "truncate_utf8 t limit =
     (let marker_bytes = truncation_marker in
      if limit \<le> length marker_bytes then Inr (utf8_ignore (take limit marker_bytes))
      else case utf8_encode t of None \<Rightarrow> Inl ''UnicodeEncodeError''
        | Some bs \<Rightarrow> Inr (utf8_ignore (take (limit - length marker_bytes) bs) @ truncation_marker))"

section \<open>Raw content\<close>

datatype raw_content =
    RawText pystr bool
  | RawJson json
  | RawBinary bytes "pystr"
  | RawResource pystr "bytes option" "pystr option"

text \<open>The two constructors that check; \<open>scheme\<close> is the verdict of \<open>urlparse\<close> on the address.\<close>

definition make_binary_content :: "bytes \<Rightarrow> pystr \<Rightarrow> protocol_error + raw_content" where
  "make_binary_content data media_type = bind_res (check_mime (Some media_type) None) (\<lambda>_. Inr (RawBinary data media_type))"

definition make_resource_content ::
  "(pystr \<Rightarrow> bool) \<Rightarrow> pystr \<Rightarrow> bytes option \<Rightarrow> pystr option \<Rightarrow> protocol_error + raw_content" where
  "make_resource_content scheme uri data media_type =
     bind_res (raise_if (\<not> scheme uri) (ProtocolError ''ResourceToolContent.uri must be absolute.'')) (\<lambda>_.
     bind_res (check_mime media_type None) (\<lambda>_. Inr (RawResource uri data media_type)))"

definition encode_text :: "pystr \<Rightarrow> string + bytes" where
  "encode_text t = (case utf8_encode t of None \<Rightarrow> Inl ''UnicodeEncodeError'' | Some bs \<Rightarrow> Inr bs)"

definition raw_payload :: "(rat \<Rightarrow> pystr) \<Rightarrow> raw_content \<Rightarrow> string + bytes" where
  "raw_payload frepr item = (case item of
     RawText t _ \<Rightarrow> encode_text t
   | RawJson v \<Rightarrow> encode_text (canonical_json_dumps frepr v)
   | RawBinary data _ \<Rightarrow> Inr data
   | RawResource uri data _ \<Rightarrow> (case data of Some d \<Rightarrow> Inr d | None \<Rightarrow> encode_text uri))"

fun raw_result_size :: "(rat \<Rightarrow> pystr) \<Rightarrow> raw_content list \<Rightarrow> string + nat" where
  "raw_result_size frepr [] = Inr 0"
| "raw_result_size frepr (item # items) =
     bind_res (raw_payload frepr item) (\<lambda>payload.
     bind_res (raw_result_size frepr items) (\<lambda>n. Inr (1 + length payload + n)))"

section \<open>Evidence of a raw result\<close>

definition raw_kind :: "raw_content \<Rightarrow> pystr" where
  "raw_kind item = ascii (case item of
     RawText _ _ \<Rightarrow> ''ToolTextContent'' | RawJson _ \<Rightarrow> ''ToolJsonContent''
   | RawBinary _ _ \<Rightarrow> ''BinaryToolContent'' | RawResource _ _ _ \<Rightarrow> ''ResourceToolContent'')"

definition raw_preview :: "(rat \<Rightarrow> pystr) \<Rightarrow> raw_content \<Rightarrow> pystr" where
  "raw_preview frepr item = (case item of RawText t _ \<Rightarrow> t | RawJson v \<Rightarrow> canonical_json_dumps frepr v | _ \<Rightarrow> [])"

text \<open>\<open>int.to_bytes(8, "big")\<close>; a length of 2^64 or more raises.\<close>

fun big_endian :: "nat \<Rightarrow> nat \<Rightarrow> bytes \<times> nat" where
  "big_endian 0 n = ([], n)"
| "big_endian (Suc k) n = (case big_endian k (n div 256) of (bs, rest) \<Rightarrow> (bs @ [n mod 256], rest))"

definition to_bytes8 :: "nat \<Rightarrow> string + bytes" where
  "to_bytes8 n = (case big_endian 8 n of (bs, rest) \<Rightarrow> if rest = 0 then Inr bs else Inl ''OverflowError'')"

text \<open>One turn of the loop: the bytes fed to the hash, the kinds so far and the first preview.\<close>

definition evidence_step ::
  "(rat \<Rightarrow> pystr) \<Rightarrow> raw_content \<Rightarrow> bytes \<times> pystr list \<times> pystr \<Rightarrow> string + bytes \<times> pystr list \<times> pystr" where
  "evidence_step frepr item st = (case st of (fed, kinds, preview) \<Rightarrow>
     bind_res (raw_payload frepr item) (\<lambda>payload.
     bind_res (to_bytes8 (length payload)) (\<lambda>len.
       Inr (fed @ raw_kind item @ len @ payload,
            (if length kinds < 64 then kinds @ [raw_kind item] else kinds),
            (if preview = [] then raw_preview frepr item else preview)))))"

definition raw_result_evidence ::
  "(rat \<Rightarrow> pystr) \<Rightarrow> (bytes \<Rightarrow> pystr) \<Rightarrow> nat \<Rightarrow> raw_content list \<Rightarrow> string + tool_content" where
  "raw_result_evidence frepr sha max_preview_bytes items =
     bind_res (fold_res (evidence_step frepr) items ([], [], [])) (\<lambda>(fed, kinds, preview).
     bind_res (encode_text preview) (\<lambda>encoded.
       let bounded = utf8_ignore (take max_preview_bytes encoded) in
       Inr (ToolJsonContent (JObj
         [(ascii ''raw_digest'', JStr (ascii ''sha256:'' @ sha fed)),
          (ascii ''block_count'', JInt (int (length items))),
          (ascii ''block_kinds'', JArr (map JStr kinds)),
          (ascii ''block_kinds_truncated'', JBool (length kinds < length items)),
          (ascii ''preview'', if bounded = [] then JNull else JStr bounded)]))))"

end
