(* ===== verification/ExecutorTypes.thy ===== *)
theory ExecutorTypes
  imports Programs ToolOutput ExecSteps
begin

text \<open>
  What the tool executor works with (\<open>roboagent/tool/executor.py\<close>, \<open>tool/approval.py\<close>): its exceptions,
  its settings, the contexts of calls, and the code it calls and does not contain. That code (policy, hooks,
  approval provider, tool handlers, materializer, event sink) is a record of functions that say how a call
  of it ends. The executor shares its tree with other tasks: at every await the next entry of a script
  says what they did to the tree and whether the await raised.
\<close>

section \<open>Exceptions\<close>

record run_error =
  re_code :: pystr
  re_message :: pystr
  re_retryable :: bool
  re_cause :: "pystr option"

datatype py_exc =
    BatchAborted run_error "effect list"
  | BatchCancelled "effect list"
  | TaskCancelled
  | CompositeCancellation "effect list" "supplemental list"
  | EffectUnknownError tool_error_info
  | CompositeFailure tool_error_info "effect list" "supplemental list"
  | ExecutionFailure tool_error_info
  | ContractError pystr
  | SettlementRaised pystr
  | OtherException pystr

text \<open>\<open>ToolBatchCancelled\<close> is a \<open>CancelledError\<close>, and a \<open>CancelledError\<close> is no \<open>Exception\<close>.\<close>

fun is_cancelled_error :: "py_exc \<Rightarrow> bool" where
  "is_cancelled_error TaskCancelled = True"
| "is_cancelled_error (BatchCancelled _) = True"
| "is_cancelled_error _ = False"

definition is_timeout_error :: "py_exc \<Rightarrow> bool" where
  "is_timeout_error e \<longleftrightarrow> e = OtherException (ascii ''TimeoutError'')"

fun type_name :: "py_exc \<Rightarrow> pystr" where
  "type_name (BatchAborted _ _) = ascii ''ToolBatchAborted''"
| "type_name (BatchCancelled _) = ascii ''ToolBatchCancelled''"
| "type_name TaskCancelled = ascii ''CancelledError''"
| "type_name (CompositeCancellation _ _) = ascii ''_CompositeToolCancellation''"
| "type_name (EffectUnknownError _) = ascii ''ToolEffectUnknown''"
| "type_name (CompositeFailure _ _ _) = ascii ''CompositeToolExecutionFailure''"
| "type_name (ExecutionFailure _) = ascii ''ToolExecutionFailure''"
| "type_name (ContractError _) = ascii ''ToolContractError''"
| "type_name (SettlementRaised _) = ascii ''SettlementError''"
| "type_name (OtherException n) = n"

definition exec_exception :: "exec_error \<Rightarrow> py_exc" where
  "exec_exception e = OtherException (ascii (case e of
     ExecutionInvariantError _ \<Rightarrow> ''ExecutionInvariantError'' | ExecutionRequestError _ \<Rightarrow> ''ExecutionRequestError''
   | PyKeyError \<Rightarrow> ''KeyError'' | PyValueError _ \<Rightarrow> ''ValueError'' | PyTypeError _ \<Rightarrow> ''TypeError''))"

section \<open>Approval\<close>

datatype approval_decision = APPROVE | REJECT_CALL

record approval_request =
  aq_id :: pystr
  aq_run :: pystr
  aq_session :: pystr
  aq_call :: pystr
  aq_tool :: pystr
  aq_arguments :: jobj
  aq_digest :: pystr
  aq_reason :: "pystr option"
  aq_lineage :: "lineage option"
  aq_capability :: "pystr option"

record approval_response =
  rp_approval :: pystr
  rp_digest :: pystr
  rp_decision :: approval_decision

definition effect_capability :: "tool_effect_kind \<Rightarrow> pystr" where
  "effect_capability k = ascii (case k of READ_ONLY \<Rightarrow> ''read_only'' | SIDE_EFFECTING \<Rightarrow> ''side_effecting'')"

text \<open>The digest of the arguments is computed again by the constructor; \<open>None\<close> is arguments that do not encode.\<close>

definition make_approval_request ::
  "codec \<Rightarrow> pystr \<Rightarrow> pystr \<Rightarrow> pystr \<Rightarrow> pystr \<Rightarrow> pystr \<Rightarrow> jobj \<Rightarrow> pystr \<Rightarrow> pystr option \<Rightarrow> lineage option
     \<Rightarrow> pystr option \<Rightarrow> string + approval_request" where
  "make_approval_request cx i run session call name arguments digest why li capability =
     (if i = [] \<or> run = [] \<or> session = [] \<or> call = [] \<or> name = []
      then Inl ''ApprovalRequest identity fields must be non-empty.''
      else if canonical_json_digest (cx_float cx) (cx_sha cx) (JObj arguments) \<noteq> Some digest
      then Inl ''ApprovalRequest arguments_digest does not match arguments.''
      else if capability \<notin> {None, Some (ascii ''read_only''), Some (ascii ''side_effecting'')}
      then Inl ''ApprovalRequest.effect_capability is invalid.''
      else Inr \<lparr>aq_id = i, aq_run = run, aq_session = session, aq_call = call, aq_tool = name,
                aq_arguments = arguments, aq_digest = digest, aq_reason = why, aq_lineage = li,
                aq_capability = capability\<rparr>)"

definition make_approval_response :: "pystr \<Rightarrow> pystr \<Rightarrow> approval_decision \<Rightarrow> string + approval_response" where
  "make_approval_response i digest decision =
     (if i = [] \<or> digest = [] then Inl ''Invalid ApprovalResponse.''
      else Inr \<lparr>rp_approval = i, rp_digest = digest, rp_decision = decision\<rparr>)"

section \<open>Contexts, settings and foreign code\<close>

text \<open>
  \<open>tx_scope\<close> is the scope of a runtime tool context, \<open>None\<close> another execution context or none. \<open>tx_token\<close>
  is a token of the tree's store, \<open>None\<close> a token of another kind. \<open>tx_snapshot\<close> stands for the world
  snapshot of the decision, which is only passed on.
\<close>

record tool_context =
  tx_run :: pystr
  tx_session :: pystr
  tx_token :: "nat option"
  tx_scope :: "pystr option"
  tx_message :: "pystr option"
  tx_snapshot :: "nat option"

record executor_config =
  ec_max_calls :: nat
  ec_max_concurrency :: nat
  ec_default_timeout :: "rat option"
  ec_grace :: rat
  ec_max_error :: nat

definition make_executor_config :: "nat \<Rightarrow> nat \<Rightarrow> rat option \<Rightarrow> rat \<Rightarrow> nat \<Rightarrow> string + executor_config" where
  "make_executor_config calls concurrency timeout grace errors =
     (if calls < 1 \<or> concurrency < 1 then Inl ''Tool call and concurrency limits must be positive.''
      else if (case timeout of None \<Rightarrow> False | Some x \<Rightarrow> x \<le> 0) then Inl ''default_timeout must be positive or None.''
      else if grace < 0 \<or> errors < 1 then Inl ''Invalid ToolExecutor limits.''
      else Inr \<lparr>ec_max_calls = calls, ec_max_concurrency = concurrency, ec_default_timeout = timeout,
                ec_grace = grace, ec_max_error = errors\<rparr>)"

datatype tool_decision = ALLOW | REJECT | FAIL_RUN | REQUIRE_APPROVAL

datatype policy_answer =
    PolicyDecides tool_decision "pystr option"
  | PolicyInvalid
  | PolicyRaises py_exc

datatype approval_answer =
    ApprovalCancelled
  | ApprovalTimedOut
  | ApprovalInterrupted
  | ApprovalRaises py_exc
  | ApprovalInvalid
  | ApprovalGives approval_response

datatype hook_decision = HOOK_CONTINUE | HOOK_FAIL_RUN

text \<open>
  How one callback of a hook ends; the decision is \<open>None\<close> when it is not of the expected kind, and
  \<open>HookInterrupted\<close> is the executor's own task being cancelled.
\<close>

datatype 'a hook_answer =
    HookMissing
  | HookRaises py_exc
  | HookCancelled
  | HookTimedOut
  | HookInterrupted
  | HookGives "'a option"

datatype handler_return =
    LeafReturn "raw_content list"
  | CompositeReturn "tool_content option list" "effect list" "supplemental list"

datatype task_end = TaskReturns handler_return | TaskRaises py_exc

text \<open>The first wait on a running tool, and the second after it was cancelled.\<close>

datatype wait_end = WaitCancelled | WaitTimedOut | WaitInterrupted | WaitDone task_end

datatype settle_end = SettleTimedOut | SettleDone task_end

datatype material_answer =
    MaterialGives "tool_content list"
  | MaterialError pystr
  | MaterialRaises py_exc

datatype timeout_answer = TimeoutGives "rat option" | TimeoutRaises py_exc

record foreign =
  fo_uuid :: "tree \<Rightarrow> pystr"
  fo_now :: "tool_context \<Rightarrow> rat"
  fo_invalid :: "tool \<Rightarrow> jobj \<Rightarrow> tool_error_info option"
  fo_redactor :: "tool \<Rightarrow> (jobj \<Rightarrow> jobj option) option"
  fo_timeout :: "tool \<Rightarrow> jobj \<Rightarrow> timeout_answer"
  fo_policy :: "tool_call \<Rightarrow> tool option \<Rightarrow> tool_context \<Rightarrow> policy_answer"
  fo_approval :: "approval_request \<Rightarrow> approval_answer"
  fo_approval_id :: "tool_call \<Rightarrow> tool_context \<Rightarrow> pystr"
  fo_before :: "tool_call \<Rightarrow> tool_context \<Rightarrow> hook_decision hook_answer list"
  fo_after :: "tool_execution_result \<Rightarrow> tool_context \<Rightarrow> unit hook_answer list"
  fo_run :: "tool \<Rightarrow> tool_call \<Rightarrow> tool_context \<Rightarrow> wait_end"
  fo_settle :: "tool \<Rightarrow> tool_call \<Rightarrow> tool_context \<Rightarrow> bool \<Rightarrow> settle_end"
  fo_material :: "raw_content list \<Rightarrow> tool_call \<Rightarrow> tool_context \<Rightarrow> material_answer"

record executor =
  ex_config :: executor_config
  ex_registry :: registry
  ex_events :: bool
  ex_provider :: bool
  ex_codec :: codec
  ex_foreign :: foreign

section \<open>State\<close>

record tool_event =
  tv_type :: string
  tv_lineage :: "lineage option"
  tv_call :: pystr
  tv_tool :: pystr
  tv_message_id :: "pystr option"
  tv_payload :: "(string \<times> pystr option) list"

text \<open>One entry of the script: what other tasks do while the executor awaits, and what the await raises.\<close>

datatype interlude = Interlude (il_tree: "tree \<Rightarrow> tree") (il_cancel: bool) (il_raise: "py_exc option")

record xstate =
  xs_tree :: tree
  xs_cancelled :: bool
  xs_events :: "tool_event list"
  xs_script :: "interlude list"

type_synonym 'a xprog = "(xstate, py_exc, 'a) prog"

definition pass_interlude :: "interlude \<Rightarrow> xstate \<Rightarrow> xstate" where
  "pass_interlude i s = s\<lparr>xs_tree := il_tree i (xs_tree s), xs_cancelled := xs_cancelled s \<or> il_cancel i\<rparr>"

definition pause :: "unit xprog" where
  "pause s = (case xs_script s of
     [] \<Rightarrow> Some (Inr (), s)
   | i # rest \<Rightarrow>
       let s1 = pass_interlude i (s\<lparr>xs_script := rest\<rparr>) in
       (case il_raise i of None \<Rightarrow> Some (Inr (), s1) | Some e \<Rightarrow> Some (Inl e, s1)))"

definition token_cancelled :: "tool_context \<Rightarrow> xstate \<Rightarrow> bool" where
  "token_cancelled tx s = (case tx_token tx of Some i \<Rightarrow> cancelled (t_tokens (xs_tree s)) i | None \<Rightarrow> xs_cancelled s)"

definition check_token :: "tool_context \<Rightarrow> unit xprog" where
  "check_token tx = bind_prog (gets (token_cancelled tx)) (\<lambda>b. if b then throw TaskCancelled else ret ())"

text \<open>Calls of the tree: those that raise leave it as it was, contributions may leave a part.\<close>

definition tree_call :: "(tree \<Rightarrow> exec_error + 'a \<times> tree) \<Rightarrow> 'a xprog" where
  "tree_call f s = (case f (xs_tree s) of
     Inl e \<Rightarrow> Some (Inl (exec_exception e), s)
   | Inr (x, t) \<Rightarrow> Some (Inr x, s\<lparr>xs_tree := t\<rparr>))"

definition tree_update :: "(tree \<Rightarrow> exec_error + tree) \<Rightarrow> unit xprog" where
  "tree_update f = tree_call (\<lambda>t. bind_res (f t) (\<lambda>u. Inr ((), u)))"

definition tree_ledger :: "(tree \<Rightarrow> tree \<times> exec_error option) \<Rightarrow> unit xprog" where
  "tree_ledger f s = (case f (xs_tree s) of
     (t, None) \<Rightarrow> Some (Inr (), s\<lparr>xs_tree := t\<rparr>)
   | (t, Some e) \<Rightarrow> Some (Inl (exec_exception e), s\<lparr>xs_tree := t\<rparr>))"

definition value_or_error :: "string + 'a \<Rightarrow> 'a xprog" where
  "value_or_error r = of_sum (case r of Inl _ \<Rightarrow> Inl (OtherException (ascii ''ValueError'')) | Inr x \<Rightarrow> Inr x)"

definition scope_lineage :: "tree \<Rightarrow> pystr \<Rightarrow> lineage option" where
  "scope_lineage t sid = map_option sc_lineage (dget (t_scopes t) sid)"

definition context_lineage :: "tool_context \<Rightarrow> xstate \<Rightarrow> lineage option" where
  "context_lineage tx s = (case tx_scope tx of None \<Rightarrow> None | Some sid \<Rightarrow> scope_lineage (xs_tree s) sid)"

end
