(* ===== verification/Executor.thy ===== *)
theory Executor
  imports ExecutorTypes
begin

text \<open>
  One call of the tool executor (\<open>roboagent/tool/executor.py\<close>): preparing it (arguments, policy, approval,
  timeout), running it with every way its task can end, the evidence collected from a task that was
  cancelled, and closing its scope. One definition per method.
\<close>

section \<open>Events\<close>

definition tool_event_of ::
  "string \<Rightarrow> tool_call \<Rightarrow> tool_context \<Rightarrow> (string \<times> pystr option) list \<Rightarrow> xstate \<Rightarrow> tool_event" where
  "tool_event_of kind call tx payload s =
     \<lparr>tv_type = kind, tv_lineage = context_lineage tx s, tv_call = tc_id call, tv_tool = tc_name call,
      tv_message_id = tx_message tx, tv_payload = payload\<rparr>"

definition emit ::
  "executor \<Rightarrow> string \<Rightarrow> tool_call \<Rightarrow> tool_context \<Rightarrow> (string \<times> pystr option) list \<Rightarrow> unit xprog" where
  "emit ex kind call tx payload = when_prog (ex_events ex)
     (seq_prog (modify (\<lambda>s. s\<lparr>xs_events := xs_events s @ [tool_event_of kind call tx payload s]\<rparr>)) pause)"

definition emit_terminal :: "executor \<Rightarrow> string \<Rightarrow> tool_call \<Rightarrow> pystr option \<Rightarrow> tool_context \<Rightarrow> unit xprog" where
  "emit_terminal ex kind call code tx = emit ex kind call tx [(''error_code'', code)]"

definition emit_approval_resolved ::
  "executor \<Rightarrow> approval_request \<Rightarrow> tool_call \<Rightarrow> tool_context \<Rightarrow> string \<Rightarrow> string option \<Rightarrow> unit xprog" where
  "emit_approval_resolved ex request call tx result code =
     emit ex ''approval.resolved'' call tx
       [(''approval_id'', Some (aq_id request)), (''arguments_digest'', Some (aq_digest request)),
        (''outcome'', Some (ascii result)), (''error_code'', map_option ascii code)]"

section \<open>Errors and results\<close>

definition ellipsis :: nat where
  "ellipsis = 8230"

definition bounded_error :: "executor \<Rightarrow> tool_error_info \<Rightarrow> string + tool_error_info" where
  "bounded_error ex e =
     (let limit = ec_max_error (ex_config ex) in
      if length (te_message e) \<le> limit then Inr e
      else make_tool_error (te_code e)
        (if limit = 1 then [ellipsis] else take (limit - 1) (te_message e) @ [ellipsis]) (te_retryable e))"

definition tool_error :: "string \<Rightarrow> string \<Rightarrow> string + tool_error_info" where
  "tool_error code message = make_tool_error (ascii code) (ascii message) False"

definition error_result :: "tool_call \<Rightarrow> tool_error_info \<Rightarrow> string + tool_execution_result" where
  "error_result call e = make_tool_result_value (tc_id call) (tc_name call) None (Some e)"

definition content_result :: "tool_call \<Rightarrow> tool_content list \<Rightarrow> string + tool_execution_result" where
  "content_result call content = make_tool_result_value (tc_id call) (tc_name call) (Some content) None"

text \<open>\<open>_error\<close>\<close>

definition make_error :: "executor \<Rightarrow> tool_call \<Rightarrow> string \<Rightarrow> string \<Rightarrow> string + tool_execution_result" where
  "make_error ex call code message =
     bind_res (tool_error code message) (\<lambda>e. bind_res (bounded_error ex e) (error_result call))"

text \<open>The constructor of \<open>RunError\<close> checks its code.\<close>

definition abort_with :: "pystr \<Rightarrow> string \<Rightarrow> pystr option \<Rightarrow> effect list \<Rightarrow> 'a xprog" where
  "abort_with code message cause es =
     (if error_code_ok code
      then throw (BatchAborted \<lparr>re_code = code, re_message = ascii message, re_retryable = False, re_cause = cause\<rparr> es)
      else throw (OtherException (ascii ''ValueError'')))"

section \<open>Records and effects\<close>

definition evidence_of :: "tool_execution_result \<Rightarrow> jobj option" where
  "evidence_of r = (case tr_error r of
     Some e \<Rightarrow> Some [(ascii ''error'', JStr (te_message e)), (ascii ''retryable'', JBool (te_retryable e))]
   | None \<Rightarrow> (case tr_content r of
       Some content \<Rightarrow> Some [(ascii ''content_blocks'', JInt (int (length content)))]
     | None \<Rightarrow> None))"

text \<open>A redactor that raises, or answers with something else than an object, hides the arguments.\<close>

definition preview_for :: "executor \<Rightarrow> tool_call \<Rightarrow> jobj option" where
  "preview_for ex call = (case registry_get (ex_registry ex) (tc_name call) of
     None \<Rightarrow> Some (tc_arguments call)
   | Some tool \<Rightarrow> (case fo_redactor (ex_foreign ex) tool of
       None \<Rightarrow> Some (tc_arguments call)
     | Some redactor \<Rightarrow> redactor (tc_arguments call)))"

definition record_call ::
  "executor \<Rightarrow> tool_context \<Rightarrow> tool_call \<Rightarrow> tool_execution_result \<Rightarrow> record_status \<Rightarrow> unit xprog" where
  "record_call ex tx call result status = (case tx_scope tx of None \<Rightarrow> ret ()
     | Some sid \<Rightarrow> tree_update (record_tool_call (ex_codec ex) sid (tc_id call) (tc_name call) (tc_arguments call)
         (preview_for ex call) status (map_option te_code (tr_error result)) (evidence_of result)))"

definition record_error ::
  "executor \<Rightarrow> tool_context \<Rightarrow> tool_call \<Rightarrow> pystr \<Rightarrow> record_status \<Rightarrow> unit xprog" where
  "record_error ex tx call code status =
     bind_prog (value_or_error (make_tool_error code (ascii ''Tool execution did not complete.'') False)) (\<lambda>e.
     bind_prog (value_or_error (error_result call e)) (\<lambda>result.
     record_call ex tx call result status))"

definition certainty_for :: "tool_effect_status \<Rightarrow> effect_certainty" where
  "certainty_for status = (if status = EF_SUCCEEDED then CERTAIN
     else if status = EF_UNKNOWN then CERTAINTY_UNKNOWN else CERTAIN_NO_EFFECT)"

text \<open>\<open>_effect\<close>\<close>

definition effect_of ::
  "tool_context \<Rightarrow> tool_call \<Rightarrow> tool \<Rightarrow> tool_effect_status \<Rightarrow> tool_content option \<Rightarrow> tool_error_info option
     \<Rightarrow> effect xprog" where
  "effect_of tx call tool status content error =
     bind_prog (case tx_scope tx of None \<Rightarrow> ret None
         | Some sid \<Rightarrow> bind_prog (tree_call (next_effect_id sid)) (\<lambda>i. ret (Some i))) (\<lambda>i.
     value_or_error (make_effect (tc_id call) (tc_name call) (tl_kind tool) status content error False i
       (Some (certainty_for status))))"

text \<open>\<open>replace(effect, effect_id=...)\<close> runs the constructor again.\<close>

definition with_identity :: "effect_identity \<Rightarrow> effect \<Rightarrow> string + effect" where
  "with_identity i e = make_effect (ef_call_id e) (ef_tool_name e) (ef_kind e) (ef_status e) (ef_content e)
     (ef_error e) (ef_committed e) (Some i) (Some (ef_certainty e))"

fun identity_loop :: "pystr \<Rightarrow> effect_identity list \<Rightarrow> effect list \<Rightarrow> effect list xprog" where
  "identity_loop sid seen [] = ret []"
| "identity_loop sid seen (e # es) =
     bind_prog (case ef_id e of
         Some i \<Rightarrow> ret (i, e)
       | None \<Rightarrow> bind_prog (tree_call (next_effect_id sid)) (\<lambda>i.
           bind_prog (value_or_error (with_identity i e)) (\<lambda>v. ret (i, v)))) (\<lambda>(i, v).
       if ei_scope i \<noteq> sid
       then throw (ContractError (ascii ''Composite Tool returned an effect owned by another scope.''))
       else if i \<in> set seen then identity_loop sid seen es
       else bind_prog (identity_loop sid (i # seen) es) (\<lambda>vs. ret (v # vs)))"

definition identity_effects :: "tool_context \<Rightarrow> effect list \<Rightarrow> effect list xprog" where
  "identity_effects tx es = (case tx_scope tx of None \<Rightarrow> ret es | Some sid \<Rightarrow> identity_loop sid [] es)"

definition contribute_call_effects :: "executor \<Rightarrow> tool_context \<Rightarrow> effect list \<Rightarrow> unit xprog" where
  "contribute_call_effects ex tx es = (case tx_scope tx of None \<Rightarrow> ret ()
     | Some sid \<Rightarrow> when_prog (es \<noteq> []) (tree_ledger (contribute_effects (ex_codec ex) sid es)))"

definition contribute_call_composite ::
  "executor \<Rightarrow> tool_context \<Rightarrow> effect list \<Rightarrow> supplemental list \<Rightarrow> unit xprog" where
  "contribute_call_composite ex tx es rs = (case tx_scope tx of None \<Rightarrow> ret ()
     | Some sid \<Rightarrow> tree_ledger (contribute_composite (ex_codec ex) sid es rs))"

definition contribute_cancelled ::
  "executor \<Rightarrow> tool_context \<Rightarrow> tool \<Rightarrow> effect list \<times> supplemental list \<Rightarrow> unit xprog" where
  "contribute_cancelled ex tx tool evidence =
     (if tl_reporting tool = COMPOSITE then contribute_call_composite ex tx (fst evidence) (snd evidence)
      else contribute_call_effects ex tx (fst evidence))"

definition validate_composite_content :: "tool_content option list \<Rightarrow> tool_content list xprog" where
  "validate_composite_content content =
     (if None \<in> set content then throw (ContractError (ascii ''invalid_composite_tool_content''))
      else ret (List.map_filter id content))"

section \<open>Hooks\<close>

text \<open>\<open>_await_hook\<close>: a timeout of a cancelled call is a cancellation.\<close>

definition await_hook :: "tool_context \<Rightarrow> 'a hook_answer \<Rightarrow> 'a option xprog" where
  "await_hook tx answer = seq_prog pause (case answer of
     HookMissing \<Rightarrow> ret None
   | HookRaises e \<Rightarrow> throw e
   | HookCancelled \<Rightarrow> throw TaskCancelled
   | HookInterrupted \<Rightarrow> throw TaskCancelled
   | HookTimedOut \<Rightarrow> seq_prog (check_token tx) (throw (OtherException (ascii ''TimeoutError'')))
   | HookGives v \<Rightarrow> ret v)"

definition hook_failed :: "string \<Rightarrow> py_exc \<Rightarrow> 'a xprog" where
  "hook_failed message e = (if is_cancelled_error e then throw e
     else abort_with (ascii ''hook_error'') message (Some (type_name e)) [])"

definition before_one :: "tool_context \<Rightarrow> hook_decision hook_answer \<Rightarrow> unit xprog" where
  "before_one tx answer =
     bind_prog (catch_prog (await_hook tx answer) (hook_failed ''before_tool hook failed.'')) (\<lambda>decision.
       case decision of
         None \<Rightarrow> abort_with (ascii ''hook_error'') ''before_tool hook returned an invalid decision.'' None []
       | Some HOOK_FAIL_RUN \<Rightarrow> abort_with (ascii ''hook_error'') ''before_tool hook failed the Run.'' None []
       | Some HOOK_CONTINUE \<Rightarrow> ret ())"

definition present :: "'a hook_answer list \<Rightarrow> 'a hook_answer list" where
  "present = filter (\<lambda>h. case h of HookMissing \<Rightarrow> False | _ \<Rightarrow> True)"

definition before_tool :: "executor \<Rightarrow> tool_context \<Rightarrow> tool_call \<Rightarrow> unit xprog" where
  "before_tool ex tx call = each_prog (before_one tx) (present (fo_before (ex_foreign ex) call tx))"

text \<open>An \<open>after_tool\<close> hook must answer \<open>None\<close>, here \<open>Some ()\<close>.\<close>

definition after_one :: "tool_context \<Rightarrow> unit hook_answer \<Rightarrow> unit xprog" where
  "after_one tx answer = catch_prog
     (bind_prog (await_hook tx answer) (\<lambda>v. case v of
        Some _ \<Rightarrow> ret () | None \<Rightarrow> throw (OtherException (ascii ''TypeError''))))
     (hook_failed ''after_tool hook failed.'')"

definition after_tool :: "executor \<Rightarrow> tool_context \<Rightarrow> tool_execution_result \<Rightarrow> unit xprog" where
  "after_tool ex tx result = seq_prog (check_token tx)
     (each_prog (after_one tx) (present (fo_after (ex_foreign ex) result tx)))"

definition after_with_effect ::
  "executor \<Rightarrow> tool_context \<Rightarrow> tool_execution_result \<Rightarrow> effect list \<Rightarrow> unit xprog" where
  "after_with_effect ex tx result es = catch_prog (after_tool ex tx result) (\<lambda>e.
     if is_cancelled_error e then throw (BatchCancelled es)
     else case e of BatchAborted why _ \<Rightarrow> throw (BatchAborted why es) | _ \<Rightarrow> throw e)"

section \<open>A task that was cancelled\<close>

definition settling :: "tool_context \<Rightarrow> xstate \<Rightarrow> bool" where
  "settling tx s = (case tx_scope tx of None \<Rightarrow> False
     | Some sid \<Rightarrow> (case dget (t_scopes (xs_tree s)) sid of None \<Rightarrow> False | Some q \<Rightarrow> 0 < sc_active q))"

definition cancel_token :: "tool_context \<Rightarrow> bool \<Rightarrow> unit xprog" where
  "cancel_token tx timed_out = (case (tx_scope tx, tx_token tx) of
     (Some _, Some i) \<Rightarrow> modify (\<lambda>s. s\<lparr>xs_tree := (xs_tree s)\<lparr>t_tokens :=
         cancel (if timed_out then TIMEOUT else USER) O_RUNTIME i (t_tokens (xs_tree s))\<rparr>\<rparr>)
   | _ \<Rightarrow> ret ())"

text \<open>
  The second wait: without a grace period while a settlement is active, so that a task that does not end
  then is waited for without end. An answer \<open>None\<close> is the end of the grace period. A task that has ended
  answers again what it answered; \<open>again\<close> is a later wait on a task that had not.
\<close>

definition settle_of :: "executor \<Rightarrow> tool \<Rightarrow> tool_call \<Rightarrow> tool_context \<Rightarrow> bool \<Rightarrow> settle_end" where
  "settle_of ex tool call tx again = (case fo_run (ex_foreign ex) tool call tx of
     WaitDone ended \<Rightarrow> SettleDone ended
   | WaitInterrupted \<Rightarrow> fo_settle (ex_foreign ex) tool call tx False
   | _ \<Rightarrow> if again \<and> fo_settle (ex_foreign ex) tool call tx False = SettleTimedOut
       then fo_settle (ex_foreign ex) tool call tx True else fo_settle (ex_foreign ex) tool call tx False)"

definition await_settled :: "executor \<Rightarrow> tool \<Rightarrow> tool_call \<Rightarrow> tool_context \<Rightarrow> bool \<Rightarrow> handler_return option xprog" where
  "await_settled ex tool call tx again = bind_prog (gets (settling tx)) (\<lambda>active. seq_prog pause
     (case settle_of ex tool call tx again of
        SettleTimedOut \<Rightarrow> if active then (\<lambda>_. None) else ret None
      | SettleDone (TaskRaises e) \<Rightarrow> throw e
      | SettleDone (TaskReturns v) \<Rightarrow> ret (Some v)))"

definition error_effect ::
  "tool_context \<Rightarrow> tool_call \<Rightarrow> tool \<Rightarrow> tool_effect_status \<Rightarrow> string + tool_error_info \<Rightarrow> effect xprog" where
  "error_effect tx call tool status r =
     bind_prog (value_or_error r) (\<lambda>e. effect_of tx call tool status None (Some e))"

type_synonym evidence = "effect list \<times> supplemental list"

definition leaf_evidence ::
  "tool_context \<Rightarrow> tool_call \<Rightarrow> tool \<Rightarrow> tool_effect_status \<Rightarrow> string + tool_error_info \<Rightarrow> evidence xprog" where
  "leaf_evidence tx call tool status r =
     (if tl_reporting tool = COMPOSITE then ret ([], [])
      else bind_prog (error_effect tx call tool status r) (\<lambda>e. ret ([e], [])))"

definition composite_evidence ::
  "tool_context \<Rightarrow> effect list \<Rightarrow> supplemental list \<Rightarrow> evidence xprog" where
  "composite_evidence tx es rs = bind_prog (identity_effects tx es) (\<lambda>vs. ret (vs, rs))"

text \<open>What is known when the task did not answer.\<close>

definition unsettled_evidence :: "tool_context \<Rightarrow> tool_call \<Rightarrow> tool \<Rightarrow> bool \<Rightarrow> evidence xprog" where
  "unsettled_evidence tx call tool timed_out =
     (if tl_kind tool = SIDE_EFFECTING
      then leaf_evidence tx call tool EF_UNKNOWN
        (if timed_out then tool_error ''timeout'' ''Tool execution timed out; its side effect could not be determined.''
         else tool_error ''effect_unknown'' ''Tool side effect could not be determined.'')
      else if timed_out
      then leaf_evidence tx call tool EF_TIMED_OUT (tool_error ''timeout'' ''Tool execution timed out.'')
      else leaf_evidence tx call tool EF_CANCELLED (tool_error ''cancelled'' ''Tool execution was cancelled.''))"

text \<open>The \<open>except\<close> clauses, in their order; \<open>None\<close> is the clauses that fall through.\<close>

definition settled_raise ::
  "executor \<Rightarrow> tool_context \<Rightarrow> tool_call \<Rightarrow> tool \<Rightarrow> py_exc \<Rightarrow> evidence option xprog" where
  "settled_raise ex tx call tool e =
     (if is_timeout_error e \<or> is_cancelled_error e then ret None
      else bind_prog (case e of
          CompositeCancellation es rs \<Rightarrow>
            if tl_reporting tool = COMPOSITE then composite_evidence tx es rs else ret ([], [])
        | CompositeFailure why es rs \<Rightarrow>
            if tl_reporting tool = COMPOSITE then composite_evidence tx es rs
            else leaf_evidence tx call tool EF_FAILED (bounded_error ex why)
        | EffectUnknownError why \<Rightarrow> leaf_evidence tx call tool EF_UNKNOWN (bounded_error ex why)
        | ExecutionFailure why \<Rightarrow> leaf_evidence tx call tool EF_FAILED (bounded_error ex why)
        | _ \<Rightarrow> if tl_kind tool = SIDE_EFFECTING
            then leaf_evidence tx call tool EF_UNKNOWN
              (tool_error ''effect_unknown'' ''Tool side effect could not be determined.'')
            else leaf_evidence tx call tool EF_FAILED
              (tool_error ''execution_error'' ''Tool execution failed during cancellation.''))
        (\<lambda>v. ret (Some v)))"

definition raw_evidence :: "executor \<Rightarrow> raw_content list \<Rightarrow> tool_content xprog" where
  "raw_evidence ex raw =
     value_or_error (raw_result_evidence (cx_float (ex_codec ex)) (cx_sha (ex_codec ex)) 1024 raw)"

definition settled_return ::
  "executor \<Rightarrow> tool_context \<Rightarrow> tool_call \<Rightarrow> tool \<Rightarrow> handler_return \<Rightarrow> evidence xprog" where
  "settled_return ex tx call tool v = (case v of
     CompositeReturn _ es rs \<Rightarrow>
       if tl_reporting tool \<noteq> COMPOSITE then ret ([], []) else composite_evidence tx es rs
   | LeafReturn raw \<Rightarrow>
       bind_prog (raw_evidence ex raw) (\<lambda>content.
       bind_prog (effect_of tx call tool EF_SUCCEEDED (Some content) None) (\<lambda>e. ret ([e], []))))"

text \<open>\<open>_cancel_started\<close>\<close>

definition cancel_started ::
  "executor \<Rightarrow> tool \<Rightarrow> tool_call \<Rightarrow> tool_context \<Rightarrow> bool \<Rightarrow> bool \<Rightarrow> evidence xprog" where
  "cancel_started ex tool call tx timed_out again = seq_prog (cancel_token tx timed_out)
     (bind_prog
        (catch_prog (bind_prog (await_settled ex tool call tx again) (\<lambda>r. ret (map_option Inl r)))
           (\<lambda>e. bind_prog (settled_raise ex tx call tool e) (\<lambda>v. ret (map_option Inr v)))) (\<lambda>r.
      case r of
        None \<Rightarrow> unsettled_evidence tx call tool timed_out
      | Some (Inl v) \<Rightarrow> settled_return ex tx call tool v
      | Some (Inr evidence) \<Rightarrow> ret evidence))"

section \<open>Approval\<close>

definition failed_result :: "executor \<Rightarrow> tool_call \<Rightarrow> string \<Rightarrow> string \<Rightarrow> tool_execution_result xprog" where
  "failed_result ex call code message = value_or_error (make_error ex call code message)"

definition approval_abort ::
  "executor \<Rightarrow> approval_request \<Rightarrow> tool_call \<Rightarrow> tool_context \<Rightarrow> string \<Rightarrow> string \<Rightarrow> string \<Rightarrow> pystr option \<Rightarrow> 'a xprog" where
  "approval_abort ex request call tx result code message cause =
     seq_prog (emit_approval_resolved ex request call tx result (Some code)) (abort_with (ascii code) message cause [])"

definition approval_denied ::
  "executor \<Rightarrow> approval_request \<Rightarrow> tool_call \<Rightarrow> tool_context \<Rightarrow> string \<Rightarrow> string \<Rightarrow> string
     \<Rightarrow> tool_execution_result option xprog" where
  "approval_denied ex request call tx result code message =
     bind_prog (failed_result ex call code message) (\<lambda>r.
     seq_prog (emit_approval_resolved ex request call tx result (Some code))
       (seq_prog (emit_terminal ex ''tool.failed'' call (Some (ascii code)) tx) (ret (Some r))))"

definition approval_answered ::
  "executor \<Rightarrow> approval_request \<Rightarrow> tool_call \<Rightarrow> tool_context \<Rightarrow> approval_response \<Rightarrow> tool_execution_result option xprog" where
  "approval_answered ex request call tx response =
     (if rp_approval response \<noteq> aq_id request \<or> rp_digest response \<noteq> aq_digest request
      then approval_abort ex request call tx ''mismatch'' ''approval_mismatch''
        ''Approval response did not match the ToolCall.'' None
      else if rp_decision response = REJECT_CALL
      then approval_denied ex request call tx ''rejected'' ''approval_rejected'' ''Tool call was not approved.''
      else seq_prog (emit_approval_resolved ex request call tx ''approved'' None) (ret None))"

definition await_approval ::
  "executor \<Rightarrow> approval_request \<Rightarrow> tool_call \<Rightarrow> tool_context \<Rightarrow> tool_execution_result option xprog" where
  "await_approval ex request call tx = seq_prog pause (case fo_approval (ex_foreign ex) request of
     ApprovalInterrupted \<Rightarrow> throw TaskCancelled
   | ApprovalCancelled \<Rightarrow>
       seq_prog (emit_approval_resolved ex request call tx ''cancelled'' (Some ''cancelled'')) (throw TaskCancelled)
   | ApprovalTimedOut \<Rightarrow> seq_prog (check_token tx)
       (approval_denied ex request call tx ''timed_out'' ''approval_timeout'' ''Tool approval timed out.'')
   | ApprovalRaises e \<Rightarrow>
       if is_cancelled_error e
       then seq_prog (check_token tx) (approval_abort ex request call tx ''error'' ''approval_error''
         ''Approval provider cancelled unexpectedly.'' None)
       else approval_abort ex request call tx ''error'' ''approval_error'' ''Approval provider failed.''
         (Some (type_name e))
   | ApprovalInvalid \<Rightarrow> approval_abort ex request call tx ''error'' ''approval_error''
       ''Approval provider returned an invalid response.'' None
   | ApprovalGives response \<Rightarrow> approval_answered ex request call tx response)"

text \<open>\<open>_approval\<close>: \<open>None\<close> is an approved call.\<close>

definition approval_for ::
  "executor \<Rightarrow> tool_call \<Rightarrow> tool \<Rightarrow> tool_context \<Rightarrow> pystr option \<Rightarrow> tool_execution_result option xprog" where
  "approval_for ex call tool tx why =
     bind_prog (gets (context_lineage tx)) (\<lambda>li.
     bind_prog (case canonical_json_digest (cx_float (ex_codec ex)) (cx_sha (ex_codec ex)) (JObj (tc_arguments call)) of
         None \<Rightarrow> throw (OtherException (ascii ''UnicodeEncodeError'')) | Some d \<Rightarrow> ret d) (\<lambda>digest.
     bind_prog (value_or_error (make_approval_request (ex_codec ex) (fo_approval_id (ex_foreign ex) call tx)
         (tx_run tx) (tx_session tx) (tc_id call) (tc_name call) (tc_arguments call) digest why li
         (Some (effect_capability (tl_kind tool))))) (\<lambda>request.
     seq_prog (emit ex ''approval.requested'' call tx
         [(''approval_id'', Some (aq_id request)), (''arguments_digest'', Some (aq_digest request))])
       (if \<not> ex_provider ex
        then approval_abort ex request call tx ''error'' ''approval_error''
          ''Tool approval is required but no provider is configured.'' None
        else await_approval ex request call tx))))"

section \<open>Preparing a call\<close>

datatype prepared = Finished tool_execution_result | Ready tool "rat option"

definition finish_prepared ::
  "executor \<Rightarrow> tool_context \<Rightarrow> tool_call \<Rightarrow> string \<Rightarrow> tool_execution_result \<Rightarrow> prepared xprog" where
  "finish_prepared ex tx call code result =
     seq_prog (emit_terminal ex ''tool.failed'' call (Some (ascii code)) tx)
       (seq_prog (after_tool ex tx result)
         (seq_prog (record_call ex tx call result RS_FAILED) (ret (Finished result))))"

definition evaluate_policy ::
  "executor \<Rightarrow> tool_call \<Rightarrow> tool option \<Rightarrow> tool_context \<Rightarrow> (tool_decision \<times> pystr option) xprog" where
  "evaluate_policy ex call tool tx =
     bind_prog
       (catch_prog
          (seq_prog pause (case fo_policy (ex_foreign ex) call tool tx of
             PolicyRaises e \<Rightarrow> throw e | PolicyInvalid \<Rightarrow> ret None | PolicyDecides d why \<Rightarrow> ret (Some (d, why))))
          (\<lambda>e. if is_cancelled_error e then throw e
             else abort_with (ascii ''policy_error'') ''Tool policy evaluation failed.'' (Some (type_name e)) []))
       (\<lambda>decision. case decision of
          None \<Rightarrow> abort_with (ascii ''policy_error'') ''Tool policy returned an invalid decision.'' None []
        | Some d \<Rightarrow> ret d)"

definition first_of :: "'a option \<Rightarrow> 'a option \<Rightarrow> 'a option" where
  "first_of a b = (case a of None \<Rightarrow> b | Some x \<Rightarrow> Some x)"

definition resolve_timeout :: "executor \<Rightarrow> tool_call \<Rightarrow> tool \<Rightarrow> tool_context \<Rightarrow> prepared xprog" where
  "resolve_timeout ex call tool tx =
     (case fo_timeout (ex_foreign ex) tool (tc_arguments call) of
        TimeoutRaises e \<Rightarrow>
          if is_cancelled_error e then throw e
          else abort_with (ascii ''tool_contract_error'') ''Tool timeout resolution failed.'' (Some (type_name e)) []
      | TimeoutGives requested \<Rightarrow>
          if (case requested of None \<Rightarrow> False | Some x \<Rightarrow> x \<le> 0)
          then abort_with (ascii ''tool_contract_error'') ''Tool timeout resolution was invalid.'' None []
          else
            let timeout = first_of requested (first_of (tl_timeout tool) (ec_default_timeout (ex_config ex))) in
            seq_prog (case (tx_scope tx, timeout) of
                (Some sid, Some x) \<Rightarrow> modify (\<lambda>s. s\<lparr>xs_tree := cap_deadline sid (fo_now (ex_foreign ex) tx + x) (xs_tree s)\<rparr>)
              | _ \<Rightarrow> ret ())
              (ret (Ready tool timeout)))"

text \<open>\<open>_prepare\<close>\<close>

definition prepare_known ::
  "executor \<Rightarrow> tool_call \<Rightarrow> tool \<Rightarrow> tool_context \<Rightarrow> tool_decision \<Rightarrow> pystr option \<Rightarrow> prepared xprog" where
  "prepare_known ex call tool tx decision why =
     bind_prog (if decision = REQUIRE_APPROVAL then approval_for ex call tool tx why else ret None) (\<lambda>approval.
       case approval of
         Some result \<Rightarrow> seq_prog (after_tool ex tx result)
           (seq_prog (record_call ex tx call result RS_FAILED) (ret (Finished result)))
       | None \<Rightarrow> resolve_timeout ex call tool tx)"

definition prepare_decided ::
  "executor \<Rightarrow> tool_call \<Rightarrow> tool option \<Rightarrow> tool_context \<Rightarrow> tool_decision \<times> pystr option \<Rightarrow> prepared xprog" where
  "prepare_decided ex call tool tx d = (case d of (decision, why) \<Rightarrow>
     if decision = FAIL_RUN
     then seq_prog (emit_terminal ex ''tool.failed'' call (Some (ascii ''policy_fail_run'')) tx)
       (seq_prog (record_error ex tx call (ascii ''policy_fail_run'') RS_FAILED)
         (abort_with (ascii ''policy_fail_run'') ''Tool policy failed the Run.'' None []))
     else if decision = REJECT
     then bind_prog (failed_result ex call ''rejected'' ''Tool call rejected by policy.'')
       (finish_prepared ex tx call ''rejected'')
     else case tool of
       None \<Rightarrow> bind_prog (failed_result ex call ''unknown_tool'' ''Unknown tool.'')
         (finish_prepared ex tx call ''unknown_tool'')
     | Some t \<Rightarrow> prepare_known ex call t tx decision why)"

definition prepare_call :: "executor \<Rightarrow> tool_call \<Rightarrow> tool_context \<Rightarrow> prepared xprog" where
  "prepare_call ex call tx = seq_prog (check_token tx)
     (let tool = registry_get (ex_registry ex) (tc_name call) in
      case (case tool of None \<Rightarrow> None | Some t \<Rightarrow> fo_invalid (ex_foreign ex) t (tc_arguments call)) of
        Some error \<Rightarrow> bind_prog (value_or_error (bind_res (bounded_error ex error) (error_result call)))
          (finish_prepared ex tx call ''invalid_arguments'')
      | None \<Rightarrow> bind_prog (evaluate_policy ex call tool tx) (prepare_decided ex call tool tx))"

section \<open>Running a call\<close>

type_synonym outcome_of_call = "tool_execution_result \<times> effect list"

text \<open>The end that every reported result shares: event, hooks, record.\<close>

definition report ::
  "executor \<Rightarrow> tool_context \<Rightarrow> tool_call \<Rightarrow> pystr option \<Rightarrow> tool_execution_result \<Rightarrow> effect list \<Rightarrow> record_status
     \<Rightarrow> outcome_of_call xprog" where
  "report ex tx call code result es status =
     seq_prog (emit_terminal ex (if code = None then ''tool.completed'' else ''tool.failed'') call code tx)
       (seq_prog (after_with_effect ex tx result es)
         (seq_prog (record_call ex tx call result status) (ret (result, es))))"

definition report_cancelled ::
  "executor \<Rightarrow> tool_context \<Rightarrow> tool_call \<Rightarrow> effect list \<Rightarrow> outcome_of_call xprog" where
  "report_cancelled ex tx call es =
     seq_prog (record_error ex tx call (ascii ''cancelled'') RS_CANCELLED)
       (seq_prog (emit ex ''tool.cancelled'' call tx
           [(''status'', Some (ascii ''cancelled'')), (''error_code'', Some (ascii ''cancelled''))])
         (throw (BatchCancelled es)))"

text \<open>The task was cancelled, by its token or with the executor's own task.\<close>

definition stopped ::
  "executor \<Rightarrow> tool \<Rightarrow> tool_call \<Rightarrow> tool_context \<Rightarrow> bool \<Rightarrow> outcome_of_call xprog" where
  "stopped ex tool call tx again =
     bind_prog (cancel_started ex tool call tx False again) (\<lambda>evidence.
     seq_prog (contribute_cancelled ex tx tool evidence) (report_cancelled ex tx call (fst evidence)))"

definition overran :: "executor \<Rightarrow> tool \<Rightarrow> tool_call \<Rightarrow> tool_context \<Rightarrow> outcome_of_call xprog" where
  "overran ex tool call tx =
     bind_prog (cancel_started ex tool call tx True False) (\<lambda>evidence.
     bind_prog (value_or_error (bind_res (tool_error ''timeout'' ''Tool execution timed out.'') (error_result call))) (\<lambda>result.
     seq_prog (contribute_cancelled ex tx tool evidence)
       (report ex tx call (Some (ascii ''timeout'')) result (fst evidence) RS_FAILED)))"

definition completed_composite ::
  "executor \<Rightarrow> tool \<Rightarrow> tool_call \<Rightarrow> tool_context \<Rightarrow> tool_content option list \<Rightarrow> effect list \<Rightarrow> supplemental list
     \<Rightarrow> outcome_of_call xprog" where
  "completed_composite ex tool call tx content es rs =
     (if tl_reporting tool \<noteq> COMPOSITE
      then throw (ContractError (ascii ''Leaf Tool returned CompositeToolOutcome.''))
      else bind_prog (validate_composite_content content) (\<lambda>content.
        bind_prog (identity_effects tx es) (\<lambda>es.
        seq_prog (contribute_call_composite ex tx es rs)
          (bind_prog (value_or_error (content_result call content)) (\<lambda>result.
            report ex tx call None result es RS_SUCCEEDED)))))"

definition materialize_failed ::
  "executor \<Rightarrow> tool_call \<Rightarrow> tool_context \<Rightarrow> pystr \<Rightarrow> pystr \<Rightarrow> effect \<Rightarrow> 'a xprog" where
  "materialize_failed ex call tx code cause e =
     seq_prog (emit_terminal ex ''tool.failed'' call (Some code) tx)
       (seq_prog (record_error ex tx call code RS_FAILED)
         (abort_with code ''Tool result materialization failed.'' (Some cause) [e]))"

definition materialize_call ::
  "executor \<Rightarrow> tool_call \<Rightarrow> tool_context \<Rightarrow> raw_content list \<Rightarrow> effect \<Rightarrow> tool_content list xprog" where
  "materialize_call ex call tx raw e =
     bind_prog
       (catch_prog (seq_prog pause (ret None)) (\<lambda>x. ret (Some x))) (\<lambda>raised.
     case (case raised of Some x \<Rightarrow> MaterialRaises x | None \<Rightarrow> fo_material (ex_foreign ex) raw call tx) of
       MaterialGives content \<Rightarrow> ret content
     | MaterialError code \<Rightarrow> materialize_failed ex call tx code (ascii ''ToolMaterializationError'') e
     | MaterialRaises x \<Rightarrow>
         if is_cancelled_error x then throw (BatchCancelled [e])
         else materialize_failed ex call tx (ascii ''tool_materialization_error'') (type_name x) e)"

definition completed_leaf ::
  "executor \<Rightarrow> tool \<Rightarrow> tool_call \<Rightarrow> tool_context \<Rightarrow> raw_content list \<Rightarrow> outcome_of_call xprog" where
  "completed_leaf ex tool call tx raw =
     (if tl_reporting tool = COMPOSITE
      then throw (ContractError (ascii ''Composite Tool must return CompositeToolOutcome.''))
      else bind_prog (raw_evidence ex raw) (\<lambda>evidence.
        bind_prog (effect_of tx call tool EF_SUCCEEDED (Some evidence) None) (\<lambda>e.
        seq_prog (contribute_call_effects ex tx [e])
          (bind_prog (materialize_call ex call tx raw e) (\<lambda>content.
           bind_prog (value_or_error (content_result call content)) (\<lambda>result.
             report ex tx call None result [e] RS_SUCCEEDED))))))"

definition run_started :: "executor \<Rightarrow> tool \<Rightarrow> tool_call \<Rightarrow> tool_context \<Rightarrow> outcome_of_call xprog" where
  "run_started ex tool call tx = seq_prog pause (case fo_run (ex_foreign ex) tool call tx of
     WaitCancelled \<Rightarrow> stopped ex tool call tx False
   | WaitTimedOut \<Rightarrow> overran ex tool call tx
   | WaitInterrupted \<Rightarrow> throw TaskCancelled
   | WaitDone (TaskRaises e) \<Rightarrow> throw e
   | WaitDone (TaskReturns (CompositeReturn content es rs)) \<Rightarrow> completed_composite ex tool call tx content es rs
   | WaitDone (TaskReturns (LeafReturn raw)) \<Rightarrow> completed_leaf ex tool call tx raw)"

section \<open>The exceptions of a call\<close>

definition failed_unknown :: "executor \<Rightarrow> tool \<Rightarrow> tool_call \<Rightarrow> tool_context \<Rightarrow> tool_error_info \<Rightarrow> outcome_of_call xprog" where
  "failed_unknown ex tool call tx why =
     bind_prog (value_or_error (bounded_error ex why)) (\<lambda>error.
     bind_prog (value_or_error (error_result call error)) (\<lambda>result.
     bind_prog (effect_of tx call tool EF_UNKNOWN None (Some error)) (\<lambda>e.
     seq_prog (contribute_call_effects ex tx [e])
       (report ex tx call (Some (te_code error)) result [e] RS_UNKNOWN))))"

definition failed_composite ::
  "executor \<Rightarrow> tool_call \<Rightarrow> tool_context \<Rightarrow> tool_error_info \<Rightarrow> effect list \<Rightarrow> supplemental list \<Rightarrow> outcome_of_call xprog" where
  "failed_composite ex call tx why es rs =
     bind_prog (value_or_error (bounded_error ex why)) (\<lambda>error.
     bind_prog (value_or_error (error_result call error)) (\<lambda>result.
     bind_prog (identity_effects tx es) (\<lambda>es.
     seq_prog (contribute_call_composite ex tx es rs)
       (report ex tx call (Some (te_code error)) result es (if es \<noteq> [] then RS_UNKNOWN else RS_FAILED)))))"

definition own_effects ::
  "tool_context \<Rightarrow> tool_call \<Rightarrow> tool \<Rightarrow> tool_effect_status \<Rightarrow> tool_error_info \<Rightarrow> effect list xprog" where
  "own_effects tx call tool status error =
     (if tl_reporting tool = COMPOSITE then ret []
      else bind_prog (effect_of tx call tool status None (Some error)) (\<lambda>e. ret [e]))"

definition failed_known :: "executor \<Rightarrow> tool \<Rightarrow> tool_call \<Rightarrow> tool_context \<Rightarrow> tool_error_info \<Rightarrow> outcome_of_call xprog" where
  "failed_known ex tool call tx why =
     bind_prog (value_or_error (bounded_error ex why)) (\<lambda>error.
     bind_prog (value_or_error (error_result call error)) (\<lambda>result.
     bind_prog (own_effects tx call tool EF_FAILED error) (\<lambda>es.
     seq_prog (contribute_call_effects ex tx es)
       (report ex tx call (Some (te_code error)) result es RS_FAILED))))"

definition contract_broken :: "executor \<Rightarrow> tool \<Rightarrow> tool_call \<Rightarrow> tool_context \<Rightarrow> pystr \<Rightarrow> outcome_of_call xprog" where
  "contract_broken ex tool call tx message =
     bind_prog (value_or_error (bind_res
         (if message = ascii ''invalid_composite_tool_content''
          then tool_error ''invalid_composite_tool_content'' ''Composite Tool returned invalid canonical content.''
          else tool_error ''invalid_tool_output'' ''Tool returned non-canonical output.'') (bounded_error ex))) (\<lambda>error.
     let status = (if tl_kind tool = SIDE_EFFECTING then EF_UNKNOWN else EF_FAILED) in
     bind_prog (own_effects tx call tool status error) (\<lambda>es.
     seq_prog (contribute_call_effects ex tx es)
       (seq_prog (emit_terminal ex ''tool.failed'' call (Some (te_code error)) tx)
         (seq_prog (record_error ex tx call (te_code error) (if status = EF_UNKNOWN then RS_UNKNOWN else RS_FAILED))
           (abort_with (ascii ''tool_contract_error'') ''Tool violated its output contract.''
              (Some (ascii ''ToolContractError'')) es)))))"

definition settlement_failed :: "executor \<Rightarrow> tool_call \<Rightarrow> tool_context \<Rightarrow> pystr \<Rightarrow> outcome_of_call xprog" where
  "settlement_failed ex call tx code =
     seq_prog (record_error ex tx call code RS_UNKNOWN)
       (seq_prog (emit_terminal ex ''tool.failed'' call (Some code) tx)
         (abort_with code ''Tool settlement failed.'' (Some (ascii ''SettlementError'')) []))"

definition failed_otherwise :: "executor \<Rightarrow> tool \<Rightarrow> tool_call \<Rightarrow> tool_context \<Rightarrow> outcome_of_call xprog" where
  "failed_otherwise ex tool call tx =
     bind_prog (value_or_error (bind_res (tool_error ''execution_error'' ''Tool execution failed.'') (bounded_error ex))) (\<lambda>error.
     bind_prog (value_or_error (error_result call error)) (\<lambda>result.
     if tl_reporting tool = COMPOSITE
     then report ex tx call (Some (ascii ''execution_error'')) result [] RS_UNKNOWN
     else bind_prog
         (if tl_kind tool = SIDE_EFFECTING
          then bind_prog (value_or_error (bind_res
              (tool_error ''effect_unknown'' ''Tool side effect could not be determined.'') (bounded_error ex)))
            (\<lambda>effect_error. effect_of tx call tool EF_UNKNOWN None (Some effect_error))
          else effect_of tx call tool EF_FAILED None (Some error)) (\<lambda>e.
       seq_prog (contribute_call_effects ex tx [e])
         (report ex tx call (Some (ascii ''execution_error'')) result [e]
            (if ef_status e = EF_UNKNOWN then RS_UNKNOWN else RS_FAILED)))))"

definition composite_cancelled ::
  "executor \<Rightarrow> tool \<Rightarrow> tool_call \<Rightarrow> tool_context \<Rightarrow> effect list \<Rightarrow> supplemental list \<Rightarrow> outcome_of_call xprog" where
  "composite_cancelled ex tool call tx es rs =
     (if tl_reporting tool \<noteq> COMPOSITE
      then throw (ContractError (ascii ''Leaf Tool raised composite cancellation evidence.''))
      else bind_prog (identity_effects tx es) (\<lambda>es.
        seq_prog (contribute_call_composite ex tx es rs) (report_cancelled ex tx call es)))"

definition handle_exception :: "executor \<Rightarrow> tool \<Rightarrow> tool_call \<Rightarrow> tool_context \<Rightarrow> py_exc \<Rightarrow> outcome_of_call xprog" where
  "handle_exception ex tool call tx e = (case e of
     BatchCancelled _ \<Rightarrow> throw e
   | BatchAborted _ _ \<Rightarrow> throw e
   | CompositeCancellation es rs \<Rightarrow> composite_cancelled ex tool call tx es rs
   | EffectUnknownError why \<Rightarrow> failed_unknown ex tool call tx why
   | CompositeFailure why es rs \<Rightarrow> failed_composite ex call tx why es rs
   | ExecutionFailure why \<Rightarrow> failed_known ex tool call tx why
   | ContractError message \<Rightarrow> contract_broken ex tool call tx message
   | SettlementRaised code \<Rightarrow> settlement_failed ex call tx code
   | TaskCancelled \<Rightarrow> stopped ex tool call tx True
   | OtherException _ \<Rightarrow> failed_otherwise ex tool call tx)"

text \<open>\<open>_execute_prepared\<close>\<close>

definition run_before_hooks :: "executor \<Rightarrow> tool_call \<Rightarrow> tool_context \<Rightarrow> unit xprog" where
  "run_before_hooks ex call tx = catch_prog (before_tool ex tx call) (\<lambda>e. case e of
     BatchAborted _ _ \<Rightarrow> seq_prog (emit_terminal ex ''tool.failed'' call (Some (ascii ''hook_error'')) tx)
       (seq_prog (record_error ex tx call (ascii ''hook_error'') RS_FAILED) (throw e))
   | _ \<Rightarrow> throw e)"

definition execute_prepared :: "executor \<Rightarrow> tool_call \<Rightarrow> tool \<Rightarrow> tool_context \<Rightarrow> outcome_of_call xprog" where
  "execute_prepared ex call tool tx =
     seq_prog (run_before_hooks ex call tx)
       (seq_prog (check_token tx)
         (seq_prog (emit ex ''tool.started'' call tx [])
           (catch_prog (run_started ex tool call tx) (handle_exception ex tool call tx))))"

section \<open>One call\<close>

text \<open>
  \<open>_close_call_scope\<close> waits for the settlements of the scope's descendants. Cleaning up swallows
  whatever its awaits raise.
\<close>

definition wait_settled :: "pystr \<Rightarrow> unit xprog" where
  "wait_settled i = bind_prog (gets (\<lambda>s. idle_at (xs_tree s) i)) (\<lambda>idle.
     if idle then ret () else seq_prog pause (\<lambda>s. if idle_at (xs_tree s) i then Some (Inr (), s) else None))"

definition finish_scope :: "pystr \<Rightarrow> unit xprog" where
  "finish_scope i = seq_prog (catch_prog pause (\<lambda>_. ret ())) (tree_update (finish_one i))"

definition close_open_scope :: "pystr \<Rightarrow> unit xprog" where
  "close_open_scope sid =
     seq_prog (modify (\<lambda>s. s\<lparr>xs_tree := close_begin sid (xs_tree s)\<rparr>))
       (bind_prog (gets (\<lambda>s. close_order (xs_tree s) sid)) (\<lambda>ids.
          seq_prog (each_prog wait_settled ids) (each_prog finish_scope ids)))"

definition close_call_scope :: "tool_context \<Rightarrow> unit xprog" where
  "close_call_scope tx = (case tx_scope tx of None \<Rightarrow> ret ()
     | Some sid \<Rightarrow> bind_prog (tree_call (\<lambda>t. with_scope sid t (\<lambda>q. Inr (sc_state q, t)))) (\<lambda>state.
         if state = FROZEN then ret () else close_open_scope sid))"

definition record_batch_error :: "executor \<Rightarrow> tool_context \<Rightarrow> tool_call \<Rightarrow> py_exc \<Rightarrow> 'a xprog" where
  "record_batch_error ex tx call e = seq_prog (case e of
     BatchAborted why _ \<Rightarrow> record_error ex tx call (re_code why) RS_FAILED
   | BatchCancelled _ \<Rightarrow> record_error ex tx call (ascii ''cancelled'') RS_CANCELLED
   | _ \<Rightarrow> ret ()) (throw e)"

text \<open>\<open>_one\<close>\<close>

definition one_call :: "executor \<Rightarrow> tool_call \<Rightarrow> tool_context \<Rightarrow> outcome_of_call xprog" where
  "one_call ex call tx = finally_prog
     (catch_prog
        (bind_prog (prepare_call ex call tx) (\<lambda>p. case p of
           Finished result \<Rightarrow> ret (result, [])
         | Ready tool timeout \<Rightarrow> execute_prepared ex call tool tx))
        (record_batch_error ex tx call))
     (close_call_scope tx)"

end
