(* ===== verification/ExecutorBatch.thy ===== *)
theory ExecutorBatch
  imports Executor
begin

text \<open>
  Batches of calls (\<open>ToolExecutor.execute\<close>, \<open>_concurrent\<close> and their helpers), calls made by tools, and what
  a batch turns into: messages, committed effects, the verdict on a retry.

  A concurrent batch prepares its calls in order and then keeps at most \<open>max_concurrency\<close> tasks running. A
  schedule names, round by round, the tasks that end; a task's steps happen when it ends, and what the other
  tasks did in between is part of the script.
\<close>

section \<open>Contexts\<close>

text \<open>
  \<open>RuntimeToolExecutionContext.bind_model_turn\<close>: the two values live in the contexts here. What the
  constructor of a context checks holds of the child because it holds of the parent.
\<close>

definition bind_model_turn :: "pystr \<Rightarrow> unit xprog" where
  "bind_model_turn sid = tree_update (\<lambda>t. with_scope sid t (\<lambda>q. bind_res (require_open q) (\<lambda>_. Inr t)))"

definition child_tool_context :: "executor \<Rightarrow> tool_context \<Rightarrow> pystr \<Rightarrow> tool_call \<Rightarrow> tool_context xprog" where
  "child_tool_context ex tx sid call =
     bind_prog (gets (\<lambda>s. (fo_uuid (ex_foreign ex) (xs_tree s), length (t_tokens (xs_tree s))))) (\<lambda>(child, token).
     seq_prog (tree_update (child_tool child sid (tc_id call) (Some (tc_name call)) None))
       (seq_prog (bind_model_turn child)
         (ret (tx\<lparr>tx_token := Some token, tx_scope := Some child\<rparr>))))"

definition call_contexts :: "executor \<Rightarrow> tool_context \<Rightarrow> tool_call list \<Rightarrow> tool_context list xprog" where
  "call_contexts ex tx calls = (case tx_scope tx of
     None \<Rightarrow> ret (map (\<lambda>_. tx) calls)
   | Some sid \<Rightarrow> map_prog (child_tool_context ex tx sid) calls)"

text \<open>\<open>_abort_unprocessed\<close>, on the calls that are left with their contexts.\<close>

definition abort_unprocessed :: "executor \<Rightarrow> (tool_call \<times> tool_context) list \<Rightarrow> string \<Rightarrow> unit xprog" where
  "abort_unprocessed ex pairs code = each_prog (\<lambda>(call, tx).
     seq_prog (record_error ex tx call (ascii code) RS_CANCELLED) (close_call_scope tx)) pairs"

section \<open>One call after the other\<close>

definition serial_raise ::
  "executor \<Rightarrow> (tool_call \<times> tool_context) list \<Rightarrow> effect list \<Rightarrow> py_exc \<Rightarrow> 'a xprog" where
  "serial_raise ex rest done_effects e = (case e of
     BatchAborted why es \<Rightarrow> seq_prog (abort_unprocessed ex rest ''batch_aborted'')
       (throw (BatchAborted why (done_effects @ es)))
   | BatchCancelled es \<Rightarrow> seq_prog (abort_unprocessed ex rest ''cancelled'') (throw (BatchCancelled (done_effects @ es)))
   | TaskCancelled \<Rightarrow> seq_prog (abort_unprocessed ex rest ''cancelled'') (throw (BatchCancelled done_effects))
   | _ \<Rightarrow> throw e)"

fun serial_loop ::
  "executor \<Rightarrow> (tool_call \<times> tool_context) list \<Rightarrow> effect list \<Rightarrow> (tool_execution_result list \<times> effect list) xprog" where
  "serial_loop ex [] es = ret ([], es)"
| "serial_loop ex ((call, tx) # rest) es =
     bind_prog (catch_prog (one_call ex call tx) (serial_raise ex rest es)) (\<lambda>(result, call_effects).
     bind_prog (serial_loop ex rest (es @ call_effects)) (\<lambda>(results, all_effects).
     ret (result # results, all_effects)))"

type_synonym batch = "tool_call list \<times> tool_execution_result list \<times> effect list"

definition batch_result :: "tool_call list \<Rightarrow> tool_execution_result list \<Rightarrow> effect list \<Rightarrow> batch xprog" where
  "batch_result calls results es = value_or_error (make_batch_result calls results es)"

section \<open>Calls at the same time\<close>

record slots =
  sl_results :: "tool_execution_result option list"
  sl_effects :: "effect list option list"
  sl_running :: "nat list"
  sl_next :: nat

type_synonym job = "nat \<times> tool_call \<times> tool \<times> tool_context"

definition set_slot :: "nat \<Rightarrow> tool_execution_result \<times> effect list \<Rightarrow> slots \<Rightarrow> slots" where
  "set_slot i r sl = sl\<lparr>sl_results := (sl_results sl)[i := Some (fst r)], sl_effects := (sl_effects sl)[i := Some (snd r)]\<rparr>"

definition flatten_effects :: "effect list option list \<Rightarrow> effect list" where
  "flatten_effects groups = concat (List.map_filter id groups)"

text \<open>The first loop: prepare every call; what ends there has its result and its scope closed.\<close>

definition prepare_raise ::
  "executor \<Rightarrow> (tool_call \<times> tool_context) list \<Rightarrow> tool_call \<Rightarrow> tool_context \<Rightarrow> py_exc \<Rightarrow> 'a xprog" where
  "prepare_raise ex pairs call tx e = (case e of
     BatchAborted why _ \<Rightarrow> seq_prog (record_error ex tx call (re_code why) RS_FAILED)
       (seq_prog (abort_unprocessed ex pairs ''batch_aborted'') (throw e))
   | _ \<Rightarrow> seq_prog (abort_unprocessed ex pairs ''cancelled'') (throw e))"

fun prepare_all ::
  "executor \<Rightarrow> (tool_call \<times> tool_context) list \<Rightarrow> nat \<Rightarrow> (tool_call \<times> tool_context) list \<Rightarrow> slots
     \<Rightarrow> (slots \<times> job list) xprog" where
  "prepare_all ex pairs i [] sl = ret (sl, [])"
| "prepare_all ex pairs i ((call, tx) # rest) sl =
     bind_prog (catch_prog
         (bind_prog (prepare_call ex call tx) (\<lambda>p. case p of
            Finished result \<Rightarrow> seq_prog (close_call_scope tx) (ret p) | Ready _ _ \<Rightarrow> ret p))
         (prepare_raise ex pairs call tx)) (\<lambda>p.
     case p of
       Finished result \<Rightarrow> prepare_all ex pairs (i + 1) rest (set_slot i (result, []) sl)
     | Ready tool timeout \<Rightarrow>
         bind_prog (prepare_all ex pairs (i + 1) rest sl) (\<lambda>(sl1, jobs). ret (sl1, (i, call, tool, tx) # jobs)))"

text \<open>\<open>fill\<close> starts tasks while there is room.\<close>

function fill :: "nat \<Rightarrow> nat \<Rightarrow> slots \<Rightarrow> slots" where
  "fill limit jobs sl =
     (if sl_next sl < jobs \<and> length (sl_running sl) < limit
      then fill limit jobs (sl\<lparr>sl_running := sl_running sl @ [sl_next sl], sl_next := sl_next sl + 1\<rparr>)
      else sl)"
  by pat_completeness auto
termination
  by (relation "measure (\<lambda>(limit, jobs, sl). jobs - sl_next sl)") auto

declare fill.simps [simp del]

text \<open>The task of a prepared call.\<close>

definition run_job :: "executor \<Rightarrow> job \<Rightarrow> outcome_of_call xprog" where
  "run_job ex j = (case j of (i, call, tool, tx) \<Rightarrow>
     finally_prog (catch_prog (execute_prepared ex call tool tx) (record_batch_error ex tx call)) (close_call_scope tx))"

text \<open>\<open>_cancel_tasks\<close>: every running task is awaited, and the effects of each are kept.\<close>

fun cancel_tasks :: "executor \<Rightarrow> job list \<Rightarrow> nat list \<Rightarrow> effect list xprog" where
  "cancel_tasks ex jobs [] = ret []"
| "cancel_tasks ex jobs (k # ks) =
     bind_prog (catch_prog (bind_prog (run_job ex (jobs ! k)) (\<lambda>(r, es). ret es)) (\<lambda>e. ret (case e of
         BatchCancelled es \<Rightarrow> es | BatchAborted _ es \<Rightarrow> es | _ \<Rightarrow> []))) (\<lambda>es.
     bind_prog (cancel_tasks ex jobs ks) (\<lambda>rest. ret (es @ rest)))"

text \<open>
  What a task raises is handled twice: \<open>ToolBatchCancelled\<close> is a \<open>CancelledError\<close>, so what the inner clause
  raises again is caught by the \<open>except asyncio.CancelledError\<close> around the loop.
\<close>

definition task_raised ::
  "executor \<Rightarrow> (tool_call \<times> tool_context) list \<Rightarrow> job list \<Rightarrow> slots \<Rightarrow> py_exc \<Rightarrow> 'a xprog" where
  "task_raised ex pairs jobs sl e = (case e of
     BatchAborted why es \<Rightarrow> bind_prog (cancel_tasks ex jobs (sl_running sl)) (\<lambda>more.
       seq_prog (abort_unprocessed ex pairs ''batch_aborted'')
         (throw (BatchAborted why (flatten_effects (sl_effects sl) @ es @ more))))
   | BatchCancelled es \<Rightarrow> bind_prog (cancel_tasks ex jobs (sl_running sl)) (\<lambda>more.
       seq_prog (abort_unprocessed ex pairs ''cancelled'')
         (throw (BatchCancelled (flatten_effects (sl_effects sl) @ es @ more))))
   | _ \<Rightarrow> throw e)"

definition loop_raised ::
  "executor \<Rightarrow> (tool_call \<times> tool_context) list \<Rightarrow> job list \<Rightarrow> slots \<Rightarrow> nat list \<Rightarrow> py_exc \<Rightarrow> 'a xprog" where
  "loop_raised ex pairs jobs sl running e =
     (if is_cancelled_error e
      then bind_prog (cancel_tasks ex jobs running) (\<lambda>more.
        seq_prog (abort_unprocessed ex pairs ''cancelled'')
          (throw (BatchCancelled (flatten_effects (sl_effects sl) @ more))))
      else throw e)"

text \<open>The inner clause has emptied the running tasks when the outer one sees its exception.\<close>

definition concurrent_raise ::
  "executor \<Rightarrow> (tool_call \<times> tool_context) list \<Rightarrow> job list \<Rightarrow> slots \<Rightarrow> py_exc \<Rightarrow> 'a xprog" where
  "concurrent_raise ex pairs jobs sl e = catch_prog (task_raised ex pairs jobs sl e)
     (loop_raised ex pairs jobs sl (case e of BatchAborted _ _ \<Rightarrow> [] | BatchCancelled _ \<Rightarrow> [] | _ \<Rightarrow> sl_running sl))"

definition drop_running :: "nat \<Rightarrow> slots \<Rightarrow> slots" where
  "drop_running k sl = sl\<lparr>sl_running := removeAll k (sl_running sl)\<rparr>"

text \<open>One round: the tasks that have ended, one after the other.\<close>

fun round_loop ::
  "executor \<Rightarrow> (tool_call \<times> tool_context) list \<Rightarrow> job list \<Rightarrow> nat list \<Rightarrow> slots \<Rightarrow> slots xprog" where
  "round_loop ex pairs jobs [] sl = ret sl"
| "round_loop ex pairs jobs (k # ks) sl =
     (let sl1 = drop_running k sl in
      bind_prog (catch_prog (run_job ex (jobs ! k)) (concurrent_raise ex pairs jobs sl1)) (\<lambda>r.
        round_loop ex pairs jobs ks (set_slot (fst (jobs ! k)) r sl1)))"

text \<open>
  The loop over the rounds: a round must name running tasks; a schedule that ends while tasks are running
  is a batch that waits for ever.
\<close>

fun rounds ::
  "executor \<Rightarrow> (tool_call \<times> tool_context) list \<Rightarrow> job list \<Rightarrow> nat list list \<Rightarrow> slots \<Rightarrow> slots xprog" where
  "rounds ex pairs jobs schedule sl =
     (if sl_running sl = [] then ret sl
      else case schedule of
        [] \<Rightarrow> (\<lambda>_. None)
      | ended # later \<Rightarrow>
          if ended = [] \<or> \<not> distinct ended \<or> \<not> set ended \<subseteq> set (sl_running sl) then (\<lambda>_. None)
          else bind_prog (catch_prog pause (loop_raised ex pairs jobs sl (sl_running sl))) (\<lambda>_.
            bind_prog (round_loop ex pairs jobs ended sl) (\<lambda>sl1.
              rounds ex pairs jobs later (fill (ec_max_concurrency (ex_config ex)) (length jobs) sl1))))"

declare rounds.simps [simp del]

definition run_concurrent ::
  "executor \<Rightarrow> nat list list \<Rightarrow> tool_call list \<Rightarrow> tool_context list \<Rightarrow> batch xprog" where
  "run_concurrent ex schedule calls contexts =
     (let pairs = zip calls contexts;
          empty = \<lparr>sl_results = map (\<lambda>_. None) calls, sl_effects = map (\<lambda>_. None) calls, sl_running = [], sl_next = 0\<rparr>
      in bind_prog (prepare_all ex pairs 0 pairs empty) (\<lambda>(sl, jobs).
         bind_prog (rounds ex pairs jobs schedule (fill (ec_max_concurrency (ex_config ex)) (length jobs) sl)) (\<lambda>done_slots.
         batch_result calls (List.map_filter id (sl_results done_slots)) (flatten_effects (sl_effects done_slots)))))"

section \<open>A batch\<close>

definition all_concurrent :: "executor \<Rightarrow> tool_call list \<Rightarrow> bool" where
  "all_concurrent ex calls \<longleftrightarrow> calls \<noteq> [] \<and> list_all (\<lambda>c. case registry_get (ex_registry ex) (tc_name c) of
     None \<Rightarrow> False | Some t \<Rightarrow> tl_mode t = CONCURRENT) calls"

definition execute_batch :: "executor \<Rightarrow> nat list list \<Rightarrow> tool_call list \<Rightarrow> tool_context \<Rightarrow> batch xprog" where
  "execute_batch ex schedule calls tx =
     (if length calls > ec_max_calls (ex_config ex)
      then abort_with (ascii ''max_calls_per_turn'') ''Tool call limit exceeded.'' None []
      else seq_prog (check_token tx)
        (seq_prog (case tx_scope tx of None \<Rightarrow> ret () | Some sid \<Rightarrow> bind_model_turn sid)
          (bind_prog (call_contexts ex tx calls) (\<lambda>contexts.
            if all_concurrent ex calls then run_concurrent ex schedule calls contexts
            else bind_prog (serial_loop ex (zip calls contexts) []) (\<lambda>(results, es). batch_result calls results es)))))"

section \<open>Calls made by tools\<close>

definition validate_nested :: "executor \<Rightarrow> tool_call \<Rightarrow> string + tool_execution_result option" where
  "validate_nested ex call = (case registry_get (ex_registry ex) (tc_name call) of
     None \<Rightarrow> bind_res (make_error ex call ''unknown_tool'' ''Unknown tool.'') (\<lambda>r. Inr (Some r))
   | Some tool \<Rightarrow> (case fo_invalid (ex_foreign ex) tool (tc_arguments call) of
       None \<Rightarrow> Inr None
     | Some error \<Rightarrow> bind_res (bounded_error ex error) (\<lambda>e. bind_res (error_result call e) (\<lambda>r. Inr (Some r)))))"

text \<open>\<open>execute_nested\<close>: the parent is a runtime tool context, or nothing.\<close>

definition execute_nested ::
  "executor \<Rightarrow> nat list list \<Rightarrow> tool_call \<Rightarrow> tool_context option \<Rightarrow> pystr \<Rightarrow> tool_execution_result xprog" where
  "execute_nested ex schedule call parent session = (case parent of
     None \<Rightarrow> value_or_error (bind_res (tool_error ''nested_execution_unavailable'' ''Nested execution is unavailable.'')
       (error_result call))
   | Some tx \<Rightarrow> bind_prog (execute_batch ex schedule [call] (tx\<lparr>tx_session := session\<rparr>)) (\<lambda>(calls, results, es).
       case results of r # _ \<Rightarrow> ret r | [] \<Rightarrow> throw (OtherException (ascii ''IndexError''))))"

text \<open>\<open>RuntimeToolExecutionContext.execute_nested_tool\<close>, for a name and arguments of their declared types.\<close>

definition execute_nested_tool ::
  "executor \<Rightarrow> nat list list \<Rightarrow> pystr \<Rightarrow> tool_context \<Rightarrow> pystr \<Rightarrow> pystr \<Rightarrow> jobj \<Rightarrow> tool_execution_result xprog" where
  "execute_nested_tool ex schedule sid tx call_id name arguments =
     seq_prog (tree_update (\<lambda>t. with_scope sid t (\<lambda>q. bind_res (require_open q) (\<lambda>_. Inr t))))
       (if name = []
        then value_or_error (bind_res (tool_error ''invalid_arguments'' ''Invalid nested Tool request.'')
          (\<lambda>e. make_tool_result_value call_id (ascii ''<invalid>'') None (Some e)))
        else
          let call = \<lparr>tc_id = call_id, tc_name = name, tc_arguments = arguments\<rparr> in
          bind_prog (value_or_error (validate_nested ex call)) (\<lambda>invalid.
          case invalid of Some r \<Rightarrow> ret r
          | None \<Rightarrow>
              bind_prog (tree_call (\<lambda>t. Inr (accept_nested_tool t))) (\<lambda>accepted.
              if \<not> accepted
              then value_or_error (bind_res (tool_error ''nested_tool_budget_exceeded'' ''Nested Tool budget exceeded.'')
                (error_result call))
              else catch_prog (execute_nested ex schedule call (Some tx) (tx_session tx)) (\<lambda>e. case e of
                BatchAborted why _ \<Rightarrow> value_or_error (bind_res
                    (make_tool_error (re_code why) (re_message why) (re_retryable why)) (error_result call))
              | _ \<Rightarrow> throw e))))"

section \<open>After a batch\<close>

definition result_content :: "tool_content \<Rightarrow> content" where
  "result_content c = (case c of ToolTextContent t _ \<Rightarrow> TextContent t | ToolJsonContent v \<Rightarrow> JsonContent v
     | ToolArtifactContent a \<Rightarrow> ArtifactReferenceContent a)"

definition result_message :: "rat \<Rightarrow> pystr \<Rightarrow> tool_execution_result \<Rightarrow> protocol_error + message" where
  "result_message now fresh r = (case tr_content r of
     Some content \<Rightarrow> make_tool_result default_media_limits now fresh (tr_call_id r) (tr_name r) SUCCESS
       (map result_content content) None None None
   | None \<Rightarrow> (case tr_error r of
       Some e \<Rightarrow> make_tool_result default_media_limits now fresh (tr_call_id r) (tr_name r) ERROR
         [TextContent (te_message e)] (Some e) None None
     | None \<Rightarrow> Inl (ProtocolError ''AssertionError'')))"

definition committed_effects :: "effect list \<Rightarrow> string + effect list" where
  "committed_effects es = map_res commit_effect es"

definition retry_blocking :: "effect \<Rightarrow> bool" where
  "retry_blocking e \<longleftrightarrow>
     (if ef_kind e = READ_ONLY then False
      else if ef_status e = EF_SUCCEEDED then ef_certainty e \<noteq> CERTAIN \<or> \<not> ef_committed e
      else if ef_status e \<in> {EF_FAILED, EF_CANCELLED, EF_TIMED_OUT} then ef_certainty e \<noteq> CERTAIN_NO_EFFECT
      else True)"

definition retry_safe :: "effect list \<Rightarrow> blocker list \<Rightarrow> bool" where
  "retry_safe es blockers \<longleftrightarrow> blockers = [] \<and> \<not> list_ex retry_blocking es"

end
