(* ===== verification/TreeGrows.thy ===== *)
theory TreeGrows
  imports ExecSteps
begin

text \<open>
  What tasks that share an execution tree do to it, seen from one of them: \<open>moves\<close> is any number of tree
  operations and of the parts of closes, in any order and for any scopes. Nothing that a task relies on is
  taken back: scopes keep their lineage, a recorded terminal stays recorded, a frozen scope stays frozen, an
  effect in the ledger stays there, and so do retry blockers.
\<close>

inductive tree_act :: "codec \<Rightarrow> tree \<Rightarrow> tree \<Rightarrow> bool" for cx where
  act_step: "tree_step cx t u \<Longrightarrow> tree_act cx t u"
| act_begin: "tree_act cx t (close_begin sid t)"
| act_finish: "finish_one sid t = Inr u \<Longrightarrow> tree_act cx t u"

text \<open>An effect apart from its content and its mark.\<close>

definition effect_core :: "effect \<Rightarrow> effect" where
  "effect_core e = e\<lparr>ef_content := None, ef_committed := True\<rparr>"

definition grows :: "tree \<Rightarrow> tree \<Rightarrow> bool" where
  "grows t u \<longleftrightarrow>
     (\<forall>i s. dget (t_scopes t) i = Some s \<longrightarrow> (\<exists>s'. dget (t_scopes u) i = Some s' \<and> sc_lineage s' = sc_lineage s
        \<and> (sc_terminal s \<longrightarrow> sc_terminal s') \<and> (sc_state s = FROZEN \<longrightarrow> sc_state s' = FROZEN)
        \<and> sc_contribution_next s \<le> sc_contribution_next s'))
     \<and> (\<forall>i e. dget (t_effects t) i = Some e \<longrightarrow>
          (\<exists>e'. dget (t_effects u) i = Some e' \<and> effect_core e' = effect_core e))
     \<and> set (t_blockers t) \<subseteq> set (t_blockers u)"

lemma grows_scope:
  assumes "grows t u" "dget (t_scopes t) i = Some s"
  obtains s' where "dget (t_scopes u) i = Some s'" "sc_lineage s' = sc_lineage s"
    "sc_terminal s \<longrightarrow> sc_terminal s'" "sc_state s = FROZEN \<longrightarrow> sc_state s' = FROZEN"
    "sc_contribution_next s \<le> sc_contribution_next s'"
  using assms unfolding grows_def by metis

lemma grows_effect:
  assumes "grows t u" "dget (t_effects t) i = Some e"
  obtains e' where "dget (t_effects u) i = Some e'" "effect_core e' = effect_core e"
  using assms unfolding grows_def by metis

lemma grows_trans:
  assumes "grows t u" "grows u v"
  shows "grows t v"
  unfolding grows_def
proof (intro conjI allI impI)
  fix i s assume "dget (t_scopes t) i = Some s"
  with assms(1) obtain s' where 1: "dget (t_scopes u) i = Some s'" "sc_lineage s' = sc_lineage s"
    "sc_terminal s \<longrightarrow> sc_terminal s'" "sc_state s = FROZEN \<longrightarrow> sc_state s' = FROZEN"
    "sc_contribution_next s \<le> sc_contribution_next s'" by (rule grows_scope)
  from assms(2) 1(1) obtain s'' where "dget (t_scopes v) i = Some s''" "sc_lineage s'' = sc_lineage s'"
    "sc_terminal s' \<longrightarrow> sc_terminal s''" "sc_state s' = FROZEN \<longrightarrow> sc_state s'' = FROZEN"
    "sc_contribution_next s' \<le> sc_contribution_next s''" by (rule grows_scope)
  with 1 show "\<exists>s''. dget (t_scopes v) i = Some s'' \<and> sc_lineage s'' = sc_lineage s
      \<and> (sc_terminal s \<longrightarrow> sc_terminal s'') \<and> (sc_state s = FROZEN \<longrightarrow> sc_state s'' = FROZEN)
      \<and> sc_contribution_next s \<le> sc_contribution_next s''" by auto
next
  fix i e assume "dget (t_effects t) i = Some e"
  with assms(1) obtain e' where 1: "dget (t_effects u) i = Some e'" "effect_core e' = effect_core e" by (rule grows_effect)
  from assms(2) 1(1) obtain e'' where "dget (t_effects v) i = Some e''" "effect_core e'' = effect_core e'" by (rule grows_effect)
  with 1 show "\<exists>e''. dget (t_effects v) i = Some e'' \<and> effect_core e'' = effect_core e" by auto
next
  show "set (t_blockers t) \<subseteq> set (t_blockers v)" using assms by (auto simp: grows_def)
qed

text \<open>Operations that only touch other fields, that update one scope, or that add scopes.\<close>

lemma grows_frame:
  "t_scopes u = t_scopes t \<Longrightarrow> t_effects u = t_effects t \<Longrightarrow> t_blockers u = t_blockers t \<Longrightarrow> grows t u"
  by (simp add: grows_def)

lemma grows_upd:
  assumes "\<And>s. dget (t_scopes t) sid = Some s \<Longrightarrow> sc_lineage (f s) = sc_lineage s
      \<and> (sc_terminal s \<longrightarrow> sc_terminal (f s)) \<and> (sc_state s = FROZEN \<longrightarrow> sc_state (f s) = FROZEN)
      \<and> sc_contribution_next s \<le> sc_contribution_next (f s)"
  shows "grows t (upd_scope sid f t)"
  using assms by (auto simp: grows_def)

lemma grows_add_scope:
  assumes "i \<notin> dkeys (t_scopes t)"
  shows "grows t (t\<lparr>t_scope_next := n, t_scopes := dset i s (t_scopes t)\<rparr>)"
proof -
  from assms have "dget (t_scopes t) i = None" by (simp add: dget_None_iff)
  then show ?thesis by (auto simp: grows_def)
qed

lemma grows_new_scope:
  assumes "new_scope uuid run parent depth token d call agent_tool t = Inr u" "uuid \<notin> dkeys (t_scopes t)"
  shows "grows t u"
proof -
  obtain v where v: "grows t v" and u: "u = v \<or> (\<exists>p. u = upd_scope p (\<lambda>q. q\<lparr>sc_children := sc_children q @ [uuid]\<rparr>) v)"
    using assms(1) grows_add_scope [OF assms(2)]
    by (auto simp: new_scope_def Let_def split: if_splits option.splits)
  have "grows w (upd_scope p (\<lambda>q. q\<lparr>sc_children := sc_children q @ [uuid]\<rparr>) w)" for p w by (rule grows_upd) simp
  with u v show ?thesis by (auto intro: grows_trans)
qed

lemma grows_child_tool:
  assumes "child_tool uuid sid call name d t = Inr u" "uuid \<notin> dkeys (t_scopes t)"
  shows "grows t u"
proof -
  from assms(1) obtain p tokens v where v: "new_scope uuid (ln_run (sc_lineage p)) (Some p) (ln_agent_depth (sc_lineage p))
        (length (t_tokens t)) (minimum_deadline (sc_deadline p) d) (Some call) None (t\<lparr>t_tokens := tokens\<rparr>) = Inr v"
    and u: "u = upd_scope uuid (\<lambda>s. s\<lparr>sc_tool := name\<rparr>) v"
    by (auto simp: child_tool_def with_scope_def require_open_def alloc_token_def res_simps split: option.splits)
  have "grows t (t\<lparr>t_tokens := tokens\<rparr>)" by (rule grows_frame) simp_all
  moreover have "grows (t\<lparr>t_tokens := tokens\<rparr>) v" by (rule grows_new_scope [OF v]) (simp add: assms(2))
  moreover have "grows v u" unfolding u by (rule grows_upd) simp
  ultimately show ?thesis by (blast intro: grows_trans)
qed

lemma grows_child_run:
  assumes "begin_child_run uuid sid run token d t = Inr u" "uuid \<notin> dkeys (t_scopes t)"
  shows "grows t u"
proof -
  from assms(1) obtain p dl tool where v: "new_scope uuid run (Some p) (ln_agent_depth (sc_lineage p) + 1) token dl None
        (Some tool) (t\<lparr>t_child_runs := t_child_runs t + 1\<rparr>) = Inr u"
    by (auto simp: begin_child_run_def new_child_run_scope_def with_scope_def require_open_def Let_def res_simps
        split: option.splits if_splits)
  have "grows t (t\<lparr>t_child_runs := t_child_runs t + 1\<rparr>)" by (rule grows_frame) simp_all
  moreover have "grows (t\<lparr>t_child_runs := t_child_runs t + 1\<rparr>) u"
    by (rule grows_new_scope [OF v]) (simp add: assms(2))
  ultimately show ?thesis by (rule grows_trans)
qed

lemma effect_core_eq: "effect_eq a b \<Longrightarrow> effect_core b = effect_core a"
  by (cases a; cases b) (auto simp: effect_eq_def effect_core_def)

lemma effect_core_commit [simp]: "effect_core (e\<lparr>ef_committed := b\<rparr>) = effect_core e"
  by (cases e) (simp add: effect_core_def)

lemma grows_store_effects: "grows t (fst (store_effects es t))"
proof (induction es arbitrary: t)
  case (Cons e es)
  have "grows t (t\<lparr>t_effects := dset i e (t_effects t)\<rparr>)"
    if "\<not> (case dget (t_effects t) i of None \<Rightarrow> False | Some p \<Rightarrow> \<not> effect_eq p e)" for i
    using that by (auto simp: grows_def effect_core_eq split: option.splits)
  then show ?case
    using grows_trans [OF _ Cons.IH] by (simp add: grows_frame split: option.split)
qed (simp add: grows_frame)

lemma append_record_frame:
  "t_scopes (append_record r t) = t_scopes t" "t_effects (append_record r t) = t_effects t"
  "t_blockers (append_record r t) = t_blockers t"
  by (simp_all add: append_record_def Let_def)

lemma grows_summary: "grows t (add_summary_record cx s r t)"
  by (rule grows_frame) (simp_all add: add_summary_record_def append_record_frame)

lemma grows_fold: "(\<And>x t. grows t (f x t)) \<Longrightarrow> grows t (fold f xs t)"
  by (induction xs arbitrary: t) (auto simp: grows_frame intro: grows_trans)

lemma grows_merge_usage: "grows t (merge_usage u t)"
  by (rule grows_frame) (auto simp: merge_usage_def split: usage_contribution.split option.split)

lemma grows_contribute: "grows t (fst (contribute cx settlement c t))"
proof (cases rule: contribute_cases [of cx settlement c t])
  case refused
  then show ?thesis by (simp add: grows_frame)
next
  case (stored s t2)
  have "grows t (t\<lparr>t_contributions := dset (cb_id c) c (t_contributions t)\<rparr>)" by (rule grows_frame) simp_all
  then have "grows t t2" using stored(4) grows_merge_usage by (auto simp: Let_def split: option.splits intro: grows_trans)
  then have 3: "grows t (fst (store_effects (cb_effects c) t2))" using grows_store_effects by (rule grows_trans)
  have c: "grows u (u\<lparr>t_cleanup := x\<rparr>)" for u x by (rule grows_frame) simp_all
  have "grows u (let t4 = fold (add_summary_record cx s) rs u in t4\<lparr>t_cleanup := t_cleanup t4 @ xs\<rparr>)" for u rs xs
    unfolding Let_def by (rule grows_trans [OF grows_fold c]) (rule grows_summary)
  with 3 show ?thesis
    by (cases "store_effects (cb_effects c) t2") (auto simp: stored(5) split: option.split intro: grows_trans)
qed

lemma grows_commit: "grows t (commit_stored i t)"
  by (auto simp: grows_def commit_stored_def split: option.split)

lemma grows_mark: "mark_tool_calls_committed ids t = Inr u \<Longrightarrow> grows t u"
  unfolding mark_tool_calls_committed_def
  by (erule fold_res_inv [where P = "grows t"])
    (auto simp: grows_frame commit_if_accepted_def with_scope_def split: option.splits if_splits
      intro: grows_trans [OF _ grows_commit])

lemma grows_blocker: "grows t (add_retry_blocker b t)"
  by (auto simp: grows_def add_retry_blocker_def)

lemma grows_record: "record_tool_call cx sid call tool args preview status err ev t = Inr u \<Longrightarrow> grows t u"
  by (auto simp: record_tool_call_def with_scope_def add_tool_record_def append_record_frame split: option.splits
      intro!: grows_trans [OF grows_frame grows_upd])

lemma grows_operations:
  "next_effect_id sid t = Inr (i, u) \<Longrightarrow> grows t u"
  "next_contribution_id sid t = Inr (j, u) \<Longrightarrow> grows t u"
  "register_resource sid r t = Inr u \<Longrightarrow> grows t u"
  "enter_settlement sid t = Inr u \<Longrightarrow> grows t u"
  "leave_settlement sid t = Inr u \<Longrightarrow> grows t u"
  "grows t (cap_deadline sid d t)"
  by (auto simp: next_effect_id_def next_contribution_id_def register_resource_def enter_settlement_def
      leave_settlement_def cap_deadline_def with_scope_def require_open_def res_simps
      split: option.splits if_splits intro!: grows_upd)

lemma grows_step: "tree_step cx t u \<Longrightarrow> grows t u"
proof (induction rule: tree_step.induct)
  case (s_accept t)
  show ?case by (rule grows_frame) (simp_all add: accept_nested_tool_def)
next
  case (s_event t)
  show ?case by (rule grows_frame) (simp_all add: next_event_sequence_def)
next
  case (s_blocker sid code message t u)
  then show ?case using grows_blocker
    by (auto simp: scope_add_retry_blocker_def with_scope_def require_open_def res_simps split: option.splits if_splits)
next
  case (s_mark sid ids t u)
  then show ?case using grows_mark
    by (auto simp: context_mark_committed_def with_scope_def grows_frame split: option.splits if_splits)
qed (auto intro: grows_child_tool grows_child_run grows_frame grows_operations grows_contribute grows_blocker grows_record)

lemma grows_begin_closing: "grows t (upd_scope i begin_closing t)"
  by (rule grows_upd) (simp add: begin_closing_def)

lemma grows_cleanup_resource: "grows t (cleanup_resource sid r t)"
  by (auto simp: cleanup_resource_def Let_def grows_frame intro: grows_trans [OF _ grows_blocker])

lemma grows_finish: "finish_one sid t = Inr u \<Longrightarrow> grows t u"
  unfolding finish_one_def cleanup_def freeze_def with_scope_def
  by (auto simp: res_simps split: option.splits if_splits
      intro!: grows_trans [OF grows_trans [OF grows_upd grows_fold [OF grows_cleanup_resource]] grows_upd])

lemma grows_act: "tree_act cx t u \<Longrightarrow> grows t u"
  by (induction rule: tree_act.induct)
    (auto simp: close_begin_def intro: grows_step grows_finish
      intro!: grows_trans [OF grows_begin_closing grows_fold [OF grows_begin_closing]])

section \<open>Moves\<close>

text \<open>
  Contributions are stored under identities that scopes have handed out. The operations keep that; a task
  that makes up an identity is not one of the tasks considered here.
\<close>

definition fresh_ids :: "tree \<Rightarrow> bool" where
  "fresh_ids t \<longleftrightarrow> (\<forall>i \<in> dkeys (t_contributions t). \<exists>s. dget (t_scopes t) (ci_scope i) = Some s
     \<and> ci_sequence i < sc_contribution_next s)"

definition honest_act :: "codec \<Rightarrow> tree \<Rightarrow> tree \<Rightarrow> bool" where
  "honest_act cx t u \<longleftrightarrow> tree_act cx t u \<and> (fresh_ids t \<longrightarrow> fresh_ids u)"

definition moves :: "codec \<Rightarrow> tree \<Rightarrow> tree \<Rightarrow> bool" where
  "moves cx = (honest_act cx)\<^sup>*\<^sup>*"

lemma moves_refl [simp]: "moves cx t t"
  by (simp add: moves_def)

lemma moves_trans: "moves cx t u \<Longrightarrow> moves cx u v \<Longrightarrow> moves cx t v"
  unfolding moves_def by (rule rtranclp_trans)

lemma grows_moves: "moves cx t u \<Longrightarrow> grows t u"
  unfolding moves_def by (induction rule: rtranclp_induct) (auto simp: grows_frame honest_act_def intro: grows_trans grows_act)

lemma fresh_ids_moves: "moves cx t u \<Longrightarrow> fresh_ids t \<Longrightarrow> fresh_ids u"
  unfolding moves_def by (induction rule: rtranclp_induct) (auto simp: honest_act_def)

lemma fresh_ids_grows:
  assumes "fresh_ids t" "grows t u" "t_contributions u = t_contributions t"
  shows "fresh_ids u"
  using assms unfolding fresh_ids_def by (metis grows_scope order_less_le_trans)

lemma moves_act: "tree_act cx t u \<Longrightarrow> t_contributions u = t_contributions t \<Longrightarrow> moves cx t u"
  unfolding moves_def honest_act_def by (intro r_into_rtranclp) (blast intro: grows_act fresh_ids_grows)

lemma moves_step: "tree_step cx t u \<Longrightarrow> t_contributions u = t_contributions t \<Longrightarrow> moves cx t u"
  by (intro moves_act act_step)

text \<open>The operations of one task.\<close>

lemma moves_effect_id: "next_effect_id sid t = Inr (i, u) \<Longrightarrow> moves cx t u"
  by (rule moves_step [OF s_effect_id]) (auto simp: next_effect_id_def with_scope_def split: option.splits)

lemma moves_record: "record_tool_call cx sid call tool args preview status err ev t = Inr u \<Longrightarrow> moves cx t u"
  by (rule moves_step [OF s_record])
    (auto simp: record_tool_call_def with_scope_def add_tool_record_def append_record_def Let_def split: option.splits)

lemma moves_cancel: "moves cx t (t\<lparr>t_tokens := cancel why org i (t_tokens t)\<rparr>)"
  by (rule moves_step [OF s_cancel]) simp

lemma moves_cap: "moves cx t (cap_deadline sid d t)"
  by (rule moves_step [OF s_cap]) (simp add: cap_deadline_def)

lemma moves_accept: "moves cx t (snd (accept_nested_tool t))"
  by (rule moves_step [OF s_accept]) (simp add: accept_nested_tool_def)

lemma contributions_new_scope:
  "new_scope uuid run parent depth token d call agent_tool t = Inr u \<Longrightarrow> t_contributions u = t_contributions t"
  by (auto simp: new_scope_def Let_def split: if_splits option.splits)

lemma moves_child_tool: "child_tool uuid sid call name d t = Inr u \<Longrightarrow> uuid \<notin> dkeys (t_scopes t) \<Longrightarrow> moves cx t u"
  by (rule moves_step [OF s_child_tool], assumption+)
    (auto simp: child_tool_def with_scope_def alloc_token_def res_simps split: option.splits dest!: contributions_new_scope)

lemma moves_begin: "moves cx t (close_begin sid t)"
proof -
  have "t_contributions (fold (\<lambda>i. upd_scope i begin_closing) ids t) = t_contributions t" for ids t
    by (induction ids arbitrary: t) simp_all
  then show ?thesis by (intro moves_act [OF act_begin]) (simp add: close_begin_def)
qed

lemma moves_finish: "finish_one sid t = Inr u \<Longrightarrow> moves cx t u"
proof (rule moves_act [OF act_finish])
  have "t_contributions (fold (cleanup_resource sid) rs t) = t_contributions t" for rs t
    by (induction rs arbitrary: t) (simp_all add: cleanup_resource_def add_retry_blocker_def Let_def)
  moreover assume "finish_one sid t = Inr u"
  ultimately show "t_contributions u = t_contributions t"
    by (auto simp: finish_one_def cleanup_def freeze_def with_scope_def res_simps split: option.splits if_splits)
qed

section \<open>Contributions\<close>

definition stored :: "tree \<Rightarrow> effect \<Rightarrow> bool" where
  "stored t e \<longleftrightarrow> (\<exists>i e'. ef_id e = Some i \<and> dget (t_effects t) i = Some e' \<and> effect_core e' = effect_core e)"

lemma stored_moves: "stored t e \<Longrightarrow> moves cx t u \<Longrightarrow> stored u e"
  unfolding stored_def by (metis grows_effect grows_moves)

lemma stored_grows: "stored t e \<Longrightarrow> grows t u \<Longrightarrow> stored u e"
  unfolding stored_def by (metis grows_effect)

lemma store_effects_stored: "store_effects es t = (u, None) \<Longrightarrow> e \<in> set es \<Longrightarrow> stored u e"
proof (induction es arbitrary: t)
  case (Cons a es)
  then obtain i where i: "ef_id a = Some i" and s: "store_effects es (t\<lparr>t_effects := dset i a (t_effects t)\<rparr>) = (u, None)"
    by (auto split: option.splits if_splits)
  have "stored (t\<lparr>t_effects := dset i a (t_effects t)\<rparr>) a" by (simp add: stored_def i)
  moreover have "grows (t\<lparr>t_effects := dset i a (t_effects t)\<rparr>) u"
    using grows_store_effects [of _ es] s by (metis fst_conv)
  ultimately have "stored u a" by (rule stored_grows)
  with Cons.IH [OF s] Cons.prems(2) show ?case by auto
qed simp

lemma contribute_stored:
  assumes "contribute cx settlement c t = (u, None)" "cb_id c \<notin> dkeys (t_contributions t)" "e \<in> set (cb_effects c)"
  shows "stored u e"
proof -
  from assms(2) have n: "dget (t_contributions t) (cb_id c) = None" by (simp add: dget_None_iff)
  from assms(1) n obtain s t2 t3 where e: "store_effects (cb_effects c) t2 = (t3, None)"
    and u: "u = (let t4 = fold (add_summary_record cx s) (cb_records c) t3 in t4\<lparr>t_cleanup := t_cleanup t4 @ cb_cleanup c\<rparr>)"
    by (auto simp: contribute_def Let_def split: option.splits if_splits prod.splits)
  have "grows v (v\<lparr>t_cleanup := x\<rparr>)" for v x by (rule grows_frame) simp_all
  then have "grows t3 u" unfolding u Let_def by (blast intro: grows_trans grows_fold grows_summary)
  with store_effects_stored [OF e assms(3)] show ?thesis by (rule stored_grows)
qed

lemma contributions_contribute:
  "dkeys (t_contributions (fst (contribute cx settlement c t))) \<subseteq> insert (cb_id c) (dkeys (t_contributions t))"
proof (cases rule: contribute_cases [of cx settlement c t])
  case refused
  then show ?thesis by (simp add: subset_insertI)
next
  case (stored s t2)
  have f: "t_contributions (fold (add_summary_record cx s) rs v) = t_contributions v" for rs v
    by (induction rs arbitrary: v) (simp_all add: add_summary_record_def append_record_def Let_def)
  have "t_contributions t2 = dset (cb_id c) c (t_contributions t)"
    using stored(4) by (auto simp: Let_def merge_usage_def split: option.splits usage_contribution.splits)
  moreover have "t_contributions (fst (contribute cx settlement c t)) = t_contributions t2"
    using store_effects_fields [of "cb_effects c" t2]
    by (auto simp: stored(5) f Let_def split: prod.splits option.splits)
  ultimately show ?thesis by simp
qed

lemma moves_contribute:
  assumes "dget (t_scopes t) (ci_scope (cb_id c)) = Some s" "ci_sequence (cb_id c) < sc_contribution_next s"
  shows "moves cx t (fst (contribute cx settlement c t))"
proof -
  let ?u = "fst (contribute cx settlement c t)"
  have g: "grows t ?u" by (rule grows_contribute)
  have "fresh_ids ?u" if "fresh_ids t"
    unfolding fresh_ids_def
  proof
    fix i assume "i \<in> dkeys (t_contributions ?u)"
    then have "i = cb_id c \<or> i \<in> dkeys (t_contributions t)" using contributions_contribute [of cx settlement c t] by blast
    with assms that obtain q where "dget (t_scopes t) (ci_scope i) = Some q" "ci_sequence i < sc_contribution_next q"
      unfolding fresh_ids_def by blast
    with g show "\<exists>s. dget (t_scopes ?u) (ci_scope i) = Some s \<and> ci_sequence i < sc_contribution_next s"
      by (metis grows_scope order_less_le_trans)
  qed
  then show ?thesis unfolding moves_def honest_act_def by (intro r_into_rtranclp) (simp add: act_step s_contribute)
qed

lemma contribute_with_moves:
  assumes "contribute_with cx sid u es rs t = (v, r)"
  shows "moves cx t v \<and> (fresh_ids t \<longrightarrow> r = None \<longrightarrow> (\<forall>e \<in> set es. stored v e))"
proof (cases "dget (t_scopes t) sid")
  case None
  with assms show ?thesis by (auto simp: contribute_with_def next_contribution_id_def with_scope_def)
next
  case (Some q)
  let ?t = "upd_scope sid (\<lambda>q. q\<lparr>sc_contribution_next := sc_contribution_next q + 1\<rparr>) t"
  let ?c = "\<lparr>cb_id = ContributionId sid (sc_contribution_next q), cb_usage = u, cb_effects = es, cb_records = rs, cb_cleanup = []\<rparr>"
  from assms Some have v: "contribute cx False ?c ?t = (v, r)"
    by (simp add: contribute_with_def next_contribution_id_def with_scope_def)
  have n: "next_contribution_id sid t = Inr (ContributionId sid (sc_contribution_next q), ?t)"
    using Some by (simp add: next_contribution_id_def with_scope_def)
  have 1: "moves cx t ?t" by (rule moves_step [OF s_contribution_id [OF n]]) simp
  have 2: "moves cx ?t (fst (contribute cx False ?c ?t))" using Some
    by (intro moves_contribute [where s = "q\<lparr>sc_contribution_next := sc_contribution_next q + 1\<rparr>"]) simp_all
  have "e \<in> set es \<Longrightarrow> fresh_ids t \<Longrightarrow> r = None \<Longrightarrow> stored v e" for e
  proof (rule contribute_stored)
    assume "fresh_ids t"
    then show "cb_id ?c \<notin> dkeys (t_contributions ?t)" using Some by (force simp: fresh_ids_def)
  qed (use v in simp_all)
  with moves_trans [OF 1 2] v show ?thesis by simp
qed

lemma contribute_with_stored:
  "contribute_with cx sid u es rs t = (v, None) \<Longrightarrow> fresh_ids t \<Longrightarrow> e \<in> set es \<Longrightarrow> stored v e"
  using contribute_with_moves by blast

end
