(* ===== verification/ExecutorQuiet.thy ===== *)
theory ExecutorQuiet
  imports ExecutorBatch TreeGrows
begin

text \<open>
  The steps of the executor that report nothing: whatever holds of the tree and survives the moves of other
  tasks holds after them, and what they raise carries no effects. \<open>quiet\<close> says so of a program, and the
  collection of the same name proves it by the structure of the program.
\<close>

named_theorems quiet \<open>programs that only move the tree, by their structure\<close>

fun exc_effects :: "py_exc \<Rightarrow> effect list" where
  "exc_effects (BatchAborted _ es) = es"
| "exc_effects (BatchCancelled es) = es"
| "exc_effects _ = []"

definition batch_report :: "py_exc \<Rightarrow> bool" where
  "batch_report e \<longleftrightarrow> (case e of BatchAborted _ _ \<Rightarrow> True | BatchCancelled _ \<Rightarrow> True | _ \<Rightarrow> False)"

lemma no_report_effects: "\<not> batch_report e \<Longrightarrow> exc_effects e = []"
  by (cases e) (simp_all add: batch_report_def)

text \<open>Other tasks move the tree; what an await raises is not the report of a batch.\<close>

definition tame :: "codec \<Rightarrow> interlude \<Rightarrow> bool" where
  "tame cx i \<longleftrightarrow> (\<forall>t. moves cx t (il_tree i t)) \<and> (\<forall>e. il_raise i = Some e \<longrightarrow> \<not> batch_report e)"

definition steady :: "codec \<Rightarrow> (tree \<Rightarrow> bool) \<Rightarrow> bool" where
  "steady cx P \<longleftrightarrow> (\<forall>t u. P t \<longrightarrow> moves cx t u \<longrightarrow> P u)"

definition under :: "codec \<Rightarrow> (tree \<Rightarrow> bool) \<Rightarrow> xstate \<Rightarrow> bool" where
  "under cx P s \<longleftrightarrow> P (xs_tree s) \<and> fresh_ids (xs_tree s) \<and> list_all (tame cx) (xs_script s)"

definition quiet :: "codec \<Rightarrow> 'a xprog \<Rightarrow> bool" where
  "quiet cx m \<longleftrightarrow> (\<forall>P. steady cx P \<longrightarrow>
     holds (under cx P) m (\<lambda>_. under cx P) (\<lambda>e s. under cx P s \<and> exc_effects e = []))"

lemma quietI:
  "(\<And>P. steady cx P \<Longrightarrow> holds (under cx P) m (\<lambda>_. under cx P) (\<lambda>e s. under cx P s \<and> exc_effects e = [])) \<Longrightarrow> quiet cx m"
  by (simp add: quiet_def)

lemma quietD:
  "quiet cx m \<Longrightarrow> steady cx P \<Longrightarrow>
     holds (under cx P) m (\<lambda>_. under cx P) (\<lambda>e s. under cx P s \<and> exc_effects e = [])"
  by (simp add: quiet_def)

lemma under_moves: "under cx P s \<Longrightarrow> steady cx P \<Longrightarrow> moves cx (xs_tree s) t \<Longrightarrow> under cx P (s\<lparr>xs_tree := t\<rparr>)"
  by (auto simp: under_def steady_def intro: fresh_ids_moves)

lemma steady_conj: "steady cx P \<Longrightarrow> steady cx Q \<Longrightarrow> steady cx (\<lambda>t. P t \<and> Q t)"
  unfolding steady_def by blast

lemma steady_True [simp]: "steady cx (\<lambda>_. True)"
  by (simp add: steady_def)

section \<open>Structure\<close>

lemma quiet_ret [quiet]: "quiet cx (ret x)"
  by (intro quietI holds_ret)

lemma quiet_throw [quiet]: "exc_effects e = [] \<Longrightarrow> quiet cx (throw e)"
  by (intro quietI holds_throw) simp

lemma quiet_gets [quiet]: "quiet cx (gets f)"
  by (intro quietI holds_gets)

lemma quiet_bind [quiet]: "quiet cx m \<Longrightarrow> (\<And>x. quiet cx (f x)) \<Longrightarrow> quiet cx (bind_prog m f)"
  by (intro quietI holds_bind) (blast intro: quietD)+

lemma quiet_seq [quiet]: "quiet cx m \<Longrightarrow> quiet cx n \<Longrightarrow> quiet cx (seq_prog m n)"
  unfolding seq_prog_def by (rule quiet_bind)

lemma quiet_catch [quiet]:
  assumes "quiet cx m" "\<And>e. exc_effects e = [] \<Longrightarrow> quiet cx (h e)"
  shows "quiet cx (catch_prog m h)"
proof (rule quietI)
  fix P assume P: "steady cx P"
  have "holds (\<lambda>s. under cx P s \<and> exc_effects e = []) (h e) (\<lambda>_. under cx P) (\<lambda>e s. under cx P s \<and> exc_effects e = [])" for e
    using assms(2) [of e] P by (cases "exc_effects e = []") (auto simp: holds_def dest!: quietD)
  with quietD [OF assms(1) P]
  show "holds (under cx P) (catch_prog m h) (\<lambda>_. under cx P) (\<lambda>e s. under cx P s \<and> exc_effects e = [])"
    by (rule holds_catch)
qed

lemma quiet_finally [quiet]: "quiet cx m \<Longrightarrow> quiet cx f \<Longrightarrow> quiet cx (finally_prog m f)"
proof (rule quietI)
  fix P assume q: "quiet cx m" "quiet cx f" and P: "steady cx P"
  show "holds (under cx P) (finally_prog m f) (\<lambda>_. under cx P) (\<lambda>e s. under cx P s \<and> exc_effects e = [])"
    by (rule holds_finally [OF quietD [OF q(1) P]])
      (auto intro!: holds_weaken [OF quietD [OF q(2) P]] simp: holds_def split: option.split sum.split
        dest: holds_returns [OF quietD [OF q(2) P]] holds_raises [OF quietD [OF q(2) P]])
qed

lemma quiet_when [quiet]: "quiet cx m \<Longrightarrow> quiet cx (when_prog b m)"
  by (cases b) (simp_all add: when_prog_def quiet_ret)

lemma quiet_of_sum [quiet]: "(\<And>e. r = Inl e \<Longrightarrow> exc_effects e = []) \<Longrightarrow> quiet cx (of_sum r)"
  by (intro quietI holds_of_sum) simp_all

lemma quiet_each [quiet]: "(\<And>x. x \<in> set xs \<Longrightarrow> quiet cx (f x)) \<Longrightarrow> quiet cx (each_prog f xs)"
  by (induction xs) (auto intro: quiet_ret quiet_seq)

lemma quiet_map [quiet]: "(\<And>x. x \<in> set xs \<Longrightarrow> quiet cx (f x)) \<Longrightarrow> quiet cx (map_prog f xs)"
  by (induction xs) (auto intro!: quiet_ret quiet_bind)

lemma quiet_waits [quiet]: "quiet cx (\<lambda>s. if f s then Some (Inr x, s) else None)"
  by (intro quietI) (simp add: holds_def)

lemma quiet_never [quiet]: "quiet cx (\<lambda>s. None)"
  by (intro quietI) (simp add: holds_def)

section \<open>Steps on the tree\<close>

lemma quiet_tree [quiet]:
  "(\<And>t. moves cx t (f t)) \<Longrightarrow> quiet cx (modify (\<lambda>s. s\<lparr>xs_tree := f (xs_tree s)\<rparr>))"
  by (intro quietI holds_modify) (blast intro: under_moves)

lemma quiet_event: "quiet cx (modify (\<lambda>s. s\<lparr>xs_events := g s\<rparr>))"
  by (intro quietI holds_modify) (simp add: under_def)

lemma exec_exception_effects [simp]: "exc_effects (exec_exception e) = []"
  by (simp add: exec_exception_def)

lemma quiet_tree_call: "(\<And>t x u. f t = Inr (x, u) \<Longrightarrow> moves cx t u) \<Longrightarrow> quiet cx (tree_call f)"
  by (intro quietI) (auto simp: holds_def tree_call_def split: sum.splits option.splits intro: under_moves)

lemma quiet_tree_update [quiet]: "(\<And>t u. f t = Inr u \<Longrightarrow> moves cx t u) \<Longrightarrow> quiet cx (tree_update f)"
  unfolding tree_update_def by (rule quiet_tree_call) (auto simp: res_simps)

lemma quiet_ledger: "(\<And>t u r. f t = (u, r) \<Longrightarrow> moves cx t u) \<Longrightarrow> quiet cx (tree_ledger f)"
  by (intro quietI) (auto simp: holds_def tree_ledger_def split: sum.splits option.splits prod.splits intro: under_moves)

lemma quiet_value [quiet]: "quiet cx (value_or_error r)"
  unfolding value_or_error_def by (rule quiet_of_sum) (auto split: sum.splits)

lemma quiet_pause [quiet]: "quiet cx pause"
  by (intro quietI) (auto simp: holds_def pause_def pass_interlude_def under_def tame_def steady_def Let_def
      split: list.splits option.splits sum.splits intro: fresh_ids_moves no_report_effects)

lemma quiet_check [quiet]: "quiet cx (check_token tx)"
  unfolding check_token_def by (auto intro!: quiet)

lemma quiet_emit [quiet]: "quiet cx (emit ex kind call tx payload)"
  unfolding emit_def by (intro quiet quiet_event)

lemma quiet_emit_terminal [quiet]: "quiet cx (emit_terminal ex kind call code tx)"
  unfolding emit_terminal_def by (intro quiet)

lemma quiet_abort [quiet]: "quiet cx (abort_with code message cause [])"
  unfolding abort_with_def by (auto intro!: quiet)

lemma quiet_record_call [quiet]: "quiet (ex_codec ex) (record_call ex tx call result status)"
  unfolding record_call_def by (auto intro!: quiet intro: moves_record split: option.split)

lemma quiet_record_error [quiet]: "quiet (ex_codec ex) (record_error ex tx call code status)"
  unfolding record_error_def by (auto intro!: quiet)

lemma quiet_effect_of [quiet]: "quiet cx (effect_of tx call tool status content error)"
  unfolding effect_of_def by (auto intro!: quiet quiet_tree_call intro: moves_effect_id split: option.split)

lemma quiet_identity_loop [quiet]: "quiet cx (identity_loop sid seen es)"
  by (induction sid seen es rule: identity_loop.induct)
    (auto intro!: quiet quiet_tree_call intro: moves_effect_id split: option.split)

lemma quiet_identity [quiet]: "quiet cx (identity_effects tx es)"
  unfolding identity_effects_def by (auto intro!: quiet split: option.split)

lemma quiet_contribute [quiet]: "quiet (ex_codec ex) (contribute_call_effects ex tx es)"
  unfolding contribute_call_effects_def contribute_effects_def
  by (auto intro!: quiet quiet_ledger split: option.split if_splits dest: contribute_with_moves)

lemma quiet_contribute_composite [quiet]: "quiet (ex_codec ex) (contribute_call_composite ex tx es rs)"
  unfolding contribute_call_composite_def contribute_composite_def
  by (auto intro!: quiet quiet_ledger split: option.split dest: contribute_with_moves)

lemma quiet_contribute_cancelled [quiet]: "quiet (ex_codec ex) (contribute_cancelled ex tx tool evidence)"
  unfolding contribute_cancelled_def by (auto intro!: quiet)

section \<open>Foreign code\<close>

text \<open>The exceptions of policies, hooks, resolvers and handlers are not reports of a batch with effects.\<close>

definition plain_hook :: "'a hook_answer \<Rightarrow> bool" where
  "plain_hook h \<longleftrightarrow> (\<forall>e. h = HookRaises e \<longrightarrow> exc_effects e = [])"

definition plain_foreign :: "foreign \<Rightarrow> bool" where
  "plain_foreign fo \<longleftrightarrow>
     (\<forall>call tool tx e. fo_policy fo call tool tx = PolicyRaises e \<longrightarrow> exc_effects e = [])
   \<and> (\<forall>tool args e. fo_timeout fo tool args = TimeoutRaises e \<longrightarrow> exc_effects e = [])
   \<and> (\<forall>call tx. list_all plain_hook (fo_before fo call tx)) \<and> (\<forall>r tx. list_all plain_hook (fo_after fo r tx))
   \<and> (\<forall>tool call tx e. fo_run fo tool call tx = WaitDone (TaskRaises e) \<longrightarrow> exc_effects e = [])
   \<and> (\<forall>tool call tx again e. fo_settle fo tool call tx again = SettleDone (TaskRaises e) \<longrightarrow> exc_effects e = [])"

lemma plain_foreignD:
  assumes "plain_foreign fo"
  shows "fo_policy fo call tool tx = PolicyRaises e \<Longrightarrow> exc_effects e = []"
    "fo_timeout fo t args = TimeoutRaises e \<Longrightarrow> exc_effects e = []"
    "h \<in> set (fo_before fo call tx) \<Longrightarrow> plain_hook h" "k \<in> set (fo_after fo r tx) \<Longrightarrow> plain_hook k"
    "fo_run fo t call tx = WaitDone (TaskRaises e) \<Longrightarrow> exc_effects e = []"
    "fo_settle fo t call tx again = SettleDone (TaskRaises e) \<Longrightarrow> exc_effects e = []"
  using assms by (auto simp: plain_foreign_def list_all_iff)

lemma quiet_await_hook: "plain_hook h \<Longrightarrow> quiet cx (await_hook tx h)"
  unfolding await_hook_def by (auto intro!: quiet simp: plain_hook_def split: hook_answer.split)

lemma quiet_hook_failed: "exc_effects e = [] \<Longrightarrow> quiet cx (hook_failed message e)"
  unfolding hook_failed_def by (auto intro!: quiet)

lemma quiet_before_one: "plain_hook h \<Longrightarrow> quiet cx (before_one tx h)"
  unfolding before_one_def
  by (intro quiet quiet_await_hook quiet_hook_failed) (auto intro!: quiet split: option.split hook_decision.split)

lemma quiet_after_one: "plain_hook h \<Longrightarrow> quiet cx (after_one tx h)"
  unfolding after_one_def
  by (intro quiet quiet_await_hook quiet_hook_failed) (auto intro!: quiet split: option.split)

lemma quiet_before_tool [quiet]: "plain_foreign (ex_foreign ex) \<Longrightarrow> quiet cx (before_tool ex tx call)"
  unfolding before_tool_def present_def by (auto intro!: quiet quiet_before_one dest: plain_foreignD(3))

lemma quiet_after_tool [quiet]: "plain_foreign (ex_foreign ex) \<Longrightarrow> quiet cx (after_tool ex tx result)"
  unfolding after_tool_def present_def by (auto intro!: quiet quiet_after_one dest: plain_foreignD(4))

section \<open>Preparing\<close>

lemma quiet_failed_result [quiet]: "quiet cx (failed_result ex call code message)"
  unfolding failed_result_def by (intro quiet)

lemma quiet_approval_resolved [quiet]: "quiet cx (emit_approval_resolved ex request call tx result code)"
  unfolding emit_approval_resolved_def by (intro quiet)

lemma quiet_approval_abort [quiet]: "quiet cx (approval_abort ex request call tx result code message cause)"
  unfolding approval_abort_def by (intro quiet)

lemma quiet_approval_denied [quiet]: "quiet cx (approval_denied ex request call tx result code message)"
  unfolding approval_denied_def by (intro quiet)

lemma quiet_approval_answered [quiet]: "quiet cx (approval_answered ex request call tx response)"
  unfolding approval_answered_def by (auto intro!: quiet)

lemma quiet_await_approval [quiet]: "quiet cx (await_approval ex request call tx)"
  unfolding await_approval_def by (intro quiet) (auto intro!: quiet split: approval_answer.split)

lemma quiet_approval_for [quiet]: "quiet cx (approval_for ex call tool tx why)"
  unfolding approval_for_def by (auto intro!: quiet split: option.split)

lemma quiet_resolve_timeout [quiet]: "plain_foreign (ex_foreign ex) \<Longrightarrow> quiet cx (resolve_timeout ex call tool tx)"
  unfolding resolve_timeout_def Let_def
  by (auto intro!: quiet moves_cap split: timeout_answer.split option.split dest: plain_foreignD(2))

lemma quiet_policy [quiet]:
  assumes "plain_foreign (ex_foreign ex)" shows "quiet cx (evaluate_policy ex call tool tx)"
  unfolding evaluate_policy_def
proof (intro quiet)
  show "quiet cx (case fo_policy (ex_foreign ex) call tool tx of
      PolicyDecides d why \<Rightarrow> ret (Some (d, why)) | PolicyInvalid \<Rightarrow> ret None | PolicyRaises x \<Rightarrow> throw x)"
    using plain_foreignD(1) [OF assms] by (auto intro!: quiet split: policy_answer.split)
qed (auto intro!: quiet split: option.split)

lemma quiet_finish_prepared [quiet]:
  "plain_foreign (ex_foreign ex) \<Longrightarrow> quiet (ex_codec ex) (finish_prepared ex tx call code result)"
  unfolding finish_prepared_def by (intro quiet)

lemma quiet_prepare_call [quiet]:
  assumes "plain_foreign (ex_foreign ex)" shows "quiet (ex_codec ex) (prepare_call ex call tx)"
proof -
  have known: "quiet (ex_codec ex) (prepare_known ex call t tx decision why)" for t decision why
    unfolding prepare_known_def using assms by (auto intro!: quiet split: option.split)
  have "quiet (ex_codec ex) (prepare_decided ex call tool tx d)" for tool d
    unfolding prepare_decided_def using assms by (auto intro!: quiet known split: option.split prod.split)
  with assms show ?thesis
    unfolding prepare_call_def Let_def by (auto intro!: quiet split: option.split)
qed

section \<open>Stopping and closing\<close>

lemma quiet_cancel_token [quiet]: "quiet cx (cancel_token tx timed_out)"
  unfolding cancel_token_def by (auto intro!: quiet moves_cancel split: option.split)

lemma settle_of_plain: "plain_foreign (ex_foreign ex) \<Longrightarrow> settle_of ex tool call tx again = SettleDone (TaskRaises e) \<Longrightarrow> exc_effects e = []"
  by (auto simp: settle_of_def split: wait_end.splits if_splits dest: plain_foreignD(5) plain_foreignD(6))

lemma quiet_await_settled [quiet]: "plain_foreign (ex_foreign ex) \<Longrightarrow> quiet cx (await_settled ex tool call tx again)"
  unfolding await_settled_def
  by (intro quiet) (auto intro!: quiet split: settle_end.split task_end.split dest: settle_of_plain)

lemma quiet_error_effect [quiet]: "quiet cx (error_effect tx call tool status r)"
  unfolding error_effect_def by (intro quiet)

lemma quiet_leaf_evidence [quiet]: "quiet cx (leaf_evidence tx call tool status r)"
  unfolding leaf_evidence_def by (auto intro!: quiet)

lemma quiet_composite_evidence [quiet]: "quiet cx (composite_evidence tx es rs)"
  unfolding composite_evidence_def by (intro quiet)

lemma quiet_unsettled [quiet]: "quiet cx (unsettled_evidence tx call tool timed_out)"
  unfolding unsettled_evidence_def by (auto intro!: quiet)

lemma quiet_settled_raise [quiet]: "quiet cx (settled_raise ex tx call tool e)"
  unfolding settled_raise_def by (auto intro!: quiet split: py_exc.split)

lemma quiet_raw_evidence [quiet]: "quiet cx (raw_evidence ex raw)"
  unfolding raw_evidence_def by (intro quiet)

lemma quiet_settled_return [quiet]: "quiet cx (settled_return ex tx call tool v)"
  unfolding settled_return_def by (auto intro!: quiet split: handler_return.split)

lemma quiet_cancel_started [quiet]:
  "plain_foreign (ex_foreign ex) \<Longrightarrow> quiet cx (cancel_started ex tool call tx timed_out again)"
  unfolding cancel_started_def by (intro quiet) (auto intro!: quiet split: option.split sum.split)

lemma quiet_wait_settled [quiet]: "quiet cx (wait_settled i)"
  unfolding wait_settled_def by (auto intro!: quiet)

lemma quiet_finish_scope [quiet]: "quiet cx (finish_scope i)"
  unfolding finish_scope_def by (auto intro!: quiet moves_finish)

lemma quiet_close_open [quiet]: "quiet cx (close_open_scope sid)"
  unfolding close_open_scope_def by (auto intro!: quiet moves_begin)

lemma quiet_close [quiet]: "quiet cx (close_call_scope tx)"
  unfolding close_call_scope_def
  by (auto intro!: quiet quiet_tree_call simp: with_scope_def split: option.splits)

lemma quiet_abort_unprocessed [quiet]: "quiet (ex_codec ex) (abort_unprocessed ex pairs code)"
  unfolding abort_unprocessed_def by (auto intro!: quiet split: prod.split)

end
