(* ===== verification/ExecutorLaws.thy ===== *)
theory ExecutorLaws
  imports ExecutorQuiet
begin

text \<open>
  What one call of the executor leaves in a runtime context: the effects it reports, by returning or by
  raising, are in the ledger of the tree (\<open>reports\<close>); a call that ends in a result or in the report of a
  batch has recorded its terminal (\<open>records\<close>) and its scope is frozen.
\<close>

section \<open>Effects that are reported are stored\<close>

definition keeps :: "(tree \<Rightarrow> bool) \<Rightarrow> effect list \<Rightarrow> tree \<Rightarrow> bool" where
  "keeps P es t \<longleftrightarrow> P t \<and> (\<forall>e \<in> set es. stored t e)"

lemma steady_keeps: "steady cx P \<Longrightarrow> steady cx (keeps P es)"
  unfolding steady_def keeps_def by (blast intro: stored_moves)

lemma keeps_Nil [simp]: "keeps P [] = P"
  by (simp add: keeps_def fun_eq_iff)

lemma under_keeps_subset: "under cx (keeps P es) s \<Longrightarrow> set fs \<subseteq> set es \<Longrightarrow> under cx (keeps P fs) s"
  by (auto simp: under_def keeps_def)

lemma under_keeps_weak [elim]: "under cx (keeps P es) s \<Longrightarrow> under cx P s"
  by (simp add: under_def keeps_def)

lemma under_keeps_append: "under cx (keeps (keeps P es) fs) s \<longleftrightarrow> under cx (keeps P (es @ fs)) s"
  by (auto simp: under_def keeps_def)

text \<open>\<open>reports es m\<close>: started with \<open>es\<close> in the ledger, the effects \<open>m\<close> answers or raises are there.\<close>

definition reports :: "codec \<Rightarrow> effect list \<Rightarrow> ('r \<times> effect list) xprog \<Rightarrow> bool" where
  "reports cx es m \<longleftrightarrow> (\<forall>P. steady cx P \<longrightarrow>
     holds (under cx (keeps P es)) m (\<lambda>r. under cx (keeps P (snd r))) (\<lambda>e. under cx (keeps P (exc_effects e))))"

text \<open>\<open>carries es m\<close>: the same of a step whose answer says nothing of effects.\<close>

definition carries :: "codec \<Rightarrow> effect list \<Rightarrow> 'a xprog \<Rightarrow> bool" where
  "carries cx es m \<longleftrightarrow> (\<forall>P. steady cx P \<longrightarrow>
     holds (under cx (keeps P es)) m (\<lambda>_. under cx (keeps P es)) (\<lambda>e. under cx (keeps P (exc_effects e))))"

lemma carriesD: "carries cx es m \<Longrightarrow> steady cx P \<Longrightarrow>
    holds (under cx (keeps P es)) m (\<lambda>_. under cx (keeps P es)) (\<lambda>e. under cx (keeps P (exc_effects e)))"
  by (simp add: carries_def)

lemma reportsD: "reports cx es m \<Longrightarrow> steady cx P \<Longrightarrow>
    holds (under cx (keeps P es)) m (\<lambda>r. under cx (keeps P (snd r))) (\<lambda>e. under cx (keeps P (exc_effects e)))"
  by (simp add: reports_def)

lemma carries_quiet: "quiet cx m \<Longrightarrow> carries cx es m"
  unfolding carries_def
  by (intro allI impI holds_post [OF quietD]) (auto intro: steady_keeps under_keeps_subset)

named_theorems reports_rules \<open>the structure of programs that report effects\<close>

lemma reports_bind: "carries cx es m \<Longrightarrow> (\<And>x. reports cx es (f x)) \<Longrightarrow> reports cx es (bind_prog m f)"
  unfolding reports_def carries_def by (intro allI impI holds_bind) blast+

lemma reports_quiet_bind [reports_rules]: "quiet cx m \<Longrightarrow> (\<And>x. reports cx es (f x)) \<Longrightarrow> reports cx es (bind_prog m f)"
  by (rule reports_bind [OF carries_quiet])

lemma reports_seq: "carries cx es m \<Longrightarrow> reports cx es n \<Longrightarrow> reports cx es (seq_prog m n)"
  unfolding seq_prog_def by (rule reports_bind)

lemma reports_quiet_seq [reports_rules]: "quiet cx m \<Longrightarrow> reports cx es n \<Longrightarrow> reports cx es (seq_prog m n)"
  by (rule reports_seq [OF carries_quiet])

lemma reports_ret [reports_rules]: "set (snd r) \<subseteq> set es \<Longrightarrow> reports cx es (ret r)"
  unfolding reports_def by (intro allI impI holds_ret) (rule under_keeps_subset)

lemma reports_throw [reports_rules]: "set (exc_effects e) \<subseteq> set es \<Longrightarrow> reports cx es (throw e)"
  unfolding reports_def by (intro allI impI holds_throw) (rule under_keeps_subset)

lemma carries_throw: "set (exc_effects e) \<subseteq> set es \<Longrightarrow> carries cx es (throw e)"
  unfolding carries_def by (intro allI impI holds_throw) (rule under_keeps_subset)

lemma carries_abort: "set fs \<subseteq> set es \<Longrightarrow> carries cx es (abort_with code message cause fs)"
  unfolding abort_with_def by (auto intro!: carries_throw)

lemma reports_abort [reports_rules]: "set fs \<subseteq> set es \<Longrightarrow> reports cx es (abort_with code message cause fs)"
  unfolding abort_with_def by (auto intro!: reports_throw)


lemma reports_catch:
  "reports cx es m \<Longrightarrow> (\<And>e. reports cx (exc_effects e) (h e)) \<Longrightarrow> reports cx es (catch_prog m h)"
  unfolding reports_def by (intro allI impI holds_catch) blast+

lemma reports_finally:
  assumes "reports cx es m" "quiet cx f"
  shows "reports cx es (finally_prog m f)"
  unfolding reports_def
proof (intro allI impI)
  fix P assume P: "steady cx P"
  note q = quietD [OF assms(2) steady_keeps [OF P]]
  show "holds (under cx (keeps P es)) (finally_prog m f) (\<lambda>r. under cx (keeps P (snd r)))
      (\<lambda>e. under cx (keeps P (exc_effects e)))"
    by (rule holds_finally [OF reportsD [OF assms(1) P]]; rule holds_post [OF q]) (auto intro: under_keeps_subset)
qed

text \<open>Contributing puts effects into the ledger.\<close>

lemma ledger_stores:
  assumes "steady cx P" "\<And>t u r. f t = (u, r) \<Longrightarrow> moves cx t u \<and> (fresh_ids t \<longrightarrow> r = None \<longrightarrow> (\<forall>e \<in> set es. stored u e))"
  shows "holds (under cx P) (tree_ledger f) (\<lambda>_. under cx (keeps P es)) (\<lambda>e s. under cx P s \<and> exc_effects e = [])"
proof (rule holdsI)
  fix s :: xstate and u s1
  assume s: "under cx P s" and r: "tree_ledger f s = Some (Inr u, s1)"
  then obtain t where t: "f (xs_tree s) = (t, None)" "s1 = s\<lparr>xs_tree := t\<rparr>"
    by (auto simp: tree_ledger_def split: prod.splits option.splits)
  from assms(2) [OF t(1)] s have "moves cx (xs_tree s) t" "\<forall>e \<in> set es. stored t e" by (auto simp: under_def)
  with under_moves [OF s assms(1)] t(2) show "under cx (keeps P es) s1" by (auto simp: under_def keeps_def)
next
  fix s :: xstate and e s1
  assume s: "under cx P s" and r: "tree_ledger f s = Some (Inl e, s1)"
  then obtain t x where t: "f (xs_tree s) = (t, Some x)" "s1 = s\<lparr>xs_tree := t\<rparr>" "e = exec_exception x"
    by (auto simp: tree_ledger_def split: prod.splits option.splits)
  with under_moves [OF s assms(1)] assms(2) [OF t(1)] show "under cx P s1 \<and> exc_effects e = []" by simp
qed

lemma call_effects_stores:
  assumes "tx_scope tx = Some sid" "steady (ex_codec ex) P"
  shows "holds (under (ex_codec ex) P) (contribute_call_effects ex tx es) (\<lambda>_. under (ex_codec ex) (keeps P es))
    (\<lambda>e s. under (ex_codec ex) P s \<and> exc_effects e = [])"
proof (cases "es = []")
  case True
  with assms(1) show ?thesis by (auto simp: contribute_call_effects_def when_prog_def intro: holds_ret)
next
  case False
  with assms show ?thesis
    by (auto simp: contribute_call_effects_def when_prog_def contribute_effects_def
        intro!: ledger_stores dest: contribute_with_moves intro: contribute_with_stored)
qed

lemma contribute_composite_stores:
  assumes "tx_scope tx = Some sid" "steady (ex_codec ex) P"
  shows "holds (under (ex_codec ex) P) (contribute_call_composite ex tx es rs) (\<lambda>_. under (ex_codec ex) (keeps P es))
    (\<lambda>e s. under (ex_codec ex) P s \<and> exc_effects e = [])"
  using assms by (auto simp: contribute_call_composite_def contribute_composite_def
      intro!: ledger_stores dest: contribute_with_moves intro: contribute_with_stored)

lemma contribute_cancelled_stores:
  assumes "tx_scope tx = Some sid" "steady (ex_codec ex) P"
  shows "holds (under (ex_codec ex) P) (contribute_cancelled ex tx tool evidence)
    (\<lambda>_. under (ex_codec ex) (keeps P (fst evidence))) (\<lambda>e s. under (ex_codec ex) P s \<and> exc_effects e = [])"
  using call_effects_stores [OF assms] contribute_composite_stores [OF assms] by (simp add: contribute_cancelled_def)

lemma reports_stores:
  assumes "\<And>P. steady cx P \<Longrightarrow> holds (under cx P) c (\<lambda>_. under cx (keeps P es)) (\<lambda>e s. under cx P s \<and> exc_effects e = [])"
    and "reports cx es m"
  shows "reports cx [] (seq_prog c m)"
  unfolding reports_def
proof (intro allI impI)
  fix P assume P: "steady cx P"
  have "holds (under cx P) c (\<lambda>_. under cx (keeps P es)) (\<lambda>e. under cx (keeps P (exc_effects e)))"
    by (rule holds_post [OF assms(1) [OF P]]) auto
  with reportsD [OF assms(2) P] show "holds (under cx (keeps P [])) (seq_prog c m)
      (\<lambda>r. under cx (keeps P (snd r))) (\<lambda>e. under cx (keeps P (exc_effects e)))"
    by (auto intro: holds_seq)
qed

section \<open>The branches of a call\<close>

lemma after_carries:
  assumes "plain_foreign (ex_foreign ex)"
  shows "carries cx es (after_with_effect ex tx result es)"
  unfolding carries_def
proof (intro allI impI)
  fix P assume P: "steady cx P"
  have "holds (under cx (keeps P es)) (after_tool ex tx result) (\<lambda>_. under cx (keeps P es)) (\<lambda>e. under cx (keeps P es))"
    by (rule holds_post [OF quietD [OF quiet_after_tool [OF assms] steady_keeps [OF P]]]) auto
  moreover have t: "holds (under cx (keeps P es)) (throw x) (\<lambda>_. under cx (keeps P es))
      (\<lambda>e. under cx (keeps P (exc_effects e)))" if "set (exc_effects x) \<subseteq> set es" for x :: py_exc
    using that by (intro holds_throw) (rule under_keeps_subset)
  have "holds (under cx (keeps P es)) (if is_cancelled_error e then throw (BatchCancelled es)
      else case e of BatchAborted why x \<Rightarrow> throw (BatchAborted why es) | _ \<Rightarrow> throw e) (\<lambda>_. under cx (keeps P es))
      (\<lambda>e. under cx (keeps P (exc_effects e)))" for e
    by (cases e) (auto intro!: t)
  ultimately show "holds (under cx (keeps P es)) (after_with_effect ex tx result es) (\<lambda>_. under cx (keeps P es))
      (\<lambda>e. under cx (keeps P (exc_effects e)))"
    unfolding after_with_effect_def by (rule holds_catch)
qed

lemma reports_report:
  assumes "plain_foreign (ex_foreign ex)"
  shows "reports (ex_codec ex) es (report ex tx call code result es status)"
  unfolding report_def
  by (intro reports_quiet_seq reports_seq [OF after_carries] reports_ret quiet assms) simp

lemma reports_cancelled: "reports (ex_codec ex) es (report_cancelled ex tx call es)"
  unfolding report_cancelled_def by (intro reports_quiet_seq reports_throw quiet) simp

lemma reports_stopped:
  assumes "plain_foreign (ex_foreign ex)" "tx_scope tx = Some sid"
  shows "reports (ex_codec ex) [] (stopped ex tool call tx again)"
  unfolding stopped_def
  by (intro reports_quiet_bind reports_stores [OF contribute_cancelled_stores [OF assms(2)] reports_cancelled] quiet assms(1))

lemma reports_overran:
  assumes "plain_foreign (ex_foreign ex)" "tx_scope tx = Some sid"
  shows "reports (ex_codec ex) [] (overran ex tool call tx)"
  unfolding overran_def
  by (intro reports_quiet_bind reports_stores [OF contribute_cancelled_stores [OF assms(2)] reports_report] quiet assms(1))

lemma reports_completed_composite:
  assumes "plain_foreign (ex_foreign ex)" "tx_scope tx = Some sid"
  shows "reports (ex_codec ex) [] (completed_composite ex tool call tx content es rs)"
proof -
  have "quiet (ex_codec ex) (validate_composite_content content)"
    unfolding validate_composite_content_def by (auto intro!: quiet)
  then show ?thesis
    unfolding completed_composite_def
    by (auto intro!: reports_throw reports_quiet_bind reports_stores [OF contribute_composite_stores [OF assms(2)]]
        reports_report quiet assms(1))
qed

lemma carries_bind: "carries cx es m \<Longrightarrow> (\<And>x. carries cx es (f x)) \<Longrightarrow> carries cx es (bind_prog m f)"
  unfolding carries_def by (intro allI impI holds_bind) blast+

lemma materialize_carries: "carries (ex_codec ex) [e] (materialize_call ex call tx raw e)"
proof -
  have failed: "carries (ex_codec ex) [e] (materialize_failed ex call tx code cause e)" for code cause
    unfolding materialize_failed_def seq_prog_def
    by (intro carries_bind carries_quiet carries_abort quiet) simp
  have "quiet (ex_codec ex) (catch_prog (seq_prog pause (ret None)) (\<lambda>x. ret (Some x)))" by (intro quiet)
  then show ?thesis
    unfolding materialize_call_def
    by (rule carries_bind [OF carries_quiet])
      (auto intro!: failed carries_throw carries_quiet [OF quiet_ret] split: material_answer.split)
qed

lemma reports_completed_leaf:
  assumes "plain_foreign (ex_foreign ex)" "tx_scope tx = Some sid"
  shows "reports (ex_codec ex) [] (completed_leaf ex tool call tx raw)"
  unfolding completed_leaf_def
  by (auto intro!: reports_throw reports_quiet_bind reports_stores [OF call_effects_stores [OF assms(2)]]
      reports_bind [OF materialize_carries] reports_report quiet assms(1))

lemma reports_run_started:
  assumes "plain_foreign (ex_foreign ex)" "tx_scope tx = Some sid"
  shows "reports (ex_codec ex) [] (run_started ex tool call tx)"
  unfolding run_started_def
  by (intro reports_quiet_seq quiet)
    (auto intro!: reports_throw reports_stopped [OF assms] reports_overran [OF assms] reports_completed_composite [OF assms]
        reports_completed_leaf [OF assms]
      split: wait_end.split task_end.split handler_return.split dest: plain_foreignD(5) [OF assms(1)])

lemma reports_failures:
  assumes "plain_foreign (ex_foreign ex)" "tx_scope tx = Some sid"
  shows "reports (ex_codec ex) [] (failed_unknown ex tool call tx why)"
    and "reports (ex_codec ex) [] (failed_composite ex call tx why es rs)"
    and "reports (ex_codec ex) [] (failed_known ex tool call tx why)"
    and "reports (ex_codec ex) [] (contract_broken ex tool call tx message)"
    and "reports (ex_codec ex) [] (settlement_failed ex call tx code)"
    and "reports (ex_codec ex) [] (failed_otherwise ex tool call tx)"
    and "reports (ex_codec ex) [] (composite_cancelled ex tool call tx es rs)"
proof -
  have own: "quiet (ex_codec ex) (own_effects tx call tool status error)" for status error
    unfolding own_effects_def by (auto intro!: quiet)
  note stores = reports_stores [OF call_effects_stores [OF assms(2)]]
    reports_stores [OF contribute_composite_stores [OF assms(2)]]
  show "reports (ex_codec ex) [] (failed_unknown ex tool call tx why)"
    unfolding failed_unknown_def by (intro reports_quiet_bind stores(1) reports_report quiet assms(1))
  show "reports (ex_codec ex) [] (failed_composite ex call tx why es rs)"
    unfolding failed_composite_def by (intro reports_quiet_bind stores(2) reports_report quiet assms(1))
  show "reports (ex_codec ex) [] (failed_known ex tool call tx why)"
    unfolding failed_known_def by (intro reports_quiet_bind stores(1) reports_report quiet own assms(1))
  show "reports (ex_codec ex) [] (contract_broken ex tool call tx message)"
    unfolding contract_broken_def Let_def
    by (intro reports_quiet_bind stores(1) reports_quiet_seq reports_abort quiet own assms(1)) simp_all
  show "reports (ex_codec ex) [] (settlement_failed ex call tx code)"
    unfolding settlement_failed_def by (intro reports_quiet_seq reports_abort quiet) simp
  show "reports (ex_codec ex) [] (failed_otherwise ex tool call tx)"
    unfolding failed_otherwise_def
    by (auto intro!: reports_quiet_bind stores(1) reports_report quiet assms(1))
  show "reports (ex_codec ex) [] (composite_cancelled ex tool call tx es rs)"
    unfolding composite_cancelled_def
    by (auto intro!: reports_throw reports_quiet_bind stores(2) reports_cancelled quiet)
qed

lemma reports_handle:
  assumes "plain_foreign (ex_foreign ex)" "tx_scope tx = Some sid"
  shows "reports (ex_codec ex) (exc_effects e) (handle_exception ex tool call tx e)"
  by (cases e) (auto simp: handle_exception_def intro: reports_throw reports_stopped reports_failures assms)

lemma reports_execute_prepared:
  assumes "plain_foreign (ex_foreign ex)" "tx_scope tx = Some sid"
  shows "reports (ex_codec ex) [] (execute_prepared ex call tool tx)"
proof -
  have "quiet (ex_codec ex) (run_before_hooks ex call tx)"
    unfolding run_before_hooks_def by (auto intro!: quiet assms(1) split: py_exc.split)
  with assms show ?thesis
    unfolding execute_prepared_def
    by (intro reports_quiet_seq reports_catch reports_run_started reports_handle quiet)
qed

lemma reports_batch_error: "reports (ex_codec ex) (exc_effects e) (record_batch_error ex tx call e)"
  unfolding record_batch_error_def
  by (intro reports_quiet_seq reports_throw) (auto intro!: quiet split: py_exc.split)

text \<open>The effects that one call reports are in the ledger.\<close>

lemma reports_one_call:
  assumes "plain_foreign (ex_foreign ex)" "tx_scope tx = Some sid"
  shows "reports (ex_codec ex) [] (one_call ex call tx)"
  unfolding one_call_def
  by (intro reports_finally reports_catch reports_batch_error reports_quiet_bind quiet assms(1))
    (auto intro!: reports_ret reports_execute_prepared [OF assms] split: prepared.split)

lemma reports_run_job:
  assumes "plain_foreign (ex_foreign ex)" "tx_scope tx = Some sid"
  shows "reports (ex_codec ex) [] (run_job ex (i, call, tool, tx))"
  unfolding run_job_def split_conv
  by (intro reports_finally reports_catch reports_batch_error reports_execute_prepared [OF assms] quiet)

end
