(* ===== verification/ExecutorSettled.thy ===== *)
theory ExecutorSettled
  imports ExecutorLaws
begin

text \<open>
  Every call that ends in a result, or in the report of a batch, has recorded its terminal and closed its
  scope. \<open>records\<close> says of a program that its normal end leaves the terminal recorded; exceptions get their
  record from the clauses around it.
\<close>

definition recorded :: "pystr \<Rightarrow> tree \<Rightarrow> bool" where
  "recorded sid t \<longleftrightarrow> (\<exists>q. dget (t_scopes t) sid = Some q \<and> sc_terminal q)"

definition frozen_at :: "pystr \<Rightarrow> tree \<Rightarrow> bool" where
  "frozen_at sid t \<longleftrightarrow> (\<exists>q. dget (t_scopes t) sid = Some q \<and> sc_state q = FROZEN)"

definition known_scope :: "pystr \<Rightarrow> tree \<Rightarrow> bool" where
  "known_scope sid t \<longleftrightarrow> (\<exists>q. dget (t_scopes t) sid = Some q \<and> ln_scope (sc_lineage q) = sid)"

lemma steady_recorded: "steady cx (recorded sid)"
  unfolding steady_def recorded_def by (metis grows_moves grows_scope)

lemma steady_frozen: "steady cx (frozen_at sid)"
  unfolding steady_def frozen_at_def by (metis grows_moves grows_scope)

lemma steady_known: "steady cx (known_scope sid)"
  unfolding steady_def known_scope_def by (metis grows_moves grows_scope)

section \<open>Programs that only move the tree\<close>

definition moving :: "codec \<Rightarrow> 'a xprog \<Rightarrow> bool" where
  "moving cx m \<longleftrightarrow> (\<forall>P. steady cx P \<longrightarrow> holds (under cx P) m (\<lambda>_. under cx P) (\<lambda>_. under cx P))"

definition records :: "codec \<Rightarrow> pystr \<Rightarrow> 'a xprog \<Rightarrow> bool" where
  "records cx sid m \<longleftrightarrow> (\<forall>P. steady cx P \<longrightarrow>
     holds (under cx P) m (\<lambda>_. under cx (\<lambda>t. P t \<and> recorded sid t)) (\<lambda>_. under cx P))"

lemma movingD: "moving cx m \<Longrightarrow> steady cx P \<Longrightarrow> holds (under cx P) m (\<lambda>_. under cx P) (\<lambda>_. under cx P)"
  by (simp add: moving_def)

lemma under_conj: "under cx (\<lambda>t. P t \<and> Q t) s \<longleftrightarrow> under cx P s \<and> under cx Q s"
  by (auto simp: under_def)

lemma moving_quiet: "quiet cx m \<Longrightarrow> moving cx m"
  unfolding moving_def by (auto intro: holds_post [OF quietD])

lemma moving_throw: "moving cx (throw e)"
  unfolding moving_def by (auto intro: holds_throw)

lemma moving_bind: "moving cx m \<Longrightarrow> (\<And>x. moving cx (f x)) \<Longrightarrow> moving cx (bind_prog m f)"
  unfolding moving_def by (intro allI impI holds_bind) blast+

lemma moving_catch: "moving cx m \<Longrightarrow> (\<And>e. moving cx (h e)) \<Longrightarrow> moving cx (catch_prog m h)"
  unfolding moving_def by (intro allI impI holds_catch) blast+

lemma records_bind: "moving cx m \<Longrightarrow> (\<And>x. records cx sid (f x)) \<Longrightarrow> records cx sid (bind_prog m f)"
  unfolding moving_def records_def by (intro allI impI holds_bind) blast+

lemma records_quiet_bind: "quiet cx m \<Longrightarrow> (\<And>x. records cx sid (f x)) \<Longrightarrow> records cx sid (bind_prog m f)"
  by (rule records_bind [OF moving_quiet])

lemma records_seq: "moving cx m \<Longrightarrow> records cx sid n \<Longrightarrow> records cx sid (seq_prog m n)"
  unfolding seq_prog_def by (rule records_bind)

lemma records_quiet_seq: "quiet cx m \<Longrightarrow> records cx sid n \<Longrightarrow> records cx sid (seq_prog m n)"
  by (rule records_seq [OF moving_quiet])

lemma records_throw: "records cx sid (throw e)"
  unfolding records_def by (auto intro: holds_throw)

lemma records_abort: "records cx sid (abort_with code message cause es)"
  unfolding abort_with_def by (simp add: records_throw)

lemma records_catch: "records cx sid m \<Longrightarrow> (\<And>e. records cx sid (h e)) \<Longrightarrow> records cx sid (catch_prog m h)"
  unfolding records_def by (intro allI impI holds_catch) blast+

lemma records_then:
  assumes "records cx sid m" "\<And>x. moving cx (f x)"
  shows "records cx sid (bind_prog m f)"
  unfolding records_def
proof (intro allI impI holds_bind)
  fix P and x assume P: "steady cx P"
  with assms(1) show "holds (under cx P) m (\<lambda>_. under cx (\<lambda>t. P t \<and> recorded sid t)) (\<lambda>_. under cx P)"
    by (simp add: records_def)
  show "holds (under cx (\<lambda>t. P t \<and> recorded sid t)) (f x) (\<lambda>_. under cx (\<lambda>t. P t \<and> recorded sid t)) (\<lambda>_. under cx P)"
    by (rule holds_post [OF movingD [OF assms(2) steady_conj [OF P steady_recorded]]]) (simp_all add: under_conj)
qed

lemma records_then_seq: "records cx sid m \<Longrightarrow> moving cx n \<Longrightarrow> records cx sid (seq_prog m n)"
  unfolding seq_prog_def by (rule records_then)

section \<open>Records\<close>

lemma records_record_call:
  assumes "tx_scope tx = Some sid"
  shows "records (ex_codec ex) sid (record_call ex tx call result status)"
  unfolding records_def
proof (intro allI impI holdsI)
  fix P and s :: xstate and u s1
  assume P: "steady (ex_codec ex) P" and s: "under (ex_codec ex) P s"
    and r: "record_call ex tx call result status s = Some (Inr u, s1)"
  from r assms obtain t where t: "record_tool_call (ex_codec ex) sid (tc_id call) (tc_name call) (tc_arguments call)
      (preview_for ex call) status (map_option te_code (tr_error result)) (evidence_of result) (xs_tree s) = Inr t"
    and s1: "s1 = s\<lparr>xs_tree := t\<rparr>"
    by (auto simp: record_call_def tree_update_def tree_call_def res_simps split: sum.splits)
  have "recorded sid t"
    using t by (auto simp: record_tool_call_def with_scope_def recorded_def add_tool_record_def append_record_frame split: option.splits)
  with under_moves [OF s P moves_record [OF t]] s1 show "under (ex_codec ex) (\<lambda>t. P t \<and> recorded sid t) s1"
    by (simp add: under_conj) (simp add: under_def)
next
  fix P and s :: xstate and e s1
  assume P: "steady (ex_codec ex) P" and s: "under (ex_codec ex) P s"
    and r: "record_call ex tx call result status s = Some (Inl e, s1)"
  then show "under (ex_codec ex) P s1"
    using holds_raises [OF movingD [OF moving_quiet [OF quiet_record_call] P] s] by blast
qed

lemma records_record_error:
  "tx_scope tx = Some sid \<Longrightarrow> records (ex_codec ex) sid (record_error ex tx call code status)"
  unfolding record_error_def by (intro records_quiet_bind records_record_call quiet)

lemma moving_after:
  assumes "plain_foreign (ex_foreign ex)"
  shows "moving cx (after_with_effect ex tx result es)"
  unfolding after_with_effect_def
  by (intro moving_catch moving_quiet [OF quiet_after_tool [OF assms]]) (auto intro: moving_throw split: py_exc.split)

lemma records_report:
  assumes "plain_foreign (ex_foreign ex)" "tx_scope tx = Some sid"
  shows "records (ex_codec ex) sid (report ex tx call code result es status)"
  unfolding report_def
  by (intro records_quiet_seq records_seq [OF moving_after] records_then_seq [OF records_record_call] moving_quiet quiet assms)

lemma records_stopped:
  assumes "plain_foreign (ex_foreign ex)" "tx_scope tx = Some sid"
  shows "records (ex_codec ex) sid (stopped ex tool call tx again)"
  unfolding stopped_def report_cancelled_def by (intro records_quiet_bind records_quiet_seq records_throw quiet assms(1))

lemma moving_materialize: "moving (ex_codec ex) (materialize_call ex call tx raw e)"
proof -
  have abort: "moving cx (abort_with code message cause es)" for cx code message cause es
    unfolding abort_with_def by (simp add: moving_throw)
  have failed: "moving (ex_codec ex) (materialize_failed ex call tx code cause e)" for code cause
    unfolding materialize_failed_def seq_prog_def by (intro moving_bind abort moving_quiet quiet)
  have "quiet (ex_codec ex) (catch_prog (seq_prog pause (ret None)) (\<lambda>x. ret (Some x)))" by (intro quiet)
  then show ?thesis
    unfolding materialize_call_def
    by (rule moving_bind [OF moving_quiet])
      (auto intro!: failed moving_throw moving_quiet [OF quiet_ret] split: material_answer.split)
qed

lemma records_run_started:
  assumes "plain_foreign (ex_foreign ex)" "tx_scope tx = Some sid"
  shows "records (ex_codec ex) sid (run_started ex tool call tx)"
proof -
  note r = records_report [OF assms]
  have v: "quiet (ex_codec ex) (validate_composite_content content)" for content
    unfolding validate_composite_content_def by (auto intro!: quiet)
  have 1: "records (ex_codec ex) sid (overran ex tool call tx)"
    unfolding overran_def by (intro records_quiet_bind records_quiet_seq r quiet assms(1))
  have 2: "records (ex_codec ex) sid (completed_composite ex tool call tx content es rs)" for content es rs
    unfolding completed_composite_def by (auto intro!: records_throw records_quiet_bind records_quiet_seq r quiet v)
  have 3: "records (ex_codec ex) sid (completed_leaf ex tool call tx raw)" for raw
    unfolding completed_leaf_def
    by (auto intro!: records_throw records_quiet_bind records_quiet_seq records_bind [OF moving_materialize] r quiet)
  show ?thesis
    unfolding run_started_def
    by (intro records_quiet_seq quiet)
      (auto intro!: records_throw records_stopped [OF assms] 1 2 3 split: wait_end.split task_end.split handler_return.split)
qed

lemma records_handle:
  assumes "plain_foreign (ex_foreign ex)" "tx_scope tx = Some sid"
  shows "records (ex_codec ex) sid (handle_exception ex tool call tx e)"
proof -
  note r = records_report [OF assms]
  have own: "quiet (ex_codec ex) (own_effects tx call tool status error)" for status error
    unfolding own_effects_def by (auto intro!: quiet)
  show ?thesis
    by (cases e)
      (auto simp: handle_exception_def failed_unknown_def failed_composite_def failed_known_def contract_broken_def
        settlement_failed_def failed_otherwise_def composite_cancelled_def report_cancelled_def Let_def
        intro!: records_throw records_stopped [OF assms] records_quiet_bind records_quiet_seq records_abort r quiet own)
qed

lemma records_execute_prepared:
  assumes "plain_foreign (ex_foreign ex)" "tx_scope tx = Some sid"
  shows "records (ex_codec ex) sid (execute_prepared ex call tool tx)"
proof -
  have "quiet (ex_codec ex) (run_before_hooks ex call tx)"
    unfolding run_before_hooks_def by (auto intro!: quiet assms(1) split: py_exc.split)
  then show ?thesis
    unfolding execute_prepared_def
    by (intro records_quiet_seq records_catch records_run_started [OF assms] records_handle [OF assms] quiet)
qed

section \<open>Prepared calls\<close>

definition ends_recorded :: "codec \<Rightarrow> pystr \<Rightarrow> prepared xprog \<Rightarrow> bool" where
  "ends_recorded cx sid m \<longleftrightarrow> (\<forall>P. steady cx P \<longrightarrow>
     holds (under cx P) m (\<lambda>p. under cx (\<lambda>t. P t \<and> ((\<exists>r. p = Finished r) \<longrightarrow> recorded sid t))) (\<lambda>_. under cx P))"

lemma ends_bind: "quiet cx m \<Longrightarrow> (\<And>x. ends_recorded cx sid (f x)) \<Longrightarrow> ends_recorded cx sid (bind_prog m f)"
  unfolding ends_recorded_def by (intro allI impI holds_bind [OF movingD [OF moving_quiet]]) blast+

lemma ends_seq: "quiet cx m \<Longrightarrow> ends_recorded cx sid n \<Longrightarrow> ends_recorded cx sid (seq_prog m n)"
  unfolding seq_prog_def by (rule ends_bind)

lemma ends_throw: "ends_recorded cx sid (throw e)"
  unfolding ends_recorded_def by (auto intro: holds_throw)

lemma ends_abort: "ends_recorded cx sid (abort_with code message cause es)"
  unfolding abort_with_def by (simp add: ends_throw)

lemma ends_ready: "ends_recorded cx sid (ret (Ready tool timeout))"
  unfolding ends_recorded_def by (auto intro: holds_ret)

lemma ends_records: "records cx sid m \<Longrightarrow> ends_recorded cx sid m"
  unfolding ends_recorded_def records_def
proof (intro allI impI)
  fix P assume r: "\<forall>P. steady cx P \<longrightarrow> holds (under cx P) m (\<lambda>_. under cx (\<lambda>t. P t \<and> recorded sid t)) (\<lambda>_. under cx P)"
    and P: "steady cx P"
  from r P have "holds (under cx P) m (\<lambda>_. under cx (\<lambda>t. P t \<and> recorded sid t)) (\<lambda>_. under cx P)" by simp
  then show "holds (under cx P) m (\<lambda>p. under cx (\<lambda>t. P t \<and> ((\<exists>r. p = Finished r) \<longrightarrow> recorded sid t))) (\<lambda>_. under cx P)"
    by (rule holds_post) (auto simp: under_def)
qed

lemma ends_prepare_call:
  assumes "plain_foreign (ex_foreign ex)" "tx_scope tx = Some sid"
  shows "ends_recorded (ex_codec ex) sid (prepare_call ex call tx)"
proof -
  have keep: "records (ex_codec ex) sid (seq_prog (record_call ex tx call result RS_FAILED) (ret (Finished result)))" for result
    by (intro records_then_seq [OF records_record_call [OF assms(2)]] moving_quiet quiet)
  have finish: "ends_recorded (ex_codec ex) sid (finish_prepared ex tx call code result)" for code result
    unfolding finish_prepared_def by (intro ends_seq ends_records [OF keep] quiet assms(1))
  have resolve: "ends_recorded (ex_codec ex) sid (resolve_timeout ex call tool tx)" for tool
    unfolding resolve_timeout_def Let_def
    by (auto intro!: ends_throw ends_abort ends_ready ends_seq quiet moves_cap split: timeout_answer.split option.split)
  have known: "ends_recorded (ex_codec ex) sid (prepare_known ex call t tx decision why)" for t decision why
    unfolding prepare_known_def
    by (intro ends_bind)
      (auto intro!: quiet_approval_for quiet_ret resolve ends_seq [OF quiet_after_tool [OF assms(1)] ends_records [OF keep]]
        split: option.split)
  have decided: "ends_recorded (ex_codec ex) sid (prepare_decided ex call tool tx d)" for tool d
    unfolding prepare_decided_def
    by (auto intro!: ends_seq ends_abort ends_bind finish known quiet split: option.split prod.split)
  show ?thesis
    unfolding prepare_call_def Let_def
    by (auto intro!: ends_seq ends_bind finish decided quiet assms(1) split: option.split)
qed

section \<open>Closing\<close>

lemma each_establishes:
  assumes "\<And>y. moving cx (f y)" "steady cx P" "steady cx Q" "x \<in> set xs"
    and "\<And>P. steady cx P \<Longrightarrow> holds (under cx P) (f x) (\<lambda>_. under cx (\<lambda>t. P t \<and> Q t)) (\<lambda>_. under cx P)"
  shows "holds (under cx P) (each_prog f xs) (\<lambda>_. under cx (\<lambda>t. P t \<and> Q t)) (\<lambda>_. under cx P)"
  using assms(4)
proof (induction xs)
  case (Cons y ys)
  show ?case
  proof (cases "y = x")
    case True
    have "moving cx (each_prog f ys)" for ys
      by (induction ys) (auto simp: seq_prog_def intro!: moving_bind assms(1) moving_quiet [OF quiet_ret])
    from movingD [OF this steady_conj [OF assms(2,3)]] have
      "holds (under cx (\<lambda>t. P t \<and> Q t)) (each_prog f ys) (\<lambda>_. under cx (\<lambda>t. P t \<and> Q t)) (\<lambda>_. under cx P)"
      by (rule holds_post) (simp_all add: under_conj)
    with assms(5) [OF assms(2)] True show ?thesis by (auto intro: holds_seq)
  next
    case False
    with Cons show ?thesis by (auto intro!: holds_seq [OF movingD [OF assms(1) assms(2)]])
  qed
qed simp

lemma finish_scope_freezes:
  assumes "steady cx P"
  shows "holds (under cx P) (finish_scope sid) (\<lambda>_. under cx (\<lambda>t. P t \<and> frozen_at sid t)) (\<lambda>_. under cx P)"
proof -
  have f: "frozen_at sid u" if "finish_one sid t = Inr u" for t u
    using that by (auto simp: finish_one_def freeze_def with_scope_def frozen_at_def res_simps split: option.splits if_splits)
  have "holds (under cx P) (tree_update (finish_one sid)) (\<lambda>_. under cx (\<lambda>t. P t \<and> frozen_at sid t)) (\<lambda>_. under cx P)"
    by (rule holdsI) (auto simp: tree_update_def tree_call_def under_conj res_simps split: sum.splits
        intro!: under_moves [OF _ assms] moves_finish, auto simp: under_def intro: f fresh_ids_moves moves_finish)
  moreover have "quiet cx (catch_prog pause (\<lambda>_. ret ()))" by (intro quiet)
  ultimately show ?thesis
    unfolding finish_scope_def by (intro holds_seq [OF movingD [OF moving_quiet assms]])
qed

lemma close_order_self: "known_scope sid t \<Longrightarrow> sid \<in> set (close_order t sid)"
proof -
  assume "known_scope sid t"
  then obtain q where q: "dget (t_scopes t) sid = Some q" "ln_scope (sc_lineage q) = sid" by (auto simp: known_scope_def)
  then have "is_descendant t sid sid" by (simp add: is_descendant_def chain_fuel_def)
  with q have "q \<in> set (descendants t sid)" by (force simp: descendants_def dest!: dget_Some_in)
  with q(2) show ?thesis by (force simp: close_order_def)
qed

lemma close_freezes:
  assumes "tx_scope tx = Some sid" "steady cx P" "\<And>t. P t \<Longrightarrow> known_scope sid t"
  shows "holds (under cx P) (close_call_scope tx) (\<lambda>_. under cx (\<lambda>t. P t \<and> frozen_at sid t)) (\<lambda>_. under cx P)"
proof -
  let ?Q = "\<lambda>_ :: unit. under cx (\<lambda>t. P t \<and> frozen_at sid t)"
  have finish: "holds (under cx P) (seq_prog (each_prog wait_settled ids) (each_prog finish_scope ids)) ?Q (\<lambda>_. under cx P)"
    if "sid \<in> set ids" for ids
  proof (rule holds_seq)
    show "holds (under cx P) (each_prog wait_settled ids) (\<lambda>_. under cx P) (\<lambda>_. under cx P)"
      by (intro movingD [OF moving_quiet assms(2)] quiet)
    show "holds (under cx P) (each_prog finish_scope ids) ?Q (\<lambda>_. under cx P)"
      by (rule each_establishes [OF moving_quiet [OF quiet_finish_scope] assms(2) steady_frozen that finish_scope_freezes])
  qed
  have "holds (\<lambda>s. under cx P s \<and> sid \<in> set ids) (seq_prog (each_prog wait_settled ids) (each_prog finish_scope ids))
      ?Q (\<lambda>_. under cx P)" for ids
    using finish [of ids] by (cases "sid \<in> set ids") (auto simp: holds_def)
  then have "holds (under cx P) (close_open_scope sid) ?Q (\<lambda>_. under cx P)"
    unfolding close_open_scope_def
    by (intro holds_seq [OF movingD [OF moving_quiet assms(2)]] holds_bind [where R = "\<lambda>ids s. under cx P s \<and> sid \<in> set ids"]
        holds_gets quiet moves_begin) (auto simp: under_def intro: close_order_self assms(3))
  moreover have "holds (under cx P) (tree_call (\<lambda>t. with_scope sid t (\<lambda>q. Inr (sc_state q, t))))
      (\<lambda>state s. under cx P s \<and> (state = FROZEN \<longrightarrow> frozen_at sid (xs_tree s))) (\<lambda>_. under cx P)"
    by (rule holdsI) (auto simp: tree_call_def with_scope_def frozen_at_def under_def split: option.splits)
  ultimately show ?thesis
    unfolding close_call_scope_def using assms(1)
    by (auto intro!: holds_bind [where R = "\<lambda>state s. under cx P s \<and> (state = FROZEN \<longrightarrow> frozen_at sid (xs_tree s))"] holds_ret
        elim: holds_weaken simp: under_conj) (auto simp: under_def)
qed

section \<open>A call is settled\<close>

text \<open>Recording and closing raise no report of a batch.\<close>

definition silent :: "codec \<Rightarrow> 'a xprog \<Rightarrow> bool" where
  "silent cx m \<longleftrightarrow> holds (\<lambda>s. list_all (tame cx) (xs_script s)) m (\<lambda>_ s. list_all (tame cx) (xs_script s))
     (\<lambda>e s. list_all (tame cx) (xs_script s) \<and> \<not> batch_report e)"

named_theorems silent_rules \<open>programs that raise no report of a batch\<close>

lemma silent_basic [silent_rules]: "silent cx (ret x)" "silent cx (gets f)" "silent cx (value_or_error r)"
  "silent cx (modify (\<lambda>s. s\<lparr>xs_tree := g (xs_tree s)\<rparr>))" "silent cx (tree_call h)" "silent cx (tree_update k)"
  by (auto simp: silent_def holds_def ret_def gets_def modify_def value_or_error_def of_sum_def tree_update_def tree_call_def
      exec_exception_def batch_report_def split: sum.split)

lemma silent_pause [silent_rules]: "silent cx pause"
  by (auto simp: silent_def holds_def pause_def pass_interlude_def tame_def Let_def split: list.splits option.splits sum.splits)

lemma silent_bind [silent_rules]: "silent cx m \<Longrightarrow> (\<And>x. silent cx (f x)) \<Longrightarrow> silent cx (bind_prog m f)"
  unfolding silent_def by (rule holds_bind)

lemma silent_seq [silent_rules]: "silent cx m \<Longrightarrow> silent cx n \<Longrightarrow> silent cx (seq_prog m n)"
  unfolding seq_prog_def by (rule silent_bind)

lemma silent_catch [silent_rules]: "silent cx m \<Longrightarrow> (\<And>e. silent cx (h e)) \<Longrightarrow> silent cx (catch_prog m h)"
  unfolding silent_def
  by (rule holds_catch [where R = "\<lambda>e s. list_all (tame cx) (xs_script s)"]) (erule holds_post, auto)

lemma silent_each [silent_rules]: "(\<And>x. silent cx (f x)) \<Longrightarrow> silent cx (each_prog f xs)"
  by (induction xs) (auto intro: silent_rules)

lemma silent_waits [silent_rules]: "silent cx (\<lambda>s. if f s then Some (Inr x, s) else None)"
  by (simp add: silent_def holds_def)

lemma silent_record_error: "silent cx (record_error ex tx call code status)"
  unfolding record_error_def record_call_def by (auto intro!: silent_rules split: option.split)

lemma silent_close: "silent cx (close_call_scope tx)"
  unfolding close_call_scope_def close_open_scope_def wait_settled_def finish_scope_def
  by (auto intro!: silent_rules split: option.split)

lemma silent_under:
  assumes "silent cx m" "holds (under cx P) m Q (\<lambda>_. R)"
  shows "holds (under cx P) m Q (\<lambda>e s. R s \<and> \<not> batch_report e)"
proof (rule holdsI)
  fix s e s1
  assume s: "under cx P s" "m s = Some (Inl e, s1)"
  from holds_raises [OF assms(1) [unfolded silent_def] _ s(2)] holds_raises [OF assms(2) s] s(1)
  show "R s1 \<and> \<not> batch_report e" by (simp add: under_def)
qed (use holds_returns [OF assms(2)] in blast)

section \<open>A call is settled\<close>

lemma one_call_records:
  assumes "plain_foreign (ex_foreign ex)" "tx_scope tx = Some sid"
    and P: "steady (ex_codec ex) P" "\<And>t. P t \<Longrightarrow> known_scope sid t"
  shows "holds (under (ex_codec ex) P) (one_call ex call tx)
    (\<lambda>_. under (ex_codec ex) (\<lambda>t. P t \<and> recorded sid t \<and> frozen_at sid t))
    (\<lambda>e s. batch_report e \<longrightarrow> under (ex_codec ex) (\<lambda>t. P t \<and> recorded sid t \<and> frozen_at sid t) s)"
proof -
  let ?cx = "ex_codec ex"
  let ?R = "\<lambda>t. P t \<and> recorded sid t"
  let ?body = "bind_prog (prepare_call ex call tx) (\<lambda>p. case p of
           Finished result \<Rightarrow> ret (result, []) | Ready tool timeout \<Rightarrow> execute_prepared ex call tool tx)"
  have body: "holds (under ?cx P) ?body (\<lambda>_. under ?cx ?R) (\<lambda>_. under ?cx P)"
  proof (rule holds_bind)
    show "holds (under ?cx P) (prepare_call ex call tx)
        (\<lambda>p. under ?cx (\<lambda>t. P t \<and> ((\<exists>r. p = Finished r) \<longrightarrow> recorded sid t))) (\<lambda>_. under ?cx P)"
      using ends_prepare_call [OF assms(1,2)] P(1) by (simp add: ends_recorded_def)
    show "holds (under ?cx (\<lambda>t. P t \<and> ((\<exists>r. p = Finished r) \<longrightarrow> recorded sid t)))
        (case p of Finished result \<Rightarrow> ret (result, []) | Ready tool timeout \<Rightarrow> execute_prepared ex call tool tx)
        (\<lambda>_. under ?cx ?R) (\<lambda>_. under ?cx P)" for p
      using records_execute_prepared [OF assms(1,2)] P(1) by (cases p) (auto intro: holds_ret simp: records_def)
  qed
  have handler: "holds (under ?cx P) (record_batch_error ex tx call e :: outcome_of_call xprog) (\<lambda>_. under ?cx ?R)
      (\<lambda>x s. if batch_report x then under ?cx ?R s else under ?cx P s)" for e
  proof -
    have r: "holds (under ?cx P) (record_error ex tx call code status) (\<lambda>_. under ?cx ?R) (\<lambda>x s. under ?cx P s \<and> \<not> batch_report x)"
      for code status
      using records_record_error [OF assms(2)] P(1) by (intro silent_under silent_record_error) (simp add: records_def)
    have t: "holds (under ?cx (if batch_report x then ?R else P)) (throw x :: outcome_of_call xprog) (\<lambda>_. under ?cx ?R)
        (\<lambda>x s. if batch_report x then under ?cx ?R s else under ?cx P s)" for x :: py_exc
      by (rule holds_throw) auto
    have e: "under ?cx P s \<and> \<not> batch_report x \<Longrightarrow> if batch_report x then under ?cx ?R s else under ?cx P s" for x s
      by simp
    show ?thesis
    proof (cases "batch_report e")
      case True
      with t [of e] have thrown: "holds (under ?cx ?R) (throw e :: outcome_of_call xprog) (\<lambda>_. under ?cx ?R)
          (\<lambda>x s. if batch_report x then under ?cx ?R s else under ?cx P s)" by simp
      obtain code status where c: "(record_batch_error ex tx call e :: outcome_of_call xprog) = seq_prog (record_error ex tx call code status) (throw e)"
        using True by (cases e) (auto simp: batch_report_def record_batch_error_def)
      have "holds (under ?cx P) (record_error ex tx call code status) (\<lambda>_. under ?cx ?R)
          (\<lambda>x s. if batch_report x then under ?cx ?R s else under ?cx P s)"
        by (rule holds_post [OF r]) simp_all
      with thrown show ?thesis unfolding c by (rule holds_seq [rotated])
    next
      case False
      then have "(record_batch_error ex tx call e :: outcome_of_call xprog) = throw e"
        by (cases e) (simp_all add: batch_report_def record_batch_error_def bind_prog_Some)
      with t [of e] False show ?thesis by simp
    qed
  qed
  have caught: "holds (under ?cx P) (catch_prog ?body (record_batch_error ex tx call)) (\<lambda>_. under ?cx ?R)
      (\<lambda>x s. if batch_report x then under ?cx ?R s else under ?cx P s)"
    by (rule holds_catch [OF body handler])
  have close: "holds (under ?cx Q) (close_call_scope tx) (\<lambda>_. under ?cx (\<lambda>t. Q t \<and> frozen_at sid t))
      (\<lambda>e s. under ?cx Q s \<and> \<not> batch_report e)" if "steady ?cx Q" "\<And>t. Q t \<Longrightarrow> P t" for Q
    by (intro silent_under silent_close close_freezes [OF assms(2)]) (use that P(2) in auto)
  note R = close [OF steady_conj [OF P(1) steady_recorded]]
  show ?thesis
    unfolding one_call_def
  proof (rule holds_finally [OF caught])
    show "holds (under ?cx ?R) (close_call_scope tx) (\<lambda>_. under ?cx (\<lambda>t. P t \<and> recorded sid t \<and> frozen_at sid t))
        (\<lambda>e s. batch_report e \<longrightarrow> under ?cx (\<lambda>t. P t \<and> recorded sid t \<and> frozen_at sid t) s)"
      by (rule holds_post [OF R]) (auto simp: conj_assoc)
    show "holds (\<lambda>s. if batch_report e then under ?cx ?R s else under ?cx P s) (close_call_scope tx)
        (\<lambda>_ s. batch_report e \<longrightarrow> under ?cx (\<lambda>t. P t \<and> recorded sid t \<and> frozen_at sid t) s)
        (\<lambda>e s. batch_report e \<longrightarrow> under ?cx (\<lambda>t. P t \<and> recorded sid t \<and> frozen_at sid t) s)" for e
    proof (cases "batch_report e")
      case True
      then show ?thesis by (auto intro!: holds_post [OF R] simp: conj_assoc)
    next
      case False
      then show ?thesis by (auto intro!: holds_post [OF close [OF P(1)]])
    qed
  qed
qed

end
