(* ===== verification/BatchLaws.thy ===== *)
theory BatchLaws
  imports ExecutorSettled
begin

text \<open>
  Batches: the effects a batch answers or raises are in the ledger, whether its calls ran one after the other
  or at the same time, under every schedule.
\<close>

lemma keeps_keeps: "keeps (keeps P es) fs = keeps P (es @ fs)"
  by (auto simp: keeps_def fun_eq_iff)

lemma reports_frame:
  assumes "reports cx [] m" "steady cx P"
  shows "holds (under cx (keeps P es)) m (\<lambda>r. under cx (keeps P (es @ snd r))) (\<lambda>e. under cx (keeps P (es @ exc_effects e)))"
  using reportsD [OF assms(1) steady_keeps [OF assms(2), of es]] by (simp add: keeps_keeps)

lemma quiet_frame:
  assumes "quiet cx m" "steady cx P"
  shows "holds (under cx (keeps P es)) m (\<lambda>_. under cx (keeps P es)) (\<lambda>e s. under cx (keeps P es) s \<and> exc_effects e = [])"
  by (rule quietD [OF assms(1) steady_keeps [OF assms(2)]])

lemma holds_throw_effects:
  "set (exc_effects e) \<subseteq> set es \<Longrightarrow> holds (under cx (keeps P es)) (throw e) Q (\<lambda>x. under cx (keeps P (exc_effects x)))"
  by (intro holds_throw) (rule under_keeps_subset)

text \<open>A clause that works quietly and raises again.\<close>

lemma quiet_then_throw:
  assumes "quiet cx m" "steady cx P" "set (exc_effects e) \<subseteq> set es"
  shows "holds (under cx (keeps P es)) (seq_prog m (throw e)) Q (\<lambda>x. under cx (keeps P (exc_effects x)))"
proof (rule holds_seq)
  show "holds (under cx (keeps P es)) m (\<lambda>_. under cx (keeps P es)) (\<lambda>x. under cx (keeps P (exc_effects x)))"
    by (rule holds_post [OF quiet_frame [OF assms(1,2)]]) auto
qed (rule holds_throw_effects [OF assms(3)])

section \<open>One after the other\<close>

definition scoped :: "(tool_call \<times> tool_context) list \<Rightarrow> bool" where
  "scoped pairs \<longleftrightarrow> (\<forall>p \<in> set pairs. tx_scope (snd p) \<noteq> None)"

lemma serial_raise_reports:
  assumes "steady (ex_codec ex) P"
  shows "holds (under (ex_codec ex) (keeps P (es @ exc_effects e))) (serial_raise ex rest es e) Q
    (\<lambda>x. under (ex_codec ex) (keeps P (exc_effects x)))"
  using assms by (cases e)
    (auto simp: serial_raise_def intro!: quiet_then_throw quiet holds_throw_effects)

lemma reports_serial_loop:
  assumes "plain_foreign (ex_foreign ex)" "scoped pairs"
  shows "reports (ex_codec ex) es (serial_loop ex pairs es)"
  using assms(2)
proof (induction pairs arbitrary: es)
  case Nil
  show ?case by (auto intro: reports_ret)
next
  case (Cons p rest)
  obtain call tx where p: "p = (call, tx)" by (cases p)
  with Cons.prems obtain sid where sid: "tx_scope tx = Some sid" by (auto simp: scoped_def)
  show ?case
    unfolding reports_def
  proof (intro allI impI)
    fix P assume P: "steady (ex_codec ex) P"
    let ?E = "\<lambda>x. under (ex_codec ex) (keeps P (exc_effects x))"
    let ?R = "\<lambda>r. under (ex_codec ex) (keeps P (es @ snd r))"
    have 1: "holds (under (ex_codec ex) (keeps P es)) (catch_prog (one_call ex call tx) (serial_raise ex rest es)) ?R ?E"
      by (rule holds_catch [OF reports_frame [OF reports_one_call [OF assms(1) sid] P] serial_raise_reports [OF P]])
    have "reports (ex_codec ex) (es @ fs) (serial_loop ex rest (es @ fs))" for fs
      using Cons by (auto simp: scoped_def)
    note 2 = reportsD [OF this P]
    have 3: "holds (?R r) (case r of (result, call_effects) \<Rightarrow> bind_prog (serial_loop ex rest (es @ call_effects))
        (\<lambda>(results, all_effects). ret (result # results, all_effects))) (\<lambda>r. under (ex_codec ex) (keeps P (snd r))) ?E" for r
      using 2 [of "snd r"] by (cases r) (auto intro!: holds_bind holds_ret)
    show "holds (under (ex_codec ex) (keeps P es)) (serial_loop ex (p # rest) es)
        (\<lambda>r. under (ex_codec ex) (keeps P (snd r))) ?E"
      unfolding p serial_loop.simps by (rule holds_bind [OF 1 3])
  qed
qed

section \<open>At the same time\<close>

definition slot_effects :: "slots \<Rightarrow> effect list" where
  "slot_effects sl = flatten_effects (sl_effects sl)"

definition jobs_scoped :: "job list \<Rightarrow> bool" where
  "jobs_scoped jobs \<longleftrightarrow> (\<forall>j \<in> set jobs. tx_scope (snd (snd (snd j))) \<noteq> None)"

definition running_ok :: "nat \<Rightarrow> slots \<Rightarrow> bool" where
  "running_ok n sl \<longleftrightarrow> (\<forall>k \<in> set (sl_running sl). k < n)"

lemma flatten_update: "set (flatten_effects (gs[i := Some es])) \<subseteq> set (flatten_effects gs) \<union> set es"
proof (induction gs arbitrary: i)
  case (Cons g gs)
  then show ?case by (cases i; cases g) (auto simp: flatten_effects_def List.map_filter_simps)
qed (simp add: flatten_effects_def List.map_filter_simps)

lemma slot_effects_set: "set (slot_effects (set_slot i r sl)) \<subseteq> set (slot_effects sl @ snd r)"
  using flatten_update [of "sl_effects sl" i "snd r"] by (simp add: slot_effects_def set_slot_def)

lemma slot_effects_drop [simp]: "slot_effects (drop_running k sl) = slot_effects sl"
  by (simp add: slot_effects_def drop_running_def)

lemma running_ok_steps:
  "running_ok n sl \<Longrightarrow> running_ok n (drop_running k sl)" "running_ok n sl \<Longrightarrow> running_ok n (set_slot i r sl)"
  by (auto simp: running_ok_def drop_running_def set_slot_def)

lemma fill_keeps: "running_ok n sl \<Longrightarrow> running_ok n (fill limit n sl) \<and> slot_effects (fill limit n sl) = slot_effects sl"
proof (induction limit n sl rule: fill.induct)
  case (1 limit n sl)
  show ?case
  proof (cases "sl_next sl < n \<and> length (sl_running sl) < limit")
    case True
    with "1.prems" have "running_ok n (sl\<lparr>sl_running := sl_running sl @ [sl_next sl], sl_next := sl_next sl + 1\<rparr>)"
      by (auto simp: running_ok_def)
    with "1.IH" True show ?thesis by (subst (1 2) fill.simps) (simp add: slot_effects_def)
  next
    case False
    with "1.prems" show ?thesis by (subst (1 2) fill.simps) auto
  qed
qed

lemma reports_job:
  assumes "plain_foreign (ex_foreign ex)" "jobs_scoped jobs" "k < length jobs"
  shows "reports (ex_codec ex) [] (run_job ex (jobs ! k))"
proof -
  obtain i call tool tx where j: "jobs ! k = (i, call, tool, tx)" by (metis prod_cases4)
  with assms(2,3) obtain sid where "tx_scope tx = Some sid"
    unfolding jobs_scoped_def by (metis nth_mem option.exhaust snd_conv)
  then show ?thesis unfolding j by (rule reports_run_job [OF assms(1)])
qed

lemma cancel_tasks_reports:
  assumes "plain_foreign (ex_foreign ex)" "jobs_scoped jobs" "\<forall>k \<in> set ks. k < length jobs" "steady (ex_codec ex) P"
  shows "holds (under (ex_codec ex) (keeps P es)) (cancel_tasks ex jobs ks)
    (\<lambda>fs. under (ex_codec ex) (keeps P (es @ fs))) (\<lambda>_ _. False)"
  using assms(3)
proof (induction ks arbitrary: es)
  case Nil
  show ?case by (auto intro: holds_ret)
next
  case (Cons k ks)
  let ?cx = "ex_codec ex"
  from Cons.prems have k: "k < length jobs" by simp
  note job = reports_frame [OF reports_job [OF assms(1,2) k] assms(4), of es]
  have caught: "holds (under ?cx (keeps P es)) (catch_prog (bind_prog (run_job ex (jobs ! k)) (\<lambda>(r, fs). ret fs))
      (\<lambda>e. ret (case e of BatchCancelled fs \<Rightarrow> fs | BatchAborted _ fs \<Rightarrow> fs | _ \<Rightarrow> [])))
      (\<lambda>fs. under ?cx (keeps P (es @ fs))) (\<lambda>_ _. False)"
  proof (rule holds_catch)
    show "holds (under ?cx (keeps P es)) (bind_prog (run_job ex (jobs ! k)) (\<lambda>(r, fs). ret fs))
        (\<lambda>fs. under ?cx (keeps P (es @ fs))) (\<lambda>e. under ?cx (keeps P (es @ exc_effects e)))"
      by (rule holds_bind [OF job]) (auto intro: holds_ret split: prod.split)
  qed (auto intro!: holds_ret split: py_exc.split)
  have "holds (under ?cx (keeps P (es @ fs))) (bind_prog (cancel_tasks ex jobs ks) (\<lambda>rest. ret (fs @ rest)))
      (\<lambda>gs. under ?cx (keeps P (es @ gs))) (\<lambda>_ _. False)" for fs
    using Cons.IH [of "es @ fs"] Cons.prems by (auto intro!: holds_bind holds_ret)
  with caught show ?case by (auto intro: holds_bind)
qed

lemma holds_never: "holds P (\<lambda>s. None) Q E"
  by (simp add: holds_def)

lemma task_raised_reports:
  assumes "plain_foreign (ex_foreign ex)" "jobs_scoped jobs" "running_ok (length jobs) sl" "steady (ex_codec ex) P"
  shows "holds (under (ex_codec ex) (keeps P (slot_effects sl @ exc_effects e))) (task_raised ex pairs jobs sl e) Q
    (\<lambda>x. under (ex_codec ex) (keeps P (slot_effects sl @ exc_effects x)))"
proof -
  let ?cx = "ex_codec ex"
  have c: "holds (under ?cx (keeps P es)) (cancel_tasks ex jobs (sl_running sl)) (\<lambda>fs. under ?cx (keeps P (es @ fs)))
      (\<lambda>x. under ?cx (keeps P (slot_effects sl @ exc_effects x)))" for es
    by (rule holds_post [OF cancel_tasks_reports [OF assms(1,2) _ assms(4)]]) (use assms(3) in \<open>auto simp: running_ok_def\<close>)
  have t: "holds (under ?cx (keeps P es)) (seq_prog (abort_unprocessed ex pairs code) (throw x)) Q
      (\<lambda>x. under ?cx (keeps P (slot_effects sl @ exc_effects x)))"
    if "set (slot_effects sl) \<subseteq> set es" "set (exc_effects x) \<subseteq> set es" for es code x
  proof (rule holds_seq)
    show "holds (under ?cx (keeps P es)) (abort_unprocessed ex pairs code) (\<lambda>_. under ?cx (keeps P es))
        (\<lambda>x. under ?cx (keeps P (slot_effects sl @ exc_effects x)))"
      by (rule holds_post [OF quiet_frame [OF quiet_abort_unprocessed assms(4)]])
        (use that(1) in \<open>auto intro: under_keeps_subset\<close>)
    show "holds (under ?cx (keeps P es)) (throw x) Q (\<lambda>x. under ?cx (keeps P (slot_effects sl @ exc_effects x)))"
      using that by (intro holds_throw) (erule under_keeps_subset, simp)
  qed
  show ?thesis
    by (cases e) (auto simp: task_raised_def slot_effects_def [symmetric] intro!: holds_bind [OF c] t holds_throw)
qed

lemma loop_raised_reports:
  assumes "plain_foreign (ex_foreign ex)" "jobs_scoped jobs" "\<forall>k \<in> set running. k < length jobs" "steady (ex_codec ex) P"
  shows "holds (under (ex_codec ex) (keeps P (slot_effects sl @ exc_effects e))) (loop_raised ex pairs jobs sl running e) Q
    (\<lambda>x. under (ex_codec ex) (keeps P (exc_effects x)))"
proof (cases "is_cancelled_error e")
  case True
  let ?cx = "ex_codec ex" and ?es = "slot_effects sl @ exc_effects e"
  have "holds (under ?cx (keeps P ?es)) (cancel_tasks ex jobs running) (\<lambda>fs. under ?cx (keeps P (?es @ fs)))
      (\<lambda>x. under ?cx (keeps P (exc_effects x)))"
    by (rule holds_post [OF cancel_tasks_reports [OF assms]]) simp_all
  moreover have "holds (under ?cx (keeps P (?es @ fs))) (seq_prog (abort_unprocessed ex pairs ''cancelled'')
      (throw (BatchCancelled (flatten_effects (sl_effects sl) @ fs)))) Q (\<lambda>x. under ?cx (keeps P (exc_effects x)))" for fs
    by (intro quiet_then_throw quiet_abort_unprocessed assms(4)) (auto simp: slot_effects_def)
  ultimately show ?thesis using True by (auto simp: loop_raised_def intro: holds_bind)
next
  case False
  then show ?thesis by (auto simp: loop_raised_def intro: holds_throw_effects)
qed

lemma concurrent_raise_reports:
  assumes "plain_foreign (ex_foreign ex)" "jobs_scoped jobs" "running_ok (length jobs) sl" "steady (ex_codec ex) P"
  shows "holds (under (ex_codec ex) (keeps P (slot_effects sl @ exc_effects e))) (concurrent_raise ex pairs jobs sl e) Q
    (\<lambda>x. under (ex_codec ex) (keeps P (exc_effects x)))"
  unfolding concurrent_raise_def
proof (rule holds_catch [OF task_raised_reports [OF assms]])
  fix x
  show "holds (under (ex_codec ex) (keeps P (slot_effects sl @ exc_effects x)))
      (loop_raised ex pairs jobs sl (case e of BatchAborted _ _ \<Rightarrow> [] | BatchCancelled _ \<Rightarrow> [] | _ \<Rightarrow> sl_running sl) x) Q
      (\<lambda>x. under (ex_codec ex) (keeps P (exc_effects x)))"
    by (rule loop_raised_reports [OF assms(1,2) _ assms(4)])
      (use assms(3) in \<open>auto simp: running_ok_def split: py_exc.split\<close>)
qed

lemma round_loop_reports:
  assumes "plain_foreign (ex_foreign ex)" "jobs_scoped jobs" "steady (ex_codec ex) P"
    and "running_ok (length jobs) sl" "\<forall>k \<in> set ks. k < length jobs"
  shows "holds (under (ex_codec ex) (keeps P (slot_effects sl))) (round_loop ex pairs jobs ks sl)
    (\<lambda>sl' s. under (ex_codec ex) (keeps P (slot_effects sl')) s \<and> running_ok (length jobs) sl')
    (\<lambda>x. under (ex_codec ex) (keeps P (exc_effects x)))"
  using assms(4,5)
proof (induction ks arbitrary: sl)
  case Nil
  then show ?case by (auto intro: holds_ret)
next
  case (Cons k ks)
  let ?cx = "ex_codec ex" and ?sl = "drop_running k sl"
  let ?E = "\<lambda>x. under ?cx (keeps P (exc_effects x))"
  from Cons.prems have k: "k < length jobs" by simp
  have ok: "running_ok (length jobs) ?sl" using Cons.prems(1) by (rule running_ok_steps)
  have 1: "holds (under ?cx (keeps P (slot_effects ?sl))) (catch_prog (run_job ex (jobs ! k)) (concurrent_raise ex pairs jobs ?sl))
      (\<lambda>r. under ?cx (keeps P (slot_effects ?sl @ snd r))) ?E"
    by (rule holds_catch [OF reports_frame [OF reports_job [OF assms(1,2) k] assms(3)]
          concurrent_raise_reports [OF assms(1,2) ok assms(3)]])
  have 2: "holds (under ?cx (keeps P (slot_effects ?sl @ snd r))) (round_loop ex pairs jobs ks (set_slot (fst (jobs ! k)) r ?sl))
      (\<lambda>sl' s. under ?cx (keeps P (slot_effects sl')) s \<and> running_ok (length jobs) sl') ?E" for r
  proof (rule holds_weaken [OF Cons.IH])
    fix s assume "under ?cx (keeps P (slot_effects ?sl @ snd r)) s"
    then show "under ?cx (keeps P (slot_effects (set_slot (fst (jobs ! k)) r ?sl))) s"
      by (rule under_keeps_subset [OF _ slot_effects_set])
  qed (use Cons.prems ok running_ok_steps in auto)
  show ?case using holds_bind [OF 1 2] by (simp add: Let_def)
qed

lemma rounds_reports:
  assumes "plain_foreign (ex_foreign ex)" "jobs_scoped jobs" "steady (ex_codec ex) P" "running_ok (length jobs) sl"
  shows "holds (under (ex_codec ex) (keeps P (slot_effects sl))) (rounds ex pairs jobs schedule sl)
    (\<lambda>sl'. under (ex_codec ex) (keeps P (slot_effects sl'))) (\<lambda>x. under (ex_codec ex) (keeps P (exc_effects x)))"
  using assms(4)
proof (induction schedule arbitrary: sl)
  case Nil
  then show ?case by (auto intro: holds_ret holds_never simp: rounds.simps)
next
  case (Cons ended later)
  let ?cx = "ex_codec ex"
  let ?E = "\<lambda>x. under ?cx (keeps P (exc_effects x))"
  show ?case
  proof (cases "sl_running sl = [] \<or> ended = [] \<or> \<not> distinct ended \<or> \<not> set ended \<subseteq> set (sl_running sl)")
    case True
    then show ?thesis by (auto intro: holds_ret holds_never simp: rounds.simps)
  next
    case False
    with Cons.prems have ended: "\<forall>k \<in> set ended. k < length jobs" by (auto simp: running_ok_def)
    have 1: "holds (under ?cx (keeps P (slot_effects sl))) (catch_prog pause (loop_raised ex pairs jobs sl (sl_running sl)))
        (\<lambda>_. under ?cx (keeps P (slot_effects sl))) ?E"
    proof (rule holds_catch)
      show "holds (under ?cx (keeps P (slot_effects sl))) pause (\<lambda>_. under ?cx (keeps P (slot_effects sl)))
          (\<lambda>e. under ?cx (keeps P (slot_effects sl @ exc_effects e)))"
        by (rule holds_post [OF quiet_frame [OF quiet_pause assms(3)]]) auto
    qed (use Cons.prems in \<open>auto simp: running_ok_def intro: loop_raised_reports [OF assms(1,2) _ assms(3)]\<close>)
    have 2: "holds (under ?cx (keeps P (slot_effects sl))) (bind_prog (round_loop ex pairs jobs ended sl) (\<lambda>sl1.
        rounds ex pairs jobs later (fill limit (length jobs) sl1))) (\<lambda>sl'. under ?cx (keeps P (slot_effects sl'))) ?E" for limit
    proof (rule holds_bind [OF round_loop_reports [OF assms(1,2,3) Cons.prems ended]])
      fix sl1
      show "holds (\<lambda>s. under ?cx (keeps P (slot_effects sl1)) s \<and> running_ok (length jobs) sl1)
          (rounds ex pairs jobs later (fill limit (length jobs) sl1)) (\<lambda>sl'. under ?cx (keeps P (slot_effects sl'))) ?E"
        using Cons.IH [of "fill limit (length jobs) sl1"] fill_keeps [of "length jobs" sl1 limit]
        by (cases "running_ok (length jobs) sl1") (auto elim!: holds_weaken simp: holds_def)
    qed
    from False show ?thesis using holds_bind [OF 1 2] by (simp add: rounds.simps)
  qed
qed

section \<open>Preparing a batch\<close>

lemma prepare_all_reports:
  assumes "plain_foreign (ex_foreign ex)" "steady (ex_codec ex) P" "scoped todo"
  shows "holds (under (ex_codec ex) (keeps P (slot_effects sl))) (prepare_all ex pairs i todo sl)
    (\<lambda>r s. under (ex_codec ex) (keeps P (slot_effects (fst r))) s \<and> jobs_scoped (snd r) \<and> sl_running (fst r) = sl_running sl)
    (\<lambda>x. under (ex_codec ex) (keeps P (exc_effects x)))"
  using assms(3)
proof (induction todo arbitrary: i sl)
  case Nil
  show ?case by (auto intro: holds_ret simp: jobs_scoped_def)
next
  case (Cons p rest)
  obtain call tx where p: "p = (call, tx)" by (cases p)
  let ?cx = "ex_codec ex"
  let ?E = "\<lambda>x. under ?cx (keeps P (exc_effects x))"
  from Cons.prems p have tx: "tx_scope tx \<noteq> None" and rest: "scoped rest" by (auto simp: scoped_def)
  have q: "quiet ?cx (bind_prog (prepare_call ex call tx) (\<lambda>p. case p of
      Finished result \<Rightarrow> seq_prog (close_call_scope tx) (ret p) | Ready a b \<Rightarrow> ret p))"
    by (intro quiet assms(1)) (auto intro!: quiet split: prepared.split)
  have raised: "holds (\<lambda>s. under ?cx (keeps P (slot_effects sl)) s \<and> exc_effects e = []) (prepare_raise ex pairs call tx e)
      (\<lambda>_. under ?cx (keeps P (slot_effects sl))) ?E" for e
  proof (cases "exc_effects e = []")
    case True
    then have "quiet ?cx (prepare_raise ex pairs call tx e)"
      by (auto simp: prepare_raise_def intro!: quiet split: py_exc.split)
    from quiet_frame [OF this assms(2)] show ?thesis
      by (rule holds_weaken) (auto intro: under_keeps_subset)
  qed (simp add: holds_def)
  have 1: "holds (under ?cx (keeps P (slot_effects sl))) (catch_prog (bind_prog (prepare_call ex call tx) (\<lambda>p. case p of
      Finished result \<Rightarrow> seq_prog (close_call_scope tx) (ret p) | Ready a b \<Rightarrow> ret p)) (prepare_raise ex pairs call tx))
      (\<lambda>_. under ?cx (keeps P (slot_effects sl))) ?E"
    by (rule holds_catch [OF quiet_frame [OF q assms(2)] raised])
  note IH = Cons.IH [OF rest]
  have "holds (under ?cx (keeps P (slot_effects sl))) (case r of
      Finished result \<Rightarrow> prepare_all ex pairs (i + 1) rest (set_slot i (result, []) sl)
    | Ready tool timeout \<Rightarrow> bind_prog (prepare_all ex pairs (i + 1) rest sl) (\<lambda>(sl1, jobs). ret (sl1, (i, call, tool, tx) # jobs)))
    (\<lambda>r s. under ?cx (keeps P (slot_effects (fst r))) s \<and> jobs_scoped (snd r) \<and> sl_running (fst r) = sl_running sl) ?E" for r
  proof (cases r)
    case (Finished result)
    have "set (slot_effects (set_slot i (result, []) sl)) \<subseteq> set (slot_effects sl)"
      using slot_effects_set [of i "(result, [])" sl] by simp
    with Finished show ?thesis
      by (auto intro!: holds_weaken [OF IH] intro: under_keeps_subset simp: set_slot_def)
  next
    case (Ready tool timeout)
    with tx show ?thesis by (auto intro!: holds_bind [OF IH] holds_ret simp: jobs_scoped_def Ball_def split: prod.split)
  qed
  with 1 show ?case unfolding p prepare_all.simps by (rule holds_bind)
qed

lemma run_concurrent_reports:
  assumes "plain_foreign (ex_foreign ex)" "steady (ex_codec ex) P" "\<forall>c \<in> set contexts. tx_scope c \<noteq> None"
  shows "holds (under (ex_codec ex) P) (run_concurrent ex schedule calls contexts)
    (\<lambda>b. under (ex_codec ex) (keeps P (snd (snd b)))) (\<lambda>x. under (ex_codec ex) (keeps P (exc_effects x)))"
proof -
  let ?cx = "ex_codec ex" and ?pairs = "zip calls contexts"
  let ?E = "\<lambda>x. under ?cx (keeps P (exc_effects x))" and ?m = "ec_max_concurrency (ex_config ex)"
  define sl :: slots where "sl = \<lparr>sl_results = map (\<lambda>_. None) calls, sl_effects = map (\<lambda>_. None) calls, sl_running = [], sl_next = 0\<rparr>"
  have pairs: "scoped ?pairs" using assms(3) by (auto simp: scoped_def dest: set_zip_rightD)
  have empty: "slot_effects sl = []"
    by (simp add: slot_effects_def flatten_effects_def sl_def List.map_filter_def)
  have 1: "holds (under ?cx P) (prepare_all ex ?pairs 0 ?pairs sl)
      (\<lambda>r s. under ?cx (keeps P (slot_effects (fst r))) s \<and> jobs_scoped (snd r) \<and> sl_running (fst r) = []) ?E"
    using prepare_all_reports [OF assms(1,2) pairs, of sl ?pairs 0] by (simp add: empty) (simp add: sl_def)
  have result: "holds (under ?cx (keeps P es)) (batch_result calls results es) (\<lambda>b. under ?cx (keeps P (snd (snd b)))) ?E" for results es
    unfolding batch_result_def value_or_error_def
    by (rule holds_of_sum) (auto simp: make_batch_result_def split: if_splits sum.splits)
  have 2: "holds (\<lambda>s. under ?cx (keeps P (slot_effects sl1)) s \<and> jobs_scoped jobs \<and> sl_running sl1 = [])
      (bind_prog (rounds ex ?pairs jobs schedule (fill ?m (length jobs) sl1)) (\<lambda>done_slots.
         batch_result calls (List.map_filter id (sl_results done_slots)) (flatten_effects (sl_effects done_slots))))
      (\<lambda>b. under ?cx (keeps P (snd (snd b)))) ?E" for sl1 jobs
  proof (cases "jobs_scoped jobs \<and> sl_running sl1 = []")
    case True
    then have "running_ok (length jobs) sl1" by (simp add: running_ok_def)
    note f = fill_keeps [OF this, of ?m]
    have "holds (under ?cx (keeps P (slot_effects sl1))) (rounds ex ?pairs jobs schedule (fill ?m (length jobs) sl1))
        (\<lambda>sl'. under ?cx (keeps P (slot_effects sl'))) ?E"
      using rounds_reports [OF assms(1) _ assms(2), of jobs "fill ?m (length jobs) sl1" ?pairs schedule] True f by simp
    then have "holds (under ?cx (keeps P (slot_effects sl1))) (bind_prog (rounds ex ?pairs jobs schedule (fill ?m (length jobs) sl1))
        (\<lambda>done_slots. batch_result calls (List.map_filter id (sl_results done_slots)) (flatten_effects (sl_effects done_slots))))
        (\<lambda>b. under ?cx (keeps P (snd (snd b)))) ?E"
      by (rule holds_bind) (simp add: slot_effects_def result)
    then show ?thesis by (rule holds_weaken) simp_all
  next
    case False
    then show ?thesis by (auto simp: holds_def)
  qed
  show ?thesis
    unfolding run_concurrent_def Let_def sl_def [symmetric]
    by (rule holds_bind [OF 1]) (use 2 in \<open>auto split: prod.split\<close>)
qed

section \<open>Contexts and the whole batch\<close>

text \<open>\<open>uuid4\<close> answers an identifier that no scope has.\<close>

definition unused_ids :: "foreign \<Rightarrow> bool" where
  "unused_ids fo \<longleftrightarrow> (\<forall>t. fo_uuid fo t \<notin> dkeys (t_scopes t))"

lemma child_context_scoped:
  assumes "unused_ids (ex_foreign ex)" "steady cx P"
  shows "holds (under cx P) (child_tool_context ex tx sid call)
    (\<lambda>c s. under cx P s \<and> tx_scope c \<noteq> None) (\<lambda>e s. under cx P s \<and> exc_effects e = [])"
proof -
  have bind: "quiet cx (bind_model_turn i)" for i
    unfolding bind_model_turn_def
    by (intro quiet) (auto simp: with_scope_def res_simps split: option.splits)
  have "holds (under cx P) (\<lambda>s. tree_update (child_tool (fo_uuid (ex_foreign ex) (xs_tree s)) sid (tc_id call) (Some (tc_name call)) None) s)
      (\<lambda>_. under cx P) (\<lambda>e s. under cx P s \<and> exc_effects e = [])"
    using assms(1) unfolding unused_ids_def
    by (intro holdsI) (auto simp only: tree_update_def tree_call_def res_simps split: sum.splits prod.splits option.splits
        intro!: under_moves [OF _ assms(2)] dest: moves_child_tool, auto simp: res_simps
        intro: under_moves [OF _ assms(2)] moves_child_tool)
  then have step: "holds (\<lambda>s. under cx P s \<and> x = (fo_uuid (ex_foreign ex) (xs_tree s), length (t_tokens (xs_tree s))))
      (tree_update (child_tool (fst x) sid (tc_id call) (Some (tc_name call)) None))
      (\<lambda>_. under cx P) (\<lambda>e s. under cx P s \<and> exc_effects e = [])" for x
    by (auto simp: holds_def)
  show ?thesis
    unfolding child_tool_context_def
    by (rule holds_bind [where R = "\<lambda>x s. under cx P s \<and> x = (fo_uuid (ex_foreign ex) (xs_tree s), length (t_tokens (xs_tree s)))"])
      (auto intro!: holds_gets holds_seq [OF step [of "(_, _)", simplified]] holds_seq [OF quietD [OF bind assms(2)]] holds_ret
        split: prod.split)
qed

lemma contexts_scoped:
  assumes "unused_ids (ex_foreign ex)" "steady cx P" "tx_scope tx = Some sid"
  shows "holds (under cx P) (call_contexts ex tx calls)
    (\<lambda>cs s. under cx P s \<and> (\<forall>c \<in> set cs. tx_scope c \<noteq> None)) (\<lambda>e s. under cx P s \<and> exc_effects e = [])"
proof -
  have "holds (under cx P) (map_prog (child_tool_context ex tx sid) calls)
      (\<lambda>cs s. under cx P s \<and> list_all2 (\<lambda>_ c. tx_scope c \<noteq> None) calls cs) (\<lambda>e s. under cx P s \<and> exc_effects e = [])"
    by (rule holds_map) (rule child_context_scoped [OF assms(1,2)])
  then show ?thesis
    unfolding call_contexts_def using assms(3)
    by (auto elim!: holds_post simp: list_all2_conv_all_nth in_set_conv_nth)
qed

text \<open>Whatever a batch of a runtime context reports is in the ledger of its tree.\<close>

lemma execute_batch_reports:
  assumes "plain_foreign (ex_foreign ex)" "unused_ids (ex_foreign ex)" "tx_scope tx = Some sid" "steady (ex_codec ex) P"
  shows "holds (under (ex_codec ex) P) (execute_batch ex schedule calls tx)
    (\<lambda>b. under (ex_codec ex) (keeps P (snd (snd b)))) (\<lambda>x. under (ex_codec ex) (keeps P (exc_effects x)))"
proof -
  let ?cx = "ex_codec ex"
  let ?E = "\<lambda>x. under ?cx (keeps P (exc_effects x))" and ?Q = "\<lambda>b. under ?cx (keeps P (snd (snd b)))"
  have q: "holds (under ?cx P) m (\<lambda>_. under ?cx P) ?E" if "quiet ?cx m" for m :: "'a xprog"
    by (rule holds_post [OF quietD [OF that assms(4)]]) auto
  have bind: "quiet ?cx (bind_model_turn sid)"
    unfolding bind_model_turn_def by (intro quiet) (auto simp: with_scope_def res_simps split: option.splits)
  have result: "holds (under ?cx (keeps P es)) (batch_result calls results es) ?Q ?E" for results es
    unfolding batch_result_def value_or_error_def
    by (rule holds_of_sum) (auto simp: make_batch_result_def split: if_splits sum.splits)
  have rest: "holds (\<lambda>s. under ?cx P s \<and> (\<forall>c \<in> set contexts. tx_scope c \<noteq> None))
      (if all_concurrent ex calls then run_concurrent ex schedule calls contexts
       else bind_prog (serial_loop ex (zip calls contexts) []) (\<lambda>(results, es). batch_result calls results es)) ?Q ?E" for contexts
  proof (cases "\<forall>c \<in> set contexts. tx_scope c \<noteq> None")
    case True
    then have "scoped (zip calls contexts)" by (auto simp: scoped_def dest: set_zip_rightD)
    then have "holds (under ?cx P) (serial_loop ex (zip calls contexts) []) (\<lambda>r. under ?cx (keeps P (snd r))) ?E"
      using reportsD [OF reports_serial_loop [OF assms(1)] assms(4), of "zip calls contexts" "[]"] by simp
    then have "holds (under ?cx P) (bind_prog (serial_loop ex (zip calls contexts) []) (\<lambda>(results, es). batch_result calls results es)) ?Q ?E"
      by (rule holds_bind) (auto simp: result split: prod.split)
    with run_concurrent_reports [OF assms(1,4) True] show ?thesis by (auto intro: holds_weaken)
  qed (auto simp: holds_def)
  have contexts: "holds (under ?cx P) (call_contexts ex tx calls) (\<lambda>cs s. under ?cx P s \<and> (\<forall>c \<in> set cs. tx_scope c \<noteq> None)) ?E"
    by (rule holds_post [OF contexts_scoped [OF assms(2,4,3)]]) auto
  have limit: "holds (under ?cx P) (abort_with code message cause []) ?Q ?E" for code message cause
    unfolding abort_with_def by (auto intro!: holds_throw)
  show ?thesis
    unfolding execute_batch_def using assms(3)
    by (auto intro!: limit holds_seq [OF q] holds_bind [OF contexts] rest quiet bind)
qed

end
