(* ===== verification/BatchResults.thy ===== *)
theory BatchResults
  imports ExecutorBatch
begin

text \<open>
  Results name their calls, and a concurrent batch fills the slot of every call, whatever the order in which
  its tasks end: the check of a batch result never fails.
\<close>

definition yields :: "('a \<Rightarrow> bool) \<Rightarrow> 'a xprog \<Rightarrow> bool" where
  "yields Q m \<longleftrightarrow> (\<forall>s x s1. m s = Some (Inr x, s1) \<longrightarrow> Q x)"

lemma yieldsD: "yields Q m \<Longrightarrow> m s = Some (Inr x, s1) \<Longrightarrow> Q x"
  unfolding yields_def by blast

named_theorems yields_rules \<open>what programs answer, by their structure\<close>

lemma yields_weaken: "yields R m \<Longrightarrow> (\<And>x. R x \<Longrightarrow> Q x) \<Longrightarrow> yields Q m"
  unfolding yields_def by blast

lemma yields_bind_from: "yields R m \<Longrightarrow> (\<And>x. R x \<Longrightarrow> yields Q (f x)) \<Longrightarrow> yields Q (bind_prog m f)"
  unfolding yields_def bind_prog_def by (intro allI impI) (fastforce split: option.splits sum.splits prod.splits)

lemma yields_bind: "(\<And>x. yields Q (f x)) \<Longrightarrow> yields Q (bind_prog m f)"
  by (rule yields_bind_from [of "\<lambda>_. True"]) (simp_all add: yields_def)

lemma yields_seq [yields_rules]: "yields Q n \<Longrightarrow> yields Q (seq_prog m n)"
  unfolding seq_prog_def by (rule yields_bind)

lemma yields_ret [yields_rules]: "Q x \<Longrightarrow> yields Q (ret x)"
  by (simp add: yields_def ret_def)

lemma yields_throw [yields_rules]: "yields Q (throw e)"
  by (simp add: yields_def throw_def)

lemma yields_abort [yields_rules]: "yields Q (abort_with code message cause es)"
  by (simp add: abort_with_def yields_throw)

lemma yields_catch [yields_rules]: "yields Q m \<Longrightarrow> (\<And>e. yields Q (h e)) \<Longrightarrow> yields Q (catch_prog m h)"
  unfolding yields_def by (auto simp: catch_prog_def split: option.splits sum.splits prod.splits)

lemma yields_finally [yields_rules]: "yields Q m \<Longrightarrow> yields Q (finally_prog m f)"
  unfolding yields_def by (auto simp: finally_prog_def split: option.splits sum.splits prod.splits)

lemma yields_value: "(\<And>x. r = Inr x \<Longrightarrow> Q x) \<Longrightarrow> yields Q (value_or_error r)"
  by (auto simp: yields_def value_or_error_def of_sum_def split: sum.splits)

section \<open>Results name their calls\<close>

definition names :: "tool_call \<Rightarrow> tool_execution_result \<Rightarrow> bool" where
  "names call r \<longleftrightarrow> tr_call_id r = tc_id call \<and> tr_name r = tc_name call"

lemma result_names:
  "error_result call e = Inr r \<Longrightarrow> names call r" "content_result call content = Inr r \<Longrightarrow> names call r"
  "make_error ex call code message = Inr r \<Longrightarrow> names call r"
  by (auto simp: names_def error_result_def content_result_def make_tool_result_value_def make_error_def res_simps split: if_splits)

lemma yields_report: "names call result \<Longrightarrow> yields (\<lambda>r. names call (fst r)) (report ex tx call code result es status)"
  unfolding report_def by (intro yields_rules) simp

lemma yields_failed_result: "yields (names call) (failed_result ex call code message)"
  unfolding failed_result_def by (rule yields_value) (rule result_names(3))

lemma yields_error: "yields (names call) (value_or_error (error_result call e))"
  by (rule yields_value) (rule result_names(1))

lemma yields_content: "yields (names call) (value_or_error (content_result call content))"
  by (rule yields_value) (rule result_names(2))

text \<open>The ends of the branches: a result is built and reported.\<close>

lemma yields_reported_content: "yields (\<lambda>r. names call (fst r))
    (bind_prog (value_or_error (content_result call content)) (\<lambda>result. report ex tx call code result es status))"
  by (rule yields_bind_from [OF yields_content]) (rule yields_report)

lemma yields_after_error:
  "(\<And>result. names call result \<Longrightarrow> yields Q (f result)) \<Longrightarrow> yields Q (bind_prog (value_or_error (error_result call error)) f)"
  by (rule yields_bind_from [OF yields_error])

lemma yields_run_started: "yields (\<lambda>r. names call (fst r)) (run_started ex tool call tx)"
proof -
  have stopped: "yields Q (stopped ex tool call tx again)" for Q again
    unfolding stopped_def report_cancelled_def by (intro yields_bind yields_rules)
  have timed: "yields (names call) (value_or_error (bind_res (tool_error code message) (error_result call)))" for code message
    by (rule yields_value) (auto simp: res_simps intro: result_names(1))
  have "yields (\<lambda>r. names call (fst r)) (overran ex tool call tx)"
    unfolding overran_def by (intro yields_bind_from [OF timed] yields_bind yields_seq yields_report)
  moreover have "yields (\<lambda>r. names call (fst r)) (completed_composite ex tool call tx content es rs)" for content es rs
    unfolding completed_composite_def
    by (simp add: yields_throw) (intro impI yields_reported_content yields_bind yields_seq)
  moreover have "yields (\<lambda>r. names call (fst r)) (completed_leaf ex tool call tx raw)" for raw
    unfolding completed_leaf_def
    by (simp add: yields_throw) (intro impI yields_reported_content yields_bind yields_seq)
  ultimately show ?thesis
    unfolding run_started_def
    by (auto intro!: yields_seq yields_throw stopped split: wait_end.split task_end.split handler_return.split)
qed

lemma yields_handle: "yields (\<lambda>r. names call (fst r)) (handle_exception ex tool call tx e)"
proof -
  have stopped: "yields Q (stopped ex tool call tx again)" for Q again
    unfolding stopped_def report_cancelled_def by (intro yields_bind yields_rules)
  have "yields (\<lambda>r. names call (fst r)) (failed_unknown ex tool call tx why)" for why
    unfolding failed_unknown_def by (intro yields_after_error yields_bind yields_seq yields_report)
  moreover have "yields (\<lambda>r. names call (fst r)) (failed_composite ex call tx why es rs)" for why es rs
    unfolding failed_composite_def by (intro yields_after_error yields_bind yields_seq yields_report)
  moreover have "yields (\<lambda>r. names call (fst r)) (failed_known ex tool call tx why)" for why
    unfolding failed_known_def by (intro yields_after_error yields_bind yields_seq yields_report)
  moreover have "yields Q (contract_broken ex tool call tx message)" for Q message
    unfolding contract_broken_def Let_def by (intro yields_bind yields_seq yields_abort)
  moreover have "yields Q (settlement_failed ex call tx code)" for Q code
    unfolding settlement_failed_def by (intro yields_seq yields_abort)
  moreover have "yields (\<lambda>r. names call (fst r)) (failed_otherwise ex tool call tx)"
  proof -
    have "yields (\<lambda>r. names call (fst r)) (if tl_reporting tool = COMPOSITE
        then report ex tx call code result [] RS_UNKNOWN else bind_prog m (\<lambda>e. seq_prog (c e) (report ex tx call code result [e] (st e))))"
      if "names call result" for result code m c st
      using that by (auto intro!: yields_bind yields_seq yields_report)
    then show ?thesis unfolding failed_otherwise_def by (intro yields_after_error yields_bind)
  qed
  moreover have "yields Q (composite_cancelled ex tool call tx es rs)" for Q es rs
    unfolding composite_cancelled_def report_cancelled_def
    by (simp add: yields_throw) (intro impI yields_bind yields_seq yields_throw)
  ultimately show ?thesis
    by (cases e) (simp_all add: handle_exception_def yields_throw stopped)
qed

lemma yields_run_job: "yields (\<lambda>r. names (fst (snd j)) (fst r)) (run_job ex j)"
proof -
  obtain i call tool tx where j: "j = (i, call, tool, tx)" by (metis prod_cases4)
  have error: "yields Q (record_batch_error ex tx call e)" for Q e
    unfolding record_batch_error_def by (intro yields_rules)
  show ?thesis
    unfolding j run_job_def split_conv fst_conv snd_conv execute_prepared_def
    by (intro yields_finally yields_catch yields_seq yields_run_started yields_handle error)
qed

definition finished_names :: "tool_call \<Rightarrow> prepared \<Rightarrow> bool" where
  "finished_names call p \<longleftrightarrow> (\<forall>r. p = Finished r \<longrightarrow> names call r)"

lemma yields_prepare: "yields (finished_names call) (prepare_call ex call tx)"
proof -
  have fin: "yields (finished_names call) (seq_prog m (ret (Finished r)))" if "names call r" for m :: "unit xprog" and r
    using that by (auto intro!: yields_seq yields_ret simp: finished_names_def)
  have finish: "yields (finished_names call) (finish_prepared ex tx call code r)" if "names call r" for code r
    unfolding finish_prepared_def using that by (auto intro!: yields_seq yields_ret simp: finished_names_def)
  have denied: "yields (\<lambda>a. \<forall>r. a = Some r \<longrightarrow> names call r) (approval_denied ex request call tx result code message)"
    for request result code message
    unfolding approval_denied_def by (rule yields_bind_from [OF yields_failed_result]) (intro yields_rules, simp)
  have abort: "yields Q (approval_abort ex request call tx result code message cause)" for Q request result code message cause
    unfolding approval_abort_def by (intro yields_seq yields_abort)
  have answered: "yields (\<lambda>a. \<forall>r. a = Some r \<longrightarrow> names call r) (approval_answered ex request call tx response)" for request response
    unfolding approval_answered_def by (auto intro!: abort denied yields_seq yields_ret)
  have await: "yields (\<lambda>a. \<forall>r. a = Some r \<longrightarrow> names call r) (await_approval ex request call tx)" for request
    unfolding await_approval_def
    by (intro yields_seq) (auto intro!: yields_throw abort denied answered yields_seq split: approval_answer.split)
  have approval: "yields (\<lambda>a. \<forall>r. a = Some r \<longrightarrow> names call r) (approval_for ex call tool tx why)" for tool why
    unfolding approval_for_def by (intro yields_bind yields_seq) (auto intro: abort await)
  have resolve: "yields (finished_names call) (resolve_timeout ex call tool tx)" for tool
    unfolding resolve_timeout_def Let_def
    by (auto intro!: yields_throw yields_abort yields_seq yields_ret simp: finished_names_def split: timeout_answer.split)
  have known: "yields (finished_names call) (prepare_known ex call t tx decision why)" for t decision why
    unfolding prepare_known_def
  proof (rule yields_bind_from [where R = "\<lambda>a. \<forall>r. a = Some r \<longrightarrow> names call r"])
    show "yields (\<lambda>a. \<forall>r. a = Some r \<longrightarrow> names call r)
        (if decision = REQUIRE_APPROVAL then approval_for ex call t tx why else ret None)"
      by (auto intro: approval yields_ret)
  qed (auto intro: resolve yields_seq fin split: option.split)
  have decided: "yields (finished_names call) (prepare_decided ex call tool tx d)" for tool d
    unfolding prepare_decided_def
    by (auto intro!: yields_seq yields_abort known yields_bind_from [OF yields_failed_result] finish split: option.split prod.split)
  have invalid: "yields (names call) (value_or_error (bind_res (bounded_error ex error) (error_result call)))" for error
    by (rule yields_value) (auto simp: res_simps intro: result_names(1))
  show ?thesis
    unfolding prepare_call_def Let_def
    by (intro yields_seq) (auto intro: yields_bind_from [OF invalid] finish yields_bind decided split: option.split)
qed

section \<open>Every slot is filled\<close>

definition jobs_of :: "tool_call list \<Rightarrow> job list \<Rightarrow> bool" where
  "jobs_of calls jobs \<longleftrightarrow> (\<forall>j \<in> set jobs. fst j < length calls \<and> fst (snd j) = calls ! fst j)"

definition filled :: "tool_call list \<Rightarrow> slots \<Rightarrow> nat \<Rightarrow> bool" where
  "filled calls sl i \<longleftrightarrow> (\<exists>r. sl_results sl ! i = Some r \<and> names (calls ! i) r)"

text \<open>A slot is filled, or the task that will fill it is running or has still to start.\<close>

definition slots_ok :: "tool_call list \<Rightarrow> job list \<Rightarrow> slots \<Rightarrow> bool" where
  "slots_ok calls jobs sl \<longleftrightarrow> length (sl_results sl) = length calls \<and> sl_next sl \<le> length jobs
     \<and> (\<forall>k \<in> set (sl_running sl). k < length jobs)
     \<and> (\<forall>i < length calls. filled calls sl i \<or>
          (\<exists>q < length jobs. fst (jobs ! q) = i \<and> (q \<in> set (sl_running sl) \<or> sl_next sl \<le> q)))"

lemma filled_set_slot:
  "i < length (sl_results sl) \<Longrightarrow> filled calls (set_slot k r sl) i \<longleftrightarrow>
     (if i = k then names (calls ! i) (fst r) else filled calls sl i)"
  by (simp add: filled_def set_slot_def nth_list_update)

lemma filled_other [simp]: "filled calls (drop_running k sl) i = filled calls sl i"
  "filled calls (sl\<lparr>sl_running := x, sl_next := y\<rparr>) i = filled calls sl i"
  "filled calls (sl\<lparr>sl_running := x\<rparr>) i = filled calls sl i"
  by (simp_all add: filled_def drop_running_def)

lemma fill_slots_ok:
  "slots_ok calls jobs sl \<Longrightarrow> slots_ok calls jobs (fill limit (length jobs) sl) \<and>
     (0 < limit \<longrightarrow> sl_running (fill limit (length jobs) sl) = [] \<longrightarrow> sl_next (fill limit (length jobs) sl) = length jobs)"
proof (induction limit "length jobs" sl rule: fill.induct)
  case (1 limit sl)
  show ?case
  proof (cases "sl_next sl < length jobs \<and> length (sl_running sl) < limit")
    case True
    let ?s = "sl\<lparr>sl_running := sl_running sl @ [sl_next sl], sl_next := sl_next sl + 1\<rparr>"
    have "filled calls sl i \<or> (\<exists>q < length jobs. fst (jobs ! q) = i \<and>
        (q \<in> set (sl_running sl @ [sl_next sl]) \<or> sl_next sl + 1 \<le> q))" if "i < length calls" for i
      using "1.prems" that unfolding slots_ok_def by (metis Suc_eq_plus1 Suc_leI Un_iff le_neq_implies_less list.set_intros(1) set_append)
    with "1.prems" True have "slots_ok calls jobs ?s" by (auto simp: slots_ok_def)
    with "1.hyps" True show ?thesis by (subst (1 2 3) fill.simps) simp
  next
    case False
    with "1.prems" show ?thesis by (subst (1 2 3) fill.simps) (auto simp: slots_ok_def)
  qed
qed

lemma slots_ok_end:
  assumes "slots_ok calls jobs sl" "jobs_of calls jobs" "k < length jobs" "names (fst (snd (jobs ! k))) (fst r)"
  shows "slots_ok calls jobs (set_slot (fst (jobs ! k)) r (drop_running k sl))"
proof -
  have j: "fst (snd (jobs ! k)) = calls ! fst (jobs ! k)" using assms(2,3) by (simp add: jobs_of_def)
  have "filled calls (set_slot (fst (jobs ! k)) r (drop_running k sl)) i \<or> (\<exists>q < length jobs. fst (jobs ! q) = i \<and>
      (q \<in> set (removeAll k (sl_running sl)) \<or> sl_next sl \<le> q))" if i: "i < length calls" for i
  proof (cases "i = fst (jobs ! k)")
    case True
    with assms(1,4) j i show ?thesis by (subst filled_set_slot) (auto simp: slots_ok_def drop_running_def)
  next
    case False
    with assms(1) i show ?thesis
      by (subst filled_set_slot) (auto simp: slots_ok_def drop_running_def)
  qed
  with assms(1) show ?thesis by (auto simp: slots_ok_def set_slot_def drop_running_def)
qed

lemma yields_raised: "yields Q (concurrent_raise ex pairs jobs sl e)" "yields Q (loop_raised ex pairs jobs sl running e)"
proof -
  have loop: "yields Q (loop_raised ex pairs jobs sl running e)" for running e
    unfolding loop_raised_def by (auto intro!: yields_bind yields_seq yields_throw)
  then show "yields Q (loop_raised ex pairs jobs sl running e)" .
  have "yields Q (task_raised ex pairs jobs sl e)"
    unfolding task_raised_def by (auto intro!: yields_bind yields_seq yields_throw split: py_exc.split)
  then show "yields Q (concurrent_raise ex pairs jobs sl e)"
    unfolding concurrent_raise_def by (intro yields_catch loop)
qed

lemma yields_round_loop:
  assumes "jobs_of calls jobs"
  shows "slots_ok calls jobs sl \<Longrightarrow> \<forall>k \<in> set ks. k < length jobs \<Longrightarrow>
    yields (slots_ok calls jobs) (round_loop ex pairs jobs ks sl)"
proof (induction ks arbitrary: sl)
  case Nil
  then show ?case by (simp add: yields_ret)
next
  case (Cons k ks)
  have "yields (\<lambda>r. names (fst (snd (jobs ! k))) (fst r))
      (catch_prog (run_job ex (jobs ! k)) (concurrent_raise ex pairs jobs (drop_running k sl)))"
    by (intro yields_catch yields_run_job yields_raised)
  with Cons slots_ok_end [OF Cons.prems(1) assms] show ?case by (auto simp: Let_def intro: yields_bind_from)
qed

lemma yields_rounds:
  assumes "jobs_of calls jobs" "0 < ec_max_concurrency (ex_config ex)"
  shows "slots_ok calls jobs sl \<Longrightarrow> (sl_running sl = [] \<Longrightarrow> sl_next sl = length jobs) \<Longrightarrow>
    yields (\<lambda>sl'. slots_ok calls jobs sl' \<and> sl_running sl' = [] \<and> sl_next sl' = length jobs) (rounds ex pairs jobs schedule sl)"
proof (induction schedule arbitrary: sl)
  case Nil
  then show ?case by (cases "sl_running sl = []") (auto simp: rounds.simps yields_def ret_def)
next
  case (Cons ended later)
  show ?case
  proof (cases "sl_running sl = [] \<or> ended = [] \<or> \<not> distinct ended \<or> \<not> set ended \<subseteq> set (sl_running sl)")
    case True
    with Cons.prems show ?thesis by (auto simp: rounds.simps yields_def ret_def)
  next
    case False
    then have k: "\<forall>k \<in> set ended. k < length jobs" using Cons.prems(1) by (auto simp: slots_ok_def)
    let ?fill = "fill (ec_max_concurrency (ex_config ex)) (length jobs)"
    have "yields (\<lambda>sl'. slots_ok calls jobs sl' \<and> sl_running sl' = [] \<and> sl_next sl' = length jobs)
        (bind_prog (round_loop ex pairs jobs ended sl) (\<lambda>sl1. rounds ex pairs jobs later (?fill sl1)))"
    proof (rule yields_bind_from [OF yields_round_loop [OF assms(1) Cons.prems(1) k]])
      fix sl1 assume "slots_ok calls jobs sl1"
      from fill_slots_ok [OF this] assms(2) show "yields (\<lambda>sl'. slots_ok calls jobs sl' \<and> sl_running sl' = []
          \<and> sl_next sl' = length jobs) (rounds ex pairs jobs later (?fill sl1))"
        by (intro Cons.IH) simp_all
    qed
    with False show ?thesis by (subst rounds.simps) (auto intro!: yields_bind)
  qed
qed

lemma prepare_all_slots:
  "length calls = length pairs \<Longrightarrow> map fst pairs = calls \<Longrightarrow> i \<le> length calls \<Longrightarrow> todo = drop i pairs \<Longrightarrow>
   length (sl_results sl) = length calls \<Longrightarrow> sl_next sl = 0 \<Longrightarrow> sl_running sl = [] \<Longrightarrow>
   yields (\<lambda>r. jobs_of calls (snd r) \<and> length (sl_results (fst r)) = length calls \<and> sl_next (fst r) = 0 \<and> sl_running (fst r) = []
       \<and> (\<forall>k < i. sl_results (fst r) ! k = sl_results sl ! k)
       \<and> (\<forall>k. i \<le> k \<and> k < length calls \<longrightarrow> filled calls (fst r) k \<or> k \<in> fst ` set (snd r)))
     (prepare_all ex pairs' i todo sl)"
proof (induction todo arbitrary: i sl)
  case Nil
  then show ?case by (auto intro!: yields_ret simp: jobs_of_def)
next
  case (Cons p rest)
  obtain call tx where p: "p = (call, tx)" by (cases p)
  have i: "i < length calls" using Cons.prems(1,3,4) by (metis drop_all le_neq_implies_less list.distinct(1) order_refl)
  have call: "call = calls ! i" using Cons.prems(1,2,4) p i
    by (metis Cons_nth_drop_Suc fst_conv list.inject nth_map)
  have rest: "rest = drop (i + 1) pairs" using Cons.prems(1,4) i by (metis Cons_nth_drop_Suc Suc_eq_plus1 list.inject)
  note IH = Cons.IH [OF Cons.prems(1,2) _ rest]
  have later: "i \<le> k \<longleftrightarrow> k = i \<or> i + 1 \<le> k" for k by auto
  have prepared: "yields (finished_names call) (catch_prog (bind_prog (prepare_call ex call tx) (\<lambda>p. case p of
      Finished result \<Rightarrow> seq_prog (close_call_scope tx) (ret p) | Ready a b \<Rightarrow> ret p)) (prepare_raise ex pairs' call tx))"
  proof (intro yields_catch yields_bind_from [OF yields_prepare])
    show "yields (finished_names call) (case p of Finished result \<Rightarrow> seq_prog (close_call_scope tx) (ret p) | Ready a b \<Rightarrow> ret p)"
      if "finished_names call p" for p
      using that by (auto intro!: yields_seq yields_ret split: prepared.split)
    show "yields (finished_names call) (prepare_raise ex pairs' call tx e)" for e
      unfolding prepare_raise_def by (auto intro!: yields_seq yields_throw split: py_exc.split)
  qed
  show ?case
    unfolding p prepare_all.simps
  proof (rule yields_bind_from [OF prepared])
    fix r assume r: "finished_names call r"
    let ?post = "\<lambda>r. jobs_of calls (snd r) \<and> length (sl_results (fst r)) = length calls \<and> sl_next (fst r) = 0
       \<and> sl_running (fst r) = [] \<and> (\<forall>k < i. sl_results (fst r) ! k = sl_results sl ! k)
       \<and> (\<forall>k. i \<le> k \<and> k < length calls \<longrightarrow> filled calls (fst r) k \<or> k \<in> fst ` set (snd r))"
    show "yields ?post (case r of
        Finished result \<Rightarrow> prepare_all ex pairs' (i + 1) rest (set_slot i (result, []) sl)
      | Ready tool timeout \<Rightarrow> bind_prog (prepare_all ex pairs' (i + 1) rest sl)
          (\<lambda>(sl1, jobs). ret (sl1, (i, call, tool, tx) # jobs)))"
    proof (cases r)
      case (Finished result)
      have "yields ?post (prepare_all ex pairs' (i + 1) rest (set_slot i (result, []) sl))"
      proof (rule yields_weaken [OF IH])
        fix x :: "slots \<times> job list"
        assume x: "jobs_of calls (snd x) \<and> length (sl_results (fst x)) = length calls \<and> sl_next (fst x) = 0
          \<and> sl_running (fst x) = [] \<and> (\<forall>k < i + 1. sl_results (fst x) ! k = sl_results (set_slot i (result, []) sl) ! k)
          \<and> (\<forall>k. i + 1 \<le> k \<and> k < length calls \<longrightarrow> filled calls (fst x) k \<or> k \<in> fst ` set (snd x))"
        then have "sl_results (fst x) ! i = Some result" using Cons.prems(5) i by (simp add: set_slot_def)
        then have "filled calls (fst x) i" using r Finished call by (simp add: filled_def finished_names_def)
        with x show "?post x" by (auto simp: set_slot_def later)
      qed (use Cons.prems i in \<open>auto simp: set_slot_def\<close>)
      with Finished show ?thesis by simp
    next
      case (Ready tool timeout)
      have "yields ?post (bind_prog (prepare_all ex pairs' (i + 1) rest sl) (\<lambda>(sl1, jobs). ret (sl1, (i, call, tool, tx) # jobs)))"
      proof (rule yields_bind_from [OF IH])
        fix x :: "slots \<times> job list"
        assume "jobs_of calls (snd x) \<and> length (sl_results (fst x)) = length calls \<and> sl_next (fst x) = 0
          \<and> sl_running (fst x) = [] \<and> (\<forall>k < i + 1. sl_results (fst x) ! k = sl_results sl ! k)
          \<and> (\<forall>k. i + 1 \<le> k \<and> k < length calls \<longrightarrow> filled calls (fst x) k \<or> k \<in> fst ` set (snd x))"
        then show "yields ?post (case x of (sl1, jobs) \<Rightarrow> ret (sl1, (i, call, tool, tx) # jobs))"
          using i call by (cases x) (auto intro!: yields_ret simp: jobs_of_def later)
      qed (use Cons.prems i in auto)
      with Ready show ?thesis by simp
    qed
  qed
qed

text \<open>So the check of the batch result cannot fail.\<close>

lemma batch_complete:
  assumes "slots_ok calls jobs sl" "sl_running sl = []" "sl_next sl = length jobs"
  shows "make_batch_result calls (List.map_filter id (sl_results sl)) es =
    Inr (calls, List.map_filter id (sl_results sl), es)"
proof -
  have all: "\<forall>i < length calls. \<exists>r. sl_results sl ! i = Some r \<and> names (calls ! i) r"
    and n: "length (sl_results sl) = length calls"
    using assms by (auto simp: slots_ok_def filled_def)
  have "sl_results sl = map Some (map the (sl_results sl))"
    using all n by (intro nth_equalityI) auto
  moreover have "List.map_filter id (map Some rs) = rs" for rs :: "tool_execution_result list"
    by (induction rs) (simp_all add: List.map_filter_simps)
  ultimately have m: "List.map_filter id (sl_results sl) = map the (sl_results sl)" by metis
  have "list_all2 (\<lambda>c r. tr_call_id r = tc_id c \<and> tr_name r = tc_name c) calls (map the (sl_results sl))"
    using all n by (auto simp: list_all2_conv_all_nth names_def)
  with m n show ?thesis by (simp add: make_batch_result_def)
qed

end
