(* ===== verification/ExecutorReturns.thy ===== *)
theory ExecutorReturns
  imports ExecutorBatch TreeGrows
begin

text \<open>
  A call returns, with a result or an exception, when no scope of the tree is in a settlement and no other
  task runs: every loop of the executor ends, and the closing of the scope has nothing to wait for.
\<close>

named_theorems returns \<open>programs that end on a calm tree\<close>

definition calm :: "tree \<Rightarrow> bool" where
  "calm t \<longleftrightarrow> dict_ok (t_scopes t) \<and>
     (\<forall>i q. dget (t_scopes t) i = Some q \<longrightarrow> ln_scope (sc_lineage q) = i \<and> sc_idle q \<and> sc_active q = 0)"

definition alone :: "xstate \<Rightarrow> bool" where
  "alone s \<longleftrightarrow> xs_script s = [] \<and> calm (xs_tree s)"

definition returns :: "'a xprog \<Rightarrow> bool" where
  "returns m \<longleftrightarrow> (\<forall>s. alone s \<longrightarrow> (\<exists>r s1. m s = Some (r, s1) \<and> alone s1))"

lemma returnsD: "returns m \<Longrightarrow> alone s \<Longrightarrow> \<exists>r s1. m s = Some (r, s1) \<and> alone s1"
  by (simp add: returns_def)

section \<open>Structure\<close>

lemma returns_basic [returns]: "returns (ret x)" "returns (throw e)" "returns (gets f)" "returns (of_sum r)"
  "returns (value_or_error v)"
  by (simp_all add: returns_def ret_def throw_def gets_def of_sum_def value_or_error_def)

lemma returns_bind [returns]: "returns m \<Longrightarrow> (\<And>x. returns (f x)) \<Longrightarrow> returns (bind_prog m f)"
  unfolding returns_def
proof (intro allI impI)
  fix s assume m: "\<forall>s. alone s \<longrightarrow> (\<exists>r s1. m s = Some (r, s1) \<and> alone s1)"
    and f: "\<And>x. \<forall>s. alone s \<longrightarrow> (\<exists>r s1. f x s = Some (r, s1) \<and> alone s1)" and s: "alone s"
  from m s obtain r s1 where 1: "m s = Some (r, s1)" "alone s1" by blast
  show "\<exists>r s1. bind_prog m f s = Some (r, s1) \<and> alone s1"
  proof (cases r)
    case (Inl e)
    with 1 show ?thesis by (simp add: bind_prog_def)
  next
    case (Inr x)
    from f [of x] 1(2) obtain r2 s2 where "f x s1 = Some (r2, s2)" "alone s2" by blast
    with 1 Inr show ?thesis by (simp add: bind_prog_def)
  qed
qed

lemma returns_seq [returns]: "returns m \<Longrightarrow> returns n \<Longrightarrow> returns (seq_prog m n)"
  unfolding seq_prog_def by (rule returns_bind)

lemma returns_catch [returns]: "returns m \<Longrightarrow> (\<And>e. returns (h e)) \<Longrightarrow> returns (catch_prog m h)"
  unfolding returns_def
proof (intro allI impI)
  fix s assume m: "\<forall>s. alone s \<longrightarrow> (\<exists>r s1. m s = Some (r, s1) \<and> alone s1)"
    and h: "\<And>e. \<forall>s. alone s \<longrightarrow> (\<exists>r s1. h e s = Some (r, s1) \<and> alone s1)" and s: "alone s"
  from m s obtain r s1 where 1: "m s = Some (r, s1)" "alone s1" by blast
  show "\<exists>r s1. catch_prog m h s = Some (r, s1) \<and> alone s1"
  proof (cases r)
    case (Inl e)
    from h [of e] 1(2) obtain r2 s2 where "h e s1 = Some (r2, s2)" "alone s2" by blast
    with 1 Inl show ?thesis by (simp add: catch_prog_def)
  next
    case (Inr x)
    with 1 show ?thesis by (simp add: catch_prog_def)
  qed
qed

lemma returns_finally [returns]: "returns m \<Longrightarrow> returns f \<Longrightarrow> returns (finally_prog m f)"
  unfolding returns_def finally_prog_def
  by (fastforce split: option.split sum.split)

lemma returns_when [returns]: "returns m \<Longrightarrow> returns (when_prog b m)"
  by (simp add: when_prog_def returns_basic)

lemma returns_each [returns]: "(\<And>x. returns (f x)) \<Longrightarrow> returns (each_prog f xs)"
  by (induction xs) (auto intro: returns)

lemma returns_pause [returns]: "returns pause"
  by (simp add: returns_def pause_def alone_def)

lemma returns_event: "returns (modify (\<lambda>s. s\<lparr>xs_events := g s\<rparr>))"
  by (simp add: returns_def modify_def alone_def)

lemma returns_modify [returns]: "(\<And>t. calm t \<Longrightarrow> calm (f t)) \<Longrightarrow> returns (modify (\<lambda>s. s\<lparr>xs_tree := f (xs_tree s)\<rparr>))"
  by (simp add: returns_def modify_def alone_def)

lemma returns_tree_call: "(\<And>t x u. calm t \<Longrightarrow> f t = Inr (x, u) \<Longrightarrow> calm u) \<Longrightarrow> returns (tree_call f)"
  by (auto simp: returns_def tree_call_def alone_def split: sum.split)

lemma returns_tree_update: "(\<And>t u. calm t \<Longrightarrow> f t = Inr u \<Longrightarrow> calm u) \<Longrightarrow> returns (tree_update f)"
  unfolding tree_update_def by (rule returns_tree_call) (auto simp: res_simps)

lemma returns_ledger: "(\<And>t. calm t \<Longrightarrow> calm (fst (f t))) \<Longrightarrow> returns (tree_ledger f)"
proof -
  assume f: "\<And>t. calm t \<Longrightarrow> calm (fst (f t))"
  have "\<exists>r s1. tree_ledger f s = Some (r, s1) \<and> alone s1" if "alone s" for s
    using that f [of "xs_tree s"] by (cases "f (xs_tree s)") (auto simp: tree_ledger_def alone_def split: option.split)
  then show ?thesis by (simp add: returns_def)
qed

section \<open>The tree stays calm\<close>

lemma calm_scopes: "calm t \<Longrightarrow> t_scopes u = t_scopes t \<Longrightarrow> calm u"
  by (simp add: calm_def)

lemma calm_upd:
  assumes "calm t" "\<And>q. sc_lineage (f q) = sc_lineage q" "\<And>q. sc_idle (f q) = sc_idle q" "\<And>q. sc_active (f q) = sc_active q"
  shows "calm (upd_scope sid f t)"
  using assms by (auto simp: calm_def split: if_splits)

lemma calm_effect_id: "calm t \<Longrightarrow> next_effect_id sid t = Inr (i, u) \<Longrightarrow> calm u"
  by (auto simp: next_effect_id_def with_scope_def split: option.splits intro: calm_upd)

lemma scopes_contribute: "t_scopes (fst (contribute cx settlement c t)) = t_scopes t"
  by (rule core_fields) simp

lemma calm_contribute_with: "calm t \<Longrightarrow> calm (fst (contribute_with cx sid u es rs t))"
  by (auto simp: contribute_with_def next_contribution_id_def with_scope_def split: option.split
      intro!: calm_scopes [OF _ scopes_contribute] calm_upd)

lemma calm_record: "calm t \<Longrightarrow> record_tool_call cx sid call tool args preview status err ev t = Inr u \<Longrightarrow> calm u"
  by (auto simp: record_tool_call_def with_scope_def add_tool_record_def append_record_frame split: option.splits
      intro!: calm_upd elim: calm_scopes)

lemma calm_cap: "calm t \<Longrightarrow> calm (cap_deadline sid d t)"
  unfolding cap_deadline_def by (rule calm_upd) simp_all

lemma calm_begin: "calm t \<Longrightarrow> calm (close_begin sid t)"
proof -
  have one: "calm t \<Longrightarrow> calm (upd_scope i begin_closing t)" for i t
    by (rule calm_upd) (simp_all add: begin_closing_def)
  then have "calm t \<Longrightarrow> calm (fold (\<lambda>i. upd_scope i begin_closing) ids t)" for ids t
    by (induction ids arbitrary: t) simp_all
  with one show "calm t \<Longrightarrow> calm (close_begin sid t)" by (simp add: close_begin_def)
qed

lemma calm_cleanup: "calm t \<Longrightarrow> cleanup sid t = Inr u \<Longrightarrow> calm u"
proof -
  have "t_scopes (fold (cleanup_resource sid) rs t) = t_scopes t" for rs t
    by (induction rs arbitrary: t) (simp_all add: cleanup_resource_def add_retry_blocker_def Let_def)
  from calm_scopes [OF _ this] have fold: "calm t \<Longrightarrow> calm (fold (cleanup_resource sid) rs t)" for rs t .
  assume t: "calm t" and u: "cleanup sid t = Inr u"
  have "calm (upd_scope sid (\<lambda>q. q\<lparr>sc_resources := []\<rparr>) t)"
    by (rule calm_upd [OF t]) simp_all
  from fold [OF this] u show "calm u"
    by (auto simp: cleanup_def with_scope_def split: option.splits)
qed

lemma calm_freeze: "calm t \<Longrightarrow> freeze sid t = Inr u \<Longrightarrow> calm u"
  by (auto simp: freeze_def with_scope_def split: option.splits if_splits intro!: calm_upd)

lemma calm_finish: "calm t \<Longrightarrow> finish_one sid t = Inr u \<Longrightarrow> calm u"
  by (auto simp: finish_one_def res_simps split: sum.splits intro: calm_freeze calm_cleanup)

section \<open>The executor\<close>

lemma returns_emit [returns]: "returns (emit ex kind call tx payload)"
  unfolding emit_def by (intro returns returns_event)

lemma returns_emit_terminal [returns]: "returns (emit_terminal ex kind call code tx)"
  unfolding emit_terminal_def by (intro returns)

lemma returns_abort [returns]: "returns (abort_with code message cause es)"
  unfolding abort_with_def by (simp add: returns_basic)

lemma returns_check [returns]: "returns (check_token tx)"
  unfolding check_token_def by (auto intro!: returns)

lemma returns_record_call [returns]: "returns (record_call ex tx call result status)"
  unfolding record_call_def by (auto intro!: returns returns_tree_update intro: calm_record split: option.split)

lemma returns_record_error [returns]: "returns (record_error ex tx call code status)"
  unfolding record_error_def by (intro returns)

lemma returns_effect_of [returns]: "returns (effect_of tx call tool status content error)"
  unfolding effect_of_def by (auto intro!: returns returns_tree_call intro: calm_effect_id split: option.split)

lemma returns_identity_loop [returns]: "returns (identity_loop sid seen es)"
  by (induction sid seen es rule: identity_loop.induct)
    (auto intro!: returns returns_tree_call intro: calm_effect_id split: option.split)

lemma returns_contributions [returns]:
  "returns (identity_effects tx es)" "returns (contribute_call_effects ex tx es)"
  "returns (contribute_call_composite ex tx es rs)" "returns (contribute_cancelled ex tx tool evidence)"
proof -
  show "returns (identity_effects tx es)" unfolding identity_effects_def by (auto intro!: returns split: option.split)
  show 1: "returns (contribute_call_effects ex tx es)" for es
    unfolding contribute_call_effects_def contribute_effects_def
    by (auto intro!: returns returns_ledger intro: calm_contribute_with split: option.split)
  show 2: "returns (contribute_call_composite ex tx es rs)" for es rs
    unfolding contribute_call_composite_def contribute_composite_def
    by (auto intro!: returns returns_ledger intro: calm_contribute_with split: option.split)
  show "returns (contribute_cancelled ex tx tool evidence)"
    unfolding contribute_cancelled_def by (simp add: 1 2)
qed

lemma returns_hooks [returns]:
  "returns (before_tool ex tx call)" "returns (after_tool ex tx result)" "returns (after_with_effect ex tx result es)"
proof -
  have await: "returns (await_hook tx h)" for h :: "'b hook_answer"
    unfolding await_hook_def by (intro returns) (auto intro!: returns split: hook_answer.split)
  have failed: "returns (hook_failed message e :: 'c xprog)" for message e
    unfolding hook_failed_def by (auto intro!: returns)
  show "returns (before_tool ex tx call)"
    unfolding before_tool_def before_one_def
    by (intro returns await failed) (auto intro!: returns split: option.split hook_decision.split)
  show a: "returns (after_tool ex tx result)"
    unfolding after_tool_def after_one_def
    by (intro returns await failed) (auto intro!: returns split: option.split)
  show "returns (after_with_effect ex tx result es)"
    unfolding after_with_effect_def by (intro returns_catch a) (auto intro!: returns split: py_exc.split)
qed

lemma returns_approval [returns]: "returns (approval_for ex call tool tx why)"
proof -
  have resolved: "returns (emit_approval_resolved ex request call tx result code)" for request result code
    unfolding emit_approval_resolved_def by (intro returns)
  have abort: "returns (approval_abort ex request call tx result code message cause :: 'b xprog)" for request result code message cause
    unfolding approval_abort_def by (intro returns resolved)
  have denied: "returns (approval_denied ex request call tx result code message)" for request result code message
    unfolding approval_denied_def failed_result_def by (intro returns resolved)
  have answered: "returns (approval_answered ex request call tx response)" for request response
    unfolding approval_answered_def by (auto intro!: returns abort denied resolved)
  have "returns (await_approval ex request call tx)" for request
    unfolding await_approval_def
    by (intro returns) (auto intro!: returns abort denied answered resolved split: approval_answer.split)
  then show ?thesis
    unfolding approval_for_def by (intro returns) (auto intro!: returns abort split: option.split)
qed

lemma returns_prepare [returns]: "returns (prepare_call ex call tx)"
proof -
  have finish: "returns (finish_prepared ex tx call code result)" for code result
    unfolding finish_prepared_def by (intro returns)
  have policy: "returns (evaluate_policy ex call tool tx)" for tool
    unfolding evaluate_policy_def by (intro returns) (auto intro!: returns split: policy_answer.split option.split)
  have resolve: "returns (resolve_timeout ex call tool tx)" for tool
    unfolding resolve_timeout_def Let_def by (auto intro!: returns intro: calm_cap split: timeout_answer.split option.split)
  have known: "returns (prepare_known ex call t tx decision why)" for t decision why
    unfolding prepare_known_def by (intro returns) (auto intro!: returns resolve split: option.split)
  have decided: "returns (prepare_decided ex call tool tx d)" for tool d
    unfolding prepare_decided_def failed_result_def by (auto intro!: returns finish known split: option.split prod.split)
  show ?thesis
    unfolding prepare_call_def Let_def by (intro returns) (auto intro!: returns finish policy decided split: option.split)
qed

lemma settling_alone: "alone s \<Longrightarrow> \<not> settling tx s"
  by (auto simp: settling_def alone_def calm_def split: option.split)

lemma returns_cancel_started [returns]: "returns (cancel_started ex tool call tx timed_out again)"
proof -
  have settled: "returns (await_settled ex tool call tx again)"
  proof -
    have "\<exists>r s1. await_settled ex tool call tx again s = Some (r, s1) \<and> alone s1" if s: "alone s" for s
      using settling_alone [OF s, of tx] s
      by (auto simp: await_settled_def bind_prog_def seq_prog_def gets_def pause_def alone_def ret_def throw_def
          split: settle_end.split task_end.split)
    then show ?thesis by (simp add: returns_def)
  qed
  have leaf: "returns (leaf_evidence tx call tool status r)" for status r
    unfolding leaf_evidence_def error_effect_def by (auto intro!: returns)
  have composite: "returns (composite_evidence tx es rs)" for es rs
    unfolding composite_evidence_def by (intro returns)
  have raised: "returns (settled_raise ex tx call tool e)" for e
    unfolding settled_raise_def by (auto intro!: returns leaf composite split: py_exc.split)
  have returned: "returns (settled_return ex tx call tool v)" for v
    unfolding settled_return_def raw_evidence_def by (auto intro!: returns composite split: handler_return.split)
  have unsettled: "returns (unsettled_evidence tx call tool timed_out)"
    unfolding unsettled_evidence_def by (auto intro!: leaf)
  have token: "returns (cancel_token tx timed_out)"
    unfolding cancel_token_def by (auto intro!: returns elim: calm_scopes split: option.split)
  show ?thesis
    unfolding cancel_started_def
    by (intro returns token settled raised) (auto intro!: returns returned unsettled split: option.split sum.split)
qed

lemma returns_report [returns]: "returns (report ex tx call code result es status)" "returns (report_cancelled ex tx call es)"
  unfolding report_def report_cancelled_def by (intro returns)+

lemma returns_stopped [returns]: "returns (stopped ex tool call tx again)"
  unfolding stopped_def by (intro returns)

lemma returns_execute_prepared [returns]: "returns (execute_prepared ex call tool tx)"
proof -
  have over: "returns (overran ex tool call tx)" unfolding overran_def by (intro returns)
  have composite: "returns (completed_composite ex tool call tx content es rs)" for content es rs
    unfolding completed_composite_def validate_composite_content_def by (auto intro!: returns)
  have material: "returns (materialize_call ex call tx raw e)" for raw e
    unfolding materialize_call_def materialize_failed_def
    by (intro returns) (auto intro!: returns split: material_answer.split)
  have leaf: "returns (completed_leaf ex tool call tx raw)" for raw
    unfolding completed_leaf_def raw_evidence_def by (auto intro!: returns material)
  have own: "returns (own_effects tx call tool status error)" for status error
    unfolding own_effects_def by (auto intro!: returns)
  have started: "returns (run_started ex tool call tx)"
    unfolding run_started_def
    by (intro returns) (auto intro!: returns over composite leaf split: wait_end.split task_end.split handler_return.split)
  have handled: "returns (handle_exception ex tool call tx e)" for e
    by (cases e) (auto simp: handle_exception_def failed_unknown_def failed_composite_def failed_known_def contract_broken_def
        settlement_failed_def failed_otherwise_def composite_cancelled_def Let_def intro!: returns own)
  have "returns (run_before_hooks ex call tx)"
    unfolding run_before_hooks_def by (intro returns) (auto intro!: returns split: py_exc.split)
  then show ?thesis unfolding execute_prepared_def by (intro returns started handled)
qed

section \<open>Closing\<close>

lemma close_order_idle:
  assumes "calm t" "i \<in> set (close_order t sid)"
  shows "idle_at t i"
proof -
  from assms(2) obtain k q where q: "(k, q) \<in> set (t_scopes t)" "i = ln_scope (sc_lineage q)"
    by (auto simp: close_order_def descendants_def)
  with assms(1) have "dget (t_scopes t) k = Some q" by (simp add: calm_def dict_ok_get)
  with assms(1) q show ?thesis by (auto simp: idle_at_def calm_def)
qed

lemma returns_close [returns]: "returns (close_call_scope tx)"
proof -
  have finish: "returns (finish_scope i)" for i
    unfolding finish_scope_def by (intro returns returns_tree_update) (rule calm_finish)
  have wait: "each_prog wait_settled ids s = Some (Inr (), s)" if "\<forall>i \<in> set ids. idle_at (xs_tree s) i" for ids s
    using that by (induction ids) (simp_all add: seq_prog_def bind_prog_def wait_settled_def gets_def ret_def)
  have open_scope: "returns (close_open_scope sid)" for sid
  proof -
    have "\<exists>r s1. close_open_scope sid s = Some (r, s1) \<and> alone s1" if s: "alone s" for s
    proof -
      let ?s = "s\<lparr>xs_tree := close_begin sid (xs_tree s)\<rparr>"
      have a: "alone ?s" using s by (simp add: alone_def calm_begin)
      then have "\<forall>i \<in> set (close_order (xs_tree ?s) sid). idle_at (xs_tree ?s) i"
        by (auto simp: alone_def intro: close_order_idle)
      note w = wait [OF this]
      have "returns (each_prog finish_scope (close_order (xs_tree ?s) sid))" by (intro returns_each finish)
      from returnsD [OF this a] obtain r s1 where "each_prog finish_scope (close_order (xs_tree ?s) sid) ?s = Some (r, s1)" "alone s1" by blast
      with w show ?thesis
        by (cases r) (simp_all add: close_open_scope_def seq_prog_def bind_prog_def modify_def gets_def)
    qed
    then show ?thesis by (simp add: returns_def)
  qed
  show ?thesis
    unfolding close_call_scope_def
    by (auto intro!: returns returns_tree_call open_scope simp: with_scope_def split: option.splits)
qed

lemma returns_one_call: "returns (one_call ex call tx)"
proof -
  have "returns (record_batch_error ex tx call e :: 'b xprog)" for e
    unfolding record_batch_error_def by (intro returns) (auto intro!: returns split: py_exc.split)
  then show ?thesis
    unfolding one_call_def by (intro returns) (auto intro!: returns split: prepared.split)
qed

end
