(* ===== verification/BatchReturns.thy ===== *)
theory BatchReturns
  imports ExecutorReturns BatchResults BatchLaws
begin

text \<open>
  Batches end on a calm tree: one call after the other always, and calls at the same time under the schedule
  that ends the tasks in the order they were started.
\<close>

lemma calm_dset:
  assumes "calm t" "ln_scope (sc_lineage q) = i" "sc_idle q" "sc_active q = 0"
  shows "calm (t\<lparr>t_scope_next := n, t_scopes := dset i q (t_scopes t)\<rparr>)"
  using assms by (auto simp: calm_def split: if_splits)

lemma calm_child: "calm t \<Longrightarrow> child_tool uuid sid call name deadline t = Inr u \<Longrightarrow> calm u"
proof -
  have new: "calm v" if "calm w" "new_scope uuid run (Some p) depth token d c a w = Inr v" for run p depth token d c a w v
    using that by (auto simp: new_scope_def Let_def make_scope_def split: if_splits intro!: calm_upd calm_dset)
  have tokens: "calm t \<Longrightarrow> calm (t\<lparr>t_tokens := x\<rparr>)" for x by (erule calm_scopes) simp
  show "calm t \<Longrightarrow> child_tool uuid sid call name deadline t = Inr u \<Longrightarrow> calm u"
    by (auto simp: child_tool_def with_scope_def res_simps split: option.splits sum.splits prod.splits
        intro!: calm_upd dest: new [OF tokens])
qed

lemma returns_bind_model_turn [returns]: "returns (bind_model_turn sid)"
  unfolding bind_model_turn_def
  by (rule returns_tree_update) (auto simp: with_scope_def res_simps split: option.splits sum.splits)

lemma returns_child_context [returns]: "returns (child_tool_context ex tx sid call)"
  unfolding child_tool_context_def
  by (auto intro!: returns returns_tree_update intro: calm_child split: prod.split)

lemma returns_map [returns]: "(\<And>x. returns (f x)) \<Longrightarrow> returns (map_prog f xs)"
  by (induction xs) (auto intro!: returns)

lemma returns_contexts [returns]: "returns (call_contexts ex tx calls)"
  unfolding call_contexts_def by (auto intro!: returns split: option.split)

lemma returns_abort_unprocessed [returns]: "returns (abort_unprocessed ex pairs code)"
  unfolding abort_unprocessed_def by (rule returns_each) (auto intro!: returns split: prod.split)

lemma returns_batch_result [returns]: "returns (batch_result calls results es)"
  unfolding batch_result_def by (rule returns_basic)

lemma returns_serial: "returns (serial_loop ex pairs es)"
proof (induction ex pairs es rule: serial_loop.induct)
  case (2 ex call tx rest es)
  have "returns (serial_raise ex rest es e :: 'a xprog)" for e
    unfolding serial_raise_def by (auto intro!: returns split: py_exc.split)
  with 2 show ?case by (auto intro!: returns returns_one_call split: prod.split)
qed (simp add: returns_basic)

section \<open>At the same time\<close>

lemma returns_bind_from:
  assumes "returns m" "yields R m" "\<And>x. R x \<Longrightarrow> returns (f x)"
  shows "returns (bind_prog m f)"
  unfolding returns_def
proof (intro allI impI)
  fix s assume "alone s"
  then obtain r s1 where 1: "m s = Some (r, s1)" "alone s1" using returnsD [OF assms(1)] by blast
  show "\<exists>r s1. bind_prog m f s = Some (r, s1) \<and> alone s1"
  proof (cases r)
    case (Inl e)
    with 1 show ?thesis by (simp add: bind_prog_def)
  next
    case (Inr x)
    with 1 assms(2) have "R x" by (auto dest: yieldsD)
    then obtain r2 s2 where "f x s1 = Some (r2, s2)" "alone s2" using returnsD [OF assms(3) 1(2)] by blast
    with 1 Inr show ?thesis by (simp add: bind_prog_def)
  qed
qed

lemma returns_batch_error [returns]: "returns (record_batch_error ex tx call e)"
  unfolding record_batch_error_def by (intro returns) (auto intro!: returns split: py_exc.split)

lemma returns_run_job [returns]: "returns (run_job ex j)"
  unfolding run_job_def by (auto intro!: returns split: prod.split)

lemma returns_cancel_tasks [returns]: "returns (cancel_tasks ex jobs ks)"
  by (induction ks) (auto intro!: returns split: prod.split)

lemma returns_loop_raised [returns]: "returns (loop_raised ex pairs jobs sl running e)"
  unfolding loop_raised_def by (auto intro!: returns)

lemma returns_concurrent_raise [returns]: "returns (concurrent_raise ex pairs jobs sl e)"
  unfolding concurrent_raise_def task_raised_def
  by (intro returns_catch returns_loop_raised) (auto intro!: returns split: py_exc.split)

lemma returns_prepare_all [returns]: "returns (prepare_all ex pairs i todo sl)"
proof (induction ex pairs i todo sl rule: prepare_all.induct)
  case (2 ex pairs i call tx rest sl)
  have "returns (prepare_raise ex pairs call tx e :: 'a xprog)" for e
    unfolding prepare_raise_def by (auto intro!: returns split: py_exc.split)
  with 2 show ?case by (auto intro!: returns split: prod.split prepared.split)
qed (simp add: returns_basic)

text \<open>The tasks that run are those between two counters.\<close>

definition in_order :: "nat \<Rightarrow> nat \<Rightarrow> slots \<Rightarrow> bool" where
  "in_order a n sl \<longleftrightarrow> sl_running sl = [a..<sl_next sl] \<and> a \<le> sl_next sl \<and> sl_next sl \<le> n"

lemma fill_in_order:
  "in_order a n sl \<Longrightarrow> 0 < limit \<Longrightarrow> in_order a n (fill limit n sl) \<and>
     (sl_running (fill limit n sl) = [] \<longrightarrow> a = n)"
proof (induction limit n sl rule: fill.induct)
  case (1 limit n sl)
  show ?case
  proof (cases "sl_next sl < n \<and> length (sl_running sl) < limit")
    case True
    with "1.prems" have "in_order a n (sl\<lparr>sl_running := sl_running sl @ [sl_next sl], sl_next := sl_next sl + 1\<rparr>)"
      by (auto simp: in_order_def)
    with "1.IH" "1.prems" True show ?thesis by (subst (1 2) fill.simps) simp
  next
    case False
    with "1.prems" show ?thesis by (subst (1 2) fill.simps) (auto simp: in_order_def)
  qed
qed

definition first_come :: "nat \<Rightarrow> nat \<Rightarrow> nat list list" where
  "first_come a n = map (\<lambda>k. [k]) [a..<n]"

lemma returns_rounds:
  assumes "0 < ec_max_concurrency (ex_config ex)" "length jobs \<le> m"
  shows "in_order a (length jobs) sl \<Longrightarrow> (sl_running sl = [] \<Longrightarrow> a = length jobs) \<Longrightarrow>
    returns (rounds ex pairs jobs (first_come a m) sl)"
proof (induction "length jobs - a" arbitrary: a sl)
  case 0
  then have "sl_running sl = []" by (simp add: in_order_def)
  then show ?case by (simp add: rounds.simps returns_basic)
next
  case (Suc d)
  let ?n = "length jobs" and ?limit = "ec_max_concurrency (ex_config ex)"
  show ?case
  proof (cases "sl_running sl = []")
    case True
    then show ?thesis by (simp add: rounds.simps returns_basic)
  next
    case False
    with Suc.prems(1) have run: "sl_running sl = a # [Suc a..<sl_next sl]" "Suc a \<le> sl_next sl" "sl_next sl \<le> ?n"
      by (auto simp: in_order_def upt_conv_Cons)
    have sched: "first_come a m = [a] # first_come (Suc a) m"
      using run assms(2) by (simp add: first_come_def upt_conv_Cons)
    have "returns (round_loop ex pairs jobs [a] sl)" by (simp add: Let_def) (intro returns)
    moreover have "yields (in_order (Suc a) ?n) (round_loop ex pairs jobs [a] sl)"
      using run by (auto intro!: yields_bind yields_ret simp: Let_def in_order_def set_slot_def drop_running_def)
    moreover have "returns (rounds ex pairs jobs (first_come (Suc a) m) (fill ?limit ?n sl1))" if "in_order (Suc a) ?n sl1" for sl1
      using fill_in_order [OF that assms(1)] Suc.hyps(2) by (intro Suc.hyps(1)) auto
    ultimately have "returns (bind_prog (round_loop ex pairs jobs [a] sl)
        (\<lambda>sl1. rounds ex pairs jobs (first_come (Suc a) m) (fill ?limit ?n sl1)))"
      by (rule returns_bind_from)
    then show ?thesis
      using run by (subst sched, subst rounds.simps)
        (simp del: round_loop.simps, rule returns_bind, intro returns_catch returns_pause returns_loop_raised)
  qed
qed

lemma returns_concurrent:
  assumes "0 < ec_max_concurrency (ex_config ex)" "length contexts = length calls"
  shows "returns (run_concurrent ex (first_come 0 (length calls)) calls contexts)"
proof -
  let ?pairs = "zip calls contexts"
  let ?empty = "\<lparr>sl_results = map (\<lambda>_. None) calls, sl_effects = map (\<lambda>_. None) calls, sl_running = [], sl_next = 0\<rparr> :: slots"
  have prepared: "yields (\<lambda>r. length (snd r) \<le> length todo \<and> sl_next (fst r) = sl_next sl \<and> sl_running (fst r) = sl_running sl)
      (prepare_all ex pairs i todo sl)" for pairs i todo sl
  proof (induction ex pairs i todo sl rule: prepare_all.induct)
    case (2 ex pairs i call tx rest sl)
    show ?case
      unfolding prepare_all.simps
    proof (rule yields_bind)
      fix p
      show "yields (\<lambda>r. length (snd r) \<le> length ((call, tx) # rest) \<and> sl_next (fst r) = sl_next sl \<and> sl_running (fst r) = sl_running sl)
        (case p of Finished result \<Rightarrow> prepare_all ex pairs (i + 1) rest (set_slot i (result, []) sl)
         | Ready tool timeout \<Rightarrow> bind_prog (prepare_all ex pairs (i + 1) rest sl)
             (\<lambda>(sl1, jobs). ret (sl1, (i, call, tool, tx) # jobs)))"
      proof (cases p)
        case (Finished result)
        with yields_weaken [OF 2(1)] show ?thesis by (auto simp: set_slot_def)
      next
        case (Ready tool timeout)
        with 2(2) show ?thesis by (auto intro!: yields_bind_from yields_ret split: prod.split)
      qed
    qed
  qed (auto intro: yields_ret)
  have "returns (rounds ex ?pairs jobs (first_come 0 (length calls)) (fill (ec_max_concurrency (ex_config ex)) (length jobs) sl))"
    if "length jobs \<le> length ?pairs" "sl_next sl = 0" "sl_running sl = []" for sl jobs
    using that assms fill_in_order [of 0 "length jobs" sl "ec_max_concurrency (ex_config ex)"]
    by (intro returns_rounds) (auto simp: in_order_def)
  then have "returns (bind_prog (rounds ex ?pairs jobs (first_come 0 (length calls)) (fill (ec_max_concurrency (ex_config ex)) (length jobs) sl))
       (\<lambda>done_slots. batch_result calls (List.map_filter id (sl_results done_slots)) (flatten_effects (sl_effects done_slots))))"
    if "length jobs \<le> length ?pairs" "sl_next sl = 0" "sl_running sl = []" for sl jobs
    using that by (intro returns)
  then show ?thesis
    unfolding run_concurrent_def Let_def
    by (intro returns_bind_from [OF returns_prepare_all prepared]) (auto split: prod.split)
qed

lemma yields_contexts: "yields (\<lambda>cs. length cs = length calls) (call_contexts ex tx calls)"
proof -
  have "yields (\<lambda>cs. length cs = length calls) (map_prog f calls)" for f :: "tool_call \<Rightarrow> tool_context xprog"
  proof (induction calls)
    case (Cons c cs)
    then show ?case by (auto intro!: yields_bind [of "\<lambda>ds. length ds = Suc (length cs)"] yields_ret elim!: yields_bind_from)
  qed (simp add: yields_ret)
  then show ?thesis unfolding call_contexts_def by (auto intro: yields_ret split: option.split)
qed

lemma returns_execute:
  assumes "0 < ec_max_concurrency (ex_config ex)"
  shows "returns (execute_batch ex (first_come 0 (length calls)) calls tx)"
proof -
  have "returns (if all_concurrent ex calls then run_concurrent ex (first_come 0 (length calls)) calls cs
      else bind_prog (serial_loop ex (zip calls cs) []) (\<lambda>(results, es). batch_result calls results es))"
    if "length cs = length calls" for cs
    using that assms by (auto intro!: returns_concurrent returns_bind returns_serial returns_batch_result split: prod.split)
  note contexts = returns_bind_from [OF returns_contexts yields_contexts this]
  have bound: "returns (case tx_scope tx of None \<Rightarrow> ret () | Some sid \<Rightarrow> bind_model_turn sid)"
    by (simp add: returns split: option.split)
  show ?thesis
    unfolding execute_batch_def
    by (cases "length calls > ec_max_calls (ex_config ex)") (simp_all add: returns_abort returns_seq returns_check bound contexts)
qed

end
