(* ===== verification/ExecutorProps.thy ===== *)
theory ExecutorProps
  imports BatchLaws BatchResults ExecutorReturns BatchReturns
begin

text \<open>A small executor on a fresh tree: a composite tool that answers one effect, a leaf tool that never ends, a call the policy
  rejects.\<close>

definition demo_cx :: codec where
  "demo_cx = \<lparr>cx_float = (\<lambda>_. [48]), cx_sha = (\<lambda>_. [49])\<rparr>"

definition demo_tool :: "pystr \<Rightarrow> tool_effect_kind \<Rightarrow> tool" where
  "demo_tool name kind = \<lparr>tl_definition = \<lparr>td_name = name, td_description = [8], td_input_schema = []\<rparr>,
     tl_mode = CONCURRENT, tl_kind = kind, tl_reporting = (if kind = READ_ONLY then COMPOSITE else LEAF), tl_timeout = None\<rparr>"

definition demo_effect :: effect where
  "demo_effect = \<lparr>ef_call_id = [1], ef_tool_name = [5], ef_kind = READ_ONLY, ef_status = EF_SUCCEEDED,
     ef_content = Some (ToolTextContent [8] False), ef_error = None, ef_committed = False, ef_id = None, ef_certainty = CERTAIN\<rparr>"

definition demo_foreign :: foreign where
  "demo_foreign = \<lparr>fo_uuid = (\<lambda>t. replicate (Suc (sum_list (map (length \<circ> fst) (t_scopes t)))) 2),
     fo_now = (\<lambda>_. 0), fo_invalid = (\<lambda>_ _. None), fo_redactor = (\<lambda>_. None),
     fo_timeout = (\<lambda>_ _. TimeoutGives None),
     fo_policy = (\<lambda>call _ _. PolicyDecides (if tc_name call = [7] then REJECT else ALLOW) None),
     fo_approval = (\<lambda>_. ApprovalTimedOut), fo_approval_id = (\<lambda>_ _. [105]),
     fo_before = (\<lambda>_ _. []), fo_after = (\<lambda>_ _. []),
     fo_run = (\<lambda>tool call tx. if tc_name call = [6] then WaitTimedOut
       else WaitDone (TaskReturns (CompositeReturn [] [demo_effect] []))),
     fo_settle = (\<lambda>_ _ _ _. SettleTimedOut), fo_material = (\<lambda>raw call tx. MaterialGives [])\<rparr>"

definition demo_executor :: executor where
  "demo_executor = \<lparr>ex_config = \<lparr>ec_max_calls = 4, ec_max_concurrency = 2, ec_default_timeout = None, ec_grace = 2, ec_max_error = 64\<rparr>,
     ex_registry = \<lparr>rg_tools = [([5], demo_tool [5] READ_ONLY), ([6], demo_tool [6] SIDE_EFFECTING)], rg_sealed = True\<rparr>,
     ex_events = False, ex_provider = False, ex_codec = demo_cx, ex_foreign = demo_foreign\<rparr>"

definition demo_tree :: tree where
  "demo_tree = (case new_tree [3] [4] 0 None \<lparr>bc_agent_depth = 1, bc_child_runs = 1, bc_nested_calls = 4\<rparr> 4 16
     [new_token None] of Inr t \<Rightarrow> t | Inl _ \<Rightarrow> undefined)"

definition demo_state :: xstate where
  "demo_state = \<lparr>xs_tree = demo_tree, xs_cancelled = False, xs_events = [], xs_script = []\<rparr>"

definition demo_context :: tool_context where
  "demo_context = \<lparr>tx_run = [4], tx_session = [6], tx_token = Some 0, tx_scope = Some [3], tx_message = None, tx_snapshot = None\<rparr>"

definition demo_call :: "pystr \<Rightarrow> tool_call" where
  "demo_call name = \<lparr>tc_id = [1], tc_name = name, tc_arguments = []\<rparr>"

lemma demo_plain: "plain_foreign (ex_foreign demo_executor)"
  by (simp add: demo_executor_def demo_foreign_def plain_foreign_def)

lemma demo_unused: "unused_ids (ex_foreign demo_executor)"
proof -
  have "replicate (Suc (sum_list (map (length \<circ> fst) d))) 2 \<notin> dkeys d" for d :: "(pystr \<times> scope) list"
  proof
    assume "replicate (Suc (sum_list (map (length \<circ> fst) d))) 2 \<in> dkeys d"
    then obtain p where "p \<in> set d" "fst p = replicate (Suc (sum_list (map (length \<circ> fst) d))) 2" by force
    then have "Suc (sum_list (map (length \<circ> fst) d)) \<le> sum_list (map (length \<circ> fst) d)"
      using member_le_sum_list [of "length (fst p)" "map (length \<circ> fst) d"] by force
    then show False by simp
  qed
  then show ?thesis by (simp add: unused_ids_def demo_executor_def demo_foreign_def)
qed

lemma demo_alone: "alone demo_state"
  by (simp add: alone_def demo_state_def demo_tree_def calm_def new_tree_def new_scope_def Let_def lineage_ok_def make_scope_def dict_ok_def)


text \<open>
  What holds of the executor: a call ends, records itself and freezes its scope; what a call or a batch
  reports is in the ledger; a concurrent batch is complete; an unsettled side effect forbids a retry.
\<close>

section \<open>A call\<close>

definition reported :: "py_exc + tool_execution_result \<times> effect list \<Rightarrow> effect list" where
  "reported r = (case r of Inl e \<Rightarrow> exc_effects e | Inr (_, es) \<Rightarrow> es)"

definition ends_reported :: "py_exc + 'a \<Rightarrow> bool" where
  "ends_reported r \<longleftrightarrow> (case r of Inl e \<Rightarrow> batch_report e | Inr _ \<Rightarrow> True)"

lemma yields_one_call: "yields (\<lambda>r. names call (fst r)) (one_call ex call tx)"
proof -
  have error: "yields Q (record_batch_error ex tx call e)" for Q e
    unfolding record_batch_error_def by (intro yields_rules)
  have "yields (\<lambda>r. names call (fst r)) (case p of Finished result \<Rightarrow> ret (result, []) | Ready tool timeout \<Rightarrow> execute_prepared ex call tool tx)"
    if "finished_names call p" for p
    using that unfolding execute_prepared_def
    by (cases p) (auto simp: finished_names_def intro!: yields_ret yields_catch yields_seq yields_run_started yields_handle)
  from yields_bind_from [OF yields_prepare this] show ?thesis
    unfolding one_call_def by (intro yields_finally yields_catch error)
qed

text \<open>
  C21. A call that ends with a result or with the report of a batch has contributed every effect it reports
  to the ledger of its tree, has its terminal record, and has frozen its scope; a result names the call.
\<close>

theorem call_settled:
  assumes "plain_foreign (ex_foreign ex)" "tx_scope tx = Some sid" "known_scope sid (xs_tree s)" "fresh_ids (xs_tree s)"
    and "list_all (tame (ex_codec ex)) (xs_script s)"
    and run: "one_call ex call tx s = Some (r, s1)" and "ends_reported r"
  shows "(\<forall>e \<in> set (reported r). stored (xs_tree s1) e) \<and> recorded sid (xs_tree s1) \<and> frozen_at sid (xs_tree s1)
    \<and> (\<forall>result es. r = Inr (result, es) \<longrightarrow> names call result)"
proof -
  let ?cx = "ex_codec ex" and ?P = "known_scope sid"
  have P: "steady ?cx ?P" by (rule steady_known)
  have start: "under ?cx ?P s" using assms(3-5) by (simp add: under_def)
  have "holds (under ?cx (keeps ?P [])) (one_call ex call tx) (\<lambda>r. under ?cx (keeps ?P (snd r))) (\<lambda>e. under ?cx (keeps ?P (exc_effects e)))"
    by (rule reportsD [OF reports_one_call [OF assms(1,2)] P])
  with start run have "\<forall>e \<in> set (reported r). stored (xs_tree s1) e"
    by (cases r) (auto simp: holds_def under_def keeps_def reported_def)
  moreover from one_call_records [OF assms(1,2) P, of call] start run assms(7)
  have "recorded sid (xs_tree s1) \<and> frozen_at sid (xs_tree s1)"
    by (cases r) (auto simp: holds_def under_def ends_reported_def)
  moreover have "\<forall>result es. r = Inr (result, es) \<longrightarrow> names call result"
    using yieldsD [OF yields_one_call] run by fastforce
  ultimately show ?thesis by blast
qed

lemma demo_known: "known_scope [3] (xs_tree demo_state)"
  by (simp add: known_scope_def demo_state_def demo_tree_def new_tree_def new_scope_def Let_def lineage_ok_def make_scope_def)

lemma demo_state_fresh: "fresh_ids (xs_tree demo_state)"
  by (simp add: fresh_ids_def demo_state_def demo_tree_def new_tree_def new_scope_def Let_def lineage_ok_def)

lemma demo_script: "list_all P (xs_script demo_state)"
  by (simp add: demo_state_def)

lemma demo_one: "case one_call demo_executor (demo_call [5]) demo_context demo_state of
    Some (Inr r, _) \<Rightarrow> length (snd r) = 1 | _ \<Rightarrow> False"
  by code_simp

lemma call_settled_witness:
  "\<exists>result es s1. one_call demo_executor (demo_call [5]) demo_context demo_state = Some (Inr (result, es), s1) \<and> length es = 1
     \<and> (\<forall>e \<in> set (reported (Inr (result, es))). stored (xs_tree s1) e) \<and> recorded [3] (xs_tree s1) \<and> frozen_at [3] (xs_tree s1)"
proof -
  obtain result es s1 where r: "one_call demo_executor (demo_call [5]) demo_context demo_state = Some (Inr (result, es), s1)"
    "length es = 1"
    using demo_one by (auto split: option.splits sum.splits)
  with call_settled [OF demo_plain _ demo_known demo_state_fresh demo_script r(1)] show ?thesis
    by (simp add: demo_context_def ends_reported_def)
qed

section \<open>Batches\<close>



text \<open>
  C23. Whatever a batch reports, as its answer or with the exception that ends it, is in the ledger of its
  tree: for calls one after the other and at the same time, under every schedule, and whatever other tasks do
  to the tree in between.
\<close>

theorem batch_accounted:
  assumes "plain_foreign (ex_foreign ex)" "unused_ids (ex_foreign ex)" "tx_scope tx = Some sid" "fresh_ids (xs_tree s)"
    and "list_all (tame (ex_codec ex)) (xs_script s)" "execute_batch ex schedule calls tx s = Some (r, s1)"
  shows "\<forall>e \<in> set (case r of Inl x \<Rightarrow> exc_effects x | Inr (_, _, es) \<Rightarrow> es). stored (xs_tree s1) e"
  using execute_batch_reports [OF assms(1-3), of "\<lambda>_. True" schedule calls] assms(4-6)
  by (cases r) (auto simp: holds_def under_def keeps_def steady_def)

lemma demo_batch: "case execute_batch demo_executor [[1], [0]] [demo_call [5], demo_call [5]] demo_context demo_state of
    Some (Inr (calls, results, es), _) \<Rightarrow> length es = 2 | _ \<Rightarrow> False"
  by code_simp

lemma batch_accounted_witness:
  "\<exists>calls results es s1. execute_batch demo_executor [[1], [0]] [demo_call [5], demo_call [5]] demo_context demo_state
       = Some (Inr (calls, results, es), s1) \<and> length es = 2 \<and> (\<forall>e \<in> set es. stored (xs_tree s1) e)"
proof -
  obtain calls results es s1 where r: "execute_batch demo_executor [[1], [0]] [demo_call [5], demo_call [5]] demo_context demo_state
      = Some (Inr (calls, results, es), s1)" "length es = 2"
    using demo_batch by (auto split: option.splits sum.splits)
  with batch_accounted [OF demo_plain demo_unused _ demo_state_fresh demo_script r(1)] show ?thesis
    by (simp add: demo_context_def)
qed

text \<open>The same batch without the check of its answer.\<close>

definition unchecked_concurrent ::
  "executor \<Rightarrow> nat list list \<Rightarrow> tool_call list \<Rightarrow> tool_context list \<Rightarrow> batch xprog" where
  "unchecked_concurrent ex schedule calls contexts =
     (let pairs = zip calls contexts;
          empty = \<lparr>sl_results = map (\<lambda>_. None) calls, sl_effects = map (\<lambda>_. None) calls, sl_running = [], sl_next = 0\<rparr>
      in bind_prog (prepare_all ex pairs 0 pairs empty) (\<lambda>(sl, jobs).
         bind_prog (rounds ex pairs jobs schedule (fill (ec_max_concurrency (ex_config ex)) (length jobs) sl)) (\<lambda>done_slots.
         ret (calls, List.map_filter id (sl_results done_slots), flatten_effects (sl_effects done_slots)))))"

lemma bind_yields_cong:
  assumes "yields R m" "\<And>x. R x \<Longrightarrow> f x = g x"
  shows "bind_prog m f = bind_prog m g"
proof
  fix s
  show "bind_prog m f s = bind_prog m g s"
  proof (cases "m s")
    case (Some p)
    then show ?thesis
      using yieldsD [OF assms(1), of s] assms(2) by (cases p; cases "fst p") (auto simp: bind_prog_def)
  qed (simp add: bind_prog_def)
qed

text \<open>
  C24. The answer of a concurrent batch needs no check: under every schedule each call has exactly one result,
  in the order of the calls, named after it; the program without the check is the same program.
\<close>

theorem concurrent_batch_complete:
  assumes "length contexts = length calls" "0 < ec_max_concurrency (ex_config ex)"
  shows "run_concurrent ex schedule calls contexts = unchecked_concurrent ex schedule calls contexts"
proof -
  let ?pairs = "zip calls contexts" and ?limit = "ec_max_concurrency (ex_config ex)"
  let ?empty = "\<lparr>sl_results = map (\<lambda>_. None) calls, sl_effects = map (\<lambda>_. None) calls, sl_running = [], sl_next = 0\<rparr> :: slots"
  have "yields (\<lambda>r. jobs_of calls (snd r) \<and> length (sl_results (fst r)) = length calls \<and> sl_next (fst r) = 0
      \<and> sl_running (fst r) = [] \<and> (\<forall>k < 0. sl_results (fst r) ! k = sl_results ?empty ! k)
      \<and> (\<forall>k. 0 \<le> k \<and> k < length calls \<longrightarrow> filled calls (fst r) k \<or> k \<in> fst ` set (snd r))) (prepare_all ex ?pairs 0 ?pairs ?empty)"
    using assms(1) by (intro prepare_all_slots) simp_all
  then have prepared: "yields (\<lambda>r. jobs_of calls (snd r) \<and> slots_ok calls (snd r) (fst r)) (prepare_all ex ?pairs 0 ?pairs ?empty)"
    by (rule yields_weaken) (auto simp: slots_ok_def in_set_conv_nth image_iff Bex_def, metis fst_conv)
  have rounds: "bind_prog (rounds ex ?pairs jobs schedule (fill ?limit (length jobs) sl))
        (\<lambda>d. batch_result calls (List.map_filter id (sl_results d)) (flatten_effects (sl_effects d)))
      = bind_prog (rounds ex ?pairs jobs schedule (fill ?limit (length jobs) sl))
        (\<lambda>d. ret (calls, List.map_filter id (sl_results d), flatten_effects (sl_effects d)))"
    if "jobs_of calls jobs" "slots_ok calls jobs sl" for jobs sl
  proof (rule bind_yields_cong)
    show "yields (\<lambda>d. slots_ok calls jobs d \<and> sl_running d = [] \<and> sl_next d = length jobs)
        (rounds ex ?pairs jobs schedule (fill ?limit (length jobs) sl))"
      using fill_slots_ok [OF that(2), of ?limit] assms(2) by (intro yields_rounds [OF that(1) assms(2)]) simp_all
  qed (simp add: batch_result_def batch_complete [of calls jobs] value_or_error_def of_sum_def ret_def fun_eq_iff)
  show ?thesis
    unfolding run_concurrent_def unchecked_concurrent_def Let_def
    by (rule bind_yields_cong [OF prepared]) (auto simp: rounds split: prod.split)
qed

lemma concurrent_batch_complete_witness:
  "run_concurrent demo_executor [[0]] [demo_call [5]] [demo_context] = unchecked_concurrent demo_executor [[0]] [demo_call [5]] [demo_context]"
  by (rule concurrent_batch_complete) (simp_all add: demo_executor_def)

section \<open>What could not be settled\<close>

definition interrupts_only :: "xstate \<Rightarrow> bool" where
  "interrupts_only s \<longleftrightarrow> list_all (\<lambda>i. il_raise i \<in> {None, Some TaskCancelled}) (xs_script s)"

lemma effect_of_answers:
  "effect_of tx call tool status content error s = Some (Inr e, s1) \<Longrightarrow>
     ef_kind e = tl_kind tool \<and> ef_status e = status \<and> ef_certainty e = certainty_for status"
  by (auto simp: effect_of_def bind_prog_def tree_call_def ret_def value_or_error_def of_sum_def make_effect_def Let_def
      split: option.splits sum.splits prod.splits if_splits)

lemma settled_answers:
  assumes "interrupts_only s" "settle_of ex tool call tx again = SettleTimedOut"
    and "catch_prog (bind_prog (await_settled ex tool call tx again) (\<lambda>r. ret (map_option Inl r)))
      (\<lambda>e. bind_prog (settled_raise ex tx call tool e) (\<lambda>v. ret (map_option Inr v))) s = Some (Inr r, s1)"
  shows "r = None"
  using assms
  by (auto simp: catch_prog_def bind_prog_def seq_prog_def await_settled_def gets_def pause_def ret_def throw_def interrupts_only_def
      settled_raise_def is_timeout_error_def split: list.splits option.splits sum.splits prod.splits if_splits)

text \<open>
  C25. A side-effecting leaf tool that was cancelled or timed out and does not settle within the grace period
  leaves exactly one effect, of unknown outcome, and with it no retry of the batch is safe.
\<close>

theorem unsettled_forbids_retry:
  assumes "tl_kind tool = SIDE_EFFECTING" "tl_reporting tool = LEAF"
    and "settle_of ex tool call tx again = SettleTimedOut" "interrupts_only s"
    and "cancel_started ex tool call tx timed_out again s = Some (Inr (es, rs), s1)"
  shows "\<exists>e. es = [e] \<and> ef_status e = EF_UNKNOWN \<and> \<not> retry_safe (earlier @ es @ later) blockers"
proof -
  let ?wait = "catch_prog (bind_prog (await_settled ex tool call tx again) (\<lambda>r. ret (map_option Inl r)))
      (\<lambda>e. bind_prog (settled_raise ex tx call tool e) (\<lambda>v. ret (map_option Inr v)))"
  obtain s0 where s0: "cancel_token tx timed_out s = Some (Inr (), s0)" "xs_script s0 = xs_script s"
    by (cases "tx_scope tx"; cases "tx_token tx") (auto simp: cancel_token_def modify_def ret_def)
  with assms(5) obtain r s2 where w: "?wait s0 = Some (Inr r, s2)"
    by (auto simp: cancel_started_def seq_prog_def bind_prog_def split: option.splits sum.splits prod.splits)
  have "interrupts_only s0" using assms(4) s0(2) by (simp add: interrupts_only_def)
  from settled_answers [OF this assms(3) w] have "r = None" .
  with assms(5) s0(1) w have "unsettled_evidence tx call tool timed_out s2 = Some (Inr (es, rs), s1)"
    by (simp add: cancel_started_def seq_prog_def bind_prog_def)
  then obtain e s3 s4 error where "es = [e]" "effect_of tx call tool EF_UNKNOWN None error s3 = Some (Inr e, s4)"
    using assms(1,2)
    by (auto simp: unsettled_evidence_def leaf_evidence_def error_effect_def bind_prog_def ret_def
        split: option.splits sum.splits prod.splits if_splits)
  with effect_of_answers [OF this(2)] assms(1) show ?thesis
    by (auto simp: retry_safe_def retry_blocking_def)
qed

lemma join_with_nonempty: "x \<noteq> [] \<Longrightarrow> join_with sep (x # xs) \<noteq> []"
  by (cases xs) simp_all

lemma demo_timeout_error:
  "\<exists>x. tool_error ''timeout'' ''Tool execution timed out; its side effect could not be determined.'' = Inr x \<and> te_code x = ascii ''timeout''"
  by (simp add: tool_error_def make_tool_error_def error_code_ok_def ascii_def normalize_error_message_def)
    (subst split_ws.simps, simp add: lstrip_def py_space_def join_with_nonempty)

lemma unsettled_forbids_retry_witness:
  "\<exists>es rs s1. cancel_started demo_executor (demo_tool [6] SIDE_EFFECTING) (demo_call [6]) demo_context True False demo_state
       = Some (Inr (es, rs), s1) \<and> length es = 1 \<and> \<not> retry_safe es []"
proof -
  let ?t = "demo_tool [6] SIDE_EFFECTING" and ?c = "demo_call [6]"
  have tool: "tl_kind ?t = SIDE_EFFECTING" "tl_reporting ?t = LEAF" by (simp_all add: demo_tool_def)
  have settle: "settle_of demo_executor ?t ?c demo_context False = SettleTimedOut"
    by (simp add: settle_of_def demo_executor_def demo_foreign_def demo_call_def)
  have only: "interrupts_only demo_state" by (simp add: interrupts_only_def demo_state_def)
  have "\<exists>es rs s1. cancel_started demo_executor ?t ?c demo_context True False demo_state = Some (Inr (es, rs), s1)"
    using demo_timeout_error settle
    by (auto simp: cancel_started_def cancel_token_def await_settled_def settling_def unsettled_evidence_def leaf_evidence_def
        error_effect_def effect_of_def next_effect_id_def with_scope_def tree_call_def make_effect_def
        certainty_for_def value_or_error_def of_sum_def pause_def gets_def modify_def bind_prog_def seq_prog_def catch_prog_def
        ret_def tool demo_context_def demo_call_def demo_state_def demo_tree_def new_tree_def new_scope_def Let_def lineage_ok_def
        make_scope_def)
  then obtain es rs s1 where r: "cancel_started demo_executor ?t ?c demo_context True False demo_state = Some (Inr (es, rs), s1)"
    by blast
  from unsettled_forbids_retry [OF tool settle only r, of "[]" "[]" "[]"] r show ?thesis by auto
qed

text \<open>
  C26. When a task of a concurrent batch ends with the cancellation of the batch, the effects it brings are
  lost: what the batch then raises carries at most the effects of the calls that had ended before.
\<close>

theorem cancelled_task_effects_dropped:
  fixes r :: "py_exc + 'r"
  assumes "plain_foreign (ex_foreign ex)" "jobs_scoped jobs" "running_ok (length jobs) sl"
    and "fresh_ids (xs_tree s)" "list_all (tame (ex_codec ex)) (xs_script s)"
    and "concurrent_raise ex pairs jobs sl (BatchCancelled es) s = Some (r, s1)"
  shows "\<exists>e. r = Inl e \<and> set (exc_effects e) \<subseteq> set (flatten_effects (sl_effects sl))"
proof -
  let ?U = "under (ex_codec ex) (\<lambda>_. True)" and ?F = "flatten_effects (sl_effects sl)"
  have T: "steady (ex_codec ex) (\<lambda>_. True)" by (simp add: steady_def)
  have abort: "holds ?U (abort_unprocessed ex pairs ''cancelled'') (\<lambda>_. ?U) (\<lambda>e s. ?U s \<and> exc_effects e = [])"
    by (rule quietD [OF quiet_abort_unprocessed T])
  have "holds ?U (cancel_tasks ex jobs (sl_running sl)) (\<lambda>fs. ?U) (\<lambda>_ _. False)"
    using cancel_tasks_reports [OF assms(1,2) _ T, of "sl_running sl" "[]"] assms(3)
    by (simp add: running_ok_def) (erule holds_post, auto simp: under_def)
  then have "holds ?U (task_raised ex pairs jobs sl (BatchCancelled es) :: 'r xprog) (\<lambda>_ _. False)
      (\<lambda>x s. ?U s \<and> (is_cancelled_error x \<or> exc_effects x = []))" (is "holds ?U ?m _ ?E")
    unfolding task_raised_def
    by (auto intro!: holds_bind holds_seq holds_throw intro: holds_post [OF abort] elim!: holds_post)
  moreover have "holds (?E x) (loop_raised ex pairs jobs sl [] x :: 'r xprog) (\<lambda>_ _. False) (\<lambda>e _. set (exc_effects e) \<subseteq> set ?F)" for x
  proof (cases "is_cancelled_error x")
    case True
    have "holds ?U (seq_prog (abort_unprocessed ex pairs ''cancelled'') (throw (BatchCancelled ?F)) :: 'r xprog) (\<lambda>_ _. False)
        (\<lambda>e _. set (exc_effects e) \<subseteq> set ?F)"
      by (auto intro!: holds_seq holds_throw intro: holds_post [OF abort])
    with True show ?thesis by (auto simp: loop_raised_def holds_def bind_prog_def ret_def)
  next
    case False
    then show ?thesis by (auto simp: loop_raised_def intro!: holds_throw)
  qed
  ultimately have "holds ?U (concurrent_raise ex pairs jobs sl (BatchCancelled es) :: 'r xprog) (\<lambda>_ _. False)
      (\<lambda>e _. set (exc_effects e) \<subseteq> set ?F)"
    unfolding concurrent_raise_def by (auto intro: holds_catch)
  then show ?thesis using assms(4-6) by (cases r) (fastforce simp: holds_def under_def)+
qed

lemma cancelled_task_effects_dropped_witness:
  "\<exists>e s1. concurrent_raise demo_executor [] [] \<lparr>sl_results = [], sl_effects = [], sl_running = [], sl_next = 0\<rparr>
       (BatchCancelled [demo_effect]) demo_state
       = (Some (Inl e, s1) :: ((py_exc + unit) \<times> xstate) option) \<and> exc_effects e = []"
proof -
  let ?sl = "\<lparr>sl_results = [], sl_effects = [], sl_running = [], sl_next = 0\<rparr>"
  obtain r s1 where r: "concurrent_raise demo_executor [] [] ?sl (BatchCancelled [demo_effect]) demo_state
      = Some (r :: py_exc + unit, s1)"
    using returnsD [OF returns_concurrent_raise demo_alone] by blast
  have "jobs_scoped []" "running_ok (length ([] :: job list)) ?sl" by (simp_all add: jobs_scoped_def running_ok_def)
  from cancelled_task_effects_dropped [OF demo_plain this demo_state_fresh demo_script r] r show ?thesis
    by (auto simp: flatten_effects_def List.map_filter_simps)
qed

end
