(* ===== verification/Workspace.thy ===== *)
theory Workspace
  imports ToolTypes
begin

text \<open>
  The artifact workspace (\<open>roboagent/tool/workspace.py\<close>): normalized paths, workspace addresses, the
  workspace in memory and the reading of an artifact. Each operation of a workspace holds its lock from
  the first read of the items to the last write, so it is one step on them. The hash is a parameter.
\<close>

datatype workspace_error =
    WorkspacePermission string
  | WorkspaceMissing
  | WorkspaceArtifactMissing
  | WorkspaceBroken string
  | WorkspaceValueError string

section \<open>Paths\<close>

text \<open>\<open>PurePosixPath(p).parts\<close> of a relative path, with the parts \<open>as_posix\<close> joins.\<close>

definition posix_parts :: "pystr \<Rightarrow> pystr list" where
  "posix_parts p = filter (\<lambda>s. s \<noteq> [] \<and> s \<noteq> [46]) (split_on 47 p)"

definition as_posix :: "pystr list \<Rightarrow> pystr" where
  "as_posix parts = (if parts = [] then [46] else join_with [47] parts)"

definition normalize_workspace_path :: "bool \<Rightarrow> pystr \<Rightarrow> workspace_error + pystr" where
  "normalize_workspace_path allow_root p =
     (if p = [] \<or> 92 \<in> set p \<or> 0 \<in> set p then Inl (WorkspacePermission ''Invalid workspace path.'')
      else if starts_with [47] p \<or> [46, 46] \<in> set (posix_parts p)
      then Inl (WorkspacePermission ''Workspace path escapes its root.'')
      else if as_posix (posix_parts p) = [46] \<and> \<not> allow_root
      then Inl (WorkspacePermission ''Workspace root is not a file.'')
      else Inr (as_posix (posix_parts p)))"

section \<open>Addresses\<close>

text \<open>
  \<open>urlparse\<close> of an address, as far as a workspace address needs it: leading controls and blanks are
  dropped and tabs and line ends removed; a scheme is a letter followed by scheme characters before a
  colon, in lower case. A host in brackets is refused here where the library checks it first: no such
  host is one of the two that are allowed.
\<close>

record url_parts =
  up_scheme :: pystr
  up_netloc :: pystr
  up_path :: pystr
  up_query :: pystr
  up_fragment :: pystr

definition letter :: "nat \<Rightarrow> bool" where
  "letter c \<longleftrightarrow> (65 \<le> c \<and> c \<le> 90) \<or> (97 \<le> c \<and> c \<le> 122)"

definition scheme_char :: "nat \<Rightarrow> bool" where
  "scheme_char c \<longleftrightarrow> letter c \<or> (48 \<le> c \<and> c \<le> 57) \<or> c = 43 \<or> c = 45 \<or> c = 46"

definition lower :: "nat \<Rightarrow> nat" where
  "lower c = (if 65 \<le> c \<and> c \<le> 90 then c + 32 else c)"

definition before :: "nat list \<Rightarrow> pystr \<Rightarrow> pystr" where
  "before seps = takeWhile (\<lambda>c. c \<notin> set seps)"

definition after :: "nat list \<Rightarrow> pystr \<Rightarrow> pystr" where
  "after seps s = dropWhile (\<lambda>c. c \<notin> set seps) s"

definition split_scheme :: "pystr \<Rightarrow> pystr \<times> pystr" where
  "split_scheme u =
     (let s = before [58] u in
      if 58 \<in> set u \<and> s \<noteq> [] \<and> letter (hd s) \<and> list_all scheme_char s
      then (map lower s, tl (after [58] u)) else ([], u))"

definition url_parse :: "pystr \<Rightarrow> url_parts" where
  "url_parse u0 =
     (let u = filter (\<lambda>c. c \<notin> {9, 10, 13}) (dropWhile (\<lambda>c. c \<le> 32) u0);
          (scheme, rest) = split_scheme u;
          (netloc, rest1) = (if starts_with [47, 47] rest
             then (before [47, 63, 35] (drop 2 rest), after [47, 63, 35] (drop 2 rest)) else ([], rest));
          fragment = tl (after [35] rest1);
          rest2 = before [35] rest1;
          query = tl (after [63] rest2)
      in \<lparr>up_scheme = scheme, up_netloc = netloc, up_path = before [63] rest2, up_query = query,
          up_fragment = fragment\<rparr>)"

text \<open>The rule of \<open>workspace_path\<close> and of the constructor of an artifact reference.\<close>

definition artifact_uri_ok :: "pystr \<Rightarrow> bool" where
  "artifact_uri_ok u =
     (let p = url_parse u in
        up_scheme p = ascii ''workspace'' \<and> up_netloc p \<in> {ascii ''blobs'', ascii ''files''}
        \<and> up_query p = [] \<and> up_fragment p = [] \<and> 37 \<notin> set u \<and> \<not> has_pair 47 47 (up_path p)
        \<and> list_all (\<lambda>s. s \<notin> {[], [46], [46, 46]}) (tl (split_on 47 (up_path p))))"

definition workspace_uri :: "pystr \<Rightarrow> workspace_error + pystr" where
  "workspace_uri path =
     bind_res (normalize_workspace_path False path) (\<lambda>normalized. Inr (ascii ''workspace://'' @ normalized))"

definition workspace_path :: "pystr \<Rightarrow> workspace_error + pystr" where
  "workspace_path uri =
     (if \<not> artifact_uri_ok uri then Inl (WorkspacePermission ''Invalid workspace artifact URI.'')
      else normalize_workspace_path False (up_netloc (url_parse uri) @ up_path (url_parse uri)))"

section \<open>The workspace in memory\<close>

record workspace_entry =
  we_path :: pystr
  we_size :: nat
  we_media_type :: "pystr option"
  we_digest :: "pystr option"

type_synonym workspace_items = "(pystr, bytes \<times> pystr option) dict"

definition make_entry :: "pystr \<Rightarrow> nat \<Rightarrow> pystr option \<Rightarrow> pystr option \<Rightarrow> workspace_error + workspace_entry" where
  "make_entry path n media_type digest =
     bind_res (normalize_workspace_path False path) (\<lambda>normalized.
       Inr \<lparr>we_path = normalized, we_size = n, we_media_type = media_type, we_digest = digest\<rparr>)"

definition digest_text :: "(bytes \<Rightarrow> pystr) \<Rightarrow> bytes \<Rightarrow> pystr" where
  "digest_text sha data = ascii ''sha256:'' @ sha data"

definition entry_of :: "(bytes \<Rightarrow> pystr) \<Rightarrow> pystr \<Rightarrow> bytes \<Rightarrow> pystr option \<Rightarrow> workspace_error + workspace_entry" where
  "entry_of sha path data media_type = make_entry path (length data) media_type (Some (digest_text sha data))"

definition blob_prefix :: pystr where
  "blob_prefix = ascii ''blobs/sha256/''"

definition ws_read :: "pystr \<Rightarrow> workspace_items \<Rightarrow> workspace_error + bytes" where
  "ws_read path items = bind_res (normalize_workspace_path False path) (\<lambda>key.
     case dget items key of None \<Rightarrow> Inl WorkspaceMissing | Some (data, _) \<Rightarrow> Inr data)"

definition ws_write ::
  "(bytes \<Rightarrow> pystr) \<Rightarrow> pystr \<Rightarrow> bytes \<Rightarrow> pystr option \<Rightarrow> workspace_items
     \<Rightarrow> (workspace_error + workspace_entry) \<times> workspace_items" where
  "ws_write sha path data media_type items = (case normalize_workspace_path False path of
     Inl e \<Rightarrow> (Inl e, items)
   | Inr key \<Rightarrow>
       if starts_with blob_prefix key \<and> (case dget items key of None \<Rightarrow> False | Some (d, _) \<Rightarrow> d \<noteq> data)
       then (Inl (WorkspaceBroken ''Digest-addressed blobs are immutable.''), items)
       else (entry_of sha key data media_type, dset key (data, media_type) items))"

definition ws_stat :: "(bytes \<Rightarrow> pystr) \<Rightarrow> pystr \<Rightarrow> workspace_items \<Rightarrow> workspace_error + workspace_entry" where
  "ws_stat sha path items = bind_res (normalize_workspace_path False path) (\<lambda>key.
     case dget items key of None \<Rightarrow> Inl WorkspaceMissing
     | Some (data, media_type) \<Rightarrow> entry_of sha key data media_type)"

definition rstrip_slash :: "pystr \<Rightarrow> pystr" where
  "rstrip_slash s = rev (dropWhile (\<lambda>c. c = 47) (rev s))"

definition ws_list :: "(bytes \<Rightarrow> pystr) \<Rightarrow> pystr \<Rightarrow> workspace_items \<Rightarrow> workspace_error + workspace_entry list" where
  "ws_list sha path items = bind_res (normalize_workspace_path True path) (\<lambda>p.
     let prefix = (if p = [46] then [] else rstrip_slash p @ [47]) in
     map_res (\<lambda>(key, data, media_type). entry_of sha key data media_type)
       (filter (\<lambda>(key, _). starts_with prefix key) (sort_key fst items)))"

definition ws_delete :: "pystr \<Rightarrow> workspace_items \<Rightarrow> workspace_error + workspace_items" where
  "ws_delete path items = bind_res (normalize_workspace_path False path) (\<lambda>key.
     if starts_with blob_prefix key
     then Inl (WorkspacePermission ''Digest-addressed blobs cannot be deleted directly.'')
     else if key \<notin> dkeys items then Inl WorkspaceMissing else Inr (AList.delete key items))"

section \<open>Artifacts\<close>

definition read_artifact :: "(bytes \<Rightarrow> pystr) \<Rightarrow> workspace_items \<Rightarrow> artifact_ref \<Rightarrow> workspace_error + bytes" where
  "read_artifact sha items a = bind_res (workspace_path (ar_uri a)) (\<lambda>path.
     (case ws_read path items of
        Inl WorkspaceMissing \<Rightarrow> Inl WorkspaceArtifactMissing
      | Inl e \<Rightarrow> Inl e
      | Inr data \<Rightarrow> if length data \<noteq> ar_size a \<or> digest_text sha data \<noteq> ar_digest a
          then Inl (WorkspaceBroken ''Workspace artifact integrity check failed.'') else Inr data))"

text \<open>\<open>iter_bytes\<close> over a workspace that is not on disk: the chunks in order.\<close>

function chunks :: "nat \<Rightarrow> bytes \<Rightarrow> bytes list" where
  "chunks n data = (if data = [] \<or> n = 0 then [] else take n data # chunks n (drop n data))"
  by pat_completeness auto
termination
  by (relation "measure (length \<circ> snd)") auto

declare chunks.simps [simp del]

definition iter_bytes :: "workspace_items \<Rightarrow> artifact_ref \<Rightarrow> int \<Rightarrow> workspace_error + bytes list" where
  "iter_bytes items a chunk_size =
     (if chunk_size \<le> 0 then Inl (WorkspaceValueError ''chunk_size must be positive.'')
      else bind_res (workspace_path (ar_uri a)) (\<lambda>path.
        bind_res (ws_read path items) (\<lambda>data. Inr (chunks (nat chunk_size) data))))"

text \<open>The writer of an artifact for a workspace that is not on disk.\<close>

record artifact_writer =
  aw_media_type :: "pystr option"
  aw_data :: bytes
  aw_published :: bool
  aw_aborted :: bool

definition create_temp :: "pystr option \<Rightarrow> artifact_writer" where
  "create_temp media_type = \<lparr>aw_media_type = media_type, aw_data = [], aw_published = False, aw_aborted = False\<rparr>"

definition writer_write :: "bytes \<Rightarrow> artifact_writer \<Rightarrow> workspace_error + artifact_writer" where
  "writer_write chunk w =
     (if aw_published w \<or> aw_aborted w then Inl (WorkspaceBroken ''ArtifactWriter is not writable.'')
      else Inr (w\<lparr>aw_data := aw_data w @ chunk\<rparr>))"

text \<open>\<open>artifact\<close> is the constructor of an artifact reference.\<close>

definition writer_publish ::
  "(bytes \<Rightarrow> pystr) \<Rightarrow> (pystr \<Rightarrow> pystr option \<Rightarrow> nat \<Rightarrow> pystr \<Rightarrow> workspace_error + artifact_ref)
     \<Rightarrow> artifact_writer \<Rightarrow> workspace_items
     \<Rightarrow> (workspace_error + artifact_ref) \<times> artifact_writer \<times> workspace_items" where
  "writer_publish sha artifact w items =
     (if aw_published w \<or> aw_aborted w
      then (Inl (WorkspaceBroken ''ArtifactWriter is already settled.''), w, items)
      else
        let data = aw_data w; path = blob_prefix @ sha data in
        (case ws_write sha path data (aw_media_type w) items of
           (Inl e, items1) \<Rightarrow> (Inl e, w, items1)
         | (Inr entry, items1) \<Rightarrow>
             if we_size entry \<noteq> length data \<or> we_digest entry \<noteq> Some (digest_text sha data)
             then (Inl (WorkspaceBroken ''Artifact destination returned inconsistent metadata.''), w, items1)
             else (bind_res (workspace_uri path) (\<lambda>uri. artifact uri (aw_media_type w) (length data) (digest_text sha data)),
                   w\<lparr>aw_published := True\<rparr>, items1)))"

definition writer_abort :: "artifact_writer \<Rightarrow> artifact_writer" where
  "writer_abort w = (if aw_published w then w else w\<lparr>aw_aborted := True\<rparr>)"

end
