(* ===== verification/Materializer.thy ===== *)
theory Materializer
  imports ToolOutput Workspace SessionCodec
begin

text \<open>
  The materializers of \<open>roboagent/tool/materializer.py\<close>, which turn raw output once into bounded canonical
  content: inline, or with everything that does not fit stored in a workspace under its digest. A verdict
  \<open>cancelled\<close> says what each check of the cancellation token answers, numbered in the order of the checks.
\<close>

datatype material_error =
    MaterializationError string
  | MaterialFailure string
  | MaterialCancelled

record output_limits =
  ol_raw :: nat
  ol_inline :: nat

definition make_output_limits :: "nat \<Rightarrow> nat \<Rightarrow> string + output_limits" where
  "make_output_limits raw inline =
     (if 0 < inline \<and> inline \<le> raw then Inr \<lparr>ol_raw = raw, ol_inline = inline\<rparr>
      else Inl ''Tool output limits require 0 < max_inline_bytes <= max_raw_bytes.'')"

definition failing :: "string + 'a \<Rightarrow> material_error + 'a" where
  "failing r = (case r of Inl e \<Rightarrow> Inl (MaterialFailure e) | Inr x \<Rightarrow> Inr x)"

definition check_material :: "(nat \<Rightarrow> bool) \<Rightarrow> nat \<Rightarrow> material_error + unit" where
  "check_material cancelled n = raise_if (cancelled n) MaterialCancelled"

section \<open>Inline\<close>

definition inline_one :: "raw_content \<Rightarrow> material_error + tool_content" where
  "inline_one item = (case item of
     RawText t trunc \<Rightarrow> Inr (ToolTextContent t trunc)
   | RawJson v \<Rightarrow> Inr (ToolJsonContent v)
   | RawResource _ None _ \<Rightarrow> Inl (MaterializationError ''workspace_artifact_missing'')
   | _ \<Rightarrow> Inl (MaterializationError ''tool_materialization_error''))"

definition materialize_inline ::
  "(rat \<Rightarrow> pystr) \<Rightarrow> output_limits \<Rightarrow> (nat \<Rightarrow> bool) \<Rightarrow> raw_content list \<Rightarrow> material_error + tool_content list" where
  "materialize_inline frepr limits cancelled items =
     bind_res (check_material cancelled 0) (\<lambda>_.
     bind_res (failing (raw_result_size frepr items)) (\<lambda>n.
     bind_res (raise_if (ol_raw limits < n) (MaterializationError ''tool_output_too_large'')) (\<lambda>_.
     bind_res (raise_if (ol_inline limits < n) (MaterializationError ''tool_materialization_error'')) (\<lambda>_.
     bind_res (map_res inline_one items) (\<lambda>content.
     bind_res (check_material cancelled 1) (\<lambda>_. Inr content))))))"

section \<open>In a workspace\<close>

definition preview_of :: "pystr \<Rightarrow> string + pystr option" where
  "preview_of t = bind_res (encode_text t) (\<lambda>encoded.
     let p = utf8_ignore (take 4096 encoded) in Inr (if p = [] then None else Some p))"

text \<open>\<open>_bytes\<close>: what is stored of an item, with its media type and its preview.\<close>

definition blob_of :: "(rat \<Rightarrow> pystr) \<Rightarrow> raw_content \<Rightarrow> material_error + bytes \<times> pystr option \<times> pystr option" where
  "blob_of frepr item = (case item of
     RawText t _ \<Rightarrow> failing (bind_res (encode_text t) (\<lambda>data.
       bind_res (preview_of t) (\<lambda>p. Inr (data, Some (ascii ''text/plain''), p))))
   | RawJson v \<Rightarrow> (let t = canonical_json_dumps frepr v in
       failing (bind_res (encode_text t) (\<lambda>data.
         bind_res (preview_of t) (\<lambda>p. Inr (data, Some (ascii ''application/json''), p)))))
   | RawBinary data media_type \<Rightarrow> Inr (data, Some media_type, None)
   | RawResource _ (Some data) media_type \<Rightarrow> Inr (data, media_type, None)
   | RawResource _ None _ \<Rightarrow> Inl (MaterializationError ''tool_materialization_error''))"

definition artifact_content ::
  "snapshot_codec \<Rightarrow> workspace_entry \<Rightarrow> pystr option \<Rightarrow> pystr \<Rightarrow> pystr option \<Rightarrow> material_error + tool_content" where
  "artifact_content cx entry media_type digest preview = (case workspace_uri (we_path entry) of
     Inl _ \<Rightarrow> Inl (MaterialFailure ''WorkspacePermissionError'')
   | Inr uri \<Rightarrow> (case make_artifact cx uri media_type (int (we_size entry)) digest preview of
       Inr (ArtifactReferenceContent a) \<Rightarrow> Inr (ToolArtifactContent a)
     | _ \<Rightarrow> Inl (MaterialFailure ''ProtocolError'')))"

definition store_blob ::
  "snapshot_codec \<Rightarrow> (bytes \<Rightarrow> pystr) \<Rightarrow> raw_content \<Rightarrow> workspace_items
     \<Rightarrow> (material_error + tool_content) \<times> workspace_items" where
  "store_blob cx sha item items = (case blob_of (sc_float cx) item of
     Inl e \<Rightarrow> (Inl e, items)
   | Inr (data, media_type, preview) \<Rightarrow>
       let digest = digest_text sha data; path = blob_prefix @ sha data in
       (case ws_write sha path data media_type items of
          (Inl _, items1) \<Rightarrow> (Inl (MaterialFailure ''WorkspaceError''), items1)
        | (Inr entry, items1) \<Rightarrow>
            (if we_path entry \<noteq> path \<or> we_size entry \<noteq> length data \<or> we_digest entry \<noteq> Some digest
             then Inl (MaterializationError ''tool_materialization_error'')
             else artifact_content cx entry media_type digest preview, items1)))"

definition store_one ::
  "snapshot_codec \<Rightarrow> (bytes \<Rightarrow> pystr) \<Rightarrow> bool \<Rightarrow> raw_content \<Rightarrow> workspace_items
     \<Rightarrow> (material_error + tool_content) \<times> workspace_items" where
  "store_one cx sha inline_all item items = (case item of
     RawText t trunc \<Rightarrow> if inline_all then (Inr (ToolTextContent t trunc), items) else store_blob cx sha item items
   | RawJson v \<Rightarrow> if inline_all then (Inr (ToolJsonContent v), items) else store_blob cx sha item items
   | RawResource _ None _ \<Rightarrow> (Inl (MaterializationError ''workspace_artifact_missing''), items)
   | _ \<Rightarrow> store_blob cx sha item items)"

fun store_all ::
  "snapshot_codec \<Rightarrow> (bytes \<Rightarrow> pystr) \<Rightarrow> (nat \<Rightarrow> bool) \<Rightarrow> nat \<Rightarrow> bool \<Rightarrow> raw_content list \<Rightarrow> workspace_items
     \<Rightarrow> (material_error + tool_content list) \<times> workspace_items" where
  "store_all cx sha cancelled n inline_all [] items = (bind_res (check_material cancelled n) (\<lambda>_. Inr []), items)"
| "store_all cx sha cancelled n inline_all (item # rest) items = (case check_material cancelled n of
     Inl e \<Rightarrow> (Inl e, items)
   | Inr _ \<Rightarrow> (case store_one cx sha inline_all item items of
       (Inl e, items1) \<Rightarrow> (Inl e, items1)
     | (Inr c, items1) \<Rightarrow> (case store_all cx sha cancelled (n + 1) inline_all rest items1 of
         (Inl e, items2) \<Rightarrow> (Inl e, items2)
       | (Inr cs, items2) \<Rightarrow> (Inr (c # cs), items2))))"

definition materialize_workspace ::
  "snapshot_codec \<Rightarrow> (bytes \<Rightarrow> pystr) \<Rightarrow> output_limits \<Rightarrow> (nat \<Rightarrow> bool) \<Rightarrow> raw_content list \<Rightarrow> workspace_items
     \<Rightarrow> (material_error + tool_content list) \<times> workspace_items" where
  "materialize_workspace cx sha limits cancelled raw items =
     (case bind_res (check_material cancelled 0) (\<lambda>_. failing (raw_result_size (sc_float cx) raw)) of
        Inl e \<Rightarrow> (Inl e, items)
      | Inr n \<Rightarrow>
          if ol_raw limits < n then (Inl (MaterializationError ''tool_output_too_large''), items)
          else store_all cx sha cancelled 1 (n \<le> ol_inline limits) raw items)"

end
