(* ===== verification/ArtifactProps.thy ===== *)
theory ArtifactProps
  imports Materializer ExecutorProps
begin

text \<open>
  Bounded texts, and artifacts: what is stored under its digest is read back, and is never changed.
\<close>

section \<open>Bounded texts\<close>

lemma length_lstrip: "length (lstrip s) \<le> length s"
  by (simp add: lstrip_def length_dropWhile_le)

lemma length_join_split_ws: "length (join_with [32] (split_ws s)) \<le> length (lstrip s)"
proof (induction s rule: split_ws.induct)
  case (1 s)
  let ?r = "lstrip s"
  let ?w = "takeWhile (\<lambda>c. \<not> py_space c) ?r" and ?t = "dropWhile (\<lambda>c. \<not> py_space c) ?r"
  show ?case
  proof (cases "?r = []")
    case True
    then show ?thesis by (subst split_ws.simps) simp
  next
    case False
    have parts: "length ?r = length ?w + length ?t" by (metis length_append takeWhile_dropWhile_id)
    have tail: "length (join_with [32] (split_ws ?t)) \<le> length (lstrip ?t)" using 1 False by simp
    have "split_ws ?t = [] \<or> length (join_with [32] (split_ws ?t)) < length ?t"
    proof (cases ?t)
      case Nil
      have "split_ws [] = []" by (subst split_ws.simps) (simp add: lstrip_def)
      then show ?thesis unfolding Nil by simp
    next
      case (Cons c u)
      then have "py_space c" by (metis dropWhile_eq_Cons_conv)
      then have "length (lstrip ?t) < length ?t" unfolding Cons using length_lstrip [of u] by (simp add: lstrip_def)
      with tail show ?thesis by simp
    qed
    then have "length (join_with [32] (?w # split_ws ?t)) \<le> length ?w + length ?t"
      by (cases "split_ws ?t") auto
    with False parts show ?thesis by (subst split_ws.simps) (simp add: Let_def)
  qed
qed

lemma length_replace_crlf: "length (replace_crlf [10] s) \<le> length s"
  by (induction "[10] :: nat list" s rule: replace_crlf.induct) auto

lemma length_normalize: "length (normalize_error_message m) \<le> length m"
proof -
  have "length (normalize_error_message m) \<le> length (replace_crlf [10] m)"
    unfolding normalize_error_message_def Let_def
    by (rule order_trans [OF length_join_split_ws], rule order_trans [OF length_lstrip], rule order_trans [OF length_filter_le]) simp
  then show ?thesis using length_replace_crlf [of m] by simp
qed

text \<open>
  An error that is reported to the model keeps its code and retry flag, and its message is never longer
  than the configured limit, the ellipsis included.
\<close>

theorem error_message_bounded:
  assumes "bounded_error ex e = Inr b" "0 < ec_max_error (ex_config ex)"
  shows "length (te_message b) \<le> ec_max_error (ex_config ex) \<and> te_code b = te_code e \<and> te_retryable b = te_retryable e"
proof -
  let ?n = "ec_max_error (ex_config ex)"
  have "length (if ?n = 1 then [ellipsis] else take (?n - 1) (te_message e) @ [ellipsis]) \<le> ?n"
    using assms(2) by (auto simp: min_def)
  then show ?thesis
    using assms length_normalize [of "if ?n = 1 then [ellipsis] else take (?n - 1) (te_message e) @ [ellipsis]"]
    by (auto simp: bounded_error_def Let_def make_tool_error_def split: if_splits)
qed

lemma utf8_ignore_size: "\<exists>bs'. utf8_encode (utf8_ignore bs) = Some bs' \<and> length bs' \<le> length bs"
proof (induction bs rule: utf8_ignore.induct)
  case (1 bs)
  show ?case
  proof (cases bs)
    case Nil
    then show ?thesis by (subst utf8_ignore.simps) simp
  next
    case (Cons b rest)
    show ?thesis
    proof (cases "utf8_next bs")
      case None
      with 1(1) [OF Cons] Cons show ?thesis by (subst utf8_ignore.simps) (auto intro: le_SucI)
    next
      case (Some p)
      obtain c r where p: "p = (c, r)" by (cases p)
      from utf8_next_inv [OF Some [unfolded p]] obtain q where q: "utf8_char c = Some q" "bs = q @ r" by blast
      from 1(2) [OF Cons Some p [symmetric]] obtain bs' where "utf8_encode (utf8_ignore r) = Some bs'" "length bs' \<le> length r" by blast
      moreover have "utf8_ignore bs = c # utf8_ignore r" using Some p Cons by (subst utf8_ignore.simps) simp
      ultimately show ?thesis using q by simp
    qed
  qed
qed

text \<open>
  A text cut to a number of bytes is a text again, encoded in at most that many bytes, the marker of the
  cut included; only a text that has no encoding is refused.
\<close>

theorem truncated_text_bounded:
  "case truncate_utf8 t limit of
     Inr r \<Rightarrow> \<exists>bs. utf8_encode r = Some bs \<and> length bs \<le> limit
   | Inl _ \<Rightarrow> utf8_encode t = None"
proof -
  have marker: "utf8_encode truncation_marker = Some truncation_marker"
    by (simp add: truncation_marker_def ascii_def utf8_char_def)
  show ?thesis
  proof (cases "limit \<le> length truncation_marker")
    case True
    with utf8_ignore_size [of "take limit truncation_marker"] show ?thesis by (auto simp: truncate_utf8_def)
  next
    case False
    show ?thesis
    proof (cases "utf8_encode t")
      case None
      with False show ?thesis by (simp add: truncate_utf8_def)
    next
      case (Some bs)
      from utf8_ignore_size [of "take (limit - length truncation_marker) bs"] obtain cut
        where cut: "utf8_encode (utf8_ignore (take (limit - length truncation_marker) bs)) = Some cut"
          "length cut \<le> limit - length truncation_marker" by auto
      with False Some utf8_encode_append [OF cut(1) marker] show ?thesis by (simp add: truncate_utf8_def)
    qed
  qed
qed

lemma error_message_bounded_witness:
  "\<exists>b. bounded_error (demo_executor\<lparr>ex_config := (ex_config demo_executor)\<lparr>ec_max_error := 2\<rparr>\<rparr>)
       \<lparr>te_code = [97], te_message = [98, 98, 98], te_retryable = False\<rparr> = Inr b \<and> length (te_message b) \<le> 2 \<and> te_code b = [97]"
proof -
  let ?ex = "demo_executor\<lparr>ex_config := (ex_config demo_executor)\<lparr>ec_max_error := 2\<rparr>\<rparr>"
  let ?e = "\<lparr>te_code = [97], te_message = [98, 98, 98], te_retryable = False\<rparr>"
  have "join_with [32] (split_ws [98, ellipsis]) \<noteq> []"
    by (subst split_ws.simps) (simp add: lstrip_def py_space_def join_with_nonempty)
  then obtain b where b: "bounded_error ?ex ?e = Inr b"
    by (auto simp: bounded_error_def make_tool_error_def error_code_ok_def normalize_error_message_def ellipsis_def)
  from error_message_bounded [OF b] b show ?thesis by auto
qed

section \<open>Artifacts\<close>

text \<open>What \<open>hexdigest\<close> returns.\<close>

definition hexadecimal :: "pystr \<Rightarrow> bool" where
  "hexadecimal h \<longleftrightarrow> h \<noteq> [] \<and> list_all (\<lambda>c. (48 \<le> c \<and> c \<le> 57) \<or> (97 \<le> c \<and> c \<le> 102)) h"

lemma hexadecimal_free: "hexadecimal h \<Longrightarrow> c \<in> set h \<Longrightarrow> c \<notin> {0, 9, 10, 13, 32, 35, 37, 46, 47, 63, 92}"
  by (auto simp: hexadecimal_def list_all_iff)

lemma hexadecimal_nonempty: "hexadecimal h \<Longrightarrow> h \<noteq> []"
  by (simp add: hexadecimal_def)

lemma blob_parts: "hexadecimal h \<Longrightarrow> posix_parts (blob_prefix @ h) = [ascii ''blobs'', ascii ''sha256'', h]"
proof -
  assume h: "hexadecimal h"
  then have "47 \<notin> set h" "h \<noteq> []" "h \<noteq> [46]" by (auto dest: hexadecimal_free hexadecimal_nonempty)
  then show ?thesis
    by (simp add: posix_parts_def blob_prefix_def ascii_def split_on_single)
qed

lemma blob_path: "hexadecimal h \<Longrightarrow> normalize_workspace_path at_root (blob_prefix @ h) = Inr (blob_prefix @ h)"
proof -
  assume h: "hexadecimal h"
  then have "92 \<notin> set h" "0 \<notin> set h" "h \<noteq> [46, 46]" by (auto dest: hexadecimal_free)
  then show ?thesis
    unfolding normalize_workspace_path_def blob_parts [OF h]
    by (simp add: blob_prefix_def as_posix_def ascii_def)
qed

definition blob_uri :: "pystr \<Rightarrow> pystr" where
  "blob_uri h = ascii ''workspace://'' @ blob_prefix @ h"

lemma blob_address: "hexadecimal h \<Longrightarrow> url_parse (blob_uri h) = \<lparr>up_scheme = ascii ''workspace'', up_netloc = ascii ''blobs'',
    up_path = ascii ''/sha256/'' @ h, up_query = [], up_fragment = []\<rparr>"
proof -
  assume h: "hexadecimal h"
  then have f: "filter (\<lambda>c. c \<noteq> 9 \<and> c \<noteq> 10 \<and> c \<noteq> 13) h = h" by (auto dest: hexadecimal_free intro: filter_True)
  have t: "takeWhile (\<lambda>c. c \<noteq> 35) h = h" "takeWhile (\<lambda>c. c \<noteq> 63) h = h" "dropWhile (\<lambda>c. c \<noteq> 35) h = []" "dropWhile (\<lambda>c. c \<noteq> 63) h = []"
    using h by (auto dest: hexadecimal_free simp: takeWhile_eq_all_conv)
  show ?thesis
    by (simp add: url_parse_def blob_uri_def blob_prefix_def ascii_def split_scheme_def before_def after_def letter_def scheme_char_def
        lower_def Let_def f t)
qed

lemma blob_uri_path: "hexadecimal h \<Longrightarrow> workspace_path (blob_uri h) = Inr (blob_prefix @ h)"
proof -
  assume h: "hexadecimal h"
  then have "37 \<notin> set h" "47 \<notin> set h" "h \<notin> {[], [46], [46, 46]}" "\<not> has_pair 47 47 (47 # h)"
  proof -
    have "47 \<notin> set s \<Longrightarrow> \<not> has_pair 47 47 (c # s)" for c s
      by (induction s arbitrary: c) auto
    with h show "\<not> has_pair 47 47 (47 # h)" by (auto dest: hexadecimal_free)
  qed (use h in \<open>auto dest: hexadecimal_free hexadecimal_nonempty\<close>)
  then have "artifact_uri_ok (blob_uri h)"
    unfolding artifact_uri_ok_def blob_address [OF h]
    by (simp add: blob_uri_def blob_prefix_def ascii_def split_on_single)
  then show ?thesis
    using blob_path [OF h] unfolding workspace_path_def blob_address [OF h] by (simp add: blob_prefix_def ascii_def)
qed

section \<open>Blobs\<close>

definition keeps_blobs :: "workspace_items \<Rightarrow> workspace_items \<Rightarrow> bool" where
  "keeps_blobs items items1 \<longleftrightarrow> (\<forall>key d m. starts_with blob_prefix key \<longrightarrow> dget items key = Some (d, m) \<longrightarrow>
     (\<exists>m1. dget items1 key = Some (d, m1)))"

lemma keeps_blobs_refl [simp]: "keeps_blobs items items"
  by (simp add: keeps_blobs_def)

lemma keeps_blobs_trans: "keeps_blobs a b \<Longrightarrow> keeps_blobs b c \<Longrightarrow> keeps_blobs a c"
  unfolding keeps_blobs_def by metis

lemma keeps_write: "keeps_blobs items (snd (ws_write sha path data m items))"
  by (auto simp: keeps_blobs_def ws_write_def split: sum.split option.splits)

lemma keeps_delete: "ws_delete path items = Inr items1 \<Longrightarrow> keeps_blobs items items1"
  by (auto simp: keeps_blobs_def ws_delete_def res_simps delete_conv split: sum.splits if_splits)

lemma keeps_publish: "keeps_blobs items (snd (snd (writer_publish sha artifact w items)))"
  using keeps_write [of items sha "blob_prefix @ sha (aw_data w)" "aw_data w" "aw_media_type w"]
  by (auto simp: writer_publish_def Let_def split: prod.splits sum.splits)

lemma keeps_store_blob: "keeps_blobs items (snd (store_blob cx sha item items))"
  using keeps_write [of items sha]
  by (auto simp: store_blob_def Let_def split: sum.split prod.split) (metis snd_conv)+

lemma keeps_store_one: "keeps_blobs items (snd (store_one cx sha inline_all item items))"
  using keeps_store_blob by (auto simp: store_one_def split: raw_content.split option.split)

lemma keeps_store_all: "keeps_blobs items (snd (store_all cx sha stop n inline_all raw items))"
proof (induction raw arbitrary: n items)
  case (Cons item raw)
  obtain r items1 where one: "store_one cx sha inline_all item items = (r, items1)" by force
  have "keeps_blobs items items1" using keeps_store_one [of items cx sha inline_all item] one by simp
  moreover have "keeps_blobs items1 (snd (store_all cx sha stop (n + 1) inline_all raw items1))" by (rule Cons)
  ultimately show ?case
    using one by (auto split: sum.split prod.split intro: keeps_blobs_trans)
qed simp

lemma keeps_materialize: "keeps_blobs items (snd (materialize_workspace cx sha limits stop raw items))"
  by (auto simp: materialize_workspace_def keeps_store_all split: sum.split)

text \<open>What may happen to a workspace.\<close>

inductive ws_step :: "(bytes \<Rightarrow> pystr) \<Rightarrow> workspace_items \<Rightarrow> workspace_items \<Rightarrow> bool" for sha where
  wss_write: "ws_step sha items (snd (ws_write sha path data m items))"
| wss_delete: "ws_delete path items = Inr items1 \<Longrightarrow> ws_step sha items items1"
| wss_publish: "ws_step sha items (snd (snd (writer_publish sha artifact w items)))"
| wss_materialize: "ws_step sha items (snd (materialize_workspace cx sha limits stop raw items))"

lemma keeps_steps: "(ws_step sha)\<^sup>*\<^sup>* items items1 \<Longrightarrow> keeps_blobs items items1"
proof (induction rule: rtranclp_induct)
  case (step items1 items2)
  from step(2) have "keeps_blobs items1 items2"
    by cases (auto simp: keeps_write keeps_publish keeps_materialize intro: keeps_delete)
  with step(3) show ?case by (rule keeps_blobs_trans)
qed simp

text \<open>
  Whatever is written, deleted, published or materialized, and whatever of it fails, the bytes stored
  under a digest address stay there unchanged.
\<close>

theorem blobs_immutable:
  assumes "(ws_step sha)\<^sup>*\<^sup>* items items1" "starts_with blob_prefix key" "dget items key = Some (data, m)"
  shows "\<exists>m1. dget items1 key = Some (data, m1)"
  using keeps_steps [OF assms(1)] assms(2,3) unfolding keeps_blobs_def by blast

lemma blobs_immutable_witness:
  "\<exists>m1. dget (snd (ws_write (\<lambda>_. [49]) (blob_prefix @ [49]) [7] None [(blob_prefix @ [49], [8], None)])) (blob_prefix @ [49]) = Some ([8], m1)"
  by (rule blobs_immutable [where sha = "\<lambda>_. [49]" and items = "[(blob_prefix @ [49], [8], None)]" and m = None])
    (simp_all add: r_into_rtranclp [of "ws_step sha" for sha, OF wss_write] starts_with_iff)

definition names_blob :: "(bytes \<Rightarrow> pystr) \<Rightarrow> artifact_ref \<Rightarrow> bytes \<Rightarrow> bool" where
  "names_blob sha a data \<longleftrightarrow> ar_uri a = blob_uri (sha data) \<and> ar_size a = length data \<and> ar_digest a = digest_text sha data"

definition has_blob :: "(bytes \<Rightarrow> pystr) \<Rightarrow> workspace_items \<Rightarrow> bytes \<Rightarrow> bool" where
  "has_blob sha items data \<longleftrightarrow> (\<exists>m. dget items (blob_prefix @ sha data) = Some (data, m))"

lemma has_blob_kept: "has_blob sha items data \<Longrightarrow> keeps_blobs items items1 \<Longrightarrow> has_blob sha items1 data"
  unfolding has_blob_def keeps_blobs_def starts_with_iff by blast

lemma read_blob:
  assumes "hexadecimal (sha data)" "names_blob sha a data" "has_blob sha items data"
  shows "read_artifact sha items a = Inr data"
  using assms(2,3) blob_uri_path [OF assms(1)] blob_path [OF assms(1), of False]
  by (auto simp: read_artifact_def ws_read_def names_blob_def has_blob_def res_simps)

lemma write_blob:
  assumes "hexadecimal (sha data)" "ws_write sha (blob_prefix @ sha data) data m items = (Inr entry, items1)"
  shows "we_path entry = blob_prefix @ sha data" "has_blob sha items1 data"
proof -
  note path = blob_path [OF assms(1), of False]
  show "we_path entry = blob_prefix @ sha data" "has_blob sha items1 data"
    using assms(2) path
    by (auto simp: ws_write_def entry_of_def make_entry_def res_simps has_blob_def split: if_splits option.splits)
qed

lemma artifact_content_names:
  "artifact_content cx entry m (digest_text sha data) p = Inr c \<Longrightarrow> we_path entry = blob_prefix @ sha data \<Longrightarrow>
   we_size entry = length data \<Longrightarrow> hexadecimal (sha data) \<Longrightarrow> \<exists>a. c = ToolArtifactContent a \<and> names_blob sha a data"
  by (auto simp: artifact_content_def workspace_uri_def blob_path res_simps make_artifact_def names_blob_def blob_uri_def
      split: sum.splits if_splits content.splits)

lemma store_blob_names:
  assumes "\<And>d. hexadecimal (sha d)" "store_blob cx sha item items = (Inr c, items1)"
  shows "\<exists>a data m p. c = ToolArtifactContent a \<and> blob_of (sc_float cx) item = Inr (data, m, p) \<and> names_blob sha a data
    \<and> has_blob sha items1 data"
proof -
  from assms(2) obtain data m p where b: "blob_of (sc_float cx) item = Inr (data, m, p)"
    by (auto simp: store_blob_def split: sum.splits prod.splits)
  with assms(2) obtain entry where w: "ws_write sha (blob_prefix @ sha data) data m items = (Inr entry, items1)"
    and c: "we_path entry = blob_prefix @ sha data" "we_size entry = length data"
      "artifact_content cx entry m (digest_text sha data) p = Inr c"
    by (auto simp: store_blob_def Let_def split: sum.splits prod.splits if_splits)
  from artifact_content_names [OF c(3,1,2) assms(1)] write_blob(2) [OF assms(1) w] b show ?thesis by blast
qed

text \<open>What is known of an item of the answer: content that is an artifact names the bytes of its raw item.\<close>

definition stored_item :: "snapshot_codec \<Rightarrow> (bytes \<Rightarrow> pystr) \<Rightarrow> workspace_items \<Rightarrow> raw_content \<Rightarrow> tool_content \<Rightarrow> bool" where
  "stored_item cx sha items item c \<longleftrightarrow> (\<forall>a. c = ToolArtifactContent a \<longrightarrow>
     (\<exists>data m p. blob_of (sc_float cx) item = Inr (data, m, p) \<and> names_blob sha a data \<and> has_blob sha items data))"

lemma store_one_item:
  assumes "\<And>d. hexadecimal (sha d)" "store_one cx sha inline_all item items = (Inr c, items1)"
  shows "stored_item cx sha items1 item c"
  using assms(2) store_blob_names [of sha, OF assms(1), of cx item items c items1]
  by (auto simp: store_one_def stored_item_def split: raw_content.splits if_splits option.splits)

lemma store_all_items:
  assumes "\<And>d. hexadecimal (sha d)"
  shows "store_all cx sha stop n inline_all raw items = (Inr content, items1) \<Longrightarrow>
    list_all2 (stored_item cx sha items1) raw content"
proof (induction raw arbitrary: n items content)
  case Nil
  then show ?case by (auto simp: res_simps split: sum.splits)
next
  case (Cons item raw)
  from Cons.prems obtain c items2 cs where one: "store_one cx sha inline_all item items = (Inr c, items2)"
    and all: "store_all cx sha stop (n + 1) inline_all raw items2 = (Inr cs, items1)" and content: "content = c # cs"
    by (auto split: sum.splits prod.splits)
  have "keeps_blobs items2 items1" using keeps_store_all [of items2 cx sha stop "n + 1" inline_all raw] all by simp
  with store_one_item [OF assms one] have "stored_item cx sha items1 item c"
    unfolding stored_item_def by (blast intro: has_blob_kept)
  with Cons.IH [OF all] content show ?case by simp
qed

text \<open>
  C27. What materialization stores is read back: for every artifact of its answer, after whatever happens to
  the workspace later, reading the artifact gives exactly the bytes of the raw item.
\<close>

theorem artifact_roundtrip:
  assumes "\<forall>d. hexadecimal (sha d)" "materialize_workspace cx sha limits stop raw items = (Inr content, items1)"
    and "(ws_step sha)\<^sup>*\<^sup>* items1 items2"
  shows "list_all2 (\<lambda>item c. \<forall>a. c = ToolArtifactContent a \<longrightarrow>
     (\<exists>data m p. blob_of (sc_float cx) item = Inr (data, m, p) \<and> read_artifact sha items2 a = Inr data)) raw content"
proof -
  from assms(2) have "list_all2 (stored_item cx sha items1) raw content"
    using store_all_items [of sha] assms(1) by (auto simp: materialize_workspace_def split: sum.splits if_splits)
  then show ?thesis
  proof (rule list_all2_mono)
    fix item c assume "stored_item cx sha items1 item c"
    with keeps_steps [OF assms(3)] assms(1) show "\<forall>a. c = ToolArtifactContent a \<longrightarrow>
        (\<exists>data m p. blob_of (sc_float cx) item = Inr (data, m, p) \<and> read_artifact sha items2 a = Inr data)"
      unfolding stored_item_def by (blast intro: read_blob has_blob_kept)
  qed
qed

lemma artifact_roundtrip_witness:
  "\<exists>a items1. materialize_workspace \<lparr>sc_inline = 0, sc_http = (\<lambda>_. True), sc_workspace = (\<lambda>_. True), sc_float = (\<lambda>_. [48])\<rparr>
       (\<lambda>_. replicate 64 97) \<lparr>ol_raw = 9, ol_inline = 1\<rparr> (\<lambda>_. False) [RawResource [97] (Some [7, 8]) None] []
     = (Inr [ToolArtifactContent a], items1) \<and> read_artifact (\<lambda>_. replicate 64 97) items1 a = Inr [7, 8]"
proof -
  let ?cx = "\<lparr>sc_inline = 0, sc_http = (\<lambda>_. True), sc_workspace = (\<lambda>_. True), sc_float = (\<lambda>_. [48])\<rparr> :: snapshot_codec"
    and ?h = "replicate 64 97 :: pystr"
  let ?sha = "\<lambda>_ :: bytes. ?h" and ?raw = "[RawResource [97] (Some [7, 8]) None]"
  have h: "hexadecimal ?h" by (simp add: hexadecimal_def list_all_iff)
  have digest: "artifact_digest_ok (digest_text ?sha d)" for d
    by (simp add: artifact_digest_ok_def digest_text_def ascii_def list_all_iff)
  obtain a items1 where m: "materialize_workspace ?cx ?sha \<lparr>ol_raw = 9, ol_inline = 1\<rparr> (\<lambda>_. False) ?raw [] = (Inr [ToolArtifactContent a], items1)"
    using h digest
    by (auto simp: materialize_workspace_def check_material_def raise_if_def failing_def raw_payload_def store_one_def store_blob_def
        blob_of_def ws_write_def blob_path check_mime_def entry_of_def make_entry_def artifact_content_def workspace_uri_def make_artifact_def
        res_simps Let_def)
  from artifact_roundtrip [OF _ m rtranclp.rtrancl_refl] h m show ?thesis by (auto simp: blob_of_def)
qed

end
