(* ===== verification/ContextBudget.thy ===== *)
theory ContextBudget
  imports ContextWorld
begin

text \<open>
  The context managers: everything, a window of recent messages (\<open>context/manager.py\<close>), and summaries of
  earlier messages within a budget (\<open>context/budget.py\<close>). A renderer, an estimator and a summarizer of the
  host are functions; the product of a budget with the ratio is exact here and rounded in the code.
\<close>

section \<open>The estimator\<close>

definition frame_of :: "(rat \<Rightarrow> pystr) \<Rightarrow> content \<Rightarrow> nat host_answer" where
  "frame_of frepr c = (case c of
     TextContent t \<Rightarrow> HostGives (length t)
   | JsonContent v \<Rightarrow> HostGives (length (canonical_json_dumps frepr v))
   | ArtifactReferenceContent a \<Rightarrow> HostGives (length (ar_uri a) + length (ar_digest a)
       + length (case ar_preview a of None \<Rightarrow> [] | Some p \<Rightarrow> p) + 32)
   | ImageContent _ _ _ \<Rightarrow> HostRefuses ''unestimable_imagecontent''
   | AudioContent _ _ _ \<Rightarrow> HostRefuses ''unestimable_audiocontent''
   | FileContent _ _ _ \<Rightarrow> HostRefuses ''unestimable_filecontent'')"

fun sum_answers :: "nat host_answer list \<Rightarrow> nat host_answer" where
  "sum_answers [] = HostGives 0"
| "sum_answers (HostGives n # rs) = (case sum_answers rs of HostGives k \<Rightarrow> HostGives (n + k) | r \<Rightarrow> r)"
| "sum_answers (r # rs) = r"

definition call_characters :: "(rat \<Rightarrow> pystr) \<Rightarrow> tool_call \<Rightarrow> nat" where
  "call_characters frepr call = length (tc_id call) + length (tc_name call) + length (canonical_json_dumps frepr (JObj (tc_arguments call)))"

definition message_characters :: "(rat \<Rightarrow> pystr) \<Rightarrow> message \<Rightarrow> nat host_answer" where
  "message_characters frepr m = sum_answers (HostGives 8 # map (frame_of frepr) (msg_content m) @ [HostGives (case m of
     AssistantMessage _ calls _ _ _ \<Rightarrow> sum_list (map (call_characters frepr) calls)
   | ToolResultMessage _ _ _ _ (Some e) _ _ \<Rightarrow> length (te_code e) + length (te_message e)
   | _ \<Rightarrow> 0)])"

definition text_length :: "pystr option \<Rightarrow> nat" where
  "text_length t = (case t of None \<Rightarrow> 0 | Some s \<Rightarrow> length s)"

definition segment_characters :: "(rat \<Rightarrow> pystr) \<Rightarrow> segment \<Rightarrow> nat host_answer" where
  "segment_characters frepr s = (case s of
     ContextDataSegment d \<Rightarrow> HostGives (length (context_data_text frepr d))
   | SummarySegment t \<Rightarrow> HostGives (length t + 32)
   | MessageSegment m \<Rightarrow> message_characters frepr m
   | WorkspaceReferenceSegment uri preview media_type \<Rightarrow>
       HostGives (length uri + text_length preview + text_length media_type))"

definition tool_characters :: "(rat \<Rightarrow> pystr) \<Rightarrow> tool_definition \<Rightarrow> nat" where
  "tool_characters frepr t =
     length (td_name t) + length (td_description t) + length (canonical_json_dumps frepr (JObj (td_input_schema t)))"

text \<open>\<open>ConservativeTokenEstimator.estimate\<close>: a quarter of the characters, rounded up.\<close>

definition conservative_estimate :: "(rat \<Rightarrow> pystr) \<Rightarrow> estimator" where
  "conservative_estimate frepr c =
     (let framing = 8 + length (mc_segments c) * 4 + length (mc_tools c) * 8;
          fixed = text_length (mc_system c) + sum_list (map (tool_characters frepr) (mc_tools c))
      in case sum_answers (map (segment_characters frepr) (mc_segments c)) of
           HostGives n \<Rightarrow> HostGives (framing + (fixed + n + 3) div 4)
         | r \<Rightarrow> r)"

section \<open>Everything, and a window\<close>

type_synonym renderer = "prompt_input option \<Rightarrow> context_error + pystr option"

definition request_prompt :: "renderer \<Rightarrow> context_request \<Rightarrow> context_error + pystr" where
  "request_prompt render rq = bind_res (render (cs_prompt (rq_snapshot rq))) (\<lambda>base.
     Inr (compose_prompt base (cs_skills (rq_snapshot rq)) (rq_world rq \<noteq> None)))"

definition prepared_plain :: "model_context \<Rightarrow> prepared_context" where
  "prepared_plain c = \<lparr>pc_context = c, pc_usage = no_usage, pc_update = None\<rparr>"

definition full_prepare ::
  "(rat \<Rightarrow> pystr) \<Rightarrow> renderer \<Rightarrow> estimator \<Rightarrow> context_budget option \<Rightarrow> (nat \<Rightarrow> bool) \<Rightarrow> context_request
     \<Rightarrow> context_error + prepared_context" where
  "full_prepare frepr render est budget stop rq =
     bind_res (check_context stop 0) (\<lambda>_.
     bind_res (request_prompt render rq) (\<lambda>prompt.
     bind_res (check_context stop 1) (\<lambda>_.
     bind_res (message_groups (cs_transcript (rq_snapshot rq))) (\<lambda>_.
     bind_res (project_segments (cs_transcript (rq_snapshot rq)) (rq_compaction rq)) (\<lambda>segs.
     bind_res (make_model_context (Some prompt) segs (cs_tools (rq_snapshot rq))) (\<lambda>c.
     bind_res (prepare_world_context frepr est budget rq c) (\<lambda>p. Inr (prepared_plain p))))))))"

definition window_prepare ::
  "(rat \<Rightarrow> pystr) \<Rightarrow> renderer \<Rightarrow> estimator \<Rightarrow> context_budget option \<Rightarrow> nat \<Rightarrow> (nat \<Rightarrow> bool) \<Rightarrow> context_request
     \<Rightarrow> context_error + prepared_context" where
  "window_prepare frepr render est budget max_messages stop rq =
     bind_res (check_context stop 0) (\<lambda>_.
     bind_res (message_groups (cs_transcript (rq_snapshot rq))) (\<lambda>gs.
     bind_res (request_prompt render rq) (\<lambda>prompt.
     bind_res (check_context stop 1) (\<lambda>_.
     bind_res (make_model_context (Some prompt) (map MessageSegment (select_recent_groups gs max_messages))
         (cs_tools (rq_snapshot rq))) (\<lambda>c.
     bind_res (prepare_world_context frepr est budget rq c) (\<lambda>p. Inr (prepared_plain p)))))))"

section \<open>Summaries\<close>

datatype summary_answer =
    SummaryGives pystr usage "pystr option"
  | SummaryInvalid
  | SummaryRaises
  | SummaryCancelled

definition make_summary_result :: "pystr \<Rightarrow> usage \<Rightarrow> pystr option \<Rightarrow> summary_answer" where
  "make_summary_result t used i = (if blank t then SummaryRaises else SummaryGives t used i)"

definition role_text :: "message \<Rightarrow> pystr" where
  "role_text m = ascii (case m of UserMessage _ _ _ \<Rightarrow> ''user'' | AssistantMessage _ _ _ _ _ \<Rightarrow> ''assistant''
     | ToolResultMessage _ _ _ _ _ _ _ \<Rightarrow> ''tool'')"

definition extracted :: "message \<Rightarrow> pystr list" where
  "extracted m =
     (let t = strip (text_of (msg_content m)) in
      if t \<noteq> [] then [role_text m @ ascii '': '' @ t]
      else if calls_tools m
      then [ascii ''assistant tools: '' @ join_with (ascii '', '') (map tc_name (msg_tool_calls m))]
      else [])"

definition extractive_summarize :: "(nat \<Rightarrow> bool) \<Rightarrow> context_summary option \<Rightarrow> message list \<Rightarrow> summary_answer" where
  "extractive_summarize stop existing ms =
     (if stop 0 then SummaryCancelled
      else
        let parts = (case existing of None \<Rightarrow> [] | Some s \<Rightarrow> [su_text s]) @ concat (map extracted ms);
            result = strip (join_with [10] parts);
            result = (if result = [] then ascii ''Earlier conversation contained no textual content.'' else result)
        in if stop 1 then SummaryCancelled else make_summary_result result no_usage None)"

record compactor =
  cm_budget :: context_budget
  cm_estimator :: estimator
  cm_summarizer :: "context_summary option \<Rightarrow> message list \<Rightarrow> summary_answer"
  cm_ratio :: rat
  cm_min_recent :: nat
  cm_render :: renderer
  cm_default_reserve :: nat
  cm_version :: nat
  cm_sum_budget :: "context_budget option"
  cm_sum_window :: "nat option option"
  cm_sum_output :: "nat option"
  cm_sum_estimator :: estimator
  cm_codec :: codec

text \<open>The constructors of the policy and of the manager.\<close>

definition compactor_ok :: "compactor \<Rightarrow> bool" where
  "compactor_ok cm \<longleftrightarrow> 0 < cm_ratio cm \<and> cm_ratio cm \<le> 1 \<and> 1 \<le> cm_min_recent cm \<and> 1 \<le> cm_version cm"

definition transcript_digest :: "compactor \<Rightarrow> message list \<Rightarrow> context_error + pystr" where
  "transcript_digest cm ms = (case canonical_message_digest (cx_float (cm_codec cm)) (cx_sha (cm_codec cm)) ms of
     None \<Rightarrow> Inl (ContextValueError ''UnicodeEncodeError'') | Some d \<Rightarrow> Inr d)"

definition valid_summary :: "compactor \<Rightarrow> context_summary \<Rightarrow> message list \<Rightarrow> nat list \<Rightarrow> context_error + bool" where
  "valid_summary cm s ms boundaries =
     (if su_version s \<noteq> cm_version cm \<or> su_end s \<notin> set boundaries \<or> su_end s > length ms then Inr False
      else bind_res (transcript_digest cm (take (su_end s) ms)) (\<lambda>d. Inr (su_digest s = d)))"

text \<open>What the loop over the world entries ends with: the data segments and the context, within the budget or not.\<close>

function compact_world ::
  "compactor \<Rightarrow> context_request \<Rightarrow> pystr \<Rightarrow> segment list \<Rightarrow> nat \<Rightarrow> attribute list \<Rightarrow> entry list
     \<Rightarrow> context_error + (segment list \<times> model_context \<times> nat)" where
  "compact_world cm rq prompt segs limit protected entries =
     bind_res (world_segment (cx_float (cm_codec cm)) rq entries) (\<lambda>ds.
     bind_res (make_model_context (Some prompt) (ds @ segs) (cs_tools (rq_snapshot rq))) (\<lambda>c.
     bind_res (estimate_input (cm_estimator cm) rq c) (\<lambda>n.
     if n \<le> limit then Inr (ds, c, n)
     else case drop_unprotected protected entries of
       None \<Rightarrow> Inr (ds, c, n)
     | Some es \<Rightarrow> compact_world cm rq prompt segs limit protected es)))"
  by pat_completeness auto
termination
  by (relation "measure (\<lambda>(_, _, _, _, _, _, es). length es)") (auto dest: drop_unprotected_shorter)

declare compact_world.simps [simp del]

definition measured ::
  "compactor \<Rightarrow> context_request \<Rightarrow> pystr \<Rightarrow> segment list \<Rightarrow> context_error + (model_context \<times> nat)" where
  "measured cm rq prompt segs =
     bind_res (make_model_context (Some prompt) segs (cs_tools (rq_snapshot rq))) (\<lambda>c.
     bind_res (estimate_input (cm_estimator cm) rq c) (\<lambda>n. Inr (c, n)))"

definition check_groups ::
  "compactor \<Rightarrow> context_request \<Rightarrow> pystr \<Rightarrow> segment list \<Rightarrow> nat \<Rightarrow> message list list \<Rightarrow> context_error + unit" where
  "check_groups cm rq prompt ds limit gs = fold_res (\<lambda>g _.
     bind_res (measured cm rq prompt (ds @ map MessageSegment g)) (\<lambda>(c, n).
       raise_if (n > limit) (BudgetError ''context_budget_exceeded'' ''atomic_group_too_large''))) gs ()"

fun find_end ::
  "compactor \<Rightarrow> context_request \<Rightarrow> pystr \<Rightarrow> segment list \<Rightarrow> pystr \<Rightarrow> nat \<Rightarrow> nat list \<Rightarrow> context_error + nat" where
  "find_end cm rq prompt ds placeholder target [] = Inl (BudgetError ''context_budget_exceeded'' ''summary_and_minimum_tail'')"
| "find_end cm rq prompt ds placeholder target (b # bs) =
     bind_res (measured cm rq prompt
         (ds @ SummarySegment placeholder # map MessageSegment (drop b (cs_transcript (rq_snapshot rq))))) (\<lambda>(c, n).
       if n \<le> target then Inr b else find_end cm rq prompt ds placeholder target bs)"

definition check_summarizer_input :: "compactor \<Rightarrow> context_summary option \<Rightarrow> message list \<Rightarrow> context_error + unit" where
  "check_summarizer_input cm old ms = (case cm_sum_budget cm of None \<Rightarrow> Inr ()
     | Some b \<Rightarrow>
         bind_res (input_budget b (case cm_sum_window cm of None \<Rightarrow> bg_max b | Some w \<Rightarrow> w) (cm_sum_output cm)
             (cm_default_reserve cm)) (\<lambda>limit.
         bind_res (make_model_context (Some (ascii ''Summarize the following historical conversation context.''))
             ((case old of None \<Rightarrow> [] | Some s \<Rightarrow> [SummarySegment (su_text s)]) @ map MessageSegment ms) []) (\<lambda>c.
         case cm_sum_estimator cm c of
           HostGives n \<Rightarrow> raise_if (n > limit) (BudgetError ''context_compaction_error'' ''summarizer_input_too_large'')
         | _ \<Rightarrow> Inl (BudgetError ''context_compaction_error'' ''summarizer_token_estimation_failed''))))"

definition ask_summarizer ::
  "compactor \<Rightarrow> context_summary option \<Rightarrow> message list \<Rightarrow> context_error + (pystr \<times> usage \<times> pystr option)" where
  "ask_summarizer cm old ms = (case cm_summarizer cm old ms of
     SummaryGives t used i \<Rightarrow> Inr (t, used, i)
   | SummaryInvalid \<Rightarrow> Inl (BudgetError ''context_compaction_error'' ''invalid_summary_result'')
   | SummaryRaises \<Rightarrow> Inl (BudgetError ''context_compaction_error'' ''summarizer_failure'')
   | SummaryCancelled \<Rightarrow> Inl ContextCancelled)"

definition new_summary ::
  "compactor \<Rightarrow> nat \<Rightarrow> message list \<Rightarrow> pystr \<Rightarrow> pystr option \<Rightarrow> context_error + context_summary" where
  "new_summary cm stop_at ms t i = bind_res (transcript_digest cm (take stop_at ms)) (\<lambda>d.
     case make_summary 0 (int stop_at) d t (int (cm_version cm)) i of
       Inl _ \<Rightarrow> Inl (ContextValueError ''ValueError'') | Inr s \<Rightarrow> Inr s)"

text \<open>Everything after the context was found too large.\<close>

definition compact_transcript ::
  "compactor \<Rightarrow> (nat \<Rightarrow> bool) \<Rightarrow> context_request \<Rightarrow> pystr \<Rightarrow> message list list \<Rightarrow> context_summary option \<Rightarrow> segment list
     \<Rightarrow> nat \<Rightarrow> context_error + prepared_context" where
  "compact_transcript cm stop rq prompt gs current ds limit =
     (let ms = cs_transcript (rq_snapshot rq);
          tail = minimum_tail_start gs (cm_min_recent cm);
          old_end = (case current of None \<Rightarrow> 0 | Some s \<Rightarrow> su_end s);
          candidates = filter (\<lambda>b. old_end < b \<and> b \<le> length (concat (take tail gs))) (group_boundaries gs);
          target = max 1 (nat \<lfloor>of_nat limit * cm_ratio cm\<rfloor>);
          placeholder = (case current of Some s \<Rightarrow> su_text s | None \<Rightarrow> ascii ''Earlier conversation summary.'')
      in
      bind_res (measured cm rq prompt ds) (\<lambda>(c0, n0).
      bind_res (raise_if (n0 > limit) (BudgetError ''context_budget_exceeded'' ''static_overhead'')) (\<lambda>_.
      bind_res (raise_if (tail = 0) (BudgetError ''context_budget_exceeded'' ''minimum_retained_tail'')) (\<lambda>_.
      bind_res (check_groups cm rq prompt ds limit (drop tail gs)) (\<lambda>_.
      bind_res (find_end cm rq prompt ds placeholder target candidates) (\<lambda>stop_at.
      let new_messages = drop old_end (take stop_at ms) in
      bind_res (check_summarizer_input cm current new_messages) (\<lambda>_.
      bind_res (ask_summarizer cm current new_messages) (\<lambda>(t, used, i).
      bind_res (check_context stop 1) (\<lambda>_.
      bind_res (new_summary cm stop_at ms t i) (\<lambda>summary.
      bind_res (project_segments ms (Some summary)) (\<lambda>segs.
      bind_res (measured cm rq prompt (ds @ segs)) (\<lambda>(c, n).
      bind_res (raise_if (n > target) (BudgetError ''context_budget_exceeded'' ''summary_and_minimum_tail'')) (\<lambda>_.
        Inr \<lparr>pc_context = c, pc_usage = used,
              pc_update = Some \<lparr>cu_summary = Some summary,
                cu_expected = map_option su_digest (rq_compaction rq)\<rparr>\<rparr>)))))))))))))"

definition compact_prepare ::
  "compactor \<Rightarrow> (nat \<Rightarrow> bool) \<Rightarrow> context_request \<Rightarrow> context_error + prepared_context" where
  "compact_prepare cm stop rq =
     (let ms = cs_transcript (rq_snapshot rq); protected = protected_world_entries rq in
      bind_res (check_context stop 0) (\<lambda>_.
      bind_res (request_prompt (cm_render cm) rq) (\<lambda>prompt.
      bind_res (message_groups ms) (\<lambda>gs.
      bind_res (case rq_compaction rq of None \<Rightarrow> Inr False | Some s \<Rightarrow> valid_summary cm s ms (group_boundaries gs)) (\<lambda>valid.
      let current = (if valid then rq_compaction rq else None);
          clear = (case rq_compaction rq of
            Some s \<Rightarrow> if valid then None else Some \<lparr>cu_summary = None, cu_expected = Some (su_digest s)\<rparr>
          | None \<Rightarrow> None)
      in
      bind_res (input_budget (cm_budget cm) (rq_window rq) (rq_max_output rq) (cm_default_reserve cm)) (\<lambda>limit.
      bind_res (project_segments ms current) (\<lambda>segs.
      bind_res (compact_world cm rq prompt segs limit protected (bounded_world_entries rq protected)) (\<lambda>(ds, c, n).
        if n \<le> limit then Inr \<lparr>pc_context = c, pc_usage = no_usage, pc_update = clear\<rparr>
        else compact_transcript cm stop rq prompt gs current ds limit))))))))"

end
