(* ===== verification/ContextLaws.thy ===== *)
theory ContextLaws
  imports ContextBudget
begin

text \<open>
  Laws of the context managers: what a message group is, that a context of whole groups passes the checks of
  \<open>ModelContext\<close>, what a window selects, where the minimal tail starts, and which entries of the world stay.
\<close>

section \<open>Groups\<close>

fun message_group :: "message list \<Rightarrow> bool" where
  "message_group [] \<longleftrightarrow> False"
| "message_group (m # rs) \<longleftrightarrow> (if calls_tools m then list_all2 answers (msg_tool_calls m) rs
     else \<not> is_ToolResultMessage m \<and> rs = [])"

lemma all2_answers: "list_all2 answers calls rs \<longleftrightarrow> list_all is_ToolResultMessage rs \<and> list_all2 result_matches calls rs"
  by (auto simp: list_all2_conv_all_nth list_all_length answers_def)

lemma exchange_results_iff:
  "exchange_results m rest = Inr rs \<longleftrightarrow>
     rs = take (length (msg_tool_calls m)) rest \<and> list_all2 answers (msg_tool_calls m) rs"
  by (auto simp: exchange_results_def all2_answers Let_def dest: list_all2_lengthD)

lemma message_groups_sound: "message_groups ms = Inr gs \<Longrightarrow> concat gs = ms \<and> list_all message_group gs"
proof (induction ms arbitrary: gs rule: message_groups.induct)
  case (2 m rest)
  show ?case
  proof (cases "calls_tools m")
    case True
    with 2(3) obtain rs gs' where r: "exchange_results m rest = Inr rs"
      "message_groups (drop (length (msg_tool_calls m)) rest) = Inr gs'" "gs = (m # rs) # gs'"
      by (auto simp: res_simps)
    from 2(1) [OF True r(2)] r True show ?thesis by (auto simp: exchange_results_iff)
  next
    case False
    with 2(2,3) show ?thesis by (auto simp: res_simps split: if_splits)
  qed
qed simp

lemma message_groups_complete: "list_all message_group gs \<Longrightarrow> message_groups (concat gs) = Inr gs"
proof (induction gs)
  case (Cons g gs)
  then obtain m rs where g: "g = m # rs" by (cases g) auto
  show ?case
  proof (cases "calls_tools m")
    case True
    with Cons g have a: "list_all2 answers (msg_tool_calls m) rs" by simp
    with list_all2_lengthD [OF a] have "exchange_results m (rs @ concat gs) = Inr rs"
      by (simp add: exchange_results_iff)
    with Cons g True list_all2_lengthD [OF a] show ?thesis by (simp add: res_simps)
  next
    case False
    with Cons g show ?thesis by (simp add: res_simps)
  qed
qed simp

lemma message_groups_iff: "message_groups ms = Inr gs \<longleftrightarrow> concat gs = ms \<and> list_all message_group gs"
  using message_groups_sound message_groups_complete by blast

lemma calls_of_tools: "calls_of m = (if calls_tools m then msg_tool_calls m else [])"
  by (cases m) (auto simp: calls_tools_def)

lemma calls_tools_not_result: "calls_tools m \<Longrightarrow> \<not> is_ToolResultMessage m"
  by (cases m) (auto simp: calls_tools_def)

lemma group_calls: "message_group (m # rs) \<longleftrightarrow> \<not> is_ToolResultMessage m \<and> list_all2 answers (calls_of m) rs"
  by (auto simp: calls_of_tools calls_tools_not_result)

lemma blocks_groups: "blocks ms \<longleftrightarrow> (\<exists>gs. message_groups ms = Inr gs)"
proof
  assume "blocks ms"
  then show "\<exists>gs. message_groups ms = Inr gs"
  proof induction
    case (blocks_Cons m results rest)
    then obtain gs where "concat gs = rest" "list_all message_group gs" by (auto simp: message_groups_iff)
    with blocks_Cons(1,2) have "concat ((m # results) # gs) = m # results @ rest"
      "list_all message_group ((m # results) # gs)" by (simp_all add: group_calls del: message_group.simps)
    then show ?case unfolding message_groups_iff by blast
  qed (simp add: message_groups_iff exI [of _ "[]"])
next
  have "list_all message_group gs \<Longrightarrow> blocks (concat gs)" for gs
  proof (induction gs)
    case (Cons g gs)
    then obtain m rs where "g = m # rs" by (cases g) auto
    with Cons show ?case by (auto simp: group_calls intro: blocks.blocks_Cons simp del: message_group.simps)
  qed (simp add: blocks_Nil)
  then show "\<exists>gs. message_groups ms = Inr gs \<Longrightarrow> blocks ms" by (auto simp: message_groups_iff)
qed

section \<open>Contexts of whole groups\<close>

lemma exchanges_skip: "segment_message s = None \<Longrightarrow> validate_exchanges (s # rest) = validate_exchanges rest"
  by simp

lemma exchanges_plain: "list_all (\<lambda>s. segment_message s = None) ss \<Longrightarrow>
  validate_exchanges (ss @ rest) = validate_exchanges rest"
  by (induction ss) auto

lemma exchanges_group:
  assumes "message_group g"
  shows "validate_exchanges (map MessageSegment g @ rest) = validate_exchanges rest"
proof -
  obtain m rs where g: "g = m # rs" using assms by (cases g) auto
  show ?thesis
  proof (cases "calls_tools m")
    case True
    with assms g have a: "list_all2 answers (msg_tool_calls m) rs" by simp
    then have l: "length rs = length (msg_tool_calls m)" by (auto dest: list_all2_lengthD)
    have "message_groups (m # rs) = Inr [m # rs]"
      using assms g by (simp add: message_groups_iff del: message_group.simps message_groups.simps)
    moreover have "map the (map segment_message (map MessageSegment rs)) = rs" by (simp add: o_def)
    ultimately show ?thesis using True g l by (simp add: Let_def o_def res_simps image_iff del: message_groups.simps)
  next
    case False
    with assms g show ?thesis by simp
  qed
qed

lemma exchanges_groups: "list_all message_group gs \<Longrightarrow> validate_exchanges (map MessageSegment (concat gs)) = Inr ()"
  by (induction gs) (simp_all add: exchanges_group)

lemma data_first_data: "list_all is_data ds \<Longrightarrow> list_all (Not \<circ> is_data) segs \<Longrightarrow> data_first (ds @ segs)"
proof -
  assume d: "list_all is_data ds" and s: "list_all (Not \<circ> is_data) segs"
  have "dropWhile is_data (ds @ segs) = dropWhile is_data segs"
    using d by (induction ds) auto
  also have "\<dots> = segs" using s by (cases segs) auto
  finally show ?thesis using s by (simp add: data_first_def)
qed

lemma segments_not_data: "list_all (Not \<circ> is_data) (map MessageSegment ms)"
  by (simp add: list_all_iff)

lemma data_not_message: "list_all is_data ds \<Longrightarrow> list_all (\<lambda>s. segment_message s = None) ds"
  by (auto simp: list_all_iff elim!: is_data.elims)

lemma context_of_groups:
  assumes "list_all is_data ds" "list_all message_group gs" "ss = [] \<or> ss = [SummarySegment t]"
  shows "make_model_context sys (ds @ ss @ map MessageSegment (concat gs)) tools =
    Inr \<lparr>mc_system = sys, mc_segments = ds @ ss @ map MessageSegment (concat gs), mc_tools = tools\<rparr>"
proof -
  have "data_first (ds @ ss @ map MessageSegment (concat gs))"
    using assms by (intro data_first_data) (auto simp: segments_not_data)
  moreover have "validate_exchanges (ds @ ss @ map MessageSegment (concat gs)) = Inr ()"
    using assms exchanges_plain [OF data_not_message [OF assms(1)]] by (auto simp: exchanges_groups)
  ultimately show ?thesis by (simp add: make_model_context_def)
qed

section \<open>Boundaries and tails\<close>

lemma boundaries_from_iff:
  "b \<in> set (boundaries_from n gs) \<longleftrightarrow> (\<exists>k \<le> length gs. b = n + length (concat (take k gs)))"
proof (induction gs arbitrary: n)
  case (Cons g gs)
  show ?case
  proof
    assume "b \<in> set (boundaries_from n (g # gs))"
    then consider "b = n" | k where "k \<le> length gs" "b = n + length g + length (concat (take k gs))"
      using Cons by auto
    then show "\<exists>k \<le> length (g # gs). b = n + length (concat (take k (g # gs)))"
    proof cases
      case 1
      then show ?thesis by (intro exI [of _ 0]) simp
    next
      case 2
      then show ?thesis by (intro exI [of _ "Suc k"]) simp
    qed
  next
    assume "\<exists>k \<le> length (g # gs). b = n + length (concat (take k (g # gs)))"
    then obtain k where k: "k \<le> length (g # gs)" "b = n + length (concat (take k (g # gs)))" by blast
    then show "b \<in> set (boundaries_from n (g # gs))" using Cons by (cases k) (auto simp: add.assoc)
  qed
qed simp

lemma group_boundaries_iff:
  "b \<in> set (group_boundaries gs) \<longleftrightarrow> (\<exists>k \<le> length gs. b = length (concat (take k gs)))"
  by (simp add: group_boundaries_def boundaries_from_iff)

lemma drop_boundary: "drop (length (concat (take k gs))) (concat gs) = concat (drop k gs)"
  using arg_cong [OF append_take_drop_id [of k gs], of concat] by (metis append_eq_conv_conj concat_append)

lemma take_boundary: "take (length (concat (take k gs))) (concat gs) = concat (take k gs)"
  using arg_cong [OF append_take_drop_id [of k gs], of concat] by (metis append_eq_conv_conj concat_append)

lemma between_boundaries:
  assumes "length (concat (take j gs)) \<le> length (concat (take k gs))"
  obtains "drop (length (concat (take j gs))) (take (length (concat (take k gs))) (concat gs)) = concat (drop j (take k gs))"
proof (cases "j \<le> k")
  case True
  then have "take j gs = take j (take k gs)" by (simp add: min_absorb1)
  then show ?thesis using that drop_boundary [of j "take k gs"] by (simp add: take_boundary)
next
  case False
  then have "take j gs = take k gs @ drop k (take j gs)" by (metis append_take_drop_id min_absorb1 nle_le take_take)
  from arg_cong [OF this, of "length \<circ> concat"] assms
  have "drop (length (concat (take j gs))) (concat (take k gs)) = []" by simp
  moreover have "drop j (take k gs) = []" using False by simp
  ultimately show ?thesis using that by (simp add: take_boundary)
qed

definition user_group :: "message list \<Rightarrow> bool" where
  "user_group g \<longleftrightarrow> is_UserMessage (hd g)"

lemma tail_loop_spec:
  "0 < tail_loop turns seen rs \<Longrightarrow> seen < turns \<Longrightarrow> tail_loop turns seen rs < length rs
     \<and> seen + length (filter user_group (take (length rs - tail_loop turns seen rs) rs)) = turns"
proof (induction rs arbitrary: seen)
  case (Cons g rs)
  have *: "Suc (length rs) - k = Suc (length rs - k)" if "k < length rs" for k using that by simp
  show ?case
  proof (cases "user_group g")
    case True
    show ?thesis
    proof (cases "Suc seen = turns")
      case False
      with True Cons(2,3) Cons(1) [of "Suc seen"] show ?thesis by (simp add: user_group_def * del: diff_Suc_1)
    qed (use True Cons(2) in \<open>simp add: user_group_def\<close>)
  next
    case False
    with Cons(2,3) Cons(1) [of seen] show ?thesis by (simp add: user_group_def * del: diff_Suc_1)
  qed
qed simp

lemma minimum_tail_turns:
  assumes "0 < minimum_tail_start gs turns" "0 < turns"
  shows "minimum_tail_start gs turns < length gs"
    "length (filter user_group (drop (minimum_tail_start gs turns) gs)) = turns"
proof -
  let ?k = "minimum_tail_start gs turns"
  from tail_loop_spec [of turns 0 "rev gs"] assms
  have k: "?k < length gs" "length (filter user_group (take (length gs - ?k) (rev gs))) = turns"
    by (simp_all add: minimum_tail_start_def)
  then show "?k < length gs" by simp
  have "filter user_group (take (length gs - ?k) (rev gs)) = rev (filter user_group (drop ?k gs))"
    using k(1) by (simp add: rev_filter take_rev)
  with k(2) show "length (filter user_group (drop ?k gs)) = turns" by simp
qed

section \<open>The window\<close>

lemma select_loop_spec:
  assumes "\<forall>g \<in> set rs. g \<noteq> []" "chosen = [] \<or> length (concat chosen) < limit" "n = length (concat chosen)"
  shows "\<exists>j \<le> length rs. select_loop limit n chosen rs = rev (take j rs) @ chosen
    \<and> (chosen = [] \<and> rs \<noteq> [] \<longrightarrow> 0 < j)
    \<and> (j < length rs \<longrightarrow> limit < length (concat (rev (take (Suc j) rs) @ chosen)))
    \<and> (length (concat (rev (take j rs) @ chosen)) \<le> limit \<or> chosen = [] \<and> j \<le> 1)"
  using assms
proof (induction rs arbitrary: chosen n)
  case (Cons g rs)
  have g: "0 < length g" using Cons(2) by simp
  consider (stop) "chosen \<noteq> []" "n + length g > limit"
    | (last) "chosen = [] \<or> n + length g \<le> limit" "n + length g \<ge> limit"
    | (more) "n + length g < limit" by linarith
  then show ?case
  proof cases
    case stop
    with Cons show ?thesis by (intro exI [of _ 0]) auto
  next
    case last
    have "limit < n + length g + length h" if "h \<in> set rs" for h
    proof -
      have "0 < length h" using Cons(2) that by simp
      then show ?thesis using last(2) by linarith
    qed
    then have "rs \<noteq> [] \<Longrightarrow> limit < n + length g + length (hd rs)" by simp
    with last Cons g show ?thesis
      by (intro exI [of _ 1]) (cases rs, auto)
  next
    case more
    with Cons(1) [of "g # chosen" "n + length g"] Cons(2-4) obtain j where
      "j \<le> length rs" "select_loop limit (n + length g) (g # chosen) rs = rev (take j rs) @ g # chosen"
      "j < length rs \<longrightarrow> limit < length (concat (rev (take (Suc j) rs) @ g # chosen))"
      "length (concat (rev (take j rs) @ g # chosen)) \<le> limit"
      by auto
    with more show ?thesis by (intro exI [of _ "Suc j"]) auto
  qed
qed auto

text \<open>A window is a suffix of the groups, as long as the limit allows and never without the last group.\<close>

lemma select_recent:
  assumes "\<forall>g \<in> set gs. g \<noteq> []"
  obtains k where "k \<le> length gs" "select_recent_groups gs limit = concat (drop k gs)"
    "gs \<noteq> [] \<Longrightarrow> k < length gs" "0 < k \<Longrightarrow> limit < length (concat (drop (k - 1) gs))"
    "length (concat (drop k gs)) \<le> limit \<or> k = length gs - 1"
proof -
  from select_loop_spec [of "rev gs" "[]" limit 0] assms obtain j where j: "j \<le> length gs"
    "select_loop limit 0 [] (rev gs) = rev (take j (rev gs))" "gs \<noteq> [] \<longrightarrow> 0 < j"
    "j < length gs \<longrightarrow> limit < length (concat (rev (take (Suc j) (rev gs))))"
    "length (concat (rev (take j (rev gs)))) \<le> limit \<or> j \<le> 1"
    by auto
  have d: "rev (take i (rev gs)) = drop (length gs - i) gs" for i by (simp add: take_rev)
  show thesis
  proof (rule that [of "length gs - j"])
    show "length (concat (drop (length gs - j) gs)) \<le> limit \<or> length gs - j = length gs - 1"
      using j by (auto simp: d le_Suc_eq)
  qed (use j in \<open>auto simp: d select_recent_groups_def\<close>)
qed

section \<open>The entries of the world\<close>

lemma drop_unprotected_keeps:
  assumes "drop_unprotected P es = Some es'"
  shows "set es' \<subseteq> set es" "filter (\<lambda>e. entry_key e \<in> set P) es' = filter (\<lambda>e. entry_key e \<in> set P) es"
proof -
  let ?p = "\<lambda>e. entry_key e \<in> set P"
  obtain x front where f: "dropWhile ?p (rev es) = x # front"
    and es': "es' = rev front @ rev (takeWhile ?p (rev es))"
    using assms by (auto simp: drop_unprotected_def split: list.splits)
  have "rev es = takeWhile ?p (rev es) @ x # front" using takeWhile_dropWhile_id [of ?p "rev es"] f by simp
  then have es: "es = rev front @ x # rev (takeWhile ?p (rev es))"
    by (metis append.assoc append_Cons append_Nil rev.simps(2) rev_append rev_rev_ident)
  have "\<not> ?p x" using f by (metis dropWhile_eq_Cons_conv)
  with arg_cong [OF es, of "filter ?p"] es' show "filter ?p es' = filter ?p es" by simp
  have "set es = set front \<union> {x} \<union> set (takeWhile ?p (rev es))" using arg_cong [OF es, of set] by auto
  then show "set es' \<subseteq> set es" using es' by auto
qed

text \<open>\<open>kept_entries rq es\<close>: entries of the world that contain every one of the protected ones.\<close>

definition kept_entries :: "context_request \<Rightarrow> entry list \<Rightarrow> bool" where
  "kept_entries rq es \<longleftrightarrow> set es \<subseteq> set (ordered_world_entries rq)
     \<and> (\<forall>e \<in> set (ordered_world_entries rq). entry_key e \<in> set (protected_world_entries rq) \<longrightarrow> e \<in> set es)"

lemma bounded_kept: "kept_entries rq (bounded_world_entries rq (protected_world_entries rq))"
proof -
  let ?es = "ordered_world_entries rq" and ?P = "protected_world_entries rq"
  have "set (bounded_world_entries rq ?P) \<subseteq> set ?es"
    by (auto simp: bounded_world_entries_def in_set_enumerate_eq)
  moreover have "e \<in> set (bounded_world_entries rq ?P)" if "e \<in> set ?es" "entry_key e \<in> set ?P" for e
  proof -
    from that(1) obtain i where "i < length ?es" "?es ! i = e" by (auto simp: in_set_conv_nth)
    then have "(i, e) \<in> set (enumerate 0 ?es)" by (simp add: in_set_enumerate_eq)
    with that(2) show ?thesis unfolding bounded_world_entries_def by force
  qed
  ultimately show ?thesis by (simp add: kept_entries_def)
qed

lemma drop_kept:
  "drop_unprotected (protected_world_entries rq) es = Some es' \<Longrightarrow> kept_entries rq es \<Longrightarrow> kept_entries rq es'"
  using drop_unprotected_keeps [of "protected_world_entries rq" es es']
  by (force simp: kept_entries_def filter_eq_iff dest: arg_cong [of _ _ set])

lemma set_ordered: "rq_world rq = Some w \<Longrightarrow> set (ordered_world_entries rq) = set (wv_entries w)"
  using set_map [of snd "enumerate 0 (wv_entries w)"] by (simp add: ordered_world_entries_def Let_def)

end
