(* ===== verification/ContextSafe.thy ===== *)
theory ContextSafe
  imports ContextLaws
begin

text \<open>
  What the context managers produce, step by step: the segments of the world, the loops that drop entries until
  the context fits, the summary and the boundary it ends at, and the errors a canonical transcript rules out.
\<close>

section \<open>Model contexts\<close>

lemma model_context_Inr:
  "make_model_context sys segs tools = Inr c \<longleftrightarrow> data_first segs \<and> validate_exchanges segs = Inr ()
     \<and> c = \<lparr>mc_system = sys, mc_segments = segs, mc_tools = tools\<rparr>"
  by (auto simp: make_model_context_def res_simps)

lemma measured_Inr:
  "measured cm rq prompt segs = Inr (c, n) \<longleftrightarrow>
     make_model_context (Some prompt) segs (cs_tools (rq_snapshot rq)) = Inr c
       \<and> estimate_input (cm_estimator cm) rq c = Inr n"
  by (auto simp: measured_def res_simps)

section \<open>The world in a context\<close>

text \<open>\<open>world_shown frepr w es d\<close>: the segment carries the kept entries of the world and says how many are omitted.\<close>

definition world_shown :: "(rat \<Rightarrow> pystr) \<Rightarrow> world_view \<Rightarrow> entry list \<Rightarrow> data_segment \<Rightarrow> bool" where
  "world_shown frepr w es d \<longleftrightarrow> ds_source_id d = Some (wv_world w) \<and> ds_revision d = Some (wv_revision w)
     \<and> ds_text d = canonical_json_dumps frepr (JArr (map entry_data es))
     \<and> ds_omitted d + length es = length (wv_entries w)"

lemma world_segment_Inr:
  assumes "world_segment frepr rq es = Inr ds"
  shows "rq_world rq = None \<Longrightarrow> ds = []"
    "rq_world rq = Some w \<Longrightarrow> \<exists>d. ds = [ContextDataSegment d] \<and> world_shown frepr w es d"
    "list_all is_data ds"
  using assms by (auto simp: world_segment_def make_data_segment_def world_shown_def res_simps Let_def split: option.splits if_splits)

lemma world_loop_Inr:
  assumes "world_loop frepr est rq c budget (protected_world_entries rq) es = Inr p" "kept_entries rq es"
  shows "\<exists>es' ds. kept_entries rq es' \<and> world_segment frepr rq es' = Inr ds
    \<and> make_model_context (mc_system c) (ds @ mc_segments c) (mc_tools c) = Inr p
    \<and> (\<forall>b. budget = Some b \<longrightarrow> (\<exists>n. estimate_input est rq p = Inr n \<and> n \<le> b))"
  using assms
proof (induction "length es" arbitrary: es rule: less_induct)
  case less
  from less(2) obtain ds q where d: "world_segment frepr rq es = Inr ds"
    "make_model_context (mc_system c) (ds @ mc_segments c) (mc_tools c) = Inr q"
    unfolding world_loop.simps [of frepr est rq c budget _ es] bind_res_Inr_iff by blast
  have step: "world_loop frepr est rq c budget (protected_world_entries rq) es = (case budget of None \<Rightarrow> Inr q
     | Some b \<Rightarrow> bind_res (estimate_input est rq q) (\<lambda>n. if n \<le> b then Inr q
         else case drop_unprotected (protected_world_entries rq) es of
           None \<Rightarrow> Inl (BudgetError ''context_budget_exceeded'' ''minimum_retained_context'')
         | Some es \<Rightarrow> world_loop frepr est rq c budget (protected_world_entries rq) es))"
    by (subst world_loop.simps) (simp only: d bind_res.simps)
  show ?case
  proof (cases budget)
    case None
    with less(2) step have "p = q" by simp
    with None d less(3) show ?thesis by auto
  next
    case (Some b)
    with less(2) step obtain n where n: "estimate_input est rq q = Inr n"
      by (cases "estimate_input est rq q") auto
    show ?thesis
    proof (cases "n \<le> b")
      case True
      with less(2) step Some n have "p = q" by simp
      with True Some n d less(3) show ?thesis by auto
    next
      case False
      with less(2) step Some n obtain es' where e: "drop_unprotected (protected_world_entries rq) es = Some es'"
        "world_loop frepr est rq c budget (protected_world_entries rq) es' = Inr p"
        by (cases "drop_unprotected (protected_world_entries rq) es") simp_all
      show ?thesis
        by (rule less(1) [OF drop_unprotected_shorter [OF e(1)] e(2) drop_kept [OF e(1) less(3)]])
    qed
  qed
qed

lemma compact_world_Inr:
  assumes "compact_world cm rq prompt segs limit (protected_world_entries rq) es = Inr (ds, c, n)" "kept_entries rq es"
  shows "\<exists>es'. kept_entries rq es' \<and> world_segment (cx_float (cm_codec cm)) rq es' = Inr ds
    \<and> measured cm rq prompt (ds @ segs) = Inr (c, n)"
  using assms
proof (induction "length es" arbitrary: es rule: less_induct)
  case less
  from less(2) obtain ds' c' n' where d: "world_segment (cx_float (cm_codec cm)) rq es = Inr ds'"
    "measured cm rq prompt (ds' @ segs) = Inr (c', n')"
    unfolding compact_world.simps [of cm rq prompt segs limit _ es] bind_res_Inr_iff measured_Inr by blast
  then have step: "compact_world cm rq prompt segs limit (protected_world_entries rq) es =
     (if n' \<le> limit then Inr (ds', c', n') else case drop_unprotected (protected_world_entries rq) es of
       None \<Rightarrow> Inr (ds', c', n') | Some es \<Rightarrow> compact_world cm rq prompt segs limit (protected_world_entries rq) es)"
    by (subst compact_world.simps) (simp only: measured_Inr bind_res.simps)
  show ?case
  proof (cases "n' \<le> limit \<or> drop_unprotected (protected_world_entries rq) es = None")
    case True
    with less(2) step have "(ds', c', n') = (ds, c, n)" by (auto split: if_splits)
    with d less(3) show ?thesis by auto
  next
    case False
    with less(2) step obtain es' where e: "drop_unprotected (protected_world_entries rq) es = Some es'"
      "compact_world cm rq prompt segs limit (protected_world_entries rq) es' = Inr (ds, c, n)"
      by (cases "drop_unprotected (protected_world_entries rq) es") simp_all
    show ?thesis
      by (rule less(1) [OF drop_unprotected_shorter [OF e(1)] e(2) drop_kept [OF e(1) less(3)]])
  qed
qed

section \<open>Budgets and summaries\<close>

lemma input_budget_positive: "input_budget b w m r = Inr limit \<Longrightarrow> 0 < limit"
  by (auto simp: input_budget_def Let_def split: list.splits if_splits)

lemma target_within:
  assumes "0 < limit" "compactor_ok cm"
  shows "max 1 (nat \<lfloor>of_nat limit * cm_ratio cm\<rfloor>) \<le> limit"
proof -
  have "of_nat limit * cm_ratio cm \<le> of_nat limit * 1"
    using assms(2) by (intro mult_left_mono) (auto simp: compactor_ok_def)
  then have "\<lfloor>of_nat limit * cm_ratio cm\<rfloor> \<le> int limit" by (metis floor_mono floor_of_nat mult.right_neutral)
  then show ?thesis using assms(1) by auto
qed

lemma find_end_Inr:
  "find_end cm rq prompt ds placeholder target bs = Inr b \<Longrightarrow> b \<in> set bs"
  by (induction bs) (auto simp: res_simps split: if_splits)

lemma new_summary_Inr:
  assumes "new_summary cm stop_at ms t i = Inr s"
  shows "su_end s = stop_at" "su_text s = t"
    "stop_at \<in> set bs \<Longrightarrow> stop_at \<le> length ms \<Longrightarrow> valid_summary cm s ms bs = Inr True"
  using assms by (auto simp: new_summary_def make_summary_def valid_summary_def res_simps split: sum.splits if_splits)

text \<open>What a compaction answers.\<close>

lemma compact_Inr:
  assumes "compact_transcript cm stop rq prompt gs current ds limit = Inr p"
  shows "\<exists>b n t i s. new_summary cm b (cs_transcript (rq_snapshot rq)) t i = Inr s
    \<and> 0 < minimum_tail_start gs (cm_min_recent cm)
    \<and> b \<in> set (group_boundaries gs) \<and> b \<le> length (concat (take (minimum_tail_start gs (cm_min_recent cm)) gs))
    \<and> (\<forall>old. current = Some old \<longrightarrow> su_end old < b) \<and> 0 < b
    \<and> measured cm rq prompt (ds @ SummarySegment t # map MessageSegment (drop b (cs_transcript (rq_snapshot rq))))
        = Inr (pc_context p, n)
    \<and> n \<le> max 1 (nat \<lfloor>of_nat limit * cm_ratio cm\<rfloor>)
    \<and> pc_update p = Some \<lparr>cu_summary = Some s, cu_expected = map_option su_digest (rq_compaction rq)\<rparr>"
proof -
  let ?ms = "cs_transcript (rq_snapshot rq)"
  let ?tail = "minimum_tail_start gs (cm_min_recent cm)"
  let ?target = "max 1 (nat \<lfloor>of_nat limit * cm_ratio cm\<rfloor>)"
  let ?old = "case current of None \<Rightarrow> 0 | Some s \<Rightarrow> su_end s"
  let ?candidates = "filter (\<lambda>b. ?old < b \<and> b \<le> length (concat (take ?tail gs))) (group_boundaries gs)"
  from assms obtain h b t used i s segs n where
    tail: "?tail \<noteq> 0" and f: "find_end cm rq prompt ds h ?target ?candidates = Inr b"
    and s: "new_summary cm b ?ms t i = Inr s" and segs: "project_segments ?ms (Some s) = Inr segs"
    and m: "measured cm rq prompt (ds @ segs) = Inr (pc_context p, n)" and n: "n \<le> ?target"
    and u: "pc_update p = Some \<lparr>cu_summary = Some s, cu_expected = map_option su_digest (rq_compaction rq)\<rparr>"
    unfolding compact_transcript_def Let_def by (auto simp: res_simps not_less simp del: max.bounded_iff)
  from find_end_Inr [OF f] have b: "b \<in> set (group_boundaries gs)" "?old < b" "b \<le> length (concat (take ?tail gs))"
    by auto
  from segs new_summary_Inr(1,2) [OF s]
  have "segs = SummarySegment t # map MessageSegment (drop b ?ms)"
    by (auto simp: project_segments_def split: if_splits)
  with tail b s m n u show ?thesis by (intro exI [of _ b] exI [of _ n] exI [of _ t] exI [of _ i] exI [of _ s]) auto
qed

text \<open>What the preparation answers: a context that fits as it is, or a compaction.\<close>

lemma compact_prepare_Inr:
  assumes "compact_prepare cm stop rq = Inr p"
  shows "\<exists>gs prompt current limit segs es ds c n clear. message_groups (cs_transcript (rq_snapshot rq)) = Inr gs
    \<and> input_budget (cm_budget cm) (rq_window rq) (rq_max_output rq) (cm_default_reserve cm) = Inr limit
    \<and> (current = None \<or> current = rq_compaction rq)
    \<and> (\<forall>s. current = Some s \<longrightarrow> valid_summary cm s (cs_transcript (rq_snapshot rq)) (group_boundaries gs) = Inr True)
    \<and> project_segments (cs_transcript (rq_snapshot rq)) current = Inr segs
    \<and> kept_entries rq es \<and> world_segment (cx_float (cm_codec cm)) rq es = Inr ds
    \<and> measured cm rq prompt (ds @ segs) = Inr (c, n)
    \<and> (n \<le> limit \<and> p = \<lparr>pc_context = c, pc_usage = no_usage, pc_update = clear\<rparr>
          \<and> (\<forall>u. clear = Some u \<longrightarrow> cu_summary u = None)
       \<or> limit < n \<and> compact_transcript cm stop rq prompt gs current ds limit = Inr p)"
proof -
  let ?ms = "cs_transcript (rq_snapshot rq)" and ?P = "protected_world_entries rq"
  from assms obtain prompt gs valid limit segs ds c n where
    g: "message_groups ?ms = Inr gs"
    and v: "(case rq_compaction rq of None \<Rightarrow> Inr False | Some s \<Rightarrow> valid_summary cm s ?ms (group_boundaries gs)) = Inr valid"
    and l: "input_budget (cm_budget cm) (rq_window rq) (rq_max_output rq) (cm_default_reserve cm) = Inr limit"
    and s: "project_segments ?ms (if valid then rq_compaction rq else None) = Inr segs"
    and w: "compact_world cm rq prompt segs limit ?P (bounded_world_entries rq ?P) = Inr (ds, c, n)"
    and p: "(if n \<le> limit then Inr \<lparr>pc_context = c, pc_usage = no_usage, pc_update =
          (case rq_compaction rq of Some s \<Rightarrow> if valid then None else Some \<lparr>cu_summary = None, cu_expected = Some (su_digest s)\<rparr>
           | None \<Rightarrow> None)\<rparr>
        else compact_transcript cm stop rq prompt gs (if valid then rq_compaction rq else None) ds limit) = Inr p"
    unfolding compact_prepare_def Let_def bind_res_Inr_iff split_paired_Ex prod.case by blast
  let ?clear = "case rq_compaction rq of Some s \<Rightarrow> if valid then None else Some \<lparr>cu_summary = None, cu_expected = Some (su_digest s)\<rparr>
           | None \<Rightarrow> None"
  have "\<forall>u. ?clear = Some u \<longrightarrow> cu_summary u = None" by (auto split: option.splits)
  moreover have "\<forall>s. (if valid then rq_compaction rq else None) = Some s \<longrightarrow> valid_summary cm s ?ms (group_boundaries gs) = Inr True"
    using v by (auto split: if_splits)
  moreover obtain es where "kept_entries rq es" "world_segment (cx_float (cm_codec cm)) rq es = Inr ds"
    "measured cm rq prompt (ds @ segs) = Inr (c, n)"
    using compact_world_Inr [OF w bounded_kept] by blast
  ultimately show ?thesis using g l s p
    by (intro exI [of _ gs] exI [of _ prompt] exI [of _ "if valid then rq_compaction rq else None"] exI [of _ limit]
      exI [of _ segs] exI [of _ es] exI [of _ ds] exI [of _ c] exI [of _ n] exI [of _ ?clear]) (auto split: if_splits)
qed

text \<open>Where a valid summary ends.\<close>

lemma valid_boundary:
  assumes "valid_summary cm s (concat gs) (group_boundaries gs) = Inr True"
  obtains k where "k \<le> length gs" "su_end s = length (concat (take k gs))"
  using assms by (auto simp: valid_summary_def group_boundaries_iff res_simps split: if_splits)

lemma project_boundary:
  assumes "su_end s = length (concat (take k gs))"
  shows "project_segments (concat gs) (Some s) = Inr (SummarySegment (su_text s) # map MessageSegment (concat (drop k gs)))"
proof -
  have "length (concat (take k gs)) \<le> length (concat gs)"
    by (metis append_take_drop_id concat_append le_add1 length_append)
  then show ?thesis by (simp add: project_segments_def assms drop_boundary)
qed

lemma boundary_le_groups:
  assumes "length (concat (take k gs)) \<le> length (concat (take j gs))" "list_all message_group gs" "k \<le> length gs"
  shows "k \<le> j"
proof (rule ccontr)
  assume "\<not> k \<le> j"
  then have "take k gs = take j gs @ drop j (take k gs)" by (metis append_take_drop_id min_absorb1 nle_le take_take)
  from arg_cong [OF this, of "length \<circ> concat"] assms(1) have "concat (drop j (take k gs)) = []" by simp
  moreover have "gs ! j \<in> set (drop j (take k gs))"
    using \<open>\<not> k \<le> j\<close> assms(3) by (metis Cons_nth_drop_Suc length_take linorder_not_le list.set_intros(1) min_absorb2 nth_take)
  moreover have "message_group (gs ! j)" using assms(2,3) \<open>\<not> k \<le> j\<close> by (simp add: list_all_length)
  then have "gs ! j \<noteq> []" by auto
  ultimately show False by (auto simp: concat_eq_Nil_conv)
qed


text \<open>
  A context error is impossible on a canonical transcript: \<open>unsplit r\<close> says that \<open>r\<close> is not one, and each step
  of the managers keeps it as long as the segments it puts together are whole groups.
\<close>

definition unsplit :: "context_error + 'a \<Rightarrow> bool" where
  "unsplit r \<longleftrightarrow> (\<forall>m. r \<noteq> Inl (ContextError m))"

named_theorems unsplits \<open>steps that raise no context error\<close>

lemma unsplit_Inr [simp]: "unsplit (Inr x)"
  by (simp add: unsplit_def)

lemma unsplit_Inl [simp]: "unsplit (Inl e) \<longleftrightarrow> (\<forall>m. e \<noteq> ContextError m)"
  by (simp add: unsplit_def)

lemma unsplit_bind: "unsplit r \<Longrightarrow> (\<And>x. r = Inr x \<Longrightarrow> unsplit (f x)) \<Longrightarrow> unsplit (bind_res r f)"
  by (cases r) (auto simp: unsplit_def)

lemma unsplit_raise: "(\<And>m. e \<noteq> ContextError m) \<Longrightarrow> unsplit (raise_if b e)"
  by (auto simp: unsplit_def res_simps)

lemma unsplit_fold: "(\<And>x s. x \<in> set xs \<Longrightarrow> unsplit (f x s)) \<Longrightarrow> unsplit (fold_res f xs s)"
  by (induction xs arbitrary: s) (auto intro: unsplit_bind)

lemma check_unsplit: "unsplit (check_context stop n)"
  by (simp add: check_context_def unsplit_raise)

lemma estimated_unsplit: "unsplit (estimated invalid r)"
  by (simp add: estimated_def split: host_answer.split)

lemma estimate_unsplit: "unsplit (estimate_input est rq c)"
  by (auto simp: estimate_input_def intro!: unsplit_bind estimated_unsplit split: option.split)

lemma world_segment_unsplit: "unsplit (world_segment frepr rq es)"
  by (auto simp: world_segment_def make_data_segment_def Let_def split: option.split)

lemma input_budget_unsplit: "unsplit (input_budget b w m r)"
  by (auto simp: input_budget_def Let_def split: list.split)

lemma digest_unsplit: "unsplit (transcript_digest cm ms)"
  by (simp add: transcript_digest_def split: option.split)

lemma valid_unsplit: "unsplit (valid_summary cm s ms bs)"
  by (auto simp: valid_summary_def intro!: unsplit_bind digest_unsplit)

lemma new_summary_unsplit: "unsplit (new_summary cm n ms t i)"
  by (auto simp: new_summary_def intro!: unsplit_bind digest_unsplit split: sum.split)

lemma ask_unsplit: "unsplit (ask_summarizer cm old ms)"
  by (simp add: ask_summarizer_def split: summary_answer.split)

lemmas [unsplits] = check_unsplit estimate_unsplit world_segment_unsplit input_budget_unsplit valid_unsplit
  new_summary_unsplit ask_unsplit

lemma context_unsplit:
  "list_all is_data ds \<Longrightarrow> list_all message_group gs \<Longrightarrow> ss = [] \<or> ss = [SummarySegment t] \<Longrightarrow>
     unsplit (make_model_context sys (ds @ ss @ map MessageSegment (concat gs)) tools)"
  by (simp add: context_of_groups del: append_assoc)

lemma measured_unsplit:
  "list_all is_data ds \<Longrightarrow> list_all message_group gs \<Longrightarrow> ss = [] \<or> ss = [SummarySegment t] \<Longrightarrow>
     unsplit (measured cm rq prompt (ds @ ss @ map MessageSegment (concat gs)))"
  unfolding measured_def by (intro unsplit_bind context_unsplit estimate_unsplit) auto

text \<open>\<open>whole_groups segs\<close>: at most a summary, then messages of whole groups.\<close>

definition whole_groups :: "segment list \<Rightarrow> bool" where
  "whole_groups segs \<longleftrightarrow> (\<exists>ss t gs. list_all message_group gs \<and> (ss = [] \<or> ss = [SummarySegment t])
     \<and> segs = ss @ map MessageSegment (concat gs))"

lemma measured_whole: "list_all is_data ds \<Longrightarrow> whole_groups segs \<Longrightarrow> unsplit (measured cm rq prompt (ds @ segs))"
  by (auto simp: whole_groups_def intro: measured_unsplit [of _ _ "[]" _ cm rq prompt, simplified]
    measured_unsplit [of _ _ "[SummarySegment t]" t cm rq prompt for t, simplified])

lemma whole_messages: "list_all message_group gs \<Longrightarrow> whole_groups (map MessageSegment (concat gs))"
  unfolding whole_groups_def by (rule exI [of _ "[]"], rule exI [of _ "[]"], rule exI [of _ gs]) simp

lemma whole_summary: "list_all message_group gs \<Longrightarrow> whole_groups (SummarySegment t # map MessageSegment (concat gs))"
  unfolding whole_groups_def by (intro exI [of _ "[SummarySegment t]"]) auto

lemma groups_taken: "list_all message_group gs \<Longrightarrow> list_all message_group (take k gs)"
  "list_all message_group gs \<Longrightarrow> list_all message_group (drop k gs)"
  by (auto simp: list_all_iff dest: in_set_takeD in_set_dropD)

lemma world_loop_unsplit:
  assumes "whole_groups (mc_segments c)"
  shows "unsplit (world_loop frepr est rq c budget P es)"
proof (induction "length es" arbitrary: es rule: less_induct)
  case less
  have m: "unsplit (make_model_context sys (ds @ mc_segments c) tools)" if "list_all is_data ds" for ds sys tools
    using assms that context_unsplit [of ds _ "[]" "[]" sys tools] context_unsplit [of ds _ "[SummarySegment t]" t sys tools for t]
    by (auto simp: whole_groups_def)
  show ?case
  proof (cases budget)
    case None
    then show ?thesis by (subst world_loop.simps) (auto intro!: unsplit_bind unsplits m simp: world_segment_Inr(3))
  next
    case (Some b)
    show ?thesis unfolding Some by (subst world_loop.simps)
      (auto intro!: unsplit_bind unsplits m less [unfolded Some] simp: world_segment_Inr(3) drop_unprotected_shorter
        split: option.split)
  qed
qed

lemma compact_world_unsplit:
  assumes "whole_groups segs"
  shows "unsplit (compact_world cm rq prompt segs limit P es)"
proof (induction "length es" arbitrary: es rule: less_induct)
  case less
  have "unsplit (measured cm rq prompt (ds @ segs))" if "list_all is_data ds" for ds
    using assms that by (rule measured_whole [rotated])
  then have m: "unsplit (make_model_context (Some prompt) (ds @ segs) (cs_tools (rq_snapshot rq)))" if "list_all is_data ds" for ds
    using that unfolding measured_def unsplit_def bind_res_Inl_iff by blast
  show ?case
    by (subst compact_world.simps)
      (auto intro!: unsplit_bind unsplits m less simp: world_segment_Inr(3) drop_unprotected_shorter split: option.split)
qed

section \<open>The compaction\<close>

lemma check_groups_unsplit:
  assumes "list_all is_data ds" "list_all message_group gs"
  shows "unsplit (check_groups cm rq prompt ds limit gs)"
  unfolding check_groups_def
proof (rule unsplit_fold)
  fix g s assume "g \<in> set gs"
  then have "list_all message_group [g]" using assms(2) by (auto simp: list_all_iff)
  from measured_whole [OF assms(1) whole_messages [OF this]]
  show "unsplit (bind_res (measured cm rq prompt (ds @ map MessageSegment g)) (\<lambda>(c, n).
      raise_if (n > limit) (BudgetError ''context_budget_exceeded'' ''atomic_group_too_large'')))"
    by (auto intro!: unsplit_bind unsplit_raise)
qed

lemma find_end_unsplit:
  assumes "list_all is_data ds" "list_all message_group gs" "cs_transcript (rq_snapshot rq) = concat gs"
    "set bs \<subseteq> set (group_boundaries gs)"
  shows "unsplit (find_end cm rq prompt ds placeholder target bs)"
  using assms(4)
proof (induction bs)
  case (Cons b bs)
  then obtain k where "b = length (concat (take k gs))" by (auto simp: group_boundaries_iff)
  then have "drop b (cs_transcript (rq_snapshot rq)) = concat (drop k gs)" by (simp add: assms(3) drop_boundary)
  with measured_whole [OF assms(1) whole_summary [OF groups_taken(2) [OF assms(2)], of placeholder k]] Cons
  show ?case by (auto intro!: unsplit_bind)
qed simp

lemma summarizer_input_unsplit:
  assumes "list_all message_group gs"
  shows "unsplit (check_summarizer_input cm old (concat gs))"
proof -
  have "unsplit (make_model_context sys ((case old of None \<Rightarrow> [] | Some s \<Rightarrow> [SummarySegment (su_text s)])
      @ map MessageSegment (concat gs)) [])" for sys
    using context_unsplit [of "[]" gs "[]" "[]" sys "[]"] assms
      context_unsplit [of "[]" gs "[SummarySegment t]" t sys "[]" for t] by (cases old) auto
  then show ?thesis
    unfolding check_summarizer_input_def
    by (auto intro!: unsplit_bind unsplits unsplit_raise split: option.split host_answer.split)
qed

lemma compact_unsplit:
  assumes "list_all is_data ds" "message_groups (cs_transcript (rq_snapshot rq)) = Inr gs"
    "\<forall>s. current = Some s \<longrightarrow> valid_summary cm s (cs_transcript (rq_snapshot rq)) (group_boundaries gs) = Inr True"
  shows "unsplit (compact_transcript cm stop rq prompt gs current ds limit)"
proof -
  let ?ms = "cs_transcript (rq_snapshot rq)"
  let ?old = "case current of None \<Rightarrow> 0 | Some s \<Rightarrow> su_end s"
  from assms(2) have g: "list_all message_group gs" "?ms = concat gs" by (auto simp: message_groups_iff)
  obtain j where j: "?old = length (concat (take j gs))"
    using assms(3) that [of 0] by (cases current) (auto simp: g elim: valid_boundary)
  have tail: "unsplit (check_groups cm rq prompt ds limit (drop k gs))" for k
    by (intro check_groups_unsplit assms groups_taken g)
  have static: "unsplit (measured cm rq prompt ds)"
    using measured_whole [OF assms(1) whole_messages [of "[]"]] by simp
  have input: "unsplit (check_summarizer_input cm current (drop ?old (take b ?ms)))"
    if "b \<in> set (group_boundaries gs)" "?old < b" for b
  proof -
    from that(1) obtain k where k: "b = length (concat (take k gs))" by (auto simp: group_boundaries_iff)
    from that(2) between_boundaries [of j gs k] have "drop ?old (take b ?ms) = concat (drop j (take k gs))"
      by (auto simp: k j g(2))
    then show ?thesis by (simp add: summarizer_input_unsplit groups_taken g)
  qed
  have projected: "project_segments ?ms (Some s) = Inr (SummarySegment (su_text s) # map MessageSegment (drop b ?ms))
      \<and> unsplit (measured cm rq prompt (ds @ SummarySegment (su_text s) # map MessageSegment (drop b ?ms)))"
    if "b \<in> set (group_boundaries gs)" "new_summary cm b ?ms t i = Inr s" for b s t i
  proof -
    from that(1) obtain k where k: "b = length (concat (take k gs))" by (auto simp: group_boundaries_iff)
    with new_summary_Inr(1) [OF that(2)] have "su_end s = length (concat (take k gs))" by simp
    from project_boundary [OF this] measured_whole [OF assms(1) whole_summary [OF groups_taken(2) [OF g(1)]]]
    show ?thesis by (simp add: k g(2) drop_boundary)
  qed
  show ?thesis
    unfolding compact_transcript_def Let_def
    by (auto intro!: unsplit_bind unsplits unsplit_raise tail static input
        find_end_unsplit [OF assms(1) g] simp: projected dest!: find_end_Inr)
qed

section \<open>The preparations\<close>

lemma prompt_unsplit: "(\<And>q. unsplit (render q)) \<Longrightarrow> unsplit (request_prompt render rq)"
  by (auto simp: request_prompt_def intro: unsplit_bind)

lemma projected_whole:
  assumes "message_groups ms = Inr gs" "\<forall>s. current = Some s \<longrightarrow> valid_summary cm s ms (group_boundaries gs) = Inr True"
  shows "\<exists>segs. project_segments ms current = Inr segs \<and> whole_groups segs"
proof (cases current)
  case None
  with assms(1) show ?thesis by (auto simp: project_segments_def message_groups_iff intro: whole_messages)
next
  case (Some s)
  from assms(1) have g: "ms = concat gs" "list_all message_group gs" by (simp_all add: message_groups_iff)
  with assms(2) Some obtain k where "su_end s = length (concat (take k gs))" by (auto elim: valid_boundary)
  from project_boundary [OF this] whole_summary [OF groups_taken(2) [OF g(2)]] Some g(1) show ?thesis by auto
qed

lemma compact_prepare_unsplit:
  assumes "blocks (cs_transcript (rq_snapshot rq))" "\<And>q. unsplit (cm_render cm q)"
  shows "unsplit (compact_prepare cm stop rq)"
proof -
  let ?ms = "cs_transcript (rq_snapshot rq)"
  from assms(1) obtain gs where g: "message_groups ?ms = Inr gs" by (auto simp: blocks_groups)
  have current: "unsplit (project_segments ?ms (if valid then rq_compaction rq else None))
      \<and> (\<forall>segs. project_segments ?ms (if valid then rq_compaction rq else None) = Inr segs \<longrightarrow> whole_groups segs)
      \<and> (\<forall>ds prompt limit. list_all is_data ds \<longrightarrow>
           unsplit (compact_transcript cm stop rq prompt gs (if valid then rq_compaction rq else None) ds limit))"
    if "(case rq_compaction rq of None \<Rightarrow> Inr False | Some s \<Rightarrow> valid_summary cm s ?ms (group_boundaries gs)) = Inr valid" for valid
  proof -
    have v: "\<forall>s. (if valid then rq_compaction rq else None) = Some s \<longrightarrow> valid_summary cm s ?ms (group_boundaries gs) = Inr True"
      using that by (auto split: if_splits)
    from projected_whole [OF g v] compact_unsplit [OF _ g v] show ?thesis by auto
  qed
  have yes: "unsplit (compact_transcript cm stop rq prompt gs (rq_compaction rq) ds limit)"
    if "(case rq_compaction rq of None \<Rightarrow> Inr False | Some s \<Rightarrow> valid_summary cm s ?ms (group_boundaries gs)) = Inr True"
      "list_all is_data ds" for prompt ds limit
    using current [OF that(1)] that(2) by simp
  have no: "unsplit (compact_transcript cm stop rq prompt gs None ds limit)"
    if "(case rq_compaction rq of None \<Rightarrow> Inr False | Some s \<Rightarrow> valid_summary cm s ?ms (group_boundaries gs)) = Inr False"
      "list_all is_data ds" for prompt ds limit
    using current [OF that(1)] that(2) by simp
  have asked: "unsplit (case rq_compaction rq of None \<Rightarrow> Inr False | Some s \<Rightarrow> valid_summary cm s ?ms (group_boundaries gs))"
    by (simp add: valid_unsplit split: option.split)
  have data: "list_all is_data ds"
    if "compact_world cm rq prompt segs limit (protected_world_entries rq)
          (bounded_world_entries rq (protected_world_entries rq)) = Inr (ds, c, n)" for prompt segs limit ds c n
    using compact_world_Inr [OF that bounded_kept] world_segment_Inr(3) by blast
  show ?thesis
    unfolding compact_prepare_def Let_def
    by (intro unsplit_bind unsplits prompt_unsplit assms)
      (auto intro!: unsplit_bind unsplits asked compact_world_unsplit yes no simp: g dest: current dest!: data)
qed

lemma window_prepare_unsplit:
  assumes "blocks (cs_transcript (rq_snapshot rq))" "\<And>q. unsplit (render q)"
  shows "unsplit (window_prepare frepr render est budget m stop rq)"
proof -
  from assms(1) obtain gs where g: "message_groups (cs_transcript (rq_snapshot rq)) = Inr gs" by (auto simp: blocks_groups)
  then have w: "list_all message_group gs" by (simp add: message_groups_iff)
  then have "\<forall>g \<in> set gs. g \<noteq> []" by (auto simp: list_all_iff)
  from select_recent [OF this, of m] obtain k where s: "select_recent_groups gs m = concat (drop k gs)" by metis
  note whole = whole_messages [OF groups_taken(2) [OF w, of k]]
  have c: "unsplit (make_model_context sys (map MessageSegment (concat (drop k gs))) tools)" for sys tools
    using context_unsplit [of "[]" "drop k gs" "[]" "[]" sys tools] groups_taken(2) [OF w] by simp
  have "unsplit (prepare_world_context frepr est budget rq c)" if "whole_groups (mc_segments c)" for c
    unfolding prepare_world_context_def Let_def
    by (intro unsplit_bind world_loop_unsplit that) (auto intro!: unsplit_bind unsplits)
  then show ?thesis
    unfolding window_prepare_def
    by (auto intro!: unsplit_bind check_unsplit prompt_unsplit assms c simp: g s whole model_context_Inr)
qed

end
