(* ===== verification/ContextProps.thy ===== *)
theory ContextProps
  imports ContextSafe SessionCodec
begin

text \<open>
  The properties of the context managers: groups and the transcript validator, the window, the world a context
  shows, the budget and the summary of a compaction, and the errors that cannot happen.
\<close>

section \<open>Groups\<close>

text \<open>
  C28. The grouping of messages succeeds exactly on the transcripts the validator takes as complete (their sizes
  apart), and its answer is the only partition of the transcript into whole exchanges.
\<close>

theorem groups_match_validator:
  "(validate limits True ms = Inr () \<longleftrightarrow> (\<exists>gs. message_groups ms = Inr gs) \<and> list_all (content_ok limits) ms)
   \<and> (message_groups ms = Inr gs \<longleftrightarrow> concat gs = ms \<and> list_all message_group gs)"
  by (simp add: validate_iff transcript_ok_def message_groups_iff flip: blocks_groups) (metis blocks_groups message_groups_iff)

section \<open>A small conversation\<close>

text \<open>A question, an answer and a new question that names an entity the world knows nothing certain about.\<close>

definition demo_conversation :: "message list" where
  "demo_conversation = [UserMessage [] 0 [97], AssistantMessage [] [] None 0 [98],
     UserMessage [JsonContent (JObj [(ascii ''entity'', JObj [(ascii ''id'', JStr [116])])])] 0 [99]]"

definition demo_entry :: entry where
  "demo_entry = \<lparr>en_subject = EntityRef [116], en_predicate = [112], en_status = UNKNOWN_STATUS, en_value = V_json JNull,
     en_candidates = [], en_claims = [], en_evidence = [], en_valid_at = None, en_scope = None\<rparr>"

definition demo_request :: "world_view option \<Rightarrow> context_request" where
  "demo_request w = \<lparr>rq_snapshot = \<lparr>cs_session = [115], cs_transcript = demo_conversation, cs_prompt = None,
      cs_tools = [], cs_skills = []\<rparr>,
     rq_max_output = None, rq_window = None, rq_compaction = None, rq_world = w, rq_projection = None\<rparr>"

definition demo_world :: world_view where
  "demo_world = \<lparr>wv_world = [119], wv_captured = [], wv_snapshot = \<lparr>sn_revision = 1, sn_entries = [demo_entry]\<rparr>\<rparr>"

text \<open>Every segment costs one token, and two fit.\<close>

definition demo_compactor :: compactor where
  "demo_compactor = \<lparr>cm_budget = \<lparr>bg_max = Some 2, bg_reserve = 0\<rparr>,
     cm_estimator = (\<lambda>c. HostGives (length (mc_segments c))),
     cm_summarizer = (\<lambda>_ _. SummaryGives [115] no_usage None), cm_ratio = 1, cm_min_recent = 1, cm_render = (\<lambda>_. Inr None),
     cm_default_reserve = 0, cm_version = 1, cm_sum_budget = None, cm_sum_window = None, cm_sum_output = None,
     cm_sum_estimator = (\<lambda>_. HostInvalid), cm_codec = \<lparr>cx_float = (\<lambda>_. [48]), cx_sha = (\<lambda>_. [104])\<rparr>\<rparr>"

lemma demo_compactor_ok: "compactor_ok demo_compactor"
  by (simp add: compactor_ok_def demo_compactor_def)

lemma demo_groups: "message_groups demo_conversation = Inr (map (\<lambda>m. [m]) demo_conversation)"
  by (simp add: demo_conversation_def calls_tools_def)

lemma demo_digest: "transcript_digest demo_compactor (take 2 demo_conversation) = Inr [104]"
proof -
  have "plain_json (JArr (map canonical_message_data (take 2 demo_conversation)))"
    by (simp add: demo_conversation_def canonical_message_data_def ascii_def)
  from plain_encodes [OF plain_dumps [OF this, of "\<lambda>_. [48]" True]] show ?thesis
    by (simp add: transcript_digest_def canonical_message_digest_def canonical_json_digest_def demo_compactor_def)
qed

definition demo_summary :: context_summary where
  "demo_summary = \<lparr>su_end = 2, su_digest = [104], su_text = [115], su_version = 1, su_summarizer = None\<rparr>"

lemmas demo_defs = demo_request_def demo_conversation_def demo_compactor_def

lemma demo_new_summary: "new_summary demo_compactor 2 demo_conversation [115] None = Inr demo_summary"
  by (simp add: new_summary_def demo_digest make_summary_def demo_summary_def) (simp add: demo_compactor_def)

text \<open>The three messages do not fit; the first two are summarised.\<close>

lemma demo_compacts:
  "\<exists>p. compact_prepare demo_compactor (\<lambda>_. False) (demo_request None) = Inr p
     \<and> pc_update p = Some \<lparr>cu_summary = Some demo_summary, cu_expected = None\<rparr>"
proof -
  let ?rq = "demo_request None"
  let ?gs = "map (\<lambda>m. [m]) demo_conversation"
  have fits: "input_budget (cm_budget demo_compactor) (rq_window ?rq) (rq_max_output ?rq) (cm_default_reserve demo_compactor)
      = Inr 2"
    by (simp add: input_budget_def demo_compactor_def demo_request_def List.map_filter_def)
  have world: "world_segment f ?rq es = Inr []" "protected_world_entries ?rq = []" "bounded_world_entries ?rq [] = []" for f es
    by (simp_all add: world_segment_def protected_world_entries_def bounded_world_entries_def ordered_world_entries_def
        demo_request_def)
  have measured: "measured demo_compactor ?rq prompt segs = Inr (\<lparr>mc_system = Some prompt, mc_segments = segs, mc_tools = []\<rparr>, length segs)"
    if "whole_groups segs" for prompt segs
    using that context_of_groups [of "[]" _ _ _ "Some prompt" "[]"]
    by (fastforce simp: whole_groups_def measured_Inr demo_request_def estimate_input_def estimated_def demo_compactor_def)
  have group: "list_all message_group ?gs" using demo_groups by (simp add: message_groups_iff)
  note whole = whole_messages [OF groups_taken(1) [OF groups_taken(2) [OF group]]]
    whole_summary [OF groups_taken(2) [OF group]] whole_messages [OF group]
  have taken: "compact_world demo_compactor ?rq prompt (map MessageSegment demo_conversation) 2 [] [] =
      Inr ([], \<lparr>mc_system = Some prompt, mc_segments = map MessageSegment demo_conversation, mc_tools = []\<rparr>, 3)" for prompt
    using measured [OF whole(3), of prompt] by (subst compact_world.simps)
      (simp add: world measured_Inr drop_unprotected_def demo_conversation_def)
  have parts: "minimum_tail_start ?gs 1 = 2" "group_boundaries ?gs = [0, 1, 2, 3]"
    "length (concat (take 2 ?gs)) = 2" "drop 2 ?gs = [drop 2 demo_conversation]"
    by (simp_all add: minimum_tail_start_def group_boundaries_def demo_conversation_def numeral_2_eq_2)
  have cm: "cm_min_recent demo_compactor = 1" "cm_ratio demo_compactor = 1" "cm_sum_budget demo_compactor = None"
    "cm_summarizer demo_compactor = (\<lambda>_ _. SummaryGives [115] no_usage None)" "cm_render demo_compactor = (\<lambda>_. Inr None)"
    by (simp_all add: demo_compactor_def)
  have rq: "cs_transcript (rq_snapshot ?rq) = demo_conversation" "rq_compaction ?rq = None"
    by (simp_all add: demo_request_def)
  have sum: "su_end demo_summary = 2" "su_text demo_summary = [115]" by (simp_all add: demo_summary_def)
  have long: "length demo_conversation = 3" by (simp add: demo_conversation_def)
  have ends: "find_end demo_compactor ?rq prompt [] h 2 [1, 2] = Inr 2" for prompt h
    using measured [OF whole(2), of prompt h 1] measured [OF whole(2), of prompt h 2]
    by (simp add: rq long drop_map)
  have tails: "check_groups demo_compactor ?rq prompt [] 2 [drop 2 demo_conversation] = Inr ()" for prompt
    using measured [OF whole(1), of prompt 1 2] by (simp add: check_groups_def long parts)
  have "\<exists>p. compact_transcript demo_compactor (\<lambda>_. False) ?rq prompt ?gs None [] 2 = Inr p
      \<and> pc_update p = Some \<lparr>cu_summary = Some demo_summary, cu_expected = None\<rparr>" for prompt
    using measured [OF whole(2), of prompt "[115]" 2] measured [OF whole_messages [of "[]"], of prompt]
    by (simp add: compact_transcript_def rq cm parts tails [folded parts(4), unfolded drop_map] ends check_summarizer_input_def ask_summarizer_def
        check_context_def demo_new_summary project_segments_def sum long drop_map Let_def
        del: One_nat_def find_end.simps)
  then show ?thesis
    unfolding compact_prepare_def Let_def
    by (simp add: check_context_def rq cm request_prompt_def demo_groups fits project_segments_def world taken)
qed

lemma bounded_length:
  "rq_world rq = Some w \<Longrightarrow> length (bounded_world_entries rq P) \<le> length (wv_entries w)"
proof -
  assume "rq_world rq = Some w"
  then have "length (ordered_world_entries rq) = length (wv_entries w)" by (simp add: ordered_world_entries_def Let_def)
  then show ?thesis
    using length_filter_le [of "\<lambda>(i, e). i < 64 \<or> entry_key e \<in> set P" "enumerate 0 (ordered_world_entries rq)"]
    by (simp add: bounded_world_entries_def)
qed

lemma demo_window:
  "\<exists>p. window_prepare (\<lambda>_. []) (\<lambda>_. Inr None) (\<lambda>_. HostGives 0) None 2 (\<lambda>_. False) (demo_request (Some demo_world)) = Inr p"
proof -
  let ?rq = "demo_request (Some demo_world)" and ?gs = "map (\<lambda>m. [m]) demo_conversation"
  have group: "list_all message_group ?gs" using demo_groups by (simp add: message_groups_iff)
  obtain k where k: "select_recent_groups ?gs 2 = concat (drop k ?gs)"
    using select_recent [of ?gs 2] by auto
  note groups = groups_taken(2) [OF group, of k]
  have world: "rq_world ?rq = Some demo_world" by (simp add: demo_request_def)
  have "length (bounded_world_entries ?rq (protected_world_entries ?rq)) \<le> length (wv_entries demo_world)"
    by (rule bounded_length [OF world])
  then have "\<exists>d. world_segment (\<lambda>_. []) ?rq (bounded_world_entries ?rq (protected_world_entries ?rq)) = Inr [ContextDataSegment d]"
    by (simp add: world_segment_def world make_data_segment_def Let_def blank_def strip_def lstrip_def rstrip_def py_space_def ascii_def)
  then obtain d where
    d: "world_segment (\<lambda>_. []) ?rq (bounded_world_entries ?rq (protected_world_entries ?rq)) = Inr [ContextDataSegment d]" ..
  have c: "make_model_context sys (map MessageSegment (concat (drop k ?gs))) tools =
      Inr \<lparr>mc_system = sys, mc_segments = map MessageSegment (concat (drop k ?gs)), mc_tools = tools\<rparr>" for sys tools
    using context_of_groups [of "[]" _ "[]" _ sys tools, OF _ groups] by simp
  have q: "make_model_context sys (ContextDataSegment d # map MessageSegment (concat (drop k ?gs))) tools =
      Inr \<lparr>mc_system = sys, mc_segments = ContextDataSegment d # map MessageSegment (concat (drop k ?gs)), mc_tools = tools\<rparr>"
    for sys tools
    using context_of_groups [of "[ContextDataSegment d]" _ "[]" _ sys tools, OF _ groups] by simp
  have rq: "cs_transcript (rq_snapshot ?rq) = demo_conversation" by (simp add: demo_request_def)
  have fields: "rq_window ?rq = None" "rq_max_output ?rq = None" "rq_projection ?rq = None"
    "cs_prompt (rq_snapshot ?rq) = None" by (simp_all add: demo_request_def)
  show ?thesis
    unfolding window_prepare_def prepare_world_context_def Let_def rq demo_groups
    by (subst world_loop.simps) (simp add: check_context_def request_prompt_def k c q d world input_budget_def
        List.map_filter_def fields estimate_input_def estimated_def)
qed

lemma demo_named: "[116] \<in> set (request_entities (demo_request (Some demo_world)))"
  by (simp add: request_entities_def demo_defs message_entities_def ref_id_def foreign_world_def ascii_def)

section \<open>The window\<close>

lemma window_prepare_Inr:
  assumes "window_prepare frepr render est budget m stop rq = Inr p"
  obtains gs prompt es ds b where "message_groups (cs_transcript (rq_snapshot rq)) = Inr gs" "kept_entries rq es"
    "world_segment frepr rq es = Inr ds"
    "mc_segments (pc_context p) = ds @ map MessageSegment (select_recent_groups gs m)"
    "pc_update p = None"
proof -
  from assms obtain gs prompt c q where g: "message_groups (cs_transcript (rq_snapshot rq)) = Inr gs"
    and c: "make_model_context (Some prompt) (map MessageSegment (select_recent_groups gs m)) (cs_tools (rq_snapshot rq)) = Inr c"
    and q: "prepare_world_context frepr est budget rq c = Inr q" and p: "p = prepared_plain q"
    by (auto simp: window_prepare_def res_simps)
  from q obtain limit where "world_loop frepr est rq c limit (protected_world_entries rq)
      (bounded_world_entries rq (protected_world_entries rq)) = Inr q"
    unfolding prepare_world_context_def Let_def bind_res_Inr_iff by blast
  from world_loop_Inr [OF this bounded_kept] c g p that show thesis
    by (force simp: model_context_Inr prepared_plain_def)
qed

text \<open>
  The window manager keeps a suffix of whole groups after the segment of the world: never without the last group,
  within the limit unless the last group alone is larger, and no group that still fits is left out.
\<close>

theorem window_keeps_recent:
  assumes "window_prepare frepr render est budget m stop rq = Inr p"
  shows "\<exists>gs k ds. message_groups (cs_transcript (rq_snapshot rq)) = Inr gs \<and> k \<le> length gs \<and> list_all is_data ds
    \<and> mc_segments (pc_context p) = ds @ map MessageSegment (concat (drop k gs))
    \<and> (gs \<noteq> [] \<longrightarrow> k < length gs)
    \<and> (length (concat (drop k gs)) \<le> m \<or> k = length gs - 1)
    \<and> (0 < k \<longrightarrow> m < length (concat (drop (k - 1) gs)))"
proof -
  from window_prepare_Inr [OF assms] obtain gs es ds where
    g: "message_groups (cs_transcript (rq_snapshot rq)) = Inr gs" "world_segment frepr rq es = Inr ds"
    "mc_segments (pc_context p) = ds @ map MessageSegment (select_recent_groups gs m)" by metis
  have "\<forall>g \<in> set gs. g \<noteq> []" using g(1) by (fastforce simp: message_groups_iff list_all_iff)
  from select_recent [OF this, of m] obtain k where "k \<le> length gs" "select_recent_groups gs m = concat (drop k gs)"
    "gs \<noteq> [] \<Longrightarrow> k < length gs" "0 < k \<Longrightarrow> m < length (concat (drop (k - 1) gs))"
    "length (concat (drop k gs)) \<le> m \<or> k = length gs - 1" by metis
  with g world_segment_Inr(3) [OF g(2)] show ?thesis
    by (intro exI [of _ gs] exI [of _ k] exI [of _ ds]) auto
qed

theorem window_keeps_recent_witness:
  "\<exists>p gs k ds. window_prepare (\<lambda>_. []) (\<lambda>_. Inr None) (\<lambda>_. HostGives 0) None 2 (\<lambda>_. False) (demo_request (Some demo_world)) = Inr p
    \<and> message_groups demo_conversation = Inr gs \<and> k < length gs
    \<and> mc_segments (pc_context p) = ds @ map MessageSegment (concat (drop k gs))
    \<and> (length (concat (drop k gs)) \<le> 2 \<or> k = length gs - 1)"
proof -
  obtain p where p: "window_prepare (\<lambda>_. []) (\<lambda>_. Inr None) (\<lambda>_. HostGives 0) None 2 (\<lambda>_. False) (demo_request (Some demo_world)) = Inr p"
    using demo_window by blast
  have rq: "cs_transcript (rq_snapshot (demo_request w)) = demo_conversation" for w by (simp add: demo_request_def)
  have some: "message_groups demo_conversation = Inr gs \<Longrightarrow> gs \<noteq> []" for gs
    using demo_groups by (auto simp: demo_conversation_def simp del: message_groups.simps)
  from window_keeps_recent [OF p] p some show ?thesis unfolding rq by metis
qed

section \<open>The world\<close>

lemma kept_relevant:
  assumes "kept_entries rq es" "rq_world rq = Some w"
  shows "set es \<subseteq> set (wv_entries w)"
    "\<forall>e \<in> set (wv_entries w). en_status e \<noteq> KNOWN \<and> er_id (en_subject e) \<in> set (request_entities rq) \<longrightarrow> e \<in> set es"
  using assms by (auto simp: kept_entries_def protected_world_entries_def set_ordered)

lemma full_prepare_Inr:
  assumes "full_prepare frepr render est budget stop rq = Inr p"
  obtains es ds segs where "kept_entries rq es" "world_segment frepr rq es = Inr ds" "mc_segments (pc_context p) = ds @ segs"
proof -
  from assms obtain c q where q: "prepare_world_context frepr est budget rq c = Inr q" and p: "p = prepared_plain q"
    by (auto simp: full_prepare_def res_simps)
  from q obtain limit where "world_loop frepr est rq c limit (protected_world_entries rq)
      (bounded_world_entries rq (protected_world_entries rq)) = Inr q"
    unfolding prepare_world_context_def Let_def bind_res_Inr_iff by blast
  from world_loop_Inr [OF this bounded_kept] p that show thesis
    by (force simp: model_context_Inr prepared_plain_def)
qed

lemma compact_prepare_world:
  assumes "compact_prepare cm stop rq = Inr p"
  obtains es ds segs where "kept_entries rq es" "world_segment (cx_float (cm_codec cm)) rq es = Inr ds"
    "mc_segments (pc_context p) = ds @ segs"
proof -
  from compact_prepare_Inr [OF assms] obtain gs prompt current limit segs es ds c n clear where
    k: "kept_entries rq es" "world_segment (cx_float (cm_codec cm)) rq es = Inr ds"
    and m: "measured cm rq prompt (ds @ segs) = Inr (c, n)"
    and p: "p = \<lparr>pc_context = c, pc_usage = no_usage, pc_update = clear\<rparr> \<or> compact_transcript cm stop rq prompt gs current ds limit = Inr p"
    by metis
  from p show thesis
  proof
    assume "p = \<lparr>pc_context = c, pc_usage = no_usage, pc_update = clear\<rparr>"
    with m that [OF k] show thesis by (auto simp: measured_Inr model_context_Inr)
  next
    assume "compact_transcript cm stop rq prompt gs current ds limit = Inr p"
    from compact_Inr [OF this] that [OF k] show thesis by (auto simp: measured_Inr model_context_Inr)
  qed
qed

text \<open>
  C29. Whichever manager prepares it, a context that is given a world begins with a segment of its entries, and no entry
  of uncertain status about an entity the conversation or a tool names is dropped for the budget; the segment says how
  many entries are omitted.
\<close>

theorem relevant_uncertainty_kept:
  assumes "full_prepare frepr render est budget stop rq = Inr p \<or> window_prepare frepr render est budget m stop rq = Inr p
      \<or> compact_prepare cm stop rq = Inr p \<and> frepr = cx_float (cm_codec cm)"
    and "rq_world rq = Some w"
  shows "\<exists>d es segs. mc_segments (pc_context p) = ContextDataSegment d # segs
    \<and> ds_text d = canonical_json_dumps frepr (JArr (map entry_data es))
    \<and> ds_omitted d + length es = length (wv_entries w) \<and> set es \<subseteq> set (wv_entries w)
    \<and> (\<forall>e \<in> set (wv_entries w). en_status e \<noteq> KNOWN \<and> er_id (en_subject e) \<in> set (request_entities rq) \<longrightarrow> e \<in> set es)"
proof -
  obtain es ds segs where k: "kept_entries rq es" "world_segment frepr rq es = Inr ds" "mc_segments (pc_context p) = ds @ segs"
    using assms(1) full_prepare_Inr window_prepare_Inr compact_prepare_world by metis
  from world_segment_Inr(2) [OF k(2) assms(2)] k(3) kept_relevant [OF k(1) assms(2)] show ?thesis
    by (auto simp: world_shown_def)
qed

theorem relevant_uncertainty_kept_witness:
  "\<exists>p d es segs. window_prepare (\<lambda>_. []) (\<lambda>_. Inr None) (\<lambda>_. HostGives 0) None 2 (\<lambda>_. False) (demo_request (Some demo_world)) = Inr p
    \<and> mc_segments (pc_context p) = ContextDataSegment d # segs \<and> demo_entry \<in> set es \<and> ds_omitted d + length es = 1"
proof -
  obtain p where p: "window_prepare (\<lambda>_. []) (\<lambda>_. Inr None) (\<lambda>_. HostGives 0) None 2 (\<lambda>_. False) (demo_request (Some demo_world)) = Inr p"
    using demo_window by blast
  have w: "rq_world (demo_request (Some demo_world)) = Some demo_world" by (simp add: demo_request_def)
  have e: "demo_entry \<in> set (wv_entries demo_world)" "en_status demo_entry \<noteq> KNOWN" "length (wv_entries demo_world) = 1"
    "er_id (en_subject demo_entry) \<in> set (request_entities (demo_request (Some demo_world)))"
    using demo_named by (simp_all add: demo_world_def demo_entry_def)
  from relevant_uncertainty_kept [OF disjI2 [OF disjI1 [OF p]] w] p e show ?thesis by metis
qed

section \<open>Compaction\<close>



text \<open>
  C31. A compaction ends the summarised part at a boundary of groups after the one it replaces, keeps everything behind it
  in full and at least the configured number of turns of the user, and its summary is valid for the transcript, so that
  the next preparation recognises it.
\<close>

theorem compaction_keeps_turns:
  assumes "compactor_ok cm" "compact_prepare cm stop rq = Inr p" "pc_update p = Some u" "cu_summary u = Some s"
  shows "\<exists>gs k ds. message_groups (cs_transcript (rq_snapshot rq)) = Inr gs \<and> k \<le> length gs \<and> list_all is_data ds
    \<and> su_end s = length (concat (take k gs)) \<and> 0 < su_end s
    \<and> mc_segments (pc_context p) = ds @ SummarySegment (su_text s) # map MessageSegment (concat (drop k gs))
    \<and> cm_min_recent cm \<le> length (filter user_group (drop k gs))
    \<and> valid_summary cm s (cs_transcript (rq_snapshot rq)) (group_boundaries gs) = Inr True"
proof -
  let ?ms = "cs_transcript (rq_snapshot rq)"
  from compact_prepare_Inr [OF assms(2)] obtain gs prompt current limit segs es ds where
    g: "message_groups ?ms = Inr gs" and d: "world_segment (cx_float (cm_codec cm)) rq es = Inr ds"
    and c: "compact_transcript cm stop rq prompt gs current ds limit = Inr p"
    using assms(3,4) by (metis prepared_context.select_convs(3) option.distinct(1))
  let ?tail = "minimum_tail_start gs (cm_min_recent cm)"
  from g have gs: "?ms = concat gs" "list_all message_group gs" by (simp_all add: message_groups_iff)
  from compact_Inr [OF c] assms(3,4) obtain b n t i where
    s: "new_summary cm b ?ms t i = Inr s" and tail: "0 < ?tail"
    and b: "b \<in> set (group_boundaries gs)" "b \<le> length (concat (take ?tail gs))"
    "0 < b"
    and m: "measured cm rq prompt (ds @ SummarySegment t # map MessageSegment (drop b ?ms)) = Inr (pc_context p, n)"
    by auto
  from b(1) obtain k where k: "k \<le> length gs" "b = length (concat (take k gs))" by (auto simp: group_boundaries_iff)
  have "k \<le> ?tail" using boundary_le_groups [OF _ gs(2) k(1)] b(2) k(2) by simp
  have turns: "length (filter user_group (drop ?tail gs)) = cm_min_recent cm"
    using minimum_tail_turns(2) [OF tail] assms(1) by (simp add: compactor_ok_def)
  have "drop ?tail gs = drop (?tail - k) (drop k gs)" using \<open>k \<le> ?tail\<close> by simp
  then have "length (filter user_group (drop ?tail gs)) \<le> length (filter user_group (drop k gs))"
    by (metis append_take_drop_id filter_append le_add2 length_append)
  moreover have "b \<le> length ?ms"
    unfolding gs(1) k(2) by (metis append_take_drop_id concat_append le_add1 length_append)
  ultimately show ?thesis
    using g k b m d turns drop_boundary [of k gs] new_summary_Inr(1,2) [OF s] new_summary_Inr(3) [OF s b(1)]
    by (intro exI [of _ gs] exI [of _ k] exI [of _ ds])
      (simp add: gs measured_Inr model_context_Inr world_segment_Inr(3))
qed

theorem compaction_keeps_turns_witness:
  "\<exists>p gs k. compact_prepare demo_compactor (\<lambda>_. False) (demo_request None) = Inr p \<and> message_groups demo_conversation = Inr gs
    \<and> su_end demo_summary = length (concat (take k gs)) \<and> cm_min_recent demo_compactor \<le> length (filter user_group (drop k gs))"
proof -
  obtain p where p: "compact_prepare demo_compactor (\<lambda>_. False) (demo_request None) = Inr p"
    "pc_update p = Some \<lparr>cu_summary = Some demo_summary, cu_expected = None\<rparr>" using demo_compacts by blast
  have rq: "cs_transcript (rq_snapshot (demo_request w)) = demo_conversation" for w by (simp add: demo_request_def)
  from compaction_keeps_turns [OF demo_compactor_ok p, of demo_summary] p(1) show ?thesis unfolding rq by auto
qed

text \<open>
  On a canonical transcript no manager of the runtime raises the error of a split tool exchange: neither the window
  nor a compaction, whatever boundary it tries, ever separates a call from its results.
\<close>

theorem compaction_never_splits:
  assumes "blocks (cs_transcript (rq_snapshot rq))" "\<forall>q m. cm_render cm q \<noteq> Inl (ContextError m)"
  shows "compact_prepare cm stop rq \<noteq> Inl (ContextError e)
    \<and> window_prepare frepr (cm_render cm) est budget m stop rq \<noteq> Inl (ContextError e)"
proof -
  have "unsplit (cm_render cm q)" for q using assms(2) by (simp add: unsplit_def)
  with compact_prepare_unsplit [OF assms(1)] window_prepare_unsplit [OF assms(1)] show ?thesis
    by (simp add: unsplit_def)
qed

theorem compaction_never_splits_witness:
  "blocks demo_conversation \<and> compact_prepare demo_compactor (\<lambda>_. False) (demo_request None) \<noteq> Inl (ContextError [])"
proof -
  have b: "blocks demo_conversation" using demo_groups by (simp add: blocks_groups)
  then have "blocks (cs_transcript (rq_snapshot (demo_request None)))" by (simp add: demo_request_def)
  moreover have "\<forall>q m. cm_render demo_compactor q \<noteq> Inl (ContextError m)" by (simp add: demo_compactor_def)
  ultimately show ?thesis using b compaction_never_splits by blast
qed

end
