(* ===== verification/ModelTypes.thy ===== *)
theory ModelTypes
  imports ContextTypes
begin

text \<open>
  The canonical model protocol of \<open>roboagent/model/client.py\<close>: capabilities, settings, the events of a stream
  and the response, with the checks of their constructors, and what a model may be asked. Counts and
  sequences are natural numbers, the checks against negative ones are in the constructors that take integers.
\<close>

text \<open>
  A \<open>ForeignError\<close> is an exception of a library the client calls: its \<open>status_code\<close> and the name of its class. A
  \<open>ModelValueError\<close> is a \<open>ValueError\<close>, a \<open>TypeError\<close> or an unreadable file, whose class has no meaning to the client.
\<close>

datatype model_error =
    ModelProtocolError string
  | ModelCapabilityError string
  | ModelProviderError string
  | MediaResolutionError string
  | ForeignError "int option" string
  | ModelValueError

text \<open>An optional text that is tested for its truth.\<close>

definition given :: "pystr option \<Rightarrow> pystr option" where
  "given t = (case t of Some [] \<Rightarrow> None | _ \<Rightarrow> t)"

section \<open>Modalities and capabilities\<close>

datatype modality = M_TEXT | M_IMAGE | M_AUDIO | M_FILE

fun modality_of :: "content \<Rightarrow> modality" where
  "modality_of (TextContent _) = M_TEXT"
| "modality_of (JsonContent _) = M_TEXT"
| "modality_of (ArtifactReferenceContent _) = M_FILE"
| "modality_of (ImageContent _ _ _) = M_IMAGE"
| "modality_of (AudioContent _ _ _) = M_AUDIO"
| "modality_of (FileContent _ _ _) = M_FILE"

record capabilities =
  mo_inputs :: "modality list"
  mo_outputs :: "modality list"
  mo_tools :: bool
  mo_parallel :: bool
  mo_window :: "nat option"

definition make_capabilities ::
  "modality list \<Rightarrow> modality list \<Rightarrow> bool \<Rightarrow> bool \<Rightarrow> int option \<Rightarrow> model_error + capabilities" where
  "make_capabilities inputs outputs tools parallel window =
     (if (case window of None \<Rightarrow> False | Some n \<Rightarrow> n < 1) then Inl ModelValueError
      else Inr \<lparr>mo_inputs = inputs, mo_outputs = outputs, mo_tools = tools, mo_parallel = parallel,
                mo_window = map_option nat window\<rparr>)"

record model_settings =
  ms_temperature :: "pyfloat option"
  ms_max_output :: "nat option"
  ms_top_p :: "rat option"
  ms_extra :: jobj

definition make_model_settings ::
  "pyfloat option \<Rightarrow> int option \<Rightarrow> rat option \<Rightarrow> jobj \<Rightarrow> model_error + model_settings" where
  "make_model_settings temperature max_output top_p extra =
     (if (case temperature of None \<Rightarrow> False | Some (Fin _) \<Rightarrow> False | Some _ \<Rightarrow> True) then Inl ModelValueError
      else if (case top_p of None \<Rightarrow> False | Some p \<Rightarrow> \<not> (0 < p \<and> p \<le> 1)) then Inl ModelValueError
      else if (case max_output of None \<Rightarrow> False | Some n \<Rightarrow> n < 1) then Inl ModelValueError
      else Inr \<lparr>ms_temperature = temperature, ms_max_output = map_option nat max_output, ms_top_p = top_p, ms_extra = extra\<rparr>)"

definition make_usage :: "int option \<Rightarrow> int option \<Rightarrow> int option \<Rightarrow> model_error + usage" where
  "make_usage i out both =
     (if \<exists>v \<in> set [i, out, both]. case v of None \<Rightarrow> False | Some n \<Rightarrow> n < 0 then Inl ModelValueError
      else Inr (Usage (map_option nat i) (map_option nat out) (map_option nat both)))"

section \<open>Events and responses\<close>

datatype finish_reason = FR_STOP | FR_TOOL_CALL | FR_LENGTH | FR_CONTENT_FILTER | FR_OTHER

record model_response =
  mr_message :: message
  mr_finish :: finish_reason
  mr_usage :: "usage option"

datatype model_event =
    ResponseStarted (ev_sequence: nat) pystr
  | TextDelta (ev_sequence: nat) pystr
  | ToolCallStarted (ev_sequence: nat) nat pystr "pystr option"
  | ToolCallArgumentsDelta (ev_sequence: nat) nat pystr pystr
  | ToolCallCompleted (ev_sequence: nat) nat tool_call
  | UsageUpdated (ev_sequence: nat) usage
  | ResponseCompleted (ev_sequence: nat) model_response

definition make_call_started :: "nat \<Rightarrow> nat \<Rightarrow> pystr \<Rightarrow> pystr option \<Rightarrow> model_error + model_event" where
  "make_call_started n i cid name =
     (if cid = [] \<or> name = Some [] then Inl ModelValueError else Inr (ToolCallStarted n i cid name))"

section \<open>What a model may be asked\<close>

definition segment_supported :: "capabilities \<Rightarrow> segment \<Rightarrow> bool" where
  "segment_supported caps s = (case s of
     MessageSegment m \<Rightarrow> list_all (\<lambda>c. modality_of c \<in> set (mo_inputs caps)) (msg_content m)
   | _ \<Rightarrow> True)"

definition validate_model_context :: "capabilities \<Rightarrow> model_context \<Rightarrow> model_error + unit" where
  "validate_model_context caps c =
     (if \<not> list_all (segment_supported caps) (mc_segments c) then Inl (ModelCapabilityError ''unsupported_input_modality'')
      else if mc_tools c \<noteq> [] \<and> \<not> mo_tools caps then Inl (ModelCapabilityError ''model_does_not_support_tools'')
      else Inr ())"

section \<open>Collecting a stream\<close>

text \<open>
  The state of \<open>collect_model_stream\<close>. \<open>co_states\<close> is the id, the name and whether the call is complete, by
  index; \<open>co_seen\<close> are the events the observer was given.
\<close>

record collector =
  co_expected :: nat
  co_started :: bool
  co_completed :: "model_response option"
  co_calls :: "(nat, tool_call) dict"
  co_states :: "(nat, pystr \<times> pystr option \<times> bool) dict"
  co_ids :: "pystr list"
  co_usage :: "usage option"
  co_seen :: "model_event list"

definition fresh_collector :: collector where
  "fresh_collector = \<lparr>co_expected = 0, co_started = False, co_completed = None, co_calls = [], co_states = [],
     co_ids = [], co_usage = None, co_seen = []\<rparr>"

definition call_eq :: "tool_call \<Rightarrow> tool_call \<Rightarrow> bool" where
  "call_eq a b \<longleftrightarrow> tc_id a = tc_id b \<and> tc_name a = tc_name b \<and> jobj_eq (tc_arguments a) (tc_arguments b)"

definition incomplete_call :: "collector \<Rightarrow> bool" where
  "incomplete_call co \<longleftrightarrow> (\<exists>(i, cid, name, finished) \<in> set (co_states co). \<not> finished)"

definition sorted_calls :: "(nat, tool_call) dict \<Rightarrow> tool_call list" where
  "sorted_calls calls = map snd (sort_key fst calls)"

definition protocol :: "string \<Rightarrow> model_error + 'a" where
  "protocol code = Inl (ModelProtocolError code)"

text \<open>The branches for one kind of event each.\<close>

definition collect_started :: "collector \<Rightarrow> model_error + collector" where
  "collect_started co = (if co_started co then protocol ''duplicate_response_started'' else Inr (co\<lparr>co_started := True\<rparr>))"

definition collect_call_started :: "nat \<Rightarrow> pystr \<Rightarrow> pystr option \<Rightarrow> collector \<Rightarrow> model_error + collector" where
  "collect_call_started i cid name co =
     (if i \<in> dkeys (co_states co) then protocol ''duplicate_tool_call_started''
      else if cid \<in> set (co_ids co) then protocol ''duplicate_tool_call_id''
      else Inr (co\<lparr>co_states := dset i (cid, name, False) (co_states co), co_ids := cid # co_ids co\<rparr>))"

definition collect_delta :: "nat \<Rightarrow> pystr \<Rightarrow> collector \<Rightarrow> model_error + collector" where
  "collect_delta i cid co = (case dget (co_states co) i of
     Some (known, _, False) \<Rightarrow> if known = cid then Inr co else protocol ''invalid_tool_call_delta_state''
   | _ \<Rightarrow> protocol ''invalid_tool_call_delta_state'')"

definition collect_call_completed :: "nat \<Rightarrow> tool_call \<Rightarrow> collector \<Rightarrow> model_error + collector" where
  "collect_call_completed i call co = (case dget (co_states co) i of
     None \<Rightarrow> protocol ''invalid_tool_call_delta_state''
   | Some (cid, name, finished) \<Rightarrow>
       if finished \<or> i \<in> dkeys (co_calls co) then protocol ''duplicate_tool_call_completed''
       else if cid \<noteq> tc_id call \<or> (case name of None \<Rightarrow> False | Some n \<Rightarrow> n \<noteq> tc_name call)
       then protocol ''invalid_tool_call_delta_state''
       else Inr (co\<lparr>co_calls := dset i call (co_calls co), co_states := dset i (cid, name, True) (co_states co)\<rparr>))"

definition collect_completed :: "model_response \<Rightarrow> collector \<Rightarrow> model_error + collector" where
  "collect_completed r co =
     (if incomplete_call co then protocol ''incomplete_tool_call''
      else if \<not> list_all2 call_eq (msg_tool_calls (mr_message r)) (sorted_calls (co_calls co))
      then protocol ''tool_call_response_mismatch''
      else if co_usage co \<noteq> None \<and> mr_usage r \<noteq> co_usage co then protocol ''invalid_provider_response''
      else Inr (co\<lparr>co_completed := Some r\<rparr>))"

text \<open>One turn of the loop, up to the observer.\<close>

definition collect_event :: "model_event \<Rightarrow> collector \<Rightarrow> model_error + collector" where
  "collect_event e co =
     (if ev_sequence e \<noteq> co_expected co then protocol ''invalid_stream_sequence''
      else if co_completed co \<noteq> None then protocol ''invalid_stream_sequence''
      else let co = co\<lparr>co_expected := co_expected co + 1\<rparr> in
        bind_res (case e of
            ResponseStarted n _ \<Rightarrow> bind_res (collect_started co) (\<lambda>co'.
              if n \<noteq> 0 then protocol ''invalid_stream_sequence'' else Inr co')
          | _ \<Rightarrow> if \<not> co_started co then protocol ''invalid_stream_sequence'' else (case e of
              ToolCallStarted _ i cid name \<Rightarrow> collect_call_started i cid name co
            | ToolCallArgumentsDelta _ i cid _ \<Rightarrow> collect_delta i cid co
            | ToolCallCompleted _ i call \<Rightarrow> collect_call_completed i call co
            | UsageUpdated _ u \<Rightarrow> Inr (co\<lparr>co_usage := Some u\<rparr>)
            | ResponseCompleted _ r \<Rightarrow> collect_completed r co
            | _ \<Rightarrow> Inr co))
        (\<lambda>co. Inr (co\<lparr>co_seen := co_seen co @ [e]\<rparr>)))"

text \<open>The whole stream; on an error the collector is the one before the event.\<close>

fun collect_events :: "model_event list \<Rightarrow> collector \<Rightarrow> collector \<times> model_error option" where
  "collect_events [] co = (co, None)"
| "collect_events (e # es) co = (case collect_event e co of
     Inl err \<Rightarrow> (co, Some err) | Inr co' \<Rightarrow> collect_events es co')"

fun with_id :: "pystr option \<Rightarrow> message \<Rightarrow> message" where
  "with_id (Some mid) (AssistantMessage content calls reasoning ts _) = AssistantMessage content calls reasoning ts mid"
| "with_id _ m = m"

definition collect_end :: "capabilities \<Rightarrow> pystr option \<Rightarrow> collector \<Rightarrow> model_error + model_response" where
  "collect_end caps mid co = (case co_completed co of
     None \<Rightarrow> protocol ''missing_terminal_response''
   | Some r \<Rightarrow>
       if incomplete_call co then protocol ''incomplete_tool_call''
       else if list_ex (\<lambda>c. modality_of c \<notin> set (mo_outputs caps)) (msg_content (mr_message r))
       then Inl (ModelCapabilityError ''unsupported_output_modality'')
       else if msg_tool_calls (mr_message r) \<noteq> [] \<and> \<not> mo_tools caps
       then Inl (ModelCapabilityError ''model_does_not_support_tools'')
       else if \<not> mo_parallel caps \<and> length (msg_tool_calls (mr_message r)) > 1
       then Inl (ModelCapabilityError ''parallel_tool_calls_unsupported'')
       else Inr (r\<lparr>mr_message := with_id mid (mr_message r)\<rparr>))"

text \<open>\<open>collect_model_stream\<close> on what the iterator yields and how it ends: the answer, and what the observer saw.\<close>

definition collect_model_stream ::
  "capabilities \<Rightarrow> model_context \<Rightarrow> pystr option \<Rightarrow> model_event list \<times> model_error option
     \<Rightarrow> (model_error + model_response) \<times> model_event list" where
  "collect_model_stream caps c mid s = (case validate_model_context caps c of
     Inl e \<Rightarrow> (Inl e, [])
   | Inr _ \<Rightarrow>
       (case collect_events (fst s) fresh_collector of
          (co, Some e) \<Rightarrow> (Inl e, co_seen co)
        | (co, None) \<Rightarrow>
            (case snd s of Some e \<Rightarrow> (Inl e, co_seen co) | None \<Rightarrow> (collect_end caps mid co, co_seen co))))"


text \<open>
  The adapter for OpenAI-compatible providers (\<open>_stream_chunks\<close> of \<open>model/client.py\<close>): the chunks of a
  provider become the events of the canonical protocol. \<open>json.loads\<close> and \<open>uuid4\<close> are parameters. What was
  yielded before an exception stays yielded, so a step answers the adapter and the exception.
\<close>

section \<open>What a provider sends\<close>

record fragment =
  fg_index :: nat
  fg_id :: "pystr option"
  fg_function :: "(pystr option \<times> pystr option) option"

record choice =
  ch_finish :: "pystr option"
  ch_reasoning :: "pystr option"
  ch_content :: "pystr option"
  ch_fragments :: "fragment list"

record chunk =
  ck_id :: "pystr option"
  ck_usage :: "(int option \<times> int option \<times> int option) option"
  ck_choices :: "choice list"

record adapter_env =
  ae_model :: pystr
  ae_preserve :: bool
  ae_fresh :: "nat \<Rightarrow> pystr"
  ae_loads :: "pystr \<Rightarrow> pyval option"
  ae_now :: rat
  ae_response :: pystr
  ae_message :: pystr

section \<open>The adapter\<close>

text \<open>\<open>ad_calls\<close> is id, name and arguments so far, by index; \<open>ad_done\<close> the normalized calls; \<open>ad_out\<close> what was yielded.\<close>

record adapter =
  ad_id :: pystr
  ad_text :: "pystr list"
  ad_reasoning :: "pystr list"
  ad_calls :: "(nat, pystr \<times> pystr \<times> pystr) dict"
  ad_finish :: finish_reason
  ad_usage :: "usage option"
  ad_done :: "tool_call list"
  ad_out :: "model_event list"

type_synonym outcome = "adapter \<times> model_error option"

definition sequence :: "adapter \<Rightarrow> nat" where
  "sequence a = length (ad_out a)"

definition yields :: "model_event \<Rightarrow> adapter \<Rightarrow> adapter" where
  "yields e a = a\<lparr>ad_out := ad_out a @ [e]\<rparr>"

fun then_out :: "outcome \<Rightarrow> (adapter \<Rightarrow> outcome) \<Rightarrow> outcome" where
  "then_out (a, None) f = f a"
| "then_out (a, Some e) f = (a, Some e)"

fun each_out :: "('x \<Rightarrow> adapter \<Rightarrow> outcome) \<Rightarrow> 'x list \<Rightarrow> adapter \<Rightarrow> outcome" where
  "each_out f [] a = (a, None)"
| "each_out f (x # xs) a = then_out (f x a) (each_out f xs)"

definition start_adapter :: "adapter_env \<Rightarrow> adapter" where
  "start_adapter env = \<lparr>ad_id = ae_response env, ad_text = [], ad_reasoning = [], ad_calls = [], ad_finish = FR_OTHER,
     ad_usage = None, ad_done = [], ad_out = [ResponseStarted 0 (ae_response env)]\<rparr>"

definition finish_reason_of :: "pystr \<Rightarrow> finish_reason" where
  "finish_reason_of v =
     (if v = ascii ''stop'' then FR_STOP
      else if v = ascii ''tool_calls'' \<or> v = ascii ''function_call'' then FR_TOOL_CALL
      else if v = ascii ''length'' then FR_LENGTH
      else if v = ascii ''content_filter'' then FR_CONTENT_FILTER
      else FR_OTHER)"

section \<open>Fragments of tool calls\<close>

definition generated_id :: "adapter_env \<Rightarrow> nat \<Rightarrow> pystr" where
  "generated_id env i = ae_model env @ ascii '':tool:'' @ nat_digits i @ ascii '':'' @ ae_fresh env i"

definition function_name :: "fragment \<Rightarrow> pystr option" where
  "function_name f = (case fg_function f of None \<Rightarrow> None | Some (name, _) \<Rightarrow> name)"

text \<open>A fragment with a new index starts a call.\<close>

definition start_call :: "adapter_env \<Rightarrow> fragment \<Rightarrow> adapter \<Rightarrow> outcome" where
  "start_call env f a =
     (if fg_index f \<in> dkeys (ad_calls a) then (a, None)
      else
        let cid = (case given (fg_id f) of Some c \<Rightarrow> c | None \<Rightarrow> generated_id env (fg_index f));
            name = function_name f;
            a' = a\<lparr>ad_calls := dset (fg_index f) (cid, case name of None \<Rightarrow> [] | Some n \<Rightarrow> n, []) (ad_calls a)\<rparr>
        in case make_call_started (sequence a) (fg_index f) cid name of
             Inl e \<Rightarrow> (a', Some e)
           | Inr e \<Rightarrow> (yields e a', None))"

definition name_call :: "fragment \<Rightarrow> adapter \<Rightarrow> outcome" where
  "name_call f a = (case dget (ad_calls a) (fg_index f) of
     None \<Rightarrow> (a, None)
   | Some (cid, name, args) \<Rightarrow>
       if given (fg_id f) \<noteq> None \<and> fg_id f \<noteq> Some cid then (a, Some (ModelProtocolError ''invalid_tool_call_delta_state''))
       else (case given (function_name f) of
          None \<Rightarrow> (a, None)
        | Some n \<Rightarrow>
            if name \<noteq> [] \<and> name \<noteq> n then (a, Some (ModelProtocolError ''invalid_tool_call_delta_state''))
            else (a\<lparr>ad_calls := dset (fg_index f) (cid, n, args) (ad_calls a)\<rparr>, None)))"

definition extend_call :: "fragment \<Rightarrow> adapter \<Rightarrow> outcome" where
  "extend_call f a = (case (dget (ad_calls a) (fg_index f), fg_function f) of
     (Some (cid, name, args), Some (_, piece)) \<Rightarrow> (case given piece of
        None \<Rightarrow> (a, None)
      | Some p \<Rightarrow> (yields (ToolCallArgumentsDelta (sequence a) (fg_index f) cid p)
          (a\<lparr>ad_calls := dset (fg_index f) (cid, name, args @ p) (ad_calls a)\<rparr>), None))
   | _ \<Rightarrow> (a, None))"

definition take_fragment :: "adapter_env \<Rightarrow> fragment \<Rightarrow> adapter \<Rightarrow> outcome" where
  "take_fragment env f a = then_out (start_call env f a) (\<lambda>a. then_out (name_call f a) (extend_call f))"

section \<open>Chunks\<close>

definition take_choice :: "adapter_env \<Rightarrow> choice \<Rightarrow> adapter \<Rightarrow> outcome" where
  "take_choice env c a =
     (let a = (case ch_finish c of None \<Rightarrow> a | Some r \<Rightarrow> a\<lparr>ad_finish := finish_reason_of r\<rparr>);
          a = (case given (ch_reasoning c) of
                 Some r \<Rightarrow> if ae_preserve env then a\<lparr>ad_reasoning := ad_reasoning a @ [r]\<rparr> else a | None \<Rightarrow> a);
          a = (case given (ch_content c) of
                 None \<Rightarrow> a | Some t \<Rightarrow> yields (TextDelta (sequence a) t) (a\<lparr>ad_text := ad_text a @ [t]\<rparr>))
      in each_out (take_fragment env) (ch_fragments c) a)"

definition take_usage :: "(int option \<times> int option \<times> int option) option \<Rightarrow> adapter \<Rightarrow> outcome" where
  "take_usage raw a = (case raw of None \<Rightarrow> (a, None)
     | Some (i, out, both) \<Rightarrow> (case make_usage i out both of
          Inl e \<Rightarrow> (a, Some e)
        | Inr u \<Rightarrow> (yields (UsageUpdated (sequence a) u) (a\<lparr>ad_usage := Some u\<rparr>), None)))"

definition take_chunk :: "adapter_env \<Rightarrow> chunk \<Rightarrow> adapter \<Rightarrow> outcome" where
  "take_chunk env c a =
     (let a = (case given (ck_id c) of
          Some i \<Rightarrow> if ad_text a = [] \<and> ad_calls a = [] then a\<lparr>ad_id := i\<rparr> else a | None \<Rightarrow> a)
      in then_out (take_usage (ck_usage c) a) (each_out (take_choice env) (ck_choices c)))"

section \<open>The end of the stream\<close>

definition call_arguments :: "adapter_env \<Rightarrow> pystr \<Rightarrow> model_error + jobj" where
  "call_arguments env args = (case ae_loads env (if args = [] then ascii ''{}'' else args) of
     Some (PMap items) \<Rightarrow> (case freeze_json_object (Some (PMap items)) of
        Inl _ \<Rightarrow> protocol ''invalid_tool_arguments'' | Inr d \<Rightarrow> Inr d)
   | _ \<Rightarrow> protocol ''invalid_tool_arguments'')"

definition normalized_call :: "adapter_env \<Rightarrow> pystr \<times> pystr \<times> pystr \<Rightarrow> model_error + tool_call" where
  "normalized_call env state = (case state of (cid, name, args) \<Rightarrow>
     if name = [] then protocol ''incomplete_tool_call''
     else bind_res (call_arguments env args) (\<lambda>d. case make_tool_call cid name d of
        Inl _ \<Rightarrow> protocol ''invalid_tool_arguments'' | Inr call \<Rightarrow> Inr call))"

definition complete_call :: "adapter_env \<Rightarrow> nat \<times> pystr \<times> pystr \<times> pystr \<Rightarrow> adapter \<Rightarrow> outcome" where
  "complete_call env c a = (case normalized_call env (snd c) of
     Inl e \<Rightarrow> (a, Some e)
   | Inr call \<Rightarrow>
       if tc_id call \<in> set (map tc_id (ad_done a)) then (a, Some (ModelProtocolError ''duplicate_tool_call_id''))
       else (yields (ToolCallCompleted (sequence a) (fst c) call) (a\<lparr>ad_done := ad_done a @ [call]\<rparr>), None))"

definition respond :: "adapter_env \<Rightarrow> adapter \<Rightarrow> outcome" where
  "respond env a =
     (let content = (if ad_text a = [] then [] else [TextContent (concat (ad_text a))]);
          reasoning = given (Some (concat (ad_reasoning a)))
      in if content = [] \<and> ad_done a = [] then (a, Some (ModelProtocolError ''empty_model_response''))
         else case make_assistant_message default_media_limits (ae_now env) (ae_message env) content (ad_done a) reasoning None None of
           Inl _ \<Rightarrow> (a, Some ModelValueError)
         | Inr m \<Rightarrow> (yields (ResponseCompleted (sequence a)
             \<lparr>mr_message = m, mr_finish = ad_finish a, mr_usage = ad_usage a\<rparr>) a, None))"

definition run_adapter :: "adapter_env \<Rightarrow> chunk list \<times> model_error option \<Rightarrow> outcome" where
  "run_adapter env s = then_out (each_out (take_chunk env) (fst s) (start_adapter env)) (\<lambda>a. case snd s of
     Some e \<Rightarrow> (a, Some e)
   | None \<Rightarrow> then_out (each_out (complete_call env) (sort_key fst (ad_calls a)) a) (respond env))"

text \<open>\<open>_provider_error\<close>: what the user is told of a failure outside.\<close>

definition provider_error :: "int option \<Rightarrow> string \<Rightarrow> model_error" where
  "provider_error status name =
     (case status of
        Some n \<Rightarrow>
          if n = 401 \<or> n = 403 then ModelProviderError ''provider_authentication_error''
          else if n = 429 then ModelProviderError ''provider_rate_limit''
          else ModelProviderError ''provider_http_error''
      | None \<Rightarrow>
          if name \<in> {''APITimeoutError'', ''TimeoutException'', ''TimeoutError''} then ModelProviderError ''provider_timeout''
          else if name \<in> {''APIConnectionError'', ''ConnectError'', ''ConnectionError''}
          then ModelProviderError ''provider_connection_error''
          else ModelProviderError ''provider_error'')"

text \<open>\<open>OpenAICompatibleModel.stream\<close> around it: every other exception becomes a provider error.\<close>

definition translated :: "model_error \<Rightarrow> model_error" where
  "translated e = (case e of
     ForeignError status name \<Rightarrow> provider_error status name
   | ModelValueError \<Rightarrow> provider_error None ''ValueError''
   | ModelProviderError _ \<Rightarrow> provider_error None ''ModelProviderError''
   | e \<Rightarrow> e)"

lemma provider_error_plain: "provider_error None ''ValueError'' = ModelProviderError ''provider_error''"
  by (simp add: provider_error_def)

definition stream_chunks :: "adapter_env \<Rightarrow> chunk list \<times> model_error option \<Rightarrow> model_event list \<times> model_error option" where
  "stream_chunks env s = (case run_adapter env s of (a, e) \<Rightarrow> (ad_out a, map_option translated e))"

end
