(* ===== verification/ModelLaws.thy ===== *)
theory ModelLaws
  imports ModelTypes
begin

text \<open>
  Why the collector accepts what the adapter yields: a simulation between the state of the adapter and the
  collector that has read its output, kept by every step; a rule for each way steps are put together.
\<close>

section \<open>Reading the output\<close>

abbreviation reads :: "adapter \<Rightarrow> collector \<times> model_error option" where
  "reads a \<equiv> collect_events (ad_out a) fresh_collector"

abbreviation duplicate :: "model_error option" where
  "duplicate \<equiv> Some (ModelProtocolError ''duplicate_tool_call_id'')"

lemma collect_events_append:
  "collect_events (xs @ ys) co = (case collect_events xs co of (co', None) \<Rightarrow> collect_events ys co' | r \<Rightarrow> r)"
  by (induction xs arbitrary: co) (auto split: sum.split)

lemma reads_yields: "reads (yields e a) = (case reads a of
    (co, None) \<Rightarrow> (case collect_event e co of Inl err \<Rightarrow> (co, Some err) | Inr co' \<Rightarrow> (co', None)) | r \<Rightarrow> r)"
  by (simp add: yields_def collect_events_append split: prod.split option.split sum.split)

definition call_ids :: "adapter \<Rightarrow> pystr list" where
  "call_ids a = map (fst \<circ> snd) (ad_calls a)"

text \<open>
  \<open>agrees pre a co\<close>: the collector knows the calls of the adapter, each with its id and, when it was given
  one, its name; those of \<open>pre\<close> are complete.
\<close>

definition agrees :: "(nat \<times> pystr \<times> pystr \<times> pystr) list \<Rightarrow> adapter \<Rightarrow> collector \<Rightarrow> bool" where
  "agrees pre a co \<longleftrightarrow> co_expected co = length (ad_out a) \<and> co_started co \<and> co_completed co = None
     \<and> co_usage co = ad_usage a
     \<and> dkeys (co_states co) = dkeys (ad_calls a)
     \<and> (\<forall>i cid name args. dget (ad_calls a) i = Some (cid, name, args) \<longrightarrow>
         (\<exists>n. dget (co_states co) i = Some (cid, n, i \<in> dkeys (co_calls co)) \<and> (n = None \<or> n = Some name \<and> name \<noteq> [])))
     \<and> set (co_ids co) = set (call_ids a)
     \<and> map fst (co_calls co) = map fst pre \<and> map snd (co_calls co) = ad_done a \<and> dict_ok (co_states co)"

lemma agrees_call:
  assumes "agrees pre a co" "dget (ad_calls a) i = Some (cid, name, args)"
  obtains n where "dget (co_states co) i = Some (cid, n, i \<in> dkeys (co_calls co))" "n = None \<or> n = Some name \<and> name \<noteq> []"
  using assms unfolding agrees_def by blast

lemma agrees_Nil: "agrees [] a co \<Longrightarrow> co_calls co = []"
  by (simp add: agrees_def)

text \<open>The collector agrees, or two calls of the adapter have one id and the collector has stopped at that.\<close>

definition linked :: "(nat \<times> pystr \<times> pystr \<times> pystr) list \<Rightarrow> adapter \<Rightarrow> bool" where
  "linked pre a \<longleftrightarrow> dict_ok (ad_calls a) \<and> length (ad_done a) = length pre \<and>
     (if distinct (call_ids a) then \<exists>co. reads a = (co, None) \<and> agrees pre a co else snd (reads a) = duplicate)"

definition readable :: "adapter \<Rightarrow> bool" where
  "readable a \<longleftrightarrow> snd (reads a) \<in> {None, duplicate}"

lemma linked_readable: "linked pre a \<Longrightarrow> readable a"
  by (auto simp: linked_def readable_def split: if_splits)

definition keeps :: "(adapter \<Rightarrow> outcome) \<Rightarrow> bool" where
  "keeps f \<longleftrightarrow> (\<forall>a. linked [] a \<longrightarrow> (case f a of (a', None) \<Rightarrow> linked [] a' | (a', Some _) \<Rightarrow> readable a'))"

lemma keeps_then:
  assumes "keeps f" "keeps g"
  shows "keeps (\<lambda>a. then_out (f a) g)"
  unfolding keeps_def
proof (intro allI impI)
  fix a assume l: "linked [] a"
  obtain a' e where f: "f a = (a', e)" by (cases "f a")
  with assms(1) l have *: "case e of None \<Rightarrow> linked [] a' | Some _ \<Rightarrow> readable a'" by (auto simp: keeps_def)
  show "case then_out (f a) g of (a', None) \<Rightarrow> linked [] a' | (a', Some _) \<Rightarrow> readable a'"
    using * assms(2) by (cases e) (auto simp: f keeps_def)
qed

lemma keeps_each: "(\<And>x. x \<in> set xs \<Longrightarrow> keeps (f x)) \<Longrightarrow> keeps (each_out f xs)"
proof (induction xs)
  case (Cons x xs)
  then show ?case using keeps_then [of "f x" "each_out f xs"] by simp
qed (simp add: keeps_def)

lemma keeps_id: "(\<And>a. linked [] a \<Longrightarrow> linked [] (f a)) \<Longrightarrow> keeps (\<lambda>a. (f a, None))"
  by (simp add: keeps_def)

section \<open>Fragments\<close>

lemma linked_yield:
  assumes "linked pre a" "call_ids a' = call_ids a" "ad_calls a' = ad_calls a \<or> dict_ok (ad_calls a')"
    and "\<And>co. agrees pre a co \<Longrightarrow> \<exists>co'. collect_event e co = Inr co' \<and> agrees pre' (yields e a') co'"
    and "ad_out a' = ad_out a" "length (ad_done a') = length pre'"
  shows "linked pre' (yields e a')"
proof -
  have r: "reads a' = reads a" using assms(5) by simp
  have ids: "call_ids (yields e a') = call_ids a" using assms(2) by (simp add: call_ids_def yields_def)
  have d: "dict_ok (ad_calls (yields e a'))" "length (ad_done (yields e a')) = length pre'"
    using assms(1,3,6) by (auto simp: linked_def yields_def)
  show ?thesis
  proof (cases "distinct (call_ids a)")
    case True
    with assms(1) obtain co where co: "reads a = (co, None)" "agrees pre a co" by (auto simp: linked_def)
    from assms(4) [OF co(2)] co(1) r ids d True show ?thesis
      unfolding linked_def by (auto simp: reads_yields)
  next
    case False
    with assms(1) have "snd (reads a) = duplicate" by (simp add: linked_def)
    then obtain co where "reads a = (co, duplicate)" by (cases "reads a") simp
    with False ids d r show ?thesis by (simp add: linked_def reads_yields)
  qed
qed

lemma linked_quiet:
  assumes "linked pre a" "call_ids a' = call_ids a" "dict_ok (ad_calls a')" "ad_out a' = ad_out a" "ad_done a' = ad_done a"
    "\<And>co. agrees pre a co \<Longrightarrow> agrees pre a' co"
  shows "linked pre a'"
  using assms by (auto simp: linked_def)

lemma ids_dset:
  "dget d i = Some (cid, n, args) \<Longrightarrow> map (fst \<circ> snd) (dset i (cid, n', args') d) = map (fst \<circ> snd) d"
  by (induction d) auto

lemma dkeys_present: "dget d i = Some v \<Longrightarrow> insert i (dkeys d) = dkeys d"
  by (metis dget_None_iff insert_absorb option.distinct(1))

lemma linkedD: "linked pre a \<Longrightarrow> dict_ok (ad_calls a)"
  by (simp add: linked_def)

lemma linked_length: "linked pre a \<Longrightarrow> length (ad_done a) = length pre"
  by (simp add: linked_def)

lemma name_keeps: "keeps (name_call f)"
  unfolding keeps_def
proof (intro allI impI)
  fix a assume l: "linked [] a"
  show "case name_call f a of (a', None) \<Rightarrow> linked [] a' | (a', Some _) \<Rightarrow> readable a'"
  proof (cases "\<exists>a'. name_call f a = (a', None) \<and> a' \<noteq> a")
    case False
    with l linked_readable [OF l] show ?thesis
      by (auto simp: name_call_def split: prod.splits option.splits if_splits)
  next
    case True
    then obtain cid name args n where c: "dget (ad_calls a) (fg_index f) = Some (cid, name, args)"
      "name = [] \<or> name = n" "n \<noteq> []"
      and r: "name_call f a = (a\<lparr>ad_calls := dset (fg_index f) (cid, n, args) (ad_calls a)\<rparr>, None)"
      by (auto simp: name_call_def given_def split: prod.splits option.splits if_splits list.splits)
    have "agrees [] (a\<lparr>ad_calls := dset (fg_index f) (cid, n, args) (ad_calls a)\<rparr>) co" if "agrees [] a co" for co
    proof -
      from agrees_call [OF that c(1)] obtain m where "dget (co_states co) (fg_index f) = Some (cid, m, fg_index f \<in> dkeys (co_calls co))"
        "m = None \<or> m = Some n" using c(2) by metis
      with that c(3) show ?thesis
        by (auto simp: agrees_def call_ids_def ids_dset [OF c(1)] dkeys_present [OF c(1)])
    qed
    then have "linked [] (a\<lparr>ad_calls := dset (fg_index f) (cid, n, args) (ad_calls a)\<rparr>)"
      using linkedD [OF l] by (intro linked_quiet [OF l]) (auto simp: call_ids_def ids_dset [OF c(1)])
    with r show ?thesis by simp
  qed
qed

lemma extend_keeps: "keeps (extend_call f)"
  unfolding keeps_def
proof (intro allI impI)
  fix a assume l: "linked [] a"
  show "case extend_call f a of (a', None) \<Rightarrow> linked [] a' | (a', Some _) \<Rightarrow> readable a'"
  proof (cases "extend_call f a = (a, None)")
    case False
    let ?i = "fg_index f"
    from False obtain cid name args p where c: "dget (ad_calls a) ?i = Some (cid, name, args)"
      and r: "extend_call f a = (yields (ToolCallArgumentsDelta (sequence a) ?i cid p)
        (a\<lparr>ad_calls := dset ?i (cid, name, args @ p) (ad_calls a)\<rparr>), None)"
      by (auto simp: extend_call_def given_def split: prod.splits option.splits if_splits list.splits)
    have "\<exists>co'. collect_event (ToolCallArgumentsDelta (sequence a) ?i cid p) co = Inr co' \<and>
        agrees [] (yields (ToolCallArgumentsDelta (sequence a) ?i cid p)
          (a\<lparr>ad_calls := dset ?i (cid, name, args @ p) (ad_calls a)\<rparr>)) co'" if "agrees [] a co" for co
    proof -
      note known = agrees_call [OF that c] agrees_Nil [OF that]
      obtain n where n: "dget (co_states co) ?i = Some (cid, n, False)" using known by auto
      have "collect_event (ToolCallArgumentsDelta (sequence a) ?i cid p) co = Inr (co\<lparr>co_expected := co_expected co + 1,
          co_seen := co_seen co @ [ToolCallArgumentsDelta (sequence a) ?i cid p]\<rparr>)"
        using that n by (simp add: agrees_def collect_event_def collect_delta_def sequence_def Let_def)
      with that c show ?thesis
        by (auto simp: agrees_def yields_def call_ids_def ids_dset [OF c] dkeys_present [OF c])
    qed
    then have "linked [] (yields (ToolCallArgumentsDelta (sequence a) ?i cid p)
        (a\<lparr>ad_calls := dset ?i (cid, name, args @ p) (ad_calls a)\<rparr>))"
      using linkedD [OF l] linked_length [OF l] by (intro linked_yield [OF l]) (auto simp: call_ids_def ids_dset [OF c])
    with r show ?thesis by simp
  qed (simp add: l)
qed

lemma start_keeps: "keeps (start_call env f)"
  unfolding keeps_def
proof (intro allI impI)
  fix a assume l: "linked [] a"
  let ?i = "fg_index f" and ?name = "function_name f"
  let ?cid = "case given (fg_id f) of Some c \<Rightarrow> c | None \<Rightarrow> generated_id env ?i"
  let ?a = "a\<lparr>ad_calls := dset ?i (?cid, case ?name of None \<Rightarrow> [] | Some n \<Rightarrow> n, []) (ad_calls a)\<rparr>"
  let ?e = "ToolCallStarted (sequence a) ?i ?cid ?name"
  show "case start_call env f a of (a', None) \<Rightarrow> linked [] a' | (a', Some _) \<Rightarrow> readable a'"
  proof (cases "?i \<in> dkeys (ad_calls a)")
    case True
    with l show ?thesis by (simp add: start_call_def)
  next
    case new: False
    show ?thesis
    proof (cases "?cid = [] \<or> ?name = Some []")
      case True
      with new linked_readable [OF l] show ?thesis
        by (simp add: start_call_def make_call_started_def Let_def readable_def)
    next
      case False
      have ids: "call_ids (yields ?e ?a) = call_ids a @ [?cid]"
        using dset_new [OF new] by (simp add: call_ids_def yields_def)
      have d: "dict_ok (ad_calls (yields ?e ?a))" "ad_done (yields ?e ?a) = []"
        using linkedD [OF l] linked_length [OF l] by (simp_all add: yields_def)
      have "linked [] (yields ?e ?a)"
      proof (cases "distinct (call_ids a)")
        case True
        with l obtain co where co: "reads a = (co, None)" "agrees [] a co" by (auto simp: linked_def)
        then have r: "reads ?a = (co, None)" by simp
        show ?thesis
        proof (cases "?cid \<in> set (call_ids a)")
          case True
          with co(2) new have "collect_event ?e co = Inl (ModelProtocolError ''duplicate_tool_call_id'')"
            by (simp add: agrees_def collect_event_def collect_call_started_def sequence_def Let_def protocol_def)
          with True ids d r show ?thesis by (simp add: linked_def reads_yields)
        next
          case fresh: False
          let ?co = "co\<lparr>co_expected := co_expected co + 1, co_states := dset ?i (?cid, ?name, False) (co_states co),
              co_ids := ?cid # co_ids co, co_seen := co_seen co @ [?e]\<rparr>"
          have "collect_event ?e co = Inr ?co"
            using co(2) new fresh
            by (simp add: agrees_def collect_event_def collect_call_started_def sequence_def Let_def)
          moreover have "agrees [] (yields ?e ?a) ?co"
            using co(2) new False ids
            by (auto simp: agrees_def yields_def call_ids_def split: option.splits)
          ultimately show ?thesis using ids d r fresh \<open>distinct (call_ids a)\<close> by (simp add: linked_def reads_yields)
        qed
      next
        case False
        with l obtain co where "reads a = (co, duplicate)" by (cases "reads a") (simp add: linked_def)
        then have "reads ?a = (co, duplicate)" by simp
        with False ids d show ?thesis by (simp add: linked_def reads_yields)
      qed
      with new False show ?thesis by (simp add: start_call_def make_call_started_def Let_def)
    qed
  qed
qed

lemma fragment_keeps: "keeps (take_fragment env f)"
  unfolding take_fragment_def by (intro keeps_then start_keeps name_keeps extend_keeps)

section \<open>Choices and chunks\<close>

lemma keeps_after: "(\<And>a. linked [] a \<Longrightarrow> linked [] (g a)) \<Longrightarrow> keeps f \<Longrightarrow> keeps (\<lambda>a. f (g a))"
  by (simp add: keeps_def)

lemma linked_finish: "linked [] a \<Longrightarrow> linked [] (a\<lparr>ad_finish := r\<rparr>)"
  by (frule linkedD, erule linked_quiet) (auto simp: agrees_def call_ids_def)

lemma linked_reasoning: "linked [] a \<Longrightarrow> linked [] (a\<lparr>ad_reasoning := r\<rparr>)"
  by (frule linkedD, erule linked_quiet) (auto simp: agrees_def call_ids_def)

lemma linked_ident: "linked [] a \<Longrightarrow> linked [] (a\<lparr>ad_id := i\<rparr>)"
  by (frule linkedD, erule linked_quiet) (auto simp: agrees_def call_ids_def)

lemma linked_text: "linked [] a \<Longrightarrow> linked [] (yields (TextDelta (sequence a) t) (a\<lparr>ad_text := ts\<rparr>))"
  by (frule linked_length, erule linked_yield)
    (auto simp: call_ids_def agrees_def yields_def collect_event_def sequence_def Let_def)

lemma linked_usage: "linked [] a \<Longrightarrow> linked [] (yields (UsageUpdated (sequence a) u) (a\<lparr>ad_usage := Some u\<rparr>))"
  by (frule linked_length, erule linked_yield)
    (auto simp: call_ids_def agrees_def yields_def collect_event_def sequence_def Let_def)

lemma choice_keeps: "keeps (take_choice env c)"
proof -
  have "keeps (\<lambda>a. each_out (take_fragment env) (ch_fragments c)
    (case given (ch_content c) of None \<Rightarrow> a | Some t \<Rightarrow> yields (TextDelta (sequence a) t) (a\<lparr>ad_text := ad_text a @ [t]\<rparr>)))"
    by (rule keeps_after [OF _ keeps_each [OF fragment_keeps]]) (auto intro: linked_text split: option.split)
  from keeps_after [OF _ this, of "\<lambda>a. case given (ch_reasoning c) of
      Some r \<Rightarrow> if ae_preserve env then a\<lparr>ad_reasoning := ad_reasoning a @ [r]\<rparr> else a | None \<Rightarrow> a"]
  have "keeps (\<lambda>a. each_out (take_fragment env) (ch_fragments c)
    (let a = (case given (ch_reasoning c) of
        Some r \<Rightarrow> if ae_preserve env then a\<lparr>ad_reasoning := ad_reasoning a @ [r]\<rparr> else a | None \<Rightarrow> a)
     in case given (ch_content c) of None \<Rightarrow> a | Some t \<Rightarrow> yields (TextDelta (sequence a) t) (a\<lparr>ad_text := ad_text a @ [t]\<rparr>)))"
    by (simp add: Let_def linked_reasoning split: option.split)
  from keeps_after [OF _ this, of "\<lambda>a. case ch_finish c of None \<Rightarrow> a | Some r \<Rightarrow> a\<lparr>ad_finish := finish_reason_of r\<rparr>"]
  show ?thesis by (simp add: take_choice_def [abs_def] Let_def linked_finish split: option.split)
qed

lemma usage_keeps: "keeps (take_usage raw)"
  by (auto simp: keeps_def take_usage_def linked_usage linked_readable split: option.splits sum.splits)

lemma chunk_keeps: "keeps (take_chunk env c)"
proof -
  have "keeps (\<lambda>a. then_out (take_usage (ck_usage c) a) (each_out (take_choice env) (ck_choices c)))"
    by (intro keeps_then usage_keeps keeps_each choice_keeps)
  from keeps_after [OF _ this, of "\<lambda>a. case given (ck_id c) of
      Some i \<Rightarrow> if ad_text a = [] \<and> ad_calls a = [] then a\<lparr>ad_id := i\<rparr> else a | None \<Rightarrow> a"]
  show ?thesis by (simp add: take_chunk_def [abs_def] Let_def linked_ident split: option.split)
qed

lemma start_linked: "linked [] (start_adapter env)"
  by (auto simp: linked_def start_adapter_def agrees_def call_ids_def fresh_collector_def collect_event_def
      collect_started_def Let_def)

section \<open>The end of the stream\<close>

text \<open>\<open>json.loads\<close> builds plain values, whose objects have distinct keys once frozen.\<close>

definition loads_ok :: "adapter_env \<Rightarrow> bool" where
  "loads_ok env \<longleftrightarrow> (\<forall>s v. ae_loads env s = Some v \<longrightarrow> pyval_ok v)"

lemma normalized_call_Inr:
  assumes "normalized_call env (cid, name, args) = Inr call"
  shows "tc_id call = cid" "tc_name call = name" "name \<noteq> []" "call_arguments env args = Inr (tc_arguments call)"
  using assms by (auto simp: normalized_call_def make_tool_call_def protocol_def res_simps split: if_splits sum.splits)

lemma call_arguments_ok:
  assumes "loads_ok env" "call_arguments env args = Inr d"
  shows "json_ok (JObj d)"
proof -
  from assms(2) obtain items where v: "ae_loads env (if args = [] then ascii ''{}'' else args) = Some (PMap items)"
    and d: "freeze_json (PMap items) = Inr (JObj d)"
    by (auto simp: call_arguments_def freeze_json_object_def protocol_def res_simps split: option.splits pyval.splits sum.splits json.splits)
      (metis json.exhaust)
  from v assms(1) have "pyval_ok (PMap items)" unfolding loads_ok_def by blast
  from freeze_ok(1) [OF d this] show ?thesis .
qed

lemma complete_step:
  assumes "linked pre a" "(i, cid, name, args) \<in> set (ad_calls a)" "i \<notin> fst ` set pre"
    "normalized_call env (cid, name, args) = Inr call"
  shows "linked (pre @ [(i, cid, name, args)])
    (yields (ToolCallCompleted (sequence a) i call) (a\<lparr>ad_done := ad_done a @ [call]\<rparr>))"
proof (rule linked_yield [OF assms(1)])
  let ?e = "ToolCallCompleted (sequence a) i call"
  let ?a = "a\<lparr>ad_done := ad_done a @ [call]\<rparr>"
  fix co assume co: "agrees pre a co"
  from assms(2) linkedD [OF assms(1)] have g: "dget (ad_calls a) i = Some (cid, name, args)" by (simp add: dict_ok_in_iff)
  have "map fst (co_calls co) = map fst pre" using co by (simp add: agrees_def)
  then have new: "i \<notin> dkeys (co_calls co)" using assms(3) by (metis list.set_map)
  from agrees_call [OF co g] new obtain n where n: "dget (co_states co) i = Some (cid, n, False)"
    "n = None \<or> n = Some name" by metis
  let ?co = "co\<lparr>co_expected := co_expected co + 1, co_calls := dset i call (co_calls co),
    co_states := dset i (cid, n, True) (co_states co), co_seen := co_seen co @ [?e]\<rparr>"
  have "collect_event ?e co = Inr ?co"
    using co n new normalized_call_Inr [OF assms(4)]
    by (auto simp: agrees_def collect_event_def collect_call_completed_def sequence_def Let_def)
  moreover have "agrees (pre @ [(i, cid, name, args)]) (yields ?e ?a) ?co"
    using co n g normalized_call_Inr(3) [OF assms(4)] dset_new [OF new] dkeys_present [OF g]
    by (auto simp: agrees_def yields_def call_ids_def)
  ultimately show "\<exists>co'. collect_event ?e co = Inr co' \<and> agrees (pre @ [(i, cid, name, args)]) (yields ?e ?a) co'" by blast
qed (use linked_length [OF assms(1)] in \<open>simp_all add: call_ids_def\<close>)

text \<open>The completions, in the order of the indices.\<close>

definition settled :: "(nat \<times> pystr \<times> pystr \<times> pystr) list \<Rightarrow> adapter \<Rightarrow> bool" where
  "settled pre a \<longleftrightarrow> linked pre a \<and> map tc_id (ad_done a) = map (fst \<circ> snd) pre \<and> distinct (map tc_id (ad_done a))
     \<and> (\<forall>c \<in> set (ad_done a). json_ok (JObj (tc_arguments c)))"

lemma complete_all:
  assumes "loads_ok env" "settled pre a" "distinct (map fst (pre @ post))" "set post \<subseteq> set (ad_calls a)"
  shows "case each_out (complete_call env) post a of
    (a', None) \<Rightarrow> settled (pre @ post) a' \<and> ad_calls a' = ad_calls a | (a', Some _) \<Rightarrow> readable a'"
  using assms(2-)
proof (induction post arbitrary: pre a)
  case (Cons c post)
  obtain i cid name args where c: "c = (i, cid, name, args)" by (cases c) auto
  have l: "linked pre a" using Cons.prems(1) by (simp add: settled_def)
  show ?case
  proof (cases "complete_call env c a")
    case (Pair b e)
    show ?thesis
    proof (cases e)
      case (Some err)
      with Pair have "b = a" by (auto simp: complete_call_def split: sum.splits if_splits)
      with Pair Some linked_readable [OF l] show ?thesis by simp
    next
      case None
      with Pair c obtain call where n: "normalized_call env (cid, name, args) = Inr call"
        and d: "tc_id call \<notin> set (map tc_id (ad_done a))"
        and b: "b = yields (ToolCallCompleted (sequence a) i call) (a\<lparr>ad_done := ad_done a @ [call]\<rparr>)"
        by (auto simp: complete_call_def split: sum.splits if_splits)
      have "i \<notin> fst ` set pre" "(i, cid, name, args) \<in> set (ad_calls a)" using Cons.prems(2,3) c by auto
      from complete_step [OF l this(2,1) n] have "linked (pre @ [c]) b" by (simp add: b c)
      moreover have "json_ok (JObj (tc_arguments call))"
        by (rule call_arguments_ok [OF assms(1) normalized_call_Inr(4) [OF n]])
      ultimately have "settled (pre @ [c]) b"
        using Cons.prems(1) d normalized_call_Inr(1) [OF n] c
        by (auto simp: settled_def b yields_def simp del: json_ok.simps)
      moreover have "ad_calls b = ad_calls a" by (simp add: b yields_def)
      ultimately show ?thesis using Cons.IH [of "pre @ [c]" b] Cons.prems(2,3) Pair None by simp
    qed
  qed
qed simp

lemma call_eq_refl: "json_ok (JObj (tc_arguments c)) \<Longrightarrow> call_eq c c"
  using json_eq_refl [of "JObj (tc_arguments c)"] by (simp add: call_eq_def jobj_eq_def del: json_eq.simps json_ok.simps)

lemma text_message_made:
  "ad_done a = calls \<Longrightarrow> distinct (map tc_id calls) \<Longrightarrow> make_assistant_message default_media_limits now mid
     (if ts = [] then [] else [TextContent t]) calls reasoning None None
   = Inr (AssistantMessage (if ts = [] then [] else [TextContent t]) calls reasoning now mid)"
  by (simp add: make_assistant_message_def normalize_content_def default_media_limits_def inline_too_large_def message_id_def)

text \<open>The response the adapter builds, and that the collector takes it.\<close>

definition built_message :: "adapter_env \<Rightarrow> adapter \<Rightarrow> message" where
  "built_message env a = AssistantMessage (if ad_text a = [] then [] else [TextContent (concat (ad_text a))]) (ad_done a)
     (given (Some (concat (ad_reasoning a)))) (ae_now env) (ae_message env)"

definition built_response :: "adapter_env \<Rightarrow> adapter \<Rightarrow> model_response" where
  "built_response env a = \<lparr>mr_message = built_message env a, mr_finish = ad_finish a, mr_usage = ad_usage a\<rparr>"

lemma respond_settled:
  assumes "settled pre a" "mset pre = mset (ad_calls a)" "sorted (map fst pre)"
  shows "case respond env a of
    (a', None) \<Rightarrow> a' = yields (ResponseCompleted (sequence a) (built_response env a)) a
      \<and> (\<exists>co. reads a' = (co, None) \<and> co_completed co = Some (built_response env a) \<and> \<not> incomplete_call co)
  | (a', Some _) \<Rightarrow> readable a'"
proof -
  have l: "linked pre a" "map tc_id (ad_done a) = map (fst \<circ> snd) pre" "distinct (map tc_id (ad_done a))"
    using assms(1) unfolding settled_def by blast+
  have m: "make_assistant_message default_media_limits (ae_now env) (ae_message env)
      (if ad_text a = [] then [] else [TextContent (concat (ad_text a))]) (ad_done a) (given (Some (concat (ad_reasoning a)))) None None
    = Inr (built_message env a)"
    unfolding built_message_def by (rule text_message_made [OF refl l(3)])
  let ?e = "ResponseCompleted (sequence a) (built_response env a)"
  have ids: "distinct (call_ids a)"
  proof -
    have "mset (map (fst \<circ> snd) pre) = mset (call_ids a)" using assms(2) by (simp add: call_ids_def)
    then show ?thesis using l(2,3) by (metis mset_eq_imp_distinct_iff)
  qed
  with l(1) obtain co where co: "reads a = (co, None)" "agrees pre a co" by (auto simp: linked_def)
  have keys: "map fst (co_calls co) = map fst pre" "map snd (co_calls co) = ad_done a" "dict_ok (co_states co)"
    "dkeys (co_states co) = dkeys (ad_calls a)"
    using co(2) by (simp_all add: agrees_def)
  have complete: "\<not> incomplete_call co'" if same: "co_states co' = co_states co" for co'
  proof
    assume "incomplete_call co'"
    then obtain i cid n where s: "(i, cid, n, False) \<in> set (co_states co)" unfolding incomplete_call_def same by auto
    then have "i \<in> dkeys (ad_calls a)" using keys(4) by (metis fst_conv image_eqI)
    then obtain st where "dget (ad_calls a) i = Some st" by (metis dget_None_iff not_None_eq)
    then obtain c nm ar where g: "dget (ad_calls a) i = Some (c, nm, ar)" by (cases st) auto
    have "i \<in> dkeys (co_calls co)"
      using \<open>i \<in> dkeys (ad_calls a)\<close> keys(1) assms(2) by (metis list.set_map set_mset_mset)
    with agrees_call [OF co(2) g] obtain m where "dget (co_states co) i = Some (c, m, True)" by metis
    with s dict_ok_get [OF keys(3) s] show False by simp
  qed
  have calls: "sorted_calls (co_calls co) = ad_done a"
    using keys(1,2) assms(3) by (simp add: sorted_calls_def sort_key_id_if_sorted)
  have eq: "list_all2 call_eq (ad_done a) (ad_done a)"
    using assms(1) by (auto simp: settled_def list_all2_conv_all_nth intro!: call_eq_refl simp del: json_ok.simps)
  have r: "msg_tool_calls (mr_message (built_response env a)) = ad_done a" "mr_usage (built_response env a) = ad_usage a"
    by (simp_all add: built_response_def built_message_def)
  let ?co = "co\<lparr>co_expected := co_expected co + 1\<rparr>"
  have "collect_completed (built_response env a) ?co = Inr (?co\<lparr>co_completed := Some (built_response env a)\<rparr>)"
    using co(2) complete [of ?co] calls eq r by (simp add: collect_completed_def agrees_def)
  then have c: "collect_event ?e co = Inr (?co\<lparr>co_completed := Some (built_response env a), co_seen := co_seen co @ [?e]\<rparr>)"
    using co(2) by (simp add: collect_event_def agrees_def sequence_def Let_def)
  have "reads (yields ?e a) = (?co\<lparr>co_completed := Some (built_response env a), co_seen := co_seen co @ [?e]\<rparr>, None)"
    by (simp add: reads_yields co(1) c)
  then show ?thesis
    using complete linked_readable [OF l(1)] m
    by (auto simp: respond_def Let_def built_response_def)
qed

text \<open>The whole run.\<close>

lemma run_adapter_reads:
  assumes "loads_ok env"
  shows "case run_adapter env s of
    (a, None) \<Rightarrow> \<exists>b co. a = yields (ResponseCompleted (sequence b) (built_response env b)) b
      \<and> reads a = (co, None) \<and> co_completed co = Some (built_response env b) \<and> \<not> incomplete_call co
  | (a, Some _) \<Rightarrow> readable a"
proof -
  obtain a e where f: "each_out (take_chunk env) (fst s) (start_adapter env) = (a, e)" by fastforce
  have "keeps (each_out (take_chunk env) (fst s))" by (rule keeps_each [OF chunk_keeps])
  with f start_linked [of env]
  have k: "case e of None \<Rightarrow> linked [] a | Some _ \<Rightarrow> readable a" by (auto simp: keeps_def split: prod.splits)
  show ?thesis
  proof (cases "e = None \<and> snd s = None")
    case False
    with k f linked_readable show ?thesis by (auto simp: run_adapter_def split: option.splits)
  next
    case True
    let ?L = "sort_key fst (ad_calls a)"
    from True k have l: "linked [] a" by simp
    have "mset (map fst ?L) = mset (map fst (ad_calls a))" by simp
    then have d: "distinct (map fst ?L)"
      using linkedD [OF l] unfolding dict_ok_def by (metis mset_eq_imp_distinct_iff)
    have st: "settled [] a" using l linked_length [OF l] by (simp add: settled_def)
    obtain b e' where g: "each_out (complete_call env) ?L a = (b, e')" by fastforce
    with complete_all [OF assms st, of ?L] d have c: "case e' of
      None \<Rightarrow> settled ?L b \<and> ad_calls b = ad_calls a | Some _ \<Rightarrow> readable b" by (auto split: option.splits)
    have run: "run_adapter env s = then_out (b, e') (respond env)" using True f g by (simp add: run_adapter_def)
    show ?thesis
    proof (cases e')
      case None
      with c have "settled ?L b" "mset ?L = mset (ad_calls b)" by simp_all
      from respond_settled [OF this, of env] run None show ?thesis
        by (auto split: prod.splits option.splits)
    next
      case (Some err)
      with c run show ?thesis by simp
    qed
  qed
qed


text \<open>
  What the events of an adapter say about its response: the text, the arguments of every call and the usage
  of the response are those that were streamed.
\<close>

fun event_text :: "model_event \<Rightarrow> pystr" where
  "event_text (TextDelta _ t) = t"
| "event_text _ = []"

fun event_arguments :: "nat \<Rightarrow> model_event \<Rightarrow> pystr" where
  "event_arguments i (ToolCallArgumentsDelta _ j _ d) = (if j = i then d else [])"
| "event_arguments i _ = []"

fun event_call :: "model_event \<Rightarrow> (nat \<times> tool_call) list" where
  "event_call (ToolCallCompleted _ i call) = [(i, call)]"
| "event_call _ = []"

fun event_usage :: "model_event \<Rightarrow> usage option \<Rightarrow> usage option" where
  "event_usage (UsageUpdated _ u) v = Some u"
| "event_usage _ v = v"

definition text_deltas :: "model_event list \<Rightarrow> pystr" where
  "text_deltas es = concat (map event_text es)"

definition argument_deltas :: "nat \<Rightarrow> model_event list \<Rightarrow> pystr" where
  "argument_deltas i es = concat (map (event_arguments i) es)"

definition completed_calls :: "model_event list \<Rightarrow> (nat \<times> tool_call) list" where
  "completed_calls es = concat (map event_call es)"

definition latest_usage :: "model_event list \<Rightarrow> usage option" where
  "latest_usage es = fold event_usage es None"

lemmas deltas_defs = text_deltas_def argument_deltas_def completed_calls_def latest_usage_def

definition faithful :: "adapter \<Rightarrow> bool" where
  "faithful a \<longleftrightarrow> text_deltas (ad_out a) = concat (ad_text a) \<and> completed_calls (ad_out a) = [] \<and> ad_done a = []
     \<and> dict_ok (ad_calls a) \<and> latest_usage (ad_out a) = ad_usage a
     \<and> (\<forall>i. argument_deltas i (ad_out a) = (case dget (ad_calls a) i of None \<Rightarrow> [] | Some (_, _, args) \<Rightarrow> args))"

definition steady :: "(adapter \<Rightarrow> outcome) \<Rightarrow> bool" where
  "steady f \<longleftrightarrow> (\<forall>a. faithful a \<longrightarrow> faithful (fst (f a)))"

lemma steady_then: "steady f \<Longrightarrow> steady g \<Longrightarrow> steady (\<lambda>a. then_out (f a) g)"
  unfolding steady_def by (metis fst_conv option.exhaust prod.exhaust then_out.simps)

lemma steady_each: "(\<And>x. steady (f x)) \<Longrightarrow> steady (each_out f xs)"
proof (induction xs)
  case (Cons x xs)
  then show ?case using steady_then [of "f x" "each_out f xs"] by simp
qed (simp add: steady_def)

lemma steady_after: "(\<And>a. faithful a \<Longrightarrow> faithful (g a)) \<Longrightarrow> steady f \<Longrightarrow> steady (\<lambda>a. f (g a))"
  by (simp add: steady_def)

lemma start_steady: "steady (start_call env f)"
  by (auto simp: steady_def start_call_def make_call_started_def faithful_def deltas_defs yields_def Let_def dget_None_iff
      split: if_splits option.splits dest: dget_Some_in) (metis dget_None_iff option.distinct(1) fst_conv image_eqI)+

lemma name_steady: "steady (name_call f)"
  by (auto simp: steady_def name_call_def faithful_def deltas_defs split: option.splits prod.splits)

lemma extend_steady: "steady (extend_call f)"
  by (auto simp: steady_def extend_call_def faithful_def deltas_defs yields_def split: option.splits prod.splits)

lemma fragment_steady: "steady (take_fragment env f)"
  unfolding take_fragment_def by (intro steady_then start_steady name_steady extend_steady)

lemma choice_steady: "steady (take_choice env c)"
  unfolding take_choice_def steady_def Let_def
proof (intro allI impI)
  fix a assume "faithful a"
  then have f: "faithful
      (case given (ch_reasoning c) of
        Some r \<Rightarrow> if ae_preserve env then (case ch_finish c of None \<Rightarrow> a | Some r \<Rightarrow> a\<lparr>ad_finish := finish_reason_of r\<rparr>)
              \<lparr>ad_reasoning := ad_reasoning (case ch_finish c of None \<Rightarrow> a | Some r \<Rightarrow> a\<lparr>ad_finish := finish_reason_of r\<rparr>) @ [r]\<rparr>
            else (case ch_finish c of None \<Rightarrow> a | Some r \<Rightarrow> a\<lparr>ad_finish := finish_reason_of r\<rparr>)
      | None \<Rightarrow> (case ch_finish c of None \<Rightarrow> a | Some r \<Rightarrow> a\<lparr>ad_finish := finish_reason_of r\<rparr>))" (is "faithful ?b")
    by (simp add: faithful_def split: option.split)
  then have "faithful (case given (ch_content c) of None \<Rightarrow> ?b
      | Some t \<Rightarrow> yields (TextDelta (sequence ?b) t) (?b\<lparr>ad_text := ad_text ?b @ [t]\<rparr>))" (is "faithful ?c")
    by (auto simp: faithful_def deltas_defs yields_def split: option.split)
  moreover have "steady (each_out (take_fragment env) (ch_fragments c))" by (rule steady_each [OF fragment_steady])
  ultimately show "faithful (fst (each_out (take_fragment env) (ch_fragments c) ?c))" by (simp add: steady_def)
qed

lemma usage_steady: "steady (take_usage raw)"
  by (auto simp: steady_def take_usage_def faithful_def deltas_defs yields_def split: option.splits sum.splits)

lemma chunk_steady: "steady (take_chunk env c)"
  unfolding take_chunk_def Let_def
  by (rule steady_after [OF _ steady_then [OF usage_steady steady_each [OF choice_steady]]])
    (simp add: faithful_def split: option.split)

lemma start_faithful: "faithful (start_adapter env)"
  by (simp add: faithful_def deltas_defs start_adapter_def)

text \<open>The completions keep everything else.\<close>

lemma complete_outputs:
  assumes "each_out (complete_call env) L a = (b, None)"
  shows "\<exists>cs. list_all2 (\<lambda>c call. normalized_call env (snd c) = Inr call) L cs \<and> ad_done b = ad_done a @ cs
    \<and> completed_calls (ad_out b) = completed_calls (ad_out a) @ zip (map fst L) cs
    \<and> text_deltas (ad_out b) = text_deltas (ad_out a) \<and> latest_usage (ad_out b) = latest_usage (ad_out a)
    \<and> (\<forall>i. argument_deltas i (ad_out b) = argument_deltas i (ad_out a))
    \<and> ad_text b = ad_text a \<and> ad_usage b = ad_usage a \<and> ad_calls b = ad_calls a"
  using assms
proof (induction L arbitrary: a)
  case (Cons c L)
  from Cons.prems obtain a' where a: "complete_call env c a = (a', None)" "each_out (complete_call env) L a' = (b, None)"
    by (cases "complete_call env c a") (metis each_out.simps(2) option.exhaust snd_conv then_out.simps prod.inject option.distinct(1))
  then obtain call where n: "normalized_call env (snd c) = Inr call"
    and a': "a' = yields (ToolCallCompleted (sequence a) (fst c) call) (a\<lparr>ad_done := ad_done a @ [call]\<rparr>)"
    by (auto simp: complete_call_def split: sum.splits if_splits)
  from Cons.IH [OF a(2)] obtain cs where "list_all2 (\<lambda>c call. normalized_call env (snd c) = Inr call) L cs"
    "ad_done b = ad_done a' @ cs" "completed_calls (ad_out b) = completed_calls (ad_out a') @ zip (map fst L) cs"
    "text_deltas (ad_out b) = text_deltas (ad_out a')" "latest_usage (ad_out b) = latest_usage (ad_out a')"
    "\<forall>i. argument_deltas i (ad_out b) = argument_deltas i (ad_out a')"
    "ad_text b = ad_text a'" "ad_usage b = ad_usage a'" "ad_calls b = ad_calls a'" by blast
  with n show ?case by (intro exI [of _ "call # cs"]) (simp add: a' yields_def deltas_defs)
qed simp

text \<open>The whole stream.\<close>

lemma run_adapter_faithful:
  assumes "run_adapter env s = (a, None)"
  shows "\<exists>n r ts. last (ad_out a) = ResponseCompleted n r \<and> text_deltas (ad_out a) = concat ts
    \<and> msg_content (mr_message r) = (if ts = [] then [] else [TextContent (concat ts)])
    \<and> msg_tool_calls (mr_message r) = map snd (completed_calls (ad_out a))
    \<and> mr_usage r = latest_usage (ad_out a)
    \<and> (\<forall>i call. (i, call) \<in> set (completed_calls (ad_out a)) \<longrightarrow>
         call_arguments env (argument_deltas i (ad_out a)) = Inr (tc_arguments call))"
proof -
  obtain b where b: "each_out (take_chunk env) (fst s) (start_adapter env) = (b, None)" and s: "snd s = None"
    and r: "then_out (each_out (complete_call env) (sort_key fst (ad_calls b)) b) (respond env) = (a, None)"
    using assms unfolding run_adapter_def
    by (cases "each_out (take_chunk env) (fst s) (start_adapter env)")
      (metis (mono_tags, lifting) option.exhaust option.simps(4,5) prod.inject then_out.simps option.distinct(1))
  have f: "faithful b"
  proof -
    have "steady (each_out (take_chunk env) (fst s))" by (rule steady_each [OF chunk_steady])
    with start_faithful [of env] b show ?thesis by (metis fst_conv steady_def)
  qed
  let ?L = "sort_key fst (ad_calls b)"
  obtain c where c: "each_out (complete_call env) ?L b = (c, None)" "respond env c = (a, None)"
    using r by (cases "each_out (complete_call env) ?L b") (metis option.exhaust then_out.simps prod.inject option.distinct(1))
  from complete_outputs [OF c(1)] obtain cs where cs: "list_all2 (\<lambda>c call. normalized_call env (snd c) = Inr call) ?L cs"
    "ad_done c = ad_done b @ cs" "completed_calls (ad_out c) = completed_calls (ad_out b) @ zip (map fst ?L) cs"
    "text_deltas (ad_out c) = text_deltas (ad_out b)" "latest_usage (ad_out c) = latest_usage (ad_out b)"
    "\<forall>i. argument_deltas i (ad_out c) = argument_deltas i (ad_out b)"
    "ad_text c = ad_text b" "ad_usage c = ad_usage b" "ad_calls c = ad_calls b" by blast
  have len: "length cs = length ?L" by (rule list_all2_lengthD [OF cs(1), symmetric])
  have ended: "ad_done c = cs" "completed_calls (ad_out c) = zip (map fst ?L) cs" using f cs by (simp_all add: faithful_def)
  let ?content = "if ad_text c = [] then [] else [TextContent (concat (ad_text c))]"
  from c(2) obtain m where m: "make_assistant_message default_media_limits (ae_now env) (ae_message env) ?content cs
      (given (Some (concat (ad_reasoning c)))) None None = Inr m"
    and a: "a = yields (ResponseCompleted (sequence c) \<lparr>mr_message = m, mr_finish = ad_finish c, mr_usage = ad_usage c\<rparr>) c"
    by (auto simp: respond_def Let_def ended(1) split: if_splits sum.splits)
  from m have made: "msg_content m = ?content" "msg_tool_calls m = cs"
    by (auto simp: make_assistant_message_def normalize_content_def res_simps split: if_splits)
  have out: "completed_calls (ad_out a) = completed_calls (ad_out c)" "text_deltas (ad_out a) = text_deltas (ad_out c)"
    "latest_usage (ad_out a) = latest_usage (ad_out c)" "argument_deltas i (ad_out a) = argument_deltas i (ad_out c)" for i
    by (simp_all add: a yields_def deltas_defs)
  have args: "call_arguments env (argument_deltas i (ad_out a)) = Inr (tc_arguments call)"
    if "(i, call) \<in> set (completed_calls (ad_out a))" for i call
  proof -
    from that obtain k where k: "k < length ?L" "fst (?L ! k) = i" "cs ! k = call"
      by (auto simp: out ended(2) set_zip)
    obtain cid name ar where l: "?L ! k = (i, cid, name, ar)" using k(2) by (cases "?L ! k") auto
    then have "(i, cid, name, ar) \<in> set (ad_calls b)" using k(1) by (metis nth_mem set_sort)
    then have "argument_deltas i (ad_out c) = ar"
      using f cs(6) by (simp add: faithful_def dict_ok_in_iff)
    moreover have "normalized_call env (cid, name, ar) = Inr call"
      using list_all2_nthD [OF cs(1) k(1)] l k(3) by simp
    ultimately show ?thesis using normalized_call_Inr(4) out by simp
  qed
  have "text_deltas (ad_out a) = concat (ad_text c)" "latest_usage (ad_out a) = ad_usage c"
    using f cs out by (simp_all add: faithful_def)
  moreover have "last (ad_out a) = ResponseCompleted (sequence c) \<lparr>mr_message = m, mr_finish = ad_finish c, mr_usage = ad_usage c\<rparr>"
    by (simp add: a yields_def)
  moreover have "map snd (completed_calls (ad_out a)) = cs" using out(1) ended(2) len by simp
  ultimately show ?thesis
    using made args by (intro exI [of _ "sequence c"] exI [of _ "ad_text c"] exI
      [of _ "\<lparr>mr_message = m, mr_finish = ad_finish c, mr_usage = ad_usage c\<rparr>"]) simp
qed

end
