(* ===== verification/ModelRequest.thy ===== *)
theory ModelRequest
  imports ModelTypes ContextWorld Utf8 ModelLaws ContextLaws
begin

text \<open>
  The request an OpenAI-compatible model is sent (\<open>_messages\<close>, \<open>_content\<close>, \<open>_read_artifact\<close> and the payload of
  \<open>OpenAICompatibleModel.stream\<close>). A resolver of media, what reading its file gives, and an artifact reader are
  parameters. The media that are open are a list of their numbers, so that what is left open can be seen.
\<close>

section \<open>Media and artifacts\<close>

record resolved =
  rs_media_type :: "pystr option"
  rs_bytes :: "bytes option"

text \<open>
  \<open>rv_resolve n\<close> is the answer to the \<open>n\<close>th question; \<open>rs_bytes\<close> is \<open>None\<close> when the file cannot be read. A reader
  answers its chunks and how it ends; what is no bytes ends it as well.
\<close>

record media_env =
  rv_resolve :: "(nat \<Rightarrow> media_source \<Rightarrow> pystr option \<Rightarrow> model_error + resolved) option"
  rv_reader :: "(artifact_ref \<Rightarrow> bytes list \<times> model_error option) option"
  rv_float :: "rat \<Rightarrow> pystr"
  rv_preserve :: bool

record media =
  md_next :: nat
  md_open :: "nat list"

definition close_media :: "nat list \<Rightarrow> media \<Rightarrow> media" where
  "close_media owned m = m\<lparr>md_open := filter (\<lambda>i. i \<notin> set owned) (md_open m)\<rparr>"

fun take_chunks :: "nat \<Rightarrow> nat \<Rightarrow> bytes list \<Rightarrow> bytes option" where
  "take_chunks limit got [] = Some []"
| "take_chunks limit got (c # cs) =
     (if got + length c > limit then None
      else case take_chunks limit (got + length c) cs of None \<Rightarrow> None | Some r \<Rightarrow> Some (c @ r))"

text \<open>\<open>_read_artifact\<close>\<close>

definition read_image_artifact :: "(artifact_ref \<Rightarrow> bytes list \<times> model_error option) \<Rightarrow> artifact_ref \<Rightarrow> model_error + bytes" where
  "read_image_artifact reader a = (case reader a of (chunks, e) \<Rightarrow>
     (case take_chunks (ar_size a) 0 chunks of
        None \<Rightarrow> Inl (MediaResolutionError ''fetch_failed'')
      | Some data \<Rightarrow> (case e of
          Some (MediaResolutionError why) \<Rightarrow> Inl (MediaResolutionError why)
        | Some _ \<Rightarrow> Inl (MediaResolutionError ''fetch_failed'')
        | None \<Rightarrow> if length data \<noteq> ar_size a then Inl (MediaResolutionError ''fetch_failed'') else Inr data)))"

section \<open>Contents\<close>

definition text_part :: "pystr \<Rightarrow> json" where
  "text_part t = J_record [(''type'', JStr (ascii ''text'')), (''text'', JStr t)]"

definition image_part :: "pystr \<Rightarrow> bytes \<Rightarrow> json" where
  "image_part media_type data = J_record [(''type'', JStr (ascii ''image_url'')),
     (''image_url'', J_record [(''url'', JStr (ascii ''data:'' @ media_type @ ascii '';base64,'' @ b64_encode data))])]"

definition optional_line :: "string \<Rightarrow> pystr option \<Rightarrow> pystr list" where
  "optional_line label v = (case v of None \<Rightarrow> [] | Some [] \<Rightarrow> [] | Some t \<Rightarrow> [ascii label @ t])"

definition preview_lines :: "pystr option \<Rightarrow> pystr list" where
  "preview_lines v = (case v of None \<Rightarrow> [] | Some [] \<Rightarrow> [] | Some t \<Rightarrow> [ascii ''Preview:'', t])"

definition artifact_part :: "artifact_ref \<Rightarrow> json" where
  "artifact_part a = text_part (join_with [10]
     ([ascii ''Workspace artifact: '' @ ar_uri a, ascii ''Digest: '' @ ar_digest a,
       ascii ''Size: '' @ nat_digits (ar_size a) @ ascii '' bytes'']
      @ optional_line ''Media type: '' (ar_media_type a) @ preview_lines (ar_preview a)))"

definition image_type :: "pystr option \<Rightarrow> pystr" where
  "image_type mt = (case mt of None \<Rightarrow> ascii ''image/png'' | Some [] \<Rightarrow> ascii ''image/png'' | Some t \<Rightarrow> t)"

definition types_differ :: "pystr option \<Rightarrow> pystr option \<Rightarrow> bool" where
  "types_differ a b = (case (a, b) of (Some x, Some y) \<Rightarrow> x \<noteq> [] \<and> y \<noteq> [] \<and> x \<noteq> y | _ \<Rightarrow> False)"

text \<open>The bytes of an image; a resource that was resolved is open and counted among the owned ones.\<close>

definition image_bytes ::
  "media_env \<Rightarrow> media_source \<Rightarrow> pystr option \<Rightarrow> nat list \<times> media \<Rightarrow> (model_error + bytes) \<times> nat list \<times> media" where
  "image_bytes env source mt st = (case source of
     BytesSource data \<Rightarrow> (Inr data, st)
   | _ \<Rightarrow> (case rv_resolve env of
       None \<Rightarrow> (Inl (MediaResolutionError ''access_denied''), st)
     | Some ask \<Rightarrow> (case st of (owned, m) \<Rightarrow>
         (case ask (md_next m) source mt of
            Inl e \<Rightarrow> (Inl e, owned, m\<lparr>md_next := md_next m + 1\<rparr>)
          | Inr r \<Rightarrow>
              let st' = (owned @ [md_next m], m\<lparr>md_next := md_next m + 1, md_open := md_open m @ [md_next m]\<rparr>) in
              if types_differ mt (rs_media_type r) then (Inl (MediaResolutionError ''media_type_mismatch''), st')
              else (case rs_bytes r of None \<Rightarrow> (Inl ModelValueError, st') | Some data \<Rightarrow> (Inr data, st'))))))"

definition is_text :: "content \<Rightarrow> bool" where
  "is_text c = (case c of TextContent _ \<Rightarrow> True | _ \<Rightarrow> False)"

definition content_part ::
  "media_env \<Rightarrow> content \<Rightarrow> nat list \<times> media \<Rightarrow> (model_error + json) \<times> nat list \<times> media" where
  "content_part env c st = (case c of
     TextContent t \<Rightarrow> (Inr (text_part t), st)
   | JsonContent v \<Rightarrow> (Inr (text_part (canonical_json_dumps (rv_float env) v)), st)
   | ArtifactReferenceContent a \<Rightarrow> (case (ar_media_type a, rv_reader env) of
       (Some mt, Some reader) \<Rightarrow>
         if starts_with (ascii ''image/'') mt
         then (bind_res (read_image_artifact reader a) (\<lambda>data. Inr (image_part mt data)), st)
         else (Inr (artifact_part a), st)
     | _ \<Rightarrow> (Inr (artifact_part a), st))
   | ImageContent source mt _ \<Rightarrow> (case image_bytes env source mt st of
       (r, st') \<Rightarrow> (bind_res r (\<lambda>data. Inr (image_part (image_type mt) data)), st'))
   | _ \<Rightarrow> (Inl (ModelCapabilityError ''unsupported_input_modality''), st))"

fun content_parts ::
  "media_env \<Rightarrow> content list \<Rightarrow> nat list \<times> media \<Rightarrow> (model_error + json list) \<times> nat list \<times> media" where
  "content_parts env [] st = (Inr [], st)"
| "content_parts env (c # cs) st = (case content_part env c st of
     (Inl e, st') \<Rightarrow> (Inl e, st')
   | (Inr j, st') \<Rightarrow> (case content_parts env cs st' of
       (Inl e, st'') \<Rightarrow> (Inl e, st'') | (Inr js, st'') \<Rightarrow> (Inr (j # js), st'')))"

text \<open>\<open>_content\<close>: texts alone are one text; on an exception what it opened is closed.\<close>

definition request_content ::
  "media_env \<Rightarrow> content list \<Rightarrow> media \<Rightarrow> (model_error + json \<times> nat list) \<times> media" where
  "request_content env cs m =
     (if list_all is_text cs then (Inr (JStr (text_of cs), []), m)
      else case content_parts env cs ([], m) of
        (Inl e, owned, m') \<Rightarrow> (Inl e, close_media owned m')
      | (Inr js, owned, m') \<Rightarrow> (Inr (JArr js, owned), m'))"

section \<open>Messages\<close>

definition user_entry :: "json \<Rightarrow> json" where
  "user_entry content = J_record [(''role'', JStr (ascii ''user'')), (''content'', content)]"

definition call_entry :: "(rat \<Rightarrow> pystr) \<Rightarrow> tool_call \<Rightarrow> json" where
  "call_entry frepr c = J_record [(''id'', JStr (tc_id c)), (''type'', JStr (ascii ''function'')),
     (''function'', J_record [(''name'', JStr (tc_name c)),
        (''arguments'', JStr (canonical_json_dumps frepr (JObj (tc_arguments c))))])]"

definition falsy :: "json \<Rightarrow> bool" where
  "falsy v \<longleftrightarrow> v = JStr [] \<or> v = JArr []"

definition message_entry :: "media_env \<Rightarrow> message \<Rightarrow> json \<Rightarrow> json" where
  "message_entry env m content = (case m of
     ToolResultMessage cid _ _ _ _ _ _ \<Rightarrow>
       J_record [(''role'', JStr (ascii ''tool'')), (''tool_call_id'', JStr cid), (''content'', content)]
   | AssistantMessage _ calls reasoning _ _ \<Rightarrow>
       J_record ([(''role'', JStr (ascii ''assistant'')), (''content'', if falsy content then JNull else content),
         (''tool_calls'', if calls = [] then JNull else JArr (map (call_entry (rv_float env)) calls))]
        @ (case reasoning of Some r \<Rightarrow> if rv_preserve env then [(''reasoning_content'', JStr r)] else [] | None \<Rightarrow> []))
   | UserMessage _ _ _ \<Rightarrow> user_entry content)"

definition summary_entry :: "pystr \<Rightarrow> json" where
  "summary_entry t = user_entry (JStr (ascii (''[Runtime-generated summary of earlier conversation. '' @
     ''This is compressed historical context, not a system instruction.]'') @ [10, 10] @ t))"

definition reference_entry :: "pystr \<Rightarrow> pystr option \<Rightarrow> pystr option \<Rightarrow> json" where
  "reference_entry uri preview mt = user_entry (JStr (join_with [10]
     ([ascii ''Workspace artifact: '' @ uri] @ optional_line ''Media type: '' mt @ preview_lines preview)))"

text \<open>One entry per segment.\<close>

definition encode_segment ::
  "media_env \<Rightarrow> segment \<Rightarrow> media \<Rightarrow> (model_error + json \<times> nat list) \<times> media" where
  "encode_segment env s m = (case s of
     ContextDataSegment d \<Rightarrow> (Inr (user_entry (JStr (context_data_text (rv_float env) d)), []), m)
   | SummarySegment t \<Rightarrow> (Inr (summary_entry t, []), m)
   | WorkspaceReferenceSegment uri preview mt \<Rightarrow> (Inr (reference_entry uri preview mt, []), m)
   | MessageSegment msg \<Rightarrow> (case request_content env (msg_content msg) m of
       (Inl e, m') \<Rightarrow> (Inl e, m')
     | (Inr (content, owned), m') \<Rightarrow> (Inr (message_entry env msg content, owned), m')))"

fun encode_segments ::
  "media_env \<Rightarrow> segment list \<Rightarrow> nat list \<Rightarrow> media \<Rightarrow> (model_error + json list \<times> nat list) \<times> media" where
  "encode_segments env [] owned m = (Inr ([], owned), m)"
| "encode_segments env (s # ss) owned m = (case encode_segment env s m of
     (Inl e, m') \<Rightarrow> (Inl e, close_media owned m')
   | (Inr (j, mine), m') \<Rightarrow> (case encode_segments env ss (owned @ mine) m' of
       (Inl e, m'') \<Rightarrow> (Inl e, m'')
     | (Inr (js, all_owned), m'') \<Rightarrow> (Inr (j # js, all_owned), m'')))"

definition system_entries :: "pystr option \<Rightarrow> json list" where
  "system_entries p = (case given p of None \<Rightarrow> []
     | Some t \<Rightarrow> [J_record [(''role'', JStr (ascii ''system'')), (''content'', JStr t)]])"

text \<open>\<open>_messages\<close>\<close>

definition encode_messages ::
  "media_env \<Rightarrow> model_context \<Rightarrow> media \<Rightarrow> (model_error + json list \<times> nat list) \<times> media" where
  "encode_messages env c m = (case encode_segments env (mc_segments c) [] m of
     (Inl e, m') \<Rightarrow> (Inl e, m')
   | (Inr (js, owned), m') \<Rightarrow> (Inr (system_entries (mc_system c) @ js, owned), m'))"

section \<open>The payload\<close>

record openai_model =
  oa_name :: pystr
  oa_temperature :: "pyfloat option"
  oa_max_tokens :: "int option"
  oa_top_p :: "rat option"
  oa_effort :: "pystr option"
  oa_extra_body :: jobj
  oa_kwargs :: jobj
  oa_capabilities :: capabilities
  oa_media :: media_env

definition reserved_keys :: "pystr list" where
  "reserved_keys = map ascii [''model'', ''messages'', ''tools'', ''stream'', ''stream_options'', ''parallel_tool_calls'',
     ''temperature'', ''max_tokens'', ''top_p'', ''reasoning_effort'', ''extra_body'']"

definition first_given :: "'a option \<Rightarrow> 'a option \<Rightarrow> 'a option" where
  "first_given a b = (case a of None \<Rightarrow> b | Some x \<Rightarrow> Some x)"

text \<open>The settings of the run before those of the model.\<close>

definition effective_settings :: "openai_model \<Rightarrow> model_settings option \<Rightarrow> model_error + model_settings" where
  "effective_settings oa settings = (case settings of
     None \<Rightarrow> make_model_settings (oa_temperature oa) (oa_max_tokens oa) (oa_top_p oa) []
   | Some s \<Rightarrow> make_model_settings (first_given (ms_temperature s) (oa_temperature oa))
       (first_given (map_option int (ms_max_output s)) (oa_max_tokens oa)) (first_given (ms_top_p s) (oa_top_p oa)) (ms_extra s))"

definition tool_entry :: "tool_definition \<Rightarrow> json" where
  "tool_entry t = J_record [(''type'', JStr (ascii ''function'')),
     (''function'', J_record [(''name'', JStr (td_name t)), (''description'', JStr (td_description t)),
        (''parameters'', JObj (td_input_schema t))])]"

definition float_entry :: "pyfloat \<Rightarrow> json" where
  "float_entry f = (case f of Fin r \<Rightarrow> JFloat r | _ \<Rightarrow> JNull)"

definition optional_entry :: "string \<Rightarrow> json option \<Rightarrow> jobj" where
  "optional_entry k v = (case v of None \<Rightarrow> [] | Some j \<Rightarrow> [(ascii k, j)])"

definition canonical_payload :: "openai_model \<Rightarrow> model_context \<Rightarrow> json list \<Rightarrow> model_settings \<Rightarrow> jobj" where
  "canonical_payload oa c msgs e =
     [(ascii ''model'', JStr (oa_name oa)), (ascii ''messages'', JArr msgs),
      (ascii ''tools'', if mc_tools c = [] then JNull else JArr (map tool_entry (mc_tools c))),
      (ascii ''stream'', JBool True), (ascii ''stream_options'', J_record [(''include_usage'', JBool True)]),
      (ascii ''parallel_tool_calls'', if mc_tools c = [] then JNull else JBool (mo_parallel (oa_capabilities oa)))]
     @ optional_entry ''temperature'' (map_option float_entry (ms_temperature e))
     @ optional_entry ''max_tokens'' (map_option (\<lambda>n. JInt (int n)) (ms_max_output e))
     @ optional_entry ''top_p'' (map_option JFloat (ms_top_p e))
     @ optional_entry ''reasoning_effort'' (map_option JStr (oa_effort oa))"

definition request_extras :: "openai_model \<Rightarrow> model_settings \<Rightarrow> jobj" where
  "request_extras oa e = fold (\<lambda>(k, v). dset k v) (ms_extra e) (oa_kwargs oa)"

definition make_payload :: "openai_model \<Rightarrow> model_context \<Rightarrow> json list \<Rightarrow> model_settings \<Rightarrow> model_error + jobj" where
  "make_payload oa c msgs e =
     (let extras = request_extras oa e in
      if \<exists>k \<in> set reserved_keys. k \<in> dkeys extras then protocol ''invalid_provider_response''
      else
        let p = fold (\<lambda>(k, v). dset k v) extras (canonical_payload oa c msgs e) in
        Inr (if oa_extra_body oa = [] then p else dset (ascii ''extra_body'') (JObj (oa_extra_body oa)) p))"

text \<open>
  What \<open>stream\<close> does before the provider is asked: the payload, and the media that are to be closed.
\<close>

definition prepare_request ::
  "openai_model \<Rightarrow> model_context \<Rightarrow> model_settings option \<Rightarrow> media \<Rightarrow> (model_error + jobj) \<times> nat list \<times> media" where
  "prepare_request oa c settings m = (case validate_model_context (oa_capabilities oa) c of
     Inl e \<Rightarrow> (Inl e, [], m)
   | Inr _ \<Rightarrow> (case encode_messages (oa_media oa) c m of
       (Inl e, m') \<Rightarrow> (Inl e, [], m')
     | (Inr (msgs, owned), m') \<Rightarrow>
         (bind_res (effective_settings oa settings) (make_payload oa c msgs), owned, m')))"


text \<open>
  A model in one piece: the request, the provider, the adapter, and the media closed at the end
  (\<open>OpenAICompatibleModel.stream\<close>); what a provider may rely on in a request, and which media are open.
\<close>

text \<open>\<open>send\<close> is the provider: an exception, or the chunks of its answer and how they end.\<close>

definition model_stream ::
  "openai_model \<Rightarrow> adapter_env \<Rightarrow> (jobj \<Rightarrow> model_error + chunk list \<times> model_error option) \<Rightarrow> model_context
     \<Rightarrow> model_settings option \<Rightarrow> media \<Rightarrow> (model_event list \<times> model_error option) \<times> media" where
  "model_stream oa env send c settings m = (case prepare_request oa c settings m of
     (r, owned, m') \<Rightarrow> (case bind_res r send of
        Inl e \<Rightarrow> ([], Some (translated e)) | Inr s \<Rightarrow> stream_chunks env s, close_media owned m'))"

section \<open>Entries of a request\<close>

definition entry_member :: "json \<Rightarrow> string \<Rightarrow> json option" where
  "entry_member j k = (case j of JObj d \<Rightarrow> dget d (ascii k) | _ \<Rightarrow> None)"

definition entry_calls :: "json \<Rightarrow> pystr list" where
  "entry_calls j = (case entry_member j ''tool_calls'' of
     Some (JArr cs) \<Rightarrow> concat (map (\<lambda>c. case entry_member c ''id'' of Some (JStr s) \<Rightarrow> [s] | _ \<Rightarrow> []) cs) | _ \<Rightarrow> [])"

definition entry_tool :: "json \<Rightarrow> pystr option" where
  "entry_tool j = (if entry_member j ''role'' = Some (JStr (ascii ''tool''))
     then case entry_member j ''tool_call_id'' of Some (JStr s) \<Rightarrow> Some s | _ \<Rightarrow> None else None)"

text \<open>
  What a provider asks of a request: an entry that calls tools is followed by one tool entry for each of its
  calls, in their order, and no other entry is one.
\<close>

function provider_ok :: "json list \<Rightarrow> bool" where
  "provider_ok [] \<longleftrightarrow> True"
| "provider_ok (j # js) \<longleftrightarrow> entry_tool j = None
     \<and> map entry_tool (take (length (entry_calls j)) js) = map Some (entry_calls j)
     \<and> provider_ok (drop (length (entry_calls j)) js)"
  by pat_completeness auto
termination
  by (relation "measure length") auto

lemma entry_record [simp]: "entry_member (J_record ms) k = map_of (map (\<lambda>(k, v). (ascii k, v)) ms) (ascii k)"
  by (simp add: entry_member_def J_record_def)

lemma call_entry_id: "entry_member (call_entry frepr c) ''id'' = Some (JStr (tc_id c))"
  by (simp add: call_entry_def)

lemma message_entry_calls: "entry_calls (message_entry env m content) = map tc_id (calls_of m)"
proof -
  have "concat (map (\<lambda>c. case entry_member c ''id'' of Some (JStr s) \<Rightarrow> [s] | _ \<Rightarrow> []) (map (call_entry f) calls)) = map tc_id calls"
    for f calls by (induction calls) (simp_all add: call_entry_id)
  then show ?thesis
    by (cases m) (simp_all add: entry_calls_def message_entry_def user_entry_def ascii_def)
qed

lemma message_entry_tool:
  "entry_tool (message_entry env m content) = (if is_ToolResultMessage m then Some (msg_call_id m) else None)"
  by (cases m) (simp_all add: entry_tool_def message_entry_def user_entry_def ascii_def)

lemma user_entry_plain: "entry_calls (user_entry c) = []" "entry_tool (user_entry c) = None"
  by (simp_all add: entry_calls_def entry_tool_def user_entry_def ascii_def)

definition encodes :: "media_env \<Rightarrow> segment \<Rightarrow> json \<Rightarrow> bool" where
  "encodes env s j \<longleftrightarrow> (case s of MessageSegment m \<Rightarrow> \<exists>content. j = message_entry env m content | _ \<Rightarrow> \<exists>content. j = user_entry content)"

lemma encode_segment_encodes: "encode_segment env s m = (Inr (j, owned), m') \<Longrightarrow> encodes env s j"
  by (auto simp: encode_segment_def encodes_def summary_entry_def reference_entry_def
      split: segment.splits prod.splits sum.splits)

lemma encode_segments_encodes: "encode_segments env ss owned m = (Inr (js, all_owned), m') \<Longrightarrow> list_all2 (encodes env) ss js"
  by (induction ss arbitrary: owned m js)
    (auto split: prod.splits sum.splits dest: encode_segment_encodes)

lemma encodes_other:
  assumes "encodes env s j" "segment_message s = None"
  shows "entry_calls j = []" "entry_tool j = None"
  using assms by (cases s; auto simp: encodes_def user_entry_plain)+

lemma encodes_message:
  assumes "encodes env s j" "segment_message s = Some m"
  shows "entry_calls j = map tc_id (calls_of m)" "entry_tool j = (if is_ToolResultMessage m then Some (msg_call_id m) else None)"
  using assms by (cases s; auto simp: encodes_def message_entry_calls message_entry_tool)+

text \<open>The segments of a model context become entries a provider accepts.\<close>

lemma exchanges_provider_ok:
  assumes "validate_exchanges segs = Inr ()" "list_all2 (encodes env) segs js"
  shows "provider_ok js"
  using assms
proof (induction segs arbitrary: js rule: validate_exchanges.induct)
  case (2 s rest)
  from 2(5) obtain j js' where js: "js = j # js'" "encodes env s j" "list_all2 (encodes env) rest js'"
    by (auto simp: list_all2_Cons1)
  show ?case
  proof (cases "segment_message s")
    case None
    with 2(1) [OF None _ js(3)] 2(4) js encodes_other [OF js(2) None] show ?thesis by simp
  next
    case (Some m)
    show ?thesis
    proof (cases "calls_tools m")
      case False
      with Some 2(4) have "\<not> is_ToolResultMessage m" by (auto split: if_splits)
      moreover have "validate_exchanges rest = Inr ()" using False Some 2(4) by (auto split: if_splits)
      ultimately show ?thesis
        using 2(3) [OF Some False _ _ js(3)] encodes_message [OF js(2) Some] False js(1) by (simp add: calls_of_tools)
    next
      case True
      let ?n = "length (msg_tool_calls m)"
      let ?results = "map segment_message (take ?n rest)"
      from Some True 2(4) have r: "length ?results = ?n" "None \<notin> set ?results"
        and g: "\<exists>gs. message_groups (m # map the ?results) = Inr gs" and v: "validate_exchanges (drop ?n rest) = Inr ()"
        by (auto simp: Let_def res_simps split: if_splits)
      from g obtain gs where "message_groups (m # map the ?results) = Inr gs" ..
      with True have a: "list_all2 answers (msg_tool_calls m) (map the ?results)"
        using r(1) by (auto simp: res_simps exchange_results_iff simp del: map_map)
      have e: "entry_calls j = map tc_id (msg_tool_calls m)" "entry_tool j = None"
        using encodes_message [OF js(2) Some] True calls_tools_not_result [OF True] by (simp_all add: calls_of_tools)
      have len: "length rest = length js'" using js(3) by (rule list_all2_lengthD)
      have "map entry_tool (take ?n js') = map Some (map tc_id (msg_tool_calls m))"
      proof (rule nth_equalityI)
        show "length (map entry_tool (take ?n js')) = length (map Some (map tc_id (msg_tool_calls m)))"
          using r(1) len by simp
        fix k assume "k < length (map entry_tool (take ?n js'))"
        then have k: "k < ?n" "k < length rest" using len by simp_all
        then have "rest ! k \<in> set (take ?n rest)" by (metis in_set_conv_nth length_take min_less_iff_conj nth_take)
        then have "segment_message (rest ! k) \<noteq> None" using r(2) by (metis imageI list.set_map)
        then obtain q where q: "segment_message (rest ! k) = Some q" by blast
        have "answers (msg_tool_calls m ! k) q"
          using list_all2_nthD [OF a, of k] k q by simp
        moreover have "encodes env (rest ! k) (js' ! k)" by (rule list_all2_nthD [OF js(3) k(2)])
        ultimately show "map entry_tool (take ?n js') ! k = map Some (map tc_id (msg_tool_calls m)) ! k"
          using encodes_message(2) [OF _ q] k len by (simp add: answers_def result_matches_def)
      qed
      moreover have "list_all2 (encodes env) (drop ?n rest) (drop ?n js')" by (rule list_all2_dropI [OF js(3)])
      with 2(2) [OF Some True refl refl _ v] r have "provider_ok (drop ?n js')" by simp
      ultimately show ?thesis using e js(1) by simp
    qed
  qed
qed simp

section \<open>Open media\<close>

text \<open>\<open>opened m new m'\<close>: from \<open>m\<close> to \<open>m'\<close> exactly the resources \<open>new\<close> were opened, under numbers of their own.\<close>

definition opened :: "media \<Rightarrow> nat list \<Rightarrow> media \<Rightarrow> bool" where
  "opened m new m' \<longleftrightarrow> md_open m' = md_open m @ new \<and> set new \<subseteq> {md_next m..<md_next m'} \<and> md_next m \<le> md_next m'"

definition numbered :: "media \<Rightarrow> bool" where
  "numbered m \<longleftrightarrow> (\<forall>i \<in> set (md_open m). i < md_next m)"

lemma opened_refl [simp]: "opened m [] m"
  by (simp add: opened_def)

lemma opened_trans: "opened m a m' \<Longrightarrow> opened m' b m'' \<Longrightarrow> opened m (a @ b) m''"
  by (auto simp: opened_def)

lemma opened_numbered: "opened m a m' \<Longrightarrow> numbered m \<Longrightarrow> numbered m'"
  by (auto simp: opened_def numbered_def)

lemma close_opened: "opened m a m' \<Longrightarrow> numbered m \<Longrightarrow> md_open (close_media a m') = md_open m"
proof -
  assume o: "opened m a m'" "numbered m"
  then have "filter (\<lambda>i. i \<notin> set a) (md_open m) = md_open m"
    by (auto simp: filter_id_conv opened_def numbered_def) (meson atLeastLessThan_iff linorder_not_le subsetD)
  with o(1) show ?thesis by (simp add: opened_def close_media_def)
qed

lemma image_opened:
  "image_bytes env source mt (owned, m) = (r, owned', m') \<Longrightarrow> \<exists>new. owned' = owned @ new \<and> opened m new m'"
  by (auto simp: image_bytes_def opened_def Let_def split: media_source.splits option.splits sum.splits if_splits)

lemma part_opened:
  "content_part env c (owned, m) = (r, owned', m') \<Longrightarrow> \<exists>new. owned' = owned @ new \<and> opened m new m'"
  by (cases c) (auto simp: content_part_def split: option.splits prod.splits if_splits dest!: image_opened)

lemma parts_opened:
  "content_parts env cs (owned, m) = (r, owned', m') \<Longrightarrow> \<exists>new. owned' = owned @ new \<and> opened m new m'"
proof (induction cs arbitrary: owned m r owned' m')
  case (Cons c cs)
  obtain q owned1 m1 where c: "content_part env c (owned, m) = (q, owned1, m1)" by (metis prod.exhaust)
  from part_opened [OF c] obtain new where n: "owned1 = owned @ new" "opened m new m1" by blast
  show ?case
  proof (cases q)
    case (Inl e)
    with Cons(2) c n show ?thesis by auto
  next
    case (Inr j)
    obtain q' owned2 m2 where cs: "content_parts env cs (owned1, m1) = (q', owned2, m2)" by (metis prod.exhaust)
    from Cons(1) [OF cs] obtain new' where n': "owned2 = owned1 @ new'" "opened m1 new' m2" by blast
    have "owned' = owned2 \<and> m' = m2" using Cons(2) c cs Inr by (auto split: sum.splits)
    with n n' opened_trans [OF n(2) n'(2)] show ?thesis by auto
  qed
qed auto

lemma numbered_next: "numbered m \<Longrightarrow> md_next m \<le> md_next m' \<Longrightarrow> md_open m' = md_open m \<Longrightarrow> opened m [] m'"
  by (simp add: opened_def)

lemma content_opened:
  assumes "request_content env cs m = (r, m')" "numbered m"
  shows "case r of Inl _ \<Rightarrow> opened m [] m' | Inr (_, owned) \<Rightarrow> opened m owned m'"
proof (cases "list_all is_text cs")
  case False
  obtain q owned m1 where q: "content_parts env cs ([], m) = (q, owned, m1)" by (metis prod.exhaust)
  from parts_opened [OF q] have o: "opened m owned m1" by simp
  with close_opened [OF o assms(2)] have "opened m [] (close_media owned m1)"
    by (simp add: opened_def close_media_def)
  with False assms(1) q o show ?thesis by (auto simp: request_content_def split: sum.splits)
qed (use assms in \<open>auto simp: request_content_def\<close>)

lemma segment_opened:
  assumes "encode_segment env s m = (r, m')" "numbered m"
  shows "case r of Inl _ \<Rightarrow> opened m [] m' | Inr (_, owned) \<Rightarrow> opened m owned m'"
proof (cases s)
  case (MessageSegment msg)
  obtain q m1 where q: "request_content env (msg_content msg) m = (q, m1)" by fastforce
  from content_opened [OF q assms(2)] MessageSegment assms(1) q show ?thesis
    by (auto simp: encode_segment_def split: sum.splits prod.splits)
qed (use assms(1) in \<open>auto simp: encode_segment_def\<close>)

lemma segments_opened:
  assumes "encode_segments env ss owned m = (r, m')" "numbered m0" "opened m0 owned m"
  shows "case r of Inl _ \<Rightarrow> opened m0 [] m' | Inr (_, all_owned) \<Rightarrow> opened m0 all_owned m'"
  using assms
proof (induction ss arbitrary: owned m r m')
  case (Cons s ss)
  have n: "numbered m" by (rule opened_numbered [OF Cons.prems(3,2)])
  obtain q m1 where q: "encode_segment env s m = (q, m1)" by fastforce
  from segment_opened [OF q n] have o: "case q of Inl _ \<Rightarrow> opened m [] m1 | Inr (_, mine) \<Rightarrow> opened m mine m1" .
  show ?case
  proof (cases q)
    case (Inl e)
    with o have "opened m0 owned m1" using opened_trans [OF Cons.prems(3)] by fastforce
    with close_opened [OF this Cons.prems(2)] Cons.prems(1) q Inl show ?thesis
      by (auto simp: opened_def close_media_def)
  next
    case (Inr jm)
    then obtain j mine where jm: "q = Inr (j, mine)" by (cases jm) auto
    with o have "opened m0 (owned @ mine) m1" using opened_trans [OF Cons.prems(3)] by fastforce
    moreover obtain q' m2 where q': "encode_segments env ss (owned @ mine) m1 = (q', m2)" by fastforce
    ultimately have "case q' of Inl _ \<Rightarrow> opened m0 [] m2 | Inr (_, all_owned) \<Rightarrow> opened m0 all_owned m2"
      by (intro Cons.IH [OF _ Cons.prems(2)])
    with Cons.prems(1) q q' jm show ?thesis by (auto split: sum.splits prod.splits)
  qed
qed auto

lemma request_opened:
  assumes "prepare_request oa c settings m = (r, owned, m')" "numbered m"
  shows "opened m owned m'"
proof (cases "validate_model_context (oa_capabilities oa) c")
  case (Inr u)
  obtain q m1 where q: "encode_segments (oa_media oa) (mc_segments c) [] m = (q, m1)" by fastforce
  from segments_opened [OF q assms(2) opened_refl] assms(1) Inr q show ?thesis
    by (auto simp: prepare_request_def encode_messages_def split: sum.splits prod.splits)
qed (use assms(1) in \<open>auto simp: prepare_request_def\<close>)

end
