(* ===== verification/ModelProps.thy ===== *)
theory ModelProps
  imports ModelRequest
begin

text \<open>
  The properties of the model client: the adapter against the canonical protocol, the response against the
  events, the request against what a provider asks, the media and the reserved fields.
\<close>

section \<open>A small model\<close>

text \<open>It answers a text and one call without arguments.\<close>

definition demo_env :: adapter_env where
  "demo_env = \<lparr>ae_model = [109], ae_preserve = False, ae_fresh = (\<lambda>_. []), ae_loads = (\<lambda>_. Some (PMap [])), ae_now = 0,
     ae_response = [114], ae_message = [97]\<rparr>"

definition demo_chunk :: chunk where
  "demo_chunk = \<lparr>ck_id = None, ck_usage = Some (Some 1, Some 2, None), ck_choices = [\<lparr>ch_finish = None, ch_reasoning = None,
     ch_content = Some [104, 105], ch_fragments = [\<lparr>fg_index = 0, fg_id = Some [99], fg_function = Some (Some [116], None)\<rparr>]\<rparr>]\<rparr>"

definition demo_caps :: capabilities where
  "demo_caps = \<lparr>mo_inputs = [M_TEXT, M_IMAGE], mo_outputs = [M_TEXT], mo_tools = True, mo_parallel = False, mo_window = None\<rparr>"

definition empty_context :: model_context where
  "empty_context = \<lparr>mc_system = None, mc_segments = [], mc_tools = []\<rparr>"

lemma demo_loads: "loads_ok demo_env"
  by (simp add: loads_ok_def demo_env_def)

lemmas adapter_defs = stream_chunks_def run_adapter_def take_chunk_def take_usage_def take_choice_def take_fragment_def
  start_call_def name_call_def extend_call_def make_call_started_def given_def function_name_def start_adapter_def
  complete_call_def normalized_call_def call_arguments_def respond_def yields_def sequence_def make_usage_def
  make_tool_call_def make_assistant_message_def normalize_content_def message_id_def default_media_limits_def
  inline_too_large_def freeze_json_object_def translated_def Let_def

lemmas collector_defs = collect_model_stream_def validate_model_context_def collect_event_def collect_started_def
  collect_call_started_def collect_delta_def collect_call_completed_def collect_completed_def collect_end_def
  fresh_collector_def incomplete_call_def sorted_calls_def call_eq_def jobj_eq_def protocol_def Let_def

lemma demo_stream: "stream_chunks demo_env ([demo_chunk], None) =
  ([ResponseStarted 0 [114], UsageUpdated 1 (Usage (Some 1) (Some 2) None), TextDelta 2 [104, 105],
    ToolCallStarted 3 0 [99] (Some [116]), ToolCallCompleted 4 0 \<lparr>tc_id = [99], tc_name = [116], tc_arguments = []\<rparr>,
    ResponseCompleted 5 \<lparr>mr_message = AssistantMessage [TextContent [104, 105]]
      [\<lparr>tc_id = [99], tc_name = [116], tc_arguments = []\<rparr>] None 0 [97], mr_finish = FR_OTHER, mr_usage = Some (Usage (Some 1) (Some 2) None)\<rparr>], None)"
  by (simp add: adapter_defs demo_env_def demo_chunk_def)

lemma demo_collected: "\<exists>r. collect_model_stream demo_caps empty_context None (stream_chunks demo_env ([demo_chunk], None))
    = (Inr r, fst (stream_chunks demo_env ([demo_chunk], None)))
  \<and> text_of (msg_content (mr_message r)) = [104, 105]"
  by (simp add: demo_stream collector_defs demo_caps_def empty_context_def)


definition demo_openai :: openai_model where
  "demo_openai = \<lparr>oa_name = [109], oa_temperature = None, oa_max_tokens = None, oa_top_p = None, oa_effort = None,
     oa_extra_body = [], oa_kwargs = [([115], JNull)], oa_capabilities = demo_caps,
     oa_media = \<lparr>rv_resolve = Some (\<lambda>_ _ _. Inr \<lparr>rs_media_type = None, rs_bytes = Some [1]\<rparr>), rv_reader = None,
       rv_float = (\<lambda>_. []), rv_preserve = False\<rparr>\<rparr>"

definition no_media :: media where
  "no_media = \<lparr>md_next = 0, md_open = []\<rparr>"

section \<open>The adapter and the collector\<close>

lemma translated_None [simp]: "map_option translated e = None \<longleftrightarrow> e = None"
  by simp

lemma collect_seen: "collect_events es co = (co', None) \<Longrightarrow> co_seen co' = co_seen co @ es"
proof (induction es arbitrary: co)
  case (Cons e es)
  from Cons(2) obtain co1 where c: "collect_event e co = Inr co1" "collect_events es co1 = (co', None)"
    by (auto split: sum.splits)
  then have "co_seen co1 = co_seen co @ [e]"
    by (auto simp: collect_event_def collect_started_def collect_call_started_def collect_delta_def
        collect_call_completed_def collect_completed_def protocol_def Let_def res_simps
        split: if_splits model_event.splits option.splits prod.splits bool.splits)
  with Cons(1) [OF c(2)] show ?case by simp
qed simp

text \<open>
  C32. The collector finds no fault with the adapter: whatever chunks a provider sends, an error of a collected stream
  is one the adapter raised itself, or the refusal of what the capabilities exclude, or, on a stream the adapter
  refuses as well, of two calls with the same id.
\<close>

theorem adapter_follows_protocol:
  assumes "loads_ok env" "collect_model_stream caps c mid (stream_chunks env s) = (Inl err, seen)"
  shows "(\<exists>code. err = ModelCapabilityError code) \<or> snd (stream_chunks env s) = Some err
    \<or> err = ModelProtocolError ''duplicate_tool_call_id'' \<and> snd (stream_chunks env s) \<noteq> None"
proof -
  obtain a e where r: "run_adapter env s = (a, e)" by fastforce
  then have st: "stream_chunks env s = (ad_out a, map_option translated e)" by (simp add: stream_chunks_def)
  obtain co f where co: "reads a = (co, f)" by fastforce
  show ?thesis
  proof (cases e)
    case None
    with run_adapter_reads [OF assms(1), of s] r co
    have "f = None" "co_completed co \<noteq> None" "\<not> incomplete_call co" by auto
    with None assms(2) co st show ?thesis
      by (auto simp: collect_model_stream_def validate_model_context_def collect_end_def split: sum.splits if_splits)
  next
    case (Some e')
    with run_adapter_reads [OF assms(1), of s] r co have "f = None \<or> f = duplicate" by (auto simp: readable_def)
    with Some assms(2) co st show ?thesis
      by (auto simp: collect_model_stream_def validate_model_context_def split: sum.splits if_splits)
  qed
qed

theorem adapter_follows_protocol_witness:
  "loads_ok demo_env \<and> snd (stream_chunks demo_env ([], None)) = Some (ModelProtocolError ''empty_model_response'')"
proof -
  have "collect_model_stream demo_caps empty_context None (stream_chunks demo_env ([], None))
      = (Inl (ModelProtocolError ''empty_model_response''), [ResponseStarted 0 [114]])"
    by (simp add: adapter_defs collector_defs demo_env_def demo_caps_def empty_context_def)
  from adapter_follows_protocol [OF demo_loads this] demo_loads show ?thesis by simp
qed


text \<open>
  C33. What is committed is what was shown: when a stream of the adapter is collected, the text of the response is the
  text of the deltas the observer saw, its calls are the completed ones with the arguments that were streamed, and its
  usage is the last one reported.
\<close>

theorem response_is_what_was_streamed:
  assumes "loads_ok env" "collect_model_stream caps c mid (stream_chunks env s) = (Inr r, seen)"
  shows "text_of (msg_content (mr_message r)) = text_deltas seen
    \<and> msg_tool_calls (mr_message r) = map snd (completed_calls seen)
    \<and> (\<forall>(i, call) \<in> set (completed_calls seen). call_arguments env (argument_deltas i seen) = Inr (tc_arguments call))
    \<and> mr_usage r = latest_usage seen"
proof -
  obtain a e where run: "run_adapter env s = (a, e)" by fastforce
  then have st: "stream_chunks env s = (ad_out a, map_option translated e)" by (simp add: stream_chunks_def)
  with assms(2) have "e = None" by (auto simp: collect_model_stream_def split: sum.splits prod.splits option.splits)
  with run_adapter_reads [OF assms(1), of s] run obtain b co where
    a: "a = yields (ResponseCompleted (sequence b) (built_response env b)) b"
    and co: "reads a = (co, None)" "co_completed co = Some (built_response env b)" by auto
  have seen: "seen = ad_out a" and r: "collect_end caps mid co = Inr r"
    using assms(2) st co(1) collect_seen [OF co(1)] \<open>e = None\<close>
    by (auto simp: collect_model_stream_def fresh_collector_def split: sum.splits)
  have l: "last (ad_out a) = ResponseCompleted (sequence b) (built_response env b)" by (simp add: a yields_def)
  from run_adapter_faithful run \<open>e = None\<close> obtain n q ts where
    q: "last (ad_out a) = ResponseCompleted n q" "text_deltas (ad_out a) = concat ts"
    "msg_content (mr_message q) = (if ts = [] then [] else [TextContent (concat ts)])"
    "msg_tool_calls (mr_message q) = map snd (completed_calls (ad_out a))" "mr_usage q = latest_usage (ad_out a)"
    "\<forall>i call. (i, call) \<in> set (completed_calls (ad_out a)) \<longrightarrow>
       call_arguments env (argument_deltas i (ad_out a)) = Inr (tc_arguments call)" by metis
  have "q = built_response env b" using q(1) l by simp
  moreover have "r = q\<lparr>mr_message := with_id mid (mr_message q)\<rparr>"
    using r co(2) \<open>q = built_response env b\<close> by (auto simp: collect_end_def protocol_def split: if_splits)
  moreover have "msg_content (with_id mid (built_message env b)) = msg_content (built_message env b)"
    "msg_tool_calls (with_id mid (built_message env b)) = msg_tool_calls (built_message env b)"
    by (cases mid; simp add: built_message_def)+
  ultimately show ?thesis using q(2-) by (auto simp: seen built_response_def)
qed

theorem response_is_what_was_streamed_witness:
  "\<exists>r. collect_model_stream demo_caps empty_context None (stream_chunks demo_env ([demo_chunk], None))
      = (Inr r, fst (stream_chunks demo_env ([demo_chunk], None)))
    \<and> msg_tool_calls (mr_message r) = [\<lparr>tc_id = [99], tc_name = [116], tc_arguments = []\<rparr>]
    \<and> mr_usage r = Some (Usage (Some 1) (Some 2) None)"
proof -
  obtain r where r: "collect_model_stream demo_caps empty_context None (stream_chunks demo_env ([demo_chunk], None))
      = (Inr r, fst (stream_chunks demo_env ([demo_chunk], None)))" using demo_collected by blast
  from response_is_what_was_streamed [OF demo_loads r] r show ?thesis
    by (intro exI [of _ r]) (simp add: demo_stream completed_calls_def latest_usage_def)
qed



section \<open>Requests\<close>

text \<open>
  C34. Every model context the constructor accepts becomes a request a provider accepts: each entry with tool calls is
  followed by one tool entry for each of them in their order, and there is no other tool entry.
\<close>

theorem tool_exchanges_encoded:
  assumes "make_model_context sys segs tools = Inr c" "encode_messages env c m = (Inr (js, owned), m')"
  shows "provider_ok js"
proof -
  from assms(1) have v: "validate_exchanges segs = Inr ()" and c: "mc_segments c = segs"
    by (auto simp: make_model_context_def res_simps split: if_splits)
  from assms(2) obtain es where e: "encode_segments env segs [] m = (Inr (es, owned), m')"
    and js: "js = system_entries (mc_system c) @ es"
    by (auto simp: encode_messages_def c split: sum.splits prod.splits)
  from exchanges_provider_ok [OF v encode_segments_encodes [OF e]] have "provider_ok es" .
  then show ?thesis
    by (auto simp: js system_entries_def entry_calls_def entry_tool_def ascii_def split: option.split)
qed

theorem tool_exchanges_encoded_witness:
  "\<exists>c js owned m'. make_model_context None [MessageSegment (AssistantMessage [] [\<lparr>tc_id = [99], tc_name = [116], tc_arguments = []\<rparr>] None 0 [97]),
      MessageSegment (ToolResultMessage [99] [116] SUCCESS [] None 0 [98])] [] = Inr c
    \<and> encode_messages (oa_media demo_openai) c no_media = (Inr (js, owned), m') \<and> provider_ok js"
proof -
  let ?segs = "[MessageSegment (AssistantMessage [] [\<lparr>tc_id = [99], tc_name = [116], tc_arguments = []\<rparr>] None 0 [97]),
      MessageSegment (ToolResultMessage [99] [116] SUCCESS [] None 0 [98])]"
  let ?c = "\<lparr>mc_system = None, mc_segments = ?segs, mc_tools = []\<rparr>"
  have c: "make_model_context None ?segs [] = Inr ?c"
    by (simp add: make_model_context_def data_first_def calls_tools_def exchange_results_def result_matches_def Let_def)
  have "\<exists>js owned m'. encode_messages (oa_media demo_openai) ?c no_media = (Inr (js, owned), m')"
    by (simp add: encode_messages_def encode_segment_def request_content_def)
  then obtain js owned m' where e: "encode_messages (oa_media demo_openai) ?c no_media = (Inr (js, owned), m')" by blast
  from tool_exchanges_encoded [OF c e] c e show ?thesis by blast
qed





lemma dict_fold_other: "k \<notin> dkeys xs \<Longrightarrow> dget (fold (\<lambda>(k, v). dset k v) xs d) k = dget d k"
  by (induction xs arbitrary: d) auto

text \<open>
  Options of a host never override a canonical field of a request: each reserved field of the payload is the one
  the client built, and options that name one are refused.
\<close>

theorem canonical_fields_kept:
  assumes "make_payload oa c msgs e = Inr p" "k \<in> set reserved_keys" "k \<noteq> ascii ''extra_body''"
  shows "dget p k = dget (canonical_payload oa c msgs e) k \<and> k \<notin> dkeys (request_extras oa e)"
  using assms by (auto simp: make_payload_def protocol_def Let_def dict_fold_other split: if_splits)

theorem canonical_fields_kept_witness:
  "\<exists>p. make_payload demo_openai empty_context [] \<lparr>ms_temperature = None, ms_max_output = None, ms_top_p = None, ms_extra = []\<rparr> = Inr p
    \<and> dget p (ascii ''model'') = Some (JStr [109])"
proof -
  let ?e = "\<lparr>ms_temperature = None, ms_max_output = None, ms_top_p = None, ms_extra = []\<rparr>"
  have "\<exists>p. make_payload demo_openai empty_context [] ?e = Inr p"
    by (simp add: make_payload_def request_extras_def reserved_keys_def demo_openai_def ascii_def Let_def)
  then obtain p where p: "make_payload demo_openai empty_context [] ?e = Inr p" by blast
  have k: "ascii ''model'' \<in> set reserved_keys" "ascii ''model'' \<noteq> ascii ''extra_body''"
    by (simp_all add: reserved_keys_def ascii_def)
  from canonical_fields_kept [OF p k] p show ?thesis
    by (simp add: canonical_payload_def) (simp add: demo_openai_def)
qed

end
