(* ===== verification/RunEvents.thy ===== *)
theory RunEvents
  imports SessionRound ExecScope PatchText
begin

text \<open>
  The events of a run (\<open>roboagent/runtime/event.py\<close>, \<open>runtime/store.py\<close>): the emitter with its bounded history
  and its subscriptions, each with a queue that drops the oldest event when its consumer is slow, the JSON form of
  an event and the stores. The numbers of events come from a source, the counter of the emitter or that of the
  execution tree. A subscription is named by its position, and what iterating it has yielded is part of it.
\<close>

datatype event_error = EventConfigurationError | EventValueError | EventRuntimeError | EventProtocolError protocol_error

section \<open>Events\<close>

record event_config =
  vc_max_queue :: nat
  vc_replay :: nat

definition make_event_config :: "int \<Rightarrow> int \<Rightarrow> event_error + event_config" where
  "make_event_config max_queue replay =
     (if max_queue < 1 \<or> replay < 1 then Inl EventConfigurationError
      else Inr \<lparr>vc_max_queue = nat max_queue, vc_replay = nat replay\<rparr>)"

record agent_event =
  av_run :: pystr
  av_sequence :: nat
  av_type :: pystr
  av_payload :: jobj
  av_timestamp :: rat
  av_lineage :: "lineage option"

definition make_agent_event ::
  "pystr \<Rightarrow> int \<Rightarrow> pystr \<Rightarrow> pyval option \<Rightarrow> pyfloat \<Rightarrow> lineage option \<Rightarrow> event_error + agent_event" where
  "make_agent_event run n ty payload timestamp li =
     (case timestamp of
        Fin now \<Rightarrow>
          if run = [] \<or> n < 0 \<or> ty = [] then Inl EventValueError
          else (case freeze_json_object payload of
              Inl e \<Rightarrow> Inl (EventProtocolError e)
            | Inr p \<Rightarrow>
                if (case li of None \<Rightarrow> False | Some l \<Rightarrow> ln_root l \<noteq> run) then Inl EventValueError
                else Inr \<lparr>av_run = run, av_sequence = nat n, av_type = ty, av_payload = p, av_timestamp = now, av_lineage = li\<rparr>)
      | _ \<Rightarrow> Inl EventValueError)"

definition terminal_types :: "pystr list" where
  "terminal_types = map ascii [''run.completed'', ''run.failed'', ''run.cancelled'']"

definition is_terminal :: "agent_event \<Rightarrow> bool" where
  "is_terminal e \<longleftrightarrow> av_type e \<in> set terminal_types"

section \<open>Queues\<close>

datatype queue_item = Item agent_event | End

record subscription =
  sb_max :: nat
  sb_queue :: "queue_item list"
  sb_registered :: bool
  sb_closed :: bool
  sb_got :: "agent_event list"

text \<open>The first item that may be dropped, the first of all when there is none.\<close>

fun remove_first :: "('x \<Rightarrow> bool) \<Rightarrow> 'x list \<Rightarrow> 'x list option" where
  "remove_first p [] = None"
| "remove_first p (x # xs) = (if p x then Some xs else map_option ((#) x) (remove_first p xs))"

definition drop_oldest :: "('x \<Rightarrow> bool) \<Rightarrow> 'x list \<Rightarrow> 'x list" where
  "drop_oldest p xs = (case remove_first p xs of None \<Rightarrow> tl xs | Some ys \<Rightarrow> ys)"

definition droppable :: "queue_item \<Rightarrow> bool" where
  "droppable i = (case i of Item e \<Rightarrow> \<not> is_terminal e | End \<Rightarrow> False)"

lemma length_drop_oldest [simp]: "length (drop_oldest p xs) = length xs - 1"
proof -
  have "remove_first p xs = Some ys \<Longrightarrow> Suc (length ys) = length xs" for ys
    by (induction xs arbitrary: ys) (auto split: if_splits)
  then show ?thesis by (fastforce simp: drop_oldest_def split: option.split)
qed

text \<open>
  The loop of \<open>_enqueue\<close>: a place is kept for the end of the stream. A queue of a configuration the constructor
  accepts has two places at least, so that an empty one has room.
\<close>

function make_room :: "nat \<Rightarrow> queue_item list \<Rightarrow> nat \<Rightarrow> queue_item list \<times> nat" where
  "make_room places q lost =
     (if q \<noteq> [] \<and> places \<le> length q + 1 then make_room places (drop_oldest droppable q) (lost + 1) else (q, lost))"
  by pat_completeness auto
termination
  by (relation "measure (\<lambda>(places, q, lost). length q)") simp_all

declare make_room.simps [simp del]

definition put_event :: "agent_event \<Rightarrow> subscription \<times> nat \<Rightarrow> subscription \<times> nat" where
  "put_event e s = (case s of (sub, lost) \<Rightarrow> (case make_room (sb_max sub) (sb_queue sub) lost of
     (q, lost') \<Rightarrow> (sub\<lparr>sb_queue := q @ [Item e]\<rparr>, lost')))"

text \<open>\<open>_enqueue_end\<close>\<close>

definition put_end :: "subscription \<Rightarrow> subscription" where
  "put_end sub = (let q = (if sb_max sub \<le> length (sb_queue sub) then tl (sb_queue sub) else sb_queue sub)
     in sub\<lparr>sb_queue := q @ [End]\<rparr>)"

section \<open>The emitter\<close>

record 's emitter =
  em_run :: pystr
  em_config :: event_config
  em_source :: 's
  em_lineage :: "lineage option"
  em_history :: "agent_event list"
  em_subs :: "subscription list"
  em_terminal :: bool
  em_dropped :: nat

definition new_emitter :: "pystr \<Rightarrow> event_config \<Rightarrow> 's \<Rightarrow> lineage option \<Rightarrow> 's emitter" where
  "new_emitter run config source li = \<lparr>em_run = run, em_config = config, em_source = source, em_lineage = li,
     em_history = [], em_subs = [], em_terminal = False, em_dropped = 0\<rparr>"

text \<open>The counter an emitter without a tree has.\<close>

definition own_counter :: "nat \<Rightarrow> nat \<times> nat" where
  "own_counter n = (n, n + 1)"

definition retain :: "agent_event \<Rightarrow> 's emitter \<Rightarrow> 's emitter" where
  "retain e em =
     (let h = em_history em;
          kept = (if vc_replay (em_config em) \<le> length h then drop_oldest (\<lambda>old. \<not> is_terminal old) h else h)
      in em\<lparr>em_history := kept @ [e]\<rparr>)"

definition deliver_one :: "agent_event \<Rightarrow> subscription \<Rightarrow> subscription \<times> nat" where
  "deliver_one e sub = (if sb_registered sub then put_event e (sub, 0) else (sub, 0))"

definition deliver :: "agent_event \<Rightarrow> 's emitter \<Rightarrow> 's emitter" where
  "deliver e em = (let rs = map (deliver_one e) (em_subs em)
     in em\<lparr>em_subs := map fst rs, em_dropped := em_dropped em + sum_list (map snd rs)\<rparr>)"

definition end_all :: "'s emitter \<Rightarrow> 's emitter" where
  "end_all em = em\<lparr>em_terminal := True, em_subs := map (\<lambda>sub. if sb_registered sub then put_end sub else sub) (em_subs em)\<rparr>"

definition emit_event ::
  "('s \<Rightarrow> nat \<times> 's) \<Rightarrow> pystr \<Rightarrow> lineage option \<Rightarrow> pyval option \<Rightarrow> pyfloat \<Rightarrow> 's emitter
     \<Rightarrow> (event_error + agent_event) \<times> 's emitter" where
  "emit_event nxt ty li payload now em =
     (if em_terminal em then (Inl EventRuntimeError, em)
      else case nxt (em_source em) of (n, source) \<Rightarrow>
        let em1 = em\<lparr>em_source := source\<rparr> in
        (case make_agent_event (em_run em) (int n) ty payload now (case li of None \<Rightarrow> em_lineage em | Some l \<Rightarrow> Some l) of
           Inl e \<Rightarrow> (Inl e, em1)
         | Inr e \<Rightarrow>
             let em2 = deliver e (retain e em1)
             in (Inr e, if is_terminal e then end_all em2 else em2)))"

section \<open>Subscriptions\<close>

definition empty_subscription :: "event_config \<Rightarrow> subscription" where
  "empty_subscription options = \<lparr>sb_max = vc_max_queue options + 1, sb_queue = [], sb_registered = False,
     sb_closed = False, sb_got = []\<rparr>"

definition last_events :: "nat \<Rightarrow> 'x list \<Rightarrow> 'x list" where
  "last_events n xs = drop (length xs - n) xs"

definition subscribe :: "event_config option \<Rightarrow> 's emitter \<Rightarrow> 's emitter" where
  "subscribe config em =
     (let options = (case config of None \<Rightarrow> em_config em | Some c \<Rightarrow> c);
          retained = last_events (vc_replay options) (em_history em)
      in case fold put_event retained (empty_subscription options, 0) of (sub, lost) \<Rightarrow>
        em\<lparr>em_subs := em_subs em @ [if em_terminal em then put_end sub else sub\<lparr>sb_registered := True\<rparr>],
           em_dropped := em_dropped em + lost\<rparr>)"

text \<open>\<open>close\<close>, with \<open>_remove\<close>\<close>

definition close_subscription :: "subscription \<Rightarrow> subscription" where
  "close_subscription sub =
     (if sb_closed sub then sub
      else if sb_registered sub then sub\<lparr>sb_closed := True, sb_registered := False, sb_queue := []\<rparr>
      else sub\<lparr>sb_closed := True\<rparr>)"

definition close_at :: "nat \<Rightarrow> 's emitter \<Rightarrow> 's emitter" where
  "close_at i em = em\<lparr>em_subs := (em_subs em)[i := close_subscription (em_subs em ! i)]\<rparr>"

text \<open>One turn of \<open>_iterate\<close>: it waits, yields an event, or ends and closes.\<close>

datatype received = RxWaits | RxEvent agent_event | RxEnd

definition receive_one :: "subscription \<Rightarrow> received \<times> subscription" where
  "receive_one sub = (case sb_queue sub of
     [] \<Rightarrow> (RxWaits, sub)
   | Item e # q \<Rightarrow> (RxEvent e, sub\<lparr>sb_queue := q, sb_got := sb_got sub @ [e]\<rparr>)
   | End # q \<Rightarrow> (RxEnd, close_subscription (sub\<lparr>sb_queue := q\<rparr>)))"

definition receive :: "nat \<Rightarrow> 's emitter \<Rightarrow> received \<times> 's emitter" where
  "receive i em = (case receive_one (em_subs em ! i) of
     (r, sub) \<Rightarrow> (r, em\<lparr>em_subs := (em_subs em)[i := sub]\<rparr>))"

fun receive_many :: "nat \<Rightarrow> nat \<Rightarrow> 's emitter \<Rightarrow> received list \<times> 's emitter" where
  "receive_many 0 i em = ([], em)"
| "receive_many (Suc n) i em = (case receive i em of (r, em1) \<Rightarrow> (case receive_many n i em1 of (rs, em2) \<Rightarrow> (r # rs, em2)))"

section \<open>Histories\<close>

text \<open>
  The emitters a run can build, with the events emitted so far: consumers subscribe, iterate and close at any
  time, and other parts of the run take numbers from the source.
\<close>

definition event_config_ok :: "event_config \<Rightarrow> bool" where
  "event_config_ok c \<longleftrightarrow> 1 \<le> vc_max_queue c \<and> 1 \<le> vc_replay c"

inductive emitter_run :: "('s \<Rightarrow> nat \<times> 's) \<Rightarrow> ('s \<Rightarrow> nat) \<Rightarrow> 's emitter \<Rightarrow> agent_event list \<Rightarrow> bool" for nxt level where
  er_start: "event_config_ok config \<Longrightarrow> emitter_run nxt level (new_emitter run config source li) []"
| er_emit: "emitter_run nxt level em evs \<Longrightarrow> emit_event nxt ty li payload now em = (Inr e, em') \<Longrightarrow> emitter_run nxt level em' (evs @ [e])"
| er_refused: "emitter_run nxt level em evs \<Longrightarrow> emit_event nxt ty li payload now em = (Inl err, em') \<Longrightarrow> emitter_run nxt level em' evs"
| er_subscribe: "emitter_run nxt level em evs \<Longrightarrow> (\<forall>c. config = Some c \<longrightarrow> event_config_ok c) \<Longrightarrow>
    emitter_run nxt level (subscribe config em) evs"
| er_receive: "emitter_run nxt level em evs \<Longrightarrow> i < length (em_subs em) \<Longrightarrow> receive i em = (r, em') \<Longrightarrow>
    emitter_run nxt level em' evs"
| er_close: "emitter_run nxt level em evs \<Longrightarrow> i < length (em_subs em) \<Longrightarrow> emitter_run nxt level (close_at i em) evs"
| er_source: "emitter_run nxt level em evs \<Longrightarrow> level (em_source em) \<le> level source \<Longrightarrow>
    emitter_run nxt level (em\<lparr>em_source := source\<rparr>) evs"

section \<open>The JSON form and the stores\<close>

definition encode_lineage :: "lineage \<Rightarrow> json" where
  "encode_lineage l = J_record [(''root_run_id'', JStr (ln_root l)), (''execution_run_id'', JStr (ln_run l)),
     (''scope_id'', JStr (ln_scope l)), (''parent_scope_id'', J_text (ln_parent l)), (''scope_depth'', JInt (int (ln_depth l))),
     (''agent_depth'', JInt (int (ln_agent_depth l))), (''tool_call_id'', J_text (ln_call l)),
     (''agent_tool_name'', J_text (ln_agent_tool l))]"

definition encode_event :: "agent_event \<Rightarrow> json" where
  "encode_event e = J_record [(''run_id'', JStr (av_run e)), (''sequence'', JInt (int (av_sequence e))),
     (''type'', JStr (av_type e)), (''payload'', JObj (av_payload e)), (''timestamp'', JFloat (av_timestamp e)),
     (''lineage'', case av_lineage e of None \<Rightarrow> JNull | Some l \<Rightarrow> encode_lineage l)]"

text \<open>\<open>ExecutionLineage(**lineage)\<close>; the two last fields are not checked by the code, and taken as texts here.\<close>

definition decode_lineage :: "pyval \<Rightarrow> store_error + lineage option" where
  "decode_lineage v = (case v of
     PNone \<Rightarrow> Inr None
   | PMap d \<Rightarrow>
       bind_res (only_keys [''root_run_id'', ''execution_run_id'', ''scope_id'', ''parent_scope_id'', ''scope_depth'',
         ''agent_depth'', ''tool_call_id'', ''agent_tool_name''] d) (\<lambda>_.
       bind_res (bind_res (need d ''root_run_id'') as_text) (\<lambda>root_id.
       bind_res (bind_res (need d ''execution_run_id'') as_text) (\<lambda>run.
       bind_res (bind_res (need d ''scope_id'') as_text) (\<lambda>scope.
       bind_res (bind_res (need d ''parent_scope_id'') as_opt_text) (\<lambda>parent.
       bind_res (bind_res (need d ''scope_depth'') as_int) (\<lambda>depth.
       bind_res (bind_res (need d ''agent_depth'') as_int) (\<lambda>agent_depth.
       bind_res (as_opt_text (opt d ''tool_call_id'')) (\<lambda>call.
       bind_res (as_opt_text (opt d ''agent_tool_name'')) (\<lambda>tool.
       let l = \<lparr>ln_root = root_id, ln_run = run, ln_scope = scope, ln_parent = parent, ln_depth = nat depth,
                ln_agent_depth = nat agent_depth, ln_call = call, ln_agent_tool = tool\<rparr>
       in if depth < 0 \<or> agent_depth < 0 \<or> \<not> lineage_ok l then Inl Raised else Inr (Some l))))))))))
   | _ \<Rightarrow> Inl Raised)"

definition decode_number :: "pyval \<Rightarrow> store_error + pyfloat" where
  "decode_number v = (case v of PInt i \<Rightarrow> Inr (Fin (of_int i)) | PFloat f \<Rightarrow> Inr f | _ \<Rightarrow> Inl Raised)"

definition decode_event :: "rat \<Rightarrow> pyval \<Rightarrow> store_error + agent_event" where
  "decode_event now v = (case v of
     PMap d \<Rightarrow>
       bind_res (decode_lineage (opt d ''lineage'')) (\<lambda>li.
       bind_res (only_keys [''run_id'', ''sequence'', ''type'', ''payload'', ''timestamp'', ''lineage''] d) (\<lambda>_.
       bind_res (bind_res (need d ''run_id'') as_text) (\<lambda>run.
       bind_res (bind_res (need d ''sequence'') as_int) (\<lambda>n.
       bind_res (bind_res (need d ''type'') as_text) (\<lambda>ty.
       bind_res (decode_number (or_else (field d ''timestamp'') (PFloat (Fin now)))) (\<lambda>timestamp.
       lift_error (make_agent_event run n ty
         (case opt d ''payload'' of PNone \<Rightarrow> None | p \<Rightarrow> Some p) timestamp li)))))))
   | _ \<Rightarrow> Inl Raised)"

text \<open>\<open>MemoryEventStore\<close>\<close>

type_synonym event_table = "(pystr, agent_event list) dict"

definition memory_list :: "pystr \<Rightarrow> event_table \<Rightarrow> agent_event list" where
  "memory_list run tab = or_else (dget tab run) []"

definition memory_append :: "agent_event \<Rightarrow> event_table \<Rightarrow> event_table" where
  "memory_append e tab = dset (av_run e) (memory_list (av_run e) tab @ [e]) tab"

text \<open>
  \<open>JsonlEventStore\<close>: the text of the file, if there is one, its lines without their ends, and \<open>json.loads\<close> as
  the function \<open>loads\<close>.
\<close>

definition event_line :: "(rat \<Rightarrow> pystr) \<Rightarrow> agent_event \<Rightarrow> pystr" where
  "event_line frepr e = dumps frepr False (encode_event e)"

definition jsonl_append :: "(rat \<Rightarrow> pystr) \<Rightarrow> agent_event \<Rightarrow> pystr option \<Rightarrow> pystr option" where
  "jsonl_append frepr e file = Some (or_else file [] @ event_line frepr e @ [10])"

definition plain_lines :: "pystr \<Rightarrow> pystr list" where
  "plain_lines content = map (\<lambda>l. if ends_with [13, 10] l then take (length l - 2) l
     else if l \<noteq> [] \<and> line_break (last l) then butlast l else l) (split_lines content)"

definition jsonl_list ::
  "(pystr \<Rightarrow> pyval option) \<Rightarrow> rat \<Rightarrow> pystr \<Rightarrow> pystr option \<Rightarrow> store_error + agent_event list" where
  "jsonl_list loads now run file = (case file of
     None \<Rightarrow> Inr []
   | Some content \<Rightarrow>
       bind_res (map_res (\<lambda>l. case loads l of None \<Rightarrow> Inl Raised | Some v \<Rightarrow> decode_event now v) (plain_lines content))
         (\<lambda>es. Inr (filter (\<lambda>e. av_run e = run) es)))"

end
