(* ===== verification/RunEventProps.thy ===== *)
theory RunEventProps
  imports RunEvents ExecViews "HOL-Library.Sublist"
begin

text \<open>
  What subscribers of a run may rely on: the laws of the bounded queues, the invariant of the emitter, the numbers
  a source of sequences gives, the round trip of the stores, and the properties.
\<close>

section \<open>Sources of sequence numbers\<close>

locale sequence_source =
  fixes nxt :: "'s \<Rightarrow> nat \<times> 's" and level :: "'s \<Rightarrow> nat"
  assumes nxt_level: "nxt s = (n, s') \<Longrightarrow> level s \<le> n \<and> n < level s'"
begin

lemma emit_numbers:
  assumes "emit_event nxt ty li payload now em = (r, em')"
  shows "level (em_source em) \<le> level (em_source em')
    \<and> (\<forall>e. r = Inr e \<longrightarrow> level (em_source em) \<le> av_sequence e \<and> av_sequence e < level (em_source em'))"
proof (cases "em_terminal em")
  case False
  obtain n src where n: "nxt (em_source em) = (n, src)" by fastforce
  with False assms nxt_level [OF n] show ?thesis
    by (auto simp: emit_event_def make_agent_event_def end_all_def deliver_def retain_def Let_def
        split: sum.splits if_splits pyfloat.splits)
qed (use assms in \<open>auto simp: emit_event_def\<close>)

lemma sequences_increase:
  "emitter_run nxt level em evs \<Longrightarrow>
     sorted_wrt (<) (map av_sequence evs) \<and> (\<forall>e \<in> set evs. av_sequence e < level (em_source em))"
proof (induction rule: emitter_run.induct)
  case (er_emit em evs ty li payload now e em')
  with emit_numbers [OF er_emit.hyps(2)] show ?case by (fastforce simp: sorted_wrt_append)
next
  case (er_refused em evs ty li payload now err em')
  with emit_numbers [OF er_refused.hyps(2)] show ?case by fastforce
next
  case (er_subscribe em evs config)
  then show ?case by (simp add: subscribe_def Let_def case_prod_unfold)
next
  case (er_receive em evs i r em')
  then show ?case by (auto simp: receive_def split: prod.splits)
next
  case (er_source em evs source)
  then show ?case by fastforce
qed (simp_all add: close_at_def)

end

interpretation own: sequence_source own_counter "\<lambda>n. n"
  by unfold_locales (simp add: own_counter_def)

interpretation tree_source: sequence_source next_event_sequence t_event_next
  by unfold_locales (auto simp: next_event_sequence_def)

section \<open>Queues\<close>

lemma remove_first_map: "remove_first p (map f xs) = map_option (map f) (remove_first (p \<circ> f) xs)"
  by (induction xs) (simp_all add: option.map_comp comp_def)

lemma drop_oldest_items: "drop_oldest droppable (map Item es) = map Item (drop_oldest (\<lambda>e. \<not> is_terminal e) es)"
proof -
  have "droppable \<circ> Item = (\<lambda>e. \<not> is_terminal e)" by (simp add: fun_eq_iff droppable_def)
  then show ?thesis by (simp add: drop_oldest_def remove_first_map map_tl split: option.split)
qed

lemma items_eq [simp]: "map Item es = map Item es' \<longleftrightarrow> es = es'"
  by (simp add: inj_map_eq_map inj_def)

lemma items_snoc: "map Item es @ [Item e] = map Item es' \<longleftrightarrow> es' = es @ [e]"
  using items_eq [of "es @ [e]" es'] by auto

lemma remove_first_subseq: "remove_first p xs = Some ys \<Longrightarrow> subseq ys xs"
  by (induction xs arbitrary: ys) (auto split: if_splits)

lemma drop_oldest_subseq: "subseq (drop_oldest p xs) xs"
  by (cases xs) (auto simp: drop_oldest_def intro: remove_first_subseq split: option.split)

lemma drop_oldest_hd: "xs \<noteq> [] \<Longrightarrow> p (hd xs) \<Longrightarrow> drop_oldest p xs = tl xs"
  by (cases xs) (simp_all add: drop_oldest_def)

lemma make_room_items:
  assumes "2 \<le> places"
  shows "\<exists>es'. make_room places (map Item es) lost = (map Item es', lost + (length es - length es'))
    \<and> subseq es' es \<and> length es' + 1 < places"
proof (induction "length es" arbitrary: es lost rule: less_induct)
  case less
  show ?case
  proof (cases "es \<noteq> [] \<and> places \<le> length es + 1")
    case True
    let ?es = "drop_oldest (\<lambda>e. \<not> is_terminal e) es"
    have short: "length ?es < length es" using True by simp
    from less [OF short] obtain es' where es': "make_room places (map Item ?es) (lost + 1)
        = (map Item es', lost + 1 + (length ?es - length es'))" "subseq es' ?es" "length es' + 1 < places" by blast
    have "length es' \<le> length ?es" using es'(2) by (rule list_emb_length)
    with es' True show ?thesis
      by (subst make_room.simps)
        (auto simp: drop_oldest_items intro!: exI [of _ es'] intro: subseq_order.trans [OF _ drop_oldest_subseq])
  next
    case False
    with assms show ?thesis by (subst make_room.simps) (auto intro!: exI [of _ es])
  qed
qed

lemma put_event_items:
  assumes "2 \<le> sb_max sub" "sb_queue sub = map Item es"
  shows "\<exists>es' lost'. put_event e (sub, lost) = (sub\<lparr>sb_queue := map Item (es' @ [e])\<rparr>, lost') \<and> subseq es' es
    \<and> length es' + 1 < sb_max sub \<and> lost \<le> lost' \<and> (lost' = lost \<longrightarrow> es' = es)"
proof -
  from make_room_items [OF assms(1)] obtain es' where es': "make_room (sb_max sub) (map Item es) lost
      = (map Item es', lost + (length es - length es'))" "subseq es' es" "length es' + 1 < sb_max sub" by blast
  have "length es - length es' = 0 \<longrightarrow> es' = es"
    using es'(2) list_emb_length [OF es'(2)] by (auto intro: subseq_same_length)
  with es' assms show ?thesis by (auto simp: put_event_def)
qed

lemma put_all_items:
  assumes "2 \<le> sb_max sub" "sb_queue sub = map Item es" "length es < sb_max sub"
  shows "\<exists>es' lost'. fold put_event new (sub, lost) = (sub\<lparr>sb_queue := map Item es'\<rparr>, lost') \<and> subseq es' (es @ new)
    \<and> length es' < sb_max sub \<and> lost \<le> lost' \<and> (lost' = lost \<longrightarrow> es' = es @ new) \<and> (new \<noteq> [] \<longrightarrow> es' \<noteq> [] \<and> last es' = last new)"
  using assms
proof (induction new arbitrary: sub es lost)
  case Nil
  then have "sub\<lparr>sb_queue := map Item es\<rparr> = sub" by simp
  with Nil show ?case by (intro exI [of _ es] exI [of _ lost]) simp
next
  case (Cons e new)
  from put_event_items [OF Cons(2,3)] obtain es1 lost1 where p: "put_event e (sub, lost) = (sub\<lparr>sb_queue := map Item (es1 @ [e])\<rparr>, lost1)"
    "subseq es1 es" "length es1 + 1 < sb_max sub" "lost \<le> lost1" "lost1 = lost \<longrightarrow> es1 = es" by blast
  from Cons.IH [of "sub\<lparr>sb_queue := map Item (es1 @ [e])\<rparr>" "es1 @ [e]" lost1] p(3) Cons(2)
  obtain es2 lost2 where q: "fold put_event new (sub\<lparr>sb_queue := map Item (es1 @ [e])\<rparr>, lost1) = (sub\<lparr>sb_queue := map Item es2\<rparr>, lost2)"
    "subseq es2 ((es1 @ [e]) @ new)" "length es2 < sb_max sub" "lost1 \<le> lost2" "lost2 = lost1 \<longrightarrow> es2 = (es1 @ [e]) @ new"
    "new \<noteq> [] \<longrightarrow> es2 \<noteq> [] \<and> last es2 = last new" by auto
  have "subseq es2 (es @ e # new)"
    using q(2) p(2) by (auto intro: subseq_order.trans [OF _ list_emb_append_mono])
  moreover have "new = [] \<longrightarrow> es2 = es1 @ [e]"
  proof
    assume "new = []"
    with q(1) have "sub\<lparr>sb_queue := map Item (es1 @ [e])\<rparr> = sub\<lparr>sb_queue := map Item es2\<rparr>" by simp
    from arg_cong [OF this, of sb_queue] show "es2 = es1 @ [e]" by (simp add: items_snoc)
  qed
  ultimately show ?case using p q by (intro exI [of _ es2] exI [of _ lost2]) auto
qed

section \<open>The invariant of the emitter\<close>

fun events_of :: "queue_item list \<Rightarrow> agent_event list" where
  "events_of [] = []"
| "events_of (Item e # q) = e # events_of q"
| "events_of (End # q) = events_of q"

lemma events_of_items [simp]: "events_of (map Item es) = es" "events_of (map Item es @ q) = es @ events_of q"
  by (induction es) simp_all

text \<open>
  What a subscription has: an open one holds its last events and, once the run has ended, the end behind the
  terminal event.
\<close>

definition open_ok :: "bool \<Rightarrow> agent_event list \<Rightarrow> subscription \<Rightarrow> bool" where
  "open_ok ended evs sub \<longleftrightarrow> 2 \<le> sb_max sub
     \<and> (\<exists>es. length es < sb_max sub
         \<and> (if ended then sb_queue sub = map Item es @ [End] \<and> sb_got sub @ es \<noteq> [] \<and> last (sb_got sub @ es) = last evs
            else sb_registered sub \<and> sb_queue sub = map Item es))"

definition sub_ok :: "bool \<Rightarrow> agent_event list \<Rightarrow> nat \<Rightarrow> subscription \<Rightarrow> bool" where
  "sub_ok ended evs lost sub \<longleftrightarrow>
     subseq (sb_got sub @ events_of (sb_queue sub)) evs \<and> length (sb_queue sub) \<le> sb_max sub
     \<and> (sb_closed sub \<longrightarrow> \<not> sb_registered sub)
     \<and> (\<not> sb_closed sub \<longrightarrow> open_ok ended evs sub \<and> (lost = 0 \<longrightarrow> suffix (sb_got sub @ events_of (sb_queue sub)) evs))"

definition ended_by :: "agent_event list \<Rightarrow> bool" where
  "ended_by evs \<longleftrightarrow> evs \<noteq> [] \<and> is_terminal (last evs)"

lemma ended_by_simps [simp]: "\<not> ended_by []" "ended_by (evs @ [e]) = is_terminal e"
  by (simp_all add: ended_by_def)

definition emitter_ok :: "'s emitter \<Rightarrow> agent_event list \<Rightarrow> bool" where
  "emitter_ok em evs \<longleftrightarrow> event_config_ok (em_config em)
     \<and> em_history em = last_events (vc_replay (em_config em)) evs
     \<and> (\<forall>e \<in> set (butlast evs). \<not> is_terminal e)
     \<and> ended_by evs = em_terminal em
     \<and> (\<forall>sub \<in> set (em_subs em). sub_ok (em_terminal em) evs (em_dropped em) sub)"

lemma emitter_subs: "emitter_ok em evs \<Longrightarrow> \<forall>sub \<in> set (em_subs em). sub_ok (em_terminal em) evs (em_dropped em) sub"
  unfolding emitter_ok_def by blast

lemma emitter_one_sub:
  assumes "emitter_ok em evs" "i < length (em_subs em)" "\<And>ended lost. sub_ok ended evs lost (em_subs em ! i) \<Longrightarrow> sub_ok ended evs lost sub"
  shows "emitter_ok (em\<lparr>em_subs := (em_subs em)[i := sub]\<rparr>) evs"
proof -
  have "\<forall>x \<in> set ((em_subs em)[i := sub]). sub_ok (em_terminal em) evs (em_dropped em) x"
    using emitter_subs [OF assms(1)] assms(2,3) by (auto dest!: set_update_subset_insert [THEN subsetD])
  with assms(1) show ?thesis by (simp add: emitter_ok_def)
qed

lemma last_events_suffix: "suffix (last_events n xs) xs"
  by (simp add: last_events_def suffix_drop)

lemma last_events_one: "1 \<le> n \<Longrightarrow> xs \<noteq> [] \<Longrightarrow> last_events n xs \<noteq> [] \<and> last (last_events n xs) = last xs"
  by (auto simp: last_events_def last_drop neq_Nil_conv)

lemma last_events_snoc:
  "1 \<le> n \<Longrightarrow> last_events n (xs @ [x]) = (if n \<le> length (last_events n xs) then tl (last_events n xs) else last_events n xs) @ [x]"
  by (auto simp: last_events_def drop_Suc tl_drop Suc_diff_le min_def)

lemma sub_ok_dropped: "sub_ok ended evs lost sub \<Longrightarrow> lost \<le> lost' \<Longrightarrow> sub_ok ended evs lost' sub"
  by (auto simp: sub_ok_def)

text \<open>One event for one subscription of a run that has not ended.\<close>

lemma deliver_one_ok:
  assumes s: "sub_ok False evs lost sub" and d: "deliver_one e sub = (sub', n)" and l: "lost + n \<le> lost'"
  shows "sub_ok False (evs @ [e]) lost' sub'"
    and "sb_registered sub' \<Longrightarrow> \<exists>es. sb_queue sub' = map Item es \<and> es \<noteq> [] \<and> last es = e"
proof -
  have "sub_ok False (evs @ [e]) lost' sub' \<and> (sb_registered sub' \<longrightarrow> (\<exists>es. sb_queue sub' = map Item es \<and> es \<noteq> [] \<and> last es = e))"
  proof (cases "sb_registered sub")
    case True
    with s have c: "\<not> sb_closed sub" by (auto simp: sub_ok_def)
    with s obtain es where es: "2 \<le> sb_max sub" "length es < sb_max sub" "sb_queue sub = map Item es"
      by (auto simp: sub_ok_def open_ok_def)
    from put_event_items [OF es(1,3), of e 0] obtain es' lost1 where p:
      "put_event e (sub, 0) = (sub\<lparr>sb_queue := map Item (es' @ [e])\<rparr>, lost1)" "subseq es' es" "length es' + 1 < sb_max sub"
      "lost1 = 0 \<longrightarrow> es' = es" by blast
    with d True have sub': "sub' = sub\<lparr>sb_queue := map Item (es' @ [e])\<rparr>" "n = lost1" by (simp_all add: deliver_one_def)
    from s es(3) have "subseq (sb_got sub @ es) evs" by (simp add: sub_ok_def)
    with p(2) have "subseq (sb_got sub @ es') evs"
      by (blast intro: subseq_order.trans list_emb_append_mono subseq_order.refl)
    then have "subseq ((sb_got sub @ es') @ [e]) (evs @ [e])" by (rule list_emb_append_mono) simp
    moreover have "lost' = 0 \<Longrightarrow> suffix (sb_got sub @ es' @ [e]) (evs @ [e])"
      using s l p(4) c es(3) sub'(2) by (auto simp: sub_ok_def suffix_def)
    ultimately show ?thesis using True c p(3) es(1) sub' by (auto simp: sub_ok_def open_ok_def items_snoc)
  next
    case False
    with s have "sb_closed sub" by (auto simp: sub_ok_def open_ok_def)
    with False s d show ?thesis by (auto simp: deliver_one_def sub_ok_def intro: subseq_rev_drop_many)
  qed
  then show "sub_ok False (evs @ [e]) lost' sub'"
    and "sb_registered sub' \<Longrightarrow> \<exists>es. sb_queue sub' = map Item es \<and> es \<noteq> [] \<and> last es = e" by blast+
qed

lemma deliver_ok:
  assumes "\<forall>sub \<in> set subs. sub_ok False evs lost sub" "rs = map (deliver_one e) subs" "lost' = lost + sum_list (map snd rs)"
  shows "\<forall>sub \<in> set (map fst rs). sub_ok False (evs @ [e]) lost' sub
    \<and> (sb_registered sub \<longrightarrow> (\<exists>es. sb_queue sub = map Item es \<and> es \<noteq> [] \<and> last es = e))"
proof
  fix sub' assume "sub' \<in> set (map fst rs)"
  then obtain sub n where sub: "sub \<in> set subs" "deliver_one e sub = (sub', n)" "n \<in> set (map snd rs)"
    by (force simp: assms(2))
  then have "lost + n \<le> lost'" using member_le_sum_list [OF sub(3)] assms(3) by simp
  with deliver_one_ok [OF _ sub(2)] assms(1) sub(1)
  show "sub_ok False (evs @ [e]) lost' sub' \<and> (sb_registered sub' \<longrightarrow> (\<exists>es. sb_queue sub' = map Item es \<and> es \<noteq> [] \<and> last es = e))"
    by blast
qed

lemma put_end_ok:
  assumes "sub_ok False (evs @ [e]) lost sub" "sb_registered sub" "sb_queue sub = map Item es" "es \<noteq> []" "last es = e"
  shows "sub_ok True (evs @ [e]) lost (put_end sub)"
proof -
  have c: "\<not> sb_closed sub" using assms(1,2) by (auto simp: sub_ok_def)
  with assms(1,3) have "length es < sb_max sub" by (auto simp: sub_ok_def open_ok_def)
  then have "put_end sub = sub\<lparr>sb_queue := map Item es @ [End]\<rparr>" by (simp add: put_end_def assms(3))
  with assms c \<open>length es < sb_max sub\<close> show ?thesis by (auto simp: sub_ok_def open_ok_def)
qed

lemma closed_ended: "sub_ok False evs lost sub \<Longrightarrow> \<not> sb_registered sub \<Longrightarrow> sub_ok True evs lost sub"
  by (auto simp: sub_ok_def open_ok_def)

lemma emit_ok:
  assumes "emitter_ok em evs" "emit_event nxt ty li payload now em = (Inr e, em')"
  shows "emitter_ok em' (evs @ [e])"
proof -
  from assms(2) have nt: "\<not> em_terminal em" by (auto simp: emit_event_def)
  with assms(2) obtain src where src: "em' = (if is_terminal e then end_all (deliver e (retain e (em\<lparr>em_source := src\<rparr>)))
      else deliver e (retain e (em\<lparr>em_source := src\<rparr>)))"
    by (auto simp: emit_event_def Let_def split: prod.splits sum.splits)
  define em1 where em1: "em1 = em\<lparr>em_source := src\<rparr>"
  define em2 where em2: "em2 = deliver e (retain e em1)"
  have em': "em' = (if is_terminal e then end_all em2 else em2)" by (simp add: src em1 em2)
  let ?r = "vc_replay (em_config em)"
  from assms(1) nt have r: "1 \<le> ?r" and h: "em_history em = last_events ?r evs" and b: "\<forall>x \<in> set (butlast evs). \<not> is_terminal x"
    and subs: "\<forall>sub \<in> set (em_subs em). sub_ok False evs (em_dropped em) sub" and "\<not> ended_by evs"
    by (auto simp: emitter_ok_def event_config_ok_def)
  then have plain: "\<forall>x \<in> set evs. \<not> is_terminal x"
    by (cases evs rule: rev_cases) auto
  have "em_history (retain e em1) = last_events ?r (evs @ [e])"
  proof (cases "?r \<le> length (em_history em)")
    case True
    with r have "em_history em \<noteq> []" by auto
    moreover from this h plain have "\<not> is_terminal (hd (em_history em))"
      using last_events_suffix [of ?r evs] by (metis hd_in_set set_mono_suffix subsetD)
    ultimately have "drop_oldest (\<lambda>old. \<not> is_terminal old) (em_history em) = tl (em_history em)"
      by (rule drop_oldest_hd)
    with True h r show ?thesis by (simp add: em1 retain_def last_events_snoc)
  qed (use h r in \<open>simp add: em1 retain_def last_events_snoc\<close>)
  moreover have same: "em_subs (retain e em1) = em_subs em" "em_dropped (retain e em1) = em_dropped em"
    "em_config (retain e em1) = em_config em"
    by (simp_all add: em1 retain_def Let_def)
  moreover note deliver_ok [OF subs refl refl, of e]
  ultimately have d: "em_history em2 = last_events ?r (evs @ [e])" "em_config em2 = em_config em"
    "\<forall>sub \<in> set (em_subs em2). sub_ok False (evs @ [e]) (em_dropped em2) sub
       \<and> (sb_registered sub \<longrightarrow> (\<exists>es. sb_queue sub = map Item es \<and> es \<noteq> [] \<and> last es = e))"
    by (simp_all add: em2 deliver_def Let_def)
  have t: "em_terminal em2 = False" using nt by (simp add: em1 em2 deliver_def retain_def Let_def)
  show ?thesis
  proof (cases "is_terminal e")
    case True
    have "sub_ok True (evs @ [e]) (em_dropped em2) (put_end sub)" if "sub \<in> set (em_subs em2)" "sb_registered sub" for sub
      using d(3) that by (auto intro: put_end_ok)
    moreover have "sub_ok True (evs @ [e]) (em_dropped em2) sub" if "sub \<in> set (em_subs em2)" "\<not> sb_registered sub" for sub
      using d(3) that by (auto intro: closed_ended)
    ultimately have "\<forall>sub \<in> set (em_subs (end_all em2)). sub_ok True (evs @ [e]) (em_dropped em2) sub"
      by (auto simp: end_all_def)
    with True d plain r show ?thesis using assms(1) by (simp add: emitter_ok_def em') (simp add: end_all_def)
  next
    case False
    with d plain t assms(1) show ?thesis by (auto simp: emitter_ok_def em')
  qed
qed

lemma emit_refused_ok: "emitter_ok em evs \<Longrightarrow> emit_event nxt ty li payload now em = (Inl err, em') \<Longrightarrow> emitter_ok em' evs"
  by (auto simp: emit_event_def Let_def emitter_ok_def split: prod.splits sum.splits if_splits)

lemma subscribe_ok:
  assumes "emitter_ok em evs" "\<forall>c. config = Some c \<longrightarrow> event_config_ok c"
  shows "emitter_ok (subscribe config em) evs"
proof -
  let ?o = "case config of None \<Rightarrow> em_config em | Some c \<Rightarrow> c"
  let ?new = "last_events (vc_replay ?o) (em_history em)" and ?sub = "empty_subscription ?o"
  have o: "event_config_ok ?o" using assms by (auto simp: emitter_ok_def split: option.splits)
  then have m: "2 \<le> sb_max ?sub" "sb_queue ?sub = map Item []" "length [] < sb_max ?sub"
    by (auto simp: empty_subscription_def event_config_ok_def)
  from put_all_items [OF m, of ?new 0] obtain es lost where f: "fold put_event ?new (?sub, 0) = (?sub\<lparr>sb_queue := map Item es\<rparr>, lost)"
    "subseq es ?new" "length es < sb_max ?sub" "lost = 0 \<longrightarrow> es = ?new" "?new \<noteq> [] \<longrightarrow> es \<noteq> [] \<and> last es = last ?new" by auto
  have suf: "suffix ?new evs"
    using assms(1) suffix_order.trans [OF last_events_suffix last_events_suffix] by (simp add: emitter_ok_def)
  then have es: "subseq es evs" using f(2) by (blast intro: subseq_order.trans)
  have ended: "es \<noteq> [] \<and> last es = last evs" if "em_terminal em"
  proof -
    from assms(1) that have "evs \<noteq> []" by (auto simp: emitter_ok_def)
    moreover from assms(1) have "em_history em = last_events (vc_replay (em_config em)) evs" "1 \<le> vc_replay (em_config em)"
      by (auto simp: emitter_ok_def event_config_ok_def)
    ultimately have "em_history em \<noteq> []" "last (em_history em) = last evs" by (simp_all add: last_events_one)
    with o have "?new \<noteq> []" "last ?new = last evs" by (simp_all add: last_events_one event_config_ok_def)
    with f(5) show ?thesis by simp
  qed
  let ?sub' = "?sub\<lparr>sb_queue := map Item es\<rparr>"
  have "sub_ok (em_terminal em) evs (em_dropped em + lost) (if em_terminal em then put_end ?sub' else ?sub'\<lparr>sb_registered := True\<rparr>)"
    using es suf f(3,4) m(1) ended
    by (auto simp: sub_ok_def open_ok_def put_end_def empty_subscription_def Let_def)
  moreover have "\<forall>sub \<in> set (em_subs em). sub_ok (em_terminal em) evs (em_dropped em + lost) sub"
    using emitter_subs [OF assms(1)] by (blast intro: sub_ok_dropped [OF _ le_add1])
  ultimately show ?thesis using assms(1) f(1) by (auto simp: emitter_ok_def subscribe_def Let_def)
qed

lemma subseq_appendD1: "subseq (xs @ ys) zs \<Longrightarrow> subseq xs zs"
  by (rule subseq_order.trans [of xs "xs @ ys"]) auto

lemma close_ok: "sub_ok ended evs lost sub \<Longrightarrow> sub_ok ended evs lost (close_subscription sub)"
  by (auto simp: sub_ok_def close_subscription_def dest: subseq_appendD1)

lemma receive_one_ok:
  assumes "sub_ok ended evs lost sub" "receive_one sub = (r, sub')"
  shows "sub_ok ended evs lost sub'"
proof (cases "sb_queue sub")
  case (Cons i q)
  show ?thesis
  proof (cases i)
    case (Item e)
    with Cons assms show ?thesis
      by (cases ended) (auto simp: receive_one_def sub_ok_def open_ok_def Cons_eq_map_conv Cons_eq_append_conv)
  next
    case End
    with Cons assms have "sub' = close_subscription (sub\<lparr>sb_queue := q\<rparr>)" by (simp add: receive_one_def)
    with assms(1) Cons End show ?thesis
      by (auto simp: sub_ok_def open_ok_def close_subscription_def Cons_eq_append_conv dest: subseq_appendD1)
  qed
qed (use assms in \<open>simp add: receive_one_def\<close>)

lemma emitter_always_ok: "emitter_run nxt level em evs \<Longrightarrow> emitter_ok em evs"
proof (induction rule: emitter_run.induct)
  case (er_receive em evs i r em')
  from er_receive.hyps(3) obtain sub where "receive_one (em_subs em ! i) = (r, sub)" "em' = em\<lparr>em_subs := (em_subs em)[i := sub]\<rparr>"
    by (auto simp: receive_def split: prod.splits)
  with er_receive show ?case by (auto intro: emitter_one_sub receive_one_ok)
next
  case (er_close em evs i)
  then show ?case
    by (auto simp: close_at_def intro: emitter_one_sub close_ok)
next
  case (er_start config run source li)
  then show ?case by (simp add: emitter_ok_def new_emitter_def last_events_def)
next
  case (er_source em evs source)
  then show ?case by (simp add: emitter_ok_def)
qed (auto intro: emit_ok emit_refused_ok subscribe_ok)

section \<open>Delivery\<close>

lemma receive_events:
  assumes "i < length (em_subs em)" "sb_queue (em_subs em ! i) = map Item es @ [End]" "\<not> sb_closed (em_subs em ! i)"
  shows "\<exists>em'. receive_many (length es + 1) i em = (map RxEvent es @ [RxEnd], em')
    \<and> sb_got (em_subs em' ! i) = sb_got (em_subs em ! i) @ es \<and> sb_closed (em_subs em' ! i)"
  using assms
proof (induction es arbitrary: em)
  case Nil
  then show ?case by (auto simp: receive_def receive_one_def close_subscription_def)
next
  case (Cons e es)
  let ?sub = "em_subs em ! i"
  let ?em = "em\<lparr>em_subs := (em_subs em)[i := ?sub\<lparr>sb_queue := map Item es @ [End], sb_got := sb_got ?sub @ [e]\<rparr>]\<rparr>"
  have "receive i em = (RxEvent e, ?em)" using Cons.prems by (simp add: receive_def receive_one_def)
  moreover from Cons.IH [of ?em] Cons.prems obtain em' where "receive_many (length es + 1) i ?em = (map RxEvent es @ [RxEnd], em')"
    "sb_got (em_subs em' ! i) = sb_got ?sub @ e # es" "sb_closed (em_subs em' ! i)" by auto
  ultimately show ?case by simp
qed

text \<open>
  C37. What a subscriber sees: the events of a run are numbered strictly upwards, also when other parts of the tree take
  numbers; each subscriber is given them in that order, none twice; its queue never outgrows its places and the
  history its limit; and while nothing was dropped an open subscriber misses no event since its first one.
\<close>

theorem subscribers_in_order:
  assumes "emitter_run next_event_sequence t_event_next em evs" "sub \<in> set (em_subs em)"
  shows "sorted_wrt (<) (map av_sequence evs) \<and> subseq (sb_got sub @ events_of (sb_queue sub)) evs
    \<and> length (sb_queue sub) \<le> sb_max sub \<and> length (em_history em) \<le> vc_replay (em_config em)
    \<and> (em_dropped em = 0 \<and> \<not> sb_closed sub \<longrightarrow> suffix (sb_got sub @ events_of (sb_queue sub)) evs)"
proof -
  from emitter_always_ok [OF assms(1)] have ok: "emitter_ok em evs" .
  from emitter_subs [OF ok] assms(2) have "sub_ok (em_terminal em) evs (em_dropped em) sub" by blast
  with tree_source.sequences_increase [OF assms(1)] ok show ?thesis
    by (auto simp: sub_ok_def emitter_ok_def last_events_def)
qed

text \<open>
  C38. A run that has ended tells everyone: whatever the queues had to drop and whenever the subscriber came, an open
  subscriber that keeps iterating is given what its queue holds, the last of which is the terminal event, and then the
  end of the stream.
\<close>

theorem terminal_event_reaches_everyone:
  assumes "emitter_run nxt level em evs" "em_terminal em" "i < length (em_subs em)" "\<not> sb_closed (em_subs em ! i)"
  shows "\<exists>es em'. receive_many (length (sb_queue (em_subs em ! i))) i em = (map RxEvent es @ [RxEnd], em')
    \<and> sb_got (em_subs em' ! i) = sb_got (em_subs em ! i) @ es \<and> sb_got (em_subs em' ! i) \<noteq> []
    \<and> last (sb_got (em_subs em' ! i)) = last evs \<and> is_terminal (last evs)"
proof -
  from emitter_always_ok [OF assms(1)] have ok: "emitter_ok em evs" .
  with assms(2) have t: "is_terminal (last evs)" by (simp add: emitter_ok_def ended_by_def)
  from emitter_subs [OF ok] assms(2,3) have "sub_ok True evs (em_dropped em) (em_subs em ! i)" by auto
  with assms(4) obtain es where es: "sb_queue (em_subs em ! i) = map Item es @ [End]"
    "sb_got (em_subs em ! i) @ es \<noteq> []" "last (sb_got (em_subs em ! i) @ es) = last evs"
    by (auto simp: sub_ok_def open_ok_def)
  from receive_events [OF assms(3) es(1) assms(4)] obtain em' where
    "receive_many (length es + 1) i em = (map RxEvent es @ [RxEnd], em')"
    "sb_got (em_subs em' ! i) = sb_got (em_subs em ! i) @ es" by blast
  with es t show ?thesis by (intro exI [of _ es] exI [of _ em']) simp
qed

section \<open>The stores\<close>

lemma make_event_decoded:
  assumes "make_agent_event run n ty payload (Fin t) li = Inr e" "\<forall>p. payload = Some p \<longrightarrow> pyval_ok p"
  shows "json_ok (JObj (av_payload e)) \<and> make_agent_event (av_run e) (int (av_sequence e)) (av_type e)
    (Some (thaw_json (JObj (av_payload e)))) (Fin (av_timestamp e)) (av_lineage e) = Inr e"
proof -
  from assms(1) obtain p where e: "e = \<lparr>av_run = run, av_sequence = nat n, av_type = ty, av_payload = p, av_timestamp = t, av_lineage = li\<rparr>"
    and p: "freeze_json_object payload = Inr p" and n: "0 \<le> n" "run \<noteq> []" "ty \<noteq> []"
    "\<not> (case li of None \<Rightarrow> False | Some l \<Rightarrow> ln_root l \<noteq> run)"
    by (auto simp: make_agent_event_def split: if_splits sum.splits)
  let ?v = "case payload of None \<Rightarrow> PMap [] | Some v \<Rightarrow> v"
  have "freeze_json ?v = Inr (JObj p)"
    using p by (cases "freeze_json ?v") (auto simp: freeze_json_object_def split: json.splits)
  moreover have "pyval_ok ?v" using assms(2) by (cases payload) auto
  ultimately have ok: "json_ok (JObj p)" by (rule freeze_ok(1))
  then have "freeze_json_object (Some (thaw_json (JObj p))) = Inr p"
    by (simp add: freeze_json_object_def freeze_thaw_json del: thaw_json.simps)
  with ok n show ?thesis by (simp add: e make_agent_event_def del: thaw_json.simps)
qed




section \<open>Lines\<close>

definition unbroken :: "pystr \<Rightarrow> bool" where
  "unbroken s \<longleftrightarrow> list_all (\<lambda>c. \<not> line_break c) s"



lemma unbroken_simps [simp]: "unbroken []" "unbroken (c # s) \<longleftrightarrow> \<not> line_break c \<and> unbroken s"
  "unbroken (s @ t) \<longleftrightarrow> unbroken s \<and> unbroken t" "unbroken (concat ss) \<longleftrightarrow> list_all unbroken ss"
  by (simp_all add: unbroken_def) (induction ss, simp_all add: unbroken_def)




lemma unbroken_digits [simp]: "unbroken (nat_digits n)"
proof (induction n rule: nat_digits.induct)
  case (1 n)
  have "\<not> line_break (48 + n mod 10)" by (simp add: line_break_def) presburger
  with 1 show ?case by (subst nat_digits.simps) (simp add: line_break_def)
qed


lemma split_lines_first:
  "unbroken a \<Longrightarrow> line_break c \<Longrightarrow> c \<noteq> 13 \<Longrightarrow> split_lines (a @ c # b) = (a @ [c]) # split_lines b"
proof (induction a)
  case (Cons x a)
  then have "x \<noteq> 13" by (auto simp: line_break_def)
  with Cons show ?case by simp
qed simp

lemma plain_lines_first:
  assumes "unbroken a" "line_break c" "c \<noteq> 13"
  shows "plain_lines (a @ c # b) = a # plain_lines b"
proof -
  have "line_break 13" by (simp add: line_break_def)
  with assms(1,3) have "13 \<notin> set (a @ [c])" by (auto simp: unbroken_def list_all_iff)
  then have "\<not> ends_with [13, 10] (a @ [c])"
  proof (rule contrapos_nn)
    assume "ends_with [13, 10] (a @ [c])"
    then obtain r where "a @ [c] = r @ [13, 10]" unfolding ends_with_iff by blast
    from arg_cong [OF this, of set] show "13 \<in> set (a @ [c])" by auto
  qed
  with assms show ?thesis by (simp add: plain_lines_def split_lines_first)
qed

definition all_lines :: "(rat \<Rightarrow> pystr) \<Rightarrow> agent_event list \<Rightarrow> pystr" where
  "all_lines frepr es = concat (map (\<lambda>e. event_line frepr e @ [10]) es)"

lemma plain_lines_all: "\<forall>e \<in> set es. unbroken (event_line frepr e) \<Longrightarrow> plain_lines (all_lines frepr es @ b) = map (event_line frepr) es @ plain_lines b"
  by (induction es) (simp_all add: all_lines_def plain_lines_first line_break_def)

lemma appended_lines: "fold (jsonl_append frepr) es (Some content) = Some (content @ all_lines frepr es)"
  by (induction es arbitrary: content) (simp_all add: all_lines_def jsonl_append_def)

lemma jsonl_content:
  "jsonl_list loads now run (fold (jsonl_append frepr) es None) = jsonl_list loads now run (Some (all_lines frepr es))"
proof (cases es)
  case (Cons e es')
  then show ?thesis by (simp add: jsonl_append_def [of frepr e] appended_lines) (simp add: all_lines_def)
qed (simp add: jsonl_list_def all_lines_def plain_lines_def)


lemma map_res_fails: "x \<in> set xs \<Longrightarrow> f x = Inl e \<Longrightarrow> \<exists>err. map_res f xs = Inl err"
  by (induction xs) (auto split: sum.splits, (case_tac "f a"; fastforce)+)


text \<open>
  C40. One event can make the file unreadable: when the text of an event holds a next-line, line or paragraph separator
  (which \<open>json.dumps\<close> leaves as it is and \<open>str.splitlines\<close> breaks at), listing raises for every run, whatever is
  appended before and after, since no JSON text ends inside a string.
\<close>

theorem separator_breaks_store:
  assumes "\<forall>e \<in> set earlier. unbroken (event_line frepr e)"
    and "event_line frepr e = piece @ c # rest" "unbroken piece" "c \<in> {133, 8232, 8233}" "loads piece = None"
  shows "\<exists>err. jsonl_list loads now run (fold (jsonl_append frepr) (earlier @ e # later) None) = Inl err"
proof -
  let ?f = "\<lambda>l. case loads l of None \<Rightarrow> Inl Raised | Some v \<Rightarrow> decode_event now v"
  have "all_lines frepr (earlier @ e # later) = all_lines frepr earlier @ piece @ c # rest @ [10] @ all_lines frepr later"
    by (simp add: all_lines_def assms(2))
  moreover have "line_break c" "c \<noteq> 13" using assms(4) by (auto simp: line_break_def)
  ultimately have "piece \<in> set (plain_lines (all_lines frepr (earlier @ e # later)))"
    by (simp add: plain_lines_all [OF assms(1)] plain_lines_first [OF assms(3)])
  moreover have "?f piece = Inl Raised" using assms(5) by simp
  ultimately obtain err where "map_res ?f (plain_lines (all_lines frepr (earlier @ e # later))) = Inl err"
    by (metis map_res_fails)
  then have "jsonl_list loads now run (Some (all_lines frepr (earlier @ e # later))) = Inl err"
    by (simp add: jsonl_list_def)
  then show ?thesis unfolding jsonl_content by blast
qed

section \<open>Examples\<close>

text \<open>A run with a queue of one event: two events and the terminal one, and a subscriber that came first.\<close>

definition tiny_config :: event_config where
  "tiny_config = \<lparr>vc_max_queue = 1, vc_replay = 2\<rparr>"

definition emit_plain :: "('s \<Rightarrow> nat \<times> 's) \<Rightarrow> pystr \<Rightarrow> 's emitter \<times> agent_event list \<Rightarrow> 's emitter \<times> agent_event list" where
  "emit_plain nxt ty p = (case emit_event nxt ty None None (Fin 0) (fst p) of
     (Inr e, em) \<Rightarrow> (em, snd p @ [e]) | (Inl err, em) \<Rightarrow> (em, snd p))"

lemma emit_plain_run:
  "emitter_run nxt level (fst p) (snd p) \<Longrightarrow> emitter_run nxt level (fst (emit_plain nxt ty p)) (snd (emit_plain nxt ty p))"
  by (auto simp: emit_plain_def split: prod.split sum.split intro: er_emit er_refused)

definition three_events :: "('s \<Rightarrow> nat \<times> 's) \<Rightarrow> 's \<Rightarrow> 's emitter \<times> agent_event list" where
  "three_events nxt source = emit_plain nxt (ascii ''run.completed'') (emit_plain nxt [98] (emit_plain nxt [97]
     (subscribe None (new_emitter [114] tiny_config source None), [])))"

lemma three_events_run: "emitter_run nxt level (fst (three_events nxt source)) (snd (three_events nxt source))"
  unfolding three_events_def
  by (intro emit_plain_run, unfold fst_conv snd_conv, rule er_subscribe, rule er_start)
    (simp_all add: tiny_config_def event_config_ok_def)

lemmas emit_defs = three_events_def emit_plain_def emit_event_def own_counter_def make_agent_event_def freeze_json_object_def retain_def
  deliver_def deliver_one_def put_event_def put_end_def end_all_def subscribe_def empty_subscription_def last_events_def
  new_emitter_def tiny_config_def is_terminal_def terminal_types_def drop_oldest_def droppable_def Let_def

lemma three_events_state:
  "em_terminal (fst (three_events own_counter 0)) \<and> em_dropped (fst (three_events own_counter 0)) = 2
   \<and> length (em_subs (fst (three_events own_counter 0))) = 1
   \<and> \<not> sb_closed (em_subs (fst (three_events own_counter 0)) ! 0)
   \<and> length (sb_queue (em_subs (fst (three_events own_counter 0)) ! 0)) = 2"
  by (simp add: emit_defs make_room.simps ascii_def)

theorem terminal_event_reaches_everyone_witness:
  "\<exists>em'. snd (receive_many 2 0 (fst (three_events own_counter 0))) = em' \<and> sb_got (em_subs em' ! 0) \<noteq> []
     \<and> is_terminal (last (sb_got (em_subs em' ! 0)))"
  using terminal_event_reaches_everyone [OF three_events_run [of own_counter "\<lambda>n. n" 0], of 0] three_events_state by auto

lemma three_events_subs: "em_subs (fst (three_events next_event_sequence t)) \<noteq> []"
  by (simp add: emit_defs next_event_sequence_def make_room.simps ascii_def)

theorem subscribers_in_order_witness:
  "\<exists>sub. sub \<in> set (em_subs (fst (three_events next_event_sequence demo_tree0)))
    \<and> sorted_wrt (<) (map av_sequence (snd (three_events next_event_sequence demo_tree0)))
    \<and> subseq (sb_got sub @ events_of (sb_queue sub)) (snd (three_events next_event_sequence demo_tree0))"
proof -
  from three_events_subs obtain sub where sub: "sub \<in> set (em_subs (fst (three_events next_event_sequence demo_tree0)))"
    by (metis last_in_set)
  from subscribers_in_order [OF three_events_run this] sub show ?thesis by blast
qed

text \<open>An event with a text, and what is written of it.\<close>

definition text_event :: "pystr \<Rightarrow> agent_event" where
  "text_event t = \<lparr>av_run = [114], av_sequence = 0, av_type = [97], av_payload = [([116], JStr t)], av_timestamp = 0, av_lineage = None\<rparr>"


lemma text_event_line: "\<exists>rest. event_line frepr (text_event [8232])
   = ascii ''{\"run_id\":\"r\",\"sequence\":0,\"type\":\"a\",\"payload\":{\"t\":\"'' @ 8232 # rest"
  by (simp add: event_line_def encode_event_def text_event_def J_record_def member_text_def quote_def escape_char_def
      int_text_def nat_digits.simps ascii_def Let_def)


theorem separator_breaks_store_witness:
  "\<exists>err. jsonl_list (\<lambda>l. if last l = 125 then Some (thaw_json (encode_event (text_event []))) else None) 0 [120]
      (fold (jsonl_append (\<lambda>_. [48])) [text_event [8232]] None) = Inl err"
proof -
  let ?piece = "ascii ''{\"run_id\":\"r\",\"sequence\":0,\"type\":\"a\",\"payload\":{\"t\":\"''"
  from text_event_line obtain rest where r: "event_line (\<lambda>_. [48]) (text_event [8232]) = ?piece @ 8232 # rest" by blast
  have "unbroken ?piece" "last ?piece = 34" by (simp_all add: ascii_def line_break_def)
  then show ?thesis
    using separator_breaks_store [OF _ r, of "[]" "\<lambda>l. if last l = 125 then Some (thaw_json (encode_event (text_event []))) else None" 0 "[120]" "[]"]
    by simp
qed

end
