(* ===== verification/Spec2Isabelle.thy ===== *)
theory Spec2Isabelle
  imports ExecProps DataProps PatchProps WorldProps SessionProps ExecutorProps ArtifactProps ContextProps ModelProps RunEventProps
begin

text \<open>
  RoboAgent 1.3 runs model-driven agents: a session holds messages and runs, a run drives a model and
  tools inside an execution tree of scopes, tools contribute effects, usage and records to that tree, and
  \<open>apply_patch\<close> is the tool that changes files. This development models that core and proves what
  makes it correct.

  Theories and the code they model, under \<open>src/roboagent/\<close>. \<open>Prelude\<close>, \<open>Utf8\<close> (with base64) and \<open>Pytext\<close>
  hold what the program uses of Python: dictionaries as association lists in insertion order, raising
  code as sums, UTF-8, the string methods. \<open>Json\<close> and \<open>Messages\<close> model \<open>message.py\<close>;
  \<open>CancelTokens\<close> models the cancellation tokens of \<open>runtime/types.py\<close>; \<open>ToolTypes\<close> models the
  records of \<open>tool/tool.py\<close>. \<open>ExecTree\<close> and \<open>ExecScope\<close> model \<open>runtime/execution.py\<close>
  with \<open>runtime/_execution/\<close>, one definition per method, on one record \<open>tree\<close>. \<open>TreeInv\<close>,
  \<open>TreeClose\<close> and \<open>TreeLedger\<close> hold the invariants of the scopes and of the
  ledger; \<open>ExecSteps\<close> the step relation in which closes of scopes interleave with all other
  operations, \<open>ExecReach\<close> the invariant of its reachable configurations, \<open>ExecViews\<close> the
  specifications of the views and a concrete tree, \<open>ExecProps\<close> the properties.
  \<open>Settlement\<close> models the settlement barrier over any handler. \<open>PatchText\<close> and \<open>PatchLaws\<close>
  model the patch language of \<open>tool/apply_patch.py\<close>; \<open>PatchFs\<close> is a POSIX directory tree whose
  calls can fail, \<open>PatchTxn\<close> and \<open>PatchTool\<close> the transaction, \<open>PatchAtomic\<close>, \<open>PatchSettle\<close>
  and \<open>PatchCommit\<close> its lemmas, and the interpretation of the barrier's interface on its handler;
  \<open>PatchApply\<close> and \<open>PatchProps\<close> compose the whole tool. \<open>DataProps\<close> holds the properties of
  messages, tool records and cancellation tokens.

  The world model. \<open>WorldTypes\<close> models
  the records of \<open>world/\<close>, \<open>WorldCommit\<close> the checks and the commit of a batch,
  \<open>WorldRead\<close>, \<open>WorldQuery\<close> and \<open>WorldAnswers\<close> the snapshots, queries and entity search,
  \<open>WorldInv\<close> and \<open>WorldKeep\<close> the invariant of the committed state, \<open>WorldProps\<close> the properties.

  Sessions. \<open>SessionCodec\<close> models the digest of messages and the snapshot codec, \<open>SessionRound\<close> its round trip; \<open>SessionState\<close> the session and
  its operations; \<open>SessionRepo\<close> the repositories in memory and on a directory whose calls can fail;
  \<open>SessionSteps\<close> the step relation in which the stages of a persist interleave with the operations.
  \<open>SessionStore\<close> is the interface of a repository (the locale \<open>snapshot_store\<close>), interpreted on both
  repositories there and in \<open>SessionLocal\<close>; \<open>SessionKeep\<close> and \<open>SessionHistory\<close> hold the
  invariants proved from it and \<open>SessionProps\<close> the properties.

  The tool executor. \<open>Programs\<close> has programs that may raise and may wait for ever, with a triple;
  \<open>ToolOutput\<close>, \<open>Workspace\<close> and \<open>Materializer\<close> model raw output, \<open>tool/workspace.py\<close> in memory and
  \<open>tool/materializer.py\<close>; \<open>ExecutorTypes\<close>, \<open>Executor\<close> and \<open>ExecutorBatch\<close> \<open>tool/executor.py\<close>, one
  definition per method and per \<open>except\<close> clause, on the execution tree. A policy, a hook, an approval
  provider, a handler or a materializer is an answer in the record \<open>foreign\<close>; what other tasks do to the
  tree while a call awaits is a script of interludes, one per await; a concurrent batch follows a schedule
  of the tasks that end. \<open>TreeGrows\<close>, \<open>ExecutorQuiet\<close>, \<open>ExecutorLaws\<close>, \<open>ExecutorSettled\<close> and
  \<open>BatchLaws\<close> show what calls and batches leave in the ledger, \<open>BatchResults\<close> that every slot of a batch is
  filled, \<open>ExecutorReturns\<close> and \<open>BatchReturns\<close> that calls and batches end; \<open>ExecutorProps\<close> and \<open>ArtifactProps\<close> hold the properties.

  Contexts, what a model is asked with. \<open>ContextTypes\<close> models \<open>context/manager.py\<close>, \<open>ContextWorld\<close>
  \<open>context/world.py\<close> and the budget of a request, \<open>ContextBudget\<close> the three managers and \<open>context/budget.py\<close>.
  \<open>ContextLaws\<close> shows what groups, windows, boundaries and protected entries are, \<open>ContextSafe\<close> what each
  preparation answers and which errors a canonical transcript rules out, \<open>ContextProps\<close> has the
  properties. The snapshot of the world in a request is the one \<open>WorldQuery\<close> takes, the validator the groups are
  compared with that of \<open>Messages\<close>. A renderer, an estimator, a summarizer or a projection of the host is a function.

  Models. \<open>ModelTypes\<close> models the canonical protocol of \<open>model/client.py\<close> (capabilities, settings, the events of a
  stream and \<open>collect_model_stream\<close>) and the adapter \<open>_stream_chunks\<close> that makes such events of what an
  OpenAI-compatible provider sends, \<open>ModelRequest\<close> the request (\<open>_messages\<close>, \<open>_content\<close>, \<open>_read_artifact\<close>, the payload)
  with the media it opens, the method \<open>stream\<close> around both and what a provider may rely on. \<open>ModelLaws\<close>
  relates each state of the adapter to the collector that has read its events, and the response to the
  events; \<open>ModelProps\<close> has the properties. The provider, \<open>json.loads\<close>, \<open>uuid4\<close>, the resolver of media and the reader
  of artifacts are functions; \<open>loads_ok\<close> says that \<open>json.loads\<close> gives plain values.

  Events of a run. \<open>RunEvents\<close> models \<open>runtime/event.py\<close> (the emitter, its history and the bounded queues of its
  subscriptions) and \<open>runtime/store.py\<close> (the codec, the memory store and the file of JSON lines, as its text);
  \<open>RunEventProps\<close> has the locale \<open>sequence_source\<close> of what numbers the events, interpreted on the counter of the emitter
  and on that of the execution tree, the invariant of the emitter and the properties.

  Conventions. A Python string is a list of code points, a dictionary an association list in insertion
  order, a raising function a sum whose left side is the error, a float a rational. What lies outside the
  repository's own code is a parameter: the hash and the text of a float (\<open>codec\<close>), the operating
  system's calls as an environment that decides which call fails, identifiers and times as arguments. The
  hypotheses on such parameters are named: \<open>names_apart\<close>, that the temporary names of a patch are not
  names it targets, and \<open>no_collision\<close> for digests. Of the executor's surroundings, \<open>plain_foreign\<close> says
  that hosts do not raise the executor's own batch exceptions, \<open>unused_ids\<close> that a fresh scope identity is
  new, \<open>tame\<close> that other tasks move the tree only by its operations, and \<open>hexadecimal\<close> what a digest is
  written with. A stored document stands for its JSON text. Loops
  over Python sequences are structural recursions and recursions on JSON trees are on the tree; the loops
  that climb the parent chain of scopes take fuel (\<open>chain_fuel\<close>), and \<open>TreeInv\<close> shows it is enough.

  Not modelled: the network clients behind a model, the servers the tools talk to and the process and
  terminal handling, whose behaviour is that of the libraries they call; the manifest gives the reason
  for each part.
\<close>

end
